(* ===== verification/V2bX_Prelude.thy ===== *)
theory V2bX_Prelude
  imports Main "HOL-Library.Signed_Division"
begin

text \<open>
  What every component shares: Go's 64-bit signed arithmetic, Go strings as byte lists and the
  functions of the packages strings and strconv the sources call, Go errors as values, and Go
  maps.  A Go map (and a sync.Map) is an association list whose order stands for one possible
  order of iteration; a theorem about every list is a theorem about every order.
\<close>

named_theorems go_arith "64-bit arithmetic: bounds and absorption of the wrap-around"
named_theorems go_map "look-up after an update, a deletion or a fold over a Go map"
named_theorems go_str "evaluation of the string helpers"

section \<open>Errors\<close>

type_synonym err = string

text \<open>A Go function returning \<open>(T, error)\<close> is a sum: \<open>Inl\<close> the error, \<open>Inr\<close> the value; a
  function returning just \<open>error\<close> gives an optional error, \<open>None\<close> standing for nil.\<close>

type_synonym 'a res = "err + 'a"

fun is_ok :: "'a res \<Rightarrow> bool" where
  "is_ok (Inl _) = False"
| "is_ok (Inr _) = True"

section \<open>Signed 64-bit integers\<close>

definition w64 :: "int \<Rightarrow> int" where
  "w64 x = (x + 2 ^ 63) mod 2 ^ 64 - 2 ^ 63"

abbreviation in64 :: "int \<Rightarrow> bool" where
  "in64 x \<equiv> - (2 ^ 63) \<le> x \<and> x < 2 ^ 63"

definition add64 :: "int \<Rightarrow> int \<Rightarrow> int" where
  "add64 a b = w64 (a + b)"

definition mul64 :: "int \<Rightarrow> int \<Rightarrow> int" where
  "mul64 a b = w64 (a * b)"

text \<open>Go's \<open>/\<close> truncates towards zero; the sources divide by constants only.\<close>

definition quot64 :: "int \<Rightarrow> int \<Rightarrow> int" where
  "quot64 a b = w64 (sgn a * sgn b * (\<bar>a\<bar> div \<bar>b\<bar>))"

lemma w64_in64 [go_arith]: "in64 (w64 x)"
  unfolding w64_def using pos_mod_bound [of "2 ^ 64" "x + 2 ^ 63"] pos_mod_sign [of "2 ^ 64" "x + 2 ^ 63"]
  by simp

lemma w64_id [go_arith]: "in64 x \<Longrightarrow> w64 x = x"
  by (simp add: w64_def)

lemma w64_add_absorb [go_arith]: "w64 (w64 a + b) = w64 (a + b)" "w64 (a + w64 b) = w64 (a + b)"
proof -
  have "((a + 2 ^ 63) mod 2 ^ 64 - 2 ^ 63 + b + 2 ^ 63) mod 2 ^ 64 = (a + b + 2 ^ 63) mod 2 ^ 64" for a b :: int
    using mod_add_left_eq [of "a + 2 ^ 63" "2 ^ 64" b] by (simp add: ac_simps)
  then show "w64 (w64 a + b) = w64 (a + b)" "w64 (a + w64 b) = w64 (a + b)"
    by (simp_all add: w64_def add.commute add.left_commute)
qed

lemma w64_idem [simp]: "w64 (w64 x) = w64 x"
  using w64_add_absorb(1) [of x 0] by simp

lemma add64_assoc [go_arith]: "add64 (add64 a b) c = add64 a (add64 b c)"
  by (simp add: add64_def go_arith add.assoc)

lemma add64_commute [go_arith]: "add64 a b = add64 b a"
  by (simp add: add64_def add.commute)

lemma add64_0 [simp]: "add64 0 b = w64 b" "add64 b 0 = w64 b"
  by (simp_all add: add64_def)

section \<open>Go maps\<close>

type_synonym ('k, 'v) gomap = "('k \<times> 'v) list"

fun mput :: "'k \<Rightarrow> 'v \<Rightarrow> ('k, 'v) gomap \<Rightarrow> ('k, 'v) gomap" where
  "mput k v [] = [(k, v)]"
| "mput k v (p # m) = (if fst p = k then (k, v) # m else p # mput k v m)"

fun mdel :: "'k \<Rightarrow> ('k, 'v) gomap \<Rightarrow> ('k, 'v) gomap" where
  "mdel k [] = []"
| "mdel k (p # m) = (if fst p = k then mdel k m else p # mdel k m)"

definition mhas :: "('k, 'v) gomap \<Rightarrow> 'k \<Rightarrow> bool" where
  "mhas m k \<longleftrightarrow> map_of m k \<noteq> None"

text \<open>Indexing a Go map yields the zero value of the element type where the key is absent.\<close>

definition mget_or :: "'v \<Rightarrow> ('k, 'v) gomap \<Rightarrow> 'k \<Rightarrow> 'v" where
  "mget_or z m k = (case map_of m k of None \<Rightarrow> z | Some v \<Rightarrow> v)"

definition mwf :: "('k, 'v) gomap \<Rightarrow> bool" where
  "mwf m \<longleftrightarrow> distinct (map fst m)"

lemma map_of_mput [simp, go_map]: "map_of (mput k v m) = (map_of m)(k \<mapsto> v)"
  by (induction m) auto

lemma map_of_mdel [simp, go_map]: "map_of (mdel k m) = (map_of m)(k := None)"
  by (induction m) auto

lemma fst_set_mput: "fst ` set (mput k v m) = insert k (fst ` set m)"
  by (induction m) auto

lemma fst_set_mdel: "fst ` set (mdel k m) = fst ` set m - {k}"
  by (induction m) auto

lemma mwf_Nil [simp, intro]: "mwf []"
  by (simp add: mwf_def)

lemma mwf_mput [simp, intro]: "mwf m \<Longrightarrow> mwf (mput k v m)"
proof (induction m)
  case (Cons p m)
  then show ?case using fst_set_mput [of k v m] by (auto simp: mwf_def)
qed (simp add: mwf_def)

lemma mwf_mdel [simp, intro]: "mwf m \<Longrightarrow> mwf (mdel k m)"
proof (induction m)
  case (Cons p m)
  then show ?case using fst_set_mdel [of k m] by (auto simp: mwf_def)
qed (simp add: mwf_def)

lemma mhas_mput [simp, go_map]: "mhas (mput k v m) j \<longleftrightarrow> j = k \<or> mhas m j"
  by (simp add: mhas_def)

lemma mhas_mdel [simp, go_map]: "mhas (mdel k m) j \<longleftrightarrow> j \<noteq> k \<and> mhas m j"
  by (simp add: mhas_def)

lemma mhas_Nil [simp]: "\<not> mhas [] k"
  by (simp add: mhas_def)

lemma mhas_set: "mhas m k \<longleftrightarrow> k \<in> fst ` set m"
  by (force simp: mhas_def map_of_eq_None_iff)

lemma mget_or_Nil [simp]: "mget_or z [] k = z"
  by (simp add: mget_or_def)

lemma mget_or_mput [simp, go_map]: "mget_or z (mput k v m) j = (if j = k then v else mget_or z m j)"
  by (simp add: mget_or_def)

lemma mget_or_mdel [simp, go_map]: "mget_or z (mdel k m) j = (if j = k then z else mget_or z m j)"
  by (simp add: mget_or_def)

lemma map_of_mput_swap:
  "k \<noteq> j \<Longrightarrow> map_of (mput k v (mput j w m)) = map_of (mput j w (mput k v m))"
  by (simp add: fun_upd_twist)

subsection \<open>The map interface\<close>

text \<open>The contract of a Go map as its clients use it; the association lists provide it.\<close>

locale go_store =
  fixes lookup :: "'m \<Rightarrow> 'k \<Rightarrow> 'v option"
    and put :: "'k \<Rightarrow> 'v \<Rightarrow> 'm \<Rightarrow> 'm"
    and del :: "'k \<Rightarrow> 'm \<Rightarrow> 'm"
  assumes lookup_put: "lookup (put k v m) j = (if j = k then Some v else lookup m j)"
    and lookup_del: "lookup (del k m) j = (if j = k then None else lookup m j)"
begin

lemma lookup_put_all:
  "lookup (fold (\<lambda>k. put k (f k)) ks m) j = (if j \<in> set ks then Some (f j) else lookup m j)"
  by (induction ks arbitrary: m) (auto simp: lookup_put)

lemma lookup_del_all:
  "lookup (fold del ks m) j = (if j \<in> set ks then None else lookup m j)"
  by (induction ks arbitrary: m) (auto simp: lookup_del)

lemma lookup_replace_all:
  "lookup (fold (\<lambda>k. put k (f k)) new (fold del old m)) j =
     (if j \<in> set new then Some (f j) else if j \<in> set old then None else lookup m j)"
  by (simp add: lookup_put_all lookup_del_all)

end

interpretation gm: go_store "map_of :: ('k, 'v) gomap \<Rightarrow> 'k \<Rightarrow> 'v option" mput mdel
  by unfold_locales auto

lemmas gm_folds = gm.lookup_put_all gm.lookup_del_all gm.lookup_replace_all

end
