(* ===== verification/Go_Strings.thy ===== *)
theory Go_Strings
  imports V2bX_Prelude
begin

text \<open>
  Go strings are byte sequences, here lists of \<^typ>\<open>char\<close>.  The functions below are the parts of
  the standard packages strings and strconv the sources use.  \<open>ToLower\<close> acts on ASCII letters, the
  only letters in the keywords the sources compare its result with.
\<close>

section \<open>Package strings\<close>

definition HasPrefix :: "string \<Rightarrow> string \<Rightarrow> bool" where
  "HasPrefix s p \<longleftrightarrow> take (length p) s = p"

definition HasSuffix :: "string \<Rightarrow> string \<Rightarrow> bool" where
  "HasSuffix s p \<longleftrightarrow> length p \<le> length s \<and> drop (length s - length p) s = p"

definition TrimPrefix :: "string \<Rightarrow> string \<Rightarrow> string" where
  "TrimPrefix s p = (if HasPrefix s p then drop (length p) s else s)"

definition TrimSuffix :: "string \<Rightarrow> string \<Rightarrow> string" where
  "TrimSuffix s p = (if HasSuffix s p then take (length s - length p) s else s)"

definition lower_char :: "char \<Rightarrow> char" where
  "lower_char c = (case map_of (zip ''ABCDEFGHIJKLMNOPQRSTUVWXYZ'' ''abcdefghijklmnopqrstuvwxyz'') c of
     None \<Rightarrow> c | Some d \<Rightarrow> d)"

definition ToLower :: "string \<Rightarrow> string" where
  "ToLower s = map lower_char s"

text \<open>\<open>strings.Split\<close> with a separator of one byte.\<close>

fun Split :: "string \<Rightarrow> char \<Rightarrow> string list" where
  "Split [] c = [[]]"
| "Split (x # xs) c =
     (if x = c then [] # Split xs c
      else (case Split xs c of [] \<Rightarrow> [[x]] | y # ys \<Rightarrow> (x # y) # ys))"

fun Join :: "string list \<Rightarrow> string \<Rightarrow> string" where
  "Join [] sep = []"
| "Join [s] sep = s"
| "Join (s # t # ss) sep = s @ sep @ Join (t # ss) sep"

fun Contains :: "string \<Rightarrow> string \<Rightarrow> bool" where
  "Contains [] p \<longleftrightarrow> p = []"
| "Contains (x # xs) p \<longleftrightarrow> HasPrefix (x # xs) p \<or> Contains xs p"

lemma HasPrefix_append [simp]: "HasPrefix (p @ s) p"
  by (simp add: HasPrefix_def)

lemma HasPrefixE: "HasPrefix s p \<Longrightarrow> \<exists>r. s = p @ r"
  unfolding HasPrefix_def by (metis append_take_drop_id)

lemma TrimPrefix_append [simp]: "TrimPrefix (p @ s) p = s"
  by (simp add: TrimPrefix_def)

lemma TrimSuffix_append [simp]: "TrimSuffix (s @ p) p = s"
  by (simp add: TrimSuffix_def HasSuffix_def)

lemma Split_nonempty [simp]: "Split s c \<noteq> []"
  by (induction s) (auto split: list.splits)

lemma length_Split_pos: "0 < length (Split s c)"
  by simp

lemma Join_Split: "Join (Split s c) [c] = s"
proof (induction s)
  case (Cons x xs)
  obtain y ys where y: "Split xs c = y # ys" by (cases "Split xs c") auto
  with Cons show ?case by (cases ys) auto
qed simp

lemma Split_no_sep: "t \<in> set (Split s c) \<Longrightarrow> c \<notin> set t"
proof (induction s arbitrary: t)
  case (Cons x xs)
  obtain y ys where y: "Split xs c = y # ys" by (cases "Split xs c") auto
  with Cons show ?case by (auto split: if_splits)
qed simp

lemma Split_single: "c \<notin> set s \<Longrightarrow> Split s c = [s]"
  by (induction s) auto

lemma Split_append_sep: "c \<notin> set s \<Longrightarrow> Split (s @ c # t) c = s # Split t c"
  by (induction s) auto

lemma Split_Join:
  "ss \<noteq> [] \<Longrightarrow> \<forall>s \<in> set ss. c \<notin> set s \<Longrightarrow> Split (Join ss [c]) c = ss"
proof (induction ss "[c]" rule: Join.induct)
  case (2 s)
  then show ?case by (simp add: Split_single)
next
  case (3 s t ss)
  then show ?case by (simp add: Split_append_sep)
qed simp

text \<open>\<open>net.SplitHostPort\<close>: the last colon separates the port; an address in brackets may hold colons.\<close>

fun last_colon :: "nat \<Rightarrow> string \<Rightarrow> nat option \<Rightarrow> nat option" where
  "last_colon i [] found = found"
| "last_colon i (c # cs) found = last_colon (i + 1) cs (if c = CHR '':'' then Some i else found)"

fun index_of :: "char \<Rightarrow> string \<Rightarrow> nat option" where
  "index_of c [] = None"
| "index_of c (x # xs) = (if x = c then Some 0 else map_option Suc (index_of c xs))"

definition SplitHostPort :: "string \<Rightarrow> (string \<times> string) option" where
  "SplitHostPort s = (case last_colon 0 s None of
     None \<Rightarrow> None
   | Some i \<Rightarrow>
       if take 1 s = ''['' then
         (case index_of (CHR '']'') s of
            None \<Rightarrow> None
          | Some e \<Rightarrow>
              if e + 1 \<noteq> i then None
              else if CHR ''['' \<in> set (drop 1 s) \<or> CHR '']'' \<in> set (drop (e + 1) s) then None
              else Some (take (e - 1) (drop 1 s), drop (i + 1) s))
       else if CHR '':'' \<in> set (take i s) then None
       else if CHR ''['' \<in> set s \<or> CHR '']'' \<in> set s then None
       else Some (take i s, drop (i + 1) s))"

text \<open>\<open>errors.Join\<close>: the messages of the errors that are not nil, a line each; nil when there is none.\<close>

definition errors_Join :: "err option list \<Rightarrow> err option" where
  "errors_Join es = (let ms = map the (filter (\<lambda>e. e \<noteq> None) es)
     in if ms = [] then None else Some (Join ms [CHR 0x0A]))"

lemma errors_Join_None [simp]: "errors_Join es = None \<longleftrightarrow> list_all (\<lambda>e. e = None) es"
  by (induction es) (auto simp: errors_Join_def Let_def)

section \<open>Package strconv\<close>

definition digit_val :: "char \<Rightarrow> nat option" where
  "digit_val c = map_of (zip ''0123456789'' [0, 1, 2, 3, 4, 5, 6, 7, 8, 9]) c"

definition digit_char :: "nat \<Rightarrow> char" where
  "digit_char d = ''0123456789'' ! d"

fun digits_acc :: "nat \<Rightarrow> string \<Rightarrow> nat option" where
  "digits_acc a [] = Some a"
| "digits_acc a (c # cs) = (case digit_val c of None \<Rightarrow> None | Some d \<Rightarrow> digits_acc (10 * a + d) cs)"

definition all_digits :: "string \<Rightarrow> bool" where
  "all_digits s \<longleftrightarrow> list_all (\<lambda>c. digit_val c \<noteq> None) s"

definition parse_digits :: "string \<Rightarrow> nat option" where
  "parse_digits s = (if s = [] then None else digits_acc 0 s)"

text \<open>\<open>strconv.ParseUint(s, 10, bits)\<close>: a syntax or range error is \<open>None\<close>.\<close>

definition ParseUint :: "nat \<Rightarrow> string \<Rightarrow> nat option" where
  "ParseUint bits s = (case parse_digits s of
     None \<Rightarrow> None | Some n \<Rightarrow> if n < 2 ^ bits then Some n else None)"

text \<open>
  \<open>strconv.Atoi\<close> gives a value and an error; callers that ignore the error see 0 for a syntax
  error and the nearest representable value for a range error.
\<close>

definition Atoi :: "string \<Rightarrow> int \<times> bool" where
  "Atoi s =
     (let neg = (case s of [] \<Rightarrow> False | c # _ \<Rightarrow> c = CHR ''-'');
          body = (case s of [] \<Rightarrow> [] | c # cs \<Rightarrow> if c = CHR ''-'' \<or> c = CHR ''+'' then cs else s)
      in case parse_digits body of
           None \<Rightarrow> (0, True)
         | Some n \<Rightarrow>
             if neg then (if n \<le> 2 ^ 63 then (- int n, False) else (- (2 ^ 63), True))
             else (if n < 2 ^ 63 then (int n, False) else (2 ^ 63 - 1, True)))"

fun utoa :: "nat \<Rightarrow> string" where
  "utoa n = (if n < 10 then [digit_char n] else utoa (n div 10) @ [digit_char (n mod 10)])"

declare utoa.simps [simp del]

definition Itoa :: "int \<Rightarrow> string" where
  "Itoa i = (if i < 0 then CHR ''-'' # utoa (nat (- i)) else utoa (nat i))"

lemma digit_val_char: "d < 10 \<Longrightarrow> digit_val (digit_char d) = Some d"
proof -
  assume "d < 10"
  then have "d \<in> {0, 1, 2, 3, 4, 5, 6, 7, 8, 9}" by auto
  then show ?thesis by (auto simp: digit_val_def digit_char_def)
qed

lemma digits_acc_append:
  "digits_acc a (s @ t) = (case digits_acc a s of None \<Rightarrow> None | Some b \<Rightarrow> digits_acc b t)"
  by (induction s arbitrary: a) (auto split: option.splits)

lemma utoa_nonempty [simp]: "utoa n \<noteq> []"
  by (subst utoa.simps) simp

lemma digits_acc_utoa: "digits_acc 0 (utoa n) = Some n"
proof (induction n rule: utoa.induct)
  case (1 n)
  show ?case
  proof (cases "n < 10")
    case True
    then show ?thesis by (subst utoa.simps) (simp add: digit_val_char)
  next
    case False
    with 1 show ?thesis
      by (subst utoa.simps) (simp add: digits_acc_append digit_val_char)
  qed
qed

lemma parse_utoa: "parse_digits (utoa n) = Some n"
  by (simp add: parse_digits_def digits_acc_utoa)

lemma utoa_inj: "utoa m = utoa n \<Longrightarrow> m = n"
  by (metis digits_acc_utoa option.inject)

lemma hd_utoa_step: "\<not> n < 10 \<Longrightarrow> hd (utoa n) = hd (utoa (n div 10))"
  by (simp only: utoa.simps [of n] if_False hd_append utoa_nonempty)

lemma hd_utoa_base: "n < 10 \<Longrightarrow> hd (utoa n) = digit_char n"
  by (subst utoa.simps) simp

lemma hd_utoa_digit: "\<exists>d. digit_val (hd (utoa n)) = Some d"
proof (induction n rule: less_induct)
  case (less n)
  show ?case
  proof (cases "n < 10")
    case True
    then show ?thesis using digit_val_char [of n] by (simp only: hd_utoa_base) blast
  next
    case False
    then have "n div 10 < n" by simp
    from less.IH [OF this] show ?thesis unfolding hd_utoa_step [OF False] .
  qed
qed

lemma digit_not_minus: "digit_val CHR ''-'' = None" "digit_val CHR ''+'' = None"
  by (simp_all add: digit_val_def)

lemma utoa_not_sign: "utoa n \<noteq> CHR ''-'' # s" "utoa n \<noteq> CHR ''+'' # s"
  using hd_utoa_digit [of n] digit_not_minus by auto

lemma Itoa_inj: "Itoa i = Itoa j \<Longrightarrow> i = j"
proof -
  assume "Itoa i = Itoa j"
  then have "(i < 0 \<longleftrightarrow> j < 0) \<and> nat \<bar>i\<bar> = nat \<bar>j\<bar>"
    using utoa_not_sign(1) [of "nat i"] utoa_not_sign(1) [of "nat j", symmetric]
    by (auto simp: Itoa_def dest: utoa_inj split: if_splits)
  then show ?thesis by (auto simp: abs_if split: if_splits)
qed

lemma Atoi_Itoa: "in64 i \<Longrightarrow> Atoi (Itoa i) = (i, False)"
proof -
  assume i: "in64 i"
  show ?thesis
  proof (cases "i < 0")
    case True
    with i show ?thesis by (simp add: Itoa_def Atoi_def parse_utoa nat_le_iff)
  next
    case False
    obtain c cs where c: "utoa (nat i) = c # cs" by (cases "utoa (nat i)") auto
    then have "c \<noteq> CHR ''-''" "c \<noteq> CHR ''+''" using utoa_not_sign by metis+
    with False i c show ?thesis
      using parse_utoa [of "nat i"] by (simp add: Itoa_def Atoi_def nat_less_iff)
  qed
qed

lemma ParseUint_bound: "ParseUint b s = Some n \<Longrightarrow> n < 2 ^ b"
  by (auto simp: ParseUint_def split: option.splits if_splits)

lemmas go_str_defs [go_str] = HasPrefix_def HasSuffix_def TrimPrefix_def TrimSuffix_def
  ToLower_def lower_char_def digit_val_def parse_digits_def ParseUint_def

end
