(* ===== verification/Json5.thy ===== *)
theory Json5
  imports Go_Strings
begin

text \<open>
  The comment and trailing-comma stripper that every configuration file passes through before it is
  parsed (runtime/common/json5/json5.go).  The Go code blanks bytes of one buffer in place while an
  index runs over it; here the buffer is a list, an in-place write is \<open>s[i := c]\<close>, and each Go loop
  is a function of the buffer and the index.
\<close>

definition isNL :: "char \<Rightarrow> bool" where
  "isNL c \<longleftrightarrow> c = CHR 0x0A \<or> c = CHR 0x0D"

definition isWS :: "char \<Rightarrow> bool" where
  "isWS c \<longleftrightarrow> c = CHR '' '' \<or> c = CHR 0x09 \<or> isNL c"

text \<open>The loop that blanks a line comment up to the end of its line.\<close>

function blank_line :: "string \<Rightarrow> nat \<Rightarrow> string \<times> nat" where
  "blank_line s i =
     (if i < length s \<and> \<not> isNL (s ! i) then blank_line (s[i := CHR '' '']) (Suc i) else (s, i))"
  by pat_completeness auto
termination
  by (relation "measure (\<lambda>(s, i). length s - i)") auto

text \<open>
  The loop that blanks a block comment.  After a star the code moves on one byte; unless that byte
  is the closing slash, the increment of the loop then skips it.
\<close>

function blank_block :: "string \<Rightarrow> nat \<Rightarrow> string \<times> nat" where
  "blank_block s i =
     (if i < length s then
        (if s ! i \<noteq> CHR ''*'' then blank_block (s[i := CHR '' '']) (Suc i)
         else if Suc i < length s \<and> s ! Suc i = CHR ''/''
              then (s[i := CHR '' '', Suc i := CHR '' ''], Suc i)
              else blank_block (s[i := CHR '' '']) (Suc (Suc i)))
      else (s, i))"
  by pat_completeness auto
termination
  by (relation "measure (\<lambda>(s, i). length s - i)") auto

declare blank_line.simps [simp del] blank_block.simps [simp del]

definition consume_line :: "string \<Rightarrow> nat \<Rightarrow> string \<times> nat" where
  "consume_line s i =
     (if i < length s \<and> s ! i = CHR ''/'' then blank_line (s[i - 1 := CHR '' '']) i else (s, i))"

definition consume_block :: "string \<Rightarrow> nat \<Rightarrow> string \<times> nat" where
  "consume_block s i =
     (if i < length s \<and> s ! i = CHR ''*'' then blank_block (s[i - 1 := CHR '' '', i := CHR '' '']) i
      else (s, i))"

definition consumeComment :: "string \<Rightarrow> nat \<Rightarrow> string \<times> nat" where
  "consumeComment s i = (case consume_line s i of (s', i') \<Rightarrow> consume_block s' i')"

text \<open>Every pass keeps the length of the buffer, moves the index forward and only writes blanks.\<close>

definition blanked :: "string \<Rightarrow> string \<Rightarrow> bool" where
  "blanked s t \<longleftrightarrow> length t = length s \<and> (\<forall>k < length s. t ! k = s ! k \<or> t ! k = CHR '' '')"

lemma blanked_refl [simp]: "blanked s s"
  by (simp add: blanked_def)

lemma blanked_trans: "blanked s t \<Longrightarrow> blanked t u \<Longrightarrow> blanked s u"
  unfolding blanked_def by metis

lemma blanked_update [simp]: "blanked s (s[i := CHR '' ''])"
proof -
  have "s[i := CHR '' ''] ! k = s ! k \<or> s[i := CHR '' ''] ! k = CHR '' ''" if "k < length s" for k
    using that by (cases "k = i") simp_all
  then show ?thesis by (simp add: blanked_def)
qed

lemma blanked_update_trans: "blanked (s[i := CHR '' '']) t \<Longrightarrow> blanked s t"
  by (rule blanked_trans [OF blanked_update])

lemma blanked_length: "blanked s t \<Longrightarrow> length t = length s"
  by (simp add: blanked_def)

lemma blank_line_blanked: "blank_line s i = (t, j) \<Longrightarrow> blanked s t \<and> i \<le> j"
proof (induction s i arbitrary: t j rule: blank_line.induct)
  case (1 s i)
  show ?case
  proof (cases "i < length s \<and> \<not> isNL (s ! i)")
    case True
    with 1 have "blanked (s[i := CHR '' '']) t \<and> Suc i \<le> j"
      by (simp add: blank_line.simps [of s i])
    then show ?thesis by (auto intro: blanked_update_trans)
  next
    case False
    with 1 show ?thesis by (auto simp: blank_line.simps [of s i])
  qed
qed

lemma blank_block_blanked: "blank_block s i = (t, j) \<Longrightarrow> blanked s t \<and> i \<le> j"
proof (induction s i arbitrary: t j rule: blank_block.induct)
  case (1 s i)
  consider "\<not> i < length s" | "i < length s" "s ! i \<noteq> CHR ''*''"
    | "i < length s" "s ! i = CHR ''*''" "Suc i < length s \<and> s ! Suc i = CHR ''/''"
    | "i < length s" "s ! i = CHR ''*''" "\<not> (Suc i < length s \<and> s ! Suc i = CHR ''/'')"
    by blast
  then show ?case
  proof cases
    case 3
    with 1 have "t = s[i := CHR '' '', Suc i := CHR '' '']" "j = Suc i"
      by (auto simp: blank_block.simps [of s i])
    then show ?thesis using blanked_trans [OF blanked_update blanked_update] by simp
  next
    case 2
    with 1 have "blanked (s[i := CHR '' '']) t \<and> Suc i \<le> j" by (simp add: blank_block.simps [of s i])
    then show ?thesis by (auto intro: blanked_update_trans)
  next
    case 4
    with 1 have "blanked (s[i := CHR '' '']) t \<and> Suc (Suc i) \<le> j"
      by (simp add: blank_block.simps [of s i])
    then show ?thesis by (auto intro: blanked_update_trans)
  qed (use 1 in \<open>auto simp: blank_block.simps [of s i]\<close>)
qed

lemma consumeComment_blanked: "consumeComment s i = (t, j) \<Longrightarrow> blanked s t \<and> i \<le> j"
proof -
  assume c: "consumeComment s i = (t, j)"
  obtain u k where u: "consume_line s i = (u, k)" by fastforce
  have "blanked s u \<and> i \<le> k"
    using u by (auto simp: consume_line_def dest!: blank_line_blanked intro: blanked_update_trans split: if_splits)
  moreover from c u have "blanked u t \<and> k \<le> j"
    by (auto simp: consumeComment_def consume_block_def dest!: blank_block_blanked
        intro: blanked_update_trans split: if_splits)
  ultimately show ?thesis by (auto intro: blanked_trans)
qed

text \<open>The scan over a string literal, entered behind its opening quote.\<close>

function skip_string :: "string \<Rightarrow> nat \<Rightarrow> nat" where
  "skip_string s i =
     (if i < length s then
        (if s ! i = CHR 0x22 then Suc i
         else if s ! i = CHR 0x5C then skip_string s (Suc (Suc i))
         else skip_string s (Suc i))
      else i)"
  by pat_completeness auto
termination
  by (relation "measure (\<lambda>(s, i). length s - i)") auto

declare skip_string.simps [simp del]

lemma skip_string_mono: "i \<le> skip_string s i"
proof (induction s i rule: skip_string.induct)
  case (1 s i)
  then show ?case by (subst skip_string.simps) (auto simp: Suc_le_eq less_imp_le)
qed

text \<open>The loop behind a comma at index \<open>j\<close>: it looks for a closing bracket over blanks and comments.\<close>

function scan_comma :: "string \<Rightarrow> nat \<Rightarrow> nat \<Rightarrow> string \<times> nat" where
  "scan_comma s j i =
     (if length s \<le> Suc i then (s, Suc i)
      else if s ! Suc i = CHR ''}'' \<or> s ! Suc i = CHR '']'' then (s[j := CHR '' ''], Suc i)
      else if s ! Suc i = CHR ''/'' then
        scan_comma (fst (consumeComment s (Suc (Suc i)))) j (snd (consumeComment s (Suc (Suc i))))
      else if \<not> isWS (s ! Suc i) then (s, Suc i)
      else scan_comma s j (Suc i))"
  by pat_completeness auto
termination
proof (relation "measure (\<lambda>(s, j, i). length s - i)", goal_cases)
  case (2 s j i)
  obtain t k where t: "consumeComment s (Suc (Suc i)) = (t, k)" by fastforce
  with consumeComment_blanked [OF t] blanked_length [of s t] 2 show ?case by auto
qed auto

declare scan_comma.simps [simp del]

lemma scan_comma_blanked: "scan_comma s j i = (t, k) \<Longrightarrow> blanked s t \<and> i < k"
proof (induction s j i arbitrary: t k rule: scan_comma.induct)
  case (1 s j i)
  obtain u m where u: "consumeComment s (Suc (Suc i)) = (u, m)" by fastforce
  note c = consumeComment_blanked [OF u]
  consider (stop) "length s \<le> Suc i" | (close) "Suc i < length s" "s ! Suc i = CHR ''}'' \<or> s ! Suc i = CHR '']''"
    | (comment) "Suc i < length s" "s ! Suc i = CHR ''/''"
    | (other) "Suc i < length s" "s ! Suc i \<noteq> CHR ''}''" "s ! Suc i \<noteq> CHR '']''" "s ! Suc i \<noteq> CHR ''/''"
    by linarith
  then show ?case
  proof cases
    case comment
    with 1 u have "blanked u t \<and> m < k" by (simp add: scan_comma.simps [of s j i])
    with c show ?thesis by (auto intro: blanked_trans)
  next
    case other
    with 1 show ?thesis by (fastforce simp: scan_comma.simps [of s j i] split: if_splits)
  qed (use 1 in \<open>auto simp: scan_comma.simps [of s j i]\<close>)
qed

text \<open>The main loop, from an index on, and the whole pass.\<close>

function prep_from :: "string \<Rightarrow> nat \<Rightarrow> string" where
  "prep_from s i =
     (if i < length s then
        (if s ! i = CHR 0x22 then prep_from s (skip_string s (Suc i))
         else if s ! i = CHR ''/'' then
           prep_from (fst (consumeComment s (Suc i))) (snd (consumeComment s (Suc i)))
         else if s ! i = CHR '','' then
           prep_from (fst (scan_comma s i i)) (snd (scan_comma s i i))
         else prep_from s (Suc i))
      else s)"
  by pat_completeness auto
termination
proof (relation "measure (\<lambda>(s, i). length s - i)", goal_cases)
  case (2 s i)
  with skip_string_mono [of "Suc i" s] show ?case by auto
next
  case (3 s i)
  obtain t k where t: "consumeComment s (Suc i) = (t, k)" by fastforce
  with consumeComment_blanked [OF t] blanked_length [of s t] 3 show ?case by auto
next
  case (4 s i)
  obtain t k where t: "scan_comma s i i = (t, k)" by fastforce
  with scan_comma_blanked [OF t] blanked_length [of s t] 4 show ?case by auto
qed auto

declare prep_from.simps [simp del]

definition prep :: "string \<Rightarrow> string" where
  "prep s = prep_from s 0"

lemma prep_from_blanked: "blanked s (prep_from s i)"
proof (induction s i rule: prep_from.induct)
  case (1 s i)
  obtain t k where t: "consumeComment s (Suc i) = (t, k)" by fastforce
  obtain u m where u: "scan_comma s i i = (u, m)" by fastforce
  note step = consumeComment_blanked [OF t] scan_comma_blanked [OF u]
  from 1 t u step show ?case
    by (subst prep_from.simps) (auto intro: blanked_trans)
qed

end
