(* ===== verification/Json5_Spec.thy ===== *)
theory Json5_Spec
  imports Json5
begin

text \<open>
  A reference description of the stripper: a configuration text as a list of segments (string
  literals, comments, commas with what follows them, other bytes), how each is written and what is
  left of it.  \<open>prep\<close> is equal to the reference on every well-formed list of segments.
\<close>

abbreviation sp :: char where "sp \<equiv> CHR '' ''"

section \<open>Segments\<close>

text \<open>What may stand between a comma and the next token.\<close>

datatype gap = GWS char | GLine string char | GBlock string

datatype seg = Plain char | Str string | LineC string | BlockC string | Comma "gap list"

text \<open>The body of a block comment as the code walks it: a star and the byte behind it go together.\<close>

fun ok_body :: "string \<Rightarrow> bool" where
  "ok_body [] = True"
| "ok_body [c] = (c \<noteq> CHR ''*'')"
| "ok_body (c # d # cs) = (if c = CHR ''*'' then d \<noteq> CHR ''/'' \<and> ok_body cs else ok_body (d # cs))"

fun strip_body :: "string \<Rightarrow> string" where
  "strip_body [] = []"
| "strip_body [c] = [sp]"
| "strip_body (c # d # cs) = (if c = CHR ''*'' then sp # d # strip_body cs else sp # strip_body (d # cs))"

fun str_body :: "string \<Rightarrow> bool" where
  "str_body [] = True"
| "str_body [c] = (c \<noteq> CHR 0x22 \<and> c \<noteq> CHR 0x5C)"
| "str_body (c # d # cs) =
     (if c = CHR 0x5C then str_body cs else c \<noteq> CHR 0x22 \<and> str_body (d # cs))"

fun render_gap :: "gap \<Rightarrow> string" where
  "render_gap (GWS c) = [c]"
| "render_gap (GLine b nl) = ''//'' @ b @ [nl]"
| "render_gap (GBlock b) = ''/*'' @ b @ ''*/''"

fun strip_gap :: "gap \<Rightarrow> string" where
  "strip_gap (GWS c) = [c]"
| "strip_gap (GLine b nl) = [sp, sp] @ replicate (length b) sp @ [nl]"
| "strip_gap (GBlock b) = [sp, sp] @ strip_body b @ [sp, sp]"

fun gap_ok :: "gap \<Rightarrow> bool" where
  "gap_ok (GWS c) = isWS c"
| "gap_ok (GLine b nl) = (list_all (\<lambda>c. \<not> isNL c) b \<and> isNL nl)"
| "gap_ok (GBlock b) = ok_body b"

fun render_seg :: "seg \<Rightarrow> string" where
  "render_seg (Plain c) = [c]"
| "render_seg (Str b) = CHR 0x22 # b @ [CHR 0x22]"
| "render_seg (LineC b) = ''//'' @ b"
| "render_seg (BlockC b) = ''/*'' @ b @ ''*/''"
| "render_seg (Comma gs) = '','' @ concat (map render_gap gs)"

definition render :: "seg list \<Rightarrow> string" where
  "render ss = concat (map render_seg ss)"

definition closer :: "char \<Rightarrow> bool" where
  "closer c \<longleftrightarrow> c = CHR ''}'' \<or> c = CHR '']''"

text \<open>What is left of a segment, given the text behind it.\<close>

fun strip_seg :: "seg \<Rightarrow> string \<Rightarrow> string" where
  "strip_seg (Plain c) r = [c]"
| "strip_seg (Str b) r = CHR 0x22 # b @ [CHR 0x22]"
| "strip_seg (LineC b) r = [sp, sp] @ replicate (length b) sp"
| "strip_seg (BlockC b) r = [sp, sp] @ strip_body b @ [sp, sp]"
| "strip_seg (Comma gs) r =
     (if r \<noteq> [] \<and> closer (hd r) then sp else CHR '','') # concat (map strip_gap gs)"

fun strip :: "seg list \<Rightarrow> string" where
  "strip [] = []"
| "strip (x # xs) = strip_seg x (render xs) @ strip xs"

fun seg_ok :: "seg \<Rightarrow> string \<Rightarrow> bool" where
  "seg_ok (Plain c) r = (c \<noteq> CHR 0x22 \<and> c \<noteq> CHR ''/'' \<and> c \<noteq> CHR '','')"
| "seg_ok (Str b) r = str_body b"
| "seg_ok (LineC b) r = (list_all (\<lambda>c. \<not> isNL c) b \<and> (r = [] \<or> isNL (hd r)))"
| "seg_ok (BlockC b) r = ok_body b"
| "seg_ok (Comma gs) r =
     (list_all gap_ok gs \<and> (r = [] \<or> \<not> isWS (hd r) \<and> hd r \<noteq> CHR ''/''))"

fun segs_ok :: "seg list \<Rightarrow> bool" where
  "segs_ok [] = True"
| "segs_ok (x # xs) = (seg_ok x (render xs) \<and> segs_ok xs)"

section \<open>The loops on one segment\<close>

lemma blank_line_body:
  "list_all (\<lambda>c. \<not> isNL c) b \<Longrightarrow> r = [] \<or> isNL (hd r) \<Longrightarrow>
   blank_line (pre @ b @ r) (length pre) = (pre @ replicate (length b) sp @ r, length pre + length b)"
proof (induction b arbitrary: pre)
  case Nil
  then show ?case by (cases r) (auto simp: blank_line.simps [of _ "length pre"])
next
  case (Cons c b)
  have "blank_line (pre @ (c # b) @ r) (length pre) = blank_line ((pre @ [sp]) @ b @ r) (length (pre @ [sp]))"
    using Cons.prems by (simp add: blank_line.simps [of _ "length pre"])
  with Cons.prems Cons.IH [of "pre @ [sp]"] show ?case by simp
qed

lemma blank_block_step:
  "c \<noteq> CHR ''*'' \<Longrightarrow>
   blank_block (pre @ c # r) (length pre) = blank_block ((pre @ [sp]) @ r) (length (pre @ [sp]))"
  by (simp add: blank_block.simps [of _ "length pre"])

lemma blank_block_star:
  "c \<noteq> CHR ''/'' \<Longrightarrow>
   blank_block (pre @ CHR ''*'' # c # r) (length pre) =
   blank_block ((pre @ [sp, c]) @ r) (length (pre @ [sp, c]))"
  by (simp add: blank_block.simps [of _ "length pre"] nth_append)

lemma blank_block_end:
  "blank_block (pre @ CHR ''*'' # CHR ''/'' # r) (length pre) = (pre @ [sp, sp] @ r, Suc (length pre))"
  by (simp add: blank_block.simps [of _ "length pre"] nth_append list_update_append)

lemma length_strip_body [simp]: "length (strip_body b) = length b"
  by (induction b rule: strip_body.induct) auto

lemma blank_block_body:
  "ok_body b \<Longrightarrow> blank_block (pre @ b @ ''*/'' @ r) (length pre) =
   (pre @ strip_body b @ [sp, sp] @ r, length pre + length b + 1)"
proof (induction b arbitrary: pre rule: ok_body.induct)
  case 1
  then show ?case by (simp add: blank_block_end)
next
  case (2 c)
  then show ?case
    using blank_block_step [of c pre "''*/'' @ r"] blank_block_end [of "pre @ [sp]" r] by simp
next
  case (3 c d cs)
  show ?case
  proof (cases "c = CHR ''*''")
    case True
    with 3 show ?thesis using blank_block_star [of d pre "cs @ ''*/'' @ r"] "3.IH"(1) [of "pre @ [sp, d]"]
      by simp
  next
    case False
    with 3 show ?thesis using blank_block_step [of c pre "d # cs @ ''*/'' @ r"] "3.IH"(2) [of "pre @ [sp]"]
      by simp
  qed
qed

lemma consume_line_comment:
  assumes "list_all (\<lambda>c. \<not> isNL c) b" and "r = [] \<or> isNL (hd r)"
  shows "consumeComment (pre @ ''//'' @ b @ r) (Suc (length pre)) =
     (pre @ [sp, sp] @ replicate (length b) sp @ r, length pre + 2 + length b)"
proof -
  have nl: "list_all (\<lambda>c. \<not> isNL c) (CHR ''/'' # b)"
    using assms(1) by (simp add: isNL_def)
  have "consume_line (pre @ ''//'' @ b @ r) (Suc (length pre)) =
      blank_line ((pre @ [sp]) @ (CHR ''/'' # b) @ r) (length (pre @ [sp]))"
    by (simp add: consume_line_def nth_append)
  also have "\<dots> = (pre @ [sp, sp] @ replicate (length b) sp @ r, length pre + 2 + length b)"
    using blank_line_body [OF nl assms(2), of "pre @ [sp]"] by simp
  finally have l: "consume_line (pre @ ''//'' @ b @ r) (Suc (length pre)) =
      (pre @ [sp, sp] @ replicate (length b) sp @ r, length pre + 2 + length b)" .
  have "consume_block (pre @ [sp, sp] @ replicate (length b) sp @ r) (length pre + 2 + length b) =
      (pre @ [sp, sp] @ replicate (length b) sp @ r, length pre + 2 + length b)"
    using assms(2) nth_append_length [of "pre @ [sp, sp] @ replicate (length b) sp" "hd r" "tl r"]
    by (cases r) (auto simp: consume_block_def isNL_def)
  with l show ?thesis by (simp add: consumeComment_def)
qed

lemma consume_block_comment:
  assumes "ok_body b"
  shows "consumeComment (pre @ ''/*'' @ b @ ''*/'' @ r) (Suc (length pre)) =
     (pre @ [sp, sp] @ strip_body b @ [sp, sp] @ r, length pre + 3 + length b)"
proof -
  let ?s = "pre @ ''/*'' @ b @ ''*/'' @ r"
  have "consume_line ?s (Suc (length pre)) = (?s, Suc (length pre))"
    by (simp add: consume_line_def nth_append)
  moreover have "consume_block ?s (Suc (length pre)) =
      blank_block (pre @ sp # sp # b @ ''*/'' @ r) (Suc (length pre))"
    by (simp add: consume_block_def nth_append list_update_append)
  moreover have "blank_block ((pre @ [sp]) @ sp # b @ ''*/'' @ r) (length (pre @ [sp])) =
      (pre @ [sp, sp] @ strip_body b @ [sp, sp] @ r, length pre + 3 + length b)"
    using blank_block_body [OF assms, of "pre @ [sp, sp]" r]
    by (subst blank_block_step) (simp_all add: eval_nat_numeral)
  ultimately show ?thesis by (simp add: consumeComment_def)
qed


lemma skip_string_step:
  "c \<noteq> CHR 0x22 \<Longrightarrow> c \<noteq> CHR 0x5C \<Longrightarrow>
   skip_string (pre @ c # r) (length pre) = skip_string ((pre @ [c]) @ r) (length (pre @ [c]))"
  by (simp add: skip_string.simps [of _ "length pre"])

lemma skip_string_escape:
  "skip_string (pre @ CHR 0x5C # c # r) (length pre) =
   skip_string ((pre @ [CHR 0x5C, c]) @ r) (length (pre @ [CHR 0x5C, c]))"
  by (simp add: skip_string.simps [of _ "length pre"])

lemma skip_string_end: "skip_string (pre @ CHR 0x22 # r) (length pre) = Suc (length pre)"
  by (simp add: skip_string.simps [of _ "length pre"])

lemma skip_string_body:
  "str_body b \<Longrightarrow> skip_string (pre @ b @ CHR 0x22 # r) (length pre) = length pre + length b + 1"
proof (induction b arbitrary: pre rule: str_body.induct)
  case 1
  then show ?case by (simp add: skip_string_end)
next
  case (2 c)
  then show ?case
    using skip_string_step [of c pre "CHR 0x22 # r"] skip_string_end [of "pre @ [c]" r] by simp
next
  case (3 c d cs)
  show ?case
  proof (cases "c = CHR 0x5C")
    case True
    with 3 show ?thesis
      using skip_string_escape [of pre d "cs @ CHR 0x22 # r"] "3.IH"(1) [of "pre @ [c, d]"] by simp
  next
    case False
    with 3 show ?thesis
      using skip_string_step [of c pre "d # cs @ CHR 0x22 # r"] "3.IH"(2) [of "pre @ [c]"] by simp
  qed
qed

text \<open>The scan behind a comma, started at the last index of a non-empty \<open>pre\<close>.\<close>

lemma ws_not_special:
  "isWS c \<Longrightarrow> c \<noteq> CHR ''}'' \<and> c \<noteq> CHR '']'' \<and> c \<noteq> CHR ''/'' \<and> c \<noteq> CHR ''*''"
  by (auto simp: isWS_def isNL_def)

lemma scan_comma_ws:
  "isWS c \<Longrightarrow> scan_comma (q @ x # c # r) j (length q) = scan_comma ((q @ [x]) @ c # r) j (length (q @ [x]))"
  using ws_not_special [of c] by (simp add: scan_comma.simps [of _ _ "length q"] nth_append)

lemma scan_comma_gap:
  assumes "gap_ok g" and "pre \<noteq> []"
  shows "scan_comma (pre @ render_gap g @ r) j (length pre - 1) =
     scan_comma ((pre @ strip_gap g) @ r) j (length (pre @ strip_gap g) - 1)"
proof -
  obtain q x where pre: "pre = q @ [x]" using assms(2) by (cases pre rule: rev_cases) auto
  show ?thesis
  proof (cases g)
    case (GWS c)
    with assms pre show ?thesis using scan_comma_ws [of c q x r] by simp
  next
    case (GLine b nl)
    with assms have ok: "list_all (\<lambda>c. \<not> isNL c) b" "isNL nl" by auto
    have "scan_comma (pre @ ''//'' @ b @ nl # r) j (length q) =
        scan_comma (pre @ [sp, sp] @ replicate (length b) sp @ nl # r) j (length pre + 2 + length b)"
      using consume_line_comment [OF ok(1), of "nl # r" pre] ok(2) pre
      by (simp add: scan_comma.simps [of _ _ "length q"] nth_append)
    with GLine pre show ?thesis by (simp add: eval_nat_numeral)
  next
    case (GBlock b)
    with assms have ok: "ok_body b" by simp
    have "scan_comma (pre @ ''/*'' @ b @ ''*/'' @ r) j (length q) =
        scan_comma (pre @ [sp, sp] @ strip_body b @ [sp, sp] @ r) j (length pre + 3 + length b)"
      using consume_block_comment [OF ok, of pre r] pre
      by (simp add: scan_comma.simps [of _ _ "length q"] nth_append)
    with GBlock pre show ?thesis by (simp add: eval_nat_numeral)
  qed
qed

lemma length_strip_gap: "length (strip_gap g) = length (render_gap g)"
  by (cases g) auto

lemma scan_comma_gaps:
  "list_all gap_ok gs \<Longrightarrow> pre \<noteq> [] \<Longrightarrow>
   scan_comma (pre @ concat (map render_gap gs) @ r) j (length pre - 1) =
   scan_comma ((pre @ concat (map strip_gap gs)) @ r) j (length (pre @ concat (map strip_gap gs)) - 1)"
proof (induction gs arbitrary: pre)
  case (Cons g gs)
  then show ?case
    using scan_comma_gap [of g pre "concat (map render_gap gs) @ r" j] Cons.IH [of "pre @ strip_gap g"]
    by simp
qed simp

lemma scan_comma_stop:
  assumes "pre \<noteq> []" and "r = [] \<or> \<not> isWS (hd r) \<and> hd r \<noteq> CHR ''/''"
  shows "scan_comma (pre @ r) j (length pre - 1) =
    (if r \<noteq> [] \<and> closer (hd r) then (pre @ r)[j := sp] else pre @ r, length pre)"
proof -
  obtain q x where pre: "pre = q @ [x]" using assms(1) by (cases pre rule: rev_cases) auto
  show ?thesis
  proof (cases r)
    case Nil
    with pre show ?thesis by (simp add: scan_comma.simps [of _ _ "length q"])
  next
    case (Cons c r')
    with pre assms(2) show ?thesis
      by (auto simp: scan_comma.simps [of _ _ "length q"] nth_append closer_def)
  qed
qed

section \<open>The whole pass\<close>

lemma prep_from_seg:
  assumes "seg_ok x r"
  shows "prep_from (pre @ render_seg x @ r) (length pre) =
     prep_from ((pre @ strip_seg x r) @ r) (length (pre @ strip_seg x r))"
proof (cases x)
  case (Plain c)
  with assms show ?thesis by (simp add: prep_from.simps [of _ "length pre"])
next
  case (Str b)
  with assms have "str_body b" by simp
  from skip_string_body [OF this, of "pre @ [CHR 0x22]" r] Str show ?thesis
    by (simp add: prep_from.simps [of _ "length pre"])
next
  case (LineC b)
  with assms have ok: "list_all (\<lambda>c. \<not> isNL c) b" "r = [] \<or> isNL (hd r)" by auto
  from consume_line_comment [OF ok, of pre] LineC show ?thesis
    by (simp add: prep_from.simps [of _ "length pre"] eval_nat_numeral)
next
  case (BlockC b)
  with assms have ok: "ok_body b" by simp
  let ?t = "pre @ [sp, sp] @ strip_body b @ [sp, sp] @ r"
  have "prep_from (pre @ render_seg x @ r) (length pre) = prep_from ?t (length pre + 3 + length b)"
    using consume_block_comment [OF ok, of pre r] BlockC by (simp add: prep_from.simps [of _ "length pre"])
  also have "\<dots> = prep_from ?t (length pre + 4 + length b)"
    using nth_append_length [of "pre @ [sp, sp] @ strip_body b @ [sp]" sp r]
    by (subst prep_from.simps) (simp add: eval_nat_numeral)
  finally show ?thesis using BlockC by (simp add: eval_nat_numeral)
next
  case (Comma gs)
  let ?pre = "pre @ '','' @ concat (map strip_gap gs)"
  let ?s = "pre @ CHR '','' # concat (map render_gap gs) @ r"
  have ok: "list_all gap_ok gs" "r = [] \<or> \<not> isWS (hd r) \<and> hd r \<noteq> CHR ''/''" using assms Comma by auto
  have "scan_comma ?s (length pre) (length pre) = scan_comma (?pre @ r) (length pre) (length ?pre - 1)"
    using scan_comma_gaps [OF ok(1), of "pre @ '',''" r "length pre"] by simp
  also have "\<dots> = (if r \<noteq> [] \<and> closer (hd r) then (?pre @ r)[length pre := sp] else ?pre @ r, length ?pre)"
    using scan_comma_stop [OF _ ok(2), of ?pre] by simp
  finally have "scan_comma ?s (length pre) (length pre) =
      ((pre @ strip_seg x r) @ r, length (pre @ strip_seg x r))"
    using Comma by simp
  then show ?thesis using Comma by (simp add: prep_from.simps [of _ "length pre"])
qed

lemma prep_from_segs:
  "segs_ok ss \<Longrightarrow> prep_from (pre @ render ss) (length pre) = pre @ strip ss"
proof (induction ss arbitrary: pre)
  case Nil
  then show ?case by (simp add: render_def prep_from.simps [of _ "length pre"])
next
  case (Cons x xs)
  then have "prep_from (pre @ render_seg x @ render xs) (length pre) =
      prep_from ((pre @ strip_seg x (render xs)) @ render xs) (length (pre @ strip_seg x (render xs)))"
    by (intro prep_from_seg) simp
  also have "\<dots> = (pre @ strip_seg x (render xs)) @ strip xs"
    using Cons by (intro Cons.IH) simp
  finally show ?case by (simp add: render_def)
qed


section \<open>Properties\<close>

text \<open>the stripper returns a text of the same length in which every byte is either the byte of the
  input or a blank; it never moves, adds or drops a byte, so positions in error messages stay right.\<close>

theorem prep_only_blanks: "blanked s (prep s)"
  by (simp add: prep_def prep_from_blanked)


definition demo_segs :: "seg list" where
  "demo_segs = [Plain CHR ''{'', Str ''a//,'', Plain CHR '':'', Plain CHR ''1'',
     Comma [GWS sp, GLine ''x,'' CHR 0x0A, GBlock ''y''], Plain CHR ''}'', LineC ''end'']"


lemma blank_block_no_star:
  "CHR ''*'' \<notin> set r \<Longrightarrow>
   blank_block (pre @ r) (length pre) = (pre @ replicate (length r) sp, length pre + length r)"
proof (induction r arbitrary: pre)
  case Nil
  then show ?case by (simp add: blank_block.simps [of _ "length pre"])
next
  case (Cons c r)
  then have "c \<noteq> CHR ''*''" by auto
  from blank_block_step [OF this, of pre r] Cons Cons.IH [of "pre @ [sp]"] show ?case by simp
qed

text \<open>A block comment whose body ends in an odd run of stars is not closed: the byte behind a star
  is skipped unexamined, so after \<open>/***/\<close> the rest of the configuration is blanked, and a stray star
  is left over.\<close>

theorem prep_star_run_swallows_rest:
  assumes "CHR ''*'' \<notin> set r"
  shows "prep (''/***/'' @ r) = ''   * '' @ replicate (length r) sp"
proof -
  have "blank_block ((''  '' @ [sp, CHR ''*'']) @ (CHR ''/'' # r)) (length (''  '' @ [sp, CHR ''*''])) =
      (''   *'' @ replicate (Suc (length r)) sp, 5 + length r)"
    using assms blank_block_no_star [of "CHR ''/'' # r" "''   *''"] by simp
  moreover have "consumeComment (''/***/'' @ r) (Suc 0) = blank_block (''  **/'' @ r) (Suc 0)"
    by (simp add: consumeComment_def consume_line_def consume_block_def)
  moreover have "blank_block (''  **/'' @ r) (Suc 0) = blank_block (''  **/'' @ r) 2"
    using blank_block_step [of sp "[sp]" "''**/'' @ r"] by (simp add: numeral_2_eq_2)
  moreover have "blank_block (''  **/'' @ r) 2 = blank_block (''   */'' @ r) 4"
    using blank_block_star [of "CHR ''*''" "''  ''" "CHR ''/'' # r"]
    by (simp add: eval_nat_numeral)
  ultimately have "consumeComment (''/***/'' @ r) (Suc 0) =
      (''   *'' @ replicate (Suc (length r)) sp, 5 + length r)"
    by (simp add: eval_nat_numeral)
  then show ?thesis
    by (simp add: prep_def prep_from.simps [of _ 0] prep_from.simps [of _ "5 + length r"])
qed

theorem prep_star_run_swallows_rest_witness:
  "prep (''/***/'' @ ''{}'') = ''   *   ''"
  using prep_star_run_swallows_rest [of "''{}''"] by simp

section \<open>The reader\<close>

text \<open>
  \<open>TrimNodeReader\<close> strips the whole source on the first \<open>Read\<close> and serves slices of the result.  The
  second component of a successful read is true where Go returns \<open>io.EOF\<close>.
\<close>

record TrimNodeReader =
  rd_r :: "string res"
  rd_br :: "string option"

definition NewTrimNodeReader :: "string res \<Rightarrow> TrimNodeReader" where
  "NewTrimNodeReader r = \<lparr>rd_r = r, rd_br = None\<rparr>"

definition serve :: "TrimNodeReader \<Rightarrow> string \<Rightarrow> nat \<Rightarrow> (string \<times> bool) res \<times> TrimNodeReader" where
  "serve st rest n =
     (if rest = [] then (Inr ([], True), st\<lparr>rd_br := Some []\<rparr>)
      else (Inr (take n rest, False), st\<lparr>rd_br := Some (drop n rest)\<rparr>))"

definition Read :: "TrimNodeReader \<Rightarrow> nat \<Rightarrow> (string \<times> bool) res \<times> TrimNodeReader" where
  "Read st n = (case rd_br st of
     None \<Rightarrow> (case rd_r st of Inl e \<Rightarrow> (Inl e, st) | Inr s \<Rightarrow> serve st (prep s) n)
   | Some rest \<Rightarrow> serve st rest n)"

text \<open>Successive reads with buffers of the given sizes, the data in order.\<close>

fun reads :: "TrimNodeReader \<Rightarrow> nat list \<Rightarrow> string res" where
  "reads st [] = Inr []"
| "reads st (n # ns) = (case Read st n of
     (Inl e, st') \<Rightarrow> Inl e
   | (Inr (d, eof), st') \<Rightarrow> if eof then Inr d
       else (case reads st' ns of Inl e \<Rightarrow> Inl e | Inr d' \<Rightarrow> Inr (d @ d')))"

lemma reads_served:
  "rd_br st = Some rest \<Longrightarrow> reads st ns = Inr (take (sum_list ns) rest)"
  by (induction ns arbitrary: st rest) (auto simp: Read_def serve_def take_add)

text \<open>However the caller slices its reads, the bytes it sees are a prefix of the stripped source,
  and reads that ask for at least as many bytes as the source has see all of it.\<close>

theorem reads_stripped: "reads (NewTrimNodeReader (Inr s)) ns = Inr (take (sum_list ns) (prep s))"
proof (cases ns)
  case (Cons n ms)
  then show ?thesis
    by (auto simp: NewTrimNodeReader_def Read_def serve_def reads_served take_add)
qed simp

end
