(* ===== verification/Panel_Types.thy ===== *)
theory Panel_Types
  imports Go_Strings
begin

text \<open>
  The data the panel sends and the runtime keeps: users, traffic and node descriptions
  (runtime/api/panel/node.go and user.go).  A Go pointer that may be nil is an \<open>option\<close>, raw JSON is
  its bytes, a Go duration is a number of nanoseconds.
\<close>

section \<open>Users and traffic\<close>

record UserInfo =
  ui_Id :: int
  ui_Uuid :: string
  ui_SpeedLimit :: int
  ui_DeviceLimit :: int

record OnlineUser =
  ou_UID :: int
  ou_IP :: string

record UserTraffic =
  ut_UID :: int
  ut_Upload :: int
  ut_Download :: int

definition UserTag :: "string \<Rightarrow> string \<Rightarrow> string" where
  "UserTag tag uuid = tag @ ''|'' @ uuid"

lemma UserTag_inj [simp]: "UserTag tag u = UserTag tag v \<longleftrightarrow> u = v"
  by (simp add: UserTag_def)

section \<open>Node descriptions\<close>

text \<open>
  A JSON value held in a Go interface.  A float64 is \<open>AnyFloat m e\<close>, the number \<open>m * 2 ^ e\<close>.
\<close>

datatype any =
    AnyNil
  | AnyBool bool
  | AnyInt int
  | AnyFloat int int
  | AnyStr string
  | AnyStrs "string list"
  | AnyList "any list"
  | AnyMap "(string \<times> any) list"

definition None_sec :: int where "None_sec = 0"
definition Tls :: int where "Tls = 1"
definition Reality :: int where "Reality = 2"

record Route =
  rt_Id :: int
  rt_Match :: any
  rt_Action :: string
  rt_ActionValue :: string

record BaseConfig =
  bc_PushInterval :: any
  bc_PullInterval :: any

record CommonNode =
  cn_Host :: string
  cn_ServerPort :: int
  cn_ServerName :: string
  cn_Routes :: "Route list"
  cn_BaseConfig :: "BaseConfig option"

record TlsSettings =
  ts_ServerName :: string
  ts_Dest :: string
  ts_ServerPort :: string
  ts_ShortId :: string
  ts_PrivateKey :: string
  ts_Mldsa65Seed :: string
  ts_Xver :: nat

record EncSettings =
  es_Mode :: string
  es_Ticket :: string
  es_ServerPadding :: string
  es_PrivateKey :: string

definition EncSettings_zero :: EncSettings where
  "EncSettings_zero = \<lparr>es_Mode = [], es_Ticket = [], es_ServerPadding = [], es_PrivateKey = []\<rparr>"

record RealityConfig =
  rc_Xver :: nat
  rc_MinClientVer :: string
  rc_MaxClientVer :: string
  rc_MaxTimeDiff :: string

record VAllssNode =
  va_Common :: CommonNode
  va_Tls :: int
  va_TlsSettings :: TlsSettings
  va_TlsSettingsBack :: "TlsSettings option"
  va_Network :: string
  va_NetworkSettings :: string
  va_NetworkSettingsBack :: string
  va_Encryption :: string
  va_EncryptionSettings :: EncSettings
  va_Decryption :: "string option"
  va_ServerName :: string
  va_Flow :: string
  va_RealityConfig :: RealityConfig

record ShadowsocksNode =
  ss_Common :: CommonNode
  ss_Cipher :: string
  ss_ServerKey :: string

record TrojanNode =
  tj_Common :: CommonNode
  tj_Network :: string
  tj_NetworkSettings :: string

record TuicNode =
  tu_Common :: CommonNode
  tu_CongestionControl :: string
  tu_ZeroRTTHandshake :: bool

record AnyTlsNode =
  at_Common :: CommonNode
  at_PaddingScheme :: "string list"

record HysteriaNode =
  hy_Common :: CommonNode
  hy_UpMbps :: int
  hy_DownMbps :: int
  hy_Obfs :: string

record Hysteria2Node =
  h2_Common :: CommonNode
  h2_Ignore_Client_Bandwidth :: bool
  h2_UpMbps :: int
  h2_DownMbps :: int
  h2_ObfsType :: string
  h2_ObfsPassword :: string

text \<open>The custom DNS servers of a node: address and domains under the index of their route.\<close>

record RawDNS =
  dns_DNSMap :: "(string, (string, any) gomap) gomap"
  dns_DNSJson :: string

record Rules =
  ru_Regexp :: "string list"
  ru_Protocol :: "string list"

record NodeInfo =
  ni_responseHash :: string
  ni_responseETag :: string
  ni_Id :: int
  ni_Type :: string
  ni_Security :: int
  ni_PushInterval :: int
  ni_PullInterval :: int
  ni_RawDNS :: RawDNS
  ni_Rules :: Rules
  ni_VAllss :: "VAllssNode option"
  ni_Shadowsocks :: "ShadowsocksNode option"
  ni_Trojan :: "TrojanNode option"
  ni_Tuic :: "TuicNode option"
  ni_AnyTls :: "AnyTlsNode option"
  ni_Hysteria :: "HysteriaNode option"
  ni_Hysteria2 :: "Hysteria2Node option"
  ni_Common :: "CommonNode option"

end
