(* ===== verification/Vless.thy ===== *)
theory Vless
  imports Panel_Types
begin

text \<open>
  The decryption setting of a VLESS node (runtime/api/panel/vless.go): the legacy encryption fields
  and the newer single field must agree, and the resulting dotted text must follow the grammar
  algorithm, mode, ticket lifetime, then keys with optional paddings between them.
\<close>

section \<open>Library functions the file uses\<close>

text \<open>\<open>base64.RawURLEncoding.DecodeString\<close>: line breaks are skipped, padding characters are not part
  of the alphabet, left-over bits are dropped.\<close>

definition b64url_alphabet :: string where
  "b64url_alphabet = ''ABCDEFGHIJKLMNOPQRSTUVWXYZabcdefghijklmnopqrstuvwxyz0123456789-_''"

definition sextet :: "char \<Rightarrow> nat option" where
  "sextet c = map_of (zip b64url_alphabet [0..<64]) c"

fun sextets :: "string \<Rightarrow> nat list option" where
  "sextets [] = Some []"
| "sextets (c # cs) =
     (if c = CHR 0x0A \<or> c = CHR 0x0D then sextets cs
      else (case sextet c of None \<Rightarrow> None
            | Some d \<Rightarrow> (case sextets cs of None \<Rightarrow> None | Some ds \<Rightarrow> Some (d # ds))))"

fun octets :: "nat list \<Rightarrow> nat list option" where
  "octets [] = Some []"
| "octets [a] = None"
| "octets [a, b] = Some [4 * a + b div 16]"
| "octets [a, b, c] = Some [4 * a + b div 16, 16 * (b mod 16) + c div 4]"
| "octets (a # b # c # d # ds) = (case octets ds of None \<Rightarrow> None
     | Some bs \<Rightarrow> Some ((4 * a + b div 16) # (16 * (b mod 16) + c div 4) # (64 * (c mod 4) + d) # bs))"

definition RawURL_DecodeString :: "string \<Rightarrow> nat list option" where
  "RawURL_DecodeString s = (case sextets s of None \<Rightarrow> None | Some ds \<Rightarrow> octets ds)"

text \<open>The pattern \<open>^\d+-\d+-\d+$\<close>.\<close>

definition vlessPaddingPattern :: "string \<Rightarrow> bool" where
  "vlessPaddingPattern s = (case Split s (CHR ''-'') of
     [a, b, c] \<Rightarrow> a \<noteq> [] \<and> b \<noteq> [] \<and> c \<noteq> [] \<and> all_digits a \<and> all_digits b \<and> all_digits c
   | _ \<Rightarrow> False)"

section \<open>Validation\<close>

definition vless_alg :: string where "vless_alg = ''mlkem768x25519plus''"
definition vless_invalid :: err where "vless_invalid = ''invalid VLESS decryption configuration''"

text \<open>The loop over the lifetime bounds; \<open>i > 0\<close> is the flag \<open>later\<close>.\<close>

fun check_bounds :: "bool \<Rightarrow> nat \<Rightarrow> string list \<Rightarrow> bool" where
  "check_bounds later previous [] = True"
| "check_bounds later previous (b # bs) = (case ParseUint 32 b of
     None \<Rightarrow> False
   | Some seconds \<Rightarrow>
       if seconds = 0 \<or> (later \<and> seconds < previous) then False else check_bounds True seconds bs)"

text \<open>The loop over the key parts: the number of keys, or a failure.\<close>

definition is_padding :: "string \<Rightarrow> bool" where
  "is_padding part \<longleftrightarrow> length part < 20 \<and> vlessPaddingPattern part"

definition is_key :: "string \<Rightarrow> bool" where
  "is_key part = (case RawURL_DecodeString part of
     None \<Rightarrow> False | Some key \<Rightarrow> length key = 32 \<or> length key = 64)"

fun count_keys :: "int \<Rightarrow> string list \<Rightarrow> int option" where
  "count_keys keys [] = Some keys"
| "count_keys keys (part # parts) =
     (if is_padding part then count_keys keys parts
      else if \<not> is_key part then None else count_keys (keys + 1) parts)"

definition ValidateVLESSDecryption :: "string \<Rightarrow> err option" where
  "ValidateVLESSDecryption value =
     (if value = ''none'' then None
      else
        let parts = Split value (CHR ''.'') in
        if length parts < 4 \<or> parts ! 0 \<noteq> vless_alg then Some vless_invalid
        else if parts ! 1 \<noteq> ''native'' \<and> parts ! 1 \<noteq> ''xorpub'' \<and> parts ! 1 \<noteq> ''random'' then Some vless_invalid
        else
          let ticket = TrimSuffix (parts ! 2) ''s'' in
          if ticket = parts ! 2 then Some vless_invalid
          else
            let bounds = Split ticket (CHR ''-'') in
            if length bounds > 2 then Some vless_invalid
            else if \<not> check_bounds False 0 bounds then Some vless_invalid
            else (case count_keys 0 (drop 3 parts) of
                    None \<Rightarrow> Some vless_invalid
                  | Some keys \<Rightarrow> if keys = 0 then Some vless_invalid else None))"

section \<open>Combining the two field formats\<close>

definition VLESSDecryption :: "VAllssNode option \<Rightarrow> string res" where
  "VLESSDecryption n' = (case n' of
     None \<Rightarrow> Inl ''missing VLESS configuration''
   | Some n \<Rightarrow>
       let s = va_EncryptionSettings n;
           legacyPresent = va_Encryption n \<noteq> [] \<or> s \<noteq> EncSettings_zero;
           parts = [va_Encryption n, es_Mode s, es_Ticket s];
           parts = (if es_ServerPadding s \<noteq> [] then parts @ [es_ServerPadding s] else parts);
           encrypted = legacyPresent \<and> va_Encryption n \<noteq> ''none'';
           legacy = (if encrypted then Join (parts @ [es_PrivateKey s]) ''.'' else ''none'')
       in if encrypted \<and> va_Encryption n \<noteq> vless_alg then Inl ''invalid VLESS encryption algorithm''
          else if va_Encryption n = ''none'' \<and> s \<noteq> EncSettings_zero
          then Inl ''disabled VLESS encryption contains settings''
          else
            let value = (case va_Decryption n of None \<Rightarrow> legacy | Some d \<Rightarrow> d)
            in if va_Decryption n \<noteq> None \<and> legacyPresent \<and> value \<noteq> legacy
               then Inl ''conflicting VLESS decryption fields''
               else (case ValidateVLESSDecryption value of Some e \<Rightarrow> Inl e | None \<Rightarrow> Inr value))"

section \<open>The grammar\<close>

definition lifetime :: "string \<Rightarrow> bool" where
  "lifetime b \<longleftrightarrow> (\<exists>n. ParseUint 32 b = Some n \<and> 0 < n)"

text \<open>One bound, or two in ascending order.\<close>

definition lifetimes :: "string list \<Rightarrow> bool" where
  "lifetimes bs \<longleftrightarrow> (\<exists>a. bs = [a] \<and> lifetime a) \<or>
     (\<exists>a b. bs = [a, b] \<and> lifetime a \<and> lifetime b \<and> the (ParseUint 32 a) \<le> the (ParseUint 32 b))"

definition vless_text :: "string \<Rightarrow> string list \<Rightarrow> string list \<Rightarrow> string" where
  "vless_text mode bounds keys = Join (vless_alg # mode # (Join bounds ''-'' @ ''s'') # keys) ''.''"

lemma check_bounds_lifetimes:
  "length bs \<le> 2 \<Longrightarrow> bs \<noteq> [] \<Longrightarrow> check_bounds False 0 bs = lifetimes bs"
  by (cases bs; cases "tl bs"; auto simp: lifetimes_def lifetime_def split: option.splits)

lemma count_keys_accept:
  "(count_keys k ps = Some n) \<longleftrightarrow>
   list_all (\<lambda>p. is_padding p \<or> is_key p) ps \<and> n = k + int (length (filter (\<lambda>p. \<not> is_padding p) ps))"
proof (induction ps arbitrary: k)
  case (Cons p ps)
  show ?case by (cases "is_padding p"; cases "is_key p"; simp add: Cons.IH add.assoc)
qed auto

lemma TrimSuffix_s: "TrimSuffix p ''s'' \<noteq> p \<longleftrightarrow> (\<exists>t. p = t @ ''s'')"
proof (cases "HasSuffix p ''s''")
  case True
  then have "drop (length p - 1) p = ''s''" and pos: "0 < length p" by (auto simp: HasSuffix_def)
  then have "p = take (length p - 1) p @ ''s''" using append_take_drop_id [of "length p - 1" p] by simp
  moreover have "length (TrimSuffix p ''s'') \<noteq> length p" using True pos by (cases p) (auto simp: TrimSuffix_def)
  ultimately show ?thesis by metis
next
  case False
  then show ?thesis by (auto simp: TrimSuffix_def HasSuffix_def)
qed

lemma keys_padding: "filter (\<lambda>p. \<not> is_padding p) ks = [] \<longleftrightarrow> list_all is_padding ks"
  by (induction ks) simp_all

lemma count_keys_positive:
  "(\<exists>n. count_keys 0 ks = Some n \<and> n \<noteq> 0) \<longleftrightarrow>
   list_all (\<lambda>p. is_padding p \<or> is_key p) ks \<and> \<not> list_all is_padding ks"
  unfolding count_keys_accept keys_padding [symmetric] by auto

definition vless_mode :: "string \<Rightarrow> bool" where
  "vless_mode m \<longleftrightarrow> m = ''native'' \<or> m = ''xorpub'' \<or> m = ''random''"

text \<open>What the checks say of the four or more parts.\<close>

definition parts_ok :: "string list \<Rightarrow> bool" where
  "parts_ok parts = (case parts of
     p0 # p1 # p2 # ks \<Rightarrow>
       p0 = vless_alg \<and> vless_mode p1 \<and> TrimSuffix p2 ''s'' \<noteq> p2 \<and>
       lifetimes (Split (TrimSuffix p2 ''s'') (CHR ''-'')) \<and>
       list_all (\<lambda>p. is_padding p \<or> is_key p) ks \<and> \<not> list_all is_padding ks
   | _ \<Rightarrow> False)"

lemma bounds_checked:
  "length (Split t c) \<le> 2 \<and> check_bounds False 0 (Split t c) \<longleftrightarrow> lifetimes (Split t c)"
proof -
  have "lifetimes bs \<Longrightarrow> length bs \<le> 2" for bs by (auto simp: lifetimes_def)
  then show ?thesis using check_bounds_lifetimes [of "Split t c"] by auto
qed

lemma list4_cases:
  "(\<exists>a b c d ds. xs = a # b # c # d # ds) \<or> xs = [] \<or> (\<exists>a. xs = [a]) \<or> (\<exists>a b. xs = [a, b]) \<or>
   (\<exists>a b c. xs = [a, b, c])"
  by (metis neq_Nil_conv)

lemma Validate_parts_ok:
  assumes "v \<noteq> ''none''"
  shows "ValidateVLESSDecryption v = None \<longleftrightarrow> parts_ok (Split v (CHR ''.''))"
proof (cases "\<exists>p0 p1 p2 k ks. Split v (CHR ''.'') = p0 # p1 # p2 # k # ks")
  case True
  then obtain p0 p1 p2 k ks where p: "Split v (CHR ''.'') = p0 # p1 # p2 # k # ks" by blast
  let ?b = "Split (TrimSuffix p2 ''s'') (CHR ''-'')"
  have "ValidateVLESSDecryption v = None \<longleftrightarrow>
      p0 = vless_alg \<and> vless_mode p1 \<and> TrimSuffix p2 ''s'' \<noteq> p2 \<and>
      (length ?b \<le> 2 \<and> check_bounds False 0 ?b) \<and> (\<exists>n. count_keys 0 (k # ks) = Some n \<and> n \<noteq> 0)"
    using assms by (simp add: ValidateVLESSDecryption_def Let_def p vless_mode_def del: count_keys.simps)
      (auto split: option.splits simp del: count_keys.simps)
  then show ?thesis unfolding bounds_checked count_keys_positive by (simp add: parts_ok_def p)
next
  case False
  then have "length (Split v (CHR ''.'')) < 4"
    using list4_cases [of "Split v (CHR ''.'')"] by auto
  moreover from False have "\<not> parts_ok (Split v (CHR ''.''))"
    using list4_cases [of "Split v (CHR ''.'')"] by (auto simp: parts_ok_def)
  ultimately show ?thesis using assms by (simp add: ValidateVLESSDecryption_def Let_def)
qed

section \<open>Grammar and parser agree\<close>

lemma digits_acc_chars: "digits_acc a s = Some n \<Longrightarrow> digit_val c = None \<Longrightarrow> c \<notin> set s"
  by (induction s arbitrary: a) (auto split: option.splits)

lemma lifetime_chars: "lifetime b \<Longrightarrow> CHR ''-'' \<notin> set b \<and> CHR ''.'' \<notin> set b"
proof -
  assume "lifetime b"
  then obtain n where n: "digits_acc 0 b = Some n"
    by (auto simp: lifetime_def ParseUint_def parse_digits_def split: option.splits if_splits)
  have "digit_val CHR ''-'' = None" "digit_val CHR ''.'' = None" by (simp_all add: digit_val_def)
  with digits_acc_chars [OF n] show ?thesis by blast
qed

lemma Split_char: "x \<noteq> c \<Longrightarrow> x \<in> set s \<Longrightarrow> \<exists>t \<in> set (Split s c). x \<in> set t"
proof (induction s)
  case (Cons a s)
  obtain y ys where "Split s c = y # ys" by (cases "Split s c") auto
  with Cons show ?case by fastforce
qed simp

lemma padding_chars: "is_padding p \<Longrightarrow> CHR ''.'' \<notin> set p"
proof
  assume p: "is_padding p" and d: "CHR ''.'' \<in> set p"
  obtain t where t: "t \<in> set (Split p (CHR ''-''))" "CHR ''.'' \<in> set t"
    using Split_char [OF _ d, of "CHR ''-''"] by auto
  from p t(1) have "all_digits t"
    by (auto simp: is_padding_def vlessPaddingPattern_def split: list.splits)
  with t(2) show False by (auto simp: all_digits_def list_all_iff digit_val_def)
qed

lemma sextets_chars: "sextets s = Some ds \<Longrightarrow> CHR ''.'' \<notin> set s"
proof (induction s arbitrary: ds)
  case (Cons a s)
  have "sextet CHR ''.'' = None" by code_simp
  with Cons show ?case by (auto split: if_splits option.splits)
qed simp

lemma key_chars: "is_key p \<Longrightarrow> CHR ''.'' \<notin> set p"
  by (auto simp: is_key_def RawURL_DecodeString_def dest: sextets_chars split: option.splits)

lemma lifetimes_text:
  assumes "lifetimes bs"
  shows "Split (Join bs ''-'') (CHR ''-'') = bs" and "CHR ''.'' \<notin> set (Join bs ''-'')"
  using assms lifetime_chars by (auto simp: lifetimes_def Split_single Split_append_sep)

lemma Split_vless_text:
  assumes "vless_mode mode" and "lifetimes bounds" and "list_all (\<lambda>p. is_padding p \<or> is_key p) keys"
  shows "Split (vless_text mode bounds keys) (CHR ''.'') = vless_alg # mode # (Join bounds ''-'' @ ''s'') # keys"
proof -
  have "CHR ''.'' \<notin> set vless_alg" "CHR ''.'' \<notin> set mode"
    using assms(1) by (auto simp: vless_alg_def vless_mode_def)
  moreover have "\<forall>p \<in> set keys. CHR ''.'' \<notin> set p"
    using assms(3) padding_chars key_chars by (auto simp: list_all_iff)
  ultimately show ?thesis
    unfolding vless_text_def using lifetimes_text(2) [OF assms(2)] by (intro Split_Join) auto
qed

lemma vless_text_parts:
  assumes "vless_mode mode" and "lifetimes bounds" and "list_all (\<lambda>p. is_padding p \<or> is_key p) keys"
    and "\<not> list_all is_padding keys"
  shows "parts_ok (Split (vless_text mode bounds keys) (CHR ''.''))"
  unfolding Split_vless_text [OF assms(1-3)] using assms lifetimes_text(1) [OF assms(2)]
  by (auto simp: parts_ok_def TrimSuffix_append dest: arg_cong [of _ _ length])

text \<open>C34: \<open>ValidateVLESSDecryption\<close> accepts exactly the texts of the grammar: the word none, or the
  algorithm, a mode, one lifetime or an ascending pair of lifetimes between 1 and 2^32-1, and key
  parts of which each is a padding or a key of 32 or 64 bytes, at least one of them a key.\<close>

theorem ValidateVLESSDecryption_grammar:
  "ValidateVLESSDecryption v = None \<longleftrightarrow> v = ''none'' \<or>
   (\<exists>mode bounds keys. v = vless_text mode bounds keys \<and> vless_mode mode \<and> lifetimes bounds \<and>
      list_all (\<lambda>p. is_padding p \<or> is_key p) keys \<and> \<not> list_all is_padding keys)"
  (is "_ \<longleftrightarrow> _ \<or> ?r")
proof (cases "v = ''none''")
  case False
  have "parts_ok (Split v (CHR ''.'')) \<longleftrightarrow> ?r"
  proof
    assume ok: "parts_ok (Split v (CHR ''.''))"
    obtain p0 p1 p2 ks where p: "Split v (CHR ''.'') = p0 # p1 # p2 # ks"
      using ok by (auto simp: parts_ok_def split: list.splits)
    let ?b = "Split (TrimSuffix p2 ''s'') (CHR ''-'')"
    from ok p have o: "p0 = vless_alg" "vless_mode p1" "TrimSuffix p2 ''s'' \<noteq> p2" "lifetimes ?b"
      "list_all (\<lambda>p. is_padding p \<or> is_key p) ks" "\<not> list_all is_padding ks"
      by (simp_all add: parts_ok_def)
    obtain t where t: "p2 = t @ ''s''" using o(3) TrimSuffix_s by blast
    have "v = vless_text p1 ?b ks"
      using Join_Split [of v "CHR ''.''"] by (simp only: p o(1) vless_text_def Join_Split t TrimSuffix_append)
    with o show ?r by blast
  next
    assume ?r
    then show "parts_ok (Split v (CHR ''.''))" using vless_text_parts by blast
  qed
  with False show ?thesis using Validate_parts_ok [OF False] by simp
qed (simp add: ValidateVLESSDecryption_def)

text \<open>The text the legacy fields of a node stand for.\<close>

definition legacy_text :: "VAllssNode \<Rightarrow> string" where
  "legacy_text n =
     (let s = va_EncryptionSettings n in
      if va_Encryption n = [] \<and> s = EncSettings_zero \<or> va_Encryption n = ''none'' then ''none''
      else Join ([va_Encryption n, es_Mode s, es_Ticket s] @
             (if es_ServerPadding s \<noteq> [] then [es_ServerPadding s] else []) @ [es_PrivateKey s]) ''.'')"

text \<open>a node's decryption setting, when it is accepted, is valid; it is the newer field when that is
  present and the text of the legacy fields otherwise, and a node that has both has them equal.\<close>

theorem VLESSDecryption_sound:
  assumes "VLESSDecryption (Some n) = Inr v"
  shows "ValidateVLESSDecryption v = None \<and>
    v = (case va_Decryption n of Some d \<Rightarrow> d | None \<Rightarrow> legacy_text n) \<and>
    (va_Encryption n \<noteq> [] \<or> va_EncryptionSettings n \<noteq> EncSettings_zero \<longrightarrow>
       v = legacy_text n \<and> (va_Encryption n = ''none'' \<or> va_Encryption n = vless_alg))"
  using assms unfolding VLESSDecryption_def Let_def legacy_text_def
  by (auto split: if_splits option.splits)

definition demo_node :: VAllssNode where
  "demo_node = \<lparr>va_Common = \<lparr>cn_Host = [], cn_ServerPort = 443, cn_ServerName = [], cn_Routes = [], cn_BaseConfig = None\<rparr>,
     va_Tls = 0, va_TlsSettings = \<lparr>ts_ServerName = [], ts_Dest = [], ts_ServerPort = [], ts_ShortId = [],
       ts_PrivateKey = [], ts_Mldsa65Seed = [], ts_Xver = 0\<rparr>, va_TlsSettingsBack = None, va_Network = ''tcp'',
     va_NetworkSettings = [], va_NetworkSettingsBack = [], va_Encryption = vless_alg,
     va_EncryptionSettings = \<lparr>es_Mode = ''native'', es_Ticket = ''600s'', es_ServerPadding = ''100-5-9'',
       es_PrivateKey = replicate 43 CHR ''A''\<rparr>,
     va_Decryption = None, va_ServerName = [], va_Flow = [],
     va_RealityConfig = \<lparr>rc_Xver = 0, rc_MinClientVer = [], rc_MaxClientVer = [], rc_MaxTimeDiff = []\<rparr>\<rparr>"

lemma sextets_A: "sextets (replicate n CHR ''A'') = Some (replicate n 0)"
proof (induction n)
  case (Suc n)
  have "sextet CHR ''A'' = Some 0" by code_simp
  with Suc show ?case by simp
qed simp

lemma demo_key: "is_key (replicate 43 CHR ''A'')"
proof -
  have "octets (replicate 43 0) = Some (replicate 32 0)" by code_simp
  then show ?thesis by (simp add: is_key_def RawURL_DecodeString_def sextets_A)
qed

lemma demo_legacy:
  "legacy_text demo_node = vless_text ''native'' [''600''] [''100-5-9'', replicate 43 CHR ''A'']"
  by (simp add: legacy_text_def demo_node_def vless_text_def EncSettings_zero_def vless_alg_def Let_def)

lemma demo_valid: "ValidateVLESSDecryption (legacy_text demo_node) = None"
proof -
  let ?k = "replicate 43 CHR ''A''"
  have n: "CHR ''.'' \<notin> set ?k" by simp
  have "Split (legacy_text demo_node) (CHR ''.'') = [vless_alg, ''native'', ''600s'', ''100-5-9'', ?k]"
    unfolding demo_legacy vless_text_def
    using Split_Join [of "[vless_alg, ''native'', ''600s'', ''100-5-9'', ?k]" "CHR ''.''"] n
    by (simp add: vless_alg_def)
  moreover have "is_padding ''100-5-9''"
    by (simp add: is_padding_def vlessPaddingPattern_def all_digits_def digit_val_def)
  moreover have "\<not> is_padding ?k" by (simp add: is_padding_def)
  moreover have "lifetimes (Split ''600'' (CHR ''-''))"
    by (simp add: lifetimes_def lifetime_def ParseUint_def parse_digits_def digit_val_def)
  moreover have "TrimSuffix ''600s'' ''s'' = ''600''" by (simp add: TrimSuffix_def HasSuffix_def)
  ultimately have "parts_ok (Split (legacy_text demo_node) (CHR ''.''))"
    using demo_key by (simp add: parts_ok_def vless_mode_def)
  moreover have "legacy_text demo_node \<noteq> ''none''"
    by (simp add: demo_legacy vless_text_def vless_alg_def)
  ultimately show ?thesis using Validate_parts_ok by blast
qed

theorem VLESSDecryption_sound_witness:
  "legacy_text demo_node \<noteq> ''none'' \<and> ValidateVLESSDecryption (legacy_text demo_node) = None"
proof -
  have n: "legacy_text demo_node \<noteq> ''none''"
    by (simp add: demo_legacy vless_text_def vless_alg_def)
  have "VLESSDecryption (Some demo_node) = Inr (legacy_text demo_node)"
    using demo_valid by (simp add: VLESSDecryption_def legacy_text_def demo_node_def vless_alg_def Let_def)
  from VLESSDecryption_sound [OF this] n show ?thesis by blast
qed

end
