(* ===== verification/Conf_Types.thy ===== *)
theory Conf_Types
  imports Panel_Types
begin

text \<open>
  The configuration structures of runtime/conf with the defaults their constructors set.  The
  sing-box \<open>DomainStrategy\<close> option, a type of another module that no modelled code reads, is left out.
\<close>

section \<open>Limits\<close>

record DynamicSpeedLimitConfig =
  dsl_Periodic :: int
  dsl_Traffic :: int
  dsl_SpeedLimit :: int
  dsl_ExpireTime :: int

record RecorderConfig =
  rec_Url :: string
  rec_Token :: string
  rec_Timeout :: int

record RedisConfig =
  rd_Address :: string
  rd_Password :: string
  rd_Db :: int
  rd_Expiry :: int

record IpReportConfig =
  ir_Periodic :: int
  ir_Type :: string
  ir_RecorderConfig :: "RecorderConfig option"
  ir_RedisConfig :: "RedisConfig option"
  ir_EnableIpSync :: bool

record LimitConfig =
  lc_EnableRealtime :: bool
  lc_SpeedLimit :: int
  lc_IPLimit :: int
  lc_ConnLimit :: int
  lc_EnableIpRecorder :: bool
  lc_IpRecorderConfig :: "IpReportConfig option"
  lc_EnableDynamicSpeedLimit :: bool
  lc_DynamicSpeedLimitConfig :: "DynamicSpeedLimitConfig option"

section \<open>Certificates and per-core options\<close>

record CertConfig =
  cc_CertMode :: string
  cc_RejectUnknownSni :: bool
  cc_CertDomain :: string
  cc_CertFile :: string
  cc_KeyFile :: string
  cc_Provider :: string
  cc_Email :: string
  cc_DNSEnv :: "(string, string) gomap"

definition NewCertConfig :: CertConfig where
  "NewCertConfig = \<lparr>cc_CertMode = ''none'', cc_RejectUnknownSni = False, cc_CertDomain = [],
     cc_CertFile = [], cc_KeyFile = [], cc_Provider = [], cc_Email = [], cc_DNSEnv = []\<rparr>"

record FallBackConfigForXray =
  fx_SNI :: string
  fx_Alpn :: string
  fx_Path :: string
  fx_Dest :: string
  fx_ProxyProtocolVer :: nat

record XrayOptions =
  xo_AllowPrivateNetwork :: bool
  xo_EnableProxyProtocol :: bool
  xo_EnableDNS :: bool
  xo_DNSType :: string
  xo_EnableUot :: bool
  xo_EnableTFO :: bool
  xo_DisableIVCheck :: bool
  xo_DisableSniffing :: bool
  xo_EnableFallback :: bool
  xo_FallBackConfigs :: "FallBackConfigForXray list option"

definition NewXrayOptions :: XrayOptions where
  "NewXrayOptions = \<lparr>xo_AllowPrivateNetwork = False, xo_EnableProxyProtocol = False,
     xo_EnableDNS = False, xo_DNSType = ''AsIs'', xo_EnableUot = False, xo_EnableTFO = False,
     xo_DisableIVCheck = False, xo_DisableSniffing = False, xo_EnableFallback = False,
     xo_FallBackConfigs = None\<rparr>"

record FallBack =
  fb_Server :: string
  fb_ServerPort :: string

record FallBackConfigForSing =
  fs_FallBack :: FallBack
  fs_FallBackForALPN :: "(string, FallBack) gomap"

record BrutalOptions =
  br_Enabled :: bool
  br_UpMbps :: int
  br_DownMbps :: int

record MultiplexConfig =
  mc_Enabled :: bool
  mc_Padding :: bool
  mc_Brutal :: BrutalOptions

record SingOptions =
  so_TCPFastOpen :: bool
  so_SniffEnabled :: bool
  so_SniffOverrideDestination :: bool
  so_EnableDNS :: bool
  so_FallBackConfigs :: "FallBackConfigForSing option"
  so_Multiplex :: "MultiplexConfig option"

definition NewSingOptions :: SingOptions where
  "NewSingOptions = \<lparr>so_TCPFastOpen = False, so_SniffEnabled = True,
     so_SniffOverrideDestination = True, so_EnableDNS = False,
     so_FallBackConfigs = Some \<lparr>fs_FallBack = \<lparr>fb_Server = [], fb_ServerPort = []\<rparr>, fs_FallBackForALPN = []\<rparr>,
     so_Multiplex = Some \<lparr>mc_Enabled = False, mc_Padding = False,
       mc_Brutal = \<lparr>br_Enabled = False, br_UpMbps = 0, br_DownMbps = 0\<rparr>\<rparr>\<rparr>"

section \<open>Nodes and cores\<close>

record Options =
  op_Name :: string
  op_Core :: string
  op_CoreName :: string
  op_ListenIP :: string
  op_SendIP :: string
  op_DeviceOnlineMinTraffic :: int
  op_ReportMinTraffic :: int
  op_LimitConfig :: LimitConfig
  op_RawOptions :: string
  op_XrayOptions :: "XrayOptions option"
  op_SingOptions :: "SingOptions option"
  op_Hysteria2ConfigPath :: string
  op_CertConfig :: "CertConfig option"

record ApiConfig =
  ac_APIHost :: string
  ac_NodeID :: int
  ac_Key :: string
  ac_NodeType :: string
  ac_Timeout :: int
  ac_RuleListPath :: string

record NodeConfig =
  nc_ApiConfig :: ApiConfig
  nc_Options :: Options

record XrayLogConfig =
  xl_Level :: string
  xl_AccessPath :: string
  xl_ErrorPath :: string

record XrayConnectionConfig =
  xc_Handshake :: nat
  xc_ConnIdle :: nat
  xc_UplinkOnly :: nat
  xc_DownlinkOnly :: nat
  xc_BufferSize :: int

record XrayConfig =
  xr_LogConfig :: XrayLogConfig
  xr_AssetPath :: string
  xr_DnsConfigPath :: string
  xr_RouteConfigPath :: string
  xr_ConnectionConfig :: XrayConnectionConfig
  xr_InboundConfigPath :: string
  xr_OutboundConfigPath :: string

definition NewXrayConfig :: XrayConfig where
  "NewXrayConfig = \<lparr>
     xr_LogConfig = \<lparr>xl_Level = ''warning'', xl_AccessPath = [], xl_ErrorPath = []\<rparr>,
     xr_AssetPath = ''/etc/V2bX/'', xr_DnsConfigPath = [], xr_RouteConfigPath = [],
     xr_ConnectionConfig = \<lparr>xc_Handshake = 4, xc_ConnIdle = 30, xc_UplinkOnly = 2,
       xc_DownlinkOnly = 4, xc_BufferSize = 64\<rparr>,
     xr_InboundConfigPath = [], xr_OutboundConfigPath = []\<rparr>"

record SingLogConfig =
  sl_Disabled :: bool
  sl_Level :: string
  sl_Output :: string
  sl_Timestamp :: bool

record SingNtpConfig =
  sn_Enable :: bool
  sn_Server :: string
  sn_ServerPort :: nat

record SingConfig =
  sc_LogConfig :: SingLogConfig
  sc_NtpConfig :: SingNtpConfig
  sc_OriginalPath :: string

definition NewSingConfig :: SingConfig where
  "NewSingConfig = \<lparr>
     sc_LogConfig = \<lparr>sl_Disabled = False, sl_Level = ''error'', sl_Output = [], sl_Timestamp = True\<rparr>,
     sc_NtpConfig = \<lparr>sn_Enable = False, sn_Server = ''time.apple.com'', sn_ServerPort = 0\<rparr>,
     sc_OriginalPath = []\<rparr>"

record Hysteria2Config =
  hc_LogLevel :: string

definition NewHysteria2Config :: Hysteria2Config where
  "NewHysteria2Config = \<lparr>hc_LogLevel = ''error''\<rparr>"

record CoreConfig =
  co_Type :: string
  co_Name :: string
  co_XrayConfig :: "XrayConfig option"
  co_SingConfig :: "SingConfig option"
  co_Hysteria2Config :: "Hysteria2Config option"

end
