(* ===== verification/User_Table.thy ===== *)
theory User_Table
  imports Panel_Types
begin

text \<open>
  The contract between the node controller and everything that keeps a table of users (the limiter
  and the user tables of the cores): the controller removes the users of one list, installs those of
  another, and relies on the table then holding exactly the users of the panel's new list.
\<close>

definition uuids :: "UserInfo list \<Rightarrow> string set" where
  "uuids us = ui_Uuid ` set us"

lemma uuids_simps [simp]:
  "uuids [] = {}" "uuids (u # us) = insert (ui_Uuid u) (uuids us)" "uuids (us @ vs) = uuids us \<union> uuids vs"
  by (auto simp: uuids_def)

text \<open>\<open>(deleted, added)\<close> turns the users of \<open>old\<close> into the users of \<open>new\<close>.\<close>

definition is_diff :: "UserInfo list \<Rightarrow> UserInfo list \<Rightarrow> UserInfo list \<Rightarrow> UserInfo list \<Rightarrow> bool" where
  "is_diff old new deleted added \<longleftrightarrow> uuids new = (uuids old - uuids deleted) \<union> uuids added"

locale user_table =
  fixes knows :: "'s \<Rightarrow> string \<Rightarrow> bool"
    and install :: "UserInfo list \<Rightarrow> 's \<Rightarrow> 's"
    and remove :: "UserInfo list \<Rightarrow> 's \<Rightarrow> 's"
  assumes knows_install: "knows (install us s) u \<longleftrightarrow> knows s u \<or> u \<in> uuids us"
    and knows_remove: "knows (remove us s) u \<longleftrightarrow> knows s u \<and> u \<notin> uuids us"
begin

definition holds :: "'s \<Rightarrow> UserInfo list \<Rightarrow> bool" where
  "holds s us \<longleftrightarrow> (\<forall>u. knows s u \<longleftrightarrow> u \<in> uuids us)"

lemma holds_install_nothing: "(\<And>u. \<not> knows s u) \<Longrightarrow> holds (install us s) us"
  by (simp add: holds_def knows_install)

lemma holds_replace:
  "holds s old \<Longrightarrow> is_diff old new deleted added \<Longrightarrow> holds (install added (remove deleted s)) new"
  by (auto simp: holds_def is_diff_def knows_install knows_remove)

lemma replace_knows:
  "holds s old \<Longrightarrow> is_diff old new deleted added \<Longrightarrow>
   knows (install added (remove deleted s)) u \<longleftrightarrow> u \<in> uuids new"
  using holds_replace [of s old new deleted added] by (simp add: holds_def)

lemma install_twice: "knows (install us (install us s)) u \<longleftrightarrow> knows (install us s) u"
  by (auto simp: knows_install)

lemma remove_twice: "knows (remove us (remove us s)) u \<longleftrightarrow> knows (remove us s) u"
  by (auto simp: knows_remove)

end

end
