(* ===== verification/Panel.thy ===== *)
theory Panel
  imports Vless Conf_Types User_Table
begin

text \<open>
  The panel client (runtime/api/panel/panel.go, utils.go, node.go, user.go).  The HTTP exchange is an
  argument: a request is what the client sends and a reply is what the panel answered.  The JSON and
  msgpack decoders and SHA-256 are parameters; everything the client does with their results is
  defined here.
\<close>

section \<open>The client and its replies\<close>

record Client =
  cl_timeout :: int
  cl_params :: "(string, string) gomap"
  cl_APIHost :: string
  cl_Token :: string
  cl_NodeType :: string
  cl_NodeId :: int
  cl_nodeEtag :: string
  cl_userEtag :: string
  cl_pendingUserEtag :: string
  cl_responseBodyHash :: string
  cl_Alive :: "(int, int) gomap option"

text \<open>A reply, with the transport error the HTTP library reported beside it, if any.\<close>

record reply =
  rp_err :: "err option"
  rp_status :: int
  rp_body :: string
  rp_etag :: string
  rp_ctype :: string

text \<open>Tokens of the streaming JSON reader; reading past the end of the list is a read error.\<close>

datatype jtok = TokStr string | TokBeginObj | TokEndObj | TokBeginArr | TokEndArr | TokOther string

record decoders =
  dc_sha256hex :: "string \<Rightarrow> string"
  dc_vallss :: "string \<Rightarrow> VAllssNode res"
  dc_shadowsocks :: "string \<Rightarrow> ShadowsocksNode res"
  dc_trojan :: "string \<Rightarrow> TrojanNode res"
  dc_tuic :: "string \<Rightarrow> TuicNode res"
  dc_anytls :: "string \<Rightarrow> AnyTlsNode res"
  dc_hysteria :: "string \<Rightarrow> HysteriaNode res"
  dc_hysteria2 :: "string \<Rightarrow> Hysteria2Node res"
  dc_msgpack_users :: "string \<Rightarrow> UserInfo list option res"
  dc_tokens :: "string \<Rightarrow> jtok list"
  dc_user :: "jtok list \<Rightarrow> UserInfo res"
  dc_alive :: "string \<Rightarrow> (int, int) gomap option res"

definition second :: int where "second = 1000000000"

section \<open>Creating a client\<close>

definition supported_types :: "string list" where
  "supported_types = [''vmess'', ''trojan'', ''shadowsocks'', ''hysteria'', ''hysteria2'', ''tuic'', ''anytls'', ''vless'']"

text \<open>The client and the configuration, whose node type is rewritten in place.\<close>

definition New :: "ApiConfig \<Rightarrow> Client res \<times> ApiConfig" where
  "New c =
     (let timeout = (if ac_Timeout c > 0 then mul64 (ac_Timeout c) second else mul64 5 second);
          lower = ToLower (ac_NodeType c);
          nodeType = (if lower = ''v2ray'' then ''vmess'' else lower);
          c' = c\<lparr>ac_NodeType := nodeType\<rparr>
      in if lower = ''v2ray'' \<or> lower \<in> set supported_types then
           (Inr \<lparr>cl_timeout = timeout,
                 cl_params = [(''node_type'', nodeType), (''node_id'', Itoa (ac_NodeID c)), (''token'', ac_Key c)],
                 cl_APIHost = ac_APIHost c, cl_Token = ac_Key c, cl_NodeType = nodeType, cl_NodeId = ac_NodeID c,
                 cl_nodeEtag = [], cl_userEtag = [], cl_pendingUserEtag = [], cl_responseBodyHash = [],
                 cl_Alive = None\<rparr>, c')
         else (Inl (''unsupported Node type: '' @ nodeType), c'))"

section \<open>Checking replies\<close>

text \<open>\<open>path.Join\<close> of one element, which cleans it.\<close>

definition clean_step :: "bool \<Rightarrow> string \<Rightarrow> string list \<Rightarrow> string list" where
  "clean_step rooted c out =
     (if c = [] \<or> c = ''.'' then out
      else if c = ''..'' then
        (if out \<noteq> [] \<and> last out \<noteq> ''..'' then butlast out else if rooted then out else out @ [''..''])
      else out @ [c])"

definition path_Join1 :: "string \<Rightarrow> string" where
  "path_Join1 p =
     (if p = [] then []
      else
        let rooted = HasPrefix p ''/'';
            out = Join (fold (clean_step rooted) (Split p (CHR ''/'')) []) ''/'';
            r = (if rooted then ''/'' @ out else out)
        in if r = [] then ''.'' else r)"

definition assembleURL :: "Client \<Rightarrow> string \<Rightarrow> string" where
  "assembleURL c path = path_Join1 (cl_APIHost c @ path)"

definition checkResponse :: "Client \<Rightarrow> reply \<Rightarrow> string \<Rightarrow> err option" where
  "checkResponse c r path = (case rp_err r of
     Some e \<Rightarrow> Some (''request '' @ assembleURL c path @ '' failed: '' @ e)
   | None \<Rightarrow>
       if rp_status r \<ge> 400 then Some (''request '' @ assembleURL c path @ '' failed: '' @ rp_body r)
       else None)"

section \<open>Node descriptions\<close>

text \<open>The conversion of a float64 to a 64-bit duration drops the fraction; outside the range it yields
  the least value, as the amd64 instruction does.\<close>

definition float_trunc :: "int \<Rightarrow> int \<Rightarrow> int" where
  "float_trunc m e =
     (let t = (if e \<ge> 0 then m * 2 ^ nat e else sgn m * (abs m div 2 ^ nat (- e)))
      in if in64 t then t else - (2 ^ 63))"

definition intervalToTime :: "any \<Rightarrow> int" where
  "intervalToTime i = (case i of
     AnyInt n \<Rightarrow> mul64 n second
   | AnyStr s \<Rightarrow> mul64 (fst (Atoi s)) second
   | AnyFloat m e \<Rightarrow> mul64 (float_trunc m e) second
   | _ \<Rightarrow> 0)"

fun list_matchs :: "any list \<Rightarrow> string list option" where
  "list_matchs [] = Some []"
| "list_matchs (AnyStr t # items) = (case list_matchs items of None \<Rightarrow> None | Some ts \<Rightarrow> Some (t # ts))"
| "list_matchs (_ # items) = None"

definition route_matchs :: "any \<Rightarrow> string list option" where
  "route_matchs m = (case m of
     AnyStr value \<Rightarrow> Some (Split value (CHR '',''))
   | AnyStrs value \<Rightarrow> Some value
   | AnyList value \<Rightarrow> list_matchs value
   | _ \<Rightarrow> None)"

definition add_block :: "string \<Rightarrow> Rules \<Rightarrow> Rules" where
  "add_block v r =
     (if HasPrefix v ''protocol:'' then r\<lparr>ru_Protocol := ru_Protocol r @ [TrimPrefix v ''protocol:'']\<rparr>
      else r\<lparr>ru_Regexp := ru_Regexp r @ [TrimPrefix v ''regexp:'']\<rparr>)"

definition add_route :: "int \<Rightarrow> Route \<Rightarrow> NodeInfo \<Rightarrow> NodeInfo res" where
  "add_route i route node = (case route_matchs (rt_Match route) of
     None \<Rightarrow> Inl ''invalid node route match''
   | Some matchs \<Rightarrow>
       if matchs = [] then Inl ''empty node route match''
       else if rt_Action route = ''block'' then
         Inr (node\<lparr>ni_Rules := fold add_block matchs (ni_Rules node)\<rparr>)
       else if rt_Action route = ''dns'' then
         (if hd matchs \<noteq> ''main'' then
            Inr (node\<lparr>ni_RawDNS := (ni_RawDNS node)\<lparr>dns_DNSMap := mput (Itoa i)
                [(''address'', AnyStr (rt_ActionValue route)), (''domains'', AnyStrs matchs)]
                (dns_DNSMap (ni_RawDNS node))\<rparr>\<rparr>)
          else Inr (node\<lparr>ni_RawDNS := (ni_RawDNS node)\<lparr>dns_DNSJson := Join (tl matchs) []\<rparr>\<rparr>))
       else Inr node)"

fun add_routes :: "int \<Rightarrow> Route list \<Rightarrow> NodeInfo \<Rightarrow> NodeInfo res" where
  "add_routes i [] node = Inr node"
| "add_routes i (r # rs) node = (case add_route i r node of
     Inl e \<Rightarrow> Inl e | Inr node' \<Rightarrow> add_routes (i + 1) rs node')"

definition new_node :: "Client \<Rightarrow> reply \<Rightarrow> string \<Rightarrow> NodeInfo" where
  "new_node c r newBodyHash = \<lparr>ni_responseHash = newBodyHash, ni_responseETag = rp_etag r,
     ni_Id = cl_NodeId c, ni_Type = cl_NodeType c, ni_Security = None_sec,
     ni_PushInterval = 60 * second, ni_PullInterval = 60 * second,
     ni_RawDNS = \<lparr>dns_DNSMap = [], dns_DNSJson = []\<rparr>, ni_Rules = \<lparr>ru_Regexp = [], ru_Protocol = []\<rparr>,
     ni_VAllss = None, ni_Shadowsocks = None, ni_Trojan = None, ni_Tuic = None, ni_AnyTls = None,
     ni_Hysteria = None, ni_Hysteria2 = None, ni_Common = None\<rparr>"

text \<open>The older spellings of two fields take precedence and are cleared.\<close>

definition fold_back :: "VAllssNode \<Rightarrow> VAllssNode" where
  "fold_back rsp =
     (let rsp = (if length (va_NetworkSettingsBack rsp) > 0
                 then rsp\<lparr>va_NetworkSettings := va_NetworkSettingsBack rsp, va_NetworkSettingsBack := []\<rparr> else rsp)
      in case va_TlsSettingsBack rsp of
           Some t \<Rightarrow> rsp\<lparr>va_TlsSettings := t, va_TlsSettingsBack := None\<rparr>
         | None \<Rightarrow> rsp)"

text \<open>The protocol section: the node with it, and the common part inside it.  An unsupported type
  leaves the common part nil; \<open>New\<close> admits none.\<close>

definition decode_protocol :: "decoders \<Rightarrow> Client \<Rightarrow> reply \<Rightarrow> NodeInfo \<Rightarrow> (NodeInfo \<times> CommonNode option) res" where
  "decode_protocol D c r node =
     (let t = cl_NodeType c; body = rp_body r in
      if t = ''vmess'' \<or> t = ''vless'' then
        (case dc_vallss D body of
           Inl e \<Rightarrow> Inl (''decode v2ray params error: '' @ e)
         | Inr rsp0 \<Rightarrow>
             let rsp = fold_back rsp0;
                 done = Inr (node\<lparr>ni_VAllss := Some rsp, ni_Security := va_Tls rsp\<rparr>, Some (va_Common rsp))
             in if t = ''vless'' then (case VLESSDecryption (Some rsp) of Inl e \<Rightarrow> Inl e | Inr _ \<Rightarrow> done)
                else done)
      else if t = ''shadowsocks'' then
        (case dc_shadowsocks D body of
           Inl e \<Rightarrow> Inl (''decode shadowsocks params error: '' @ e)
         | Inr rsp \<Rightarrow> Inr (node\<lparr>ni_Shadowsocks := Some rsp, ni_Security := None_sec\<rparr>, Some (ss_Common rsp)))
      else if t = ''trojan'' then
        (case dc_trojan D body of
           Inl e \<Rightarrow> Inl (''decode trojan params error: '' @ e)
         | Inr rsp \<Rightarrow> Inr (node\<lparr>ni_Trojan := Some rsp, ni_Security := Tls\<rparr>, Some (tj_Common rsp)))
      else if t = ''tuic'' then
        (case dc_tuic D body of
           Inl e \<Rightarrow> Inl (''decode tuic params error: '' @ e)
         | Inr rsp \<Rightarrow> Inr (node\<lparr>ni_Tuic := Some rsp, ni_Security := Tls\<rparr>, Some (tu_Common rsp)))
      else if t = ''anytls'' then
        (case dc_anytls D body of
           Inl e \<Rightarrow> Inl (''decode anytls params error: '' @ e)
         | Inr rsp \<Rightarrow> Inr (node\<lparr>ni_AnyTls := Some rsp, ni_Security := Tls\<rparr>, Some (at_Common rsp)))
      else if t = ''hysteria'' then
        (case dc_hysteria D body of
           Inl e \<Rightarrow> Inl (''decode hysteria params error: '' @ e)
         | Inr rsp \<Rightarrow> Inr (node\<lparr>ni_Hysteria := Some rsp, ni_Security := Tls\<rparr>, Some (hy_Common rsp)))
      else if t = ''hysteria2'' then
        (case dc_hysteria2 D body of
           Inl e \<Rightarrow> Inl (''decode hysteria2 params error: '' @ e)
         | Inr rsp \<Rightarrow> Inr (node\<lparr>ni_Hysteria2 := Some rsp, ni_Security := Tls\<rparr>, Some (h2_Common rsp)))
      else Inr (node, None))"

definition set_intervals :: "CommonNode \<Rightarrow> NodeInfo \<Rightarrow> NodeInfo" where
  "set_intervals cm node = (case cn_BaseConfig cm of
     None \<Rightarrow> node
   | Some b \<Rightarrow>
       let push = intervalToTime (bc_PushInterval b); pull = intervalToTime (bc_PullInterval b);
           node = (if push > 0 then node\<lparr>ni_PushInterval := push\<rparr> else node)
       in if pull > 0 then node\<lparr>ni_PullInterval := pull\<rparr> else node)"

text \<open>The common part is shared by pointer with the protocol section: clearing it clears both.\<close>

definition set_common :: "CommonNode \<Rightarrow> NodeInfo \<Rightarrow> NodeInfo" where
  "set_common cm node = node\<lparr>ni_Common := Some cm,
     ni_VAllss := map_option (\<lambda>x. x\<lparr>va_Common := cm\<rparr>) (ni_VAllss node),
     ni_Shadowsocks := map_option (\<lambda>x. x\<lparr>ss_Common := cm\<rparr>) (ni_Shadowsocks node),
     ni_Trojan := map_option (\<lambda>x. x\<lparr>tj_Common := cm\<rparr>) (ni_Trojan node),
     ni_Tuic := map_option (\<lambda>x. x\<lparr>tu_Common := cm\<rparr>) (ni_Tuic node),
     ni_AnyTls := map_option (\<lambda>x. x\<lparr>at_Common := cm\<rparr>) (ni_AnyTls node),
     ni_Hysteria := map_option (\<lambda>x. x\<lparr>hy_Common := cm\<rparr>) (ni_Hysteria node),
     ni_Hysteria2 := map_option (\<lambda>x. x\<lparr>h2_Common := cm\<rparr>) (ni_Hysteria2 node)\<rparr>"

definition nil_common :: err where
  "nil_common = ''invalid memory address or nil pointer dereference''"

definition config_path :: string where "config_path = ''/api/v1/server/UniProxy/config''"

text \<open>\<open>None\<close> in the result is the nil node of an unchanged description.\<close>

definition GetNodeInfo :: "decoders \<Rightarrow> Client \<Rightarrow> reply \<Rightarrow> NodeInfo option res" where
  "GetNodeInfo D c r = (case checkResponse c r config_path of
     Some e \<Rightarrow> Inl e
   | None \<Rightarrow>
       if rp_status r = 304 then Inr None
       else
         let newBodyHash = dc_sha256hex D (rp_body r)
         in if cl_responseBodyHash c = newBodyHash then Inr None
            else (case decode_protocol D c r (new_node c r newBodyHash) of
                    Inl e \<Rightarrow> Inl e
                  | Inr (node, None) \<Rightarrow> Inl nil_common
                  | Inr (node, Some cm) \<Rightarrow>
                      (case add_routes 0 (cn_Routes cm) node of
                         Inl e \<Rightarrow> Inl e
                       | Inr node' \<Rightarrow>
                           Inr (Some (set_common (cm\<lparr>cn_Routes := [], cn_BaseConfig := None\<rparr>)
                                  (set_intervals cm node'))))))"

definition AcceptNodeInfo :: "NodeInfo option \<Rightarrow> Client \<Rightarrow> Client" where
  "AcceptNodeInfo node c = (case node of
     None \<Rightarrow> c
   | Some n \<Rightarrow> c\<lparr>cl_responseBodyHash := ni_responseHash n, cl_nodeEtag := ni_responseETag n\<rparr>)"

end
