(* ===== verification/Panel_Users.thy ===== *)
theory Panel_Users
  imports Panel
begin

text \<open>
  The user list, the alive list and the reports of the panel client (runtime/api/panel/user.go),
  with the acknowledgement protocol of the user list.
\<close>

section \<open>Reading the user list\<close>

text \<open>\<open>jsontext.Decoder.ReadValue\<close>: the tokens of the next value, by bracket depth.\<close>

fun read_balanced :: "nat \<Rightarrow> jtok list \<Rightarrow> (jtok list \<times> jtok list) option" where
  "read_balanced depth [] = None"
| "read_balanced depth (t # ts) =
     (let opens = (t = TokBeginObj \<or> t = TokBeginArr); closes = (t = TokEndObj \<or> t = TokEndArr)
      in if closes \<and> depth = 0 then None
         else
           let depth' = (if opens then depth + 1 else if closes then depth - 1 else depth)
           in if depth' = 0 then Some ([t], ts)
              else (case read_balanced depth' ts of None \<Rightarrow> None | Some (v, rest) \<Rightarrow> Some (t # v, rest)))"

lemma read_balanced_shorter: "read_balanced d ts = Some (v, rest) \<Longrightarrow> length rest < length ts"
  by (induction d ts arbitrary: v rest rule: read_balanced.induct)
    (fastforce simp: Let_def split: if_splits option.splits)+

text \<open>The text up to the first string token "users", wherever it stands.\<close>

fun skip_to_users :: "jtok list \<Rightarrow> jtok list option" where
  "skip_to_users [] = None"
| "skip_to_users (t # ts) = (if t = TokStr ''users'' then Some ts else skip_to_users ts)"

function read_users :: "(jtok list \<Rightarrow> UserInfo res) \<Rightarrow> jtok list \<Rightarrow> UserInfo list \<Rightarrow> UserInfo list res" where
  "read_users dec ts users =
     (if ts \<noteq> [] \<and> hd ts = TokEndArr then Inr users
      else (case read_balanced 0 ts of
              None \<Rightarrow> Inl ''decode user list error: read user object: ''
            | Some (val, rest) \<Rightarrow> (case dec val of
                  Inl e \<Rightarrow> Inl (''decode user list error: unmarshal user error: '' @ e)
                | Inr u \<Rightarrow> read_users dec rest (users @ [u]))))"
  by pat_completeness auto
termination
  by (relation "measure (\<lambda>(dec, ts, users). length ts)") (auto dest: read_balanced_shorter)

declare read_users.simps [simp del]

definition decode_users :: "decoders \<Rightarrow> string \<Rightarrow> UserInfo list res" where
  "decode_users D body = (case skip_to_users (dc_tokens D body) of
     None \<Rightarrow> Inl ''decode user list error: ''
   | Some [] \<Rightarrow> Inl ''decode user list error: ''
   | Some (t # ts) \<Rightarrow>
       if t \<noteq> TokBeginArr then Inl ''decode user list error: expected users array''
       else read_users (dc_user D) ts [])"

text \<open>\<open>GetUserList\<close>: no reply at all is \<open>None\<close>; the list \<open>None\<close> is the nil slice of an unchanged list.\<close>

definition GetUserList :: "decoders \<Rightarrow> reply option \<Rightarrow> Client \<Rightarrow> UserInfo list option res \<times> Client" where
  "GetUserList D rep c = (case rep of
     None \<Rightarrow> (Inl ''received nil response or raw response'', c)
   | Some r \<Rightarrow>
       if rp_status r = 304 then (Inr None, c\<lparr>cl_pendingUserEtag := cl_userEtag c\<rparr>)
       else (case checkResponse c r ''/api/v1/server/UniProxy/user'' of
         Some e \<Rightarrow> (Inl e, c)
       | None \<Rightarrow>
           (case (if Contains (rp_ctype r) ''application/x-msgpack'' then
                    (case dc_msgpack_users D (rp_body r) of
                       Inl e \<Rightarrow> Inl (''decode user list error: '' @ e) | Inr us \<Rightarrow> Inr us)
                  else (case decode_users D (rp_body r) of Inl e \<Rightarrow> Inl e | Inr us \<Rightarrow> Inr (Some us))) of
              Inl e \<Rightarrow> (Inl e, c)
            | Inr us \<Rightarrow> (Inr us, c\<lparr>cl_pendingUserEtag := rp_etag r\<rparr>))))"

definition AcceptUserList :: "Client \<Rightarrow> Client" where
  "AcceptUserList c = c\<lparr>cl_userEtag := cl_pendingUserEtag c\<rparr>"

text \<open>The map is \<open>None\<close> when the document lacks it: a nil map.\<close>

definition GetUserAlive :: "decoders \<Rightarrow> reply option \<Rightarrow> Client \<Rightarrow> (int, int) gomap option res \<times> Client" where
  "GetUserAlive D rep c =
     (let alive = (case rep of
        None \<Rightarrow> Some []
      | Some r \<Rightarrow>
          if rp_err r \<noteq> None \<or> rp_status r \<ge> 399 then Some []
          else (case dc_alive D (rp_body r) of Inl e \<Rightarrow> Some [] | Inr m \<Rightarrow> m))
      in (Inr alive, c\<lparr>cl_Alive := alive\<rparr>))"

section \<open>Reports\<close>

text \<open>The body of the traffic report: one pair of counts per user identifier.\<close>

definition traffic_body :: "UserTraffic list \<Rightarrow> (int, int list) gomap" where
  "traffic_body us = fold (\<lambda>u. mput (ut_UID u) [ut_Upload u, ut_Download u]) us []"

definition ReportUserTraffic :: "((int, int list) gomap \<Rightarrow> reply) \<Rightarrow> Client \<Rightarrow> UserTraffic list \<Rightarrow> err option" where
  "ReportUserTraffic post c us = checkResponse c (post (traffic_body us)) ''/api/v1/server/UniProxy/push''"

text \<open>A failed report of online users is not an error for the caller.\<close>

definition ReportNodeOnlineUsers ::
  "((int, string list) gomap \<Rightarrow> reply) \<Rightarrow> Client \<Rightarrow> (int, string list) gomap \<Rightarrow> err option" where
  "ReportNodeOnlineUsers post c online =
     (case checkResponse c (post online) ''/api/v1/server/UniProxy/alive'' of Some _ \<Rightarrow> None | None \<Rightarrow> None)"

section \<open>What a traffic report says\<close>

lemma traffic_body_lookup:
  assumes "distinct (map ut_UID us)"
  shows "map_of (traffic_body us) uid = map_option (\<lambda>u. [ut_Upload u, ut_Download u]) (find (\<lambda>u. ut_UID u = uid) us)"
proof -
  have "distinct (map ut_UID us) \<Longrightarrow>
    map_of (fold (\<lambda>u. mput (ut_UID u) [ut_Upload u, ut_Download u]) us m) uid =
    (case find (\<lambda>u. ut_UID u = uid) us of
       Some u \<Rightarrow> Some [ut_Upload u, ut_Download u] | None \<Rightarrow> map_of m uid)" for m
  proof (induction us arbitrary: m)
    case (Cons a us)
    have "ut_UID a = uid \<Longrightarrow> find (\<lambda>u. ut_UID u = uid) us = None"
      using Cons.prems by (force simp: find_None_iff image_iff)
    then show ?case using Cons.prems Cons.IH [of "mput (ut_UID a) [ut_Upload a, ut_Download a] m"]
      by (auto split: option.splits)
  qed simp
  from this [OF assms, of "[]"] show ?thesis by (simp add: traffic_body_def split: option.split)
qed

section \<open>The user list over time\<close>

text \<open>
  A panel that answers conditional requests as documented: 304 when the request carries the tag of
  the current list, the list and its tag otherwise.  The controller polls; it applies what it gets
  and then accepts it, or fails to apply it and accepts nothing, or the exchange itself fails.
\<close>

definition serve_users :: "(UserInfo list \<Rightarrow> string) \<Rightarrow> (UserInfo list \<Rightarrow> string) \<Rightarrow> UserInfo list \<Rightarrow> string \<Rightarrow> reply" where
  "serve_users tag enc us ifNoneMatch =
     (if ifNoneMatch = tag us
      then \<lparr>rp_err = None, rp_status = 304, rp_body = [], rp_etag = tag us, rp_ctype = []\<rparr>
      else \<lparr>rp_err = None, rp_status = 200, rp_body = enc us, rp_etag = tag us, rp_ctype = ''application/json''\<rparr>)"

datatype user_event =
    PanelChanges "UserInfo list"
  | PollApplied
  | PollNotApplied
  | PollBroken "reply option"

record user_sync =
  us_client :: Client
  us_panel :: "UserInfo list"
  us_applied :: "UserInfo list option"

definition broken :: "reply option \<Rightarrow> bool" where
  "broken rep = (case rep of None \<Rightarrow> True
     | Some r \<Rightarrow> rp_status r \<noteq> 304 \<and> (rp_err r \<noteq> None \<or> rp_status r \<ge> 400))"

fun user_step :: "decoders \<Rightarrow> (UserInfo list \<Rightarrow> string) \<Rightarrow> (UserInfo list \<Rightarrow> string) \<Rightarrow> user_event \<Rightarrow> user_sync \<Rightarrow> user_sync" where
  "user_step D tag enc (PanelChanges us) s = s\<lparr>us_panel := us\<rparr>"
| "user_step D tag enc PollApplied s =
     (case GetUserList D (Some (serve_users tag enc (us_panel s) (cl_userEtag (us_client s)))) (us_client s) of
        (Inl e, c) \<Rightarrow> s\<lparr>us_client := c\<rparr>
      | (Inr None, c) \<Rightarrow> s\<lparr>us_client := AcceptUserList c\<rparr>
      | (Inr (Some us), c) \<Rightarrow> s\<lparr>us_client := AcceptUserList c, us_applied := Some us\<rparr>)"
| "user_step D tag enc PollNotApplied s =
     s\<lparr>us_client := snd (GetUserList D (Some (serve_users tag enc (us_panel s) (cl_userEtag (us_client s)))) (us_client s))\<rparr>"
| "user_step D tag enc (PollBroken rep) s =
     (if broken rep then s\<lparr>us_client := snd (GetUserList D rep (us_client s))\<rparr> else s)"

fun panel_lists :: "user_event list \<Rightarrow> UserInfo list list" where
  "panel_lists [] = []"
| "panel_lists (PanelChanges us # es) = us # panel_lists es"
| "panel_lists (_ # es) = panel_lists es"

definition sync_inv :: "(UserInfo list \<Rightarrow> string) \<Rightarrow> UserInfo list set \<Rightarrow> user_sync \<Rightarrow> bool" where
  "sync_inv tag L s \<longleftrightarrow> us_panel s \<in> L \<and> (\<forall>us. us_applied s = Some us \<longrightarrow> us \<in> L) \<and>
     (cl_userEtag (us_client s) = [] \<or> (\<exists>us. us_applied s = Some us \<and> cl_userEtag (us_client s) = tag us))"

definition honest :: "decoders \<Rightarrow> (UserInfo list \<Rightarrow> string) \<Rightarrow> (UserInfo list \<Rightarrow> string) \<Rightarrow> UserInfo list set \<Rightarrow> bool" where
  "honest D tag enc L \<longleftrightarrow> inj_on tag L \<and> (\<forall>us \<in> L. tag us \<noteq> [] \<and> decode_users D (enc us) = Inr us)"

lemma not_msgpack: "\<not> Contains ''application/json'' ''application/x-msgpack''"
  by (simp add: HasPrefix_def)

lemma GetUserList_served:
  assumes "honest D tag enc L" and "us \<in> L"
  shows "GetUserList D (Some (serve_users tag enc us e)) c =
    (if e = tag us then (Inr None, c\<lparr>cl_pendingUserEtag := cl_userEtag c\<rparr>)
     else (Inr (Some us), c\<lparr>cl_pendingUserEtag := tag us\<rparr>))"
  using assms not_msgpack
  by (simp add: GetUserList_def serve_users_def checkResponse_def honest_def)

lemma GetUserList_broken:
  "broken rep \<Longrightarrow> snd (GetUserList D rep c) = c"
  by (auto simp: broken_def GetUserList_def checkResponse_def split: option.splits)

lemma user_step_inv:
  assumes "honest D tag enc L" and "sync_inv tag L s" and "\<forall>us. e = PanelChanges us \<longrightarrow> us \<in> L"
  shows "sync_inv tag L (user_step D tag enc e s)"
proof (cases e)
  case (PanelChanges us)
  with assms show ?thesis by (simp add: sync_inv_def)
next
  case PollApplied
  with assms(2) show ?thesis
    by (auto simp: sync_inv_def AcceptUserList_def GetUserList_served [OF assms(1)])
next
  case PollNotApplied
  with assms(2) show ?thesis by (auto simp: sync_inv_def GetUserList_served [OF assms(1)])
next
  case (PollBroken rep)
  with assms(2) show ?thesis by (simp add: sync_inv_def GetUserList_broken)
qed

lemma user_run_inv:
  "honest D tag enc L \<Longrightarrow> sync_inv tag L s \<Longrightarrow> set (panel_lists es) \<subseteq> L \<Longrightarrow>
   sync_inv tag L (fold (user_step D tag enc) es s)"
proof (induction es arbitrary: s)
  case (Cons e es)
  have "\<forall>us. e = PanelChanges us \<longrightarrow> us \<in> L" "set (panel_lists es) \<subseteq> L"
    using Cons.prems(3) by (cases e; simp)+
  with Cons.IH [OF Cons.prems(1) user_step_inv [OF Cons.prems(1,2)]] show ?case by simp
qed simp

text \<open>C29: whatever happened before - lists that could not be applied, broken exchanges, panel changes -
  a poll that is applied leaves the controller with the list the panel has now: the client never
  treats a list as known that was not applied.\<close>

theorem user_list_synchronised:
  assumes "honest D tag enc (set (us_panel s # panel_lists es))"
    and "us_applied s = None" and "cl_userEtag (us_client s) = []"
  shows "let s' = fold (user_step D tag enc) es s
         in us_applied (user_step D tag enc PollApplied s') = Some (us_panel s')"
proof -
  let ?L = "set (us_panel s # panel_lists es)"
  let ?s = "fold (user_step D tag enc) es s"
  have "sync_inv tag ?L s" using assms by (simp add: sync_inv_def)
  from user_run_inv [OF assms(1) this, of es] have inv: "sync_inv tag ?L ?s" by auto
  then have p: "us_panel ?s \<in> ?L" by (simp add: sync_inv_def)
  have "us_applied ?s = Some (us_panel ?s)" if same: "cl_userEtag (us_client ?s) = tag (us_panel ?s)"
  proof -
    have "cl_userEtag (us_client ?s) \<noteq> []" using same p assms(1) unfolding honest_def by metis
    with inv obtain us where us: "us_applied ?s = Some us" "tag us = tag (us_panel ?s)" "us \<in> ?L"
      using same unfolding sync_inv_def by metis
    with p assms(1) have "us = us_panel ?s" unfolding honest_def by (metis inj_onD)
    with us show ?thesis by simp
  qed
  then show ?thesis unfolding Let_def
    by (simp add: GetUserList_served [OF assms(1) p])
qed

definition demo_decoders :: decoders where
  "demo_decoders = \<lparr>dc_sha256hex = id, dc_vallss = (\<lambda>_. Inl []), dc_shadowsocks = (\<lambda>_. Inl []),
     dc_trojan = (\<lambda>_. Inl []), dc_tuic = (\<lambda>_. Inl []), dc_anytls = (\<lambda>_. Inl []),
     dc_hysteria = (\<lambda>_. Inl []), dc_hysteria2 = (\<lambda>_. Inl []), dc_msgpack_users = (\<lambda>_. Inl []),
     dc_tokens = (\<lambda>body. [TokBeginObj, TokStr ''users'', TokBeginArr] @
        map (\<lambda>ch. TokOther [ch]) body @ [TokEndArr, TokEndObj]),
     dc_user = (\<lambda>val. Inr \<lparr>ui_Id = 1, ui_Uuid = (case val of [TokOther u] \<Rightarrow> u | _ \<Rightarrow> []),
        ui_SpeedLimit = 0, ui_DeviceLimit = 0\<rparr>),
     dc_alive = (\<lambda>_. Inr (Some []))\<rparr>"

definition demo_client :: Client where
  "demo_client = \<lparr>cl_timeout = 5, cl_params = [], cl_APIHost = [], cl_Token = [], cl_NodeType = ''vless'',
     cl_NodeId = 1, cl_nodeEtag = [], cl_userEtag = [], cl_pendingUserEtag = [], cl_responseBodyHash = [],
     cl_Alive = None\<rparr>"

definition named_user :: "string \<Rightarrow> UserInfo" where
  "named_user u = \<lparr>ui_Id = 1, ui_Uuid = u, ui_SpeedLimit = 0, ui_DeviceLimit = 0\<rparr>"

theorem user_list_synchronised_witness:
  "us_applied (user_step demo_decoders (\<lambda>us. ''v'' @ concat (map ui_Uuid us)) (\<lambda>us. concat (map ui_Uuid us)) PollApplied
     (fold (user_step demo_decoders (\<lambda>us. ''v'' @ concat (map ui_Uuid us)) (\<lambda>us. concat (map ui_Uuid us)))
        [PollApplied, PanelChanges [], PollNotApplied]
        \<lparr>us_client = demo_client, us_panel = [named_user ''a'', named_user ''b''], us_applied = None\<rparr>)) = Some []"
proof -
  let ?tag = "\<lambda>us. ''v'' @ concat (map ui_Uuid us)" and ?enc = "\<lambda>us. concat (map ui_Uuid us)"
  let ?s = "\<lparr>us_client = demo_client, us_panel = [named_user ''a'', named_user ''b''], us_applied = None\<rparr>"
  let ?es = "[PollApplied, PanelChanges [], PollNotApplied]"
  have "honest demo_decoders ?tag ?enc (set (us_panel ?s # panel_lists ?es))"
    unfolding honest_def
    by (auto simp: inj_on_def named_user_def decode_users_def demo_decoders_def read_users.simps)
  from user_list_synchronised [OF this] have
    "us_applied (user_step demo_decoders ?tag ?enc PollApplied (fold (user_step demo_decoders ?tag ?enc) ?es ?s)) =
     Some (us_panel (fold (user_step demo_decoders ?tag ?enc) ?es ?s))"
    by (simp only: Let_def) (simp add: demo_client_def)
  moreover have "us_panel (fold (user_step demo_decoders ?tag ?enc) ?es ?s) = []" by code_simp
  ultimately show ?thesis by simp
qed

end
