(* ===== verification/Panel_Props.thy ===== *)
theory Panel_Props
  imports Panel_Users
begin

text \<open>
  What the panel client guarantees about the node descriptions it hands to the controller.
\<close>

section \<open>Well-formed descriptions\<close>

text \<open>Exactly the section of the node's type is present, its common part is the shared cleared one,
  the timers of the controller get a positive interval, and a VLESS node has a valid decryption.\<close>

definition node_ok :: "NodeInfo \<Rightarrow> bool" where
  "node_ok n \<longleftrightarrow>
     (ni_VAllss n \<noteq> None \<longleftrightarrow> ni_Type n = ''vmess'' \<or> ni_Type n = ''vless'') \<and>
     (ni_Shadowsocks n \<noteq> None \<longleftrightarrow> ni_Type n = ''shadowsocks'') \<and>
     (ni_Trojan n \<noteq> None \<longleftrightarrow> ni_Type n = ''trojan'') \<and>
     (ni_Tuic n \<noteq> None \<longleftrightarrow> ni_Type n = ''tuic'') \<and>
     (ni_AnyTls n \<noteq> None \<longleftrightarrow> ni_Type n = ''anytls'') \<and>
     (ni_Hysteria n \<noteq> None \<longleftrightarrow> ni_Type n = ''hysteria'') \<and>
     (ni_Hysteria2 n \<noteq> None \<longleftrightarrow> ni_Type n = ''hysteria2'') \<and>
     (\<exists>cm. ni_Common n = Some cm \<and> cn_Routes cm = [] \<and> cn_BaseConfig cm = None) \<and>
     ni_PushInterval n > 0 \<and> ni_PullInterval n > 0 \<and>
     (ni_Type n = ''vless'' \<longrightarrow> (\<exists>v. VLESSDecryption (ni_VAllss n) = Inr v))"

definition same_sections :: "NodeInfo \<Rightarrow> NodeInfo \<Rightarrow> bool" where
  "same_sections n m \<longleftrightarrow> ni_VAllss n = ni_VAllss m \<and> ni_Shadowsocks n = ni_Shadowsocks m \<and>
     ni_Trojan n = ni_Trojan m \<and> ni_Tuic n = ni_Tuic m \<and> ni_AnyTls n = ni_AnyTls m \<and>
     ni_Hysteria n = ni_Hysteria m \<and> ni_Hysteria2 n = ni_Hysteria2 m \<and> ni_Type n = ni_Type m \<and>
     ni_Security n = ni_Security m \<and> ni_responseHash n = ni_responseHash m \<and>
     ni_responseETag n = ni_responseETag m \<and> ni_Id n = ni_Id m"

lemma add_route_sections:
  "add_route i r n = Inr m \<Longrightarrow> same_sections m n \<and> ni_PushInterval m = ni_PushInterval n \<and>
     ni_PullInterval m = ni_PullInterval n"
  by (auto simp: add_route_def same_sections_def split: option.splits if_splits)

lemma add_routes_sections:
  "add_routes i rs n = Inr m \<Longrightarrow> same_sections m n \<and> ni_PushInterval m = ni_PushInterval n \<and>
     ni_PullInterval m = ni_PullInterval n"
proof (induction rs arbitrary: i n)
  case (Cons r rs)
  then obtain n' where n': "add_route i r n = Inr n'" "add_routes (i + 1) rs n' = Inr m"
    by (auto split: sum.splits)
  from add_route_sections [OF n'(1)] Cons.IH [OF n'(2)] show ?case by (simp add: same_sections_def)
qed (simp add: same_sections_def)

lemma set_intervals_sections:
  "same_sections (set_intervals cm n) n"
  by (simp add: set_intervals_def same_sections_def Let_def split: option.split)

lemma set_intervals_pos:
  "ni_PushInterval n > 0 \<Longrightarrow> ni_PullInterval n > 0 \<Longrightarrow>
   ni_PushInterval (set_intervals cm n) > 0 \<and> ni_PullInterval (set_intervals cm n) > 0"
  by (simp add: set_intervals_def Let_def split: option.split)

lemma VLESSDecryption_common: "VLESSDecryption (Some (n\<lparr>va_Common := cm\<rparr>)) = VLESSDecryption (Some n)"
  by (cases n) (simp only: VAllssNode.update_convs VAllssNode.select_convs VLESSDecryption_def option.case)

text \<open>The decoded description before routes and intervals.\<close>

definition decoded_ok :: "Client \<Rightarrow> NodeInfo \<Rightarrow> bool" where
  "decoded_ok c n \<longleftrightarrow> ni_Type n = cl_NodeType c \<and>
     (ni_VAllss n \<noteq> None \<longleftrightarrow> ni_Type n = ''vmess'' \<or> ni_Type n = ''vless'') \<and>
     (ni_Shadowsocks n \<noteq> None \<longleftrightarrow> ni_Type n = ''shadowsocks'') \<and>
     (ni_Trojan n \<noteq> None \<longleftrightarrow> ni_Type n = ''trojan'') \<and>
     (ni_Tuic n \<noteq> None \<longleftrightarrow> ni_Type n = ''tuic'') \<and>
     (ni_AnyTls n \<noteq> None \<longleftrightarrow> ni_Type n = ''anytls'') \<and>
     (ni_Hysteria n \<noteq> None \<longleftrightarrow> ni_Type n = ''hysteria'') \<and>
     (ni_Hysteria2 n \<noteq> None \<longleftrightarrow> ni_Type n = ''hysteria2'') \<and>
     ni_PushInterval n = 60 * second \<and> ni_PullInterval n = 60 * second \<and>
     (ni_Type n = ''vless'' \<longrightarrow> (\<exists>v. VLESSDecryption (ni_VAllss n) = Inr v))"

lemma decode_protocol_ok:
  "decode_protocol D c r (new_node c r h) = Inr (n, Some cm) \<Longrightarrow> decoded_ok c n"
  unfolding decode_protocol_def Let_def decoded_ok_def new_node_def
  by (auto split: if_splits sum.splits)

lemma decode_protocol_tags:
  "decode_protocol D c r m = Inr (n, cm) \<Longrightarrow>
   ni_responseHash n = ni_responseHash m \<and> ni_responseETag n = ni_responseETag m \<and>
   ni_Rules n = ni_Rules m \<and> ni_RawDNS n = ni_RawDNS m \<and> ni_Id n = ni_Id m"
  unfolding decode_protocol_def Let_def by (auto split: if_splits sum.splits)

lemma GetNodeInfo_cases:
  assumes "GetNodeInfo D c r = Inr (Some n)"
  obtains m cm m' where
    "decode_protocol D c r (new_node c r (dc_sha256hex D (rp_body r))) = Inr (m, Some cm)"
    "add_routes 0 (cn_Routes cm) m = Inr m'"
    "n = set_common (cm\<lparr>cn_Routes := [], cn_BaseConfig := None\<rparr>) (set_intervals cm m')"
    "rp_status r \<noteq> 304" "cl_responseBodyHash c \<noteq> dc_sha256hex D (rp_body r)"
  using assms unfolding GetNodeInfo_def Let_def
  by (auto split: option.splits if_splits sum.splits prod.splits)

text \<open>C33: a node description the client hands out is well formed: exactly the section of its type is
  there, shared and cleared common part, positive poll and report intervals whatever the panel sent,
  and for VLESS a decryption setting that passed validation.\<close>

theorem GetNodeInfo_wellformed:
  assumes "GetNodeInfo D c r = Inr (Some n)"
  shows "node_ok n \<and> ni_Type n = cl_NodeType c"
proof -
  obtain m cm m' where m: "decode_protocol D c r (new_node c r (dc_sha256hex D (rp_body r))) = Inr (m, Some cm)"
    and m': "add_routes 0 (cn_Routes cm) m = Inr m'"
    and n: "n = set_common (cm\<lparr>cn_Routes := [], cn_BaseConfig := None\<rparr>) (set_intervals cm m')"
    using GetNodeInfo_cases [OF assms] by metis
  let ?k = "set_intervals cm m'"
  note d = decode_protocol_ok [OF m] and s = add_routes_sections [OF m'] and i = set_intervals_sections [of cm m']
  have pos: "ni_PushInterval ?k > 0" "ni_PullInterval ?k > 0"
    using set_intervals_pos [of m' cm] s d by (auto simp: decoded_ok_def second_def)
  have same: "same_sections ?k m" using s i by (simp add: same_sections_def)
  have v: "VLESSDecryption (map_option (\<lambda>x. x\<lparr>va_Common := cm'\<rparr>) o') = VLESSDecryption o'" for cm' o'
    by (cases o') (simp_all add: VLESSDecryption_common)
  show ?thesis using d same pos unfolding n node_ok_def set_common_def decoded_ok_def same_sections_def
    by (simp add: v)
qed

definition demo_ss :: ShadowsocksNode where
  "demo_ss = \<lparr>ss_Common = \<lparr>cn_Host = [], cn_ServerPort = 443, cn_ServerName = [],
       cn_Routes = [\<lparr>rt_Id = 1, rt_Match = AnyStr ''protocol:bittorrent,regexp:x'', rt_Action = ''block'', rt_ActionValue = []\<rparr>],
       cn_BaseConfig = Some \<lparr>bc_PushInterval = AnyStr ''-5'', bc_PullInterval = AnyFloat 15 1\<rparr>\<rparr>,
     ss_Cipher = ''aes-128-gcm'', ss_ServerKey = []\<rparr>"

definition demo_reply :: reply where
  "demo_reply = \<lparr>rp_err = None, rp_status = 200, rp_body = ''b'', rp_etag = ''e'', rp_ctype = []\<rparr>"

definition demo_config :: "NodeInfo option res" where
  "demo_config = GetNodeInfo (demo_decoders\<lparr>dc_shadowsocks := \<lambda>_. Inr demo_ss\<rparr>)
     (demo_client\<lparr>cl_NodeType := ''shadowsocks''\<rparr>) demo_reply"

lemma demo_config_some: "\<exists>n. demo_config = Inr (Some n)"
proof -
  have "(case demo_config of Inr (Some n) \<Rightarrow> True | _ \<Rightarrow> False)"
    by (simp add: demo_config_def GetNodeInfo_def checkResponse_def demo_reply_def demo_client_def demo_decoders_def
        decode_protocol_def demo_ss_def add_route_def route_matchs_def Let_def)
  then show ?thesis by (auto split: sum.splits option.splits)
qed

theorem GetNodeInfo_wellformed_witness:
  "case demo_config of Inr (Some n) \<Rightarrow> node_ok n \<and> ni_Type n = ''shadowsocks'' | _ \<Rightarrow> False"
proof -
  obtain n where n: "demo_config = Inr (Some n)" using demo_config_some by blast
  from GetNodeInfo_wellformed [OF n [unfolded demo_config_def]] have "node_ok n \<and> ni_Type n = ''shadowsocks''"
    by simp
  then show ?thesis unfolding n by simp
qed

section \<open>Routes\<close>

definition route_bad :: "Route \<Rightarrow> bool" where
  "route_bad r \<longleftrightarrow> route_matchs (rt_Match r) = None \<or> route_matchs (rt_Match r) = Some []"

definition route_values :: "string \<Rightarrow> Route \<Rightarrow> string list" where
  "route_values action r = (if rt_Action r = action then the (route_matchs (rt_Match r)) else [])"

definition is_protocol :: "string \<Rightarrow> bool" where
  "is_protocol v \<longleftrightarrow> HasPrefix v ''protocol:''"

text \<open>The rules and DNS settings a list of routes stands for.\<close>

definition rules_of :: "Route list \<Rightarrow> Rules" where
  "rules_of rs = (let vs = concat (map (route_values ''block'') rs) in
     \<lparr>ru_Regexp = map (\<lambda>v. TrimPrefix v ''regexp:'') (filter (\<lambda>v. \<not> is_protocol v) vs),
      ru_Protocol = map (\<lambda>v. TrimPrefix v ''protocol:'') (filter is_protocol vs)\<rparr>)"

definition main_dns :: "Route list \<Rightarrow> string list" where
  "main_dns rs = map (\<lambda>r. Join (tl (route_values ''dns'' r)) [])
     (filter (\<lambda>r. route_values ''dns'' r \<noteq> [] \<and> hd (route_values ''dns'' r) = ''main'') rs)"

definition dns_entry :: "Route list \<Rightarrow> nat \<Rightarrow> (string, any) gomap option" where
  "dns_entry rs j =
     (if j < length rs \<and> route_values ''dns'' (rs ! j) \<noteq> [] \<and> hd (route_values ''dns'' (rs ! j)) \<noteq> ''main''
      then Some [(''address'', AnyStr (rt_ActionValue (rs ! j))), (''domains'', AnyStrs (route_values ''dns'' (rs ! j)))]
      else None)"

lemma fold_add_block:
  "fold add_block vs r = r\<lparr>
     ru_Regexp := ru_Regexp r @ map (\<lambda>v. TrimPrefix v ''regexp:'') (filter (\<lambda>v. \<not> is_protocol v) vs),
     ru_Protocol := ru_Protocol r @ map (\<lambda>v. TrimPrefix v ''protocol:'') (filter is_protocol vs)\<rparr>"
  by (induction vs arbitrary: r) (simp_all add: add_block_def is_protocol_def)

lemma add_route_result:
  "add_route i r n = (case route_matchs (rt_Match r) of
     None \<Rightarrow> Inl ''invalid node route match''
   | Some ms \<Rightarrow> if ms = [] then Inl ''empty node route match''
       else Inr (n\<lparr>ni_Rules := fold add_block (route_values ''block'' r) (ni_Rules n),
           ni_RawDNS := (let d = ni_RawDNS n; vs = route_values ''dns'' r in
             if vs = [] then d
             else if hd vs \<noteq> ''main'' then d\<lparr>dns_DNSMap := mput (Itoa i)
                [(''address'', AnyStr (rt_ActionValue r)), (''domains'', AnyStrs vs)] (dns_DNSMap d)\<rparr>
             else d\<lparr>dns_DNSJson := Join (tl vs) []\<rparr>)\<rparr>))"
  by (cases "route_matchs (rt_Match r)") (auto simp: add_route_def route_values_def Let_def)

lemma add_routes_fail: "(\<exists>e. add_routes i rs n = Inl e) \<longleftrightarrow> list_ex route_bad rs"
proof (induction rs arbitrary: i n)
  case (Cons r rs)
  then show ?case
    by (auto simp: add_route_result route_bad_def split: option.splits sum.splits)
qed simp

lemma add_routes_rules:
  "add_routes i rs n = Inr m \<Longrightarrow>
   ni_Rules m = fold add_block (concat (map (route_values ''block'') rs)) (ni_Rules n) \<and>
   dns_DNSJson (ni_RawDNS m) = last (dns_DNSJson (ni_RawDNS n) # main_dns rs)"
proof (induction rs arbitrary: i n)
  case (Cons r rs)
  then obtain n' where n': "add_route i r n = Inr n'" "add_routes (i + 1) rs n' = Inr m"
    by (auto split: sum.splits)
  from Cons.IH [OF n'(2)] n'(1) show ?case
    by (auto simp: add_route_result main_dns_def Let_def split: option.splits if_splits)
qed (simp add: main_dns_def)

lemma add_routes_dns:
  "add_routes i rs n = Inr m \<Longrightarrow> i \<ge> 0 \<Longrightarrow>
   map_of (dns_DNSMap (ni_RawDNS m)) (Itoa k) =
     (if k \<ge> i \<and> dns_entry rs (nat (k - i)) \<noteq> None then dns_entry rs (nat (k - i))
      else map_of (dns_DNSMap (ni_RawDNS n)) (Itoa k))"
proof (induction rs arbitrary: i n)
  case (Cons r rs)
  then obtain n' where n': "add_route i r n = Inr n'" "add_routes (i + 1) rs n' = Inr m"
    by (auto split: sum.splits)
  have e0: "dns_entry (r # rs) 0 = (if route_values ''dns'' r \<noteq> [] \<and> hd (route_values ''dns'' r) \<noteq> ''main''
      then Some [(''address'', AnyStr (rt_ActionValue r)), (''domains'', AnyStrs (route_values ''dns'' r))] else None)"
    by (simp add: dns_entry_def)
  have eS: "dns_entry (r # rs) (nat (k - i)) = dns_entry rs (nat (k - (i + 1)))" if "k > i"
  proof -
    from that have "nat (k - i) = Suc (nat (k - (i + 1)))" by simp
    then show ?thesis by (simp add: dns_entry_def)
  qed
  have one: "map_of (dns_DNSMap (ni_RawDNS n')) (Itoa k) =
      (if k = i \<and> dns_entry (r # rs) 0 \<noteq> None then dns_entry (r # rs) 0 else map_of (dns_DNSMap (ni_RawDNS n)) (Itoa k))"
    using n'(1) unfolding e0
    by (auto simp: add_route_result Let_def dest: Itoa_inj split: option.splits if_splits)
  have "i + 1 \<ge> 0" using Cons.prems(2) by simp
  note ih = Cons.IH [OF n'(2) this]
  show ?case
  proof (cases "k > i")
    case True
    with ih one eS show ?thesis by simp
  next
    case False
    with ih one show ?thesis by (cases "k = i") auto
  qed
qed (simp add: dns_entry_def)

text \<open>From the routes of an accepted description the client extracts exactly their rules: the block
  values, in order and without their prefixes, and for each custom DNS route one entry under its
  position, the last main route giving the raw DNS document.  The only failures are routes whose
  match is missing, of the wrong type or empty.\<close>

theorem GetNodeInfo_routes:
  "(case add_routes 0 rs (new_node c r h) of
      Inl e \<Rightarrow> list_ex route_bad rs
    | Inr n \<Rightarrow> \<not> list_ex route_bad rs \<and> ni_Rules n = rules_of rs \<and>
        dns_DNSJson (ni_RawDNS n) = last ([] # main_dns rs) \<and>
        (\<forall>j. map_of (dns_DNSMap (ni_RawDNS n)) (Itoa (int j)) = dns_entry rs j))"
proof (cases "add_routes 0 rs (new_node c r h)")
  case (Inl e)
  with add_routes_fail [of 0 rs "new_node c r h"] show ?thesis by simp
next
  case (Inr n)
  moreover have "\<not> list_ex route_bad rs" using Inr add_routes_fail [of 0 rs "new_node c r h"] by auto
  moreover have "map_of (dns_DNSMap (ni_RawDNS n)) (Itoa (int j)) = dns_entry rs j" for j
    using add_routes_dns [OF Inr, of "int j"] by (simp add: new_node_def)
  ultimately show ?thesis
    using add_routes_rules [OF Inr] by (simp add: new_node_def rules_of_def fold_add_block Let_def)
qed

section \<open>Acknowledging node descriptions\<close>

text \<open>a description is skipped as known exactly when the panel says not modified or its body has the
  fingerprint of the last accepted one; a description that was fetched but not accepted is offered
  again, and accepting it silences the same body.\<close>

theorem node_info_acknowledged:
  assumes "rp_err r = None" and "rp_status r = 200"
  shows "(GetNodeInfo D c r = Inr None \<longleftrightarrow> cl_responseBodyHash c = dc_sha256hex D (rp_body r)) \<and>
    (\<forall>n. GetNodeInfo D c r = Inr (Some n) \<longrightarrow>
       GetNodeInfo D (AcceptNodeInfo (Some n) c) r = Inr None \<and>
       cl_nodeEtag (AcceptNodeInfo (Some n) c) = rp_etag r)"
proof -
  have check: "checkResponse c r p = None" for c p using assms by (simp add: checkResponse_def)
  have known: "GetNodeInfo D c r = Inr None \<longleftrightarrow> cl_responseBodyHash c = dc_sha256hex D (rp_body r)" for c
    using assms(2) unfolding GetNodeInfo_def Let_def
    by (auto simp: check split: sum.splits prod.splits option.splits)
  moreover have "ni_responseHash n = dc_sha256hex D (rp_body r) \<and> ni_responseETag n = rp_etag r"
    if n: "GetNodeInfo D c r = Inr (Some n)" for n
  proof -
    obtain m cm m' where m: "decode_protocol D c r (new_node c r (dc_sha256hex D (rp_body r))) = Inr (m, Some cm)"
      and m': "add_routes 0 (cn_Routes cm) m = Inr m'"
      and n: "n = set_common (cm\<lparr>cn_Routes := [], cn_BaseConfig := None\<rparr>) (set_intervals cm m')"
      using GetNodeInfo_cases [OF n] by metis
    show ?thesis
      using decode_protocol_tags [OF m] add_routes_sections [OF m'] set_intervals_sections [of cm m']
      by (simp add: n set_common_def same_sections_def new_node_def)
  qed
  ultimately show ?thesis by (auto simp: AcceptNodeInfo_def)
qed

theorem node_info_acknowledged_witness:
  "GetNodeInfo (demo_decoders\<lparr>dc_shadowsocks := \<lambda>_. Inr demo_ss\<rparr>)
     (demo_client\<lparr>cl_NodeType := ''shadowsocks''\<rparr>) demo_reply \<noteq> Inr None"
  using node_info_acknowledged [of demo_reply "demo_decoders\<lparr>dc_shadowsocks := \<lambda>_. Inr demo_ss\<rparr>"
      "demo_client\<lparr>cl_NodeType := ''shadowsocks''\<rparr>"]
  by (simp add: demo_reply_def demo_client_def demo_decoders_def)

end
