(* ===== verification/Conf_Decode.thy ===== *)
theory Conf_Decode
  imports Conf_Types Json5_Spec
begin

text \<open>
  Decoding the configuration (runtime/conf/node.go, core.go and conf.go).  \<open>encoding/json\<close> is a parameter:
  decoding a document into a structure gives an error, if any, and the structure as it is left.
  Files and HTTP replies are parameters too; the JSON5 preprocessing between them and the decoder is
  the one of \<open>Json5\<close>.
\<close>

type_synonym 'a unmarshal = "string \<Rightarrow> 'a \<Rightarrow> err option \<times> 'a"

record rawNodeConfig =
  rn_Include :: string
  rn_ApiRaw :: string
  rn_OptRaw :: string

record json_decoders =
  js_options :: "Options unmarshal"
  js_xrayOptions :: "XrayOptions unmarshal"
  js_singOptions :: "SingOptions unmarshal"
  js_core :: "CoreConfig unmarshal"
  js_xray :: "XrayConfig unmarshal"
  js_sing :: "SingConfig unmarshal"
  js_hy2 :: "Hysteria2Config unmarshal"
  js_rawNode :: "rawNodeConfig unmarshal"
  js_api :: "ApiConfig unmarshal"

section \<open>Options\<close>

text \<open>The core's own options are decoded from the same document on top of their defaults.\<close>

definition Options_UnmarshalJSON :: "json_decoders \<Rightarrow> Options unmarshal" where
  "Options_UnmarshalJSON J data o0 = (case js_options J data o0 of
     (Some e, o1) \<Rightarrow> (Some e, o1)
   | (None, o1) \<Rightarrow>
       if op_Core o1 = ''xray'' then
         (case js_xrayOptions J data NewXrayOptions of (e, x) \<Rightarrow> (e, o1\<lparr>op_XrayOptions := Some x\<rparr>))
       else if op_Core o1 = ''sing'' then
         (case js_singOptions J data NewSingOptions of (e, x) \<Rightarrow> (e, o1\<lparr>op_SingOptions := Some x\<rparr>))
       else if op_Core o1 = ''hysteria2'' then (None, o1\<lparr>op_RawOptions := data\<rparr>)
       else (None, o1\<lparr>op_Core := [], op_RawOptions := data\<rparr>))"

section \<open>Cores\<close>

definition CoreConfig_UnmarshalJSON :: "json_decoders \<Rightarrow> CoreConfig unmarshal" where
  "CoreConfig_UnmarshalJSON J b c0 = (case js_core J b c0 of
     (Some e, c) \<Rightarrow> (Some e, c)
   | (None, c) \<Rightarrow>
       if co_Type c = ''xray'' then
         (case js_xray J b NewXrayConfig of (e, x) \<Rightarrow> (e, c\<lparr>co_XrayConfig := Some x\<rparr>))
       else if co_Type c = ''sing'' then
         (case js_sing J b NewSingConfig of (e, x) \<Rightarrow> (e, c\<lparr>co_SingConfig := Some x\<rparr>))
       else if co_Type c = ''hysteria2'' then
         (case js_hy2 J b NewHysteria2Config of (e, x) \<Rightarrow> (e, c\<lparr>co_Hysteria2Config := Some x\<rparr>))
       else (None, c))"

section \<open>Nodes\<close>

text \<open>Reading all of a source through the JSON5 reader; a read error leaves nothing of the file.\<close>

definition read_stripped :: "string res \<Rightarrow> string res" where
  "read_stripped src = (case src of Inl e \<Rightarrow> Inl e | Inr s \<Rightarrow> Inr (prep s))"

definition CutPrefix :: "string \<Rightarrow> string \<Rightarrow> string" where
  "CutPrefix s p = TrimPrefix s p"

definition include_data :: "(string \<Rightarrow> string res) \<Rightarrow> (string \<Rightarrow> string res) \<Rightarrow> string \<Rightarrow> string res" where
  "include_data http_get os_open Include =
     (let file = CutPrefix Include '':'' in
      if file = ''http'' \<or> file = ''https'' then
        (case http_get file of
           Inl e \<Rightarrow> Inl e
         | Inr body \<Rightarrow> (case read_stripped (Inr body) of
               Inl e \<Rightarrow> Inl (''open include file error: '' @ e) | Inr d \<Rightarrow> Inr d))
      else (case read_stripped (os_open Include) of
              Inl e \<Rightarrow> Inl (''open include file error: '' @ e) | Inr d \<Rightarrow> Inr d))"

definition default_api :: ApiConfig where
  "default_api = \<lparr>ac_APIHost = ''http://127.0.0.1'', ac_NodeID = 0, ac_Key = [], ac_NodeType = [],
     ac_Timeout = 30, ac_RuleListPath = []\<rparr>"

definition LimitConfig_zero :: LimitConfig where
  "LimitConfig_zero = \<lparr>lc_EnableRealtime = False, lc_SpeedLimit = 0, lc_IPLimit = 0, lc_ConnLimit = 0,
     lc_EnableIpRecorder = False, lc_IpRecorderConfig = None, lc_EnableDynamicSpeedLimit = False,
     lc_DynamicSpeedLimitConfig = None\<rparr>"

definition default_options :: Options where
  "default_options = \<lparr>op_Name = [], op_Core = [], op_CoreName = [], op_ListenIP = ''0.0.0.0'',
     op_SendIP = ''0.0.0.0'', op_DeviceOnlineMinTraffic = 0, op_ReportMinTraffic = 0,
     op_LimitConfig = LimitConfig_zero, op_RawOptions = [], op_XrayOptions = None, op_SingOptions = None,
     op_Hysteria2ConfigPath = [], op_CertConfig = Some NewCertConfig\<rparr>"

text \<open>An error leaves the node as far as it was
  decoded; the callers give up on it.\<close>

definition NodeConfig_UnmarshalJSON ::
  "json_decoders \<Rightarrow> (string \<Rightarrow> string res) \<Rightarrow> (string \<Rightarrow> string res) \<Rightarrow> NodeConfig unmarshal" where
  "NodeConfig_UnmarshalJSON J http_get os_open data0 n =
     (case js_rawNode J data0 \<lparr>rn_Include = [], rn_ApiRaw = [], rn_OptRaw = []\<rparr> of
        (Some e, _) \<Rightarrow> (Some e, n)
      | (None, rn0) \<Rightarrow>
          (case (if length (rn_Include rn0) \<noteq> 0
                 then (case include_data http_get os_open (rn_Include rn0) of
                         Inl e \<Rightarrow> Inl e
                       | Inr d \<Rightarrow> (case js_rawNode J d rn0 of
                             (Some e, _) \<Rightarrow> Inl (''unmarshal include file error: '' @ e)
                           | (None, rn) \<Rightarrow> Inr (d, rn)))
                 else Inr (data0, rn0)) of
             Inl e \<Rightarrow> (Some e, n)
           | Inr (data, rn) \<Rightarrow>
               (case js_api J (if length (rn_ApiRaw rn) > 0 then rn_ApiRaw rn else data) default_api of
                  (Some e, a) \<Rightarrow> (Some e, n\<lparr>nc_ApiConfig := a\<rparr>)
                | (None, a) \<Rightarrow>
                    (case Options_UnmarshalJSON J (if length (rn_OptRaw rn) > 0 then rn_OptRaw rn else data)
                            default_options of
                       (e, opts) \<Rightarrow> (e, n\<lparr>nc_ApiConfig := a, nc_Options := opts\<rparr>)))))"

section \<open>The configuration file\<close>

definition LoadFromPath :: "(string \<Rightarrow> string res) \<Rightarrow> (string \<Rightarrow> string res) \<Rightarrow> 'c unmarshal \<Rightarrow> string \<Rightarrow> 'c \<Rightarrow> err option \<times> 'c" where
  "LoadFromPath os_open read_all unmarshal filePath p = (case os_open filePath of
     Inl e \<Rightarrow> (Some (''open config file error: '' @ e), p)
   | Inr f \<Rightarrow> (case read_stripped (read_all f) of
       Inl e \<Rightarrow> (Some (''read config file error: '' @ e), p)
     | Inr data \<Rightarrow> (case unmarshal data p of
         (Some e, p') \<Rightarrow> (Some (''unmarshal config error: '' @ e), p')
       | (None, p') \<Rightarrow> (None, p'))))"

section \<open>Lemmas\<close>

text \<open>whatever the configuration names, an included document is never fetched over the network:
  the switch on the protocol sees the whole name, so an http URL is opened as a local file.\<close>

theorem include_url_is_a_file:
  assumes "Include = proto @ ''://'' @ rest"
  shows "include_data http_get os_open Include = include_data http_get' os_open Include"
proof -
  have "CutPrefix Include '':'' \<noteq> ''http'' \<and> CutPrefix Include '':'' \<noteq> ''https''"
  proof -
    have "CHR ''/'' \<in> set (CutPrefix Include '':'')"
      using assms by (auto simp: CutPrefix_def TrimPrefix_def HasPrefix_def)
        (cases proto; simp)
    then show ?thesis by auto
  qed
  then show ?thesis by (simp add: include_data_def Let_def)
qed

theorem include_url_is_a_file_witness:
  "include_data (\<lambda>_. Inr ''{}'') (\<lambda>_. Inl ''no such file'') ''https://example.com/node.json'' =
   include_data (\<lambda>_. Inl ''refused'') (\<lambda>_. Inl ''no such file'') ''https://example.com/node.json''"
  by (rule include_url_is_a_file [of _ "''https''" "''example.com/node.json''"]) simp

text \<open>Options decoded without an error are complete for their core.\<close>

lemma options_complete:
  assumes "Options_UnmarshalJSON J data o0 = (None, o1)"
  shows "(op_Core o1 = ''xray'' \<and> op_XrayOptions o1 \<noteq> None) \<or> (op_Core o1 = ''sing'' \<and> op_SingOptions o1 \<noteq> None) \<or>
    ((op_Core o1 = ''hysteria2'' \<or> op_Core o1 = []) \<and> op_RawOptions o1 = data)"
  using assms unfolding Options_UnmarshalJSON_def
  by (auto split: prod.splits option.splits if_splits)

end
