(* ===== verification/Core_Interface.thy ===== *)
theory Core_Interface
  imports Conf_Decode User_Table
begin

text \<open>
  The proxy core interface (runtime/core/interface.go), the registry that builds cores (core.go), the
  configuration check (check.go) and the contract a core gives the node controller.
\<close>

section \<open>The interface\<close>

text \<open>
  A core over a state type: every operation takes the state and returns it updated.  \<open>AddNode\<close> may
  rewrite the options it is given.  The two optional interfaces are \<open>option\<close>s; a snapshot returns the
  function that restores it.
\<close>

record 's Core =
  c_Start :: "'s \<Rightarrow> err option \<times> 's"
  c_Close :: "'s \<Rightarrow> err option \<times> 's"
  c_AddNode :: "string \<Rightarrow> NodeInfo \<Rightarrow> Options \<Rightarrow> 's \<Rightarrow> err option \<times> Options \<times> 's"
  c_DelNode :: "string \<Rightarrow> 's \<Rightarrow> err option \<times> 's"
  c_AddUsers :: "string \<Rightarrow> UserInfo list \<Rightarrow> NodeInfo \<Rightarrow> 's \<Rightarrow> int res \<times> 's"
  c_GetUserTrafficSlice :: "string \<Rightarrow> bool \<Rightarrow> 's \<Rightarrow> UserTraffic list res \<times> 's"
  c_DelUsers :: "UserInfo list \<Rightarrow> string \<Rightarrow> NodeInfo \<Rightarrow> 's \<Rightarrow> err option \<times> 's"
  c_Protocols :: "'s \<Rightarrow> string list"
  c_Type :: "'s \<Rightarrow> string"
  c_ValidateNode :: "(string \<Rightarrow> NodeInfo \<Rightarrow> Options \<Rightarrow> 's \<Rightarrow> err option) option"
  c_SnapshotNodeState :: "(string \<Rightarrow> NodeInfo \<Rightarrow> Options \<Rightarrow> 's \<Rightarrow> ('s \<Rightarrow> err option \<times> 's) res) option"

section \<open>Building cores\<close>

type_synonym 's registry = "(string, CoreConfig \<Rightarrow> ('s Core \<times> 's) res) gomap"

definition RegisterCore :: "string \<Rightarrow> (CoreConfig \<Rightarrow> ('s Core \<times> 's) res) \<Rightarrow> 's registry \<Rightarrow> 's registry" where
  "RegisterCore t f cores = mput t f cores"

definition RegisteredCore :: "'s registry \<Rightarrow> string list" where
  "RegisteredCore cores = map fst cores"

section \<open>Checking a configuration\<close>

type_synonym validators = "(string, CoreConfig \<Rightarrow> err option) gomap"
type_synonym node_validators = "(string, Options \<Rightarrow> err option) gomap"

definition RegisterConfigValidator :: "string \<Rightarrow> (CoreConfig \<Rightarrow> err option) \<Rightarrow> validators \<Rightarrow> validators" where
  "RegisterConfigValidator name validate m = mput name validate m"

definition RegisterNodeConfigValidator :: "string \<Rightarrow> (Options \<Rightarrow> err option) \<Rightarrow> node_validators \<Rightarrow> node_validators" where
  "RegisterNodeConfigValidator name validate m = mput name validate m"

definition core_name :: "CoreConfig \<Rightarrow> string" where
  "core_name cfg = (if co_Name cfg = [] then co_Type cfg else co_Name cfg)"

text \<open>The first loop: the names with their types, or the first error.\<close>

fun check_cores :: "validators \<Rightarrow> int \<Rightarrow> CoreConfig list \<Rightarrow> (string, string) gomap \<Rightarrow> (string, string) gomap res" where
  "check_cores V i [] names = Inr names"
| "check_cores V i (cfg # cs) names =
     (if mhas names (core_name cfg) then Inl (''duplicate core name '' @ core_name cfg)
      else (case map_of V (co_Type cfg) of
              None \<Rightarrow> Inl (''unsupported core '' @ co_Type cfg)
            | Some validate \<Rightarrow> (case validate cfg of
                  Some e \<Rightarrow> Inl (''core '' @ Itoa i @ '' ('' @ co_Type cfg @ ''): '' @ e)
                | None \<Rightarrow> check_cores V (i + 1) cs (mput (core_name cfg) (co_Type cfg) names))))"

definition node_err :: "int \<Rightarrow> string \<Rightarrow> err" where
  "node_err i s = ''node '' @ Itoa i @ s"

text \<open>The second loop, one node; \<open>types\<close> are the configured types and \<open>single\<close> the type of the only core
  when there is one.\<close>

definition check_node ::
  "json_decoders \<Rightarrow> validators \<Rightarrow> node_validators \<Rightarrow> (string, string) gomap \<Rightarrow> string list \<Rightarrow> string option
     \<Rightarrow> int \<Rightarrow> NodeConfig \<Rightarrow> err option" where
  "check_node J V NV names types single i n =
     (let opts = nc_Options n; a = nc_ApiConfig n;
          named = (if op_CoreName opts \<noteq> [] then map_of names (op_CoreName opts) else Some (op_Core opts))
      in case named of
           None \<Rightarrow> Some (node_err i '': unknown CoreName'')
         | Some chosen0 \<Rightarrow>
             let chosen = (if chosen0 = [] then (case single of Some t \<Rightarrow> t | None \<Rightarrow> chosen0) else chosen0)
             in if chosen \<noteq> [] \<and> chosen \<notin> set types then Some (node_err i '': core not configured'')
                else
                  (case (if op_Core opts = [] \<and> chosen \<noteq> [] \<and> length (op_RawOptions opts) > 0
                         then Options_UnmarshalJSON J (op_RawOptions opts) (opts\<lparr>op_Core := chosen\<rparr>)
                         else (None, opts)) of
                     (Some e, _) \<Rightarrow> Some (node_err i ('' options: '' @ e))
                   | (None, opts) \<Rightarrow>
                       (case (case map_of NV chosen of None \<Rightarrow> None | Some validate \<Rightarrow> validate opts) of
                          Some e \<Rightarrow> Some (node_err i ('': '' @ e))
                        | None \<Rightarrow>
                            if (case op_XrayOptions opts of None \<Rightarrow> False | Some x \<Rightarrow> xo_DisableIVCheck x)
                            then Some (node_err i '': DisableIVCheck is no longer supported'')
                            else if ac_NodeID a \<le> 0 \<or> ac_APIHost a = [] \<or> ac_Key a = []
                            then Some (node_err i '': missing panel settings'')
                            else if op_Core opts \<noteq> [] \<and> map_of V (op_Core opts) = None
                            then Some (node_err i '': core unavailable'')
                            else None)))"

fun check_nodes ::
  "json_decoders \<Rightarrow> validators \<Rightarrow> node_validators \<Rightarrow> (string, string) gomap \<Rightarrow> string list \<Rightarrow> string option
     \<Rightarrow> int \<Rightarrow> NodeConfig list \<Rightarrow> err option" where
  "check_nodes J V NV names types single i [] = None"
| "check_nodes J V NV names types single i (n # ns) =
     (case check_node J V NV names types single i n of
        Some e \<Rightarrow> Some e | None \<Rightarrow> check_nodes J V NV names types single (i + 1) ns)"

definition CheckConfig ::
  "json_decoders \<Rightarrow> validators \<Rightarrow> node_validators \<Rightarrow> CoreConfig list \<Rightarrow> NodeConfig list \<Rightarrow> err option" where
  "CheckConfig J V NV cores nodes =
     (if cores = [] then Some ''no cores configured''
      else (case check_cores V 0 cores [] of
              Inl e \<Rightarrow> Some e
            | Inr names \<Rightarrow>
                check_nodes J V NV names (map co_Type cores)
                  (case cores of [c] \<Rightarrow> Some (co_Type c) | _ \<Rightarrow> None) 0 nodes))"

section \<open>What an accepted configuration guarantees\<close>

lemma check_cores_ok:
  "check_cores V i cs names = Inr names' \<Longrightarrow>
   distinct (map core_name cs) \<and> list_all (\<lambda>c. \<not> mhas names (core_name c)) cs \<and>
   list_all (\<lambda>c. \<exists>v. map_of V (co_Type c) = Some v \<and> v c = None) cs \<and>
   (\<forall>k. map_of names' k = (case find (\<lambda>c. core_name c = k) cs of Some c \<Rightarrow> Some (co_Type c) | None \<Rightarrow> map_of names k))"
proof (induction cs arbitrary: i names)
  case (Cons c cs)
  then have h: "\<not> mhas names (core_name c)" "\<exists>v. map_of V (co_Type c) = Some v \<and> v c = None"
    and r: "check_cores V (i + 1) cs (mput (core_name c) (co_Type c) names) = Inr names'"
    by (auto split: if_splits option.splits)
  note ih = Cons.IH [OF r]
  have n: "\<not> mhas (mput (core_name c) (co_Type c) names) (core_name d)" if "d \<in> set cs" for d
    using ih that by (simp add: list_all_iff)
  have d: "core_name c \<notin> core_name ` set cs" using n by (metis imageE mhas_mput)
  have "find (\<lambda>d. core_name d = core_name c) cs = None"
    unfolding find_None_iff using d by (metis rev_image_eqI)
  moreover have "distinct (map core_name (c # cs))" using d ih by simp
  moreover have "list_all (\<lambda>d. \<not> mhas names (core_name d)) (c # cs)" using h n by (simp add: list_all_iff)
  moreover have "list_all (\<lambda>c. \<exists>v. map_of V (co_Type c) = Some v \<and> v c = None) (c # cs)" using h ih by simp
  moreover have "map_of names' k = (case find (\<lambda>d. core_name d = k) (c # cs) of
      Some d \<Rightarrow> Some (co_Type d) | None \<Rightarrow> map_of names k)" for k
    using ih calculation(1) by (cases "core_name c = k") (auto split: option.split)
  ultimately show ?case by blast
qed simp

definition chosen_core :: "CoreConfig list \<Rightarrow> Options \<Rightarrow> string" where
  "chosen_core cores opts =
     (let chosen = (if op_CoreName opts \<noteq> []
                    then (case find (\<lambda>c. core_name c = op_CoreName opts) cores of Some c \<Rightarrow> co_Type c | None \<Rightarrow> [])
                    else op_Core opts)
      in if chosen = [] \<and> length cores = 1 then co_Type (hd cores) else chosen)"

lemma check_nodes_ok:
  "check_nodes J V NV names types single i ns = None \<longleftrightarrow>
   (\<forall>j < length ns. check_node J V NV names types single (i + int j) (ns ! j) = None)"
proof (induction ns arbitrary: i)
  case (Cons n ns)
  have "(\<forall>j < length (n # ns). check_node J V NV names types single (i + int j) ((n # ns) ! j) = None) \<longleftrightarrow>
      check_node J V NV names types single i n = None \<and>
      (\<forall>j < length ns. check_node J V NV names types single (i + 1 + int j) (ns ! j) = None)"
    by (auto simp: less_Suc_eq_0_disj nth_Cons algebra_simps split: nat.splits)
  with Cons.IH [of "i + 1"] show ?case by (auto split: option.splits)
qed simp

lemma find_in_set: "find P xs = Some x \<Longrightarrow> x \<in> set xs \<and> P x"
  by (induction xs) (auto split: if_splits)

lemma check_node_ok:
  assumes "check_node J V NV names types single i n = None"
  shows "\<exists>t. (if op_CoreName (nc_Options n) \<noteq> [] then map_of names (op_CoreName (nc_Options n))
               else Some (op_Core (nc_Options n))) = Some t \<and>
      (if t = [] then (case single of Some u \<Rightarrow> u | None \<Rightarrow> t) else t) \<in> insert [] (set types) \<and>
      ac_NodeID (nc_ApiConfig n) > 0 \<and> ac_APIHost (nc_ApiConfig n) \<noteq> [] \<and> ac_Key (nc_ApiConfig n) \<noteq> []"
proof -
  obtain t where t: "(if op_CoreName (nc_Options n) \<noteq> [] then map_of names (op_CoreName (nc_Options n))
               else Some (op_Core (nc_Options n))) = Some t"
    using assms unfolding check_node_def Let_def by (auto split: option.splits)
  show ?thesis
    using assms unfolding check_node_def Let_def t
    by (intro exI [of _ t]) (auto split: option.splits if_splits prod.splits)
qed

text \<open>a configuration that passes the check has at least one core, cores with distinct names whose
  validators accept them, and for every node panel settings and a core that is configured (none
  chosen only if several cores are left to match by protocol).\<close>

theorem CheckConfig_guarantees:
  assumes "CheckConfig J V NV cores nodes = None"
  shows "cores \<noteq> [] \<and> distinct (map core_name cores) \<and>
    list_all (\<lambda>c. \<exists>v. map_of V (co_Type c) = Some v \<and> v c = None) cores \<and>
    list_all (\<lambda>n. ac_NodeID (nc_ApiConfig n) > 0 \<and> ac_APIHost (nc_ApiConfig n) \<noteq> [] \<and> ac_Key (nc_ApiConfig n) \<noteq> [] \<and>
        (chosen_core cores (nc_Options n) = [] \<or> chosen_core cores (nc_Options n) \<in> set (map co_Type cores)) \<and>
        (op_CoreName (nc_Options n) \<noteq> [] \<longrightarrow> op_CoreName (nc_Options n) \<in> set (map core_name cores))) nodes"
proof -
  from assms have ne: "cores \<noteq> []" by (auto simp: CheckConfig_def)
  obtain names where names: "check_cores V 0 cores [] = Inr names"
    using assms ne by (auto simp: CheckConfig_def split: sum.splits)
  let ?single = "case cores of [c] \<Rightarrow> Some (co_Type c) | _ \<Rightarrow> None"
  have nodes: "check_nodes J V NV names (map co_Type cores) ?single 0 nodes = None"
    using assms ne names by (simp add: CheckConfig_def)
  note ok = check_cores_ok [OF names]
  have lookup: "map_of names k = map_option co_Type (find (\<lambda>c. core_name c = k) cores)" for k
    using ok by (auto split: option.split)
  have single: "?single = (if length cores = 1 then Some (co_Type (hd cores)) else None)"
    using ne by (cases cores rule: remdups_adj.cases) auto
  have "ac_NodeID (nc_ApiConfig n) > 0 \<and> ac_APIHost (nc_ApiConfig n) \<noteq> [] \<and> ac_Key (nc_ApiConfig n) \<noteq> [] \<and>
      (chosen_core cores (nc_Options n) = [] \<or> chosen_core cores (nc_Options n) \<in> set (map co_Type cores)) \<and>
      (op_CoreName (nc_Options n) \<noteq> [] \<longrightarrow> op_CoreName (nc_Options n) \<in> set (map core_name cores))"
    if "n \<in> set nodes" for n
  proof -
    from that obtain j where j: "j < length nodes" "n = nodes ! j" by (auto simp: in_set_conv_nth)
    have c: "check_node J V NV names (map co_Type cores) ?single (0 + int j) n = None"
      unfolding j(2) by (rule iffD1 [OF check_nodes_ok nodes, rule_format, OF j(1)])
    from check_node_ok [OF c] obtain t where
      t: "(if op_CoreName (nc_Options n) \<noteq> [] then map_of names (op_CoreName (nc_Options n)) else Some (op_Core (nc_Options n))) = Some t"
      and ch: "(if t = [] then (case ?single of Some u \<Rightarrow> u | None \<Rightarrow> t) else t) \<in> insert [] (set (map co_Type cores))"
      and a: "ac_NodeID (nc_ApiConfig n) > 0 \<and> ac_APIHost (nc_ApiConfig n) \<noteq> [] \<and> ac_Key (nc_ApiConfig n) \<noteq> []"
      by auto
    have fnd: "op_CoreName (nc_Options n) \<in> set (map core_name cores)" if "op_CoreName (nc_Options n) \<noteq> []"
    proof -
      from t that obtain d where "find (\<lambda>c. core_name c = op_CoreName (nc_Options n)) cores = Some d"
        by (auto simp: lookup)
      from find_in_set [OF this] have "d \<in> set cores" "core_name d = op_CoreName (nc_Options n)" by auto
      then show ?thesis by (metis image_eqI image_set)
    qed
    have "chosen_core cores (nc_Options n) = (if t = [] then (case ?single of Some u \<Rightarrow> u | None \<Rightarrow> t) else t)"
    proof (cases "op_CoreName (nc_Options n) = []")
      case True
      with t have "t = op_Core (nc_Options n)" by simp
      with True show ?thesis unfolding chosen_core_def Let_def single by simp
    next
      case False
      with t obtain d where "find (\<lambda>c. core_name c = op_CoreName (nc_Options n)) cores = Some d" "t = co_Type d"
        by (auto simp: lookup)
      with False show ?thesis unfolding chosen_core_def Let_def single by simp
    qed
    with ch a fnd show ?thesis by auto
  qed
  then show ?thesis using ne ok by (simp add: list_all_iff)
qed

definition demo_core_config :: CoreConfig where
  "demo_core_config = \<lparr>co_Type = ''xray'', co_Name = [], co_XrayConfig = Some NewXrayConfig, co_SingConfig = None,
     co_Hysteria2Config = None\<rparr>"

definition demo_node_config :: NodeConfig where
  "demo_node_config = \<lparr>nc_ApiConfig = default_api\<lparr>ac_NodeID := 1, ac_Key := ''k'', ac_NodeType := ''vless''\<rparr>,
     nc_Options = default_options\<lparr>op_Core := ''xray'', op_XrayOptions := Some NewXrayOptions\<rparr>\<rparr>"

theorem CheckConfig_guarantees_witness:
  "chosen_core [demo_core_config] (nc_Options demo_node_config) \<in> set (map co_Type [demo_core_config])"
proof -
  have "CheckConfig J [(''xray'', \<lambda>_. None)] [] [demo_core_config] [demo_node_config] = None" for J
    by (simp add: CheckConfig_def demo_core_config_def demo_node_config_def check_node_def Let_def core_name_def
        default_options_def default_api_def NewXrayOptions_def mhas_def)
  from CheckConfig_guarantees [OF this]
  have "chosen_core [demo_core_config] (nc_Options demo_node_config) = [] \<or>
      chosen_core [demo_core_config] (nc_Options demo_node_config) \<in> set (map co_Type [demo_core_config])" by simp
  moreover have "chosen_core [demo_core_config] (nc_Options demo_node_config) \<noteq> []"
    by (simp add: chosen_core_def demo_node_config_def default_options_def)
  ultimately show ?thesis by simp
qed

section \<open>The contract of a core\<close>

text \<open>
  What the controller relies on: \<open>listens s tag\<close> is the configuration a tag is served with, \<open>users s tag\<close>
  the users admitted under it, and \<open>cfg\<close> the configuration a core makes of a description.  An
  operation that reports success has done its work, on its own tag only; reading traffic changes
  neither.  A tag may be added when it is \<open>fit\<close>; deleting a node makes its tag fit even when it fails.  Tags are
  \<open>apart\<close> when neither, followed by a separator of user keys, starts the other: cores recognise the users of
  a tag by such prefixes.  \<open>ready\<close> are options that have been completed for their core.
\<close>

definition ready :: "Options \<Rightarrow> bool" where
  "ready o1 \<longleftrightarrow> op_Core o1 \<noteq> []"

definition apart_by :: "char \<Rightarrow> string \<Rightarrow> string \<Rightarrow> bool" where
  "apart_by c t tag \<longleftrightarrow> \<not> HasPrefix (t @ [c]) (tag @ [c]) \<and> \<not> HasPrefix (tag @ [c]) (t @ [c])"

definition apart :: "string \<Rightarrow> string \<Rightarrow> bool" where
  "apart t tag \<longleftrightarrow> apart_by (CHR ''|'') t tag \<and> apart_by (CHR 0x00) t tag"

lemma apart_neq [simp]: "apart t tag \<Longrightarrow> t \<noteq> tag" "apart t tag \<Longrightarrow> tag \<noteq> t"
  by (auto simp: apart_def apart_by_def HasPrefix_def)

lemma apart_by_prefix: "apart_by c t tag \<Longrightarrow> \<not> HasPrefix (t @ [c] @ u) (tag @ [c])"
proof
  assume a: "apart_by c t tag" and p: "HasPrefix (t @ [c] @ u) (tag @ [c])"
  from p obtain r where r: "(t @ [c]) @ u = (tag @ [c]) @ r" using HasPrefixE by fastforce
  from append_eq_append_conv2 [THEN iffD1, OF r] obtain x
    where "t @ [c] = (tag @ [c]) @ x \<or> (t @ [c]) @ x = tag @ [c]" by blast
  then have "HasPrefix (t @ [c]) (tag @ [c]) \<or> HasPrefix (tag @ [c]) (t @ [c])"
    using HasPrefix_append [of "tag @ [c]" x] HasPrefix_append [of "t @ [c]" x] by metis
  with a show False by (simp add: apart_by_def)
qed

lemma apart_UserTag: "apart t tag \<Longrightarrow> \<not> HasPrefix (UserTag t u) (tag @ ''|'')"
  unfolding UserTag_def apart_def using apart_by_prefix by blast

lemma HasPrefix_UserTag [simp]: "HasPrefix (UserTag tag v) (tag @ ''|'')"
  using HasPrefix_append [of "tag @ ''|''" v] by (simp add: UserTag_def)

lemma apart_UserTag_neq: "apart t tag \<Longrightarrow> UserTag t u \<noteq> UserTag tag v"
  using apart_UserTag [of t tag u] HasPrefix_UserTag [of tag v] by metis

locale core_contract =
  fixes C :: "'s Core"
    and listens :: "'s \<Rightarrow> string \<Rightarrow> 'cfg option"
    and users :: "'s \<Rightarrow> string \<Rightarrow> string set"
    and cfg :: "string \<Rightarrow> NodeInfo \<Rightarrow> Options \<Rightarrow> 'cfg"
    and good :: "'s \<Rightarrow> bool"
    and fit :: "'s \<Rightarrow> string \<Rightarrow> bool"
  assumes add_node: "good s \<Longrightarrow> fit s tag \<Longrightarrow> ready o1 \<Longrightarrow> c_AddNode C tag n o1 s = (None, o2, s') \<Longrightarrow>
        listens s' tag = Some (cfg tag n o1) \<and> users s' tag = {}"
    and add_node_frame: "good s \<Longrightarrow> fit s tag \<Longrightarrow> ready o1 \<Longrightarrow> c_AddNode C tag n o1 s = (r, o2, s') \<Longrightarrow>
        o2 = o1 \<and> good s' \<and> fit s' = fit s \<and> (apart t tag \<longrightarrow> listens s' t = listens s t \<and> users s' t = users s t)"
    and del_node: "good s \<Longrightarrow> c_DelNode C tag s = (None, s') \<Longrightarrow> listens s' tag = None \<and> users s' tag = {}"
    and del_node_frame: "good s \<Longrightarrow> c_DelNode C tag s = (r', s') \<Longrightarrow>
        good s' \<and> fit s' tag \<and> (t \<noteq> tag \<longrightarrow> fit s' t = fit s t) \<and> (apart t tag \<longrightarrow> listens s' t = listens s t \<and> users s' t = users s t)"
    and add_users: "good s \<Longrightarrow> c_AddUsers C tag us n s = (Inr k, s') \<Longrightarrow>
        listens s' tag = listens s tag \<and> users s' tag = users s tag \<union> set (map ui_Uuid us)"
    and add_users_frame: "good s \<Longrightarrow> c_AddUsers C tag us n s = (r'', s') \<Longrightarrow>
        good s' \<and> (t \<noteq> tag \<longrightarrow> fit s' t = fit s t) \<and> (apart t tag \<longrightarrow> listens s' t = listens s t \<and> users s' t = users s t)"
    and del_users: "good s \<Longrightarrow> c_DelUsers C us tag n s = (None, s') \<Longrightarrow>
        listens s' tag = listens s tag \<and> users s' tag = users s tag - set (map ui_Uuid us)"
    and del_users_frame: "good s \<Longrightarrow> c_DelUsers C us tag n s = (r', s') \<Longrightarrow>
        good s' \<and> (t \<noteq> tag \<longrightarrow> fit s' t = fit s t) \<and> (apart t tag \<longrightarrow> listens s' t = listens s t \<and> users s' t = users s t)"
    and traffic: "good s \<Longrightarrow> c_GetUserTrafficSlice C tag b s = (q, s') \<Longrightarrow>
        good s' \<and> fit s' = fit s \<and> listens s' = listens s \<and> users s' = users s"
    and restore: "good s \<Longrightarrow> good s0 \<Longrightarrow> c_SnapshotNodeState C = Some snap \<Longrightarrow> snap tag n o1 s0 = Inr rst \<Longrightarrow>
        rst s = (r', s') \<Longrightarrow> good s' \<and> fit s' = fit s \<and> listens s' = listens s \<and> users s' = users s"
begin

text \<open>Adding a node and then its users: the tag serves exactly these users.\<close>

lemma install_serves:
  assumes "good s" "fit s tag" "ready o1"
    and "c_AddNode C tag n o1 s = (None, o2, s1)" and "c_AddUsers C tag us n s1 = (Inr k, s2)"
  shows "o2 = o1 \<and> good s2 \<and> listens s2 tag = Some (cfg tag n o1) \<and> users s2 tag = set (map ui_Uuid us)"
proof -
  from add_node [OF assms(1-4)] add_node_frame [OF assms(1-4)]
  have "good s1" "o2 = o1" "listens s1 tag = Some (cfg tag n o1)" "users s1 tag = {}" by auto
  with add_users [OF _ assms(5)] add_users_frame [OF _ assms(5)] show ?thesis by simp
qed

text \<open>Replacing some users of a served tag.\<close>

lemma update_users_serves:
  assumes "good s" and "users s tag = old"
    and "c_DelUsers C del tag n s = (None, s1)" and "c_AddUsers C tag new n s1 = (Inr k, s2)"
  shows "good s2 \<and> listens s2 tag = listens s tag \<and>
    users s2 tag = old - set (map ui_Uuid del) \<union> set (map ui_Uuid new)"
proof -
  from del_users [OF assms(1,3)] del_users_frame [OF assms(1,3)] assms(2)
  have "good s1" "listens s1 tag = listens s tag" "users s1 tag = old - set (map ui_Uuid del)" by auto
  with add_users [OF _ assms(4)] add_users_frame [OF _ assms(4)] show ?thesis by simp
qed

end

end
