(* ===== verification/Core_Selector.thy ===== *)
theory Core_Selector
  imports Core_Interface
begin

text \<open>
  The core that dispatches to several cores (runtime/core/selector.go) and the choice between one core
  and several (core.go).  Go iterates a map in any order; here the order is that of the list.
\<close>

record 's Selector =
  se_cores :: "(string, 's Core \<times> 's) gomap"
  se_nodes :: "(string, string) gomap"

section \<open>Construction\<close>

fun build_cores :: "'s registry \<Rightarrow> CoreConfig list \<Rightarrow> (string, 's Core \<times> 's) gomap \<Rightarrow> (string, 's Core \<times> 's) gomap res" where
  "build_cores reg [] cs = Inr cs"
| "build_cores reg (t # ts) cs = (case map_of reg (ToLower (co_Type t)) of
     None \<Rightarrow> Inl (''unknown core type: '' @ co_Type t)
   | Some f \<Rightarrow> (case f t of
       Inl e \<Rightarrow> Inl e
     | Inr core1 \<Rightarrow> build_cores reg ts (mput (if co_Name t = [] then co_Type t else co_Name t) core1 cs)))"

definition NewSelector :: "'s registry \<Rightarrow> CoreConfig list \<Rightarrow> 's Selector res" where
  "NewSelector reg c = (case build_cores reg c [] of
     Inl e \<Rightarrow> Inl e | Inr cs \<Rightarrow> Inr \<lparr>se_cores = cs, se_nodes = []\<rparr>)"

text \<open>\<open>NewCore\<close>: several cores behind a selector, or the only one.\<close>

definition NewCore :: "'s registry \<Rightarrow> CoreConfig list \<Rightarrow> ('s Selector + 's Core \<times> 's) res" where
  "NewCore reg c =
     (if c = [] then Inl ''no have vail core''
      else if length c > 1 then (case NewSelector reg c of Inl e \<Rightarrow> Inl e | Inr s \<Rightarrow> Inr (Inl s))
      else (case map_of reg (co_Type (hd c)) of
              Some f \<Rightarrow> (case f (hd c) of Inl e \<Rightarrow> Inl e | Inr x \<Rightarrow> Inr (Inr x))
            | None \<Rightarrow> Inl ''unknown core type''))"

section \<open>Starting and closing\<close>

fun start_all :: "(string, 's Core \<times> 's) gomap \<Rightarrow> err option \<times> (string, 's Core \<times> 's) gomap" where
  "start_all [] = (None, [])"
| "start_all ((n, C, s) # m) = (case c_Start C s of
     (Some e, s') \<Rightarrow> (Some e, (n, C, s') # m)
   | (None, s') \<Rightarrow> (case start_all m of (r, m') \<Rightarrow> (r, (n, C, s') # m')))"

definition Selector_Start :: "'s Selector \<Rightarrow> err option \<times> 's Selector" where
  "Selector_Start s = (case start_all (se_cores s) of (r, m) \<Rightarrow> (r, s\<lparr>se_cores := m\<rparr>))"

fun close_all :: "(string, 's Core \<times> 's) gomap \<Rightarrow> err option list \<times> (string, 's Core \<times> 's) gomap" where
  "close_all [] = ([], [])"
| "close_all ((n, C, s) # m) = (case c_Close C s of
     (r, s') \<Rightarrow> (case close_all m of (rs, m') \<Rightarrow> (r # rs, (n, C, s') # m')))"

definition Selector_Close :: "'s Selector \<Rightarrow> err option \<times> 's Selector" where
  "Selector_Close s = (case close_all (se_cores s) of (rs, m) \<Rightarrow> (errors_Join rs, s\<lparr>se_cores := m\<rparr>))"

section \<open>Choosing a core\<close>

fun isSupported :: "string \<Rightarrow> string list \<Rightarrow> bool" where
  "isSupported protocol [] = False"
| "isSupported protocol (p # ps) = (if protocol = p then True else isSupported protocol ps)"

text \<open>The loop by type keeps the last core that matches.\<close>

definition core_matches :: "NodeInfo \<Rightarrow> Options \<Rightarrow> 's Core \<times> 's \<Rightarrow> bool" where
  "core_matches info opts c =
     (if length (op_Core opts) = 0 then isSupported (ni_Type info) (c_Protocols (fst c) (snd c))
      else op_Core opts = c_Type (fst c) (snd c))"

definition pick_core :: "'s Selector \<Rightarrow> NodeInfo \<Rightarrow> Options \<Rightarrow> (string \<times> 's Core \<times> 's) option" where
  "pick_core s info opts =
     (if length (op_CoreName opts) > 0
      then map_option (\<lambda>c. (op_CoreName opts, c)) (map_of (se_cores s) (op_CoreName opts))
      else (let ms = filter (\<lambda>(n, c). core_matches info opts c) (se_cores s)
            in if ms = [] then None else Some (last ms)))"

text \<open>\<open>selectCore\<close>: the name of the core, and the options, which it completes when no core was named.\<close>

definition selectCore :: "json_decoders \<Rightarrow> 's Selector \<Rightarrow> NodeInfo \<Rightarrow> Options \<Rightarrow> (string \<times> 's Core \<times> 's) res \<times> Options" where
  "selectCore J s info opts = (case pick_core s info opts of
     None \<Rightarrow> (Inl ''the node type is not support'', opts)
   | Some (n, C, st) \<Rightarrow>
       if length (op_Core opts) = 0 then
         (case Options_UnmarshalJSON J (op_RawOptions opts) (opts\<lparr>op_Core := c_Type C st\<rparr>) of
            (Some e, o1) \<Rightarrow> (Inl (''unmarshal option error: '' @ e), o1)
          | (None, o1) \<Rightarrow> (Inr (n, C, st), o1\<lparr>op_RawOptions := []\<rparr>))
       else (Inr (n, C, st), opts))"

section \<open>The operations\<close>

definition set_core :: "string \<Rightarrow> 's Core \<Rightarrow> 's \<Rightarrow> 's Selector \<Rightarrow> 's Selector" where
  "set_core n C st s = s\<lparr>se_cores := mput n (C, st) (se_cores s)\<rparr>"

definition Selector_ValidateNode :: "json_decoders \<Rightarrow> string \<Rightarrow> NodeInfo \<Rightarrow> Options \<Rightarrow> 's Selector \<Rightarrow> err option" where
  "Selector_ValidateNode J tag info opts s = (case selectCore J s info opts of
     (Inl e, _) \<Rightarrow> Some e
   | (Inr (n, C, st), candidate) \<Rightarrow> (case c_ValidateNode C of
       None \<Rightarrow> Some ''selected core does not provide node preflight''
     | Some validate \<Rightarrow> validate tag info candidate st))"

definition Selector_AddNode ::
  "json_decoders \<Rightarrow> string \<Rightarrow> NodeInfo \<Rightarrow> Options \<Rightarrow> 's Selector \<Rightarrow> err option \<times> Options \<times> 's Selector" where
  "Selector_AddNode J tag info opts s = (case selectCore J s info opts of
     (Inl e, o1) \<Rightarrow> (Some e, o1, s)
   | (Inr (n, C, st), o1) \<Rightarrow> (case c_AddNode C tag info o1 st of
       (Some e, o2, st') \<Rightarrow> (Some e, o2, set_core n C st' s)
     | (None, o2, st') \<Rightarrow> (None, o2, (set_core n C st' s)\<lparr>se_nodes := mput tag n (se_nodes s)\<rparr>)))"

text \<open>The core a tag was added to.\<close>

definition node_core :: "string \<Rightarrow> 's Selector \<Rightarrow> (string \<times> 's Core \<times> 's) option" where
  "node_core tag s = (case map_of (se_nodes s) tag of
     None \<Rightarrow> None
   | Some n \<Rightarrow> map_option (\<lambda>c. (n, c)) (map_of (se_cores s) n))"

definition not_have :: err where "not_have = ''the node is not have''"

definition Selector_SnapshotNodeState ::
  "json_decoders \<Rightarrow> string \<Rightarrow> NodeInfo \<Rightarrow> Options \<Rightarrow> 's Selector \<Rightarrow> ('s Selector \<Rightarrow> err option \<times> 's Selector) res" where
  "Selector_SnapshotNodeState J tag info opts s =
     (case (case node_core tag s of Some c \<Rightarrow> Inr c | None \<Rightarrow> fst (selectCore J s info opts)) of
        Inl e \<Rightarrow> Inl e
      | Inr (n, C, st) \<Rightarrow> (case c_SnapshotNodeState C of
          None \<Rightarrow> Inr (\<lambda>s. (None, s))
        | Some snap \<Rightarrow> (case snap tag info opts st of
            Inl e \<Rightarrow> Inl e
          | Inr rst \<Rightarrow> Inr (\<lambda>s. case map_of (se_cores s) n of
                None \<Rightarrow> (None, s)
              | Some (C', st') \<Rightarrow> (case rst st' of (r, st'') \<Rightarrow> (r, set_core n C' st'' s))))))"

definition Selector_DelNode :: "string \<Rightarrow> 's Selector \<Rightarrow> err option \<times> 's Selector" where
  "Selector_DelNode tag s = (case node_core tag s of
     None \<Rightarrow> (Some not_have, s)
   | Some (n, C, st) \<Rightarrow> (case c_DelNode C tag st of
       (Some e, st') \<Rightarrow> (Some e, set_core n C st' s)
     | (None, st') \<Rightarrow> (None, (set_core n C st' s)\<lparr>se_nodes := mdel tag (se_nodes s)\<rparr>)))"

definition Selector_AddUsers :: "string \<Rightarrow> UserInfo list \<Rightarrow> NodeInfo \<Rightarrow> 's Selector \<Rightarrow> int res \<times> 's Selector" where
  "Selector_AddUsers tag us info s = (case node_core tag s of
     None \<Rightarrow> (Inl not_have, s)
   | Some (n, C, st) \<Rightarrow> (case c_AddUsers C tag us info st of (r, st') \<Rightarrow> (r, set_core n C st' s)))"

definition Selector_GetUserTrafficSlice :: "string \<Rightarrow> bool \<Rightarrow> 's Selector \<Rightarrow> UserTraffic list res \<times> 's Selector" where
  "Selector_GetUserTrafficSlice tag reset s = (case node_core tag s of
     None \<Rightarrow> (Inl not_have, s)
   | Some (n, C, st) \<Rightarrow> (case c_GetUserTrafficSlice C tag reset st of (r, st') \<Rightarrow> (r, set_core n C st' s)))"

definition Selector_DelUsers :: "UserInfo list \<Rightarrow> string \<Rightarrow> NodeInfo \<Rightarrow> 's Selector \<Rightarrow> err option \<times> 's Selector" where
  "Selector_DelUsers us tag info s = (case node_core tag s of
     None \<Rightarrow> (Some not_have, s)
   | Some (n, C, st) \<Rightarrow> (case c_DelUsers C us tag info st of (r, st') \<Rightarrow> (r, set_core n C st' s)))"

definition Selector_Protocols :: "'s Selector \<Rightarrow> string list" where
  "Selector_Protocols s = concat (map (\<lambda>(n, C, st). c_Protocols C st) (se_cores s))"

definition Selector_Type :: "'s Selector \<Rightarrow> string" where
  "Selector_Type s = ''Selector('' @
     Join (map (\<lambda>(n, C, st). if length n = 0 then c_Type C st else n) (se_cores s)) '' '' @ '')''"

text \<open>The selector as a core.\<close>

definition selector_core :: "json_decoders \<Rightarrow> 's Selector Core" where
  "selector_core J = \<lparr>c_Start = Selector_Start, c_Close = Selector_Close, c_AddNode = Selector_AddNode J,
     c_DelNode = Selector_DelNode, c_AddUsers = Selector_AddUsers,
     c_GetUserTrafficSlice = Selector_GetUserTrafficSlice, c_DelUsers = Selector_DelUsers,
     c_Protocols = Selector_Protocols, c_Type = Selector_Type,
     c_ValidateNode = Some (Selector_ValidateNode J),
     c_SnapshotNodeState = Some (Selector_SnapshotNodeState J)\<rparr>"

section \<open>A selector over cores that keep the contract keeps it\<close>

text \<open>
  What a tag serves behind a selector is what the core it was added to serves.  A good selector has
  good cores, and every tag in its table was added to one of them.
\<close>

definition sel_listens :: "('s \<Rightarrow> string \<Rightarrow> 'cfg option) \<Rightarrow> 's Selector \<Rightarrow> string \<Rightarrow> 'cfg option" where
  "sel_listens listens s tag = (case node_core tag s of None \<Rightarrow> None | Some (n, C, st) \<Rightarrow> listens st tag)"

definition sel_users :: "('s \<Rightarrow> string \<Rightarrow> string set) \<Rightarrow> 's Selector \<Rightarrow> string \<Rightarrow> string set" where
  "sel_users users s tag = (case node_core tag s of None \<Rightarrow> {} | Some (n, C, st) \<Rightarrow> users st tag)"

definition sel_fit :: "('s \<Rightarrow> string \<Rightarrow> bool) \<Rightarrow> 's Selector \<Rightarrow> string \<Rightarrow> bool" where
  "sel_fit fit s tag \<longleftrightarrow> (\<forall>n D st. map_of (se_cores s) n = Some (D, st) \<longrightarrow> fit st tag)"

definition sel_good :: "'s Core \<Rightarrow> ('s \<Rightarrow> bool) \<Rightarrow> ('s \<Rightarrow> string \<Rightarrow> bool) \<Rightarrow> 's Selector \<Rightarrow> bool" where
  "sel_good C good fit s \<longleftrightarrow> mwf (se_cores s) \<and>
     (\<forall>n D st. map_of (se_cores s) n = Some (D, st) \<longrightarrow>
        D = C \<and> good st \<and> (\<forall>t. map_of (se_nodes s) t \<noteq> Some n \<longrightarrow> fit st t)) \<and>
     (\<forall>t n. map_of (se_nodes s) t = Some n \<longrightarrow> map_of (se_cores s) n \<noteq> None)"

lemma node_core_good:
  "sel_good C good fit s \<Longrightarrow> node_core tag s = Some (n, D, st) \<Longrightarrow>
   D = C \<and> good st \<and> map_of (se_nodes s) tag = Some n \<and> map_of (se_cores s) n = Some (C, st)"
  by (auto simp: node_core_def sel_good_def split: option.splits)

lemma selectCore_good:
  assumes "sel_good C good fit s" and "selectCore J s info opts = (Inr (n, D, st), o1)"
  shows "D = C \<and> good st \<and> map_of (se_cores s) n = Some (C, st)"
proof -
  from assms(2) have p: "pick_core s info opts = Some (n, D, st)"
    by (auto simp: selectCore_def split: option.splits prod.splits if_splits)
  have "map_of (se_cores s) n = Some (D, st)"
  proof (cases "length (op_CoreName opts) > 0")
    case True
    with p show ?thesis by (auto simp: pick_core_def)
  next
    case False
    with p have "(n, D, st) \<in> set (se_cores s)"
      unfolding pick_core_def Let_def by (metis (lifting) filter_is_subset last_in_set option.distinct(1) option.inject subsetD)
    then show ?thesis using assms(1) by (simp add: sel_good_def mwf_def)
  qed
  with assms(1) show ?thesis by (auto simp: sel_good_def)
qed

lemma set_core_nodes: "(set_core n C st s)\<lparr>se_nodes := se_nodes s\<rparr> = set_core n C st s"
  by (simp add: set_core_def)

text \<open>A new state of one core: of the tags that are not its own none loses its fitness.\<close>

lemma sel_good_core:
  "sel_good C good fit s \<Longrightarrow> map_of (se_cores s) n = Some (D, st) \<Longrightarrow>
   D = C \<and> good st \<and> (\<forall>t. map_of (se_nodes s) t \<noteq> Some n \<longrightarrow> fit st t)"
  by (simp add: sel_good_def)

lemma set_core_lookup:
  "map_of (se_cores (set_core n C st' s)) m = (if m = n then Some (C, st') else map_of (se_cores s) m)"
  "se_nodes (set_core n C st' s) = se_nodes s" "mwf (se_cores s) \<Longrightarrow> mwf (se_cores (set_core n C st' s))"
  by (simp_all add: set_core_def)

lemma set_core_good_nodes:
  assumes g: "sel_good C good fit s" and m: "map_of (se_cores s) n = Some (C, st)" and "good st'"
    and own: "\<And>t. map_of ns t \<noteq> Some n \<Longrightarrow> fit st' t"
    and other: "\<And>k t u. k \<noteq> n \<Longrightarrow> map_of (se_cores s) k = Some (C, u) \<Longrightarrow> map_of ns t \<noteq> Some k \<Longrightarrow> fit u t"
    and dom: "\<And>t k. map_of ns t = Some k \<Longrightarrow> map_of (se_cores s) k \<noteq> None"
  shows "sel_good C good fit ((set_core n C st' s)\<lparr>se_nodes := ns\<rparr>)"
proof -
  let ?s = "(set_core n C st' s)\<lparr>se_nodes := ns\<rparr>"
  have 1: "mwf (se_cores ?s)" using g by (simp add: sel_good_def set_core_lookup)
  have 2: "D = C \<and> good u \<and> (\<forall>t. map_of (se_nodes ?s) t \<noteq> Some k \<longrightarrow> fit u t)"
    if k: "map_of (se_cores ?s) k = Some (D, u)" for k D u
  proof (cases "k = n")
    case True
    with k have "D = C" "u = st'" by (simp_all add: set_core_lookup)
    with True assms(3) own show ?thesis by simp
  next
    case False
    with k have u: "map_of (se_cores s) k = Some (D, u)" by (simp add: set_core_lookup)
    with sel_good_core [OF g u] other [OF False] show ?thesis by simp
  qed
  have 3: "map_of (se_cores ?s) k \<noteq> None" if "map_of (se_nodes ?s) t = Some k" for t k
    using dom [of t k] that by (simp add: set_core_lookup)
  show ?thesis unfolding sel_good_def using 1 2 3 by blast
qed

lemma sel_good_nodes: "sel_good C good fit s \<Longrightarrow> map_of (se_nodes s) t = Some k \<Longrightarrow> map_of (se_cores s) k \<noteq> None"
  by (simp add: sel_good_def)

lemma set_core_good:
  assumes g: "sel_good C good fit s" and m: "map_of (se_cores s) n = Some (C, st)" and "good st'"
    and "\<And>t. map_of (se_nodes s) t \<noteq> Some n \<Longrightarrow> fit st' t = fit st t"
  shows "sel_good C good fit (set_core n C st' s)"
proof -
  have "sel_good C good fit ((set_core n C st' s)\<lparr>se_nodes := se_nodes s\<rparr>)"
  proof (rule set_core_good_nodes [OF g m assms(3)])
    show "fit st' t" if "map_of (se_nodes s) t \<noteq> Some n" for t using sel_good_core [OF g m] assms(4) that by simp
    show "fit u t" if "k \<noteq> n" "map_of (se_cores s) k = Some (C, u)" "map_of (se_nodes s) t \<noteq> Some k" for k t u
      using sel_good_core [OF g that(2)] that(3) by blast
  qed (rule sel_good_nodes [OF g])
  then show ?thesis by (simp add: set_core_nodes)
qed

lemma set_core_good_put:
  assumes g: "sel_good C good fit s" and m: "map_of (se_cores s) n = Some (C, st)" and "good st'" and f: "fit st' = fit st"
    and all: "sel_fit fit s tag"
  shows "sel_good C good fit ((set_core n C st' s)\<lparr>se_nodes := mput tag n (se_nodes s)\<rparr>)"
proof (rule set_core_good_nodes [OF g m assms(3)])
  show "fit st' t" if "map_of (mput tag n (se_nodes s)) t \<noteq> Some n" for t
    using sel_good_core [OF g m] that by (simp add: f split: if_splits)
  show "fit u t" if "k \<noteq> n" "map_of (se_cores s) k = Some (C, u)" "map_of (mput tag n (se_nodes s)) t \<noteq> Some k" for k t u
    using sel_good_core [OF g that(2)] that all by (cases "t = tag") (auto simp: sel_fit_def)
  show "map_of (se_cores s) k \<noteq> None" if "map_of (mput tag n (se_nodes s)) t = Some k" for t k
    using that sel_good_nodes [OF g, of t k] m by (cases "t = tag") auto
qed

lemma set_core_good_del:
  assumes g: "sel_good C good fit s" and m: "map_of (se_cores s) n = Some (C, st)" and "good st'"
    and nd: "map_of (se_nodes s) tag = Some n" and f: "fit st' tag" and ft: "\<And>t. t \<noteq> tag \<Longrightarrow> fit st' t = fit st t"
  shows "sel_good C good fit ((set_core n C st' s)\<lparr>se_nodes := mdel tag (se_nodes s)\<rparr>)"
proof (rule set_core_good_nodes [OF g m assms(3)])
  show "fit st' t" if "map_of (mdel tag (se_nodes s)) t \<noteq> Some n" for t
    using sel_good_core [OF g m] that f ft by (cases "t = tag") auto
  show "fit u t" if "k \<noteq> n" "map_of (se_cores s) k = Some (C, u)" "map_of (mdel tag (se_nodes s)) t \<noteq> Some k" for k t u
    using sel_good_core [OF g that(2)] that nd by (cases "t = tag") auto
  show "map_of (se_cores s) k \<noteq> None" if "map_of (mdel tag (se_nodes s)) t = Some k" for t k
    using that sel_good_nodes [OF g, of t k] by (cases "t = tag") auto
qed

lemma sel_fit_set:
  assumes "map_of (se_cores s) n = Some (C, st)" and "fit st' t = fit st t"
  shows "sel_fit fit ((set_core n C st' s)\<lparr>se_nodes := ns\<rparr>) t = sel_fit fit s t"
    and "sel_fit fit (set_core n C st' s) t = sel_fit fit s t"
proof -
  have "sel_fit fit (set_core n C st' s) t = sel_fit fit s t"
  proof
    assume a: "sel_fit fit (set_core n C st' s) t"
    have "map_of (se_cores (set_core n C st' s)) n = Some (C, st')" by (simp add: set_core_lookup)
    with a have "fit st' t" unfolding sel_fit_def by blast
    with assms(2) have "fit st t" by simp
    then show "sel_fit fit s t" using a assms(1) unfolding sel_fit_def set_core_lookup
      by (metis option.inject prod.inject)
  next
    assume "sel_fit fit s t"
    then show "sel_fit fit (set_core n C st' s) t" using assms by (auto simp: sel_fit_def set_core_lookup)
  qed
  then show "sel_fit fit (set_core n C st' s) t = sel_fit fit s t"
    "sel_fit fit ((set_core n C st' s)\<lparr>se_nodes := ns\<rparr>) t = sel_fit fit s t" by (simp_all add: sel_fit_def)
qed

text \<open>A tag that was deleted from its core is fit everywhere.\<close>

lemma sel_fit_deleted:
  "sel_good C good fit s \<Longrightarrow> map_of (se_nodes s) tag = Some n \<Longrightarrow> fit st' tag \<Longrightarrow>
   sel_fit fit ((set_core n C st' s)\<lparr>se_nodes := ns\<rparr>) tag"
  "sel_good C good fit s \<Longrightarrow> map_of (se_nodes s) tag = Some n \<Longrightarrow> fit st' tag \<Longrightarrow> sel_fit fit (set_core n C st' s) tag"
  by (auto simp: sel_good_def sel_fit_def set_core_def split: if_splits)

lemma sel_fit_unknown:
  "sel_good C good fit s \<Longrightarrow> node_core tag s = None \<Longrightarrow> sel_fit fit s tag"
  by (fastforce simp: sel_good_def sel_fit_def node_core_def split: option.splits)

lemma node_core_set:
  "map_of (se_cores s) n = Some (C, st) \<Longrightarrow>
   node_core t (set_core n C st' s) =
     (case node_core t s of None \<Rightarrow> None | Some (m, D, u) \<Rightarrow> Some (m, if m = n then (C, st') else (D, u)))"
  by (auto simp: node_core_def set_core_def split: option.splits)

lemma node_core_nodes:
  "node_core t (s\<lparr>se_nodes := mput tag n ns\<rparr>) =
     (if t = tag then map_option (\<lambda>c. (n, c)) (map_of (se_cores s) n) else node_core t (s\<lparr>se_nodes := ns\<rparr>))"
  "node_core t (s\<lparr>se_nodes := mdel tag ns\<rparr>) = (if t = tag then None else node_core t (s\<lparr>se_nodes := ns\<rparr>))"
  by (auto simp: node_core_def split: option.split)

text \<open>What a change of one core's state does to the tags.\<close>

lemma sel_frame:
  assumes "sel_good C good fit s" and "map_of (se_cores s) n = Some (C, st)"
    and "listens st' t = listens st t" and "users st' t = users st t"
  shows "sel_listens listens (set_core n C st' s) t = sel_listens listens s t \<and>
    sel_users users (set_core n C st' s) t = sel_users users s t"
  using node_core_set [OF assms(2)] assms node_core_good [OF assms(1), of t]
  by (auto simp: sel_listens_def sel_users_def split: option.splits)

lemma selectCore_ready:
  "ready opts \<Longrightarrow> selectCore J s info opts = (r, o1) \<Longrightarrow> o1 = opts"
  by (auto simp: selectCore_def ready_def split: option.splits if_splits)

lemma Selector_AddNode_cases:
  assumes "core_contract C listens users cfg good fit" "sel_good C good fit s" "sel_fit fit s tag" "ready o1"
    and "Selector_AddNode J tag info o1 s = (r, o2, s')"
  shows "(r = None \<longrightarrow> sel_listens listens s' tag = Some (cfg tag info o1) \<and> sel_users users s' tag = {}) \<and>
    o2 = o1 \<and> sel_good C good fit s' \<and> sel_fit fit s' = sel_fit fit s \<and>
    (apart t tag \<longrightarrow> sel_listens listens s' t = sel_listens listens s t \<and> sel_users users s' t = sel_users users s t)"
proof (cases "selectCore J s info o1")
  case (Pair x o1')
  have [simp]: "o1' = o1" using selectCore_ready [OF assms(4) Pair] .
  show ?thesis
  proof (cases x)
    case (Inl e)
    with assms(2,5) Pair show ?thesis by (auto simp: Selector_AddNode_def)
  next
    case (Inr c)
    obtain n D st where c: "c = (n, D, st)" by (cases c) auto
    with Inr Pair have sel: "selectCore J s info o1 = (Inr (n, D, st), o1)" by simp
    from selectCore_good [OF assms(2) this] have D: "D = C" and g: "good st" and m: "map_of (se_cores s) n = Some (C, st)" by auto
    obtain r0 o' st' where a: "c_AddNode C tag info o1 st = (r0, o', st')" by (cases "c_AddNode C tag info o1 st") auto
    have ft: "fit st tag" using assms(3) m by (simp add: sel_fit_def)
    from core_contract.add_node_frame [OF assms(1) g ft assms(4) a]
    have f: "o' = o1" "good st'" "apart t tag \<longrightarrow> listens st' t = listens st t \<and> users st' t = users st t" "fit st' = fit st"
      by auto
    have fr: "apart t tag \<longrightarrow> sel_listens listens (set_core n C st' s) t = sel_listens listens s t \<and>
        sel_users users (set_core n C st' s) t = sel_users users s t"
      using sel_frame [OF assms(2) m] f(3) by blast
    show ?thesis
    proof (cases r0)
      case None
      have e: "r = None" "o2 = o1" "s' = (set_core n C st' s)\<lparr>se_nodes := mput tag n (se_nodes s)\<rparr>"
        using assms(5) sel a None D f(1) by (simp_all add: Selector_AddNode_def)
      have "map_of (se_cores (set_core n C st' s)) n = Some (C, st')" by (simp add: set_core_def)
      with core_contract.add_node [OF assms(1) g ft assms(4) a [unfolded None]]
      have own: "sel_listens listens s' tag = Some (cfg tag info o1) \<and> sel_users users s' tag = {}"
        by (simp add: e(3) sel_listens_def sel_users_def node_core_nodes)
      have "apart t tag \<longrightarrow> sel_listens listens s' t = sel_listens listens (set_core n C st' s) t \<and>
          sel_users users s' t = sel_users users (set_core n C st' s) t"
        by (simp add: e(3) sel_listens_def sel_users_def node_core_nodes set_core_nodes)
      moreover have "sel_fit fit s' = sel_fit fit s" unfolding e(3) by (rule ext) (rule sel_fit_set(1) [OF m], simp add: f(4))
      ultimately show ?thesis using own fr e set_core_good_put [OF assms(2) m f(2,4) assms(3)] by simp
    next
      case (Some err)
      have "r = Some err" "o2 = o1" "s' = set_core n C st' s"
        using assms(5) sel a Some D f(1) by (simp_all add: Selector_AddNode_def)
      moreover have "sel_fit fit (set_core n C st' s) = sel_fit fit s" by (rule ext) (rule sel_fit_set(2) [OF m], simp add: f(4))
      moreover have "sel_good C good fit (set_core n C st' s)" by (rule set_core_good [OF assms(2) m f(2)]) (simp add: f(4))
      ultimately show ?thesis using fr by simp
    qed
  qed
qed

text \<open>The operations that go straight to the core of a tag.\<close>

lemma sel_own:
  assumes "node_core tag s = Some (n, C, st)" and "map_of (se_cores s) n = Some (C, st)"
  shows "sel_listens listens (set_core n C st' s) tag = listens st' tag"
    and "sel_users users (set_core n C st' s) tag = users st' tag"
    and "sel_listens listens s tag = listens st tag" and "sel_users users s tag = users st tag"
  using node_core_set [OF assms(2), of tag st'] assms(1) by (simp_all add: sel_listens_def sel_users_def)

lemma Selector_DelNode_cases:
  assumes "core_contract C listens users cfg good fit" "sel_good C good fit s"
    and "Selector_DelNode tag s = (r, s')"
  shows "(r = None \<longrightarrow> sel_listens listens s' tag = None \<and> sel_users users s' tag = {}) \<and> sel_good C good fit s' \<and>
    sel_fit fit s' tag \<and> (t \<noteq> tag \<longrightarrow> sel_fit fit s' t = sel_fit fit s t) \<and>
    (apart t tag \<longrightarrow> sel_listens listens s' t = sel_listens listens s t \<and> sel_users users s' t = sel_users users s t)"
proof (cases "node_core tag s")
  case None
  with assms(2,3) sel_fit_unknown [OF assms(2) None] show ?thesis by (auto simp: Selector_DelNode_def)
next
  case (Some c)
  obtain n D st where c: "c = (n, D, st)" by (cases c) auto
  from node_core_good [OF assms(2)] Some c have D: "D = C" and g: "good st" and m: "map_of (se_cores s) n = Some (C, st)"
    and nd: "map_of (se_nodes s) tag = Some n" by auto
  obtain r0 st' where d: "c_DelNode C tag st = (r0, st')" by fastforce
  from core_contract.del_node_frame [OF assms(1) g d]
  have f: "good st'" "apart t tag \<longrightarrow> listens st' t = listens st t \<and> users st' t = users st t" "fit st' tag" by auto
  have ft: "fit st' u = fit st u" if "u \<noteq> tag" for u
    using core_contract.del_node_frame [OF assms(1) g d, of u] that by simp
  have fr: "apart t tag \<longrightarrow> sel_listens listens (set_core n C st' s) t = sel_listens listens s t \<and>
      sel_users users (set_core n C st' s) t = sel_users users s t"
    using sel_frame [OF assms(2) m] f(2) by blast
  show ?thesis
  proof (cases r0)
    case None
    with assms(3) Some c D d have e: "r = None" "s' = (set_core n C st' s)\<lparr>se_nodes := mdel tag (se_nodes s)\<rparr>"
      by (simp_all add: Selector_DelNode_def)
    have "apart t tag \<longrightarrow> sel_listens listens s' t = sel_listens listens (set_core n C st' s) t \<and>
        sel_users users s' t = sel_users users (set_core n C st' s) t"
      by (simp add: e(2) sel_listens_def sel_users_def node_core_nodes set_core_nodes)
    moreover have "sel_listens listens s' tag = None \<and> sel_users users s' tag = {}"
      by (simp add: e(2) sel_listens_def sel_users_def node_core_nodes)
    ultimately show ?thesis
      using fr e set_core_good_del [OF assms(2) m f(1) nd f(3) ft] sel_fit_deleted(1) [OF assms(2) nd, of st'] f(3) sel_fit_set(1) [where fit = fit and st' = st' and t = t, OF m ft]
      by simp
  next
    case (Some err)
    with assms(3) \<open>node_core tag s = Some c\<close> c D d have "r = Some err" "s' = set_core n C st' s"
      by (simp_all add: Selector_DelNode_def)
    moreover have "sel_good C good fit (set_core n C st' s)"
      by (rule set_core_good [OF assms(2) m f(1)]) (rule ft, use nd in auto)
    ultimately show ?thesis using fr sel_fit_deleted(2) [OF assms(2) nd, of st'] f(3) sel_fit_set(2) [where fit = fit and st' = st' and t = t, OF m ft] by simp
  qed
qed

lemma Selector_AddUsers_cases:
  assumes "core_contract C listens users cfg good fit" "sel_good C good fit s"
    and "Selector_AddUsers tag us info s = (r, s')"
  shows "(\<forall>k. r = Inr k \<longrightarrow> sel_listens listens s' tag = sel_listens listens s tag \<and>
       sel_users users s' tag = sel_users users s tag \<union> set (map ui_Uuid us)) \<and> sel_good C good fit s' \<and>
    (t \<noteq> tag \<longrightarrow> sel_fit fit s' t = sel_fit fit s t) \<and>
    (apart t tag \<longrightarrow> sel_listens listens s' t = sel_listens listens s t \<and> sel_users users s' t = sel_users users s t)"
proof (cases "node_core tag s")
  case None
  with assms(2,3) show ?thesis by (auto simp: Selector_AddUsers_def)
next
  case (Some c)
  obtain n D st where c: "c = (n, D, st)" by (cases c) auto
  from node_core_good [OF assms(2)] Some c have D: "D = C" and g: "good st" and m: "map_of (se_cores s) n = Some (C, st)"
    and nd: "map_of (se_nodes s) tag = Some n" by auto
  obtain r0 st' where d: "c_AddUsers C tag us info st = (r0, st')" by fastforce
  from assms(3) Some c D d have e: "r = r0" "s' = set_core n C st' s" by (simp_all add: Selector_AddUsers_def)
  from core_contract.add_users_frame [OF assms(1) g d]
  have f: "good st'" "apart t tag \<longrightarrow> listens st' t = listens st t \<and> users st' t = users st t" by auto
  have ft: "fit st' u = fit st u" if "u \<noteq> tag" for u
    using core_contract.add_users_frame [OF assms(1) g d, of u] that by simp
  have sg: "sel_good C good fit (set_core n C st' s)"
    by (rule set_core_good [OF assms(2) m f(1)]) (rule ft, use nd in auto)
  from Some c D have nc: "node_core tag s = Some (n, C, st)" by simp
  have fr: "apart t tag \<longrightarrow> sel_listens listens (set_core n C st' s) t = sel_listens listens s t \<and>
      sel_users users (set_core n C st' s) t = sel_users users s t"
    using sel_frame [OF assms(2) m] f(2) by blast
  have own: "sel_listens listens (set_core n C st' s) tag = listens st' tag" "sel_users users (set_core n C st' s) tag = users st' tag"
    "sel_listens listens s tag = listens st tag" "sel_users users s tag = users st tag"
    by (rule sel_own [OF nc m])+
  have ft': "t \<noteq> tag \<longrightarrow> sel_fit fit (set_core n C st' s) t = sel_fit fit s t"
    using sel_fit_set(2) [where fit = fit and st' = st' and t = t, OF m ft] by blast
  show ?thesis unfolding e own using sg fr ft' d core_contract.add_users [OF assms(1) g] by blast
qed

lemma Selector_DelUsers_cases:
  assumes "core_contract C listens users cfg good fit" "sel_good C good fit s"
    and "Selector_DelUsers us tag info s = (r, s')"
  shows "(r = None \<longrightarrow> sel_listens listens s' tag = sel_listens listens s tag \<and>
       sel_users users s' tag = sel_users users s tag - set (map ui_Uuid us)) \<and> sel_good C good fit s' \<and>
    (t \<noteq> tag \<longrightarrow> sel_fit fit s' t = sel_fit fit s t) \<and>
    (apart t tag \<longrightarrow> sel_listens listens s' t = sel_listens listens s t \<and> sel_users users s' t = sel_users users s t)"
proof (cases "node_core tag s")
  case None
  with assms(2,3) show ?thesis by (auto simp: Selector_DelUsers_def)
next
  case (Some c)
  obtain n D st where c: "c = (n, D, st)" by (cases c) auto
  from node_core_good [OF assms(2)] Some c have D: "D = C" and g: "good st" and m: "map_of (se_cores s) n = Some (C, st)"
    and nd: "map_of (se_nodes s) tag = Some n" by auto
  obtain r0 st' where d: "c_DelUsers C us tag info st = (r0, st')" by fastforce
  from assms(3) Some c D d have e: "r = r0" "s' = set_core n C st' s" by (simp_all add: Selector_DelUsers_def)
  from core_contract.del_users_frame [OF assms(1) g d]
  have f: "good st'" "apart t tag \<longrightarrow> listens st' t = listens st t \<and> users st' t = users st t" by auto
  have ft: "fit st' u = fit st u" if "u \<noteq> tag" for u
    using core_contract.del_users_frame [OF assms(1) g d, of u] that by simp
  have sg: "sel_good C good fit (set_core n C st' s)"
    by (rule set_core_good [OF assms(2) m f(1)]) (rule ft, use nd in auto)
  from Some c D have nc: "node_core tag s = Some (n, C, st)" by simp
  have fr: "apart t tag \<longrightarrow> sel_listens listens (set_core n C st' s) t = sel_listens listens s t \<and>
      sel_users users (set_core n C st' s) t = sel_users users s t"
    using sel_frame [OF assms(2) m] f(2) by blast
  have own: "sel_listens listens (set_core n C st' s) tag = listens st' tag" "sel_users users (set_core n C st' s) tag = users st' tag"
    "sel_listens listens s tag = listens st tag" "sel_users users s tag = users st tag"
    by (rule sel_own [OF nc m])+
  have ft': "t \<noteq> tag \<longrightarrow> sel_fit fit (set_core n C st' s) t = sel_fit fit s t"
    using sel_fit_set(2) [where fit = fit and st' = st' and t = t, OF m ft] by blast
  show ?thesis unfolding e own using sg fr ft' d core_contract.del_users [OF assms(1) g] by blast
qed

lemma Selector_traffic_cases:
  assumes "core_contract C listens users cfg good fit" "sel_good C good fit s"
    and "Selector_GetUserTrafficSlice tag b s = (r, s')"
  shows "sel_good C good fit s' \<and> sel_fit fit s' = sel_fit fit s \<and> sel_listens listens s' = sel_listens listens s \<and> sel_users users s' = sel_users users s"
proof (cases "node_core tag s")
  case None
  with assms(2,3) show ?thesis by (auto simp: Selector_GetUserTrafficSlice_def)
next
  case (Some c)
  obtain n D st where c: "c = (n, D, st)" by (cases c) auto
  from node_core_good [OF assms(2)] Some c have D: "D = C" and g: "good st" and m: "map_of (se_cores s) n = Some (C, st)"
    by auto
  obtain r0 st' where d: "c_GetUserTrafficSlice C tag b st = (r0, st')" by fastforce
  from assms(3) Some c D d have e: "s' = set_core n C st' s" by (simp add: Selector_GetUserTrafficSlice_def)
  from core_contract.traffic [OF assms(1) g d] have f: "good st'" "listens st' = listens st" "users st' = users st" "fit st' = fit st" by auto
  have "sel_listens listens s' t = sel_listens listens s t \<and> sel_users users s' t = sel_users users s t" for t
    unfolding e by (rule sel_frame [OF assms(2) m]) (simp_all add: f)
  moreover have "sel_fit fit s' = sel_fit fit s" unfolding e by (rule ext) (rule sel_fit_set(2) [OF m], simp add: f(4))
  moreover have "sel_good C good fit s'" unfolding e by (rule set_core_good [OF assms(2) m f(1)]) (simp add: f(4))
  ultimately show ?thesis by auto
qed

lemma Selector_restore_cases:
  assumes "core_contract C listens users cfg good fit" "sel_good C good fit s" "sel_good C good fit s0"
    and "Selector_SnapshotNodeState J tag info opts s0 = Inr rst" and "rst s = (r, s')"
  shows "sel_good C good fit s' \<and> sel_fit fit s' = sel_fit fit s \<and> sel_listens listens s' = sel_listens listens s \<and> sel_users users s' = sel_users users s"
proof -
  from assms(4) obtain n D st where pick:
    "(case node_core tag s0 of Some c \<Rightarrow> Inr c | None \<Rightarrow> fst (selectCore J s0 info opts)) = Inr (n, D, st)"
    unfolding Selector_SnapshotNodeState_def by (auto split: sum.splits)
  have D: "D = C" and g0: "good st"
  proof -
    have "D = C \<and> good st"
    proof (cases "node_core tag s0")
      case None
      with pick have "selectCore J s0 info opts = (Inr (n, D, st), snd (selectCore J s0 info opts))"
        by (simp add: prod_eq_iff)
      from selectCore_good [OF assms(3) this] show ?thesis by simp
    next
      case (Some c)
      with pick node_core_good [OF assms(3)] show ?thesis by auto
    qed
    then show "D = C" "good st" by auto
  qed
  show ?thesis
  proof (cases "c_SnapshotNodeState C")
    case None
    with assms(4,5) pick D have "s' = s" by (auto simp: Selector_SnapshotNodeState_def)
    with assms(2) show ?thesis by simp
  next
    case (Some snap)
    with assms(4) pick D obtain rst0 where r0: "snap tag info opts st = Inr rst0"
      and rst: "rst = (\<lambda>s. case map_of (se_cores s) n of None \<Rightarrow> (None, s)
          | Some (C', st') \<Rightarrow> (case rst0 st' of (r, st'') \<Rightarrow> (r, set_core n C' st'' s)))"
      by (auto simp: Selector_SnapshotNodeState_def split: sum.splits)
    show ?thesis
    proof (cases "map_of (se_cores s) n")
      case None
      with assms(2,5) rst show ?thesis by simp
    next
      case (Some c)
      obtain C' u where c: "c = (C', u)" by (cases c)
      from assms(2) Some c have C': "C' = C" "good u" "map_of (se_cores s) n = Some (C, u)"
        by (auto simp: sel_good_def)
      obtain r1 u' where u': "rst0 u = (r1, u')" by fastforce
      have s': "s' = set_core n C u' s" using assms(5) Some c C' u' by (simp add: rst)
      from core_contract.restore [OF assms(1) C'(2) g0 \<open>c_SnapshotNodeState C = Some snap\<close> r0 u']
      have f: "good u'" "listens u' = listens u" "users u' = users u" "fit u' = fit u" by auto
      have "sel_listens listens s' t = sel_listens listens s t \<and> sel_users users s' t = sel_users users s t" for t
        unfolding s' by (rule sel_frame [OF assms(2) C'(3)]) (simp_all add: f)
      moreover have "sel_fit fit s' = sel_fit fit s" unfolding s' by (rule ext) (rule sel_fit_set(2) [OF C'(3)], simp add: f(4))
      moreover have "sel_good C good fit s'" unfolding s' by (rule set_core_good [OF assms(2) C'(3) f(1)]) (simp add: f(4))
      ultimately show ?thesis by auto
    qed
  qed
qed

text \<open>C4: a selector over cores that keep the contract keeps it itself: the controller may rely on the
  same laws whether it talks to one core or to several.\<close>

theorem selector_keeps_contract:
  assumes "core_contract C listens users cfg good fit"
  shows "core_contract (selector_core J) (sel_listens listens) (sel_users users) cfg (sel_good C good fit)
    (sel_fit fit)"
proof (unfold_locales, goal_cases)
  case 1
  from Selector_AddNode_cases [OF assms 1(1-3) 1(4) [unfolded selector_core_def Core.simps]] show ?case by blast
next
  case 2
  from Selector_AddNode_cases [OF assms 2(1-3) 2(4) [unfolded selector_core_def Core.simps]] show ?case by blast
next
  case 3
  from Selector_DelNode_cases [OF assms 3(1) 3(2) [unfolded selector_core_def Core.simps]] show ?case by blast
next
  case 4
  from Selector_DelNode_cases [OF assms 4(1) 4(2) [unfolded selector_core_def Core.simps]] show ?case by blast
next
  case 5
  from Selector_AddUsers_cases [OF assms 5(1) 5(2) [unfolded selector_core_def Core.simps]] show ?case by blast
next
  case 6
  from Selector_AddUsers_cases [OF assms 6(1) 6(2) [unfolded selector_core_def Core.simps]] show ?case by blast
next
  case 7
  from Selector_DelUsers_cases [OF assms 7(1) 7(2) [unfolded selector_core_def Core.simps]] show ?case by blast
next
  case 8
  from Selector_DelUsers_cases [OF assms 8(1) 8(2) [unfolded selector_core_def Core.simps]] show ?case by blast
next
  case 9
  from Selector_traffic_cases [OF assms 9(1) 9(2) [unfolded selector_core_def Core.simps]] show ?case by blast
next
  case (10 s s0 snap tag n o1 rst r' s')
  from 10(3) have "snap = Selector_SnapshotNodeState J" by (simp add: selector_core_def)
  from Selector_restore_cases [OF assms 10(1,2) 10(4) [unfolded this] 10(5)] show ?case by blast
qed

end
