(* ===== verification/Core_Reference.thy ===== *)
theory Core_Reference
  imports Core_Selector
begin

text \<open>
  The abstract core: a table of the served nodes, their users and the traffic to hand over.  It is the
  specification the contract of \<open>Core_Interface\<close> describes, in executable form, and the concrete core on
  which the theorems about controllers and selectors are exercised.
\<close>

record Reference =
  rf_nodes :: "(string, NodeInfo \<times> Options) gomap"
  rf_users :: "(string, string list) gomap"
  rf_traffic :: "(string, UserTraffic list) gomap"

definition rf_AddNode :: "string \<Rightarrow> NodeInfo \<Rightarrow> Options \<Rightarrow> Reference \<Rightarrow> err option \<times> Options \<times> Reference" where
  "rf_AddNode tag n o1 s =
     (if mhas (rf_nodes s) tag then (Some ''existing tag found'', o1, s)
      else (None, o1, s\<lparr>rf_nodes := mput tag (n, o1) (rf_nodes s), rf_users := mput tag [] (rf_users s)\<rparr>))"

definition rf_DelNode :: "string \<Rightarrow> Reference \<Rightarrow> err option \<times> Reference" where
  "rf_DelNode tag s =
     (if mhas (rf_nodes s) tag
      then (None, s\<lparr>rf_nodes := mdel tag (rf_nodes s), rf_users := mdel tag (rf_users s)\<rparr>)
      else (Some not_have, s))"

definition rf_AddUsers :: "string \<Rightarrow> UserInfo list \<Rightarrow> NodeInfo \<Rightarrow> Reference \<Rightarrow> int res \<times> Reference" where
  "rf_AddUsers tag us n s =
     (if mhas (rf_nodes s) tag
      then (Inr (int (length us)), s\<lparr>rf_users := mput tag (mget_or [] (rf_users s) tag @ map ui_Uuid us) (rf_users s)\<rparr>)
      else (Inl not_have, s))"

definition rf_DelUsers :: "UserInfo list \<Rightarrow> string \<Rightarrow> NodeInfo \<Rightarrow> Reference \<Rightarrow> err option \<times> Reference" where
  "rf_DelUsers us tag n s =
     (if mhas (rf_nodes s) tag
      then (None, s\<lparr>rf_users := mput tag (filter (\<lambda>u. u \<notin> set (map ui_Uuid us)) (mget_or [] (rf_users s) tag)) (rf_users s)\<rparr>)
      else (Some not_have, s))"

definition rf_Traffic :: "string \<Rightarrow> bool \<Rightarrow> Reference \<Rightarrow> UserTraffic list res \<times> Reference" where
  "rf_Traffic tag reset s =
     (Inr (mget_or [] (rf_traffic s) tag), if reset then s\<lparr>rf_traffic := mdel tag (rf_traffic s)\<rparr> else s)"

definition reference_core :: "Reference Core" where
  "reference_core = \<lparr>c_Start = (\<lambda>s. (None, s)), c_Close = (\<lambda>s. (None, s)), c_AddNode = rf_AddNode,
     c_DelNode = rf_DelNode, c_AddUsers = rf_AddUsers, c_GetUserTrafficSlice = rf_Traffic,
     c_DelUsers = rf_DelUsers, c_Protocols = (\<lambda>s. [''vless'', ''trojan'']), c_Type = (\<lambda>s. ''reference''),
     c_ValidateNode = Some (\<lambda>tag n o1 s. None), c_SnapshotNodeState = None\<rparr>"

definition rf_listens :: "Reference \<Rightarrow> string \<Rightarrow> (NodeInfo \<times> Options) option" where
  "rf_listens s tag = map_of (rf_nodes s) tag"

definition rf_admits :: "Reference \<Rightarrow> string \<Rightarrow> string set" where
  "rf_admits s tag = set (mget_or [] (rf_users s) tag)"

definition rf_cfg :: "string \<Rightarrow> NodeInfo \<Rightarrow> Options \<Rightarrow> NodeInfo \<times> Options" where
  "rf_cfg tag n o1 = (n, o1)"

lemmas rf_defs = rf_AddNode_def rf_DelNode_def rf_AddUsers_def rf_DelUsers_def rf_Traffic_def
  rf_listens_def rf_admits_def rf_cfg_def

interpretation rf: core_contract reference_core rf_listens rf_admits rf_cfg "\<lambda>_. True" "\<lambda>_ _. True"
  by unfold_locales (auto simp: reference_core_def rf_defs split: if_splits)

lemma reference_contract: "core_contract reference_core rf_listens rf_admits rf_cfg (\<lambda>_. True) (\<lambda>_ _. True)"
  by (rule rf.core_contract_axioms)

text \<open>Behind a selector the abstract core is used through the same contract.\<close>

theorem selector_keeps_contract_witness:
  "\<forall>J. core_contract (selector_core J) (sel_listens rf_listens) (sel_users rf_admits) rf_cfg
     (sel_good reference_core (\<lambda>_. True) (\<lambda>_ _. True)) (sel_fit (\<lambda>_ _. True))"
  using selector_keeps_contract [OF reference_contract] by blast

end
