(* ===== verification/Cert.thy ===== *)
theory Cert
  imports Panel
begin

text \<open>
  Certificates of a node (runtime/node/cert.go and lego.go).  The operating system is a record of file
  operations over an abstract world; the ACME client and the X.509 library are parameters that obtain,
  renew, parse and generate certificates.
\<close>

section \<open>Paths and placeholders\<close>

definition path_Clean :: "string \<Rightarrow> string" where
  "path_Clean p = (if p = [] then ''.'' else path_Join1 p)"

text \<open>\<open>path.Dir\<close>: everything up to the last slash, cleaned.\<close>

definition path_Dir :: "string \<Rightarrow> string" where
  "path_Dir p = path_Clean (rev (dropWhile (\<lambda>c. c \<noteq> CHR ''/'') (rev p)))"

definition path_Join :: "string list \<Rightarrow> string" where
  "path_Join ps = (let qs = filter (\<lambda>p. p \<noteq> []) ps in if qs = [] then [] else path_Clean (Join qs ''/''))"

text \<open>\<open>strings.NewReplacer\<close> with two patterns: at every position the first that matches is replaced.\<close>

function Replace2 :: "string \<Rightarrow> string \<Rightarrow> string \<Rightarrow> string \<Rightarrow> string \<Rightarrow> string" where
  "Replace2 old1 new1 old2 new2 s =
     (if s = [] then []
      else if old1 \<noteq> [] \<and> HasPrefix s old1 then new1 @ Replace2 old1 new1 old2 new2 (drop (length old1) s)
      else if old2 \<noteq> [] \<and> HasPrefix s old2 then new2 @ Replace2 old1 new1 old2 new2 (drop (length old2) s)
      else hd s # Replace2 old1 new1 old2 new2 (tl s))"
  by pat_completeness auto
termination
  by (relation "measure (\<lambda>(a, b, c, d, s). length s)") auto

declare Replace2.simps [simp del]

definition parseParams :: "CertConfig \<Rightarrow> string \<Rightarrow> string" where
  "parseParams c path = Replace2 ''{domain}'' (cc_CertDomain c) ''{email}'' (cc_Email c) path"

section \<open>The operating system and the certificate libraries\<close>

text \<open>\<open>ce_WriteFile\<close> creates or truncates, \<open>ce_PatchFile\<close> opens without truncating and writes at the start.\<close>

record User =
  us_Email :: string
  us_Registration :: "string option"
  us_key :: string
  us_KeyEncoded :: string

record 'w cert_env =
  ce_Exist :: "string \<Rightarrow> 'w \<Rightarrow> bool"
  ce_ReadFile :: "string \<Rightarrow> 'w \<Rightarrow> string res"
  ce_WriteFile :: "string \<Rightarrow> string \<Rightarrow> 'w \<Rightarrow> err option \<times> 'w"
  ce_PatchFile :: "string \<Rightarrow> string \<Rightarrow> 'w \<Rightarrow> err option \<times> 'w"
  ce_MkdirAll :: "string \<Rightarrow> 'w \<Rightarrow> err option \<times> 'w"
  ce_Setenv :: "string \<Rightarrow> string \<Rightarrow> 'w \<Rightarrow> 'w"
  ce_Until :: "string \<Rightarrow> int res"
  ce_GenerateKey :: "string res"
  ce_EncodeKey :: "string \<Rightarrow> string"
  ce_DecodeKey :: "string \<Rightarrow> string res"
  ce_EncodeUser :: "User \<Rightarrow> string"
  ce_DecodeUser :: "string \<Rightarrow> User res"
  ce_NewClient :: "User \<Rightarrow> err option"
  ce_Register :: "User \<Rightarrow> string res"
  ce_SetHTTP01 :: "err option"
  ce_DNSProvider :: "string \<Rightarrow> 'w \<Rightarrow> err option"
  ce_SetDNS01 :: "err option"
  ce_Obtain :: "string \<Rightarrow> (string \<times> string) res"
  ce_Renew :: "string \<Rightarrow> string \<Rightarrow> (string \<times> string) res"
  ce_CreateCertificate :: "string \<Rightarrow> (string \<times> string) res"

definition IsExist :: "'w cert_env \<Rightarrow> string \<Rightarrow> 'w \<Rightarrow> bool" where
  "IsExist E path w = ce_Exist E path w"

definition checkPath :: "'w cert_env \<Rightarrow> string \<Rightarrow> 'w \<Rightarrow> err option \<times> 'w" where
  "checkPath E p w =
     (if \<not> IsExist E (path_Dir p) w then
        (case ce_MkdirAll E (path_Dir p) w of
           (Some e, w') \<Rightarrow> (Some (''create dir error: '' @ e), w') | (None, w') \<Rightarrow> (None, w'))
      else (None, w))"

section \<open>The account\<close>

definition User_Save :: "'w cert_env \<Rightarrow> string \<Rightarrow> User \<Rightarrow> 'w \<Rightarrow> err option \<times> User \<times> 'w" where
  "User_Save E path u w = (case checkPath E path w of
     (Some e, w1) \<Rightarrow> (Some (''check path error: '' @ e), u, w1)
   | (None, w1) \<Rightarrow>
       let u1 = u\<lparr>us_KeyEncoded := ce_EncodeKey E (us_key u)\<rparr>
       in case ce_WriteFile E path (ce_EncodeUser E u1) w1 of
            (Some e, w2) \<Rightarrow> (Some e, u1, w2)
          | (None, w2) \<Rightarrow> (None, u1\<lparr>us_KeyEncoded := []\<rparr>, w2))"

definition User_Load :: "'w cert_env \<Rightarrow> string \<Rightarrow> 'w \<Rightarrow> User res" where
  "User_Load E path w = (case ce_ReadFile E path w of
     Inl e \<Rightarrow> Inl (''open file error: '' @ e)
   | Inr data \<Rightarrow> (case ce_DecodeUser E data of
       Inl e \<Rightarrow> Inl (''unmarshal json error: '' @ e)
     | Inr u \<Rightarrow> (case ce_DecodeKey E (us_KeyEncoded u) of
         Inl e \<Rightarrow> Inl (''decode private key error: '' @ e)
       | Inr k \<Rightarrow> Inr (u\<lparr>us_key := k\<rparr>))))"

definition registerUser :: "'w cert_env \<Rightarrow> User \<Rightarrow> string \<Rightarrow> 'w \<Rightarrow> User res \<times> 'w" where
  "registerUser E user path w = (case ce_GenerateKey E of
     Inl e \<Rightarrow> (Inl (''generate key error: '' @ e), w)
   | Inr k \<Rightarrow>
       let user = user\<lparr>us_key := k\<rparr> in
       (case ce_NewClient E user of
          Some e \<Rightarrow> (Inl (''create lego client error: '' @ e), w)
        | None \<Rightarrow> (case ce_Register E user of
            Inl e \<Rightarrow> (Inl e, w)
          | Inr reg \<Rightarrow> (case User_Save E path (user\<lparr>us_Registration := Some reg\<rparr>) w of
              (Some e, _, w') \<Rightarrow> (Inl (''save user error: '' @ e), w')
            | (None, user', w') \<Rightarrow> (Inr user', w')))))"

definition NewLegoUser :: "'w cert_env \<Rightarrow> string \<Rightarrow> string \<Rightarrow> 'w \<Rightarrow> User res \<times> 'w" where
  "NewLegoUser E path email w =
     (if IsExist E path w then
        (case User_Load E path w of
           Inl e \<Rightarrow> (Inl e, w)
         | Inr user \<Rightarrow>
             if us_Email user \<noteq> email
             then registerUser E (user\<lparr>us_Registration := None, us_Email := email\<rparr>) path w
             else (Inr user, w))
      else registerUser E \<lparr>us_Email = email, us_Registration = None, us_key = [], us_KeyEncoded = []\<rparr> path w)"

section \<open>The ACME client\<close>

definition SetProvider :: "'w cert_env \<Rightarrow> CertConfig \<Rightarrow> 'w \<Rightarrow> err option \<times> 'w" where
  "SetProvider E c w =
     (if cc_CertMode c = ''http'' then (ce_SetHTTP01 E, w)
      else if cc_CertMode c = ''dns'' then
        (let w1 = fold (\<lambda>(k, v). ce_Setenv E k v) (cc_DNSEnv c) w
         in case ce_DNSProvider E (cc_Provider c) w1 of
              Some e \<Rightarrow> (Some (''create dns challenge provider error: '' @ e), w1)
            | None \<Rightarrow> (case ce_SetDNS01 E of
                Some e \<Rightarrow> (Some (''set dns provider error: '' @ e), w1) | None \<Rightarrow> (None, w1)))
      else (None, w))"

definition NewLego :: "'w cert_env \<Rightarrow> CertConfig \<Rightarrow> 'w \<Rightarrow> err option \<times> 'w" where
  "NewLego E c w =
     (case NewLegoUser E (path_Join [path_Dir (cc_CertFile c), ''user'', ''user-'' @ cc_Email c @ ''.json'']) (cc_Email c) w of
        (Inl e, w1) \<Rightarrow> (Some (''create user error: '' @ e), w1)
      | (Inr user, w1) \<Rightarrow> (case ce_NewClient E user of
          Some e \<Rightarrow> (Some e, w1)
        | None \<Rightarrow> (case SetProvider E c w1 of
            (Some e, w2) \<Rightarrow> (Some (''set provider error: '' @ e), w2) | (None, w2) \<Rightarrow> (None, w2))))"

definition writeCert :: "'w cert_env \<Rightarrow> CertConfig \<Rightarrow> string \<times> string \<Rightarrow> 'w \<Rightarrow> err option \<times> 'w" where
  "writeCert E c ck w = (case checkPath E (cc_CertFile c) w of
     (Some e, w1) \<Rightarrow> (Some (''check path error: '' @ e), w1)
   | (None, w1) \<Rightarrow> (case ce_WriteFile E (parseParams c (cc_CertFile c)) (fst ck) w1 of
       (Some e, w2) \<Rightarrow> (Some e, w2)
     | (None, w2) \<Rightarrow> (case checkPath E (cc_KeyFile c) w2 of
         (Some e, w3) \<Rightarrow> (Some (''check path error: '' @ e), w3)
       | (None, w3) \<Rightarrow> ce_WriteFile E (parseParams c (cc_KeyFile c)) (snd ck) w3)))"

definition CreateCert :: "'w cert_env \<Rightarrow> CertConfig \<Rightarrow> 'w \<Rightarrow> err option \<times> 'w" where
  "CreateCert E c w = (case ce_Obtain E (cc_CertDomain c) of
     Inl e \<Rightarrow> (Some (''obtain certificate error: '' @ e), w)
   | Inr ck \<Rightarrow> (case writeCert E c ck w of
       (Some e, w') \<Rightarrow> (Some (''write certificate error: '' @ e), w') | (None, w') \<Rightarrow> (None, w')))"

text \<open>Whole days left, truncated; the certificate is due when at most 30 are left.\<close>

definition CheckCert :: "'w cert_env \<Rightarrow> string \<Rightarrow> bool \<times> err option" where
  "CheckCert E file = (case ce_Until E file of
     Inl e \<Rightarrow> (False, Some e)
   | Inr ns \<Rightarrow>
       let notAfter = sgn ns * (abs ns div (24 * 3600 * second))
       in if notAfter > 30 then (False, None) else (True, None))"

definition RenewCert :: "'w cert_env \<Rightarrow> CertConfig \<Rightarrow> 'w \<Rightarrow> err option \<times> 'w" where
  "RenewCert E c w = (case ce_ReadFile E (cc_CertFile c) w of
     Inl e \<Rightarrow> (Some (''read cert file error: '' @ e), w)
   | Inr file \<Rightarrow>
       let (e, err) = CheckCert E file
       in if \<not> e then (None, w)
          else (case err of
            Some x \<Rightarrow> (Some (''check cert error: '' @ x), w)
          | None \<Rightarrow> (case ce_Renew E (cc_CertDomain c) file of
              Inl x \<Rightarrow> (Some x, w)
            | Inr ck \<Rightarrow> (case writeCert E c ck w of
                (Some x, w') \<Rightarrow> (Some (''write certificate error: '' @ x), w') | (None, w') \<Rightarrow> (None, w')))))"

section \<open>The controller's side\<close>

definition generateSelfSslCertificate :: "'w cert_env \<Rightarrow> string \<Rightarrow> string \<Rightarrow> string \<Rightarrow> 'w \<Rightarrow> err option \<times> 'w" where
  "generateSelfSslCertificate E domain certPath keyPath w = (case ce_CreateCertificate E domain of
     Inl e \<Rightarrow> (Some e, w)
   | Inr (cert, key) \<Rightarrow> (case ce_PatchFile E certPath cert w of
       (Some e, w1) \<Rightarrow> (Some e, w1)
     | (None, w1) \<Rightarrow> ce_PatchFile E keyPath key w1))"

definition no_paths :: "CertConfig \<Rightarrow> bool" where
  "no_paths c \<longleftrightarrow> cc_CertFile c = [] \<or> cc_KeyFile c = []"

definition path_error :: err where
  "path_error = ''cert file path or key file path not exist''"

definition requestCert :: "'w cert_env \<Rightarrow> CertConfig \<Rightarrow> 'w \<Rightarrow> err option \<times> 'w" where
  "requestCert E c w =
     (let mode = cc_CertMode c in
      if mode = ''none'' \<or> mode = [] then (None, w)
      else if mode = ''file'' then (if no_paths c then (Some path_error, w) else (None, w))
      else if mode = ''dns'' \<or> mode = ''http'' then
        (if no_paths c then (Some path_error, w)
         else if IsExist E (cc_CertFile c) w \<and> IsExist E (cc_KeyFile c) w then (None, w)
         else (case NewLego E c w of
                 (Some e, w1) \<Rightarrow> (Some (''create lego object error: '' @ e), w1)
               | (None, w1) \<Rightarrow> (case CreateCert E c w1 of
                   (Some e, w2) \<Rightarrow> (Some (''create lego cert error: '' @ e), w2) | (None, w2) \<Rightarrow> (None, w2))))
      else if mode = ''self'' then
        (if no_paths c then (Some path_error, w)
         else if IsExist E (cc_CertFile c) w \<and> IsExist E (cc_KeyFile c) w then (None, w)
         else (case generateSelfSslCertificate E (cc_CertDomain c) (cc_CertFile c) (cc_KeyFile c) w of
                 (Some e, w1) \<Rightarrow> (Some (''generate self cert error: '' @ e), w1) | (None, w1) \<Rightarrow> (None, w1)))
      else (Some (''unsupported certmode: '' @ mode), w))"

text \<open>The daily task reports its errors to the log only.\<close>

definition renewCertTask :: "'w cert_env \<Rightarrow> CertConfig \<Rightarrow> 'w \<Rightarrow> 'w" where
  "renewCertTask E c w = (case NewLego E c w of
     (Some e, w1) \<Rightarrow> w1
   | (None, w1) \<Rightarrow> snd (RenewCert E c w1))"

section \<open>Renewal\<close>

text \<open>Writing one file leaves the others, making directories adds none.\<close>

definition os_files_ok :: "'w cert_env \<Rightarrow> string \<Rightarrow> bool" where
  "os_files_ok E f \<longleftrightarrow>
     (\<forall>p d w. p \<noteq> f \<longrightarrow> ce_Exist E f (snd (ce_WriteFile E p d w)) = ce_Exist E f w) \<and>
     (\<forall>p w. ce_Exist E f (snd (ce_MkdirAll E p w)) = ce_Exist E f w)"

lemma writeCert_exist:
  assumes "os_files_ok E f" and "parseParams c (cc_CertFile c) \<noteq> f" and "parseParams c (cc_KeyFile c) \<noteq> f"
  shows "ce_Exist E f (snd (writeCert E c ck w)) = ce_Exist E f w"
proof -
  have m: "ce_Exist E f (snd (checkPath E p v)) = ce_Exist E f v" for p v
    using assms(1) unfolding os_files_ok_def checkPath_def
    by (auto split: prod.splits option.splits) (metis snd_conv)+
  have wr: "ce_Exist E f (snd (ce_WriteFile E p d v)) = ce_Exist E f v" if "p \<noteq> f" for p d v
    using assms(1) that by (simp add: os_files_ok_def)
  obtain r1 w1 where c1: "checkPath E (cc_CertFile c) w = (r1, w1)" by fastforce
  obtain r2 w2 where c2: "ce_WriteFile E (parseParams c (cc_CertFile c)) (fst ck) w1 = (r2, w2)" by fastforce
  obtain r3 w3 where c3: "checkPath E (cc_KeyFile c) w2 = (r3, w3)" by fastforce
  show ?thesis
    using m [of "cc_CertFile c" w] m [of "cc_KeyFile c" w2] wr [OF assms(2), of "fst ck" w1]
      wr [OF assms(3), of "snd ck" w3]
    by (simp add: writeCert_def c1 c2 c3 split: option.split)
qed

text \<open>with a placeholder in the certificate path a certificate is obtained under the expanded name but
  looked for under the raw one: after a successful issue the request still does not find it, so the
  next start obtains another, and renewal fails to read the file.\<close>

theorem placeholder_never_found:
  assumes "os_files_ok E (cc_CertFile c)" and "\<not> ce_Exist E (cc_CertFile c) w"
    and "parseParams c (cc_CertFile c) \<noteq> cc_CertFile c" and "parseParams c (cc_KeyFile c) \<noteq> cc_CertFile c"
    and "CreateCert E c w = (None, w')" and "ce_ReadFile E (cc_CertFile c) w' = Inl e"
  shows "\<not> IsExist E (cc_CertFile c) w' \<and> RenewCert E c w' = (Some (''read cert file error: '' @ e), w')"
proof -
  have "ce_Exist E (cc_CertFile c) w' = ce_Exist E (cc_CertFile c) w"
  proof (cases "ce_Obtain E (cc_CertDomain c)")
    case (Inl x)
    with assms(5) show ?thesis by (simp add: CreateCert_def)
  next
    case (Inr ck)
    with assms(5) have "snd (writeCert E c ck w) = w'" by (auto simp: CreateCert_def split: prod.splits option.splits)
    with writeCert_exist [OF assms(1,3,4), of ck w] show ?thesis by simp
  qed
  with assms(2,6) show ?thesis by (simp add: IsExist_def RenewCert_def)
qed

definition demo_env :: "(string, string) gomap cert_env" where
  "demo_env = \<lparr>ce_Exist = (\<lambda>p w. mhas w p), ce_ReadFile = (\<lambda>p w. case map_of w p of None \<Rightarrow> Inl ''missing'' | Some d \<Rightarrow> Inr d),
     ce_WriteFile = (\<lambda>p d w. (None, mput p d w)), ce_PatchFile = (\<lambda>p d w. (None, mput p d w)),
     ce_MkdirAll = (\<lambda>p w. (None, w)), ce_Setenv = (\<lambda>k v w. w), ce_Until = (\<lambda>_. Inr 0), ce_GenerateKey = Inr ''k'',
     ce_EncodeKey = id, ce_DecodeKey = Inr, ce_EncodeUser = us_Email,
     ce_DecodeUser = (\<lambda>d. Inr \<lparr>us_Email = d, us_Registration = None, us_key = [], us_KeyEncoded = []\<rparr>),
     ce_NewClient = (\<lambda>_. None), ce_Register = (\<lambda>_. Inr ''r''), ce_SetHTTP01 = None, ce_DNSProvider = (\<lambda>_ _. None),
     ce_SetDNS01 = None, ce_Obtain = (\<lambda>d. Inr (''cert'', ''key'')), ce_Renew = (\<lambda>d f. Inr (''cert'', ''key'')),
     ce_CreateCertificate = (\<lambda>d. Inr (''cert'', ''key''))\<rparr>"

definition demo_cert :: CertConfig where
  "demo_cert = NewCertConfig\<lparr>cc_CertMode := ''http'', cc_CertDomain := ''a.b'',
     cc_CertFile := ''{domain}.pem'', cc_KeyFile := ''{domain}.key''\<rparr>"

theorem placeholder_never_found_witness:
  "\<not> IsExist demo_env (cc_CertFile demo_cert) (snd (CreateCert demo_env demo_cert []))"
proof -
  have ok: "os_files_ok demo_env (cc_CertFile demo_cert)"
    by (auto simp: os_files_ok_def demo_env_def)
  have p: "parseParams demo_cert (cc_CertFile demo_cert) = ''a.b.pem''"
    "parseParams demo_cert (cc_KeyFile demo_cert) = ''a.b.key''" by code_simp+
  have f: "cc_CertFile demo_cert = ''{domain}.pem''" by (simp add: demo_cert_def)
  have c: "CreateCert demo_env demo_cert [] = (None, snd (CreateCert demo_env demo_cert []))" by code_simp
  have r: "ce_ReadFile demo_env (cc_CertFile demo_cert) (snd (CreateCert demo_env demo_cert [])) = Inl ''missing''" by code_simp
  have n: "\<not> ce_Exist demo_env (cc_CertFile demo_cert) []" by (simp add: demo_env_def)
  have q: "parseParams demo_cert (cc_CertFile demo_cert) \<noteq> cc_CertFile demo_cert"
    "parseParams demo_cert (cc_KeyFile demo_cert) \<noteq> cc_CertFile demo_cert"
    unfolding p by (simp_all add: f)
  from placeholder_never_found [OF ok n q c r] show ?thesis by simp
qed

text \<open>A file that no longer parses as a certificate is left alone without a word: the check of the
  parse error comes after the return.\<close>

lemma RenewCert_ignores_parse_error:
  "ce_ReadFile E (cc_CertFile c) w = Inr file \<Longrightarrow> ce_Until E file = Inl e \<Longrightarrow> RenewCert E c w = (None, w)"
  by (simp add: RenewCert_def CheckCert_def)

end
