(* ===== verification/Limiter.thy ===== *)
theory Limiter
  imports Conf_Types
begin

text \<open>
  The per-node limiter (runtime/limiter): who may connect, from how many addresses and how fast,
  and which destinations and protocols the rules of the panel block.  Compiled regular expressions
  are values of a type \<open>'rx\<close>; \<open>compile\<close> and \<open>matches\<close> stand for \<open>regexp.Compile\<close> and
  \<open>MatchString\<close>.  A token bucket of juju/ratelimit is known by its capacity and quantum.
\<close>

section \<open>State\<close>

record UserLimitInfo =
  ul_UID :: int
  ul_SpeedLimit :: int
  ul_DeviceLimit :: int
  ul_DynamicSpeedLimit :: int
  ul_ExpireTime :: int
  ul_OverLimit :: bool

definition UserLimitInfo_zero :: UserLimitInfo where
  "UserLimitInfo_zero = \<lparr>ul_UID = 0, ul_SpeedLimit = 0, ul_DeviceLimit = 0,
     ul_DynamicSpeedLimit = 0, ul_ExpireTime = 0, ul_OverLimit = False\<rparr>"

text \<open>\<open>NewBucketWithQuantum interval capacity quantum\<close>, the interval in nanoseconds.\<close>

datatype Bucket = NewBucketWithQuantum int int int

record 'rx Limiter =
  li_DomainRules :: "'rx list"
  li_ProtocolRules :: "string list"
  li_SpeedLimit :: int
  li_UserOnlineIP :: "(string, (string, int) gomap) gomap"
  li_OldUserOnline :: "(string, int) gomap"
  li_UUIDtoUID :: "(string, int) gomap"
  li_UserLimitInfo :: "(string, UserLimitInfo) gomap"
  li_SpeedLimiter :: "(string, Bucket) gomap"
  li_AliveList :: "(int, int) gomap"

definition Limiter_zero :: "'rx Limiter" where
  "Limiter_zero = \<lparr>li_DomainRules = [], li_ProtocolRules = [], li_SpeedLimit = 0,
     li_UserOnlineIP = [], li_OldUserOnline = [], li_UUIDtoUID = [], li_UserLimitInfo = [],
     li_SpeedLimiter = [], li_AliveList = []\<rparr>"

section \<open>Users\<close>

definition limitOfUser :: "UserInfo \<Rightarrow> UserLimitInfo" where
  "limitOfUser u =
     (let l = UserLimitInfo_zero\<lparr>ul_UID := ui_Id u\<rparr>;
          l = (if ui_SpeedLimit u \<noteq> 0 then l\<lparr>ul_SpeedLimit := ui_SpeedLimit u, ul_ExpireTime := 0\<rparr> else l);
          l = (if ui_DeviceLimit u \<noteq> 0 then l\<lparr>ul_DeviceLimit := ui_DeviceLimit u\<rparr> else l)
      in l\<lparr>ul_OverLimit := False\<rparr>)"

definition storeUser :: "string \<Rightarrow> UserInfo \<Rightarrow> 'rx Limiter \<Rightarrow> 'rx Limiter" where
  "storeUser tag u l = l\<lparr>
     li_UserLimitInfo := mput (UserTag tag (ui_Uuid u)) (limitOfUser u) (li_UserLimitInfo l),
     li_UUIDtoUID := mput (ui_Uuid u) (ui_Id u) (li_UUIDtoUID l)\<rparr>"

definition dropUser :: "string \<Rightarrow> UserInfo \<Rightarrow> 'rx Limiter \<Rightarrow> 'rx Limiter" where
  "dropUser tag u l = l\<lparr>
     li_UserLimitInfo := mdel (UserTag tag (ui_Uuid u)) (li_UserLimitInfo l),
     li_UserOnlineIP := mdel (UserTag tag (ui_Uuid u)) (li_UserOnlineIP l),
     li_SpeedLimiter := mdel (UserTag tag (ui_Uuid u)) (li_SpeedLimiter l),
     li_UUIDtoUID := mdel (ui_Uuid u) (li_UUIDtoUID l),
     li_AliveList := mdel (ui_Id u) (li_AliveList l)\<rparr>"

text \<open>The limiter \<open>AddLimiter\<close> builds; its entry in the registry is made below.\<close>

definition newLimiter ::
  "string \<Rightarrow> LimitConfig \<Rightarrow> UserInfo list \<Rightarrow> (int, int) gomap \<Rightarrow> 'rx Limiter" where
  "newLimiter tag lc users aliveList =
     fold (storeUser tag) users
       (Limiter_zero\<lparr>li_SpeedLimit := lc_SpeedLimit lc, li_AliveList := aliveList\<rparr>)"

definition UpdateUser :: "string \<Rightarrow> UserInfo list \<Rightarrow> UserInfo list \<Rightarrow> 'rx Limiter \<Rightarrow> 'rx Limiter" where
  "UpdateUser tag added deleted l = fold (storeUser tag) added (fold (dropUser tag) deleted l)"

text \<open>Times are nanoseconds; \<open>Unix\<close> is \<open>time.Time.Unix\<close>.\<close>

definition Unix :: "int \<Rightarrow> int" where
  "Unix t = t div 1000000000"

definition UpdateDynamicSpeedLimit ::
  "string \<Rightarrow> string \<Rightarrow> int \<Rightarrow> int \<Rightarrow> 'rx Limiter \<Rightarrow> err option \<times> 'rx Limiter" where
  "UpdateDynamicSpeedLimit tag uuid limit expire l =
     (case map_of (li_UserLimitInfo l) (UserTag tag uuid) of
        Some info \<Rightarrow>
          (None, l\<lparr>li_UserLimitInfo := mput (UserTag tag uuid)
             (info\<lparr>ul_DynamicSpeedLimit := limit, ul_ExpireTime := Unix expire\<rparr>) (li_UserLimitInfo l)\<rparr>)
      | None \<Rightarrow> (Some ''not found'', l))"

definition AddDynamicSpeedLimit ::
  "int \<Rightarrow> string \<Rightarrow> UserInfo \<Rightarrow> int \<Rightarrow> int \<Rightarrow> 'rx Limiter \<Rightarrow> 'rx Limiter" where
  "AddDynamicSpeedLimit now tag userInfo limitNum expire l = l\<lparr>
     li_UserLimitInfo := mput (UserTag tag (ui_Uuid userInfo))
       (UserLimitInfo_zero\<lparr>ul_DynamicSpeedLimit := limitNum,
          ul_ExpireTime := Unix (now + mul64 expire 1000000000)\<rparr>) (li_UserLimitInfo l)\<rparr>"

section \<open>Admission\<close>

definition determineSpeedLimit :: "int \<Rightarrow> int \<Rightarrow> int" where
  "determineSpeedLimit limit1 limit2 =
     (if limit1 = 0 \<or> limit2 = 0
      then (if limit1 > limit2 then limit1 else if limit1 < limit2 then limit2 else 0)
      else (if limit1 > limit2 then limit2 else if limit1 < limit2 then limit1 else limit1))"

text \<open>The speed limit in force for a user and what becomes of the entry: an expired dynamic limit is
  cleared, or the entry removed when the user has no limit of its own.\<close>

definition userSpeed :: "int \<Rightarrow> UserLimitInfo \<Rightarrow> int \<times> UserLimitInfo option" where
  "userSpeed now u =
     (if ul_ExpireTime u < Unix now \<and> ul_ExpireTime u \<noteq> 0 then
        (if ul_SpeedLimit u \<noteq> 0
         then (ul_SpeedLimit u, Some (u\<lparr>ul_DynamicSpeedLimit := 0, ul_ExpireTime := 0\<rparr>))
         else (0, None))
      else (determineSpeedLimit (ul_SpeedLimit u) (ul_DynamicSpeedLimit u), Some u))"

definition storeLimit :: "string \<Rightarrow> UserLimitInfo option \<Rightarrow> 'rx Limiter \<Rightarrow> 'rx Limiter" where
  "storeLimit taguuid e l = l\<lparr>li_UserLimitInfo :=
     (case e of None \<Rightarrow> mdel taguuid (li_UserLimitInfo l) | Some u \<Rightarrow> mput taguuid u (li_UserLimitInfo l))\<rparr>"

text \<open>The old address of a user that reconnects from it is forgotten.\<close>

definition forgetOld :: "string \<Rightarrow> int \<Rightarrow> int \<Rightarrow> 'rx Limiter \<Rightarrow> 'rx Limiter" where
  "forgetOld ip v uid l =
     (if v = uid then l\<lparr>li_OldUserOnline := mdel ip (li_OldUserOnline l)\<rparr> else l)"

text \<open>The device check: record the address, reject a new one of a user at its limit.\<close>

definition trackIP :: "string \<Rightarrow> string \<Rightarrow> int \<Rightarrow> int \<Rightarrow> 'rx Limiter \<Rightarrow> bool \<times> 'rx Limiter" where
  "trackIP taguuid ip uid deviceLimit l =
     (let aliveIp = mget_or 0 (li_AliveList l) uid;
          over = deviceLimit > 0 \<and> deviceLimit \<le> aliveIp
      in case map_of (li_UserOnlineIP l) taguuid of
           Some oldipMap \<Rightarrow>
             (case map_of oldipMap ip of
                Some _ \<Rightarrow> (False, l)
              | None \<Rightarrow>
                  (let m = mput ip uid oldipMap;
                       l1 = l\<lparr>li_UserOnlineIP := mput taguuid m (li_UserOnlineIP l)\<rparr>
                   in case map_of (li_OldUserOnline l1) ip of
                        Some v \<Rightarrow> (False, forgetOld ip v uid l1)
                      | None \<Rightarrow>
                          if over
                          then (True, l1\<lparr>li_UserOnlineIP := mput taguuid (mdel ip m) (li_UserOnlineIP l1)\<rparr>)
                          else (False, l1)))
         | None \<Rightarrow>
             (let l1 = l\<lparr>li_UserOnlineIP := mput taguuid [(ip, uid)] (li_UserOnlineIP l)\<rparr>
              in case map_of (li_OldUserOnline l1) ip of
                   Some v \<Rightarrow> (False, forgetOld ip v uid l1)
                 | None \<Rightarrow>
                     if over
                     then (True, l1\<lparr>li_UserOnlineIP := mdel taguuid (li_UserOnlineIP l1)\<rparr>)
                     else (False, l1)))"

definition bytesPerSecond :: "int \<Rightarrow> int" where
  "bytesPerSecond mbps = quot64 (mul64 mbps 1000000) 8"

definition speedBucket :: "string \<Rightarrow> int \<Rightarrow> 'rx Limiter \<Rightarrow> Bucket option \<times> 'rx Limiter" where
  "speedBucket taguuid userLimit l =
     (let limit = bytesPerSecond (determineSpeedLimit (li_SpeedLimit l) userLimit)
      in if limit > 0 then
           (let bucket = NewBucketWithQuantum 1000000000 limit limit
            in case map_of (li_SpeedLimiter l) taguuid of
                 Some b \<Rightarrow> (Some b, l)
               | None \<Rightarrow> (Some bucket, l\<lparr>li_SpeedLimiter := mput taguuid bucket (li_SpeedLimiter l)\<rparr>))
         else (None, l))"

text \<open>\<open>CheckLimit\<close>: the bucket, whether to reject, and the limiter afterwards.  \<open>isTcp\<close> is not read.\<close>

definition CheckLimit ::
  "int \<Rightarrow> string \<Rightarrow> string \<Rightarrow> bool \<Rightarrow> bool \<Rightarrow> 'rx Limiter \<Rightarrow> (Bucket option \<times> bool) \<times> 'rx Limiter" where
  "CheckLimit now taguuid ip isTcp noSSUDP l =
     (let ip = TrimPrefix ip ''::ffff:''
      in case map_of (li_UserLimitInfo l) taguuid of
           None \<Rightarrow> ((None, True), l)
         | Some u \<Rightarrow>
             (let (userLimit, e) = userSpeed now u;
                  l1 = storeLimit taguuid e l;
                  (reject, l2) = (if noSSUDP then trackIP taguuid ip (ul_UID u) (ul_DeviceLimit u) l1
                                  else (False, l1))
              in if reject then ((None, True), l2)
                 else (let (b, l3) = speedBucket taguuid userLimit l2 in ((b, False), l3))))"

section \<open>Online devices and rules\<close>

definition GetOnlineDevice :: "'rx Limiter \<Rightarrow> OnlineUser list \<times> 'rx Limiter" where
  "GetOnlineDevice l =
     (let pairs = concat (map snd (li_UserOnlineIP l))
      in (map (\<lambda>(ip, uid). \<lparr>ou_UID = uid, ou_IP = ip\<rparr>) pairs,
          l\<lparr>li_OldUserOnline := fold (\<lambda>(ip, uid). mput ip uid) pairs [],
            li_UserOnlineIP := fold mdel (map fst (li_UserOnlineIP l)) (li_UserOnlineIP l)\<rparr>))"

fun CheckDomainRules :: "('rx \<Rightarrow> string \<Rightarrow> bool) \<Rightarrow> 'rx list \<Rightarrow> string \<Rightarrow> bool" where
  "CheckDomainRules matches [] destination = False"
| "CheckDomainRules matches (r # rs) destination =
     (if matches r destination then True else CheckDomainRules matches rs destination)"

definition CheckDomainRule :: "('rx \<Rightarrow> string \<Rightarrow> bool) \<Rightarrow> 'rx Limiter \<Rightarrow> string \<Rightarrow> bool" where
  "CheckDomainRule matches l destination = CheckDomainRules matches (li_DomainRules l) destination"

fun CheckProtocolRules :: "string list \<Rightarrow> string \<Rightarrow> bool" where
  "CheckProtocolRules [] protocol = False"
| "CheckProtocolRules (r # rs) protocol = (if r = protocol then True else CheckProtocolRules rs protocol)"

definition CheckProtocolRule :: "'rx Limiter \<Rightarrow> string \<Rightarrow> bool" where
  "CheckProtocolRule l protocol = CheckProtocolRules (li_ProtocolRules l) protocol"

fun compileRules :: "(string \<Rightarrow> 'rx option) \<Rightarrow> string list \<Rightarrow> 'rx list option" where
  "compileRules compile [] = Some []"
| "compileRules compile (s # ss) = (case compile s of
     None \<Rightarrow> None
   | Some r \<Rightarrow> (case compileRules compile ss of None \<Rightarrow> None | Some rs \<Rightarrow> Some (r # rs)))"

definition UpdateRule :: "(string \<Rightarrow> 'rx option) \<Rightarrow> Rules \<Rightarrow> 'rx Limiter \<Rightarrow> err option \<times> 'rx Limiter" where
  "UpdateRule compile rule l = (case compileRules compile (ru_Regexp rule) of
     None \<Rightarrow> (Some ''invalid domain rule expression'', l)
   | Some compiled \<Rightarrow>
       (None, l\<lparr>li_DomainRules := compiled, li_ProtocolRules := ru_Protocol rule\<rparr>))"

section \<open>The registry\<close>

text \<open>
  The package variable \<open>limiter\<close> maps tags to limiters by pointer: limiters live in a heap, and a
  controller and the registry may hold the same reference.
\<close>

record 'rx limiters =
  lw_heap :: "'rx Limiter list"
  lw_map :: "(string, nat) gomap"

definition Init :: "'rx limiters \<Rightarrow> 'rx limiters" where
  "Init w = w\<lparr>lw_map := []\<rparr>"

definition AddLimiter ::
  "string \<Rightarrow> LimitConfig \<Rightarrow> UserInfo list \<Rightarrow> (int, int) gomap \<Rightarrow> 'rx limiters \<Rightarrow> nat \<times> 'rx limiters" where
  "AddLimiter tag lc users aliveList w =
     (let r = length (lw_heap w)
      in (r, w\<lparr>lw_heap := lw_heap w @ [newLimiter tag lc users aliveList],
               lw_map := mput tag r (lw_map w)\<rparr>))"

definition GetLimiter :: "string \<Rightarrow> 'rx limiters \<Rightarrow> nat res" where
  "GetLimiter tag w = (case map_of (lw_map w) tag of None \<Rightarrow> Inl ''not found'' | Some r \<Rightarrow> Inr r)"

definition DeleteLimiter :: "string \<Rightarrow> 'rx limiters \<Rightarrow> 'rx limiters" where
  "DeleteLimiter tag w = w\<lparr>lw_map := mdel tag (lw_map w)\<rparr>"

definition RestoreLimiter :: "string \<Rightarrow> nat \<Rightarrow> 'rx limiters \<Rightarrow> 'rx limiters" where
  "RestoreLimiter tag r w = w\<lparr>lw_map := mput tag r (lw_map w)\<rparr>"

abbreviation deref :: "'rx limiters \<Rightarrow> nat \<Rightarrow> 'rx Limiter" where
  "deref w r \<equiv> lw_heap w ! r"

definition update_ref :: "nat \<Rightarrow> ('rx Limiter \<Rightarrow> 'rx Limiter) \<Rightarrow> 'rx limiters \<Rightarrow> 'rx limiters" where
  "update_ref r f w = w\<lparr>lw_heap := (lw_heap w)[r := f (deref w r)]\<rparr>"

end
