(* ===== verification/Controller.thy ===== *)
theory Controller
  imports Core_Interface Panel_Users Limiter Cert
begin

text \<open>
  The node controller (runtime/node/controller.go, task.go, user.go, reload.go): it fetches its node and
  users from the panel, installs them in a core and a limiter, and keeps them in step with the panel.
  Every operation runs under the controller's mutex, so a run of a controller is a sequence of them.
\<close>

section \<open>State\<close>

text \<open>A periodic task: its interval and whether it was started.\<close>

type_synonym periodic = "int \<times> bool"

record ('s, 'rx, 'w) Controller =
  ct_server :: 's
  ct_limiters :: "'rx limiters"
  ct_world :: 'w
  ct_pendingTraffic :: "UserTraffic list"
  ct_apiClient :: Client
  ct_tag :: string
  ct_limiter :: nat
  ct_traffic :: "(string, int) gomap"
  ct_userList :: "UserInfo list"
  ct_aliveMap :: "(int, int) gomap"
  ct_info :: "NodeInfo option"
  ct_nodeInfoMonitorPeriodic :: "periodic option"
  ct_userReportPeriodic :: "periodic option"
  ct_renewCertPeriodic :: "periodic option"
  ct_dynamicSpeedLimitPeriodic :: "periodic option"
  ct_Options :: Options

text \<open>What surrounds a controller: the core's operations, the decoders, the regular expression
  compiler, the certificate libraries.\<close>

record ('s, 'rx, 'w) env =
  en_core :: "'s Core"
  en_dec :: decoders
  en_compile :: "string \<Rightarrow> 'rx option"
  en_cert :: "'w cert_env"

text \<open>The panel's replies to the three requests of one round.\<close>

record replies =
  pr_node :: reply
  pr_users :: "reply option"
  pr_alive :: "reply option"

text \<open>Reading and deleting treat a nil map as an empty one.\<close>

definition read_map :: "('k, 'v) gomap option \<Rightarrow> ('k, 'v) gomap" where
  "read_map m = (case m of None \<Rightarrow> [] | Some x \<Rightarrow> x)"

definition panicked :: err where
  "panicked = ''invalid memory address or nil pointer dereference''"

definition buildNodeTag :: "Client \<Rightarrow> NodeInfo \<Rightarrow> string" where
  "buildNodeTag c node = ''['' @ cl_APIHost c @ '']-'' @ ni_Type node @ '':'' @ Itoa (ni_Id node)"

text \<open>The limiter a controller holds.\<close>

definition on_limiter :: "('rx Limiter \<Rightarrow> 'rx Limiter) \<Rightarrow> ('s, 'rx, 'w) Controller \<Rightarrow> ('s, 'rx, 'w) Controller" where
  "on_limiter f c = c\<lparr>ct_limiters := update_ref (ct_limiter c) f (ct_limiters c)\<rparr>"

text \<open>\<open>requestCert\<close> in the controller; a nil certificate configuration is dereferenced.\<close>

definition request_cert :: "('s, 'rx, 'w) env \<Rightarrow> ('s, 'rx, 'w) Controller \<Rightarrow> err option \<times> ('s, 'rx, 'w) Controller" where
  "request_cert E c = (case op_CertConfig (ct_Options c) of
     None \<Rightarrow> (Some panicked, c)
   | Some cc \<Rightarrow> (case requestCert (en_cert E) cc (ct_world c) of (r, w) \<Rightarrow> (r, c\<lparr>ct_world := w\<rparr>)))"

section \<open>Starting\<close>

definition needs_renewal :: "string \<Rightarrow> bool" where
  "needs_renewal mode \<longleftrightarrow> mode \<notin> {''none'', [], ''file'', ''self''}"

definition start_renewal :: "NodeInfo \<Rightarrow> ('s, 'rx, 'w) Controller \<Rightarrow> err option \<times> ('s, 'rx, 'w) Controller" where
  "start_renewal node c =
     (if ni_Security node = Tls then
        (case op_CertConfig (ct_Options c) of
           None \<Rightarrow> (Some panicked, c)
         | Some cc \<Rightarrow>
             if needs_renewal (cc_CertMode cc)
             then (None, c\<lparr>ct_renewCertPeriodic := Some (24 * 3600 * second, True)\<rparr>) else (None, c))
      else (None, c))"

text \<open>The dynamic speed limit task is built but not started.\<close>

definition startTasks :: "NodeInfo \<Rightarrow> ('s, 'rx, 'w) Controller \<Rightarrow> err option \<times> ('s, 'rx, 'w) Controller" where
  "startTasks node c0 =
     (let c1 = c0\<lparr>ct_nodeInfoMonitorPeriodic := Some (ni_PullInterval node, True),
                  ct_userReportPeriodic := Some (ni_PushInterval node, True)\<rparr>
      in case start_renewal node c1 of
           (Some e, c2) \<Rightarrow> (Some e, c2)
         | (None, c2) \<Rightarrow>
             if lc_EnableDynamicSpeedLimit (op_LimitConfig (ct_Options c2)) then
               (case lc_DynamicSpeedLimitConfig (op_LimitConfig (ct_Options c2)) of
                  None \<Rightarrow> (Some panicked, c2\<lparr>ct_traffic := []\<rparr>)
                | Some d \<Rightarrow> (None, c2\<lparr>ct_traffic := [],
                    ct_dynamicSpeedLimitPeriodic := Some (mul64 (dsl_Periodic d) second, False)\<rparr>))
             else (None, c2))"

text \<open>The three requests of \<open>Start\<close>; the user list is stored even when it is refused.\<close>

definition start_fetch ::
  "('s, 'rx, 'w) env \<Rightarrow> replies \<Rightarrow> ('s, 'rx, 'w) Controller \<Rightarrow> NodeInfo option res \<times> ('s, 'rx, 'w) Controller" where
  "start_fetch E P c = (case GetNodeInfo (en_dec E) (ct_apiClient c) (pr_node P) of
     Inl e \<Rightarrow> (Inl (''get node info error: '' @ e), c)
   | Inr node \<Rightarrow> (case GetUserList (en_dec E) (pr_users P) (ct_apiClient c) of
       (Inl e, cl) \<Rightarrow> (Inl (''get user list error: '' @ e), c\<lparr>ct_apiClient := cl, ct_userList := []\<rparr>)
     | (Inr us, cl) \<Rightarrow>
         let c1 = c\<lparr>ct_apiClient := cl, ct_userList := (case us of None \<Rightarrow> [] | Some l \<Rightarrow> l)\<rparr>
         in if ct_userList c1 = [] then (Inl ''add users error: not have any user'', c1)
            else (case GetUserAlive (en_dec E) (pr_alive P) cl of
              (Inl e, cl2) \<Rightarrow> (Inl (''failed to get user alive list: '' @ e), c1\<lparr>ct_apiClient := cl2\<rparr>)
            | (Inr alive, cl2) \<Rightarrow> (Inr node, c1\<lparr>ct_apiClient := cl2, ct_aliveMap := read_map alive\<rparr>))))"

definition preflight :: "('s, 'rx, 'w) env \<Rightarrow> NodeInfo \<Rightarrow> ('s, 'rx, 'w) Controller \<Rightarrow> err option" where
  "preflight E node c =
     (if ni_Type node = ''vless'' then
        (case c_ValidateNode (en_core E) of
           None \<Rightarrow> Some ''selected core does not provide VLESS preflight''
         | Some validate \<Rightarrow> (case validate (ct_tag c) node (ct_Options c) (ct_server c) of
             Some e \<Rightarrow> Some (''VLESS preflight failed: '' @ e) | None \<Rightarrow> None))
      else None)"

text \<open>Without the optional interface there is nothing to restore.\<close>

definition snapshot ::
  "('s, 'rx, 'w) env \<Rightarrow> NodeInfo \<Rightarrow> ('s, 'rx, 'w) Controller \<Rightarrow> ('s \<Rightarrow> err option \<times> 's) res" where
  "snapshot E node c = (case c_SnapshotNodeState (en_core E) of
     None \<Rightarrow> Inr (\<lambda>s. (None, s))
   | Some snap \<Rightarrow> snap (ct_tag c) node (ct_Options c) (ct_server c))"

definition drop_limiter :: "('s, 'rx, 'w) Controller \<Rightarrow> ('s, 'rx, 'w) Controller" where
  "drop_limiter c = c\<lparr>ct_limiters := DeleteLimiter (ct_tag c) (ct_limiters c)\<rparr>"

definition run_restore ::
  "('s \<Rightarrow> err option \<times> 's) \<Rightarrow> ('s, 'rx, 'w) Controller \<Rightarrow> err option \<times> ('s, 'rx, 'w) Controller" where
  "run_restore rst c = (case rst (ct_server c) of (r, s) \<Rightarrow> (r, c\<lparr>ct_server := s\<rparr>))"

definition add_node ::
  "('s, 'rx, 'w) env \<Rightarrow> NodeInfo \<Rightarrow> ('s, 'rx, 'w) Controller \<Rightarrow> err option \<times> ('s, 'rx, 'w) Controller" where
  "add_node E node c = (case c_AddNode (en_core E) (ct_tag c) node (ct_Options c) (ct_server c) of
     (r, o1, s) \<Rightarrow> (r, c\<lparr>ct_Options := o1, ct_server := s\<rparr>))"

definition add_users ::
  "('s, 'rx, 'w) env \<Rightarrow> NodeInfo \<Rightarrow> UserInfo list \<Rightarrow> ('s, 'rx, 'w) Controller \<Rightarrow> int res \<times> ('s, 'rx, 'w) Controller" where
  "add_users E node us c = (case c_AddUsers (en_core E) (ct_tag c) us node (ct_server c) of
     (r, s) \<Rightarrow> (r, c\<lparr>ct_server := s\<rparr>))"

definition del_node :: "('s, 'rx, 'w) env \<Rightarrow> ('s, 'rx, 'w) Controller \<Rightarrow> err option \<times> ('s, 'rx, 'w) Controller" where
  "del_node E c = (case c_DelNode (en_core E) (ct_tag c) (ct_server c) of (r, s) \<Rightarrow> (r, c\<lparr>ct_server := s\<rparr>))"

text \<open>\<open>Start\<close> from the installation on; its deferred functions restore the core and drop the limiter when
  it does not get to its end.\<close>

definition start_node ::
  "('s, 'rx, 'w) env \<Rightarrow> NodeInfo \<Rightarrow> ('s \<Rightarrow> err option \<times> 's) \<Rightarrow> ('s, 'rx, 'w) Controller
     \<Rightarrow> err option \<times> ('s, 'rx, 'w) Controller" where
  "start_node E node rst c = (case add_node E node c of
     (Some e, c1) \<Rightarrow> (Some (''add new node error: '' @ e), drop_limiter (snd (run_restore rst c1)))
   | (None, c1) \<Rightarrow> (case add_users E node (ct_userList c1) c1 of
       (Inl e, c2) \<Rightarrow> (Some (''add users error: '' @ e), drop_limiter (snd (run_restore rst (snd (del_node E c2)))))
     | (Inr added, c2) \<Rightarrow>
         startTasks node (c2\<lparr>ct_info := Some node,
           ct_apiClient := AcceptUserList (AcceptNodeInfo (Some node) (ct_apiClient c2))\<rparr>)))"

definition Start ::
  "('s, 'rx, 'w) env \<Rightarrow> replies \<Rightarrow> ('s, 'rx, 'w) Controller \<Rightarrow> err option \<times> ('s, 'rx, 'w) Controller" where
  "Start E P c = (case start_fetch E P c of
     (Inl e, c1) \<Rightarrow> (Some e, c1)
   | (Inr None, c1) \<Rightarrow> (Some panicked, c1)
   | (Inr (Some node), c1) \<Rightarrow>
       let tag = (if length (op_Name (ct_Options c1)) = 0 then buildNodeTag (ct_apiClient c1) node
                  else op_Name (ct_Options c1));
           (l, ls) = AddLimiter tag (op_LimitConfig (ct_Options c1)) (ct_userList c1) (ct_aliveMap c1) (ct_limiters c1);
           (e, lim) = UpdateRule (en_compile E) (ni_Rules node) (deref ls l);
           c2 = c1\<lparr>ct_tag := tag, ct_limiters := update_ref l (\<lambda>_. lim) ls\<rparr>
       in case e of
            Some x \<Rightarrow> (Some (''update rule error: '' @ x), c2)
          | None \<Rightarrow>
              let c3 = c2\<lparr>ct_limiter := l\<rparr>
              in case (if ni_Security node = Tls then request_cert E c3 else (None, c3)) of
                   (Some x, c4) \<Rightarrow> (Some (''request cert error: '' @ x), drop_limiter c4)
                 | (None, c4) \<Rightarrow>
                     (case preflight E node c4 of
                        Some x \<Rightarrow> (Some x, drop_limiter c4)
                      | None \<Rightarrow> (case snapshot E node c4 of
                          Inl x \<Rightarrow> (Some ''cannot snapshot initial node state'', drop_limiter c4)
                        | Inr rst \<Rightarrow> start_node E node rst c4)))"

definition stop_periodic :: "periodic option \<Rightarrow> periodic option" where
  "stop_periodic p = map_option (\<lambda>(i, b). (i, False)) p"

definition Close :: "('s, 'rx, 'w) env \<Rightarrow> ('s, 'rx, 'w) Controller \<Rightarrow> err option \<times> ('s, 'rx, 'w) Controller" where
  "Close E c =
     (let c1 = c\<lparr>ct_nodeInfoMonitorPeriodic := stop_periodic (ct_nodeInfoMonitorPeriodic c),
                 ct_userReportPeriodic := stop_periodic (ct_userReportPeriodic c),
                 ct_renewCertPeriodic := stop_periodic (ct_renewCertPeriodic c),
                 ct_dynamicSpeedLimitPeriodic := stop_periodic (ct_dynamicSpeedLimitPeriodic c)\<rparr>
      in case del_node E (drop_limiter c1) of
           (Some e, c2) \<Rightarrow> (Some (''del node error: '' @ e), c2) | (None, c2) \<Rightarrow> (None, c2))"

end
