(* ===== verification/Controller_Tasks.thy ===== *)
theory Controller_Tasks
  imports Controller
begin

text \<open>
  The periodic work of the node controller (runtime/node/task.go, user.go, reload.go).
\<close>

section \<open>Comparing user lists\<close>

definition user_key :: "UserInfo \<Rightarrow> string" where
  "user_key u = ui_Uuid u @ Itoa (ui_SpeedLimit u)"

fun index_users :: "nat \<Rightarrow> UserInfo list \<Rightarrow> (string, nat) gomap \<Rightarrow> (string, nat) gomap" where
  "index_users i [] m = m"
| "index_users i (u # us) m = index_users (i + 1) us (mput (user_key u) i m)"

fun scan_new :: "UserInfo list \<Rightarrow> (string, nat) gomap \<Rightarrow> UserInfo list \<Rightarrow> UserInfo list \<times> (string, nat) gomap" where
  "scan_new [] m added = (added, m)"
| "scan_new (u # us) m added =
     (if \<not> mhas m (user_key u) then scan_new us m (added @ [u])
      else scan_new us (mdel (user_key u) m) added)"

text \<open>The deleted users come in the order of the map, which Go does not fix.\<close>

definition compareUserList :: "UserInfo list \<Rightarrow> UserInfo list \<Rightarrow> UserInfo list \<times> UserInfo list" where
  "compareUserList old new =
     (let (added, m) = scan_new new (index_users 0 old []) []
      in (map (\<lambda>(k, i). old ! i) m, added))"

section \<open>Reporting traffic\<close>

definition merge_item :: "UserTraffic \<Rightarrow> (int, UserTraffic) gomap \<Rightarrow> (int, UserTraffic) gomap" where
  "merge_item item merged =
     (let total = mget_or \<lparr>ut_UID = 0, ut_Upload = 0, ut_Download = 0\<rparr> merged (ut_UID item)
      in mput (ut_UID item) \<lparr>ut_UID = ut_UID item, ut_Upload = add64 (ut_Upload total) (ut_Upload item),
           ut_Download = add64 (ut_Download total) (ut_Download item)\<rparr> merged)"

definition mergeUserTraffic :: "UserTraffic list \<Rightarrow> UserTraffic list \<Rightarrow> UserTraffic list" where
  "mergeUserTraffic pending nxt = map snd (fold merge_item (pending @ nxt) [])"

text \<open>\<open>post\<close> is the panel's answer to a traffic report.\<close>

definition flushUserTraffic ::
  "('s, 'rx, 'w) env \<Rightarrow> ((int, int list) gomap \<Rightarrow> reply) \<Rightarrow> ('s, 'rx, 'w) Controller
     \<Rightarrow> UserTraffic list res \<times> ('s, 'rx, 'w) Controller" where
  "flushUserTraffic E post c = (case c_GetUserTrafficSlice (en_core E) (ct_tag c) True (ct_server c) of
     (Inl e, s) \<Rightarrow> (Inl e, c\<lparr>ct_server := s\<rparr>)
   | (Inr traffic, s) \<Rightarrow>
       let c1 = c\<lparr>ct_server := s, ct_pendingTraffic := mergeUserTraffic (ct_pendingTraffic c) traffic\<rparr>
       in if length (ct_pendingTraffic c1) = 0 then (Inr [], c1)
          else (case ReportUserTraffic post (ct_apiClient c1) (ct_pendingTraffic c1) of
            Some e \<Rightarrow> (Inl e, c1)
          | None \<Rightarrow> (Inr (ct_pendingTraffic c1), c1\<lparr>ct_pendingTraffic := []\<rparr>)))"

definition nocount :: "Options \<Rightarrow> UserTraffic list \<Rightarrow> int list" where
  "nocount o1 traffic = map ut_UID (filter (\<lambda>t.
     add64 (ut_Upload t) (ut_Download t) < mul64 (op_DeviceOnlineMinTraffic o1) 1000) traffic)"

definition online_body :: "OnlineUser list \<Rightarrow> (int, string list) gomap" where
  "online_body us = fold (\<lambda>u m. mput (ou_UID u) (mget_or [] m (ou_UID u) @ [ou_IP u]) m) us []"

text \<open>What the task sends to the panel about online users, if anything, besides its effect.\<close>

definition reportUserTrafficTask ::
  "('s, 'rx, 'w) env \<Rightarrow> ((int, int list) gomap \<Rightarrow> reply) \<Rightarrow> ('s, 'rx, 'w) Controller
     \<Rightarrow> (int, string list) gomap option \<times> ('s, 'rx, 'w) Controller" where
  "reportUserTrafficTask E post c = (case flushUserTraffic E post c of
     (Inl e, c1) \<Rightarrow> (None, c1)
   | (Inr userTraffic, c1) \<Rightarrow>
       let (onlineDevice, lim) = GetOnlineDevice (deref (ct_limiters c1) (ct_limiter c1));
           c2 = on_limiter (\<lambda>_. lim) c1;
           nocountUID = nocount (ct_Options c2) userTraffic;
           result = filter (\<lambda>u. ou_UID u \<notin> set nocountUID) onlineDevice
       in if length onlineDevice > 0 then (Some (online_body result), c2) else (None, c2))"

section \<open>Replacing a VLESS node\<close>

definition install ::
  "('s, 'rx, 'w) env \<Rightarrow> NodeInfo \<Rightarrow> UserInfo list \<Rightarrow> ('s, 'rx, 'w) Controller \<Rightarrow> err option \<times> ('s, 'rx, 'w) Controller" where
  "install E node us c = (case add_node E node c of
     (Some e, c1) \<Rightarrow> (Some ''VLESS listener setup failed'', c1)
   | (None, c1) \<Rightarrow> (case add_users E node us c1 of
       (Inl e, c2) \<Rightarrow> (Some ''VLESS users setup failed'', c2)
     | (Inr _, c2) \<Rightarrow> (None, c2)))"

text \<open>The old node again, when the listener could not be removed or the candidate not installed.\<close>

definition recover ::
  "('s, 'rx, 'w) env \<Rightarrow> NodeInfo \<Rightarrow> UserInfo list \<Rightarrow> ('s \<Rightarrow> err option \<times> 's) \<Rightarrow> ('s, 'rx, 'w) Controller
     \<Rightarrow> err option \<times> ('s, 'rx, 'w) Controller" where
  "recover E oldNode oldUsers rst c =
     (let (r1, c1) = install E oldNode oldUsers c; (r2, c2) = run_restore rst c1
      in (errors_Join [r1, r2], c2))"

definition set_periods :: "NodeInfo \<Rightarrow> ('s, 'rx, 'w) Controller \<Rightarrow> ('s, 'rx, 'w) Controller" where
  "set_periods node c = c\<lparr>
     ct_nodeInfoMonitorPeriodic := map_option (\<lambda>(i, b). (if ni_PullInterval node > 0 then ni_PullInterval node else i, b))
       (ct_nodeInfoMonitorPeriodic c),
     ct_userReportPeriodic := map_option (\<lambda>(i, b). (if ni_PushInterval node > 0 then ni_PushInterval node else i, b))
       (ct_userReportPeriodic c)\<rparr>"

definition accept_all :: "NodeInfo \<Rightarrow> ('s, 'rx, 'w) Controller \<Rightarrow> ('s, 'rx, 'w) Controller" where
  "accept_all node c = c\<lparr>ct_apiClient := AcceptUserList (AcceptNodeInfo (Some node) (ct_apiClient c))\<rparr>"

definition not_removed :: err where "not_removed = ''could not remove previous VLESS listener''"
definition restoration_failed :: err where "restoration_failed = ''previous VLESS listener restoration failed: ''"

text \<open>The part of the replacement that touches the listener.\<close>

definition swap_node ::
  "('s, 'rx, 'w) env \<Rightarrow> NodeInfo \<Rightarrow> NodeInfo \<Rightarrow> UserInfo list \<Rightarrow> (int, int) gomap \<Rightarrow> ('s \<Rightarrow> err option \<times> 's)
     \<Rightarrow> ('s, 'rx, 'w) Controller \<Rightarrow> err option \<times> ('s, 'rx, 'w) Controller" where
  "swap_node E oldNode candidate us alive rst c =
     (let oldUsers = ct_userList c; oldLimiter = ct_limiter c
      in case del_node E c of
           (Some e, c1) \<Rightarrow>
             (let (recovery, c2) = recover E oldNode oldUsers rst (snd (del_node E c1))
              in (errors_Join [Some not_removed, recovery], c2))
         | (None, c1) \<Rightarrow>
             (let (l, ls) = AddLimiter (ct_tag c1) (op_LimitConfig (ct_Options c1)) us alive (ct_limiters c1);
                  c2 = on_limiter (\<lambda>lim. snd (UpdateRule (en_compile E) (ni_Rules candidate) lim))
                         (c1\<lparr>ct_limiters := ls, ct_limiter := l\<rparr>)
              in case install E candidate us c2 of
                   (Some e, c3) \<Rightarrow>
                     (let c4 = snd (del_node E c3);
                          c5 = c4\<lparr>ct_limiters := RestoreLimiter (ct_tag c4) oldLimiter (ct_limiters c4), ct_limiter := oldLimiter\<rparr>;
                          (recovery, c6) = recover E oldNode oldUsers rst c5
                      in case recovery of
                           Some x \<Rightarrow> (errors_Join [Some e, Some (restoration_failed @ x)], c6)
                         | None \<Rightarrow> (Some e, c6))
                 | (None, c3) \<Rightarrow>
                     (None, accept_all candidate (set_periods candidate
                        (c3\<lparr>ct_info := Some candidate, ct_userList := us, ct_aliveMap := alive\<rparr>)))))"

definition replaceVLESSNode ::
  "('s, 'rx, 'w) env \<Rightarrow> ((int, int list) gomap \<Rightarrow> reply) \<Rightarrow> NodeInfo \<Rightarrow> UserInfo list \<Rightarrow> (int, int) gomap
     \<Rightarrow> ('s, 'rx, 'w) Controller \<Rightarrow> err option \<times> ('s, 'rx, 'w) Controller" where
  "replaceVLESSNode E post candidate us alive c = (case c_ValidateNode (en_core E) of
     None \<Rightarrow> (Some ''selected core does not provide VLESS preflight'', c)
   | Some validate \<Rightarrow> (case validate (ct_tag c) candidate (ct_Options c) (ct_server c) of
       Some e \<Rightarrow> (Some (''VLESS candidate rejected: '' @ e), c)
     | None \<Rightarrow> (case fst (UpdateRule (en_compile E) (ni_Rules candidate) Limiter_zero) of
         Some e \<Rightarrow> (Some ''invalid VLESS candidate rules'', c)
       | None \<Rightarrow> (case flushUserTraffic E post c of
           (Inl e, c1) \<Rightarrow> (Some (''cannot preserve traffic before reload: '' @ e), c1)
         | (Inr _, c1) \<Rightarrow> (case ct_info c1 of
             None \<Rightarrow> (Some panicked, c1)
           | Some oldNode \<Rightarrow> (case snapshot E oldNode c1 of
               Inl e \<Rightarrow> (Some ''cannot snapshot previous node state'', c1)
             | Inr rst \<Rightarrow> swap_node E oldNode candidate us alive rst c1))))))"

section \<open>Following the panel\<close>

definition set_alive :: "(int, int) gomap option \<Rightarrow> ('s, 'rx, 'w) Controller \<Rightarrow> ('s, 'rx, 'w) Controller" where
  "set_alive newA c = (case newA of None \<Rightarrow> c | Some m \<Rightarrow> on_limiter (\<lambda>l. l\<lparr>li_AliveList := m\<rparr>) c)"

text \<open>A replacement of another protocol: remove, rebuild, add.  A failure to remove or add the node is a
  panic of the process; the flag says so.\<close>

definition finish_reload ::
  "('s, 'rx, 'w) env \<Rightarrow> NodeInfo \<Rightarrow> ('s, 'rx, 'w) Controller \<Rightarrow> bool \<times> ('s, 'rx, 'w) Controller" where
  "finish_reload E newN c5 =
     (case (if ni_Security newN = Tls then request_cert E c5 else (None, c5)) of
        (Some x, c6) \<Rightarrow> (False, c6)
      | (None, c6) \<Rightarrow> (case add_node E newN c6 of
          (Some x, c7) \<Rightarrow> (True, c7)
        | (None, c7) \<Rightarrow> (case add_users E newN (ct_userList c7) c7 of
            (Inl x, c8) \<Rightarrow> (False, c8)
          | (Inr _, c8) \<Rightarrow> (False, accept_all newN (set_periods newN c8)))))"

definition reload_node ::
  "('s, 'rx, 'w) env \<Rightarrow> NodeInfo \<Rightarrow> UserInfo list option \<Rightarrow> (int, int) gomap option
     \<Rightarrow> ('s, 'rx, 'w) Controller \<Rightarrow> bool \<times> ('s, 'rx, 'w) Controller" where
  "reload_node E newN newU newA c0 =
     (let c1 = c0\<lparr>ct_info := Some newN, ct_userList := (case newU of Some us \<Rightarrow> us | None \<Rightarrow> ct_userList c0), ct_traffic := []\<rparr>
      in case del_node E c1 of
           (Some e, c2) \<Rightarrow> (True, c2)
         | (None, c2) \<Rightarrow>
             let c3 = (if length (op_Name (ct_Options c2)) = 0 then
                         (let tag = buildNodeTag (ct_apiClient c2) newN;
                              (l, ls) = AddLimiter tag (op_LimitConfig (ct_Options c2)) (ct_userList c2) (read_map newA)
                                          (DeleteLimiter tag (ct_limiters c2))
                          in c2\<lparr>ct_tag := tag, ct_limiters := ls, ct_limiter := l\<rparr>)
                       else c2);
                 c4 = set_alive newA c3;
                 (e, lim) = UpdateRule (en_compile E) (ni_Rules newN) (deref (ct_limiters c4) (ct_limiter c4));
                 c5 = on_limiter (\<lambda>_. lim) c4
             in case e of
                  Some x \<Rightarrow> (False, c5)
                | None \<Rightarrow> finish_reload E newN c5)"

text \<open>The node unchanged: the difference of the user lists is applied to the core, then to the limiter.\<close>

definition update_users ::
  "('s, 'rx, 'w) env \<Rightarrow> UserInfo list \<Rightarrow> NodeInfo \<Rightarrow> ('s, 'rx, 'w) Controller \<Rightarrow> ('s, 'rx, 'w) Controller" where
  "update_users E newU info c =
     (let (deleted, added) = compareUserList (ct_userList c) newU
      in case (if length deleted > 0
               then (case c_DelUsers (en_core E) deleted (ct_tag c) info (ct_server c) of (r, s) \<Rightarrow> (r, c\<lparr>ct_server := s\<rparr>))
               else (None, c)) of
           (Some e, c1) \<Rightarrow> c1
         | (None, c1) \<Rightarrow>
             (case (if length added > 0 then add_users E info added c1 else (Inr 0, c1)) of
                (Inl e, c2) \<Rightarrow> c2
              | (Inr _, c2) \<Rightarrow>
                  let c3 = (if length added > 0 \<or> length deleted > 0
                            then on_limiter (UpdateUser (ct_tag c2) added deleted) c2 else c2);
                      c4 = (if (length added > 0 \<or> length deleted > 0) \<and> lc_EnableDynamicSpeedLimit (op_LimitConfig (ct_Options c3))
                            then c3\<lparr>ct_traffic := fold mdel (map ui_Uuid deleted) (ct_traffic c3)\<rparr> else c3)
                  in c4\<lparr>ct_userList := newU, ct_apiClient := AcceptUserList (ct_apiClient c4)\<rparr>))"

text \<open>One round of the monitor; the flag is a panic.\<close>

definition nodeInfoMonitor ::
  "('s, 'rx, 'w) env \<Rightarrow> ((int, int list) gomap \<Rightarrow> reply) \<Rightarrow> replies \<Rightarrow> ('s, 'rx, 'w) Controller
     \<Rightarrow> bool \<times> ('s, 'rx, 'w) Controller" where
  "nodeInfoMonitor E post P c0 = (case GetNodeInfo (en_dec E) (ct_apiClient c0) (pr_node P) of
     Inl e \<Rightarrow> (False, c0)
   | Inr newN \<Rightarrow> (case GetUserList (en_dec E) (pr_users P) (ct_apiClient c0) of
       (Inl e, cl) \<Rightarrow> (False, c0\<lparr>ct_apiClient := cl\<rparr>)
     | (Inr newU, cl) \<Rightarrow> (case GetUserAlive (en_dec E) (pr_alive P) cl of
         (Inl e, cl2) \<Rightarrow> (False, c0\<lparr>ct_apiClient := cl2\<rparr>)
       | (Inr newA, cl2) \<Rightarrow>
           let c = c0\<lparr>ct_apiClient := cl2\<rparr>
           in case newN of
                Some n \<Rightarrow>
                  if ni_Type n = ''vless''
                  then (False, snd (replaceVLESSNode E post n (case newU of None \<Rightarrow> ct_userList c | Some us \<Rightarrow> us) (read_map newA) c))
                  else reload_node E n newU newA c
              | None \<Rightarrow>
                  let c1 = set_alive newA c
                  in (case newU of
                        None \<Rightarrow> (False, c1)
                      | Some us \<Rightarrow> (case ct_info c1 of
                          None \<Rightarrow> (True, c1)
                        | Some info \<Rightarrow> (False, update_users E us info c1))))))"

section \<open>Dynamic speed limits\<close>

definition check_one :: "int \<Rightarrow> DynamicSpeedLimitConfig \<Rightarrow> string \<times> int \<Rightarrow> ('s, 'rx, 'w) Controller \<Rightarrow> ('s, 'rx, 'w) Controller" where
  "check_one now d ut c =
     (if snd ut \<ge> dsl_Traffic d then
        (on_limiter (\<lambda>l. snd (UpdateDynamicSpeedLimit (ct_tag c) (fst ut) (dsl_SpeedLimit d)
           (now + mul64 (dsl_ExpireTime d) (60 * second)) l)) c)\<lparr>ct_traffic := mdel (fst ut) (ct_traffic c)\<rparr>
      else c)"

definition SpeedChecker :: "int \<Rightarrow> ('s, 'rx, 'w) Controller \<Rightarrow> ('s, 'rx, 'w) Controller" where
  "SpeedChecker now c = (case lc_DynamicSpeedLimitConfig (op_LimitConfig (ct_Options c)) of
     None \<Rightarrow> c
   | Some d \<Rightarrow> fold (check_one now d) (ct_traffic c) c)"

end
