(* ===== verification/Limiter_Props.thy ===== *)
theory Limiter_Props
  imports Limiter User_Table
begin

text \<open>What the limiter promises: its table of users, its admission decisions, its rules.\<close>

section \<open>The table of users\<close>

definition limiter_knows :: "string \<Rightarrow> 'rx Limiter \<Rightarrow> string \<Rightarrow> bool" where
  "limiter_knows tag l uuid \<longleftrightarrow> mhas (li_UserLimitInfo l) (UserTag tag uuid)"

lemma knows_storeUser [simp]:
  "limiter_knows tag (storeUser tag u l) uuid \<longleftrightarrow> uuid = ui_Uuid u \<or> limiter_knows tag l uuid"
  by (auto simp: limiter_knows_def storeUser_def)

lemma knows_dropUser [simp]:
  "limiter_knows tag (dropUser tag u l) uuid \<longleftrightarrow> uuid \<noteq> ui_Uuid u \<and> limiter_knows tag l uuid"
  by (auto simp: limiter_knows_def dropUser_def)

interpretation lt: user_table "limiter_knows tag" "\<lambda>us. fold (storeUser tag) us" "\<lambda>us. fold (dropUser tag) us"
proof
  show "limiter_knows tag (fold (storeUser tag) us s) u \<longleftrightarrow> limiter_knows tag s u \<or> u \<in> uuids us"
    for us :: "UserInfo list" and s :: "'a Limiter" and u
    by (induction us arbitrary: s) auto
  show "limiter_knows tag (fold (dropUser tag) us s) u \<longleftrightarrow> limiter_knows tag s u \<and> u \<notin> uuids us"
    for us :: "UserInfo list" and s :: "'a Limiter" and u
    by (induction us arbitrary: s) auto
qed

text \<open>The two tables of a limiter agree: the same users, with the same numeric id.\<close>

definition limiter_inv :: "string \<Rightarrow> 'rx Limiter \<Rightarrow> bool" where
  "limiter_inv tag l \<longleftrightarrow>
     (\<forall>uuid. map_option ul_UID (map_of (li_UserLimitInfo l) (UserTag tag uuid)) = map_of (li_UUIDtoUID l) uuid)"

lemma UID_limitOfUser [simp]: "ul_UID (limitOfUser u) = ui_Id u"
  by (simp add: limitOfUser_def Let_def)

lemma limitOfUser_fields [simp]:
  "ul_SpeedLimit (limitOfUser u) = ui_SpeedLimit u" "ul_DeviceLimit (limitOfUser u) = ui_DeviceLimit u"
  "ul_DynamicSpeedLimit (limitOfUser u) = 0" "ul_ExpireTime (limitOfUser u) = 0"
  "\<not> ul_OverLimit (limitOfUser u)"
  by (simp_all add: limitOfUser_def UserLimitInfo_zero_def Let_def)

lemma limitOfUser_eq:
  "limitOfUser u = \<lparr>ul_UID = ui_Id u, ul_SpeedLimit = ui_SpeedLimit u, ul_DeviceLimit = ui_DeviceLimit u,
     ul_DynamicSpeedLimit = 0, ul_ExpireTime = 0, ul_OverLimit = False\<rparr>"
  by (simp add: limitOfUser_def UserLimitInfo_zero_def Let_def)

lemma storeUser_inv: "limiter_inv tag l \<Longrightarrow> limiter_inv tag (storeUser tag u l)"
  by (simp add: limiter_inv_def storeUser_def)

lemma dropUser_inv: "limiter_inv tag l \<Longrightarrow> limiter_inv tag (dropUser tag u l)"
  by (simp add: limiter_inv_def dropUser_def)

lemma fold_storeUser_inv: "limiter_inv tag l \<Longrightarrow> limiter_inv tag (fold (storeUser tag) us l)"
  by (induction us arbitrary: l) (auto intro: storeUser_inv)

lemma fold_dropUser_inv: "limiter_inv tag l \<Longrightarrow> limiter_inv tag (fold (dropUser tag) us l)"
  by (induction us arbitrary: l) (auto intro: dropUser_inv)

lemma newLimiter_inv: "limiter_inv tag (newLimiter tag lc users alive)"
  unfolding newLimiter_def
  by (rule fold_storeUser_inv) (simp add: limiter_inv_def Limiter_zero_def)

lemma UpdateUser_inv: "limiter_inv tag l \<Longrightarrow> limiter_inv tag (UpdateUser tag added deleted l)"
  by (simp add: UpdateUser_def fold_storeUser_inv fold_dropUser_inv)

lemma UpdateDynamic_inv:
  "limiter_inv tag l \<Longrightarrow> limiter_inv tag (snd (UpdateDynamicSpeedLimit tag uuid n t l))"
  by (auto simp: limiter_inv_def UpdateDynamicSpeedLimit_def split: option.splits dest: spec [of _ uuid])

lemma newLimiter_knows: "limiter_knows tag (newLimiter tag lc users alive) u \<longleftrightarrow> u \<in> uuids users"
  by (simp add: newLimiter_def lt.knows_install) (simp add: limiter_knows_def Limiter_zero_def)

lemma fold_storeUser_other:
  "ui_Uuid u \<notin> uuids us \<Longrightarrow>
   map_of (li_UserLimitInfo (fold (storeUser tag) us l)) (UserTag tag (ui_Uuid u)) =
   map_of (li_UserLimitInfo l) (UserTag tag (ui_Uuid u))"
  by (induction us arbitrary: l) (auto simp: storeUser_def)

lemma fold_storeUser_entry:
  "u \<in> set us \<Longrightarrow> distinct (map ui_Uuid us) \<Longrightarrow>
   map_of (li_UserLimitInfo (fold (storeUser tag) us l)) (UserTag tag (ui_Uuid u)) = Some (limitOfUser u)"
proof (induction us arbitrary: l)
  case (Cons a us)
  show ?case
  proof (cases "u = a")
    case True
    with Cons.prems have "ui_Uuid u \<notin> uuids us" by (simp add: uuids_def)
    from fold_storeUser_other [OF this, of tag "storeUser tag a l"] True show ?thesis
      by (simp add: storeUser_def [of tag a l])
  next
    case False
    with Cons show ?thesis by simp
  qed
qed simp

text \<open>C30: after an update of the users the limiter knows exactly the users that were kept or added; each
  added user has the limits the panel sent, with no dynamic limit and not marked over its limit.\<close>

theorem UpdateUser_tables:
  assumes "distinct (map ui_Uuid added)" and "limiter_inv tag l"
  shows "limiter_inv tag (UpdateUser tag added deleted l) \<and>
    (limiter_knows tag (UpdateUser tag added deleted l) uuid \<longleftrightarrow>
      uuid \<in> uuids added \<or> limiter_knows tag l uuid \<and> uuid \<notin> uuids deleted) \<and>
    (u \<in> set added \<longrightarrow>
      map_of (li_UserLimitInfo (UpdateUser tag added deleted l)) (UserTag tag (ui_Uuid u)) =
      Some \<lparr>ul_UID = ui_Id u, ul_SpeedLimit = ui_SpeedLimit u, ul_DeviceLimit = ui_DeviceLimit u,
            ul_DynamicSpeedLimit = 0, ul_ExpireTime = 0, ul_OverLimit = False\<rparr>)"
proof (intro conjI impI)
  show "limiter_inv tag (UpdateUser tag added deleted l)" using assms(2) by (rule UpdateUser_inv)
  show "limiter_knows tag (UpdateUser tag added deleted l) uuid \<longleftrightarrow>
      uuid \<in> uuids added \<or> limiter_knows tag l uuid \<and> uuid \<notin> uuids deleted"
    by (auto simp: UpdateUser_def lt.knows_install lt.knows_remove)
  assume "u \<in> set added"
  from fold_storeUser_entry [OF this assms(1), of tag "fold (dropUser tag) deleted l"]
  show "map_of (li_UserLimitInfo (UpdateUser tag added deleted l)) (UserTag tag (ui_Uuid u)) =
      Some \<lparr>ul_UID = ui_Id u, ul_SpeedLimit = ui_SpeedLimit u, ul_DeviceLimit = ui_DeviceLimit u,
            ul_DynamicSpeedLimit = 0, ul_ExpireTime = 0, ul_OverLimit = False\<rparr>"
    by (simp add: UpdateUser_def limitOfUser_eq)
qed

definition demo_user :: UserInfo where
  "demo_user = \<lparr>ui_Id = 7, ui_Uuid = ''u7'', ui_SpeedLimit = 10, ui_DeviceLimit = 2\<rparr>"

definition demo_user2 :: UserInfo where
  "demo_user2 = \<lparr>ui_Id = 8, ui_Uuid = ''u8'', ui_SpeedLimit = 0, ui_DeviceLimit = 0\<rparr>"

definition demo_conf :: LimitConfig where
  "demo_conf = \<lparr>lc_EnableRealtime = False, lc_SpeedLimit = 20, lc_IPLimit = 0, lc_ConnLimit = 0,
     lc_EnableIpRecorder = False, lc_IpRecorderConfig = None, lc_EnableDynamicSpeedLimit = False,
     lc_DynamicSpeedLimitConfig = None\<rparr>"

definition demo_limiter :: "nat Limiter" where
  "demo_limiter = newLimiter ''t'' demo_conf [demo_user, demo_user2] [(7, 1)]"

theorem UpdateUser_tables_witness:
  "limiter_knows ''t'' (UpdateUser ''t'' [demo_user] [demo_user2] demo_limiter) ''u7'' \<and>
   \<not> limiter_knows ''t'' (UpdateUser ''t'' [demo_user] [demo_user2] demo_limiter) ''u8''"
proof -
  have inv: "limiter_inv ''t'' demo_limiter" by (simp add: demo_limiter_def newLimiter_inv)
  have d: "distinct (map ui_Uuid [demo_user])" by simp
  have "ui_Uuid demo_user = ''u7''" "ui_Uuid demo_user2 = ''u8''"
    by (simp_all add: demo_user_def demo_user2_def)
  with UpdateUser_tables [OF d inv, of "[demo_user2]" "''u7''" demo_user]
    UpdateUser_tables [OF d inv, of "[demo_user2]" "''u8''" demo_user]
  show ?thesis by (auto simp: demo_limiter_def newLimiter_knows)
qed

section \<open>Admission\<close>

lemma determineSpeedLimit_min:
  "0 \<le> a \<Longrightarrow> 0 \<le> b \<Longrightarrow>
   determineSpeedLimit a b = (if a = 0 then b else if b = 0 then a else min a b)"
  by (auto simp: determineSpeedLimit_def)

lemma speedBucket_frame [simp]:
  "li_UserOnlineIP (snd (speedBucket k n l)) = li_UserOnlineIP l"
  "li_UserLimitInfo (snd (speedBucket k n l)) = li_UserLimitInfo l"
  "li_OldUserOnline (snd (speedBucket k n l)) = li_OldUserOnline l"
  by (auto simp: speedBucket_def Let_def split: option.splits)

lemma storeLimit_frame [simp]:
  "li_UserOnlineIP (storeLimit k e l) = li_UserOnlineIP l" "li_OldUserOnline (storeLimit k e l) = li_OldUserOnline l"
  "li_AliveList (storeLimit k e l) = li_AliveList l" "li_SpeedLimiter (storeLimit k e l) = li_SpeedLimiter l"
  "li_SpeedLimit (storeLimit k e l) = li_SpeedLimit l"
  by (simp_all add: storeLimit_def)

lemma forgetOld_frame [simp]:
  "li_UserOnlineIP (forgetOld ip v uid l) = li_UserOnlineIP l"
  "li_UserLimitInfo (forgetOld ip v uid l) = li_UserLimitInfo l"
  "li_SpeedLimiter (forgetOld ip v uid l) = li_SpeedLimiter l"
  "li_SpeedLimit (forgetOld ip v uid l) = li_SpeedLimit l"
  by (simp_all add: forgetOld_def)

lemma trackIP_frame [simp]:
  "li_UserLimitInfo (snd (trackIP k ip uid d l)) = li_UserLimitInfo l"
  "li_SpeedLimiter (snd (trackIP k ip uid d l)) = li_SpeedLimiter l"
  "li_SpeedLimit (snd (trackIP k ip uid d l)) = li_SpeedLimit l"
  by (auto simp: trackIP_def Let_def split: option.splits)

text \<open>The addresses a user is online from.\<close>

definition online :: "'rx Limiter \<Rightarrow> string \<Rightarrow> string \<Rightarrow> bool" where
  "online l taguuid ip \<longleftrightarrow> (case map_of (li_UserOnlineIP l) taguuid of None \<Rightarrow> False | Some m \<Rightarrow> mhas m ip)"

definition over_limit :: "'rx Limiter \<Rightarrow> int \<Rightarrow> int \<Rightarrow> bool" where
  "over_limit l uid d \<longleftrightarrow> 0 < d \<and> d \<le> mget_or 0 (li_AliveList l) uid"

lemma trackIP_reject:
  "fst (trackIP k ip uid d l) \<longleftrightarrow>
     \<not> online l k ip \<and> \<not> mhas (li_OldUserOnline l) ip \<and> over_limit l uid d"
proof (cases "map_of (li_UserOnlineIP l) k")
  case None
  then show ?thesis
    by (cases "map_of (li_OldUserOnline l) ip") (simp_all add: trackIP_def Let_def online_def over_limit_def mhas_def)
next
  case (Some m)
  then show ?thesis
    by (cases "map_of m ip"; cases "map_of (li_OldUserOnline l) ip")
      (simp_all add: trackIP_def Let_def online_def over_limit_def mhas_def)
qed

lemma trackIP_online:
  "online (snd (trackIP k ip uid d l)) k' ip' \<longleftrightarrow>
     online l k' ip' \<or> \<not> fst (trackIP k ip uid d l) \<and> k' = k \<and> ip' = ip"
proof (cases "map_of (li_UserOnlineIP l) k")
  case None
  then show ?thesis
    by (cases "map_of (li_OldUserOnline l) ip"; cases "k' = k"; cases "ip' = ip")
      (simp_all add: trackIP_def Let_def online_def mhas_def)
next
  case (Some m)
  then show ?thesis
    by (cases "map_of m ip"; cases "map_of (li_OldUserOnline l) ip"; cases "k' = k"; cases "ip' = ip")
      (simp_all add: trackIP_def Let_def online_def mhas_def)
qed

lemma CheckLimit_cases:
  "CheckLimit now k ip tcp udp l =
    (case map_of (li_UserLimitInfo l) k of
       None \<Rightarrow> ((None, True), l)
     | Some u \<Rightarrow>
        (let l1 = storeLimit k (snd (userSpeed now u)) l;
             r = (if udp then trackIP k (TrimPrefix ip ''::ffff:'') (ul_UID u) (ul_DeviceLimit u) l1 else (False, l1))
         in if fst r then ((None, True), snd r)
            else ((fst (speedBucket k (fst (userSpeed now u)) (snd r)), False),
                  snd (speedBucket k (fst (userSpeed now u)) (snd r)))))"
  by (simp add: CheckLimit_def Let_def split_def split: option.split)

text \<open>C31: a connection is rejected exactly when its user is unknown, or when devices are counted, the
  address is neither among the user's current ones nor carried over from the last report, and the
  user already has as many devices online as it may have.\<close>

theorem CheckLimit_reject:
  "snd (fst (CheckLimit now k ip tcp noSSUDP l)) \<longleftrightarrow>
     (case map_of (li_UserLimitInfo l) k of
        None \<Rightarrow> True
      | Some u \<Rightarrow> noSSUDP \<and> \<not> online l k (TrimPrefix ip ''::ffff:'') \<and>
          \<not> mhas (li_OldUserOnline l) (TrimPrefix ip ''::ffff:'') \<and>
          0 < ul_DeviceLimit u \<and> ul_DeviceLimit u \<le> mget_or 0 (li_AliveList l) (ul_UID u))"
  by (auto simp: CheckLimit_cases Let_def trackIP_reject online_def over_limit_def split: option.splits)

text \<open>an admitted connection whose device is counted is recorded as online, a rejected one leaves no
  trace, and no check ever removes an address or records another one.\<close>

theorem CheckLimit_online:
  "online (snd (CheckLimit now k ip tcp noSSUDP l)) k' ip' \<longleftrightarrow>
     online l k' ip' \<or>
     noSSUDP \<and> \<not> snd (fst (CheckLimit now k ip tcp noSSUDP l)) \<and> k' = k \<and> ip' = TrimPrefix ip ''::ffff:''"
proof (cases "map_of (li_UserLimitInfo l) k")
  case (Some u)
  let ?l1 = "storeLimit k (snd (userSpeed now u)) l"
  have "online ?l1 k' ip' = online l k' ip'" by (simp add: online_def)
  moreover have "online (snd (speedBucket a n m)) k' ip' = online m k' ip'" for a n and m :: "'a Limiter"
    by (simp add: online_def)
  ultimately show ?thesis
    using trackIP_online [of k "TrimPrefix ip ''::ffff:''" "ul_UID u" "ul_DeviceLimit u" ?l1 k' ip'] Some
    by (auto simp: CheckLimit_cases Let_def)
qed (simp add: CheckLimit_cases)

text \<open>The speed handed to an admitted connection with no bucket yet is the smaller of the limits that
  are set, in bytes per second, and exact as long as the product stays within 64 bits; with no limit
  set there is no bucket.\<close>

theorem CheckLimit_speed:
  assumes "map_of (li_UserLimitInfo l) k = Some u" and "ul_ExpireTime u = 0"
    and "map_of (li_SpeedLimiter l) k = None" and "\<not> snd (fst (CheckLimit now k ip tcp noSSUDP l))"
    and "0 \<le> li_SpeedLimit l" and "0 \<le> ul_SpeedLimit u" and "0 \<le> ul_DynamicSpeedLimit u"
    and "li_SpeedLimit l < 2 ^ 43" and "ul_SpeedLimit u < 2 ^ 43" and "ul_DynamicSpeedLimit u < 2 ^ 43"
  shows "fst (fst (CheckLimit now k ip tcp noSSUDP l)) =
     (let limits = filter (\<lambda>n. 0 < n) [li_SpeedLimit l, ul_SpeedLimit u, ul_DynamicSpeedLimit u]
      in if limits = [] then None
         else Some (NewBucketWithQuantum 1000000000 (125000 * Min (set limits)) (125000 * Min (set limits))))"
proof -
  let ?n = "determineSpeedLimit (li_SpeedLimit l) (determineSpeedLimit (ul_SpeedLimit u) (ul_DynamicSpeedLimit u))"
  have n: "0 \<le> ?n" "?n < 2 ^ 43" using assms(5-) by (auto simp: determineSpeedLimit_def)
  then have bps: "bytesPerSecond ?n = 125000 * ?n"
    by (auto simp: bytesPerSecond_def quot64_def mul64_def w64_id sgn_if)
  have "fst (fst (CheckLimit now k ip tcp noSSUDP l)) =
      (if 0 < ?n then Some (NewBucketWithQuantum 1000000000 (125000 * ?n) (125000 * ?n)) else None)"
    using assms(1-4) bps n
    by (auto simp: CheckLimit_cases Let_def userSpeed_def speedBucket_def split: if_splits)
  then show ?thesis using assms(5-7) by (auto simp: determineSpeedLimit_def Let_def)
qed


theorem CheckLimit_speed_witness:
  "fst (fst (CheckLimit 0 ''t|u7'' ''1.2.3.4'' True True demo_limiter)) =
     Some (NewBucketWithQuantum 1000000000 1250000 1250000)"
proof -
  have 1: "map_of (li_UserLimitInfo demo_limiter) ''t|u7'' = Some (limitOfUser demo_user)"
    and 2: "ul_ExpireTime (limitOfUser demo_user) = 0"
    and 3: "map_of (li_SpeedLimiter demo_limiter) ''t|u7'' = None"
    and 4: "\<not> snd (fst (CheckLimit 0 ''t|u7'' ''1.2.3.4'' True True demo_limiter))"
    and 5: "li_SpeedLimit demo_limiter = 20"
    by code_simp+
  have 6: "ui_SpeedLimit demo_user = 10" by (simp add: demo_user_def)
  show ?thesis using CheckLimit_speed [OF 1 2 3 4] by (simp add: 5 6 Let_def)
qed

section \<open>Dynamic limits\<close>

lemma CheckLimit_admitted:
  fixes l :: "'rx Limiter"
  assumes "map_of (li_UserLimitInfo l) k = Some u" and "\<not> snd (fst (CheckLimit now k ip tcp udp l))"
  obtains m :: "'rx Limiter" where "li_SpeedLimiter m = li_SpeedLimiter l" and "li_SpeedLimit m = li_SpeedLimit l"
    and "fst (fst (CheckLimit now k ip tcp udp l)) = fst (speedBucket k (fst (userSpeed now u)) m)"
proof -
  define m where "m = (if udp then snd (trackIP k (TrimPrefix ip ''::ffff:'') (ul_UID u) (ul_DeviceLimit u)
      (storeLimit k (snd (userSpeed now u)) l)) else storeLimit k (snd (userSpeed now u)) l)"
  show thesis
    by (rule that [of m]) (use assms in \<open>auto simp: m_def CheckLimit_cases Let_def split: if_splits\<close>)
qed

lemma CheckLimit_unknown: "\<not> mhas (li_UserLimitInfo l) k \<Longrightarrow> snd (fst (CheckLimit now k ip tcp udp l))"
  by (simp add: CheckLimit_cases mhas_def)

text \<open>When the dynamic limit of a user with no limit of its own has expired, the next check removes
  the user's entry, and every later check rejects the user although the panel still lists it.\<close>

theorem CheckLimit_expiry_locks_out:
  assumes "map_of (li_UserLimitInfo l) k = Some u" and "ul_SpeedLimit u = 0"
    and "ul_ExpireTime u \<noteq> 0" and "ul_ExpireTime u < Unix now"
  shows "snd (fst (CheckLimit now' k ip' tcp' udp' (snd (CheckLimit now k ip tcp udp l))))"
proof (rule CheckLimit_unknown)
  have "userSpeed now u = (0, None)" using assms by (simp add: userSpeed_def)
  then show "\<not> mhas (li_UserLimitInfo (snd (CheckLimit now k ip tcp udp l))) k"
    using assms(1) by (auto simp: CheckLimit_cases Let_def storeLimit_def)
qed

theorem CheckLimit_expiry_locks_out_witness:
  "let l = snd (UpdateDynamicSpeedLimit ''t'' ''u8'' 5 1000000000 demo_limiter)
   in \<not> snd (fst (CheckLimit 2000000000 ''t|u8'' ''1.2.3.4'' True True l)) \<and>
      snd (fst (CheckLimit 3000000000 ''t|u8'' ''1.2.3.4'' True True
        (snd (CheckLimit 2000000000 ''t|u8'' ''1.2.3.4'' True True l))))"
proof -
  let ?l = "snd (UpdateDynamicSpeedLimit ''t'' ''u8'' 5 1000000000 demo_limiter)"
  let ?u = "(limitOfUser demo_user2)\<lparr>ul_DynamicSpeedLimit := 5, ul_ExpireTime := 1\<rparr>"
  have 1: "map_of (li_UserLimitInfo ?l) ''t|u8'' = Some ?u"
    and 2: "ul_SpeedLimit ?u = 0" and 3: "ul_ExpireTime ?u \<noteq> 0"
    and 4: "ul_ExpireTime ?u < Unix 2000000000"
    and 5: "\<not> snd (fst (CheckLimit 2000000000 ''t|u8'' ''1.2.3.4'' True True ?l))"
    by code_simp+
  show ?thesis using CheckLimit_expiry_locks_out [OF 1 2 3 4] 5 by (simp add: Let_def)
qed

text \<open>a user that already has a bucket keeps it: lowering its dynamic limit changes neither the
  bucket of its open connections nor the one later connections get.\<close>

theorem dynamic_limit_keeps_bucket:
  assumes "map_of (li_UserLimitInfo l) (UserTag tag uuid) = Some u"
    and "map_of (li_SpeedLimiter l) (UserTag tag uuid) = Some b"
    and "l' = snd (UpdateDynamicSpeedLimit tag uuid n expire l)" and "0 < n" and "n < 2 ^ 43"
    and "0 \<le> ul_SpeedLimit u" and "ul_SpeedLimit u < 2 ^ 43"
    and "0 \<le> li_SpeedLimit l" and "li_SpeedLimit l < 2 ^ 43"
    and "Unix now \<le> Unix expire"
    and "\<not> snd (fst (CheckLimit now (UserTag tag uuid) ip tcp noSSUDP l'))"
  shows "fst (fst (CheckLimit now (UserTag tag uuid) ip tcp noSSUDP l')) = Some b"
proof -
  let ?k = "UserTag tag uuid"
  let ?u = "u\<lparr>ul_DynamicSpeedLimit := n, ul_ExpireTime := Unix expire\<rparr>"
  let ?d = "determineSpeedLimit (li_SpeedLimit l) (determineSpeedLimit (ul_SpeedLimit u) n)"
  have l': "map_of (li_UserLimitInfo l') ?k = Some ?u" "map_of (li_SpeedLimiter l') ?k = Some b"
    "li_SpeedLimit l' = li_SpeedLimit l"
    using assms(1-3) by (simp_all add: UpdateDynamicSpeedLimit_def)
  have d: "0 < ?d" "?d < 2 ^ 43" using assms(4-9) by (auto simp: determineSpeedLimit_def)
  then have "0 < bytesPerSecond ?d"
    by (auto simp: bytesPerSecond_def quot64_def mul64_def w64_id sgn_if)
  moreover have "fst (userSpeed now ?u) = determineSpeedLimit (ul_SpeedLimit u) n"
    using assms(10) by (simp add: userSpeed_def)
  moreover obtain m :: "'a Limiter" where "li_SpeedLimiter m = li_SpeedLimiter l'" "li_SpeedLimit m = li_SpeedLimit l'"
    "fst (fst (CheckLimit now ?k ip tcp noSSUDP l')) = fst (speedBucket ?k (fst (userSpeed now ?u)) m)"
    using CheckLimit_admitted [OF l'(1) assms(11)] .
  ultimately show ?thesis using l' by (simp add: speedBucket_def Let_def)
qed

theorem dynamic_limit_keeps_bucket_witness:
  "let l = snd (CheckLimit 0 ''t|u7'' ''1.2.3.4'' True True demo_limiter);
       l' = snd (UpdateDynamicSpeedLimit ''t'' ''u7'' 1 60000000000 l)
   in fst (fst (CheckLimit 0 (UserTag ''t'' ''u7'') ''1.2.3.4'' True True l')) =
      Some (NewBucketWithQuantum 1000000000 1250000 1250000)"
proof -
  let ?l = "snd (CheckLimit 0 ''t|u7'' ''1.2.3.4'' True True demo_limiter)"
  have 1: "map_of (li_UserLimitInfo ?l) (UserTag ''t'' ''u7'') = Some (limitOfUser demo_user)"
    and 2: "map_of (li_SpeedLimiter ?l) (UserTag ''t'' ''u7'') = Some (NewBucketWithQuantum 1000000000 1250000 1250000)"
    and 3: "\<not> snd (fst (CheckLimit 0 (UserTag ''t'' ''u7'') ''1.2.3.4'' True True
        (snd (UpdateDynamicSpeedLimit ''t'' ''u7'' 1 60000000000 ?l))))"
    and 4: "li_SpeedLimit ?l = 20" and 5: "Unix 0 \<le> Unix 60000000000"
    by code_simp+
  have 6: "ui_SpeedLimit demo_user = 10" by (simp add: demo_user_def)
  show ?thesis
    using dynamic_limit_keeps_bucket [OF 1 2 refl _ _ _ _ _ _ 5 3] by (simp add: 4 6 Let_def)
qed

section \<open>Online devices\<close>

lemma set_mdel: "set (mdel k m) = {p \<in> set m. fst p \<noteq> k}"
  by (induction m) auto

lemma set_fold_mdel: "set (fold mdel ks m) = {p \<in> set m. fst p \<notin> set ks}"
  by (induction ks arbitrary: m) (auto simp: set_mdel)

lemma fold_mdel_all: "fold mdel (map fst m) m = []"
proof -
  have "set (fold mdel (map fst m) m) = {}" unfolding set_fold_mdel by auto
  then show ?thesis by simp
qed

lemma mhas_fold_mput:
  "mhas (fold (\<lambda>(k, v). mput k v) ps m) j \<longleftrightarrow> j \<in> fst ` set ps \<or> mhas m j"
  by (induction ps arbitrary: m) auto

text \<open>The device report lists exactly the recorded pairs of address and user, clears the record,
  and carries over exactly the reported addresses, so that a user already at its limit can keep
  using an address of the last period.\<close>

theorem GetOnlineDevice_report:
  "set (fst (GetOnlineDevice l)) =
     {\<lparr>ou_UID = uid, ou_IP = ip\<rparr> | k m ip uid. (k, m) \<in> set (li_UserOnlineIP l) \<and> (ip, uid) \<in> set m} \<and>
   \<not> online (snd (GetOnlineDevice l)) k ip \<and>
   (mhas (li_OldUserOnline (snd (GetOnlineDevice l))) ip \<longleftrightarrow> ip \<in> ou_IP ` set (fst (GetOnlineDevice l))) \<and>
   (snd (fst (CheckLimit now k ip' tcp True (snd (GetOnlineDevice l)))) \<longleftrightarrow>
     (case map_of (li_UserLimitInfo l) k of
        None \<Rightarrow> True
      | Some u \<Rightarrow> TrimPrefix ip' ''::ffff:'' \<notin> ou_IP ` set (fst (GetOnlineDevice l)) \<and>
          0 < ul_DeviceLimit u \<and> ul_DeviceLimit u \<le> mget_or 0 (li_AliveList l) (ul_UID u)))"
proof -
  let ?ps = "concat (map snd (li_UserOnlineIP l))"
  have off: "\<not> online (snd (GetOnlineDevice l)) j i" for j i
    by (simp add: GetOnlineDevice_def Let_def online_def fold_mdel_all)
  have old: "mhas (li_OldUserOnline (snd (GetOnlineDevice l))) i \<longleftrightarrow> i \<in> ou_IP ` set (fst (GetOnlineDevice l))" for i
    by (force simp: GetOnlineDevice_def Let_def mhas_fold_mput image_iff)
  have "set (fst (GetOnlineDevice l)) =
      {\<lparr>ou_UID = uid, ou_IP = ip\<rparr> | k m ip uid. (k, m) \<in> set (li_UserOnlineIP l) \<and> (ip, uid) \<in> set m}"
    by (force simp: GetOnlineDevice_def Let_def)
  moreover have "li_UserLimitInfo (snd (GetOnlineDevice l)) = li_UserLimitInfo l"
    "li_AliveList (snd (GetOnlineDevice l)) = li_AliveList l"
    by (simp_all add: GetOnlineDevice_def Let_def)
  ultimately show ?thesis
    using off old by (auto simp: CheckLimit_reject split: option.splits)
qed

section \<open>Rules\<close>

lemma compileRules_None: "compileRules compile ss = None \<longleftrightarrow> (\<exists>s \<in> set ss. compile s = None)"
  by (induction ss) (auto split: option.splits)

lemma compileRules_Some:
  "compileRules compile ss = Some rs \<Longrightarrow> set rs = {r. \<exists>s \<in> set ss. compile s = Some r}"
  by (induction ss arbitrary: rs) (auto split: option.splits)

lemma CheckDomainRules_ex: "CheckDomainRules matches rs d \<longleftrightarrow> (\<exists>r \<in> set rs. matches r d)"
  by (induction rs) auto

lemma CheckProtocolRules_mem: "CheckProtocolRules rs p \<longleftrightarrow> p \<in> set rs"
  by (induction rs) auto

text \<open>New rules are installed all together or not at all: with an expression that does not compile
  the limiter is unchanged, otherwise exactly the destinations an expression matches and exactly
  the listed protocols are blocked.\<close>

theorem UpdateRule_atomic:
  "case UpdateRule compile rule l of (e, l') \<Rightarrow>
     if \<exists>s \<in> set (ru_Regexp rule). compile s = None
     then e = Some ''invalid domain rule expression'' \<and> l' = l
     else e = None \<and>
       (CheckDomainRule matches l' d \<longleftrightarrow>
         (\<exists>s \<in> set (ru_Regexp rule). \<exists>r. compile s = Some r \<and> matches r d)) \<and>
       (CheckProtocolRule l' p \<longleftrightarrow> p \<in> set (ru_Protocol rule))"
proof (cases "compileRules compile (ru_Regexp rule)")
  case None
  then have "\<exists>s \<in> set (ru_Regexp rule). compile s = None" by (simp only: compileRules_None)
  with None show ?thesis by (simp add: UpdateRule_def)
next
  case (Some rs)
  then have "\<not> (\<exists>s \<in> set (ru_Regexp rule). compile s = None)"
    using compileRules_None [of compile "ru_Regexp rule"] by auto
  with Some compileRules_Some [OF Some] show ?thesis
    by (auto simp: UpdateRule_def CheckDomainRule_def CheckProtocolRule_def CheckDomainRules_ex
        CheckProtocolRules_mem)
qed

end
