(* ===== verification/Controller_Props.thy ===== *)
theory Controller_Props
  imports Controller_Tasks Limiter_Props
begin

text \<open>
  What the controller's periodic work guarantees: the comparison of user lists, the conservation of
  traffic, and that the core, the limiter and the controller's own record stay in step.
\<close>

section \<open>The comparison of user lists\<close>

lemma mput_absent: "\<not> mhas m k \<Longrightarrow> mput k v m = m @ [(k, v)]"
  by (induction m) (auto simp: mhas_def split: if_splits)

lemma index_users_eq:
  "distinct (map fst m @ map user_key us) \<Longrightarrow>
   index_users j us m = m @ zip (map user_key us) [j..<j + length us]"
proof (induction us arbitrary: j m)
  case (Cons u us)
  then have "\<not> mhas m (user_key u)" by (auto simp: mhas_set)
  then have p: "mput (user_key u) j m = m @ [(user_key u, j)]" by (rule mput_absent)
  have "distinct (map fst (m @ [(user_key u, j)]) @ map user_key us)" using Cons.prems by auto
  from Cons.IH [OF this, of "j + 1"] show ?case by (simp add: p upt_conv_Cons del: upt_Suc)
qed simp

lemma mdel_absent: "\<not> mhas m k \<Longrightarrow> mdel k m = m"
  by (induction m) (auto simp: mhas_def split: if_splits)

lemma fold_mdel_filter: "fold mdel ks m = filter (\<lambda>p. fst p \<notin> set ks) m"
proof (induction ks arbitrary: m)
  case (Cons k ks)
  have "mdel k m = filter (\<lambda>p. fst p \<noteq> k) m" by (induction m) auto
  with Cons show ?case by (simp add: conj_commute)
qed simp

lemma scan_new_eq:
  "distinct (map user_key us) \<Longrightarrow>
   scan_new us m added = (added @ filter (\<lambda>u. \<not> mhas m (user_key u)) us, fold mdel (map user_key us) m)"
proof (induction us arbitrary: m added)
  case (Cons u us)
  have f: "filter (\<lambda>v. \<not> mhas (mdel (user_key u) m) (user_key v)) us = filter (\<lambda>v. \<not> mhas m (user_key v)) us"
  proof (rule filter_cong)
    fix v assume "v \<in> set us"
    then have "user_key v \<noteq> user_key u" using Cons.prems by (metis distinct.simps(2) image_eqI image_set list.map(2))
    then show "(\<not> mhas (mdel (user_key u) m) (user_key v)) = (\<not> mhas m (user_key v))" by simp
  qed simp
  show ?case
    using Cons.prems Cons.IH [of "mdel (user_key u) m" added] Cons.IH [of m "added @ [u]"] f
    by (simp add: mdel_absent)
qed simp

lemma map_filter_index:
  "map (\<lambda>(k, i). xs ! i) (filter (\<lambda>p. P (fst p)) (zip (map f xs) [0..<length xs])) = filter (\<lambda>x. P (f x)) xs"
proof -
  have z: "zip (map f xs) [0..<length xs] = map (\<lambda>i. (f (xs ! i), i)) [0..<length xs]"
    by (rule nth_equalityI) auto
  have "map (\<lambda>(k, i). xs ! i) (filter (\<lambda>p. P (fst p)) (zip (map f xs) [0..<length xs])) =
      map (\<lambda>i. xs ! i) (filter (\<lambda>i. P (f (xs ! i))) [0..<length xs])"
    unfolding z by (simp add: filter_map o_def)
  also have "\<dots> = filter (\<lambda>x. P (f x)) (map (\<lambda>i. xs ! i) [0..<length xs])"
    by (simp add: filter_map o_def)
  finally show ?thesis by (simp add: map_nth)
qed

lemma compare_eq:
  assumes "distinct (map user_key old)" and "distinct (map user_key new)"
  shows "compareUserList old new =
    (filter (\<lambda>u. user_key u \<notin> user_key ` set new) old, filter (\<lambda>u. user_key u \<notin> user_key ` set old) new)"
proof -
  have i: "index_users 0 old [] = zip (map user_key old) [0..<length old]"
    using index_users_eq [of "[]" old 0] assms(1) by simp
  have "mhas (zip (map user_key old) [0..<length old]) k \<longleftrightarrow> k \<in> user_key ` set old" for k
  proof -
    have "map fst (zip (map user_key old) [0..<length old]) = map user_key old" by simp
    then have "fst ` set (zip (map user_key old) [0..<length old]) = user_key ` set old" by (metis image_set)
    then show ?thesis by (simp add: mhas_set)
  qed
  then show ?thesis
    using map_filter_index [of old "\<lambda>k. k \<notin> user_key ` set new" user_key]
    by (simp add: compareUserList_def i scan_new_eq [OF assms(2)] fold_mdel_filter)
qed

text \<open>User lists as the panel sends them: unique identifiers of one length.\<close>

definition proper :: "nat \<Rightarrow> UserInfo list \<Rightarrow> bool" where
  "proper n us \<longleftrightarrow> distinct (map ui_Uuid us) \<and> list_all (\<lambda>u. length (ui_Uuid u) = n) us"

lemma user_key_inj:
  "length (ui_Uuid u) = length (ui_Uuid v) \<Longrightarrow>
   user_key u = user_key v \<longleftrightarrow> ui_Uuid u = ui_Uuid v \<and> ui_SpeedLimit u = ui_SpeedLimit v"
  by (auto simp: user_key_def dest: Itoa_inj)

lemma proper_keys: "proper n us \<Longrightarrow> distinct (map user_key us)"
proof -
  assume p: "proper n us"
  have "inj_on user_key (set us)"
  proof (rule inj_onI)
    fix u v assume uv: "u \<in> set us" "v \<in> set us" "user_key u = user_key v"
    with p have "ui_Uuid u = ui_Uuid v" by (auto simp: proper_def list_all_iff user_key_inj)
    with p uv show "u = v" by (auto simp: proper_def distinct_map dest: inj_onD)
  qed
  with p show ?thesis by (auto simp: proper_def distinct_map)
qed

lemma compare_diff:
  assumes "proper n old" and "proper n new" and "compareUserList old new = (deleted, added)"
  shows "is_diff old new deleted added \<and>
    set deleted = {u \<in> set old. \<not> (\<exists>v \<in> set new. ui_Uuid v = ui_Uuid u \<and> ui_SpeedLimit v = ui_SpeedLimit u)} \<and>
    set added = {v \<in> set new. \<not> (\<exists>u \<in> set old. ui_Uuid u = ui_Uuid v \<and> ui_SpeedLimit u = ui_SpeedLimit v)}"
proof -
  have key: "user_key u = user_key v \<longleftrightarrow> ui_Uuid u = ui_Uuid v \<and> ui_SpeedLimit u = ui_SpeedLimit v"
    if "u \<in> set old \<union> set new" "v \<in> set old \<union> set new" for u v
    using that assms(1,2) by (intro user_key_inj) (auto simp: proper_def list_all_iff)
  have eq: "deleted = filter (\<lambda>u. user_key u \<notin> user_key ` set new) old"
    "added = filter (\<lambda>u. user_key u \<notin> user_key ` set old) new"
    using compare_eq [OF proper_keys [OF assms(1)] proper_keys [OF assms(2)]] assms(3) by auto
  have d: "set deleted = {u \<in> set old. \<not> (\<exists>v \<in> set new. ui_Uuid v = ui_Uuid u \<and> ui_SpeedLimit v = ui_SpeedLimit u)}"
    unfolding eq using key by (auto simp: image_iff)
  have a: "set added = {v \<in> set new. \<not> (\<exists>u \<in> set old. ui_Uuid u = ui_Uuid v \<and> ui_SpeedLimit u = ui_SpeedLimit v)}"
    unfolding eq using key by (auto simp: image_iff)
  have one: "ui_Uuid u = ui_Uuid v \<Longrightarrow> u = v" if "u \<in> set old" "v \<in> set old" for u v
    using assms(1) that by (auto simp: proper_def distinct_map dest: inj_onD)
  have "uuids new = uuids old - uuids deleted \<union> uuids added"
    unfolding uuids_def d a using one by (auto simp: image_iff) metis+
  with d a show ?thesis by (simp add: is_diff_def)
qed

lemma compareUserList_is_diff:
  "proper n old \<Longrightarrow> proper n new \<Longrightarrow> compareUserList old new = (deleted, added) \<Longrightarrow> is_diff old new deleted added"
  by (drule (2) compare_diff) simp

text \<open>The controller's comparison finds the difference of two user lists: applying it turns the
  users of the old list into those of the new one, and a user is touched only if it is new, gone, or
  has another speed limit.\<close>

theorem compareUserList_diff:
  assumes "proper n old" and "proper n new" and "compareUserList old new = (deleted, added)"
  shows "is_diff old new deleted added \<and>
    set deleted = {u \<in> set old. \<not> (\<exists>v \<in> set new. ui_Uuid v = ui_Uuid u \<and> ui_SpeedLimit v = ui_SpeedLimit u)} \<and>
    set added = {v \<in> set new. \<not> (\<exists>u \<in> set old. ui_Uuid u = ui_Uuid v \<and> ui_SpeedLimit u = ui_SpeedLimit v)}"
  by (rule compare_diff [OF assms])

definition demo_old :: "UserInfo list" where
  "demo_old = [\<lparr>ui_Id = 1, ui_Uuid = ''a'', ui_SpeedLimit = 0, ui_DeviceLimit = 0\<rparr>,
     \<lparr>ui_Id = 2, ui_Uuid = ''b'', ui_SpeedLimit = 0, ui_DeviceLimit = 0\<rparr>]"

definition demo_new :: "UserInfo list" where
  "demo_new = [\<lparr>ui_Id = 2, ui_Uuid = ''b'', ui_SpeedLimit = 5, ui_DeviceLimit = 0\<rparr>,
     \<lparr>ui_Id = 3, ui_Uuid = ''c'', ui_SpeedLimit = 0, ui_DeviceLimit = 2\<rparr>]"

lemma demo_proper: "proper 1 demo_old" "proper 1 demo_new"
  by (simp_all add: proper_def demo_old_def demo_new_def)

theorem compareUserList_diff_witness:
  "is_diff demo_old demo_new (fst (compareUserList demo_old demo_new)) (snd (compareUserList demo_old demo_new))"
  using compareUserList_diff [OF demo_proper, of "fst (compareUserList demo_old demo_new)" "snd (compareUserList demo_old demo_new)"]
  by simp

text \<open>a change of nothing but device limits is not a change: the comparison finds no user to
  replace, so a new device limit of a known user never reaches the limiter.\<close>

theorem compare_ignores_device_limit:
  assumes "proper n old"
  shows "compareUserList old (map (\<lambda>u. u\<lparr>ui_DeviceLimit := d\<rparr>) old) = ([], [])"
proof -
  have k: "user_key (u\<lparr>ui_DeviceLimit := d\<rparr>) = user_key u" for u by (simp add: user_key_def)
  have m: "map user_key (map (\<lambda>u. u\<lparr>ui_DeviceLimit := d\<rparr>) old) = map user_key old" by (simp add: k)
  have "distinct (map user_key (map (\<lambda>u. u\<lparr>ui_DeviceLimit := d\<rparr>) old))"
    unfolding m by (rule proper_keys [OF assms])
  from compare_eq [OF proper_keys [OF assms] this] show ?thesis
    by (auto simp: k image_image intro!: filter_False)
qed

theorem compare_ignores_device_limit_witness:
  "compareUserList demo_old (map (\<lambda>u. u\<lparr>ui_DeviceLimit := 7\<rparr>) demo_old) = ([], [])"
  by (rule compare_ignores_device_limit [OF demo_proper(1)])

section \<open>Conservation of traffic\<close>

definition up_of :: "int \<Rightarrow> UserTraffic list \<Rightarrow> int" where
  "up_of uid ts = w64 (sum_list (map ut_Upload (filter (\<lambda>t. ut_UID t = uid) ts)))"

definition down_of :: "int \<Rightarrow> UserTraffic list \<Rightarrow> int" where
  "down_of uid ts = w64 (sum_list (map ut_Download (filter (\<lambda>t. ut_UID t = uid) ts)))"

definition no_traffic :: UserTraffic where
  "no_traffic = \<lparr>ut_UID = 0, ut_Upload = 0, ut_Download = 0\<rparr>"

lemma merge_item_get:
  "mget_or no_traffic (merge_item t m) uid =
   (if uid = ut_UID t then \<lparr>ut_UID = uid, ut_Upload = add64 (ut_Upload (mget_or no_traffic m uid)) (ut_Upload t),
      ut_Download = add64 (ut_Download (mget_or no_traffic m uid)) (ut_Download t)\<rparr>
    else mget_or no_traffic m uid)"
  by (simp add: merge_item_def no_traffic_def [symmetric] Let_def)

lemma merge_fold_sums:
  "w64 (ut_Upload (mget_or no_traffic (fold merge_item ts m) uid)) =
     w64 (ut_Upload (mget_or no_traffic m uid) + sum_list (map ut_Upload (filter (\<lambda>t. ut_UID t = uid) ts))) \<and>
   w64 (ut_Download (mget_or no_traffic (fold merge_item ts m) uid)) =
     w64 (ut_Download (mget_or no_traffic m uid) + sum_list (map ut_Download (filter (\<lambda>t. ut_UID t = uid) ts)))"
proof (induction ts arbitrary: m)
  case (Cons t ts)
  show ?case using Cons.IH [of "merge_item t m"]
    by (auto simp: merge_item_get add64_def w64_add_absorb add.assoc)
qed simp

definition keyed :: "(int, UserTraffic) gomap \<Rightarrow> bool" where
  "keyed m \<longleftrightarrow> mwf m \<and> list_all (\<lambda>(k, v). ut_UID v = k) m"

lemma list_all_mput: "list_all P m \<Longrightarrow> P (k, v) \<Longrightarrow> list_all P (mput k v m)"
  by (induction m) auto

lemma keyed_fold: "keyed m \<Longrightarrow> keyed (fold merge_item ts m)"
proof (induction ts arbitrary: m)
  case (Cons t ts)
  have "keyed (merge_item t m)"
    using Cons.prems by (auto simp: keyed_def merge_item_def Let_def intro!: list_all_mput)
  with Cons.IH show ?case by simp
qed simp

lemma keyed_values:
  assumes "keyed m"
  shows "distinct (map ut_UID (map snd m))"
    and "sum_list (map ut_Upload (filter (\<lambda>t. ut_UID t = uid) (map snd m))) = ut_Upload (mget_or no_traffic m uid)"
    and "sum_list (map ut_Download (filter (\<lambda>t. ut_UID t = uid) (map snd m))) = ut_Download (mget_or no_traffic m uid)"
proof -
  have u: "map ut_UID (map snd m) = map fst m"
    using assms by (auto simp: keyed_def list_all_iff)
  show "distinct (map ut_UID (map snd m))" unfolding u using assms by (simp add: keyed_def mwf_def)
  have "keyed m \<Longrightarrow>
     filter (\<lambda>t. ut_UID t = uid) (map snd m) = (case map_of m uid of None \<Rightarrow> [] | Some v \<Rightarrow> [v])"
  proof (induction m)
    case (Cons p m)
    obtain k v where p: "p = (k, v)" by (cases p)
    from Cons.prems p have k: "keyed m" "ut_UID v = k" "k \<notin> fst ` set m" by (auto simp: keyed_def mwf_def)
    have "k = uid \<Longrightarrow> map_of m uid = None" using k(3) by (simp add: map_of_eq_None_iff)
    with Cons.IH [OF k(1)] k p show ?case by auto
  qed simp
  from this [OF assms]
  show "sum_list (map ut_Upload (filter (\<lambda>t. ut_UID t = uid) (map snd m))) = ut_Upload (mget_or no_traffic m uid)"
    "sum_list (map ut_Download (filter (\<lambda>t. ut_UID t = uid) (map snd m))) = ut_Download (mget_or no_traffic m uid)"
    by (auto simp: mget_or_def no_traffic_def split: option.split)
qed

lemma mergeUserTraffic_sums:
  "distinct (map ut_UID (mergeUserTraffic p n)) \<and>
   up_of uid (mergeUserTraffic p n) = up_of uid (p @ n) \<and> down_of uid (mergeUserTraffic p n) = down_of uid (p @ n)"
proof -
  have k: "keyed (fold merge_item (p @ n) [])" by (rule keyed_fold) (simp add: keyed_def)
  show ?thesis
    using keyed_values(1) [OF k] keyed_values(2,3) [OF k, of uid] merge_fold_sums [where ts = "p @ n" and m = "[]" and uid = uid]
    by (simp add: mergeUserTraffic_def up_of_def down_of_def no_traffic_def)
qed

text \<open>C9: flushing loses and invents no traffic: what the core hands over, with what was still pending,
  is either reported to the panel, one entry per user with the same totals, and then no longer
  pending, or stays pending with the same totals when the report fails.\<close>

theorem flush_conserves:
  assumes "c_GetUserTrafficSlice (en_core E) (ct_tag c) True (ct_server c) = (Inr slice, s)"
  shows "case flushUserTraffic E post c of
      (Inr ts, c') \<Rightarrow> ct_pendingTraffic c' = [] \<and> (ts = [] \<or> ReportUserTraffic post (ct_apiClient c) ts = None) \<and>
        distinct (map ut_UID ts) \<and>
        (\<forall>uid. up_of uid ts = up_of uid (ct_pendingTraffic c @ slice) \<and> down_of uid ts = down_of uid (ct_pendingTraffic c @ slice))
    | (Inl e, c') \<Rightarrow>
        (\<forall>uid. up_of uid (ct_pendingTraffic c') = up_of uid (ct_pendingTraffic c @ slice) \<and>
               down_of uid (ct_pendingTraffic c') = down_of uid (ct_pendingTraffic c @ slice))"
proof -
  let ?m = "mergeUserTraffic (ct_pendingTraffic c) slice"
  note m = mergeUserTraffic_sums [of "ct_pendingTraffic c" slice]
  show ?thesis
  proof (cases "?m = []")
    case True
    with m have "up_of uid [] = up_of uid (ct_pendingTraffic c @ slice) \<and>
        down_of uid [] = down_of uid (ct_pendingTraffic c @ slice)" for uid by metis
    with assms True show ?thesis by (simp add: flushUserTraffic_def)
  next
    case False
    then show ?thesis using assms m
      by (simp add: flushUserTraffic_def Let_def split: option.split)
  qed
qed

end
