(* ===== verification/Controller_Steps.thy ===== *)
theory Controller_Steps
  imports Controller_Props Core_Reference
begin

text \<open>
  The controller against the contract of its core: replacing a VLESS node installs the candidate or
  puts the old node back, and an update of the users leaves core, limiter and record in step.
\<close>

section \<open>Steps that change the core's state only\<close>

definition only_server :: "('s, 'rx, 'w) Controller \<Rightarrow> ('s, 'rx, 'w) Controller \<Rightarrow> bool" where
  "only_server c c' \<longleftrightarrow> (\<exists>s. c' = c\<lparr>ct_server := s\<rparr>)"

lemma only_server_refl [simp]: "only_server c c"
  unfolding only_server_def by (rule exI [of _ "ct_server c"]) simp

lemma only_server_update [simp]: "only_server c (c\<lparr>ct_server := s\<rparr>)"
  unfolding only_server_def by blast

lemma only_server_trans: "only_server a b \<Longrightarrow> only_server b c \<Longrightarrow> only_server a c"
  by (auto simp: only_server_def)

lemma only_server_fields:
  assumes "only_server c c'"
  shows "ct_limiters c' = ct_limiters c" "ct_tag c' = ct_tag c" "ct_limiter c' = ct_limiter c"
    "ct_userList c' = ct_userList c" "ct_info c' = ct_info c" "ct_Options c' = ct_Options c"
    "ct_apiClient c' = ct_apiClient c" "ct_pendingTraffic c' = ct_pendingTraffic c" "ct_aliveMap c' = ct_aliveMap c"
  using assms by (auto simp: only_server_def)

text \<open>What a controller's tag serves, and that nothing else changed.\<close>

definition serves ::
  "('s \<Rightarrow> string \<Rightarrow> 'cfg option) \<Rightarrow> ('s \<Rightarrow> string \<Rightarrow> string set) \<Rightarrow> (string \<Rightarrow> NodeInfo \<Rightarrow> Options \<Rightarrow> 'cfg)
     \<Rightarrow> ('s, 'rx, 'w) Controller \<Rightarrow> NodeInfo \<Rightarrow> UserInfo list \<Rightarrow> bool" where
  "serves listens users cfg c n us \<longleftrightarrow>
     listens (ct_server c) (ct_tag c) = Some (cfg (ct_tag c) n (ct_Options c)) \<and>
     users (ct_server c) (ct_tag c) = uuids us"

definition others_kept ::
  "('s \<Rightarrow> string \<Rightarrow> 'cfg option) \<Rightarrow> ('s \<Rightarrow> string \<Rightarrow> string set) \<Rightarrow> string \<Rightarrow> 's \<Rightarrow> 's \<Rightarrow> bool" where
  "others_kept listens users tag s s' \<longleftrightarrow>
     (\<forall>t. apart t tag \<longrightarrow> listens s' t = listens s t \<and> users s' t = users s t)"

lemma others_kept_trans:
  "others_kept listens users tag a b \<Longrightarrow> others_kept listens users tag b c \<Longrightarrow> others_kept listens users tag a c"
  by (simp add: others_kept_def)

text \<open>A step of the controller that keeps the contract's invariant, its own fields and the other tags.\<close>

definition framed ::
  "('s \<Rightarrow> string \<Rightarrow> 'cfg option) \<Rightarrow> ('s \<Rightarrow> string \<Rightarrow> string set) \<Rightarrow> ('s \<Rightarrow> bool)
     \<Rightarrow> ('s, 'rx, 'w) Controller \<Rightarrow> ('s, 'rx, 'w) Controller \<Rightarrow> bool" where
  "framed listens users good c c' \<longleftrightarrow> only_server c c' \<and> good (ct_server c') \<and>
     others_kept listens users (ct_tag c) (ct_server c) (ct_server c')"

lemma framed_trans:
  "framed listens users good a b \<Longrightarrow> framed listens users good b c \<Longrightarrow> framed listens users good a c"
  unfolding framed_def
  using only_server_trans only_server_fields(2) others_kept_trans by metis

section \<open>The controller's operations under the contract\<close>

lemma add_node_framed:
  assumes "core_contract (en_core E) listens users cfg good fit" "good (ct_server c)" "fit (ct_server c) (ct_tag c)"
    "ready (ct_Options c)" and "add_node E n c = (r, c')"
  shows "framed listens users good c c' \<and>
    (r = None \<longrightarrow> listens (ct_server c') (ct_tag c) = Some (cfg (ct_tag c) n (ct_Options c)) \<and>
       users (ct_server c') (ct_tag c) = {})"
proof -
  obtain r0 o2 s where a: "c_AddNode (en_core E) (ct_tag c) n (ct_Options c) (ct_server c) = (r0, o2, s)"
    by (cases "c_AddNode (en_core E) (ct_tag c) n (ct_Options c) (ct_server c)") auto
  from core_contract.add_node_frame [OF assms(1-4) a]
  have f: "o2 = ct_Options c" "good s" "others_kept listens users (ct_tag c) (ct_server c) s"
    by (auto simp: others_kept_def)
  from assms(5) a f have "c' = c\<lparr>ct_server := s\<rparr>" "r = r0" by (simp_all add: add_node_def)
  with f core_contract.add_node [OF assms(1-4)] a show ?thesis
    by (auto simp: framed_def)
qed

lemma add_users_framed:
  assumes "core_contract (en_core E) listens users cfg good fit" "good (ct_server c)"
    and "add_users E n us c = (r, c')"
  shows "framed listens users good c c' \<and>
    (\<forall>k. r = Inr k \<longrightarrow> listens (ct_server c') (ct_tag c) = listens (ct_server c) (ct_tag c) \<and>
       users (ct_server c') (ct_tag c) = users (ct_server c) (ct_tag c) \<union> uuids us)"
proof -
  obtain r0 s where a: "c_AddUsers (en_core E) (ct_tag c) us n (ct_server c) = (r0, s)" by fastforce
  from assms(3) a have "c' = c\<lparr>ct_server := s\<rparr>" "r = r0" by (simp_all add: add_users_def)
  with a core_contract.add_users [OF assms(1,2)] core_contract.add_users_frame [OF assms(1,2) a]
  show ?thesis by (auto simp: framed_def others_kept_def uuids_def)
qed

lemma del_node_framed:
  assumes "core_contract (en_core E) listens users cfg good fit" "good (ct_server c)" and "del_node E c = (r, c')"
  shows "framed listens users good c c'" and "fit (ct_server c') (ct_tag c')"
proof -
  obtain r0 s where a: "c_DelNode (en_core E) (ct_tag c) (ct_server c) = (r0, s)" by fastforce
  from assms(3) a have "c' = c\<lparr>ct_server := s\<rparr>" by (simp add: del_node_def)
  with core_contract.del_node_frame [OF assms(1,2) a]
  show "framed listens users good c c'" "fit (ct_server c') (ct_tag c')"
    by (auto simp: framed_def others_kept_def)
qed

lemma install_framed:
  assumes K: "core_contract (en_core E) listens users cfg good fit" and "good (ct_server c)" "fit (ct_server c) (ct_tag c)" "ready (ct_Options c)"
    and i: "install E n us c = (r, c')"
  shows "framed listens users good c c' \<and> (r = None \<longrightarrow> serves listens users cfg c' n us)"
proof -
  obtain r1 c1 where a: "add_node E n c = (r1, c1)" by fastforce
  note f1 = add_node_framed [OF assms(1-4) a]
  show ?thesis
  proof (cases r1)
    case (Some e)
    with i a f1 show ?thesis by (auto simp: install_def)
  next
    case None
    obtain r2 c2 where b: "add_users E n us c1 = (r2, c2)" by fastforce
    have g1: "good (ct_server c1)" using f1 by (simp add: framed_def)
    note f2 = add_users_framed [OF K g1 b]
    have c': "c' = c2" "r = None \<longrightarrow> (\<exists>k. r2 = Inr k)" using i a b None by (auto simp: install_def split: sum.splits)
    have fields: "ct_tag c1 = ct_tag c" "ct_tag c2 = ct_tag c" "ct_Options c2 = ct_Options c"
      using f1 f2 only_server_fields unfolding framed_def by metis+
    have fr: "framed listens users good c c2" using f1 f2 framed_trans by blast
    have "r = None \<longrightarrow> serves listens users cfg c2 n us"
      using f1 f2 None c'(2) by (auto simp: serves_def fields)
    with fr show ?thesis by (simp add: c'(1))
  qed
qed

lemma run_restore_framed:
  assumes K: "core_contract (en_core E) listens users cfg good fit" and "good (ct_server c)" "good (ct_server c0)"
    and "snapshot E n c0 = Inr rst" and "run_restore rst c = (r, c')"
  shows "framed listens users good c c' \<and> listens (ct_server c') = listens (ct_server c) \<and> users (ct_server c') = users (ct_server c)"
proof -
  obtain r0 s where a: "rst (ct_server c) = (r0, s)" by fastforce
  from assms(5) a have c': "c' = c\<lparr>ct_server := s\<rparr>" by (simp add: run_restore_def)
  have "good s \<and> listens s = listens (ct_server c) \<and> users s = users (ct_server c)"
  proof (cases "c_SnapshotNodeState (en_core E)")
    case None
    with assms(4) a assms(2) show ?thesis by (auto simp: snapshot_def)
  next
    case (Some snap)
    with assms(4) have "snap (ct_tag c0) n (ct_Options c0) (ct_server c0) = Inr rst" by (simp add: snapshot_def)
    from core_contract.restore [OF K assms(2,3) Some this a] show ?thesis by simp
  qed
  then show ?thesis by (auto simp: c' framed_def others_kept_def)
qed

lemma recover_framed:
  assumes K: "core_contract (en_core E) listens users cfg good fit" and g: "good (ct_server c)" and ft: "fit (ct_server c) (ct_tag c)"
    and rd: "ready (ct_Options c)" and g0: "good (ct_server c0)" and s: "snapshot E n0 c0 = Inr rst" and r: "recover E n us rst c = (r, c')"
  shows "framed listens users good c c' \<and> (r = None \<longrightarrow> serves listens users cfg c' n us)"
proof -
  obtain r1 c1 where i: "install E n us c = (r1, c1)" by fastforce
  obtain r2 c2 where t: "run_restore rst c1 = (r2, c2)" by fastforce
  note f1 = install_framed [OF K g ft rd i]
  have g1: "good (ct_server c1)" using f1 by (simp add: framed_def)
  note f2 = run_restore_framed [OF K g1 g0 s t]
  have c': "c' = c2" "r = errors_Join [r1, r2]" using r i t by (simp_all add: recover_def)
  have fr: "framed listens users good c c2" using f1 f2 framed_trans by blast
  have tags: "ct_tag c2 = ct_tag c1" "ct_Options c2 = ct_Options c1"
    using f2 only_server_fields unfolding framed_def by metis+
  have "r = None \<longrightarrow> serves listens users cfg c2 n us"
    using f1 f2 by (auto simp: c'(2) serves_def tags)
  with fr show ?thesis by (simp add: c'(1))
qed

section \<open>Replacing a VLESS node\<close>

lemma errors_Join_two:
  "errors_Join [Some a, r] = (case r of None \<Rightarrow> Some a | Some b \<Rightarrow> Some (a @ [CHR 0x0A] @ b))"
  by (cases r) (simp_all add: errors_Join_def)

text \<open>The messages that admit that the old node could not be put back.\<close>

definition says_lost :: "err \<Rightarrow> bool" where
  "says_lost e \<longleftrightarrow> (\<exists>x. e = not_removed @ CHR 0x0A # x) \<or> (\<exists>y x. e = y @ CHR 0x0A # restoration_failed @ x)"

lemma says_lost_intros:
  "says_lost (not_removed @ CHR 0x0A # x)" "says_lost (y @ CHR 0x0A # restoration_failed @ x)"
  by (auto simp: says_lost_def)

text \<open>The limiter registered for a tag, and that it is the one the controller holds.\<close>

definition limiter_registered :: "('s, 'rx, 'w) Controller \<Rightarrow> bool" where
  "limiter_registered c \<longleftrightarrow> GetLimiter (ct_tag c) (ct_limiters c) = Inr (ct_limiter c) \<and>
     ct_limiter c < length (lw_heap (ct_limiters c))"

definition own_limiter :: "('s, 'rx, 'w) Controller \<Rightarrow> 'rx Limiter" where
  "own_limiter c = deref (ct_limiters c) (ct_limiter c)"

text \<open>The limiter a successful replacement leaves: the new users, the candidate's rules.\<close>

definition fresh_limiter ::
  "('s, 'rx, 'w) env \<Rightarrow> ('s, 'rx, 'w) Controller \<Rightarrow> NodeInfo \<Rightarrow> UserInfo list \<Rightarrow> (int, int) gomap \<Rightarrow> 'rx Limiter" where
  "fresh_limiter E c candidate us alive =
     snd (UpdateRule (en_compile E) (ni_Rules candidate)
       (newLimiter (ct_tag c) (op_LimitConfig (ct_Options c)) us alive))"

definition replaced ::
  "('s \<Rightarrow> string \<Rightarrow> 'cfg option) \<Rightarrow> ('s \<Rightarrow> string \<Rightarrow> string set) \<Rightarrow> (string \<Rightarrow> NodeInfo \<Rightarrow> Options \<Rightarrow> 'cfg)
     \<Rightarrow> ('s, 'rx, 'w) env \<Rightarrow> ('s, 'rx, 'w) Controller \<Rightarrow> NodeInfo \<Rightarrow> UserInfo list \<Rightarrow> (int, int) gomap
     \<Rightarrow> ('s, 'rx, 'w) Controller \<Rightarrow> bool" where
  "replaced listens users cfg E c candidate us alive c' \<longleftrightarrow>
     serves listens users cfg c' candidate us \<and> ct_info c' = Some candidate \<and> ct_userList c' = us \<and>
     limiter_registered c' \<and> own_limiter c' = fresh_limiter E c candidate us alive"

definition kept ::
  "('s \<Rightarrow> string \<Rightarrow> 'cfg option) \<Rightarrow> ('s \<Rightarrow> string \<Rightarrow> string set) \<Rightarrow> (string \<Rightarrow> NodeInfo \<Rightarrow> Options \<Rightarrow> 'cfg)
     \<Rightarrow> ('s, 'rx, 'w) Controller \<Rightarrow> NodeInfo \<Rightarrow> err \<Rightarrow> ('s, 'rx, 'w) Controller \<Rightarrow> bool" where
  "kept listens users cfg c old e c' \<longleftrightarrow>
     ct_info c' = ct_info c \<and> ct_userList c' = ct_userList c \<and> ct_apiClient c' = ct_apiClient c \<and>
     limiter_registered c' \<and> own_limiter c' = own_limiter c \<and>
     (serves listens users cfg c' old (ct_userList c) \<or> says_lost e)"

lemma AddLimiter_registered:
  assumes "limiter_registered c" and "AddLimiter (ct_tag c) lc us alive (ct_limiters c) = (l, ls)"
  shows "l = length (lw_heap (ct_limiters c))" "deref ls l = newLimiter (ct_tag c) lc us alive"
    "GetLimiter (ct_tag c) ls = Inr l" "l < length (lw_heap ls)" "deref ls (ct_limiter c) = own_limiter c"
    "ct_limiter c \<noteq> l"
  using assms by (auto simp: AddLimiter_def Let_def GetLimiter_def limiter_registered_def own_limiter_def nth_append)

lemma framed_limiters:
  "framed listens users good c c' \<Longrightarrow>
   limiter_registered c' = limiter_registered c \<and> own_limiter c' = own_limiter c \<and> ct_info c' = ct_info c \<and>
   ct_userList c' = ct_userList c \<and> ct_apiClient c' = ct_apiClient c \<and> ct_tag c' = ct_tag c \<and> ct_Options c' = ct_Options c \<and>
   ct_limiters c' = ct_limiters c \<and> ct_limiter c' = ct_limiter c"
  using only_server_fields [of c c'] by (simp add: framed_def limiter_registered_def own_limiter_def)

lemma swap_node_outcome:
  assumes K: "core_contract (en_core E) listens users cfg good fit" and g: "good (ct_server c)" and rd: "ready (ct_Options c)"
    and reg: "limiter_registered c" and sn: "snapshot E old c = Inr rst"
    and w: "swap_node E old candidate us alive rst c = (r, c')"
  shows "good (ct_server c') \<and> others_kept listens users (ct_tag c) (ct_server c) (ct_server c') \<and>
    (case r of None \<Rightarrow> replaced listens users cfg E c candidate us alive c'
     | Some e \<Rightarrow> kept listens users cfg c old e c')"
proof -
  obtain r1 c1 where d: "del_node E c = (r1, c1)" by fastforce
  note f1 = del_node_framed(1) [OF K g d] and ft1 = del_node_framed(2) [OF K g d]
  have g1: "good (ct_server c1)" and rd1: "ready (ct_Options c1)" using f1 framed_limiters [OF f1] rd
    by (auto simp: framed_def)
  show ?thesis
  proof (cases r1)
    case (Some e)
    obtain r2 c2 where d2: "del_node E c1 = (r2, c2)" by fastforce
    obtain rec c3 where rc: "recover E old (ct_userList c) rst c2 = (rec, c3)" by fastforce
    note f2 = framed_trans [OF f1 del_node_framed(1) [OF K g1 d2]] and ft2 = del_node_framed(2) [OF K g1 d2]
    have g2: "good (ct_server c2)" "ready (ct_Options c2)" using f2 framed_limiters [OF f2] rd by (auto simp: framed_def)
    note f3 = recover_framed [OF K g2(1) ft2 g2(2) g sn rc]
    have fr: "framed listens users good c c3" using f2 f3 framed_trans by blast
    have out: "r = errors_Join [Some not_removed, rec]" "c' = c3"
      using w d Some d2 rc by (simp_all add: swap_node_def)
    show ?thesis using fr framed_limiters [OF fr] f3 reg
      by (cases rec) (auto simp: out errors_Join_two kept_def framed_def intro: says_lost_intros)
  next
    case None
    obtain l ls where al: "AddLimiter (ct_tag c1) (op_LimitConfig (ct_Options c1)) us alive (ct_limiters c1) = (l, ls)"
      by fastforce
    have reg1: "limiter_registered c1" using reg framed_limiters [OF f1] by simp
    note L = AddLimiter_registered [OF reg1 al]
    let ?c2 = "on_limiter (\<lambda>lim. snd (UpdateRule (en_compile E) (ni_Rules candidate) lim))
        (c1\<lparr>ct_limiters := ls, ct_limiter := l\<rparr>)"
    have c2: "ct_server ?c2 = ct_server c1" "ct_tag ?c2 = ct_tag c1" "ct_Options ?c2 = ct_Options c1"
      "limiter_registered ?c2" "own_limiter ?c2 = fresh_limiter E c candidate us alive"
      "deref (ct_limiters ?c2) (ct_limiter c1) = own_limiter c1" "ct_info ?c2 = ct_info c1"
      "ct_userList ?c2 = ct_userList c1" "ct_apiClient ?c2 = ct_apiClient c1"
      "ct_limiter c1 < length (lw_heap (ct_limiters ?c2))"
      using L reg1 framed_limiters [OF f1]
      by (auto simp: on_limiter_def update_ref_def limiter_registered_def own_limiter_def fresh_limiter_def GetLimiter_def)
    obtain r3 c3 where i: "install E candidate us ?c2 = (r3, c3)" by fastforce
    have g2: "good (ct_server ?c2)" "ready (ct_Options ?c2)" using g1 rd1 c2 by simp_all
    have fit2: "fit (ct_server ?c2) (ct_tag ?c2)" using ft1 c2(1,2) by simp
    note f3 = install_framed [OF K g2(1) fit2 g2(2) i]
    have f3': "framed listens users good ?c2 c3" using f3 by blast
    have okeep: "others_kept listens users (ct_tag c) (ct_server c) (ct_server c3)"
      using f1 f3' c2 framed_limiters [OF f1] others_kept_trans unfolding framed_def by metis
    show ?thesis
    proof (cases r3)
      case (Some e)
      obtain r4 c4 where d4: "del_node E c3 = (r4, c4)" by fastforce
      have g3: "good (ct_server c3)" using f3' by (simp add: framed_def)
      note f4 = del_node_framed(1) [OF K g3 d4] and ft4 = del_node_framed(2) [OF K g3 d4]
      let ?c5 = "c4\<lparr>ct_limiters := RestoreLimiter (ct_tag c4) (ct_limiter c) (ct_limiters c4), ct_limiter := ct_limiter c\<rparr>"
      obtain rec c6 where rc: "recover E old (ct_userList c) rst ?c5 = (rec, c6)" by fastforce
      note F1 = framed_limiters [OF f1] and F3 = framed_limiters [OF f3'] and F4 = framed_limiters [OF f4]
      have c5: "good (ct_server ?c5)" "ready (ct_Options ?c5)" "ct_tag ?c5 = ct_tag c" "ct_info ?c5 = ct_info c"
        "ct_userList ?c5 = ct_userList c" "ct_apiClient ?c5 = ct_apiClient c" "ct_Options ?c5 = ct_Options c"
        using f4 F1 F3 F4 c2 g2(2) by (auto simp: framed_def)
      have lim5: "limiter_registered ?c5" "own_limiter ?c5 = own_limiter c"
        using c2 F1 F3 F4 reg
        by (auto simp: limiter_registered_def own_limiter_def RestoreLimiter_def GetLimiter_def)
      have fit5: "fit (ct_server ?c5) (ct_tag ?c5)" using ft4 by simp
      note f6 = recover_framed [OF K c5(1) fit5 c5(2) g sn rc]
      have F6: "framed listens users good ?c5 c6" using f6 by blast
      have out: "c' = c6" "r = (case rec of Some x \<Rightarrow> errors_Join [Some e, Some (restoration_failed @ x)] | None \<Rightarrow> Some e)"
        using w d None al i Some d4 rc by (auto simp: swap_node_def Let_def split: option.splits)
      have "ct_tag c3 = ct_tag c" using F1 F3 c2(2) by simp
      then have k34: "others_kept listens users (ct_tag c) (ct_server c3) (ct_server c4)"
        using f4 by (simp add: framed_def)
      have k56: "others_kept listens users (ct_tag c) (ct_server c4) (ct_server c6)"
        using F6 c5(3) by (simp add: framed_def)
      have ok6: "others_kept listens users (ct_tag c) (ct_server c) (ct_server c6)"
        using others_kept_trans [OF others_kept_trans [OF okeep k34] k56] .
      have "kept listens users cfg c old (the r) c6"
        using framed_limiters [OF F6] c5 lim5 f6
        by (cases rec) (auto simp: out(2) errors_Join_two kept_def intro: says_lost_intros)
      moreover have "r \<noteq> None" by (cases rec) (simp_all add: out(2))
      ultimately show ?thesis using ok6 F6 by (auto simp: out(1) framed_def)
    next
      case None
      let ?c4 = "c3\<lparr>ct_info := Some candidate, ct_userList := us, ct_aliveMap := alive\<rparr>"
      have out: "r = None" "c' = accept_all candidate (set_periods candidate ?c4)"
        using w d \<open>r1 = None\<close> al i None by (auto simp: swap_node_def Let_def)
      have s3: "serves listens users cfg c3 candidate us" using f3 None by blast
      have "replaced listens users cfg E c candidate us alive c'"
        using s3 framed_limiters [OF f3'] c2 framed_limiters [OF f1]
        by (auto simp: replaced_def out accept_all_def set_periods_def serves_def limiter_registered_def own_limiter_def)
      moreover have "ct_server c' = ct_server c3" by (simp add: out accept_all_def set_periods_def)
      ultimately show ?thesis using okeep f3' by (simp add: out(1) framed_def)
    qed
  qed
qed

lemma flush_frame:
  assumes K: "core_contract (en_core E) listens users cfg good fit" and "good (ct_server c)"
    and "flushUserTraffic E post c = (r, c')"
  shows "\<exists>s p. c' = c\<lparr>ct_server := s, ct_pendingTraffic := p\<rparr> \<and> good s \<and>
    listens s = listens (ct_server c) \<and> users s = users (ct_server c)"
proof -
  obtain q s where a: "c_GetUserTrafficSlice (en_core E) (ct_tag c) True (ct_server c) = (q, s)" by fastforce
  note t = core_contract.traffic [OF K assms(2) a]
  have "\<exists>p. c' = c\<lparr>ct_server := s, ct_pendingTraffic := p\<rparr>"
  proof (cases q)
    case (Inl e)
    with assms(3) a have "c' = c\<lparr>ct_server := s\<rparr>" by (simp add: flushUserTraffic_def)
    then have "c' = c\<lparr>ct_server := s, ct_pendingTraffic := ct_pendingTraffic c\<rparr>" by (cases c) simp
    then show ?thesis by blast
  next
    case (Inr ts)
    let ?m = "mergeUserTraffic (ct_pendingTraffic c) ts"
    have "c' = c\<lparr>ct_server := s, ct_pendingTraffic := ?m\<rparr> \<or> c' = c\<lparr>ct_server := s, ct_pendingTraffic := []\<rparr>"
      using assms(3) a Inr by (auto simp: flushUserTraffic_def Let_def split: if_splits option.splits)
    then show ?thesis by blast
  qed
  with t show ?thesis by blast
qed

text \<open>C1: replacing a VLESS node either succeeds - core, limiter and record then hold the candidate with
  exactly its users, and the panel's answers are acknowledged - or fails with the previous node: its
  record and limiter are untouched, nothing is acknowledged, and the core serves the previous node
  with its users again unless the error message says that it could not be restored.  No other node
  of the core is touched either way.\<close>

theorem replaceVLESSNode_outcome:
  assumes K: "core_contract (en_core E) listens users cfg good fit" and g: "good (ct_server c)" and rd: "ready (ct_Options c)"
    and reg: "limiter_registered c" and info: "ct_info c = Some old" and srv: "serves listens users cfg c old (ct_userList c)"
    and r: "replaceVLESSNode E post candidate us alive c = (r, c')"
  shows "others_kept listens users (ct_tag c) (ct_server c) (ct_server c') \<and>
    (case r of None \<Rightarrow> replaced listens users cfg E c candidate us alive c'
     | Some e \<Rightarrow> kept listens users cfg c old e c')"
proof -
  have id: "kept listens users cfg c old e c" for e using reg info srv by (simp add: kept_def)
  have refl: "others_kept listens users t a a" for t a by (simp add: others_kept_def)
  show ?thesis
  proof (cases "\<exists>validate. c_ValidateNode (en_core E) = Some validate \<and>
      validate (ct_tag c) candidate (ct_Options c) (ct_server c) = None \<and>
      fst (UpdateRule (en_compile E) (ni_Rules candidate) Limiter_zero) = None")
    case False
    then have "c' = c \<and> r \<noteq> None" using r unfolding replaceVLESSNode_def
      by (auto split: option.splits)
    with id refl show ?thesis by auto
  next
    case True
    obtain q c1 where f: "flushUserTraffic E post c = (q, c1)" by fastforce
    obtain s p where c1: "c1 = c\<lparr>ct_server := s, ct_pendingTraffic := p\<rparr>" and gs: "good s"
      and same: "listens s = listens (ct_server c)" "users s = users (ct_server c)"
      using flush_frame [OF K g f] by blast
    have oth: "others_kept listens users (ct_tag c) (ct_server c) s" by (simp add: others_kept_def same)
    have reg1: "limiter_registered c1" "own_limiter c1 = own_limiter c"
      using reg by (simp_all add: c1 limiter_registered_def own_limiter_def)
    have kept1: "kept listens users cfg c old e c1" for e
      using info srv reg1 by (simp add: kept_def serves_def c1 same)
    show ?thesis
    proof (cases "\<exists>rst ts. q = Inr ts \<and> snapshot E old c1 = Inr rst")
      case False
      have "c' = c1 \<and> r \<noteq> None" using r True f info False unfolding replaceVLESSNode_def
        by (auto simp: c1 split: sum.splits)
      with kept1 oth show ?thesis by (auto simp: c1)
    next
      case True': True
      then obtain rst ts where q: "q = Inr ts" "snapshot E old c1 = Inr rst" by blast
      have w: "swap_node E old candidate us alive rst c1 = (r, c')"
        using r True f info q unfolding replaceVLESSNode_def by (auto simp: c1)
      have g1: "good (ct_server c1)" "ready (ct_Options c1)" using gs rd by (simp_all add: c1)
      note o = swap_node_outcome [OF K g1 reg1(1) q(2) w]
      have "others_kept listens users (ct_tag c) (ct_server c) (ct_server c')"
        using o oth others_kept_trans by (fastforce simp: c1)
      moreover have "replaced listens users cfg E c1 candidate us alive c' = replaced listens users cfg E c candidate us alive c'"
        by (simp add: replaced_def fresh_limiter_def c1)
      moreover have "kept listens users cfg c1 old e c' = kept listens users cfg c old e c'" for e
        using reg1 by (simp add: kept_def c1)
      ultimately show ?thesis using o by (auto split: option.splits)
    qed
  qed
qed

section \<open>Following changes of the user list\<close>

text \<open>Core and limiter hold the same users.\<close>

definition in_step ::
  "('s \<Rightarrow> string \<Rightarrow> string set) \<Rightarrow> ('s, 'rx, 'w) Controller \<Rightarrow> UserInfo list \<Rightarrow> bool" where
  "in_step users c us \<longleftrightarrow> users (ct_server c) (ct_tag c) = uuids us \<and> lt.holds (ct_tag c) (own_limiter c) us"

lemma holds_iff: "lt.holds tag l us \<longleftrightarrow> (\<forall>u. limiter_knows tag l u \<longleftrightarrow> u \<in> uuids us)"
  by (simp add: lt.holds_def)

text \<open>The three parts of an update: users leave the core, users enter it, and the limiter follows.\<close>

lemma leave_core:
  assumes K: "core_contract (en_core E) listens users cfg good fit" and g: "good (ct_server c)"
    and u: "users (ct_server c) (ct_tag c) = uuids us"
    and d: "(if length deleted > 0
      then (case c_DelUsers (en_core E) deleted (ct_tag c) info (ct_server c) of (r, s) \<Rightarrow> (r, c\<lparr>ct_server := s\<rparr>))
      else (None, c)) = (r, c')"
  shows "only_server c c'" and "r = None \<Longrightarrow> good (ct_server c') \<and>
    listens (ct_server c') (ct_tag c) = listens (ct_server c) (ct_tag c) \<and> users (ct_server c') (ct_tag c) = uuids us - uuids deleted"
proof -
  show "only_server c c'" using d by (auto split: if_splits prod.splits)
  assume n: "r = None"
  show "good (ct_server c') \<and> listens (ct_server c') (ct_tag c) = listens (ct_server c) (ct_tag c) \<and>
    users (ct_server c') (ct_tag c) = uuids us - uuids deleted"
  proof (cases "deleted = []")
    case True
    with d g u show ?thesis by auto
  next
    case False
    obtain s where a: "c_DelUsers (en_core E) deleted (ct_tag c) info (ct_server c) = (None, s)" "c' = c\<lparr>ct_server := s\<rparr>"
      using d False n by (auto split: prod.splits)
    from core_contract.del_users [OF K g a(1)] core_contract.del_users_frame [OF K g a(1)] u
    show ?thesis by (auto simp: a(2) uuids_def)
  qed
qed

lemma enter_core:
  assumes K: "core_contract (en_core E) listens users cfg good fit" and g: "good (ct_server c)"
    and b: "(if length added > 0 then add_users E info added c else (Inr 0, c)) = (r, c')"
  shows "only_server c c'" and "r = Inr k \<Longrightarrow> listens (ct_server c') (ct_tag c) = listens (ct_server c) (ct_tag c) \<and>
    users (ct_server c') (ct_tag c) = users (ct_server c) (ct_tag c) \<union> uuids added"
proof -
  have "only_server c c' \<and> (r = Inr k \<longrightarrow> listens (ct_server c') (ct_tag c) = listens (ct_server c) (ct_tag c) \<and>
    users (ct_server c') (ct_tag c) = users (ct_server c) (ct_tag c) \<union> uuids added)" for k
  proof (cases "added = []")
    case False
    then have "add_users E info added c = (r, c')" using b by simp
    from add_users_framed [OF K g this] show ?thesis by (auto simp: framed_def)
  qed (use b in auto)
  then show "only_server c c'" and "r = Inr k \<Longrightarrow> listens (ct_server c') (ct_tag c) = listens (ct_server c) (ct_tag c) \<and>
    users (ct_server c') (ct_tag c) = users (ct_server c) (ct_tag c) \<union> uuids added" by blast+
qed

lemma limiter_follows:
  assumes "limiter_registered c" and "c3 = (if length added > 0 \<or> length deleted > 0
      then on_limiter (UpdateUser (ct_tag c) added deleted) c else c)"
  shows "own_limiter c3 = UpdateUser (ct_tag c) added deleted (own_limiter c)"
    and "ct_server c3 = ct_server c" "ct_tag c3 = ct_tag c" "ct_apiClient c3 = ct_apiClient c"
proof -
  have "own_limiter c3 = (if length added > 0 \<or> length deleted > 0 then UpdateUser (ct_tag c) added deleted (own_limiter c)
      else own_limiter c)"
    using assms by (auto simp: on_limiter_def update_ref_def own_limiter_def limiter_registered_def)
  then show "own_limiter c3 = UpdateUser (ct_tag c) added deleted (own_limiter c)" by (simp add: UpdateUser_def)
  show "ct_server c3 = ct_server c" "ct_tag c3 = ct_tag c" "ct_apiClient c3 = ct_apiClient c"
    by (simp_all add: assms(2) on_limiter_def)
qed


section \<open>Reloading a node with a fixed name\<close>

definition same_users :: "('s, 'rx, 'w) Controller \<Rightarrow> ('s, 'rx, 'w) Controller \<Rightarrow> bool" where
  "same_users c c' \<longleftrightarrow> ct_tag c' = ct_tag c \<and> li_UserLimitInfo (own_limiter c') = li_UserLimitInfo (own_limiter c)"

lemma same_users_simps:
  "same_users c c" "same_users c a \<Longrightarrow> same_users c (a\<lparr>ct_server := s\<rparr>)" "same_users c a \<Longrightarrow> same_users c (a\<lparr>ct_world := w\<rparr>)"
  "same_users c a \<Longrightarrow> same_users c (a\<lparr>ct_Options := o1, ct_server := s\<rparr>)"
  "same_users c a \<Longrightarrow> same_users c (accept_all n (set_periods n a))"
  "same_users c a \<Longrightarrow> same_users c (a\<lparr>ct_info := i, ct_userList := us, ct_traffic := t\<rparr>)"
  by (simp_all add: same_users_def own_limiter_def accept_all_def set_periods_def)

lemma same_users_on_limiter:
  assumes "same_users c a" and "li_UserLimitInfo (f (own_limiter a)) = li_UserLimitInfo (own_limiter a)"
  shows "same_users c (on_limiter f a)"
proof -
  have "own_limiter (on_limiter f a) = (if ct_limiter a < length (lw_heap (ct_limiters a)) then f (own_limiter a) else own_limiter a)"
    by (simp add: own_limiter_def on_limiter_def update_ref_def list_update_beyond)
  then show ?thesis using assms by (simp add: same_users_def on_limiter_def)
qed

lemma same_users_steps:
  "same_users c a \<Longrightarrow> same_users c (snd (del_node E a))"
  "same_users c a \<Longrightarrow> same_users c (snd (add_node E n a))"
  "same_users c a \<Longrightarrow> same_users c (snd (add_users E n us a))"
  "same_users c a \<Longrightarrow> same_users c (snd (request_cert E a))"
  by (auto simp: del_node_def add_node_def add_users_def request_cert_def same_users_simps split: prod.split option.split)

lemma same_users_set_alive: "same_users c a \<Longrightarrow> same_users c (set_alive m a)"
  by (auto simp: set_alive_def intro: same_users_on_limiter split: option.split)

lemma UpdateRule_users: "li_UserLimitInfo (snd (UpdateRule compile r l)) = li_UserLimitInfo l"
  by (simp add: UpdateRule_def split: option.split)

lemma own_limiter_deref: "deref (ct_limiters a) (ct_limiter a) = own_limiter a"
  by (simp add: own_limiter_def)

text \<open>After the rules: certificate, listener, users.\<close>

lemma reload_tail_same:
  assumes "same_users c a"
  shows "same_users c (snd (finish_reload E newN a))"
proof -
  obtain r6 c6 where r6: "(if ni_Security newN = Tls then request_cert E a else (None, a)) = (r6, c6)" by fastforce
  have s6: "same_users c c6" using assms same_users_steps(4) [OF assms, of E] r6 by (auto split: if_splits)
  obtain r7 c7 where r7: "add_node E newN c6 = (r7, c7)" by fastforce
  have s7: "same_users c c7" using same_users_steps(2) [OF s6, of E newN] r7 by simp
  obtain r8 c8 where r8: "add_users E newN (ct_userList c7) c7 = (r8, c8)" by fastforce
  have s8: "same_users c c8" using same_users_steps(3) [OF s7, of E newN "ct_userList c7"] r8 by simp
  show ?thesis using s6 s7 s8 same_users_simps(5) [OF s8]
    by (auto simp: finish_reload_def r6 r7 r8 split: option.split sum.split)
qed

lemma reload_named_same:
  assumes "length (op_Name (ct_Options c)) \<noteq> 0"
  shows "same_users c (snd (reload_node E newN newU newA c))"
proof -
  define c1 where "c1 = c\<lparr>ct_info := Some newN, ct_userList := (case newU of Some us \<Rightarrow> us | None \<Rightarrow> ct_userList c), ct_traffic := []\<rparr>"
  have s1: "same_users c c1" unfolding c1_def by (intro same_users_simps)
  obtain r2 c2 where r2: "del_node E c1 = (r2, c2)" by fastforce
  have s2: "same_users c c2" using same_users_steps(1) [OF s1, of E] r2 by simp
  have n2: "length (op_Name (ct_Options c2)) \<noteq> 0" using assms r2
    by (auto simp: del_node_def c1_def split: prod.splits)
  define c4 where "c4 = set_alive newA c2"
  have s4: "same_users c c4" unfolding c4_def by (rule same_users_set_alive [OF s2])
  obtain e lim where ul: "UpdateRule (en_compile E) (ni_Rules newN) (deref (ct_limiters c4) (ct_limiter c4)) = (e, lim)" by fastforce
  have "li_UserLimitInfo lim = li_UserLimitInfo (own_limiter c4)"
    using UpdateRule_users [of "en_compile E" "ni_Rules newN" "own_limiter c4"] ul by (simp add: own_limiter_deref)
  then have s5: "same_users c (on_limiter (\<lambda>_. lim) c4)" by (intro same_users_on_limiter s4)
  show ?thesis
  proof (cases r2)
    case (Some x)
    with s2 r2 show ?thesis by (simp add: reload_node_def c1_def [symmetric])
  next
    case None
    show ?thesis using r2 None n2 ul s5 reload_tail_same [OF s5, of E newN]
      by (simp add: reload_node_def c1_def [symmetric] c4_def [symmetric] Let_def split: option.split)
  qed
qed

text \<open>when a node with a fixed name (other than VLESS) changes together with its users, the limiter
  keeps the old users: a user who is new is installed in the core but rejected by the limiter on every
  connection.\<close>

theorem named_reload_rejects_new_users:
  assumes "length (op_Name (ct_Options c)) \<noteq> 0" and "\<not> limiter_knows (ct_tag c) (own_limiter c) (ui_Uuid u)"
  shows "snd (fst (CheckLimit now (UserTag (ct_tag c) (ui_Uuid u)) ip tcp udp
    (own_limiter (snd (reload_node E newN (Some (u # us)) newA c)))))"
  by (rule CheckLimit_unknown)
    (use reload_named_same [OF assms(1), of E newN "Some (u # us)" newA] assms(2)
     in \<open>simp add: same_users_def limiter_knows_def\<close>)

section \<open>A controller on the abstract core\<close>

definition demo_ok :: reply where
  "demo_ok = \<lparr>rp_err = None, rp_status = 200, rp_body = ''b'', rp_etag = ''e'', rp_ctype = []\<rparr>"

definition demo_info :: NodeInfo where
  "demo_info = (new_node demo_client demo_ok ''h'')\<lparr>ni_Type := ''vless''\<rparr>"

definition demo_opts :: Options where
  "demo_opts = default_options\<lparr>op_Name := ''t'', op_Core := ''reference''\<rparr>"

definition demo_ctl :: "(Reference, string, (string, string) gomap) Controller" where
  "demo_ctl = \<lparr>ct_server = \<lparr>rf_nodes = [(''t'', (demo_info, demo_opts))], rf_users = [(''t'', map ui_Uuid demo_old)],
       rf_traffic = [(''t'', [\<lparr>ut_UID = 1, ut_Upload = 5, ut_Download = 6\<rparr>])]\<rparr>,
     ct_limiters = snd (AddLimiter ''t'' LimitConfig_zero demo_old [] \<lparr>lw_heap = [], lw_map = []\<rparr>),
     ct_world = [], ct_pendingTraffic = [\<lparr>ut_UID = 1, ut_Upload = 2, ut_Download = 3\<rparr>], ct_apiClient = demo_client,
     ct_tag = ''t'', ct_limiter = 0, ct_traffic = [], ct_userList = demo_old, ct_aliveMap = [], ct_info = Some demo_info,
     ct_nodeInfoMonitorPeriodic = None, ct_userReportPeriodic = None, ct_renewCertPeriodic = None,
     ct_dynamicSpeedLimitPeriodic = None, ct_Options = demo_opts\<rparr>"

definition demo_ctl_env :: "(Reference, string, (string, string) gomap) env" where
  "demo_ctl_env = \<lparr>en_core = reference_core, en_dec = demo_decoders, en_compile = Some, en_cert = demo_env\<rparr>"

lemma demo_contract: "core_contract (en_core demo_ctl_env) rf_listens rf_admits rf_cfg (\<lambda>_. True) (\<lambda>_ _. True)"
  by (simp add: demo_ctl_env_def reference_contract)

lemma demo_registered: "limiter_registered demo_ctl"
  by (simp add: limiter_registered_def demo_ctl_def AddLimiter_def GetLimiter_def Let_def)

lemma demo_serves: "serves rf_listens rf_admits rf_cfg demo_ctl demo_info (ct_userList demo_ctl)"
  by (simp add: serves_def demo_ctl_def rf_defs mget_or_def uuids_def)

lemma demo_ready: "ready (ct_Options demo_ctl)"
  by (simp add: ready_def demo_ctl_def demo_opts_def)

lemma demo_fields: "ct_tag demo_ctl = ''t''" "ct_userList demo_ctl = demo_old" "ct_info demo_ctl = Some demo_info"
  by (simp_all add: demo_ctl_def)

lemma demo_own: "own_limiter demo_ctl = newLimiter ''t'' LimitConfig_zero demo_old []"
  by (simp add: own_limiter_def demo_ctl_def AddLimiter_def Let_def)

theorem flush_conserves_witness:
  "up_of 1 (ct_pendingTraffic (snd (flushUserTraffic demo_ctl_env (\<lambda>_. demo_ok\<lparr>rp_status := 500\<rparr>) demo_ctl))) = 7"
proof -
  let ?post = "\<lambda>_. demo_ok\<lparr>rp_status := 500\<rparr>"
  let ?sl = "[\<lparr>ut_UID = 1, ut_Upload = 5, ut_Download = 6\<rparr>]"
  have t: "c_GetUserTrafficSlice (en_core demo_ctl_env) (ct_tag demo_ctl) True (ct_server demo_ctl) =
      (Inr ?sl, (ct_server demo_ctl)\<lparr>rf_traffic := []\<rparr>)"
    by (simp add: demo_ctl_env_def reference_core_def demo_ctl_def rf_Traffic_def mget_or_def)
  obtain r c' where f: "flushUserTraffic demo_ctl_env ?post demo_ctl = (r, c')" by fastforce
  have "\<not> is_ok (fst (flushUserTraffic demo_ctl_env ?post demo_ctl))" by code_simp
  with f have "\<not> is_ok r" by simp
  then obtain e where "r = Inl e" by (cases r) auto
  with flush_conserves [OF t, of ?post] f show ?thesis
    by (simp add: demo_ctl_def up_of_def w64_def)
qed

theorem replaceVLESSNode_outcome_witness:
  "ct_userList (snd (replaceVLESSNode demo_ctl_env (\<lambda>_. demo_ok) demo_info demo_new [] demo_ctl)) = demo_new \<and>
   rf_admits (ct_server (snd (replaceVLESSNode demo_ctl_env (\<lambda>_. demo_ok) demo_info demo_new [] demo_ctl))) ''t'' = {''b'', ''c''}"
proof -
  obtain r c' where r: "replaceVLESSNode demo_ctl_env (\<lambda>_. demo_ok) demo_info demo_new [] demo_ctl = (r, c')" by fastforce
  have info: "ct_info demo_ctl = Some demo_info" by (simp add: demo_ctl_def)
  have "fst (replaceVLESSNode demo_ctl_env (\<lambda>_. demo_ok) demo_info demo_new [] demo_ctl) = None" by code_simp
  with r have "r = None" by simp
  with replaceVLESSNode_outcome [OF demo_contract _ demo_ready demo_registered info demo_serves r]
  have "replaced rf_listens rf_admits rf_cfg demo_ctl_env demo_ctl demo_info demo_new [] c'" by simp
  moreover have "ct_tag (snd (replaceVLESSNode demo_ctl_env (\<lambda>_. demo_ok) demo_info demo_new [] demo_ctl)) = ''t''" by code_simp
  ultimately show ?thesis using r by (simp add: replaced_def serves_def uuids_def demo_new_def)
qed


theorem named_reload_rejects_new_users_witness:
  "snd (fst (CheckLimit 0 ''t|c'' ''1.2.3.4'' True True
    (own_limiter (snd (reload_node demo_ctl_env demo_info (Some [named_user ''c'']) None demo_ctl)))))"
proof -
  have n: "length (op_Name (ct_Options demo_ctl)) \<noteq> 0" by (simp add: demo_ctl_def demo_opts_def)
  have k: "\<not> limiter_knows (ct_tag demo_ctl) (own_limiter demo_ctl) (ui_Uuid (named_user ''c''))"
    unfolding demo_own demo_fields by (simp add: newLimiter_knows demo_old_def named_user_def)
  from named_reload_rejects_new_users [OF n k, of 0 "''1.2.3.4''" True True demo_ctl_env demo_info "[]" None]
  show ?thesis by (simp add: UserTag_def demo_ctl_def named_user_def)
qed

end
