(* ===== verification/Periodic_Task.thy ===== *)
theory Periodic_Task
  imports V2bX_Prelude
begin

text \<open>
  Periodic tasks (runtime/common/task/task.go).  A task is shared by the goroutine that starts it, the
  callbacks of its timers and the goroutine that closes it; every piece of code under its mutex is one
  step, and the steps of the goroutines interleave freely.
\<close>

section \<open>A task and the code under its mutex\<close>

record Task =
  tk_Interval :: int
  tk_interval :: int
  tk_timer :: "nat option"
  tk_running :: bool

text \<open>What \<open>checkedExecute\<close> does: whether \<open>Execute\<close> was called, its error, and the timer it armed with
  its delay; \<open>outcome\<close> is what \<open>Execute\<close> would return and \<open>r\<close> a fresh timer.\<close>

record execution =
  ex_called :: bool
  ex_error :: "err option"
  ex_armed :: "(nat \<times> int) option"

definition delay_of :: "Task \<Rightarrow> int" where
  "delay_of t = (if tk_interval t > 0 then tk_interval t else tk_Interval t)"

definition checkedExecute :: "bool \<Rightarrow> err option \<Rightarrow> nat \<Rightarrow> Task \<Rightarrow> execution \<times> Task" where
  "checkedExecute first outcome r t =
     (if \<not> tk_running t then (\<lparr>ex_called = False, ex_error = None, ex_armed = None\<rparr>, t)
      else if first \<and> outcome \<noteq> None
           then (\<lparr>ex_called = True, ex_error = outcome, ex_armed = None\<rparr>, t\<lparr>tk_running := False\<rparr>)
      else (\<lparr>ex_called = first, ex_error = None, ex_armed = Some (r, delay_of t)\<rparr>, t\<lparr>tk_timer := Some r\<rparr>))"

definition SetInterval :: "int \<Rightarrow> Task \<Rightarrow> Task" where
  "SetInterval interval t = (if interval > 0 then t\<lparr>tk_interval := interval\<rparr> else t)"

text \<open>The first critical section of \<open>Start\<close>: whether it goes on, and the last one, after an error.\<close>

definition Start_enter :: "Task \<Rightarrow> bool \<times> Task" where
  "Start_enter t = (if tk_running t then (False, t) else (True, t\<lparr>tk_running := True\<rparr>))"

definition Start_failed :: "Task \<Rightarrow> Task" where
  "Start_failed t = t\<lparr>tk_running := False\<rparr>"

text \<open>\<open>Close\<close>: the timer it stops, if any.\<close>

definition Task_Close :: "Task \<Rightarrow> nat option \<times> Task" where
  "Task_Close t = (tk_timer t, t\<lparr>tk_running := False, tk_timer := None\<rparr>)"

section \<open>Runs\<close>

text \<open>
  Around the task: the timers that wait, the callbacks that were fired and wait for the mutex, the
  goroutines inside \<open>Start\<close> before \<open>checkedExecute\<close> and before the critical section of its error, and how
  often \<open>Execute\<close> was called.
\<close>

record run =
  rn_task :: Task
  rn_armed :: "nat set"
  rn_fired :: nat
  rn_starting :: "bool list"
  rn_failing :: nat
  rn_next :: nat
  rn_runs :: nat

datatype task_event =
    EvStart bool | EvEnter "err option" | EvFail | EvFire nat | EvCallback "err option"
  | EvSetInterval int | EvClose

definition after_execute :: "execution \<times> Task \<Rightarrow> run \<Rightarrow> run" where
  "after_execute xt s = s\<lparr>rn_task := snd xt, rn_next := rn_next s + 1,
     rn_runs := rn_runs s + (if ex_called (fst xt) then 1 else 0),
     rn_armed := rn_armed s \<union> fst ` set_option (ex_armed (fst xt))\<rparr>"

inductive task_step :: "run \<Rightarrow> task_event \<Rightarrow> run \<Rightarrow> bool" where
  Start: "Start_enter (rn_task s) = (go, t) \<Longrightarrow>
    task_step s (EvStart first) (s\<lparr>rn_task := t, rn_starting := (if go then first # rn_starting s else rn_starting s)\<rparr>)"
| Enter: "rn_starting s = xs @ first # ys \<Longrightarrow> checkedExecute first outcome (rn_next s) (rn_task s) = (x, t) \<Longrightarrow>
    task_step s (EvEnter outcome) (after_execute (x, t) s\<lparr>rn_starting := xs @ ys,
      rn_failing := rn_failing s + (if ex_error x = None then 0 else 1)\<rparr>)"
| Fail: "rn_failing s = Suc n \<Longrightarrow>
    task_step s EvFail (s\<lparr>rn_task := Start_failed (rn_task s), rn_failing := n\<rparr>)"
| Fire: "r \<in> rn_armed s \<Longrightarrow>
    task_step s (EvFire r) (s\<lparr>rn_armed := rn_armed s - {r}, rn_fired := Suc (rn_fired s)\<rparr>)"
| Callback: "rn_fired s = Suc n \<Longrightarrow> checkedExecute True outcome (rn_next s) (rn_task s) = (x, t) \<Longrightarrow>
    task_step s (EvCallback outcome) (after_execute (x, t) s\<lparr>rn_fired := n\<rparr>)"
| SetInterval: "task_step s (EvSetInterval i) (s\<lparr>rn_task := SetInterval i (rn_task s)\<rparr>)"
| Close: "Task_Close (rn_task s) = (r, t) \<Longrightarrow>
    task_step s EvClose (s\<lparr>rn_task := t, rn_armed := rn_armed s - set_option r\<rparr>)"

inductive_cases task_stepE: "task_step s e s'"

inductive task_run :: "run \<Rightarrow> task_event list \<Rightarrow> run \<Rightarrow> bool" where
  Nil: "task_run s [] s"
| Cons: "task_step s e s' \<Longrightarrow> task_run s' es s'' \<Longrightarrow> task_run s (e # es) s''"

inductive_cases task_run_ConsE: "task_run s (e # es) s'"
inductive_cases task_run_NilE: "task_run s [] s'"

definition fresh_run :: "Task \<Rightarrow> run" where
  "fresh_run t = \<lparr>rn_task = t\<lparr>tk_running := False, tk_timer := None\<rparr>, rn_armed = {}, rn_fired = 0, rn_starting = [],
     rn_failing = 0, rn_next = 0, rn_runs = 0\<rparr>"

lemmas task_defs = checkedExecute_def SetInterval_def Start_enter_def Start_failed_def Task_Close_def
  after_execute_def

section \<open>A closed task does not run\<close>

definition is_start :: "task_event \<Rightarrow> bool" where
  "is_start e \<longleftrightarrow> (case e of EvStart _ \<Rightarrow> True | _ \<Rightarrow> False)"

lemma stopped_step:
  "task_step s e s' \<Longrightarrow> \<not> tk_running (rn_task s) \<Longrightarrow> \<not> is_start e \<Longrightarrow>
   \<not> tk_running (rn_task s') \<and> rn_runs s' = rn_runs s \<and> rn_armed s' \<subseteq> rn_armed s"
  by (erule task_stepE) (auto simp: task_defs is_start_def split: if_splits)

lemma stopped_run:
  "task_run s es s' \<Longrightarrow> \<not> tk_running (rn_task s) \<Longrightarrow> (\<forall>e\<in>set es. \<not> is_start e) \<Longrightarrow>
   \<not> tk_running (rn_task s') \<and> rn_runs s' = rn_runs s \<and> rn_armed s' \<subseteq> rn_armed s"
proof (induction rule: task_run.induct)
  case (Cons s e s' es s'')
  from stopped_step[OF Cons.hyps(1)] Cons.prems Cons.IH show ?case by fastforce
qed simp

text \<open>once a task was closed, and until somebody starts it again, its function is not called again and no
  timer is armed - whatever callbacks were already fired and wherever a starting goroutine stood.\<close>

theorem closed_task_never_runs:
  assumes "task_run s (EvClose # es) s'" and "\<forall>e\<in>set es. \<not> is_start e"
  shows "rn_runs s' = rn_runs s \<and> rn_armed s' \<subseteq> rn_armed s"
proof -
  from assms(1) obtain s1 where 1: "task_step s EvClose s1" and 2: "task_run s1 es s'"
    by (rule task_run_ConsE)
  from 1 have "\<not> tk_running (rn_task s1) \<and> rn_runs s1 = rn_runs s \<and> rn_armed s1 \<subseteq> rn_armed s"
    by (rule task_stepE) (auto simp: Task_Close_def)
  with stopped_run[OF 2 _ assms(2)] show ?thesis by auto
qed

section \<open>A running task goes on\<close>

text \<open>The continuations of a task: timers that wait, callbacks that wait, starting goroutines.\<close>

definition continuations :: "run \<Rightarrow> nat" where
  "continuations s = card (rn_armed s) + rn_fired s + length (rn_starting s)"

definition alive :: "run \<Rightarrow> bool" where
  "alive s \<longleftrightarrow> tk_running (rn_task s) \<and> rn_failing s = 0 \<and> finite (rn_armed s) \<and>
     (\<forall>r\<in>rn_armed s. r < rn_next s) \<and> continuations s = 1"

definition undisturbed :: "task_event \<Rightarrow> bool" where
  "undisturbed e \<longleftrightarrow> (case e of EvEnter o1 \<Rightarrow> o1 = None | EvCallback o1 \<Rightarrow> o1 = None | EvClose \<Rightarrow> False | _ \<Rightarrow> True)"

lemma alive_step: "task_step s e s' \<Longrightarrow> alive s \<Longrightarrow> undisturbed e \<Longrightarrow> alive s'"
proof (erule task_stepE, goal_cases)
  case (4 r)
  then have "Suc (card (rn_armed s - {r})) = card (rn_armed s)" using card_Suc_Diff1[of "rn_armed s" r] unfolding alive_def by blast
  with 4 show ?case by (auto simp: alive_def continuations_def)
qed (auto simp: alive_def continuations_def undisturbed_def task_defs less_Suc_eq
       split: if_splits)

lemma alive_run: "task_run s es s' \<Longrightarrow> alive s \<Longrightarrow> (\<forall>e\<in>set es. undisturbed e) \<Longrightarrow> alive s'"
  by (induction rule: task_run.induct) (auto intro: alive_step)

text \<open>C32: a task that was started, was not closed and whose function never failed has at every moment exactly
  one continuation - one waiting timer, one callback or the starting goroutine: it is never forgotten and
  never runs twice.\<close>

theorem started_task_goes_on:
  assumes "task_run (fresh_run t) (EvStart first # es) s" and "\<forall>e\<in>set es. undisturbed e"
  shows "tk_running (rn_task s) \<and> continuations s = 1"
proof -
  from assms(1) obtain s1 where 1: "task_step (fresh_run t) (EvStart first) s1" and 2: "task_run s1 es s"
    by (rule task_run_ConsE)
  from 1 have "alive s1"
    by (rule task_stepE) (auto simp: alive_def continuations_def fresh_run_def Start_enter_def)
  from alive_run[OF 2 this assms(2)] show ?thesis by (simp add: alive_def)
qed

definition demo_task :: Task where
  "demo_task = \<lparr>tk_Interval = 60, tk_interval = 0, tk_timer = None, tk_running = False\<rparr>"

text \<open>A start that calls the function at once, then a close.\<close>

definition demo_started :: run where
  "demo_started = (fresh_run demo_task)\<lparr>rn_task := demo_task\<lparr>tk_running := True\<rparr>, rn_starting := [True]\<rparr>"

definition demo_armed :: run where
  "demo_armed = (fresh_run demo_task)\<lparr>rn_task := demo_task\<lparr>tk_running := True, tk_timer := Some 0\<rparr>,
     rn_armed := {0}, rn_next := 1, rn_runs := 1\<rparr>"

definition demo_closed :: run where
  "demo_closed = demo_armed\<lparr>rn_task := demo_task, rn_armed := {}\<rparr>"

lemmas demo_task_defs = demo_task_def demo_started_def demo_armed_def demo_closed_def fresh_run_def task_defs

lemma demo_steps:
  "task_step (fresh_run demo_task) (EvStart True) demo_started"
  "task_step demo_started (EvEnter None) demo_armed"
  "task_step demo_armed EvClose demo_closed"
proof -
  show "task_step (fresh_run demo_task) (EvStart True) demo_started"
    using task_step.Start[of "fresh_run demo_task" True "demo_task\<lparr>tk_running := True\<rparr>" True]
    by (simp add: demo_task_defs)
  show "task_step demo_started (EvEnter None) demo_armed"
    using task_step.Enter[of demo_started "[]" True "[]" None
      "fst (checkedExecute True None 0 (rn_task demo_started))" "snd (checkedExecute True None 0 (rn_task demo_started))"]
    by (simp add: demo_task_defs)
  show "task_step demo_armed EvClose demo_closed"
    using task_step.Close[of demo_armed "Some 0" "demo_task"] by (simp add: demo_task_defs)
qed

theorem closed_task_never_runs_witness:
  "rn_runs demo_closed = rn_runs demo_armed \<and> rn_armed demo_closed \<subseteq> rn_armed demo_armed"
  by (rule closed_task_never_runs[of demo_armed "[]"]) (auto intro: demo_steps task_run.intros)

theorem started_task_goes_on_witness:
  "tk_running (rn_task demo_armed) \<and> continuations demo_armed = 1"
  by (rule started_task_goes_on[of demo_task True "[EvEnter None]"])
     (auto simp: undisturbed_def intro: demo_steps task_run.intros)

end
