(* ===== verification/Traffic.thy ===== *)
theory Traffic
  imports User_Table
begin

text \<open>
  Traffic counters (runtime/common/counter) and the connection wrappers that feed them.  A counter
  object maps a user to a pair of 64-bit atomic cells by pointer; a connection keeps the pointer it
  got when it was opened, so the cells live in a heap of the counter object.
\<close>

section \<open>State\<close>

record TrafficStorage =
  st_Up :: int
  st_Down :: int

definition TrafficStorage_zero :: TrafficStorage where
  "TrafficStorage_zero = \<lparr>st_Up = 0, st_Down = 0\<rparr>"

record TrafficCounter =
  tc_Counters :: "(string, nat) gomap"
  tc_heap :: "TrafficStorage list"

definition NewTrafficCounter :: TrafficCounter where
  "NewTrafficCounter = \<lparr>tc_Counters = [], tc_heap = []\<rparr>"

definition on_storage :: "nat \<Rightarrow> (TrafficStorage \<Rightarrow> TrafficStorage) \<Rightarrow> TrafficCounter \<Rightarrow> TrafficCounter" where
  "on_storage r f c = c\<lparr>tc_heap := (tc_heap c)[r := f (tc_heap c ! r)]\<rparr>"

definition UpCounter_Add :: "int \<Rightarrow> TrafficStorage \<Rightarrow> TrafficStorage" where
  "UpCounter_Add n s = s\<lparr>st_Up := add64 (st_Up s) n\<rparr>"

definition DownCounter_Add :: "int \<Rightarrow> TrafficStorage \<Rightarrow> TrafficStorage" where
  "DownCounter_Add n s = s\<lparr>st_Down := add64 (st_Down s) n\<rparr>"

section \<open>Operations\<close>

definition GetCounter :: "string \<Rightarrow> TrafficCounter \<Rightarrow> nat \<times> TrafficCounter" where
  "GetCounter uuid c = (case map_of (tc_Counters c) uuid of
     Some cts \<Rightarrow> (cts, c)
   | None \<Rightarrow> (let r = length (tc_heap c)
       in (r, c\<lparr>tc_Counters := mput uuid r (tc_Counters c), tc_heap := tc_heap c @ [TrafficStorage_zero]\<rparr>)))"

definition GetUpCount :: "string \<Rightarrow> TrafficCounter \<Rightarrow> int" where
  "GetUpCount uuid c = (case map_of (tc_Counters c) uuid of
     Some cts \<Rightarrow> st_Up (tc_heap c ! cts) | None \<Rightarrow> 0)"

definition GetDownCount :: "string \<Rightarrow> TrafficCounter \<Rightarrow> int" where
  "GetDownCount uuid c = (case map_of (tc_Counters c) uuid of
     Some cts \<Rightarrow> st_Down (tc_heap c ! cts) | None \<Rightarrow> 0)"

fun count_entries :: "('k, 'v) gomap \<Rightarrow> int \<Rightarrow> int" where
  "count_entries [] n = n"
| "count_entries (_ # m) n = count_entries m (n + 1)"

definition Len :: "TrafficCounter \<Rightarrow> int" where
  "Len c = count_entries (tc_Counters c) 0"

definition Reset :: "string \<Rightarrow> TrafficCounter \<Rightarrow> TrafficCounter" where
  "Reset uuid c = (case map_of (tc_Counters c) uuid of
     Some cts \<Rightarrow> on_storage cts (\<lambda>s. s\<lparr>st_Up := 0, st_Down := 0\<rparr>) c | None \<Rightarrow> c)"

definition Delete :: "string \<Rightarrow> TrafficCounter \<Rightarrow> TrafficCounter" where
  "Delete uuid c = c\<lparr>tc_Counters := mdel uuid (tc_Counters c)\<rparr>"

definition Rx :: "string \<Rightarrow> int \<Rightarrow> TrafficCounter \<Rightarrow> TrafficCounter" where
  "Rx uuid n c = (let (cts, c1) = GetCounter uuid c in on_storage cts (DownCounter_Add n) c1)"

definition Tx :: "string \<Rightarrow> int \<Rightarrow> TrafficCounter \<Rightarrow> TrafficCounter" where
  "Tx uuid n c = (let (cts, c1) = GetCounter uuid c in on_storage cts (UpCounter_Add n) c1)"

section \<open>Connections that count\<close>

text \<open>
  \<open>ConnCounter\<close> and \<open>PacketConnCounter\<close> hold the pointer of their user.  The outcome of the wrapped
  connection is an argument: the bytes moved and whether the call failed.
\<close>

definition ConnCounter_Read :: "nat \<Rightarrow> int \<Rightarrow> bool \<Rightarrow> TrafficCounter \<Rightarrow> TrafficCounter" where
  "ConnCounter_Read r n failed c = on_storage r (UpCounter_Add n) c"

definition ConnCounter_Write :: "nat \<Rightarrow> int \<Rightarrow> bool \<Rightarrow> TrafficCounter \<Rightarrow> TrafficCounter" where
  "ConnCounter_Write r n failed c = on_storage r (DownCounter_Add n) c"

definition ConnCounter_ReadBuffer :: "nat \<Rightarrow> int \<Rightarrow> bool \<Rightarrow> TrafficCounter \<Rightarrow> TrafficCounter" where
  "ConnCounter_ReadBuffer r len failed c =
     (if failed then c else if len > 0 then on_storage r (UpCounter_Add len) c else c)"

definition ConnCounter_WriteBuffer :: "nat \<Rightarrow> int \<Rightarrow> bool \<Rightarrow> TrafficCounter \<Rightarrow> TrafficCounter" where
  "ConnCounter_WriteBuffer r dataLen failed c =
     (if failed then c else if dataLen > 0 then on_storage r (DownCounter_Add dataLen) c else c)"

definition PacketConnCounter_ReadPacket :: "nat \<Rightarrow> int \<Rightarrow> bool \<Rightarrow> TrafficCounter \<Rightarrow> TrafficCounter" where
  "PacketConnCounter_ReadPacket r len failed c =
     (if failed then c else on_storage r (UpCounter_Add len) c)"

definition PacketConnCounter_WritePacket :: "nat \<Rightarrow> int \<Rightarrow> bool \<Rightarrow> TrafficCounter \<Rightarrow> TrafficCounter" where
  "PacketConnCounter_WritePacket r n failed c =
     (if failed then c else if n > 0 then on_storage r (DownCounter_Add n) c else c)"

text \<open>\<open>CounterReader\<close> counts what it read even when the read ended in an error.\<close>

definition CounterReader_ReadMultiBuffer :: "nat \<Rightarrow> int \<Rightarrow> bool \<Rightarrow> TrafficCounter \<Rightarrow> TrafficCounter" where
  "CounterReader_ReadMultiBuffer r len failed c =
     (if len > 0 then on_storage r (UpCounter_Add len) c else c)"

text \<open>\<open>XrayTrafficCounter\<close>, the view of one cell that Xray's statistics write to.\<close>

definition Xray_Value :: "int \<Rightarrow> int" where
  "Xray_Value v = v"

definition Xray_Set :: "int \<Rightarrow> int \<Rightarrow> int \<times> int" where
  "Xray_Set newValue v = (v, newValue)"

definition Xray_Add :: "int \<Rightarrow> int \<Rightarrow> int \<times> int" where
  "Xray_Add delta v = (add64 v delta, add64 v delta)"

section \<open>Well-formedness and counts\<close>

text \<open>Every pointer is allocated and no two users share one.\<close>

definition tc_inv :: "TrafficCounter \<Rightarrow> bool" where
  "tc_inv c \<longleftrightarrow> (\<forall>u r. map_of (tc_Counters c) u = Some r \<longrightarrow> r < length (tc_heap c)) \<and>
     (\<forall>u v r. map_of (tc_Counters c) u = Some r \<longrightarrow> map_of (tc_Counters c) v = Some r \<longrightarrow> u = v)"

lemma tc_inv_new [simp]: "tc_inv NewTrafficCounter"
  by (simp add: tc_inv_def NewTrafficCounter_def)

lemma on_storage_simps [simp]:
  "tc_Counters (on_storage r f c) = tc_Counters c" "length (tc_heap (on_storage r f c)) = length (tc_heap c)"
  by (simp_all add: on_storage_def)

lemma tc_inv_on_storage [simp]: "tc_inv (on_storage r f c) = tc_inv c"
  by (simp add: tc_inv_def)

lemma tc_inv_GetCounter: "tc_inv c \<Longrightarrow> tc_inv (snd (GetCounter u c))"
  by (auto simp: tc_inv_def GetCounter_def Let_def less_Suc_eq split: option.splits if_splits)

lemma tc_inv_Rx: "tc_inv c \<Longrightarrow> tc_inv (Rx u n c)"
  using tc_inv_GetCounter [of c u] by (simp add: Rx_def Let_def split_def)

lemma tc_inv_Tx: "tc_inv c \<Longrightarrow> tc_inv (Tx u n c)"
  using tc_inv_GetCounter [of c u] by (simp add: Tx_def Let_def split_def)

lemma tc_inv_Reset: "tc_inv c \<Longrightarrow> tc_inv (Reset u c)"
  by (simp add: Reset_def split: option.splits)

lemma tc_inv_Delete: "tc_inv c \<Longrightarrow> tc_inv (Delete u c)"
  by (auto simp: tc_inv_def Delete_def)

lemma GetCounter_ptr:
  "tc_inv c \<Longrightarrow> GetCounter u c = (r, c') \<Longrightarrow>
   map_of (tc_Counters c') u = Some r \<and> r < length (tc_heap c') \<and>
   (\<forall>v. GetUpCount v c' = GetUpCount v c \<and> GetDownCount v c' = GetDownCount v c)"
  by (auto simp: GetCounter_def GetUpCount_def GetDownCount_def Let_def tc_inv_def nth_append
      TrafficStorage_zero_def split: option.splits if_splits)

lemma on_storage_counts:
  assumes "tc_inv c" and "map_of (tc_Counters c) u = Some r"
  shows "GetUpCount v (on_storage r f c) =
      (if v = u then st_Up (f (tc_heap c ! r)) else GetUpCount v c)"
    and "GetDownCount v (on_storage r f c) =
      (if v = u then st_Down (f (tc_heap c ! r)) else GetDownCount v c)"
  using assms unfolding tc_inv_def
  by (auto simp: GetUpCount_def GetDownCount_def on_storage_def nth_list_update split: option.splits)

lemma counts_ptr:
  "map_of (tc_Counters c) u = Some r \<Longrightarrow>
   st_Up (tc_heap c ! r) = GetUpCount u c \<and> st_Down (tc_heap c ! r) = GetDownCount u c"
  by (simp add: GetUpCount_def GetDownCount_def)

section \<open>Runs\<close>

text \<open>The operations on one counter object as a sequence of events.\<close>

datatype traffic_event = EvTx string int | EvRx string int | EvReset string | EvDelete string

fun traffic_step :: "traffic_event \<Rightarrow> TrafficCounter \<Rightarrow> TrafficCounter" where
  "traffic_step (EvTx u n) c = Tx u n c"
| "traffic_step (EvRx u n) c = Rx u n c"
| "traffic_step (EvReset u) c = Reset u c"
| "traffic_step (EvDelete u) c = Delete u c"

text \<open>The counts of one user after a sequence of events, with no heap and no table.\<close>

fun count_spec :: "string \<Rightarrow> traffic_event list \<Rightarrow> int \<times> int \<Rightarrow> int \<times> int" where
  "count_spec u [] p = p"
| "count_spec u (e # es) (up, down) = count_spec u es (case e of
     EvTx v n \<Rightarrow> if v = u then (add64 up n, down) else (up, down)
   | EvRx v n \<Rightarrow> if v = u then (up, add64 down n) else (up, down)
   | EvReset v \<Rightarrow> if v = u then (0, 0) else (up, down)
   | EvDelete v \<Rightarrow> if v = u then (0, 0) else (up, down))"

lemma Tx_counts:
  assumes "tc_inv c"
  shows "GetUpCount v (Tx u n c) = (if v = u then add64 (GetUpCount u c) n else GetUpCount v c)"
    and "GetDownCount v (Tx u n c) = GetDownCount v c"
proof -
  obtain r c' where g: "GetCounter u c = (r, c')" by fastforce
  note p = GetCounter_ptr [OF assms g] and i = tc_inv_GetCounter [OF assms, of u]
  from p have ptr: "map_of (tc_Counters c') u = Some r" by simp
  from i g have inv: "tc_inv c'" by simp
  show "GetUpCount v (Tx u n c) = (if v = u then add64 (GetUpCount u c) n else GetUpCount v c)"
    using p counts_ptr [OF ptr] on_storage_counts(1) [OF inv ptr]
    by (simp add: Tx_def g UpCounter_Add_def)
  show "GetDownCount v (Tx u n c) = GetDownCount v c"
    using p counts_ptr [OF ptr] on_storage_counts(2) [OF inv ptr]
    by (simp add: Tx_def g UpCounter_Add_def)
qed

lemma Rx_counts:
  assumes "tc_inv c"
  shows "GetDownCount v (Rx u n c) = (if v = u then add64 (GetDownCount u c) n else GetDownCount v c)"
    and "GetUpCount v (Rx u n c) = GetUpCount v c"
proof -
  obtain r c' where g: "GetCounter u c = (r, c')" by fastforce
  note p = GetCounter_ptr [OF assms g] and i = tc_inv_GetCounter [OF assms, of u]
  from p have ptr: "map_of (tc_Counters c') u = Some r" by simp
  from i g have inv: "tc_inv c'" by simp
  show "GetDownCount v (Rx u n c) = (if v = u then add64 (GetDownCount u c) n else GetDownCount v c)"
    using p counts_ptr [OF ptr] on_storage_counts(2) [OF inv ptr]
    by (simp add: Rx_def g DownCounter_Add_def)
  show "GetUpCount v (Rx u n c) = GetUpCount v c"
    using p counts_ptr [OF ptr] on_storage_counts(1) [OF inv ptr]
    by (simp add: Rx_def g DownCounter_Add_def)
qed

lemma Reset_counts:
  assumes "tc_inv c"
  shows "GetUpCount v (Reset u c) = (if v = u then 0 else GetUpCount v c)"
    and "GetDownCount v (Reset u c) = (if v = u then 0 else GetDownCount v c)"
proof -
  let ?z = "\<lambda>s. s\<lparr>st_Up := 0, st_Down := 0\<rparr>"
  have "GetUpCount v (Reset u c) = (if v = u then 0 else GetUpCount v c) \<and>
        GetDownCount v (Reset u c) = (if v = u then 0 else GetDownCount v c)"
  proof (cases "map_of (tc_Counters c) u")
    case None
    then show ?thesis by (simp add: Reset_def GetUpCount_def GetDownCount_def)
  next
    case (Some r)
    then have "Reset u c = on_storage r ?z c" by (simp add: Reset_def)
    with on_storage_counts [OF assms Some, of v ?z] show ?thesis by simp
  qed
  then show "GetUpCount v (Reset u c) = (if v = u then 0 else GetUpCount v c)"
    and "GetDownCount v (Reset u c) = (if v = u then 0 else GetDownCount v c)" by simp_all
qed

lemma Delete_counts:
  "GetUpCount v (Delete u c) = (if v = u then 0 else GetUpCount v c)"
  "GetDownCount v (Delete u c) = (if v = u then 0 else GetDownCount v c)"
  by (auto simp: Delete_def GetUpCount_def GetDownCount_def split: option.split)

lemma tc_inv_step: "tc_inv c \<Longrightarrow> tc_inv (traffic_step e c)"
  by (cases e) (auto intro: tc_inv_Rx tc_inv_Tx tc_inv_Reset tc_inv_Delete)

lemma run_counts:
  "tc_inv c \<Longrightarrow>
   (GetUpCount u (fold traffic_step es c), GetDownCount u (fold traffic_step es c)) =
   count_spec u es (GetUpCount u c, GetDownCount u c)"
proof (induction es arbitrary: c)
  case (Cons e es)
  from Cons.IH [OF tc_inv_step [OF Cons.prems, of e]] show ?case
    by (cases e) (auto simp: Tx_counts [OF Cons.prems] Rx_counts [OF Cons.prems]
        Reset_counts [OF Cons.prems] Delete_counts)
qed simp

text \<open>Whatever sequence of transfers, resets and deletions a counter object sees, the counts of a
  user are the 64-bit sums of that user's own transfers since its last reset or deletion: the heap
  of shared cells never mixes users up.\<close>

theorem traffic_counts_refine:
  "(GetUpCount u (fold traffic_step es NewTrafficCounter),
    GetDownCount u (fold traffic_step es NewTrafficCounter)) = count_spec u es (0, 0)"
  using run_counts [OF tc_inv_new, of u es]
  by (simp add: NewTrafficCounter_def GetUpCount_def GetDownCount_def)

text \<open>a connection opened before its user's entry was deleted keeps counting into the cells it was
  given, which no report can reach: the counts of every user stay what the deletion left.\<close>

theorem deleted_counter_loses_traffic:
  assumes "tc_inv c" and "GetCounter u c = (r, c1)"
  shows "GetUpCount v (ConnCounter_Read r n failed (Delete u c1)) = (if v = u then 0 else GetUpCount v c)"
proof -
  from GetCounter_ptr [OF assms]
  have ptr: "map_of (tc_Counters c1) u = Some r" and eq: "GetUpCount v c1 = GetUpCount v c" by auto
  have inv: "tc_inv c1" using tc_inv_GetCounter [OF assms(1), of u] assms(2) by simp
  have "GetUpCount v (on_storage r f (Delete u c1)) = (if v = u then 0 else GetUpCount v c1)" for f
    using inv ptr unfolding tc_inv_def
    by (auto simp: GetUpCount_def Delete_def on_storage_def nth_list_update split: option.splits)
  then show ?thesis by (simp add: ConnCounter_Read_def eq)
qed

theorem deleted_counter_loses_traffic_witness:
  "GetUpCount ''u'' (ConnCounter_Read 0 100 False (Delete ''u'' (snd (GetCounter ''u'' NewTrafficCounter)))) = 0"
proof -
  have "GetCounter ''u'' NewTrafficCounter = (0, snd (GetCounter ''u'' NewTrafficCounter))" by code_simp
  from deleted_counter_loses_traffic [OF tc_inv_new this, of "''u''" 100 False] show ?thesis by simp
qed

end
