(* ===== verification/Dispatcher.thy ===== *)
theory Dispatcher
  imports Limiter Traffic
begin

text \<open>
  Xray's dispatcher as the runtime replaces it (runtime/core/xray/app/dispatcher: linkmanager.go and
  default.go): the managers that know the open links of a user, the admission of a connection, and the
  choice of an outbound.  Pipes, connections and managed writers are pointers; what was closed or
  interrupted is recorded by endpoint.
\<close>

section \<open>Links\<close>

datatype endpoint =
    Connection nat | UplinkWriter nat | UplinkReader nat | DownlinkWriter nat | DownlinkReader nat
  | GivenWriter nat | GivenReader nat

datatype Writer =
    PipeWriter endpoint
  | Managed nat
  | RateLimitWriter Writer Bucket
  | SizeStatWriter Writer nat nat

text \<open>A pipe or a reader given by the inbound; the counting and the caching reader wrap another one.\<close>

datatype Reader = PipeReader endpoint | CounterReader Reader nat nat | CachedReader Reader

record Link =
  lk_Reader :: Reader
  lk_Writer :: Writer

record ManagedWriter =
  mw_writer :: endpoint
  mw_manager :: nat
  mw_connection :: endpoint

record LinkManager =
  lm_links :: "(nat, Reader) gomap"
  lm_closed :: bool

text \<open>The dispatcher with the heaps its pointers lead to; \<open>dp_released\<close> are the closed writers and
  connections and the interrupted readers.\<close>

record Dispatcher =
  dp_Counter :: "(string, nat) gomap"
  dp_AllowedUsers :: "(string, bool) gomap"
  dp_LinkManagers :: "(string, nat) gomap"
  dp_counters :: "TrafficCounter list"
  dp_managers :: "LinkManager list"
  dp_writers :: "ManagedWriter list"
  dp_released :: "endpoint set"

definition release :: "endpoint \<Rightarrow> Dispatcher \<Rightarrow> Dispatcher" where
  "release e d = d\<lparr>dp_released := insert e (dp_released d)\<rparr>"

definition on_manager :: "nat \<Rightarrow> (LinkManager \<Rightarrow> LinkManager) \<Rightarrow> Dispatcher \<Rightarrow> Dispatcher" where
  "on_manager m f d = d\<lparr>dp_managers := (dp_managers d)[m := f (dp_managers d ! m)]\<rparr>"

definition RemoveWriter :: "nat \<Rightarrow> nat \<Rightarrow> Dispatcher \<Rightarrow> Dispatcher" where
  "RemoveWriter m w d = on_manager m (\<lambda>lm. lm\<lparr>lm_links := mdel w (lm_links lm)\<rparr>) d"

definition ManagedWriter_Close :: "nat \<Rightarrow> Dispatcher \<Rightarrow> Dispatcher" where
  "ManagedWriter_Close w d =
     (let mw = dp_writers d ! w in release (mw_writer mw) (RemoveWriter (mw_manager mw) w d))"

fun close_writer :: "Writer \<Rightarrow> Dispatcher \<Rightarrow> Dispatcher" where
  "close_writer (PipeWriter e) d = release e d"
| "close_writer (Managed w) d = ManagedWriter_Close w d"
| "close_writer (RateLimitWriter x b) d = close_writer x d"
| "close_writer (SizeStatWriter x c r) d = close_writer x d"

text \<open>The caching reader passes an interruption on to a pipe only.\<close>

fun interrupt :: "Reader \<Rightarrow> Dispatcher \<Rightarrow> Dispatcher" where
  "interrupt (PipeReader e) d = release e d"
| "interrupt (CounterReader x c r) d = interrupt x d"
| "interrupt (CachedReader x) d = (case x of
     PipeReader (UplinkReader i) \<Rightarrow> release (UplinkReader i) d
   | PipeReader (DownlinkReader i) \<Rightarrow> release (DownlinkReader i) d
   | _ \<Rightarrow> d)"

text \<open>Closing what belongs to one entry of a manager: connection, writer, reader.\<close>

definition close_entry :: "nat \<times> Reader \<Rightarrow> Dispatcher \<Rightarrow> Dispatcher" where
  "close_entry wr d = interrupt (snd wr)
     (ManagedWriter_Close (fst wr) (release (mw_connection (dp_writers d ! fst wr)) d))"

definition AddLink :: "nat \<Rightarrow> nat \<Rightarrow> Reader \<Rightarrow> Dispatcher \<Rightarrow> Dispatcher" where
  "AddLink m w r d =
     (if lm_closed (dp_managers d ! m) then close_entry (w, r) d
      else on_manager m (\<lambda>lm. lm\<lparr>lm_links := mput w r (lm_links lm)\<rparr>) d)"

definition CloseAll :: "nat \<Rightarrow> Dispatcher \<Rightarrow> Dispatcher" where
  "CloseAll m d =
     (let links = lm_links (dp_managers d ! m)
      in fold close_entry links (on_manager m (\<lambda>lm. lm\<lparr>lm_links := [], lm_closed := True\<rparr>) d))"

section \<open>The tables of the dispatcher\<close>

definition linkManager :: "string \<Rightarrow> Dispatcher \<Rightarrow> nat \<times> Dispatcher" where
  "linkManager email d = (case map_of (dp_LinkManagers d) email of
     Some m \<Rightarrow> (m, d)
   | None \<Rightarrow> (let m = length (dp_managers d)
       in (m, d\<lparr>dp_LinkManagers := mput email m (dp_LinkManagers d),
                dp_managers := dp_managers d @ [\<lparr>lm_links = [], lm_closed = False\<rparr>]\<rparr>)))"

definition trafficCounter :: "string \<Rightarrow> Dispatcher \<Rightarrow> nat \<times> Dispatcher" where
  "trafficCounter tag d = (case map_of (dp_Counter d) tag of
     Some t \<Rightarrow> (t, d)
   | None \<Rightarrow> (let t = length (dp_counters d)
       in (t, d\<lparr>dp_Counter := mput tag t (dp_Counter d), dp_counters := dp_counters d @ [NewTrafficCounter]\<rparr>)))"

definition new_writer :: "ManagedWriter \<Rightarrow> Dispatcher \<Rightarrow> nat \<times> Dispatcher" where
  "new_writer mw d = (length (dp_writers d), d\<lparr>dp_writers := dp_writers d @ [mw]\<rparr>)"

definition user_counter :: "nat \<Rightarrow> string \<Rightarrow> Dispatcher \<Rightarrow> nat \<times> Dispatcher" where
  "user_counter t email d = (case GetCounter email (dp_counters d ! t) of
     (ts, c) \<Rightarrow> (ts, d\<lparr>dp_counters := (dp_counters d)[t := c]\<rparr>))"

definition forget_manager :: "string \<Rightarrow> nat \<Rightarrow> Dispatcher \<Rightarrow> Dispatcher" where
  "forget_manager email m d =
     (if map_of (dp_LinkManagers d) email = Some m
      then d\<lparr>dp_LinkManagers := mdel email (dp_LinkManagers d)\<rparr> else d)"

section \<open>Admission\<close>

text \<open>The inbound of a session: the user's email is empty for a user without one.\<close>

record Inbound =
  ib_Tag :: string
  ib_User :: "string option"
  ib_Source :: string
  ib_SourceTCP :: bool
  ib_CanSpliceCopy :: int

text \<open>The limiter of the inbound and its decision.\<close>

definition check_user ::
  "int \<Rightarrow> bool \<Rightarrow> Inbound \<Rightarrow> string \<Rightarrow> 'rx limiters \<Rightarrow> (nat \<times> Bucket option) res \<times> 'rx limiters" where
  "check_user now tcp ib email lims = (case GetLimiter (ib_Tag ib) lims of
     Inl e \<Rightarrow> (Inl (''get limiter '' @ ib_Tag ib @ '' error: '' @ e), lims)
   | Inr l \<Rightarrow> (case CheckLimit now email (ib_Source ib) tcp (ib_SourceTCP ib) (deref lims l) of
       ((w, reject), lim) \<Rightarrow>
         (let lims = update_ref l (\<lambda>_. lim) lims
          in if reject then (Inl (''Limited '' @ email @ '' by conn or ip''), lims) else (Inr (l, w), lims))))"

definition limited :: "Bucket option \<Rightarrow> Writer \<Rightarrow> Writer" where
  "limited w x = (case w of None \<Rightarrow> x | Some b \<Rightarrow> RateLimitWriter x b)"

definition spliced :: "Bucket option \<Rightarrow> Inbound \<Rightarrow> Inbound" where
  "spliced w ib = (case w of None \<Rightarrow> ib | Some b \<Rightarrow> ib\<lparr>ib_CanSpliceCopy := 3\<rparr>)"

definition has_user :: "Inbound option \<Rightarrow> (Inbound \<times> string) option" where
  "has_user sessionInbound = (case sessionInbound of
     None \<Rightarrow> None
   | Some ib \<Rightarrow> (case ib_User ib of
       None \<Rightarrow> None | Some email \<Rightarrow> if length email > 0 then Some (ib, email) else None))"

text \<open>The inbound link, the outbound link, the limiter of the user; \<open>i\<close> names the connection.\<close>

definition getLink ::
  "int \<Rightarrow> bool \<Rightarrow> nat \<Rightarrow> Inbound option \<Rightarrow> Dispatcher \<Rightarrow> 'rx limiters
     \<Rightarrow> (Link \<times> Link \<times> nat option) res \<times> Inbound option \<times> Dispatcher \<times> 'rx limiters" where
  "getLink now tcp i sessionInbound d lims =
     (let inboundLink = \<lparr>lk_Reader = PipeReader (DownlinkReader i), lk_Writer = PipeWriter (UplinkWriter i)\<rparr>;
          outboundLink = \<lparr>lk_Reader = PipeReader (UplinkReader i), lk_Writer = PipeWriter (DownlinkWriter i)\<rparr>
      in case has_user sessionInbound of
           None \<Rightarrow> (Inr (inboundLink, outboundLink, None), sessionInbound, d, lims)
         | Some (ib, email) \<Rightarrow> (case check_user now tcp ib email lims of
             (Inl e, lims) \<Rightarrow>
               (Inl e, sessionInbound,
                interrupt (lk_Reader inboundLink) (interrupt (lk_Reader outboundLink)
                  (close_writer (lk_Writer inboundLink) (close_writer (lk_Writer outboundLink) d))), lims)
           | (Inr (l, w), lims) \<Rightarrow>
               (let (lm, d) = linkManager email d;
                    (mw, d) = new_writer \<lparr>mw_writer = UplinkWriter i, mw_manager = lm, mw_connection = Connection i\<rparr> d;
                    d = AddLink lm mw (lk_Reader outboundLink) d;
                    (t, d) = trafficCounter (ib_Tag ib) d;
                    (ts, d) = user_counter t email d;
                    inboundLink = inboundLink\<lparr>lk_Writer := SizeStatWriter (limited w (Managed mw)) t ts\<rparr>;
                    outboundLink = outboundLink\<lparr>lk_Writer := SizeStatWriter (limited w (lk_Writer outboundLink)) t ts\<rparr>
                in if \<not> mhas (dp_AllowedUsers d) email then
                     (Inl ''user has been revoked'', Some (spliced w ib),
                      interrupt (lk_Reader inboundLink) (close_writer (lk_Writer outboundLink)
                        (forget_manager email lm (CloseAll lm d))), lims)
                   else (Inr (inboundLink, outboundLink, Some l), Some (spliced w ib), d, lims))))"

text \<open>The same for a link that the inbound brings along.\<close>

definition admitLink ::
  "int \<Rightarrow> bool \<Rightarrow> nat \<Rightarrow> Inbound option \<Rightarrow> Dispatcher \<Rightarrow> 'rx limiters
     \<Rightarrow> (Link \<times> nat option) res \<times> Inbound option \<times> Dispatcher \<times> 'rx limiters" where
  "admitLink now tcp i sessionInbound d lims =
     (let outbound = \<lparr>lk_Reader = PipeReader (GivenReader i), lk_Writer = PipeWriter (GivenWriter i)\<rparr>
      in case has_user sessionInbound of
           None \<Rightarrow> (Inr (outbound, None), sessionInbound, d, lims)
         | Some (ib, email) \<Rightarrow> (case check_user now tcp ib email lims of
             (Inl e, lims) \<Rightarrow>
               (Inl e, sessionInbound, interrupt (lk_Reader outbound) (close_writer (lk_Writer outbound) d), lims)
           | (Inr (l, w), lims) \<Rightarrow>
               (let (lm, d) = linkManager email d;
                    (mw, d) = new_writer \<lparr>mw_writer = GivenWriter i, mw_manager = lm, mw_connection = Connection i\<rparr> d;
                    (t, d) = trafficCounter (ib_Tag ib) d;
                    (ts, d) = user_counter t email d;
                    outbound = outbound\<lparr>lk_Reader := CounterReader (lk_Reader outbound) t ts\<rparr>;
                    d = AddLink lm mw (lk_Reader outbound) d;
                    outbound = outbound\<lparr>lk_Writer := SizeStatWriter (limited w (Managed mw)) t ts\<rparr>
                in if \<not> mhas (dp_AllowedUsers d) email then
                     (Inl ''user has been revoked'', Some (spliced w ib), forget_manager email lm (CloseAll lm d), lims)
                   else (Inr (outbound, Some l), Some (spliced w ib), d, lims))))"

end
