(* ===== verification/Link_Revocation.thy ===== *)
theory Link_Revocation
  imports Dispatcher
begin

text \<open>
  Revoking users while connections are being admitted (DefaultDispatcher.getLink against DelUsers,
  retireNodeUsers and AddUsers of runtime/core/xray/user.go).  The goroutines share three concurrent maps and
  the managers; each access is one step, and the steps interleave freely.  What a goroutine closes
  after it left a manager's mutex is counted with that step: nothing reads what was closed.
\<close>

section \<open>What the operations do to the parts of the dispatcher\<close>

fun reader_ends :: "Reader \<Rightarrow> endpoint set" where
  "reader_ends (PipeReader e) = {e}"
| "reader_ends (CounterReader x c r) = reader_ends x"
| "reader_ends (CachedReader x) = (case x of PipeReader (UplinkReader i) \<Rightarrow> {UplinkReader i}
     | PipeReader (DownlinkReader i) \<Rightarrow> {DownlinkReader i} | _ \<Rightarrow> {})"

fun writer_end :: "Dispatcher \<Rightarrow> Writer \<Rightarrow> endpoint" where
  "writer_end d (PipeWriter e) = e"
| "writer_end d (Managed w) = mw_writer (dp_writers d ! w)"
| "writer_end d (RateLimitWriter x b) = writer_end d x"
| "writer_end d (SizeStatWriter x c r) = writer_end d x"

lemma interrupt_released: "interrupt r d = d\<lparr>dp_released := reader_ends r \<union> dp_released d\<rparr>"
  by (induction r) (auto simp: release_def split: Reader.split endpoint.split)

lemma release_simps [simp]:
  "dp_Counter (release e d) = dp_Counter d" "dp_AllowedUsers (release e d) = dp_AllowedUsers d"
  "dp_LinkManagers (release e d) = dp_LinkManagers d" "dp_counters (release e d) = dp_counters d"
  "dp_managers (release e d) = dp_managers d" "dp_writers (release e d) = dp_writers d"
  "dp_released (release e d) = insert e (dp_released d)"
  by (simp_all add: release_def)

lemma on_manager_simps [simp]:
  "dp_Counter (on_manager m f d) = dp_Counter d" "dp_AllowedUsers (on_manager m f d) = dp_AllowedUsers d"
  "dp_LinkManagers (on_manager m f d) = dp_LinkManagers d" "dp_counters (on_manager m f d) = dp_counters d"
  "dp_writers (on_manager m f d) = dp_writers d" "dp_released (on_manager m f d) = dp_released d"
  "length (dp_managers (on_manager m f d)) = length (dp_managers d)"
  by (simp_all add: on_manager_def)

lemma nth_update: "xs[i := x] ! k = (if k = i \<and> i < length xs then x else xs ! k)"
  by (cases "i < length xs") (auto simp: list_update_beyond)

lemma on_manager_nth:
  "m < length (dp_managers d) \<Longrightarrow>
   dp_managers (on_manager m f d) ! k = (if k = m then f (dp_managers d ! m) else dp_managers d ! k)"
  by (auto simp: on_manager_def nth_list_update)

lemma close_simps [simp]:
  "dp_Counter (ManagedWriter_Close w d) = dp_Counter d" "dp_AllowedUsers (ManagedWriter_Close w d) = dp_AllowedUsers d"
  "dp_LinkManagers (ManagedWriter_Close w d) = dp_LinkManagers d" "dp_counters (ManagedWriter_Close w d) = dp_counters d"
  "dp_writers (ManagedWriter_Close w d) = dp_writers d"
  "length (dp_managers (ManagedWriter_Close w d)) = length (dp_managers d)"
  "dp_released (ManagedWriter_Close w d) = insert (mw_writer (dp_writers d ! w)) (dp_released d)"
  by (simp_all add: ManagedWriter_Close_def RemoveWriter_def Let_def)

lemma close_entry_simps [simp]:
  "dp_Counter (close_entry wr d) = dp_Counter d" "dp_AllowedUsers (close_entry wr d) = dp_AllowedUsers d"
  "dp_LinkManagers (close_entry wr d) = dp_LinkManagers d" "dp_counters (close_entry wr d) = dp_counters d"
  "dp_writers (close_entry wr d) = dp_writers d"
  "length (dp_managers (close_entry wr d)) = length (dp_managers d)"
  "dp_released (close_entry wr d) = reader_ends (snd wr) \<union> {mw_writer (dp_writers d ! fst wr),
      mw_connection (dp_writers d ! fst wr)} \<union> dp_released d"
  by (simp_all add: close_entry_def interrupt_released)

text \<open>Closing a writer takes its entry out of its manager, if there, and changes no manager otherwise.\<close>

lemma ManagedWriter_Close_managers:
  "lm_closed (dp_managers (ManagedWriter_Close w d) ! k) = lm_closed (dp_managers d ! k)"
  "w' \<noteq> w \<Longrightarrow> mhas (lm_links (dp_managers (ManagedWriter_Close w d) ! k)) w' = mhas (lm_links (dp_managers d ! k)) w'"
  "mhas (lm_links (dp_managers (ManagedWriter_Close w d) ! k)) w' \<Longrightarrow> mhas (lm_links (dp_managers d ! k)) w'"
  by (auto simp: ManagedWriter_Close_def RemoveWriter_def on_manager_def nth_update release_def Let_def
      split: if_splits)

lemma close_entry_managers:
  "lm_closed (dp_managers (close_entry wr d) ! k) = lm_closed (dp_managers d ! k)"
  "w' \<noteq> fst wr \<Longrightarrow> mhas (lm_links (dp_managers (close_entry wr d) ! k)) w' = mhas (lm_links (dp_managers d ! k)) w'"
  by (simp_all add: close_entry_def interrupt_released ManagedWriter_Close_managers)

lemma fold_close_simps [simp]:
  "dp_Counter (fold close_entry ls d) = dp_Counter d" "dp_AllowedUsers (fold close_entry ls d) = dp_AllowedUsers d"
  "dp_LinkManagers (fold close_entry ls d) = dp_LinkManagers d" "dp_counters (fold close_entry ls d) = dp_counters d"
  "dp_writers (fold close_entry ls d) = dp_writers d"
  "length (dp_managers (fold close_entry ls d)) = length (dp_managers d)"
  by (induction ls arbitrary: d) simp_all

lemma fold_close_managers:
  "lm_closed (dp_managers (fold close_entry ls d) ! k) = lm_closed (dp_managers d ! k)"
  "w' \<notin> fst ` set ls \<Longrightarrow>
     mhas (lm_links (dp_managers (fold close_entry ls d) ! k)) w' = mhas (lm_links (dp_managers d ! k)) w'"
  by (induction ls arbitrary: d) (simp_all add: close_entry_managers)

lemma fold_close_released:
  "dp_released (fold close_entry ls d) = dp_released d \<union>
     (\<Union>(w, r)\<in>set ls. reader_ends r \<union> {mw_writer (dp_writers d ! w), mw_connection (dp_writers d ! w)})"
  by (induction ls arbitrary: d) auto

lemma CloseAll_simps [simp]:
  "dp_Counter (CloseAll m d) = dp_Counter d" "dp_AllowedUsers (CloseAll m d) = dp_AllowedUsers d"
  "dp_LinkManagers (CloseAll m d) = dp_LinkManagers d" "dp_counters (CloseAll m d) = dp_counters d"
  "dp_writers (CloseAll m d) = dp_writers d" "length (dp_managers (CloseAll m d)) = length (dp_managers d)"
  by (simp_all add: CloseAll_def Let_def)

lemma CloseAll_closed:
  "m < length (dp_managers d) \<Longrightarrow> lm_closed (dp_managers (CloseAll m d) ! k) = (k = m \<or> lm_closed (dp_managers d ! k))"
  by (simp add: CloseAll_def Let_def fold_close_managers on_manager_nth)

lemma CloseAll_released:
  "dp_released (CloseAll m d) = dp_released d \<union>
     (\<Union>(w, r)\<in>set (lm_links (dp_managers d ! m)).
        reader_ends r \<union> {mw_writer (dp_writers d ! w), mw_connection (dp_writers d ! w)})"
  by (simp add: CloseAll_def Let_def fold_close_released)

text \<open>An entry of a manager either stays where it is or its writer is closed.\<close>

lemma CloseAll_links:
  assumes "m < length (dp_managers d)" and "mhas (lm_links (dp_managers d ! k)) w"
  shows "mw_writer (dp_writers d ! w) \<in> dp_released (CloseAll m d) \<or>
    k \<noteq> m \<and> mhas (lm_links (dp_managers (CloseAll m d) ! k)) w"
proof (cases "w \<in> fst ` set (lm_links (dp_managers d ! m))")
  case True
  then show ?thesis by (auto simp: CloseAll_released)
next
  case False
  with assms have "k \<noteq> m" by (auto simp: mhas_set)
  with False assms show ?thesis
    by (simp add: CloseAll_def Let_def fold_close_managers on_manager_nth)
qed

section \<open>Goroutines\<close>

text \<open>
  A connection goroutine of an email: it got the manager, it added its link with a managed writer, it was
  admitted, it closed the manager because the user was not allowed, it was rejected.  The other
  goroutine changes users, one at a time, under a mutex.
\<close>

datatype thread =
    HasManager string nat | Added string nat nat | Admitted string nat | Closed string nat | Rejected

datatype admin =
    Idle | Deleting string | Loaded string "nat option" | Closing string
  | Retiring string | Taken string "nat option" | Adding string

record world =
  wd_disp :: Dispatcher
  wd_threads :: "(nat, thread) gomap"
  wd_admin :: admin

datatype world_event =
    EvConnect nat string | EvAddLink nat | EvCheck nat | EvForget nat | EvFinish nat
  | EvDelUser string | EvLoad | EvCloseAll | EvDropManager
  | EvRetireUser string | EvTake | EvCloseTaken | EvAddUser string | EvAllow

definition disallow :: "string \<Rightarrow> Dispatcher \<Rightarrow> Dispatcher" where
  "disallow e d = d\<lparr>dp_AllowedUsers := mdel e (dp_AllowedUsers d)\<rparr>"

definition allow :: "string \<Rightarrow> Dispatcher \<Rightarrow> Dispatcher" where
  "allow e d = d\<lparr>dp_AllowedUsers := mput e True (dp_AllowedUsers d)\<rparr>"

definition drop_manager :: "string \<Rightarrow> Dispatcher \<Rightarrow> Dispatcher" where
  "drop_manager e d = d\<lparr>dp_LinkManagers := mdel e (dp_LinkManagers d)\<rparr>"

definition set_thread :: "nat \<Rightarrow> thread \<Rightarrow> Dispatcher \<Rightarrow> world \<Rightarrow> world" where
  "set_thread i t d W = W\<lparr>wd_disp := d, wd_threads := mput i t (wd_threads W)\<rparr>"

definition set_admin :: "admin \<Rightarrow> Dispatcher \<Rightarrow> world \<Rightarrow> world" where
  "set_admin a d W = W\<lparr>wd_disp := d, wd_admin := a\<rparr>"

text \<open>One access of a connection goroutine.\<close>

fun connect_step :: "nat \<Rightarrow> thread \<Rightarrow> Dispatcher \<Rightarrow> (thread \<times> Dispatcher) option" where
  "connect_step i (HasManager e m) d =
     (let (w, d) = new_writer \<lparr>mw_writer = UplinkWriter i, mw_manager = m, mw_connection = Connection i\<rparr> d
      in Some (Added e m w, AddLink m w (PipeReader (UplinkReader i)) d))"
| "connect_step i (Added e m w) d =
     (if mhas (dp_AllowedUsers d) e then Some (Admitted e w, d) else Some (Closed e m, CloseAll m d))"
| "connect_step i (Closed e m) d = Some (Rejected, forget_manager e m d)"
| "connect_step i (Admitted e w) d = Some (Admitted e w, ManagedWriter_Close w d)"
| "connect_step i Rejected d = None"

fun wants :: "world_event \<Rightarrow> thread \<Rightarrow> bool" where
  "wants (EvAddLink i) (HasManager e m) = True"
| "wants (EvCheck i) (Added e m w) = True"
| "wants (EvForget i) (Closed e m) = True"
| "wants (EvFinish i) (Admitted e w) = True"
| "wants _ _ = False"

definition thread_event :: "nat \<Rightarrow> world_event \<Rightarrow> world \<Rightarrow> world option" where
  "thread_event i ev W = (case map_of (wd_threads W) i of
     None \<Rightarrow> None
   | Some t \<Rightarrow> if wants ev t then map_option (\<lambda>(t', d). set_thread i t' d W) (connect_step i t (wd_disp W)) else None)"

fun world_step :: "world_event \<Rightarrow> world \<Rightarrow> world option" where
  "world_step (EvConnect i e) W =
     (if mhas (wd_threads W) i then None
      else (let (m, d) = linkManager e (wd_disp W) in Some (set_thread i (HasManager e m) d W)))"
| "world_step (EvAddLink i) W = thread_event i (EvAddLink i) W"
| "world_step (EvCheck i) W = thread_event i (EvCheck i) W"
| "world_step (EvForget i) W = thread_event i (EvForget i) W"
| "world_step (EvFinish i) W = thread_event i (EvFinish i) W"
| "world_step (EvDelUser e) W =
     (if wd_admin W = Idle then Some (set_admin (Deleting e) (disallow e (wd_disp W)) W) else None)"
| "world_step EvLoad W = (case wd_admin W of
     Deleting e \<Rightarrow> Some (set_admin (Loaded e (map_of (dp_LinkManagers (wd_disp W)) e)) (wd_disp W) W) | _ \<Rightarrow> None)"
| "world_step EvCloseAll W = (case wd_admin W of
     Loaded e None \<Rightarrow> Some (set_admin Idle (wd_disp W) W)
   | Loaded e (Some m) \<Rightarrow> Some (set_admin (Closing e) (CloseAll m (wd_disp W)) W) | _ \<Rightarrow> None)"
| "world_step EvDropManager W = (case wd_admin W of
     Closing e \<Rightarrow> Some (set_admin Idle (drop_manager e (wd_disp W)) W) | _ \<Rightarrow> None)"
| "world_step (EvRetireUser e) W =
     (if wd_admin W = Idle then Some (set_admin (Retiring e) (disallow e (wd_disp W)) W) else None)"
| "world_step EvTake W = (case wd_admin W of
     Retiring e \<Rightarrow> Some (set_admin (Taken e (map_of (dp_LinkManagers (wd_disp W)) e)) (drop_manager e (wd_disp W)) W)
   | _ \<Rightarrow> None)"
| "world_step EvCloseTaken W = (case wd_admin W of
     Taken e None \<Rightarrow> Some (set_admin Idle (wd_disp W) W)
   | Taken e (Some m) \<Rightarrow> Some (set_admin Idle (CloseAll m (wd_disp W)) W) | _ \<Rightarrow> None)"
| "world_step (EvAddUser e) W =
     (if wd_admin W = Idle then Some (set_admin (Adding e) (drop_manager e (wd_disp W)) W) else None)"
| "world_step EvAllow W = (case wd_admin W of
     Adding e \<Rightarrow> Some (set_admin Idle (allow e (wd_disp W)) W) | _ \<Rightarrow> None)"

fun world_run :: "world_event list \<Rightarrow> world \<Rightarrow> world option" where
  "world_run [] W = Some W"
| "world_run (ev # evs) W = (case world_step ev W of None \<Rightarrow> None | Some W' \<Rightarrow> world_run evs W')"

definition start_world :: world where
  "start_world = \<lparr>wd_disp = \<lparr>dp_Counter = [], dp_AllowedUsers = [], dp_LinkManagers = [], dp_counters = [],
     dp_managers = [], dp_writers = [], dp_released = {}\<rparr>, wd_threads = [], wd_admin = Idle\<rparr>"

text \<open>A user is added while it is not allowed and no connection of it is being admitted.\<close>

fun pending :: "string \<Rightarrow> thread \<Rightarrow> bool" where
  "pending e (HasManager e' m) \<longleftrightarrow> e' = e"
| "pending e (Added e' m w) \<longleftrightarrow> e' = e"
| "pending e _ \<longleftrightarrow> False"

definition quiet :: "string \<Rightarrow> world \<Rightarrow> bool" where
  "quiet e W \<longleftrightarrow> \<not> mhas (dp_AllowedUsers (wd_disp W)) e \<and> list_all (\<lambda>(i, t). \<not> pending e t) (wd_threads W)"

fun careful :: "world_event list \<Rightarrow> world \<Rightarrow> bool" where
  "careful [] W = True"
| "careful (ev # evs) W =
     ((case ev of EvAddUser e \<Rightarrow> quiet e W | _ \<Rightarrow> True) \<and>
      (case world_step ev W of None \<Rightarrow> True | Some W' \<Rightarrow> careful evs W'))"

section \<open>The invariant\<close>

definition severed :: "Dispatcher \<Rightarrow> nat \<Rightarrow> bool" where
  "severed d w \<longleftrightarrow> mw_writer (dp_writers d ! w) \<in> dp_released d"

definition held :: "Dispatcher \<Rightarrow> nat \<Rightarrow> nat \<Rightarrow> bool" where
  "held d m w \<longleftrightarrow> severed d w \<or> mhas (lm_links (dp_managers d ! m)) w \<and> \<not> lm_closed (dp_managers d ! m)"

definition current :: "world \<Rightarrow> string \<Rightarrow> nat \<Rightarrow> bool" where
  "current W e m \<longleftrightarrow> map_of (dp_LinkManagers (wd_disp W)) e = Some m"

definition reach :: "world \<Rightarrow> string \<Rightarrow> nat \<Rightarrow> bool" where
  "reach W e m \<longleftrightarrow> current W e m \<or> lm_closed (dp_managers (wd_disp W) ! m) \<or>
     \<not> mhas (dp_AllowedUsers (wd_disp W)) e \<and> wd_admin W \<noteq> Adding e"

definition owned :: "world \<Rightarrow> string \<Rightarrow> nat \<Rightarrow> bool" where
  "owned W e m \<longleftrightarrow>
     current W e m \<and> (mhas (dp_AllowedUsers (wd_disp W)) e \<or> wd_admin W \<in> {Deleting e, Retiring e}) \<or>
     wd_admin W \<in> {Loaded e (Some m), Taken e (Some m)}"

definition man :: "world \<Rightarrow> nat \<Rightarrow> bool" where
  "man W m \<longleftrightarrow> m < length (dp_managers (wd_disp W))"

definition wrt :: "world \<Rightarrow> nat \<Rightarrow> bool" where
  "wrt W w \<longleftrightarrow> w < length (dp_writers (wd_disp W))"

fun thread_ok :: "world \<Rightarrow> thread \<Rightarrow> bool" where
  "thread_ok W (HasManager e m) \<longleftrightarrow> man W m \<and> reach W e m"
| "thread_ok W (Added e m w) \<longleftrightarrow> man W m \<and> wrt W w \<and> reach W e m \<and> held (wd_disp W) m w"
| "thread_ok W (Admitted e w) \<longleftrightarrow>
     wrt W w \<and> (severed (wd_disp W) w \<or> (\<exists>m. man W m \<and> held (wd_disp W) m w \<and> owned W e m))"
| "thread_ok W (Closed e m) \<longleftrightarrow> man W m \<and> lm_closed (dp_managers (wd_disp W) ! m)"
| "thread_ok W Rejected \<longleftrightarrow> True"

fun admin_ok :: "world \<Rightarrow> admin \<Rightarrow> bool" where
  "admin_ok W Idle \<longleftrightarrow> True"
| "admin_ok W (Deleting e) \<longleftrightarrow> \<not> mhas (dp_AllowedUsers (wd_disp W)) e"
| "admin_ok W (Loaded e m) \<longleftrightarrow> \<not> mhas (dp_AllowedUsers (wd_disp W)) e \<and> pred_option (man W) m"
| "admin_ok W (Closing e) \<longleftrightarrow> \<not> mhas (dp_AllowedUsers (wd_disp W)) e"
| "admin_ok W (Retiring e) \<longleftrightarrow> \<not> mhas (dp_AllowedUsers (wd_disp W)) e"
| "admin_ok W (Taken e m) \<longleftrightarrow> \<not> mhas (dp_AllowedUsers (wd_disp W)) e \<and> pred_option (man W) m"
| "admin_ok W (Adding e) \<longleftrightarrow> \<not> mhas (dp_AllowedUsers (wd_disp W)) e"

definition world_ok :: "world \<Rightarrow> bool" where
  "world_ok W \<longleftrightarrow> (\<forall>i t. map_of (wd_threads W) i = Some t \<longrightarrow> thread_ok W t) \<and>
     (\<forall>e m. map_of (dp_LinkManagers (wd_disp W)) e = Some m \<longrightarrow> man W m) \<and> admin_ok W (wd_admin W)"

lemmas world_defs = current_def reach_def owned_def man_def wrt_def set_thread_def set_admin_def

text \<open>What every step does to the heaps: nothing is reopened, and a held writer stays held.\<close>

definition ext :: "Dispatcher \<Rightarrow> Dispatcher \<Rightarrow> bool" where
  "ext d d' \<longleftrightarrow> length (dp_managers d) \<le> length (dp_managers d') \<and> length (dp_writers d) \<le> length (dp_writers d') \<and>
     (\<forall>w<length (dp_writers d). dp_writers d' ! w = dp_writers d ! w) \<and> dp_released d \<subseteq> dp_released d' \<and>
     (\<forall>k<length (dp_managers d). lm_closed (dp_managers d ! k) \<longrightarrow> lm_closed (dp_managers d' ! k)) \<and>
     (\<forall>k<length (dp_managers d). \<forall>w<length (dp_writers d). held d k w \<longrightarrow> held d' k w)"

lemma ext_heaps:
  "dp_managers d' = dp_managers d \<Longrightarrow> dp_writers d' = dp_writers d \<Longrightarrow> dp_released d' = dp_released d \<Longrightarrow> ext d d'"
  by (simp add: ext_def held_def severed_def)

lemma ext_linkManager: "ext d (snd (linkManager e d))"
  by (auto simp: linkManager_def ext_def held_def severed_def nth_append Let_def split: option.split)

lemma ext_CloseAll: "m < length (dp_managers d) \<Longrightarrow> ext d (CloseAll m d)"
  unfolding ext_def
proof (intro conjI allI impI)
  fix k w assume m: "m < length (dp_managers d)" and "held d k w"
  then show "held (CloseAll m d) k w"
    using CloseAll_links[OF m] CloseAll_closed[OF m] CloseAll_released[where m = m and d = d]
    by (auto simp: held_def severed_def)
qed (auto simp: CloseAll_closed CloseAll_released)

lemma ext_close: "ext d (ManagedWriter_Close w d)"
proof -
  have h: "held (ManagedWriter_Close w d) k v" if "held d k v" for k v
    using that by (cases "v = w") (auto simp: held_def severed_def ManagedWriter_Close_managers)
  show ?thesis unfolding ext_def using h by (simp add: ManagedWriter_Close_managers(1) subset_insertI)
qed

lemma AddLink_simps [simp]:
  "dp_AllowedUsers (AddLink m w r d) = dp_AllowedUsers d" "dp_LinkManagers (AddLink m w r d) = dp_LinkManagers d"
  "dp_writers (AddLink m w r d) = dp_writers d" "length (dp_managers (AddLink m w r d)) = length (dp_managers d)"
  "dp_Counter (AddLink m w r d) = dp_Counter d" "dp_counters (AddLink m w r d) = dp_counters d"
  by (simp_all add: AddLink_def)

lemma AddLink_closed: "lm_closed (dp_managers (AddLink m w r d) ! k) = lm_closed (dp_managers d ! k)"
  by (auto simp: AddLink_def close_entry_managers on_manager_def nth_update)

lemma AddLink_held:
  "m < length (dp_managers d) \<Longrightarrow> held (AddLink m w r d) m w"
  by (auto simp: AddLink_def held_def severed_def on_manager_nth)

lemma AddLink_other:
  "v \<noteq> w \<Longrightarrow> held d k v \<Longrightarrow> held (AddLink m w r d) k v"
  by (auto simp: AddLink_def held_def severed_def close_entry_managers on_manager_def nth_update)

lemma ext_AddLink:
  "ext d (AddLink m (length (dp_writers d)) r (snd (new_writer mw d)))"
proof -
  define n d2 where "n = length (dp_writers d)" and "d2 = snd (new_writer mw d)"
  have d2: "dp_managers d2 = dp_managers d" "dp_released d2 = dp_released d" "dp_writers d2 = dp_writers d @ [mw]"
    by (simp_all add: d2_def new_writer_def)
  have h: "held (AddLink m n r d2) k w" if "w < n" "held d k w" for k w
  proof -
    from that have "held d2 k w" "w \<noteq> n" by (auto simp: held_def severed_def d2 nth_append n_def)
    then show ?thesis by (metis AddLink_other)
  qed
  have rel: "dp_released d \<subseteq> dp_released (AddLink m n r d2)" by (auto simp: AddLink_def d2)
  have "ext d (AddLink m n r d2)"
    unfolding ext_def using h rel by (simp add: AddLink_closed d2 nth_append n_def)
  then show ?thesis by (simp add: n_def d2_def)
qed

lemma ext_held: "ext d d' \<Longrightarrow> held d m w \<Longrightarrow> m < length (dp_managers d) \<Longrightarrow> w < length (dp_writers d) \<Longrightarrow> held d' m w"
  by (simp add: ext_def)

lemma ext_cut: "ext d d' \<Longrightarrow> severed d w \<Longrightarrow> w < length (dp_writers d) \<Longrightarrow> severed d' w"
  by (auto simp: ext_def severed_def)

lemma ext_man: "ext (wd_disp W) (wd_disp W') \<Longrightarrow> man W m \<Longrightarrow> man W' m"
  by (auto simp: ext_def man_def)

lemma ext_wrt: "ext (wd_disp W) (wd_disp W') \<Longrightarrow> wrt W w \<Longrightarrow> wrt W' w"
  by (auto simp: ext_def wrt_def)

lemma ext_closed:
  "ext (wd_disp W) (wd_disp W') \<Longrightarrow> man W m \<Longrightarrow> lm_closed (dp_managers (wd_disp W) ! m) \<Longrightarrow>
   lm_closed (dp_managers (wd_disp W') ! m)"
  by (auto simp: ext_def man_def)

lemma held_cut: "held d m w \<Longrightarrow> lm_closed (dp_managers d ! m) \<Longrightarrow> severed d w"
  by (simp add: held_def)

text \<open>A goroutine that does not move keeps its part of the invariant.\<close>

lemma thread_keep:
  assumes x: "ext (wd_disp W) (wd_disp W')" and ok: "thread_ok W t"
    and r: "\<And>e m. pending e t \<Longrightarrow> man W m \<Longrightarrow> reach W e m \<Longrightarrow> reach W' e m"
    and o: "\<And>e m. man W m \<Longrightarrow> owned W e m \<Longrightarrow> owned W' e m \<or> lm_closed (dp_managers (wd_disp W') ! m)"
  shows "thread_ok W' t"
proof (cases t)
  case (Admitted e w)
  with ok have w: "wrt W w" by simp
  from ok Admitted consider "severed (wd_disp W) w" | m where "man W m" "held (wd_disp W) m w" "owned W e m" by auto
  then have "severed (wd_disp W') w \<or> (\<exists>m. man W' m \<and> held (wd_disp W') m w \<and> owned W' e m)"
  proof cases
    case 1
    with ext_cut[OF x] w show ?thesis by (simp add: wrt_def)
  next
    case (2 m)
    with ext_held[OF x] w have "held (wd_disp W') m w" by (simp add: wrt_def man_def)
    with 2 o[of m e] held_cut ext_man[OF x] show ?thesis by blast
  qed
  with Admitted ext_wrt[OF x w] show ?thesis by simp
qed (use ok r ext_man[OF x] ext_wrt[OF x] ext_closed[OF x] ext_held[OF x] in \<open>auto simp: wrt_def man_def\<close>)

lemma world_ok_update:
  assumes ok: "world_ok W" and x: "ext (wd_disp W) (wd_disp W')"
    and th: "\<And>i t. map_of (wd_threads W') i = Some t \<Longrightarrow> map_of (wd_threads W) i = Some t \<or> thread_ok W' t"
    and r: "\<And>e m. man W m \<Longrightarrow> reach W e m \<Longrightarrow> (\<exists>i t. map_of (wd_threads W) i = Some t \<and> pending e t) \<Longrightarrow> reach W' e m"
    and o: "\<And>e m. man W m \<Longrightarrow> owned W e m \<Longrightarrow> owned W' e m \<or> lm_closed (dp_managers (wd_disp W') ! m)"
    and lm: "\<And>e m. map_of (dp_LinkManagers (wd_disp W')) e = Some m \<Longrightarrow> man W' m"
    and ad: "admin_ok W' (wd_admin W')"
  shows "world_ok W'"
  unfolding world_ok_def
proof (intro conjI allI impI ad lm)
  fix i t assume "map_of (wd_threads W') i = Some t"
  with th consider "map_of (wd_threads W) i = Some t" | "thread_ok W' t" by blast
  then show "thread_ok W' t"
  proof cases
    case 1
    with ok have "thread_ok W t" by (simp add: world_ok_def)
    from thread_keep[OF x this] r o 1 show ?thesis by blast
  qed
qed

lemma ok_thread: "world_ok W \<Longrightarrow> map_of (wd_threads W) i = Some t \<Longrightarrow> thread_ok W t"
  by (simp add: world_ok_def)

lemma ok_current: "world_ok W \<Longrightarrow> map_of (dp_LinkManagers (wd_disp W)) e = Some m \<Longrightarrow> man W m"
  by (simp add: world_ok_def)

lemma ok_admin: "world_ok W \<Longrightarrow> admin_ok W (wd_admin W)"
  by (simp add: world_ok_def)

lemma linkManager_spec:
  assumes "linkManager e d = (m, d')"
  shows "map_of (dp_LinkManagers d') e = Some m" "dp_AllowedUsers d' = dp_AllowedUsers d"
    "map_of (dp_LinkManagers d) e' = Some k \<Longrightarrow> map_of (dp_LinkManagers d') e' = Some k"
    "map_of (dp_LinkManagers d') e' = Some k \<Longrightarrow>
       map_of (dp_LinkManagers d) e' = Some k \<or> e' = e \<and> k = length (dp_managers d) \<and> length (dp_managers d') = Suc k"
    "k < length (dp_managers d) \<Longrightarrow> dp_managers d' ! k = dp_managers d ! k"
    "length (dp_managers d) \<le> length (dp_managers d')"
  using assms by (auto simp: linkManager_def nth_append Let_def split: option.splits if_splits)

lemma step_connect:
  assumes ok: "world_ok W" and "world_step (EvConnect i e) W = Some W'" shows "world_ok W'"
proof -
  obtain m d where g: "linkManager e (wd_disp W) = (m, d)" by fastforce
  note L = linkManager_spec[OF g]
  from assms(2) g have W': "W' = set_thread i (HasManager e m) d W" by (simp split: if_splits)
  have lm: "map_of (dp_LinkManagers d) e' = Some k \<Longrightarrow> k < length (dp_managers d)" for e' k
    using L(4)[of e' k] L(6) ok_current[OF ok] by (fastforce simp: man_def)
  show ?thesis
  proof (rule world_ok_update[OF ok])
    show "ext (wd_disp W) (wd_disp W')" using ext_linkManager[of "wd_disp W" e] g by (simp add: W' set_thread_def)
  next
    fix j t assume "map_of (wd_threads W') j = Some t"
    then show "map_of (wd_threads W) j = Some t \<or> thread_ok W' t"
      using lm[OF L(1)] L(1) by (auto simp: W' world_defs split: if_splits)
  next
    show "admin_ok W' (wd_admin W')" using ok_admin[OF ok] L(2,6)
      by (cases "wd_admin W") (auto simp: W' world_defs pred_option_def)
  qed (use L lm in \<open>auto simp: W' world_defs\<close>)
qed

text \<open>A step of a connection goroutine that leaves the tables of the dispatcher alone.\<close>

lemma thread_ok_step:
  assumes ok: "world_ok W" and W': "W' = set_thread i t' d W" and x: "ext (wd_disp W) d"
    and A: "dp_AllowedUsers d = dp_AllowedUsers (wd_disp W)"
    and M: "\<And>e m. map_of (dp_LinkManagers d) e = Some m \<Longrightarrow> map_of (dp_LinkManagers (wd_disp W)) e = Some m"
    and C: "\<And>e m. map_of (dp_LinkManagers (wd_disp W)) e = Some m \<Longrightarrow>
        map_of (dp_LinkManagers d) e = Some m \<or> lm_closed (dp_managers d ! m)"
    and t: "thread_ok W' t'"
  shows "world_ok W'"
proof (rule world_ok_update[OF ok])
  show xx: "ext (wd_disp W) (wd_disp W')" using x by (simp add: W' set_thread_def)
  show "map_of (wd_threads W') j = Some u \<Longrightarrow> map_of (wd_threads W) j = Some u \<or> thread_ok W' u" for j u
    using t by (auto simp: W' set_thread_def split: if_splits)
  show "map_of (dp_LinkManagers (wd_disp W')) e = Some m \<Longrightarrow> man W' m" for e m
    using M[of e m] ok_current[OF ok, of e m] ext_man[OF xx, of m] by (auto simp: W' set_thread_def)
  show "reach W e m \<Longrightarrow> man W m \<Longrightarrow> reach W' e m" for e m
    using C[of e m] A ext_closed[OF xx, of m] by (auto simp: W' world_defs)
  show "owned W e m \<Longrightarrow> owned W' e m \<or> lm_closed (dp_managers (wd_disp W') ! m)" for e m
    using C[of e m] A by (auto simp: W' world_defs)
  show "admin_ok W' (wd_admin W')" using ok_admin[OF ok] A ext_man[OF xx]
    by (cases "wd_admin W") (auto simp: W' set_thread_def pred_option_def)
qed

lemma step_thread:
  assumes ok: "world_ok W" and ev: "thread_event i ev W = Some W'" shows "world_ok W'"
proof -
  from ev obtain t t' d where t: "map_of (wd_threads W) i = Some t"
    and st: "connect_step i t (wd_disp W) = Some (t', d)" and W': "W' = set_thread i t' d W"
    by (auto simp: thread_event_def split: option.splits if_splits)
  note tok = ok_thread[OF ok t]
  show ?thesis
  proof (cases t)
    case (HasManager e m)
    let ?w = "length (dp_writers (wd_disp W))"
    obtain mw where t': "t' = Added e m ?w"
      and d: "d = AddLink m ?w (PipeReader (UplinkReader i)) (snd (new_writer mw (wd_disp W)))"
      using st HasManager by (auto simp: new_writer_def Let_def)
    from tok HasManager have m: "man W m" "reach W e m" by auto
    have h: "held d m ?w" unfolding d using m(1) by (intro AddLink_held) (simp add: man_def new_writer_def)
    show ?thesis
      by (rule thread_ok_step[OF ok W'])
        (use m h ext_AddLink in \<open>auto simp: W' t' d world_defs new_writer_def AddLink_closed\<close>)
  next
    case (Added e m w)
    from tok Added have m: "man W m" "wrt W w" "reach W e m" "held (wd_disp W) m w" by auto
    show ?thesis
    proof (cases "mhas (dp_AllowedUsers (wd_disp W)) e")
      case True
      with st Added have e: "t' = Admitted e w" "d = wd_disp W" by auto
      from m(3) True have "current W e m \<or> severed (wd_disp W) w" using held_cut[OF m(4)] by (auto simp: reach_def)
      then have "thread_ok W' t'" using m True by (auto simp: W' e world_defs)
      then show ?thesis by (intro thread_ok_step[OF ok W']) (auto simp: e ext_heaps)
    next
      case False
      with st Added have e: "t' = Closed e m" "d = CloseAll m (wd_disp W)" by auto
      show ?thesis
        by (rule thread_ok_step[OF ok W'])
          (use m in \<open>auto simp: e W' man_def set_thread_def CloseAll_closed intro: ext_CloseAll\<close>)
    qed
  next
    case (Admitted e w)
    with st have e: "t' = Admitted e w" "d = ManagedWriter_Close w (wd_disp W)" by auto
    from tok Admitted have "wrt W w" by simp
    then have "thread_ok W' t'" by (simp add: e W' world_defs severed_def)
    then show ?thesis by (intro thread_ok_step[OF ok W']) (auto simp: e ext_close)
  next
    case (Closed e m)
    with st have e: "t' = Rejected" "d = forget_manager e m (wd_disp W)" by auto
    from tok Closed have "lm_closed (dp_managers (wd_disp W) ! m)" by simp
    then show ?thesis
      by (intro thread_ok_step[OF ok W'])
        (auto simp: e forget_manager_def ext_heaps split: if_splits)
  qed (use st in simp)
qed

text \<open>A step of the goroutine that changes users.\<close>

lemma admin_ok_step:
  assumes ok: "world_ok W" and W': "W' = set_admin a d W" and x: "ext (wd_disp W) d"
    and r: "\<And>e m. man W m \<Longrightarrow> reach W e m \<Longrightarrow> (\<exists>i t. map_of (wd_threads W) i = Some t \<and> pending e t) \<Longrightarrow> reach W' e m"
    and o: "\<And>e m. man W m \<Longrightarrow> owned W e m \<Longrightarrow> owned W' e m \<or> lm_closed (dp_managers d ! m)"
    and M: "\<And>e m. map_of (dp_LinkManagers d) e = Some m \<Longrightarrow> map_of (dp_LinkManagers (wd_disp W)) e = Some m"
    and ad: "admin_ok W' a"
  shows "world_ok W'"
proof (rule world_ok_update[OF ok])
  show xx: "ext (wd_disp W) (wd_disp W')" using x by (simp add: W' set_admin_def)
  show "map_of (dp_LinkManagers (wd_disp W')) e = Some m \<Longrightarrow> man W' m" for e m
    using M[of e m] ok_current[OF ok, of e m] ext_man[OF xx, of m] by (auto simp: W' set_admin_def)
  show "man W m \<Longrightarrow> owned W e m \<Longrightarrow> owned W' e m \<or> lm_closed (dp_managers (wd_disp W') ! m)" for e m
    using o[of m e] by (auto simp: W' set_admin_def)
  show "admin_ok W' (wd_admin W')" using ad by (simp add: W' set_admin_def)
qed (use r in \<open>auto simp: W' set_admin_def\<close>)

lemma ext_tables [simp]:
  "ext d (disallow e d)" "ext d (allow e d)" "ext d (drop_manager e d)" "ext d d"
  by (auto simp: disallow_def allow_def drop_manager_def intro: ext_heaps)

lemma table_simps [simp]:
  "dp_AllowedUsers (disallow e d) = mdel e (dp_AllowedUsers d)" "dp_LinkManagers (disallow e d) = dp_LinkManagers d"
  "dp_AllowedUsers (allow e d) = mput e True (dp_AllowedUsers d)" "dp_LinkManagers (allow e d) = dp_LinkManagers d"
  "dp_AllowedUsers (drop_manager e d) = dp_AllowedUsers d"
  "dp_LinkManagers (drop_manager e d) = mdel e (dp_LinkManagers d)"
  "dp_managers (disallow e d) = dp_managers d" "dp_managers (allow e d) = dp_managers d"
  "dp_managers (drop_manager e d) = dp_managers d" "dp_writers (disallow e d) = dp_writers d"
  "dp_writers (allow e d) = dp_writers d" "dp_writers (drop_manager e d) = dp_writers d"
  by (simp_all add: disallow_def allow_def drop_manager_def)

lemma quiet_not_pending: "quiet e W \<Longrightarrow> map_of (wd_threads W) i = Some t \<Longrightarrow> \<not> pending e t"
  by (auto simp: quiet_def list_all_iff dest: map_of_SomeD)

lemma step_disallow:
  assumes ok: "world_ok W" and a: "a = Deleting e \<or> a = Retiring e" and "wd_admin W = Idle"
  shows "world_ok (set_admin a (disallow e (wd_disp W)) W)"
  by (rule admin_ok_step[OF ok refl]) (use assms in \<open>auto simp: world_defs split: if_splits\<close>)

lemma step_load:
  assumes ok: "world_ok W" and "wd_admin W = Deleting e"
  shows "world_ok (set_admin (Loaded e (map_of (dp_LinkManagers (wd_disp W)) e)) (wd_disp W) W)"
  by (rule admin_ok_step[OF ok refl])
    (use assms ok_admin[OF ok] ok_current[OF ok, of e] in \<open>auto simp: world_defs pred_option_def\<close>)

lemma step_take:
  assumes ok: "world_ok W" and "wd_admin W = Retiring e"
  shows "world_ok (set_admin (Taken e (map_of (dp_LinkManagers (wd_disp W)) e)) (drop_manager e (wd_disp W)) W)"
  by (rule admin_ok_step[OF ok refl])
    (use assms ok_admin[OF ok] ok_current[OF ok, of e] in
      \<open>auto simp: world_defs pred_option_def split: if_splits\<close>)

lemma step_close:
  assumes ok: "world_ok W"
    and "wd_admin W = Loaded e (Some m) \<and> a = Closing e \<or> wd_admin W = Taken e (Some m) \<and> a = Idle"
  shows "world_ok (set_admin a (CloseAll m (wd_disp W)) W)"
proof -
  have m: "man W m" "\<not> mhas (dp_AllowedUsers (wd_disp W)) e" using assms ok_admin[OF ok] by auto
  show ?thesis
    by (rule admin_ok_step[OF ok refl])
      (use m assms in \<open>auto simp: world_defs CloseAll_closed intro: ext_CloseAll\<close>)
qed

lemma step_idle:
  assumes ok: "world_ok W" and "wd_admin W = Loaded e None \<or> wd_admin W = Taken e None"
  shows "world_ok (set_admin Idle (wd_disp W) W)"
  by (rule admin_ok_step[OF ok refl]) (use assms ok_admin[OF ok] in \<open>auto simp: world_defs\<close>)

lemma step_drop:
  assumes ok: "world_ok W" and "wd_admin W = Closing e"
  shows "world_ok (set_admin Idle (drop_manager e (wd_disp W)) W)"
  by (rule admin_ok_step[OF ok refl]) (use assms ok_admin[OF ok] in \<open>auto simp: world_defs split: if_splits\<close>)

lemma step_add:
  assumes ok: "world_ok W" and "wd_admin W = Idle" and q: "quiet e W"
  shows "world_ok (set_admin (Adding e) (drop_manager e (wd_disp W)) W)"
  by (rule admin_ok_step[OF ok refl])
    (use assms quiet_not_pending[OF q] in \<open>auto simp: world_defs quiet_def split: if_splits\<close>)

lemma step_allow:
  assumes ok: "world_ok W" and "wd_admin W = Adding e"
  shows "world_ok (set_admin Idle (allow e (wd_disp W)) W)"
  by (rule admin_ok_step[OF ok refl]) (use assms ok_admin[OF ok] in \<open>auto simp: world_defs split: if_splits\<close>)

lemma world_step_ok:
  assumes ok: "world_ok W" and st: "world_step ev W = Some W'"
    and q: "\<And>e. ev = EvAddUser e \<Longrightarrow> quiet e W"
  shows "world_ok W'"
proof (cases ev)
  case (EvConnect i e)
  with step_connect[OF ok] st show ?thesis by blast
qed (use ok st q step_thread[OF ok] in \<open>auto split: if_splits admin.splits option.splits
      intro: step_disallow step_load step_take step_close step_idle step_drop step_add step_allow\<close>)

lemma world_run_ok: "world_run evs W = Some W' \<Longrightarrow> careful evs W \<Longrightarrow> world_ok W \<Longrightarrow> world_ok W'"
proof (induction evs arbitrary: W)
  case (Cons ev evs)
  from Cons.prems obtain W1 where st: "world_step ev W = Some W1" and r: "world_run evs W1 = Some W'"
    by (auto split: option.splits)
  from Cons.prems(2) st have c: "careful evs W1" and q: "\<And>e. ev = EvAddUser e \<Longrightarrow> quiet e W" by auto
  from Cons.IH[OF r c world_step_ok[OF Cons.prems(3) st q]] show ?case .
qed simp

lemma start_world_ok: "world_ok start_world"
  by (simp add: world_ok_def start_world_def)


definition demo_revocation :: "world_event list" where
  "demo_revocation = [EvAddUser ''t|u'', EvAllow, EvConnect 1 ''t|u'', EvAddLink 1, EvCheck 1,
     EvConnect 2 ''t|u'', EvDelUser ''t|u'', EvLoad, EvAddLink 2, EvCloseAll, EvDropManager]"

lemma demo_revocation_end:
  "(case world_run demo_revocation start_world of None \<Rightarrow> False
    | Some W \<Rightarrow> wd_admin W = Idle \<and> \<not> mhas (dp_AllowedUsers (wd_disp W)) ''t|u'' \<and>
        map_of (wd_threads W) 1 = Some (Admitted ''t|u'' 0))"
  "careful demo_revocation start_world"
  by code_simp+


text \<open>without that care revocation is incomplete: a connection that reaches the dispatcher between the
  deletion of a user and its addition with new limits gets a manager which the addition throws away;
  after a later deletion of the user the connection still works.\<close>

definition readd_race :: "world_event list" where
  "readd_race = [EvAddUser ''t|u'', EvAllow, EvDelUser ''t|u'', EvLoad, EvCloseAll,
     EvConnect 1 ''t|u'', EvAddLink 1, EvAddUser ''t|u'', EvAllow, EvCheck 1, EvDelUser ''t|u'', EvLoad, EvCloseAll]"

theorem readd_keeps_revoked_link:
  "(case world_run readd_race start_world of None \<Rightarrow> False
    | Some W \<Rightarrow> wd_admin W = Idle \<and> \<not> mhas (dp_AllowedUsers (wd_disp W)) ''t|u'' \<and>
        map_of (wd_threads W) 1 = Some (Admitted ''t|u'' 0) \<and> \<not> severed (wd_disp W) 0)"
  by code_simp

end
