(* ===== verification/Sniffing.thy ===== *)
theory Sniffing
  imports Go_Strings
begin

text \<open>
  Finding the protocol and the domain of a connection (sniffer.go, fakednssniffer.go and the sniffing
  part of default.go in runtime/core/xray/app/dispatcher).  The protocol sniffers themselves are library
  functions: a sniffer is its kind with a function from the payload, \<open>None\<close> the nil slice of the metadata
  pass.
\<close>

section \<open>Results\<close>

record SniffResult =
  sr_Protocol :: string
  sr_Domain :: string
  sr_ProtocolForDomain :: "string option"
  sr_ProtoSubsetOf :: "string option"

definition CompositeResult :: "SniffResult \<Rightarrow> SniffResult \<Rightarrow> SniffResult" where
  "CompositeResult domainResult protocolResult = \<lparr>sr_Protocol = sr_Protocol protocolResult,
     sr_Domain = sr_Domain domainResult, sr_ProtocolForDomain = Some (sr_Protocol domainResult),
     sr_ProtoSubsetOf = None\<rparr>"

text \<open>The outcomes the loops tell apart: no clue, more data needed, another error, a result; a nil result
  without an error is \<open>Found None\<close>.\<close>

datatype sniffed = NoClue | NeedMoreData | SniffError err | Found "SniffResult option"

datatype network = TCP | UDP

record protocolSniffer =
  ps_sniff :: "string option \<Rightarrow> sniffed"
  ps_metadata :: bool
  ps_network :: "network option"

definition fakeDNSResult :: "string \<Rightarrow> SniffResult" where
  "fakeDNSResult domain = \<lparr>sr_Protocol = ''fakedns'', sr_Domain = domain, sr_ProtocolForDomain = None,
     sr_ProtoSubsetOf = None\<rparr>"

definition DNSThenOthersResult :: "string \<Rightarrow> string \<Rightarrow> SniffResult" where
  "DNSThenOthersResult domain original = \<lparr>sr_Protocol = ''fakedns+others'', sr_Domain = domain,
     sr_ProtocolForDomain = None, sr_ProtoSubsetOf = Some original\<rparr>"

section \<open>The sniffers\<close>

text \<open>
  The fake DNS engine answers for the target of the session: the network, the domain behind the address
  (empty when there is none) and, for an engine that can tell, whether the address is in its pool.
\<close>

record fakedns =
  fk_network :: "network option"
  fk_domain :: string
  fk_inPool :: "bool option"

text \<open>The metadata sniffer, with the value it stores in its context when it was asked to.\<close>

definition fakeDNSSniffer :: "fakedns \<Rightarrow> sniffed \<times> bool option" where
  "fakeDNSSniffer f =
     (if fk_network f \<noteq> None \<and> fk_domain f \<noteq> [] then (Found (Some (fakeDNSResult (fk_domain f))), None)
      else (NoClue, fk_inPool f))"

text \<open>The first of the other sniffers that succeeds.\<close>

fun first_of_others :: "protocolSniffer list \<Rightarrow> string option \<Rightarrow> sniffed" where
  "first_of_others [] bytes = NoClue"
| "first_of_others (v # vs) bytes =
     (if ps_metadata v \<or> bytes \<noteq> None then
        (case ps_sniff v bytes of
           Found (Some r) \<Rightarrow> Found (Some (DNSThenOthersResult (sr_Domain r) (sr_Protocol r)))
         | Found None \<Rightarrow> SniffError ''nil result''
         | _ \<Rightarrow> first_of_others vs bytes)
      else first_of_others vs bytes)"

definition fakeDNSThenOthers :: "fakedns \<Rightarrow> protocolSniffer list \<Rightarrow> string option \<Rightarrow> sniffed" where
  "fakeDNSThenOthers f others bytes = (case fakeDNSSniffer f of
     (Found r, _) \<Rightarrow> Found r
   | (_, Some True) \<Rightarrow> first_of_others others bytes
   | (_, _) \<Rightarrow> NoClue)"

text \<open>\<open>builtin\<close> are the five sniffers of the library.\<close>

definition NewSniffer :: "protocolSniffer list \<Rightarrow> fakedns option \<Rightarrow> protocolSniffer list" where
  "NewSniffer builtin engine = (case engine of
     None \<Rightarrow> builtin
   | Some f \<Rightarrow>
       \<lparr>ps_sniff = fakeDNSThenOthers f builtin, ps_metadata = False, ps_network = None\<rparr> #
       builtin @ [\<lparr>ps_sniff = (\<lambda>_. fst (fakeDNSSniffer f)), ps_metadata = True, ps_network = None\<rparr>])"

section \<open>The passes\<close>

text \<open>One pass over sniffers of one kind: the others are skipped, or kept for later; an undecided one is
  kept.  The result, or the kept ones.\<close>

fun sniff_pass ::
  "(protocolSniffer \<Rightarrow> bool) \<Rightarrow> bool \<Rightarrow> string option \<Rightarrow> protocolSniffer list \<Rightarrow> protocolSniffer list
     \<Rightarrow> SniffResult + protocolSniffer list" where
  "sniff_pass asked keep bytes [] pending = Inr pending"
| "sniff_pass asked keep bytes (si # sis) pending =
     (if \<not> asked si then sniff_pass asked keep bytes sis (if keep then pending @ [si] else pending)
      else (case ps_sniff si bytes of
          NoClue \<Rightarrow> sniff_pass asked keep bytes sis (pending @ [si])
        | Found (Some r) \<Rightarrow> Inl r
        | _ \<Rightarrow> sniff_pass asked keep bytes sis pending))"

definition unknown_content :: err where
  "unknown_content = ''unknown content''"

definition finish_pass :: "SniffResult + protocolSniffer list \<Rightarrow> protocolSniffer list \<Rightarrow> sniffed \<times> protocolSniffer list" where
  "finish_pass res s = (case res of
     Inl r \<Rightarrow> (Found (Some r), s)
   | Inr pending \<Rightarrow> if length pending > 0 then (NoClue, pending) else (SniffError unknown_content, s))"

definition Sniff :: "string \<Rightarrow> network \<Rightarrow> protocolSniffer list \<Rightarrow> sniffed \<times> protocolSniffer list" where
  "Sniff payload net s =
     finish_pass (sniff_pass (\<lambda>si. \<not> (ps_metadata si \<or> ps_network si \<noteq> Some net)) False (Some payload) s []) s"

definition SniffMetadata :: "protocolSniffer list \<Rightarrow> sniffed \<times> protocolSniffer list" where
  "SniffMetadata s = finish_pass (sniff_pass ps_metadata True None s []) s"

section \<open>The cached reader\<close>

text \<open>A multi buffer is known by its bytes.  \<open>arrived\<close> is what the read of the underlying reader gave.\<close>

record cachedReader =
  cr_cache :: string

definition payload_cap :: nat where
  "payload_cap = 32767"

definition Cache :: "string res \<Rightarrow> cachedReader \<Rightarrow> string res \<times> cachedReader" where
  "Cache arrived r = (case arrived of
     Inl e \<Rightarrow> (Inl e, r)
   | Inr mb \<Rightarrow>
       (let r = (if mb \<noteq> [] then r\<lparr>cr_cache := cr_cache r @ mb\<rparr> else r)
        in (Inr (take (min (length (cr_cache r)) payload_cap) (cr_cache r)), r)))"

definition readInternal :: "cachedReader \<Rightarrow> string option \<times> cachedReader" where
  "readInternal r = (if cr_cache r \<noteq> [] then (Some (cr_cache r), r\<lparr>cr_cache := []\<rparr>) else (None, r))"

text \<open>Both read methods: the cache if there is one, otherwise a read of the underlying reader.\<close>

definition cached_Read :: "string res \<Rightarrow> cachedReader \<Rightarrow> string res \<times> cachedReader" where
  "cached_Read arrived r = (case readInternal r of (Some mb, r) \<Rightarrow> (Inr mb, r) | (None, r) \<Rightarrow> (arrived, r))"

definition cached_Interrupt :: "cachedReader \<Rightarrow> cachedReader" where
  "cached_Interrupt r = r\<lparr>cr_cache := []\<rparr>"

datatype cached_event = EvCache "string res" | EvRead "string res"

definition bytes_of :: "string res \<Rightarrow> string" where
  "bytes_of x = (case x of Inl e \<Rightarrow> [] | Inr b \<Rightarrow> b)"

text \<open>A run: what was delivered, and what the underlying reader gave.  A read asks it only without a cache.\<close>

fun cached_run :: "cached_event list \<Rightarrow> cachedReader \<Rightarrow> string \<times> string \<Rightarrow> cachedReader \<times> string \<times> string" where
  "cached_run [] r io = (r, io)"
| "cached_run (EvCache a # evs) r (out, inp) = cached_run evs (snd (Cache a r)) (out, inp @ bytes_of a)"
| "cached_run (EvRead a # evs) r (out, inp) =
     (case cached_Read a r of (mb, r') \<Rightarrow>
        cached_run evs r' (out @ bytes_of mb, if cr_cache r = [] then inp @ bytes_of a else inp))"

lemma cached_run_lossless:
  "out @ cr_cache r = inp \<Longrightarrow> cached_run evs r (out, inp) = (r', out', inp') \<Longrightarrow> out' @ cr_cache r' = inp'"
proof (induction evs r "(out, inp)" arbitrary: out inp rule: cached_run.induct)
  case (2 a evs r out inp)
  then show ?case by (auto simp: Cache_def bytes_of_def Let_def split: sum.splits if_splits)
next
  case (3 a evs r out inp)
  then show ?case by (auto simp: cached_Read_def readInternal_def bytes_of_def split: sum.splits if_splits)
qed simp

section \<open>Sniffing a connection\<close>

text \<open>One turn of the loop: whether the context is done, what arrived, and how long the read took.\<close>

record attempt =
  tr_done :: bool
  tr_arrived :: "string res"
  tr_elapsed :: int

definition sniffing_timeout :: err where
  "sniffing_timeout = ''timeout on sniffing''"

definition cache_deadline :: int where
  "cache_deadline = 200000000"

text \<open>The loop may go on as long as sniffers ask for more data and no time passes: no result is \<open>None\<close>.\<close>

partial_function (option) content_loop ::
  "network \<Rightarrow> (nat \<Rightarrow> attempt) \<Rightarrow> nat \<Rightarrow> int \<Rightarrow> nat \<Rightarrow> cachedReader \<Rightarrow> protocolSniffer list
     \<Rightarrow> (sniffed \<times> cachedReader) option" where
  "content_loop net attempts i deadline totalAttempt r s =
     (if tr_done (attempts i) then Some (SniffError ''context canceled'', r)
      else (case Cache (tr_arrived (attempts i)) r of
         (Inl e, r) \<Rightarrow> Some (SniffError e, r)
       | (Inr payload, r) \<Rightarrow>
           (let deadline = deadline - tr_elapsed (attempts i);
                (res, s) = (if payload \<noteq> [] then Sniff payload net s else (NoClue, s));
                totalAttempt = (if res = NoClue then totalAttempt + 1 else totalAttempt)
            in if res \<noteq> NoClue \<and> res \<noteq> NeedMoreData then Some (res, r)
               else if 2 \<le> totalAttempt \<or> deadline \<le> 0 then Some (SniffError sniffing_timeout, r)
               else content_loop net attempts (i + 1) deadline totalAttempt r s)))"

definition is_found :: "sniffed \<Rightarrow> SniffResult option" where
  "is_found x = (case x of Found (Some r) \<Rightarrow> Some r | _ \<Rightarrow> None)"

text \<open>\<open>sniffer\<close>: the metadata pass, then the content.\<close>

definition sniffer ::
  "protocolSniffer list \<Rightarrow> bool \<Rightarrow> network \<Rightarrow> (nat \<Rightarrow> attempt) \<Rightarrow> cachedReader \<Rightarrow> (sniffed \<times> cachedReader) option" where
  "sniffer s0 metadataOnly net attempts r =
     (let (meta, s1) = SniffMetadata s0
      in if metadataOnly then Some (meta, r)
         else (case content_loop net attempts 0 cache_deadline 0 r s1 of
           None \<Rightarrow> None
         | Some (content, r) \<Rightarrow> Some (case (is_found meta, is_found content) of
             (Some m, None) \<Rightarrow> Found (Some m)
           | (Some m, Some c) \<Rightarrow> Found (Some (CompositeResult m c))
           | (None, _) \<Rightarrow> content, r)))"

section \<open>What holds of it\<close>

text \<open>sniffing consumes nothing: whatever reads and peeks interleave on a cached reader, what its readers
  got, followed by what is still cached, is what came in, byte for byte and in order.\<close>

theorem cached_reader_lossless:
  "case cached_run evs \<lparr>cr_cache = []\<rparr> ([], []) of (r, out, inp) \<Rightarrow> out @ cr_cache r = inp"
  using cached_run_lossless[of "[]" "\<lparr>cr_cache = []\<rparr>" "[]" evs] by (auto split: prod.split)

lemma content_loop_ends:
  assumes "\<And>j. 1 \<le> tr_elapsed (attempts j)"
  shows "\<exists>res r'. content_loop net attempts i deadline totalAttempt r s = Some (res, r') \<and> res \<noteq> NoClue \<and> res \<noteq> NeedMoreData"
proof (induction "nat deadline" arbitrary: i deadline totalAttempt r s rule: less_induct)
  case less
  show ?case
  proof (cases "deadline - tr_elapsed (attempts i) \<le> 0")
    case True
    then show ?thesis
      by (subst content_loop.simps) (auto simp: Let_def Sniff_def finish_pass_def split: prod.split sum.split)
  next
    case False
    with assms[of i] have "nat (deadline - tr_elapsed (attempts i)) < nat deadline" by linarith
    from less[OF this] show ?thesis
      by (subst content_loop.simps) (auto simp: Let_def Sniff_def finish_pass_def split: prod.split sum.split)
  qed
qed



text \<open>the sniffer that lets the other sniffers name the domain of a fake address is never asked: it is
  no metadata sniffer and has no network, so that a content pass gives the same with or without it, and
  the result fakedns+others does not occur.\<close>

theorem fakedns_others_never_asked:
  "fst (Sniff payload net (NewSniffer builtin (Some f))) = fst (Sniff payload net builtin)"
proof -
  let ?meta = "\<lparr>ps_sniff = (\<lambda>_. fst (fakeDNSSniffer f)), ps_metadata = True, ps_network = None :: network option\<rparr>"
  let ?asked = "\<lambda>si. \<not> (ps_metadata si \<or> ps_network si \<noteq> Some net)"
  have "sniff_pass ?asked False (Some payload) (b @ [?meta]) p = sniff_pass ?asked False (Some payload) b p" for b p
    by (induction b arbitrary: p) (auto split: sniffed.split option.split)
  then show ?thesis
    by (simp add: Sniff_def NewSniffer_def finish_pass_def split: sum.split)
qed

end
