(* ===== verification/Routing.thy ===== *)
theory Routing
  imports Link_Revocation Sniffing
begin

text \<open>
  Dispatching a connection (runtime/core/xray/app/dispatcher/default.go): admission, the target after
  sniffing, the rules of the panel, and the choice of an outbound.  The router, the outbound manager, the
  fake DNS engine and the address parser of the library are parameters.
\<close>

section \<open>Targets\<close>

datatype address = Domain string | IP string

definition is_IP :: "address \<Rightarrow> bool" where
  "is_IP a = (case a of Domain _ \<Rightarrow> False | IP _ \<Rightarrow> True)"

record SniffingRequest =
  rq_Enabled :: bool
  rq_MetadataOnly :: bool
  rq_RouteOnly :: bool
  rq_OverrideFor :: "string list"
  rq_ExcludeForDomain :: "(string \<Rightarrow> bool) option"
  rq_ExcludeForIP :: "(string \<Rightarrow> bool) option"

record Outbound =
  ob_OriginalTarget :: address
  ob_Target :: address
  ob_RouteTarget :: "address option"
  ob_Tag :: string

text \<open>\<open>pool\<close> is the membership test of a fake DNS engine that has one.\<close>

fun override_for :: "(address \<Rightarrow> bool) option \<Rightarrow> SniffResult \<Rightarrow> string \<Rightarrow> address \<Rightarrow> string list \<Rightarrow> bool" where
  "override_for pool result protocolString destination [] = False"
| "override_for pool result protocolString destination (p # ps) =
     (if HasPrefix protocolString p \<or> HasPrefix p protocolString then True
      else if (case pool of None \<Rightarrow> False | Some inPool \<Rightarrow>
                 protocolString \<noteq> ''bittorrent'' \<and> p = ''fakedns'' \<and> is_IP destination \<and> inPool destination) then True
      else if (case sr_ProtoSubsetOf result of None \<Rightarrow> False | Some original \<Rightarrow> HasPrefix p original) then True
      else override_for pool result protocolString destination ps)"

definition protocol_for_domain :: "SniffResult \<Rightarrow> string" where
  "protocol_for_domain result = (case sr_ProtocolForDomain result of None \<Rightarrow> sr_Protocol result | Some p \<Rightarrow> p)"

definition shouldOverride :: "(address \<Rightarrow> bool) option \<Rightarrow> SniffResult \<Rightarrow> SniffingRequest \<Rightarrow> address \<Rightarrow> bool" where
  "shouldOverride pool result request destination =
     (if sr_Domain result = [] then False
      else if (case rq_ExcludeForDomain request of None \<Rightarrow> False | Some m \<Rightarrow> m (ToLower (sr_Domain result))) then False
      else if (case rq_ExcludeForIP request of None \<Rightarrow> False
                 | Some m \<Rightarrow> (case destination of Domain _ \<Rightarrow> False | IP ip \<Rightarrow> m ip)) then False
      else override_for pool result (protocol_for_domain result) destination (rq_OverrideFor request))"

text \<open>What sniffing makes of the destination and the session: \<open>checkIP\<close> is the test of the address family that
  only \<open>Dispatch\<close> makes.  The last part is the protocol the rules see.\<close>

definition retarget ::
  "(string \<Rightarrow> address) \<Rightarrow> (address \<Rightarrow> bool) option \<Rightarrow> bool \<Rightarrow> SniffingRequest \<Rightarrow> string \<Rightarrow> sniffed \<Rightarrow> address \<Rightarrow> Outbound
     \<Rightarrow> address \<times> Outbound \<times> string" where
  "retarget parse pool checkIP request contentProtocol result destination ob = (case is_found result of
     None \<Rightarrow> (destination, ob, contentProtocol)
   | Some r \<Rightarrow>
       if shouldOverride pool r request destination then
         (let target = parse (sr_Domain r);
              protocol = protocol_for_domain r;
              isFakeIP = (case pool of None \<Rightarrow> False
                            | Some inPool \<Rightarrow> (checkIP \<longrightarrow> is_IP (ob_Target ob)) \<and> inPool (ob_Target ob))
          in if rq_RouteOnly request \<and> protocol \<noteq> ''fakedns'' \<and> protocol \<noteq> ''fakedns+others'' \<and> \<not> isFakeIP
             then (target, ob\<lparr>ob_RouteTarget := Some target\<rparr>, sr_Protocol r)
             else (target, ob\<lparr>ob_Target := target\<rparr>, sr_Protocol r))
       else (destination, ob, sr_Protocol r))"

section \<open>Rules and outbounds\<close>

definition destStr :: "address \<Rightarrow> string" where
  "destStr a = (case a of Domain s \<Rightarrow> s | IP s \<Rightarrow> s)"

text \<open>The limiter asked for the rules: the one of the admission, or the one registered for the tag.\<close>

definition rule_limiter :: "nat option \<Rightarrow> Inbound \<Rightarrow> 'rx limiters \<Rightarrow> nat option" where
  "rule_limiter l ib lims = (case l of Some r \<Rightarrow> Some r
     | None \<Rightarrow> (case GetLimiter (ib_Tag ib) lims of Inl e \<Rightarrow> None | Inr r \<Rightarrow> Some r))"

definition blocked ::
  "('rx \<Rightarrow> string \<Rightarrow> bool) \<Rightarrow> 'rx limiters \<Rightarrow> nat option \<Rightarrow> Inbound \<Rightarrow> address \<Rightarrow> string \<Rightarrow> bool" where
  "blocked matches lims l ib destination protocol =
     (if ib_User ib = None then False
      else (case rule_limiter l ib lims of
        None \<Rightarrow> False
      | Some r \<Rightarrow>
          if CheckDomainRule matches (deref lims r) (destStr destination) then True
          else length protocol \<noteq> 0 \<and> CheckProtocolRule (deref lims r) protocol))"

text \<open>
  The outbounds: the tag a session forces (empty for none), the router's pick (\<open>None\<close> without a router)
  with the tags of outbound and rule, the handlers by tag and the default one.
\<close>

record 'h routes =
  ru_forced :: string
  ru_pick :: "(string \<times> string) res option"
  ru_handler :: "string \<Rightarrow> 'h option"
  ru_default :: "'h option"
  ru_tag :: "'h \<Rightarrow> string"
  ru_inTag :: string

text \<open>The handler and how it was chosen; \<open>None\<close> closes the link.\<close>

definition pick_handler :: "'h routes \<Rightarrow> ('h \<times> nat) option" where
  "pick_handler R =
     (let deflt = map_option (\<lambda>h. (h, 0)) (ru_default R)
      in if ru_forced R \<noteq> [] then map_option (\<lambda>h. (h, 1)) (ru_handler R (ru_forced R))
         else (case ru_pick R of
             None \<Rightarrow> deflt
           | Some (Inl e) \<Rightarrow> deflt
           | Some (Inr (outTag, ruleTag)) \<Rightarrow> map_option (\<lambda>h. (h, 2)) (ru_handler R outTag)))"

definition detour :: "'h routes \<Rightarrow> 'h \<Rightarrow> nat \<Rightarrow> string" where
  "detour R h isPickRoute =
     (let tag = ru_tag R h; inTag = ru_inTag R
      in if tag = [] then []
         else if inTag = [] then tag
         else if isPickRoute = 1 then inTag @ '' ==> '' @ tag
         else if isPickRoute = 2 then inTag @ '' -> '' @ tag
         else inTag @ '' >> '' @ tag)"

definition close_link :: "Link \<Rightarrow> Dispatcher \<Rightarrow> Dispatcher" where
  "close_link link d = interrupt (lk_Reader link) (close_writer (lk_Writer link) d)"

text \<open>The handler that gets the link and the detour of the access log.\<close>

definition routedDispatch ::
  "('rx \<Rightarrow> string \<Rightarrow> bool) \<Rightarrow> 'h routes \<Rightarrow> Inbound \<Rightarrow> Link \<Rightarrow> address \<Rightarrow> nat option \<Rightarrow> string \<Rightarrow> 'rx limiters \<Rightarrow> Outbound
     \<Rightarrow> Dispatcher \<Rightarrow> ('h \<times> string) option \<times> Outbound \<times> Dispatcher" where
  "routedDispatch matches R ib link destination l protocol lims ob d =
     (if blocked matches lims l ib destination protocol then (None, ob, close_link link d)
      else (case pick_handler R of
        None \<Rightarrow> (None, ob, close_link link d)
      | Some (h, p) \<Rightarrow> (Some (h, detour R h p), ob\<lparr>ob_Tag := ru_tag R h\<rparr>, d)))"

section \<open>Dispatching\<close>

definition new_outbound :: "address \<Rightarrow> Outbound" where
  "new_outbound destination = \<lparr>ob_OriginalTarget = destination, ob_Target = destination, ob_RouteTarget = None, ob_Tag = []\<rparr>"

text \<open>What the library contributes to one connection: address parser, fake DNS pool, outbounds, and the
  result of sniffing.\<close>

record 'h surroundings =
  su_parse :: "string \<Rightarrow> address"
  su_pool :: "(address \<Rightarrow> bool) option"
  su_routes :: "'h routes"
  su_sniffed :: sniffed
  su_protocol :: string

text \<open>With sniffing the reader is behind a cache.\<close>

definition behind_cache :: "SniffingRequest \<Rightarrow> Link \<Rightarrow> Link" where
  "behind_cache request link =
     (if \<not> rq_Enabled request then link else link\<lparr>lk_Reader := CachedReader (lk_Reader link)\<rparr>)"

definition target_of :: "'h surroundings \<Rightarrow> bool \<Rightarrow> SniffingRequest \<Rightarrow> address \<Rightarrow> address \<times> Outbound \<times> string" where
  "target_of S checkIP request destination =
     (if \<not> rq_Enabled request then (destination, new_outbound destination, [])
      else retarget (su_parse S) (su_pool S) checkIP request (su_protocol S) (su_sniffed S) destination (new_outbound destination))"

text \<open>\<open>Dispatch\<close> with the goroutine it starts: the link for the inbound or an error, and the handler.\<close>

definition Dispatch ::
  "('rx \<Rightarrow> string \<Rightarrow> bool) \<Rightarrow> 'h surroundings \<Rightarrow> int \<Rightarrow> bool \<Rightarrow> nat \<Rightarrow> Inbound \<Rightarrow> SniffingRequest \<Rightarrow> address
     \<Rightarrow> Dispatcher \<Rightarrow> 'rx limiters \<Rightarrow> Link res \<times> ('h \<times> string) option \<times> Outbound \<times> Dispatcher \<times> 'rx limiters" where
  "Dispatch matches S now tcp i ib request destination d lims =
     (case getLink now tcp i (Some ib) d lims of
        (Inl e, _, d, lims) \<Rightarrow> (Inl e, None, new_outbound destination, d, lims)
      | (Inr (inb, outb, l), _, d, lims) \<Rightarrow> (case target_of S True request destination of
          (target, ob, protocol) \<Rightarrow>
            (case routedDispatch matches (su_routes S) ib (behind_cache request outb) target l protocol lims ob d of
               (h, ob, d) \<Rightarrow> (Inr inb, h, ob, d, lims))))"

definition DispatchLink ::
  "('rx \<Rightarrow> string \<Rightarrow> bool) \<Rightarrow> 'h surroundings \<Rightarrow> int \<Rightarrow> bool \<Rightarrow> nat \<Rightarrow> Inbound \<Rightarrow> SniffingRequest \<Rightarrow> address
     \<Rightarrow> Dispatcher \<Rightarrow> 'rx limiters \<Rightarrow> err option \<times> ('h \<times> string) option \<times> Outbound \<times> Dispatcher \<times> 'rx limiters" where
  "DispatchLink matches S now tcp i ib request destination d lims =
     (case admitLink now tcp i (Some ib) d lims of
        (Inl e, _, d, lims) \<Rightarrow> (Some e, None, new_outbound destination, d, lims)
      | (Inr (outb, l), _, d, lims) \<Rightarrow> (case target_of S False request destination of
          (target, ob, protocol) \<Rightarrow>
            (case routedDispatch matches (su_routes S) ib (behind_cache request outb) target l protocol lims ob d of
               (h, ob, d) \<Rightarrow> (None, h, ob, d, lims))))"

section \<open>Who reaches an outbound\<close>

lemma close_writer_released: "dp_released (close_writer x d) = insert (writer_end d x) (dp_released d)"
  by (induction x d rule: close_writer.induct) auto

lemma close_link_released: "dp_released (close_link link d) = reader_ends (lk_Reader link) \<union> insert (writer_end d (lk_Writer link)) (dp_released d)"
  by (simp add: close_link_def interrupt_released close_writer_released)

lemma speedBucket_rules [simp]:
  "li_DomainRules (snd (speedBucket k n l)) = li_DomainRules l" "li_ProtocolRules (snd (speedBucket k n l)) = li_ProtocolRules l"
  by (simp_all add: speedBucket_def Let_def split: option.split)

lemma trackIP_rules [simp]:
  "li_DomainRules (snd (trackIP k ip uid n l)) = li_DomainRules l"
  "li_ProtocolRules (snd (trackIP k ip uid n l)) = li_ProtocolRules l"
  by (simp_all add: trackIP_def forgetOld_def Let_def split: option.split)

lemma storeLimit_rules [simp]:
  "li_DomainRules (storeLimit k e l) = li_DomainRules l" "li_ProtocolRules (storeLimit k e l) = li_ProtocolRules l"
  by (simp_all add: storeLimit_def)

text \<open>An admission check changes no rules.\<close>

lemma CheckLimit_rules:
  assumes "CheckLimit now k ip tcp udp l = (a, l')"
  shows "li_DomainRules l' = li_DomainRules l \<and> li_ProtocolRules l' = li_ProtocolRules l"
proof (cases "map_of (li_UserLimitInfo l) k")
  case (Some u)
  obtain n e where u: "userSpeed now u = (n, e)" by fastforce
  obtain r l2 where t: "trackIP k (TrimPrefix ip ''::ffff:'') (ul_UID u) (ul_DeviceLimit u) (storeLimit k e l) = (r, l2)"
    by fastforce
  have l2: "li_DomainRules l2 = li_DomainRules l \<and> li_ProtocolRules l2 = li_ProtocolRules l"
    using trackIP_rules[of k "TrimPrefix ip ''::ffff:''" "ul_UID u" "ul_DeviceLimit u" "storeLimit k e l"] by (simp add: t)
  obtain b l3 where b: "speedBucket k n (if udp then l2 else storeLimit k e l) = (b, l3)" by fastforce
  have "li_DomainRules l3 = li_DomainRules l \<and> li_ProtocolRules l3 = li_ProtocolRules l"
    using speedBucket_rules[of k n "if udp then l2 else storeLimit k e l"] l2 by (auto simp: b split: if_splits)
  with assms Some u t b l2 show ?thesis by (auto simp: CheckLimit_def Let_def split: if_splits)
qed (use assms in \<open>simp add: CheckLimit_def\<close>)

lemma check_user_rules:
  assumes "check_user now tcp ib email lims = (r, lims')"
  shows "li_DomainRules (deref lims' l) = li_DomainRules (deref lims l) \<and>
    li_ProtocolRules (deref lims' l) = li_ProtocolRules (deref lims l) \<and> lw_map lims' = lw_map lims"
  using assms by (auto simp: check_user_def update_ref_def nth_update Let_def CheckLimit_rules
      split: sum.splits prod.splits if_splits dest!: CheckLimit_rules)

definition admitted :: "int \<Rightarrow> bool \<Rightarrow> Inbound \<Rightarrow> string \<Rightarrow> Dispatcher \<Rightarrow> 'rx limiters \<Rightarrow> bool" where
  "admitted now tcp ib email d lims = (case GetLimiter (ib_Tag ib) lims of
     Inl e \<Rightarrow> False
   | Inr l \<Rightarrow> \<not> snd (fst (CheckLimit now email (ib_Source ib) tcp (ib_SourceTCP ib) (deref lims l))) \<and>
       mhas (dp_AllowedUsers d) email)"

definition permitted :: "('rx \<Rightarrow> string \<Rightarrow> bool) \<Rightarrow> Inbound \<Rightarrow> address \<Rightarrow> string \<Rightarrow> 'rx limiters \<Rightarrow> bool" where
  "permitted matches ib target protocol lims = (case GetLimiter (ib_Tag ib) lims of
     Inl e \<Rightarrow> True
   | Inr l \<Rightarrow> \<not> CheckDomainRule matches (deref lims l) (destStr target) \<and>
       (protocol = [] \<or> \<not> CheckProtocolRule (deref lims l) protocol))"

definition the_handler :: "'h routes \<Rightarrow> ('h \<times> string) option" where
  "the_handler R = map_option (\<lambda>(h, p). (h, detour R h p)) (pick_handler R)"

lemma table_frames [simp]:
  "dp_AllowedUsers (snd (linkManager e d)) = dp_AllowedUsers d"
  "dp_AllowedUsers (snd (new_writer mw d)) = dp_AllowedUsers d"
  "dp_AllowedUsers (snd (trafficCounter tag d)) = dp_AllowedUsers d"
  "dp_AllowedUsers (snd (user_counter t e d)) = dp_AllowedUsers d"
  "dp_writers (snd (trafficCounter tag d)) = dp_writers d"
  "dp_writers (snd (user_counter t e d)) = dp_writers d"
  "dp_managers (snd (new_writer mw d)) = dp_managers d"
  "dp_managers (snd (trafficCounter tag d)) = dp_managers d" "dp_released (snd (trafficCounter tag d)) = dp_released d"
  "dp_managers (snd (user_counter t e d)) = dp_managers d" "dp_released (snd (user_counter t e d)) = dp_released d"
  by (simp_all add: linkManager_def new_writer_def trafficCounter_def user_counter_def Let_def
      split: option.split prod.split)

lemma forget_manager_released [simp]: "dp_released (forget_manager e m d) = dp_released d"
  by (simp add: forget_manager_def)

lemma writer_end_limited [simp]: "writer_end d (limited w x) = writer_end d x"
  by (cases w) (simp_all add: limited_def)

definition managers_ok :: "Dispatcher \<Rightarrow> bool" where
  "managers_ok d \<longleftrightarrow> (\<forall>e m. map_of (dp_LinkManagers d) e = Some m \<longrightarrow> m < length (dp_managers d))"

lemma linkManager_ok: "managers_ok d \<Longrightarrow> linkManager e d = (m, d') \<Longrightarrow> m < length (dp_managers d')"
  by (auto simp: managers_ok_def linkManager_def Let_def split: option.splits)

lemma in_mput: "(k, v) \<in> set (mput k v m)"
  by (induction m) auto

text \<open>A link that was added is released with its manager, whether or not the manager was closed before.\<close>

lemma AddLink_CloseAll:
  assumes "m < length (dp_managers d)" and "dp_managers d' = dp_managers (AddLink m w r d)"
    and "dp_released d' = dp_released (AddLink m w r d)"
  shows "reader_ends r \<subseteq> dp_released (CloseAll m d')"
proof (cases "lm_closed (dp_managers d ! m)")
  case False
  with assms have "dp_managers d' ! m = (dp_managers d ! m)\<lparr>lm_links := mput w r (lm_links (dp_managers d ! m))\<rparr>"
    by (simp add: AddLink_def on_manager_nth)
  with in_mput[of w r] show ?thesis by (fastforce simp: CloseAll_released)
qed (use assms in \<open>auto simp: CloseAll_released AddLink_def\<close>)

text \<open>What an admission leaves: an error closes the outbound side of the link, a success is the limiter of the
  tag, a reader and a writer of the connection.\<close>

lemma getLink_user:
  assumes "ib_User ib = Some email" "email \<noteq> []" "getLink now tcp i (Some ib) d lims = (r, ib', d', lims')"
    and ok: "managers_ok d"
  shows "(case r of
      Inl e \<Rightarrow> \<not> admitted now tcp ib email d lims \<and> {DownlinkWriter i, UplinkReader i} \<subseteq> dp_released d'
    | Inr (a, b, l) \<Rightarrow> admitted now tcp ib email d lims \<and> Inr (the l) = GetLimiter (ib_Tag ib) lims \<and> l \<noteq> None \<and>
        lk_Reader b = PipeReader (UplinkReader i) \<and> writer_end d' (lk_Writer b) = DownlinkWriter i) \<and>
    (\<forall>k. li_DomainRules (deref lims' k) = li_DomainRules (deref lims k) \<and>
       li_ProtocolRules (deref lims' k) = li_ProtocolRules (deref lims k)) \<and> lw_map lims' = lw_map lims"
proof -
  have u: "has_user (Some ib) = Some (ib, email)" using assms by (simp add: has_user_def)
  obtain c lims1 where c: "check_user now tcp ib email lims = (c, lims1)" by fastforce
  note rules = check_user_rules[OF c]
  show ?thesis
  proof (cases c)
    case (Inl e)
    with c have "\<not> admitted now tcp ib email d lims"
      by (auto simp: check_user_def admitted_def Let_def split: sum.splits prod.splits if_splits)
    with assms(3) u c Inl rules show ?thesis
      by (auto simp: getLink_def interrupt_released close_writer_released Let_def)
  next
    case (Inr lw)
    obtain l w where lw: "lw = (l, w)" by fastforce
    from c Inr have l: "GetLimiter (ib_Tag ib) lims = Inr l"
      "\<not> snd (fst (CheckLimit now email (ib_Source ib) tcp (ib_SourceTCP ib) (deref lims l)))"
      by (auto simp: check_user_def lw Let_def split: sum.splits prod.splits if_splits)
    obtain m d1 where m: "linkManager email d = (m, d1)" by fastforce
    obtain mw d2 where mw: "new_writer \<lparr>mw_writer = UplinkWriter i, mw_manager = m, mw_connection = Connection i\<rparr> d1 = (mw, d2)"
      by fastforce
    obtain t d3 where t: "trafficCounter (ib_Tag ib) (AddLink m mw (PipeReader (UplinkReader i)) d2) = (t, d3)" by fastforce
    obtain ts d4 where ts: "user_counter t email d3 = (ts, d4)" by fastforce
    have A: "dp_AllowedUsers d4 = dp_AllowedUsers d"
      using table_frames(1)[of email d] table_frames(2)[of "\<lparr>mw_writer = UplinkWriter i, mw_manager = m, mw_connection = Connection i\<rparr>" d1]
        table_frames(3)[of "ib_Tag ib" "AddLink m mw (PipeReader (UplinkReader i)) d2"] table_frames(4)[of t email d3]
      by (simp add: m mw t ts)
    have L: "m < length (dp_managers d2)"
      using linkManager_ok[OF ok m] table_frames(7)[of "\<lparr>mw_writer = UplinkWriter i, mw_manager = m, mw_connection = Connection i\<rparr>" d1]
      by (simp add: mw)
    have U: "UplinkReader i \<in> dp_released (CloseAll m d4)"
      using AddLink_CloseAll[OF L, of d4 mw "PipeReader (UplinkReader i)"]
        table_frames(8,9)[of "ib_Tag ib" "AddLink m mw (PipeReader (UplinkReader i)) d2"] table_frames(10,11)[of t email d3]
      by (simp add: t ts)
    show ?thesis
      using assms(3) u c Inr lw rules l A U
      by (auto simp: getLink_def m mw t ts Let_def admitted_def interrupt_released close_writer_released
          split: if_splits)
  qed
qed

lemma Domain_rules_cong:
  "li_DomainRules l = li_DomainRules l' \<Longrightarrow> CheckDomainRule matches l s = CheckDomainRule matches l' s"
  "li_ProtocolRules l = li_ProtocolRules l' \<Longrightarrow> CheckProtocolRule l s = CheckProtocolRule l' s"
  by (simp_all add: CheckDomainRule_def CheckProtocolRule_def)

text \<open>C7: a connection of a user reaches an outbound exactly if its limiter admits it, the user is not
  revoked, no rule of the node blocks the target sniffing settled on or the protocol found, and there is
  an outbound for it; otherwise the pipes of its outbound side are closed.\<close>

theorem Dispatch_outcome:
  assumes "ib_User ib = Some email" and "email \<noteq> []" and "managers_ok d"
    and "target_of S True request destination = (target, ob, protocol)"
    and "Dispatch matches S now tcp i ib request destination d lims = (r, h, ob', d', lims')"
  shows "h = (if admitted now tcp ib email d lims \<and> permitted matches ib target protocol lims
              then the_handler (su_routes S) else None) \<and>
    (h = None \<longrightarrow> {DownlinkWriter i, UplinkReader i} \<subseteq> dp_released d')"
proof -
  obtain g ib1 d1 lims1 where g: "getLink now tcp i (Some ib) d lims = (g, ib1, d1, lims1)" by (rule prod_cases4)
  note G = getLink_user[OF assms(1,2) g assms(3)]
  show ?thesis
  proof (cases g)
    case (Inl e)
    with G g assms(5) show ?thesis by (auto simp: Dispatch_def)
  next
    case (Inr abl)
    obtain a b l where abl: "abl = (a, b, Some l)" using G Inr by (cases abl) auto
    from G Inr abl have ad: "admitted now tcp ib email d lims" and l: "GetLimiter (ib_Tag ib) lims = Inr l"
      and b: "lk_Reader b = PipeReader (UplinkReader i)" "writer_end d1 (lk_Writer b) = DownlinkWriter i" by auto
    have "CheckDomainRule matches (deref lims1 l) s = CheckDomainRule matches (deref lims l) s"
      "CheckProtocolRule (deref lims1 l) s = CheckProtocolRule (deref lims l) s" for s
      using G by (simp_all add: CheckDomainRule_def CheckProtocolRule_def)
    then have bl: "blocked matches lims1 (Some l) ib target protocol \<longleftrightarrow> \<not> permitted matches ib target protocol lims"
      using l assms(1) by (simp add: blocked_def rule_limiter_def permitted_def)
    have cl: "{DownlinkWriter i, UplinkReader i} \<subseteq> dp_released (close_link (behind_cache request b) d1)"
      using b by (auto simp: close_link_released behind_cache_def)
    obtain h2 ob2 d2 where R: "routedDispatch matches (su_routes S) ib (behind_cache request b) target (Some l) protocol lims1 ob d1
        = (h2, ob2, d2)" by (rule prod_cases3)
    have "Dispatch matches S now tcp i ib request destination d lims = (Inr a, h2, ob2, d2, lims1)"
      by (simp add: Dispatch_def g[unfolded Inr abl] assms(4) R)
    with assms(5) have D: "routedDispatch matches (su_routes S) ib (behind_cache request b) target (Some l) protocol lims1 ob d1
        = (h, ob', d')" using R by auto
    show ?thesis
    proof (cases "permitted matches ib target protocol lims \<and> pick_handler (su_routes S) \<noteq> None")
      case True
      then obtain h0 p where "pick_handler (su_routes S) = Some (h0, p)" by auto
      with True bl D ad show ?thesis by (auto simp: routedDispatch_def the_handler_def)
    next
      case False
      then have "(h, ob', d') = (None, ob, close_link (behind_cache request b) d1)"
        using bl D by (cases "pick_handler (su_routes S)") (auto simp: routedDispatch_def split: if_splits)
      with False cl ad show ?thesis by (cases "pick_handler (su_routes S)") (auto simp: the_handler_def)
    qed
  qed
qed

section \<open>An example\<close>

definition demo_inbound :: Inbound where
  "demo_inbound = \<lparr>ib_Tag = ''t'', ib_User = Some ''t|u7'', ib_Source = ''1.2.3.4'', ib_SourceTCP = True, ib_CanSpliceCopy = 0\<rparr>"

definition demo_dispatcher :: Dispatcher where
  "demo_dispatcher = \<lparr>dp_Counter = [], dp_AllowedUsers = [(''t|u7'', True)], dp_LinkManagers = [], dp_counters = [],
     dp_managers = [], dp_writers = [], dp_released = {}\<rparr>"

definition demo_registry :: "string limiters" where
  "demo_registry = \<lparr>lw_heap = [Limiter_zero\<lparr>li_DomainRules := [''b.org''],
     li_UserLimitInfo := [(''t|u7'', UserLimitInfo_zero)]\<rparr>], lw_map = [(''t'', 0)]\<rparr>"

definition demo_routes :: "string routes" where
  "demo_routes = \<lparr>ru_forced = [], ru_pick = Some (Inr (''out'', [])), ru_handler = (\<lambda>t. Some t), ru_default = None,
     ru_tag = (\<lambda>h. h), ru_inTag = ''t''\<rparr>"

definition demo_surroundings :: "string \<Rightarrow> string surroundings" where
  "demo_surroundings domain = \<lparr>su_parse = Domain, su_pool = None, su_routes = demo_routes,
     su_sniffed = Found (Some \<lparr>sr_Protocol = ''tls'', sr_Domain = domain, sr_ProtocolForDomain = None, sr_ProtoSubsetOf = None\<rparr>),
     su_protocol = []\<rparr>"

definition demo_request :: SniffingRequest where
  "demo_request = \<lparr>rq_Enabled = True, rq_MetadataOnly = False, rq_RouteOnly = False, rq_OverrideFor = [''tls''],
     rq_ExcludeForDomain = None, rq_ExcludeForIP = None\<rparr>"

definition demo_dispatch :: "string \<Rightarrow> Link res \<times> (string \<times> string) option \<times> Outbound \<times> Dispatcher \<times> string limiters" where
  "demo_dispatch domain = Dispatch (=) (demo_surroundings domain) 0 True 1 demo_inbound demo_request (IP ''9.9.9.9'')
     demo_dispatcher demo_registry"

text \<open>A connection to an address whose TLS names the blocked domain is closed, any other is handed on.\<close>

theorem Dispatch_outcome_witness:
  "fst (snd (demo_dispatch ''a.org'')) = Some (''out'', ''t -> out'') \<and>
   fst (snd (demo_dispatch ''b.org'')) = None \<and>
   DownlinkWriter 1 \<in> dp_released (fst (snd (snd (snd (demo_dispatch ''b.org'')))))"
proof -
  have 1: "ib_User demo_inbound = Some ''t|u7''" "''t|u7'' \<noteq> []" "managers_ok demo_dispatcher"
    by (simp_all add: demo_inbound_def managers_ok_def demo_dispatcher_def)
  have 2: "target_of (demo_surroundings s) True demo_request (IP ''9.9.9.9'') =
      (Domain s, (new_outbound (IP ''9.9.9.9''))\<lparr>ob_Target := Domain s\<rparr>, ''tls'')" if "s = ''a.org'' \<or> s = ''b.org''" for s
    using that by (elim disjE) (hypsubst, code_simp)+
  have 3: "admitted 0 True demo_inbound ''t|u7'' demo_dispatcher demo_registry"
    "permitted (=) demo_inbound (Domain ''a.org'') ''tls'' demo_registry"
    "\<not> permitted (=) demo_inbound (Domain ''b.org'') ''tls'' demo_registry"
    "the_handler (su_routes (demo_surroundings ''a.org'')) = Some (''out'', ''t -> out'')"
    by code_simp+
  obtain r1 h1 o1 d1 l1 where a: "demo_dispatch ''a.org'' = (r1, h1, o1, d1, l1)" by (rule prod_cases5)
  obtain r2 h2 o2 d2 l2 where b: "demo_dispatch ''b.org'' = (r2, h2, o2, d2, l2)" by (rule prod_cases5)
  show ?thesis
    using Dispatch_outcome[OF 1 2 a[unfolded demo_dispatch_def]] Dispatch_outcome[OF 1 2 b[unfolded demo_dispatch_def]] 3
    by (simp add: a b)
qed

end
