(* ===== verification/Xray_Inbound.thy ===== *)
theory Xray_Inbound
  imports Vless Conf_Types
begin

text \<open>
  The inbounds and outbounds the Xray core is configured with (runtime/core/xray/inbound.go and outbound.go)
  and the accounts of its users (ss.go, trojan.go, vmess.go).  The configuration structures of Xray are kept
  as far as the code fills them; their \<open>Build\<close> and the decoders of transport settings are library functions.
\<close>

section \<open>Configuration structures\<close>

record TransportSettings =
  tr_AcceptProxyProtocol :: bool
  tr_rest :: string

record SocketConfig =
  sk_AcceptProxyProtocol :: bool
  sk_TFO :: bool

record TLSConfig =
  tl_CertFile :: string
  tl_KeyFile :: string
  tl_OcspStapling :: nat
  tl_RejectUnknownSNI :: bool

record REALITYConfig =
  rl_Dest :: string
  rl_Xver :: nat
  rl_ServerNames :: "string list"
  rl_PrivateKey :: string
  rl_MinClientVer :: string
  rl_MaxClientVer :: string
  rl_MaxTimeDiff :: nat
  rl_ShortIds :: "string list"
  rl_Mldsa65Seed :: string

record StreamConfig =
  sm_Network :: "string option"
  sm_TCPSettings :: "TransportSettings option"
  sm_WSSettings :: "TransportSettings option"
  sm_GRPCSettings :: "TransportSettings option"
  sm_HTTPUPGRADESettings :: "TransportSettings option"
  sm_SplitHTTPSettings :: "TransportSettings option"
  sm_SocketSettings :: "SocketConfig option"
  sm_Security :: string
  sm_TLSSettings :: "TLSConfig option"
  sm_REALITYSettings :: "REALITYConfig option"

definition StreamConfig_zero :: StreamConfig where
  "StreamConfig_zero = \<lparr>sm_Network = None, sm_TCPSettings = None, sm_WSSettings = None, sm_GRPCSettings = None,
     sm_HTTPUPGRADESettings = None, sm_SplitHTTPSettings = None, sm_SocketSettings = None, sm_Security = [],
     sm_TLSSettings = None, sm_REALITYSettings = None\<rparr>"

record Fallback =
  fl_Name :: string
  fl_Alpn :: string
  fl_Path :: string
  fl_Dest :: string
  fl_Xver :: nat

text \<open>The settings documents, before they are written as JSON.\<close>

datatype InboundSettings =
    VLessInboundConfig string "Fallback list option"
  | VMessInboundConfig
  | TrojanServerConfig "Fallback list option"
  | ShadowsocksServerConfig string string "(string \<times> string) list" "string list"

record InboundDetourConfig =
  id_Protocol :: string
  id_Settings :: "InboundSettings option"
  id_StreamSetting :: "StreamConfig option"
  id_Port :: "nat \<times> nat"
  id_ListenOn :: string
  id_Sniffing :: bool
  id_Tag :: string

definition InboundDetourConfig_zero :: InboundDetourConfig where
  "InboundDetourConfig_zero = \<lparr>id_Protocol = [], id_Settings = None, id_StreamSetting = None, id_Port = (0, 0),
     id_ListenOn = [], id_Sniffing = False, id_Tag = []\<rparr>"

text \<open>
  Library functions: the decoder of transport settings by network (a document null leaves a nil pointer),
  the parser of durations (in nanoseconds, 0 for a text that is none), and the bytes of the random
  generator.
\<close>

record inbound_lib =
  il_transport :: "string \<Rightarrow> string \<Rightarrow> TransportSettings option res"
  il_duration :: "string \<Rightarrow> int"
  il_random :: "nat list res"

definition nil_pointer :: err where
  "nil_pointer = ''invalid memory address or nil pointer dereference''"

section \<open>Encodings\<close>

definition b64_alphabet :: string where
  "b64_alphabet = ''ABCDEFGHIJKLMNOPQRSTUVWXYZabcdefghijklmnopqrstuvwxyz0123456789+/''"

text \<open>\<open>base64.StdEncoding.EncodeToString\<close>.\<close>

fun b64_groups :: "nat list \<Rightarrow> string" where
  "b64_groups [] = []"
| "b64_groups [a] = [b64_alphabet ! (a div 4), b64_alphabet ! (a mod 4 * 16), CHR ''='', CHR ''='']"
| "b64_groups [a, b] = [b64_alphabet ! (a div 4), b64_alphabet ! (a mod 4 * 16 + b div 16),
     b64_alphabet ! (b mod 16 * 4), CHR ''='']"
| "b64_groups (a # b # c # bs) = [b64_alphabet ! (a div 4), b64_alphabet ! (a mod 4 * 16 + b div 16),
     b64_alphabet ! (b mod 16 * 4 + c div 64), b64_alphabet ! (c mod 64)] @ b64_groups bs"

definition StdEncoding :: "string \<Rightarrow> string" where
  "StdEncoding s = b64_groups (map of_char s)"

definition hex_digit :: "nat \<Rightarrow> char" where
  "hex_digit n = ''0123456789abcdef'' ! n"

definition hex_EncodeToString :: "nat list \<Rightarrow> string" where
  "hex_EncodeToString bs = concat (map (\<lambda>b. [hex_digit (b div 16), hex_digit (b mod 16)]) bs)"

definition JoinHostPort :: "string \<Rightarrow> string \<Rightarrow> string" where
  "JoinHostPort host port =
     (if CHR '':'' \<in> set host then ''['' @ host @ '']:'' @ port else host @ '':'' @ port)"

section \<open>Protocols\<close>

fun fallbacks :: "FallBackConfigForXray list \<Rightarrow> Fallback list res" where
  "fallbacks [] = Inr []"
| "fallbacks (c # cs) =
     (if fx_Dest c = [] then Inl ''dest is required for fallback fialed''
      else (case fallbacks cs of
          Inl e \<Rightarrow> Inl e
        | Inr fs \<Rightarrow> Inr (\<lparr>fl_Name = fx_SNI c, fl_Alpn = fx_Alpn c, fl_Path = fx_Path c, fl_Dest = fx_Dest c,
            fl_Xver = fx_ProxyProtocolVer c\<rparr> # fs)))"

definition buildVlessFallbacks :: "FallBackConfigForXray list option \<Rightarrow> Fallback list res" where
  "buildVlessFallbacks cs = (case cs of None \<Rightarrow> Inl ''you must provide FallBackConfigs'' | Some l \<Rightarrow> fallbacks l)"

definition buildTrojanFallbacks :: "FallBackConfigForXray list option \<Rightarrow> Fallback list res" where
  "buildTrojanFallbacks cs = (case cs of None \<Rightarrow> Inl ''you must provide FallBackConfigs'' | Some l \<Rightarrow> fallbacks l)"

text \<open>The stream settings of a network, decoded.\<close>

definition stream_of :: "inbound_lib \<Rightarrow> string list \<Rightarrow> string \<Rightarrow> string \<Rightarrow> StreamConfig res" where
  "stream_of B known network settings =
     (let sm = StreamConfig_zero\<lparr>sm_Network := Some network\<rparr>
      in if network \<notin> set known then Inl ''the network type is not vail''
         else (case il_transport B network settings of
             Inl e \<Rightarrow> Inl (''unmarshal '' @ (if network = ''splithttp'' then ''xhttp'' else network) @ '' settings error: '' @ e)
           | Inr t \<Rightarrow> Inr (if network = ''tcp'' then sm\<lparr>sm_TCPSettings := t\<rparr>
               else if network = ''ws'' then sm\<lparr>sm_WSSettings := t\<rparr>
               else if network = ''grpc'' then sm\<lparr>sm_GRPCSettings := t\<rparr>
               else if network = ''httpupgrade'' then sm\<lparr>sm_HTTPUPGRADESettings := t\<rparr>
               else sm\<lparr>sm_SplitHTTPSettings := t\<rparr>)))"

definition v2ray_networks :: "string list" where
  "v2ray_networks = [''tcp'', ''ws'', ''grpc'', ''httpupgrade'', ''splithttp'', ''xhttp'']"

definition vless_settings :: "XrayOptions \<Rightarrow> VAllssNode \<Rightarrow> InboundSettings res" where
  "vless_settings xo v = (case VLESSDecryption (Some v) of
     Inl e \<Rightarrow> Inl e
   | Inr decryption \<Rightarrow>
       if xo_EnableFallback xo \<and> decryption \<noteq> ''none'' then Inl ''VLESS encryption with fallback is not supported''
       else if xo_EnableFallback xo then
         (case buildVlessFallbacks (xo_FallBackConfigs xo) of
            Inl e \<Rightarrow> Inl e | Inr fs \<Rightarrow> Inr (VLessInboundConfig ''none'' (Some fs)))
       else Inr (VLessInboundConfig decryption None))"

definition buildV2ray ::
  "inbound_lib \<Rightarrow> XrayOptions \<Rightarrow> string \<Rightarrow> VAllssNode \<Rightarrow> InboundDetourConfig \<Rightarrow> InboundDetourConfig res" where
  "buildV2ray B xo type v inb =
     (case (if type = ''vless'' then map_sum id (\<lambda>s. (''vless'', s)) (vless_settings xo v)
            else Inr (''vmess'', VMessInboundConfig)) of
        Inl e \<Rightarrow> Inl e
      | Inr (protocol, s) \<Rightarrow>
          (let inb = inb\<lparr>id_Protocol := protocol, id_Settings := Some s\<rparr>
           in if length (va_NetworkSettings v) = 0 then Inr inb
              else (case stream_of B v2ray_networks (va_Network v) (va_NetworkSettings v) of
                  Inl e \<Rightarrow> Inl e | Inr sm \<Rightarrow> Inr (inb\<lparr>id_StreamSetting := Some sm\<rparr>))))"

definition trojan_network :: "TrojanNode \<Rightarrow> string" where
  "trojan_network v = (if tj_Network v = [] then ''tcp'' else tj_Network v)"

definition buildTrojan ::
  "inbound_lib \<Rightarrow> XrayOptions \<Rightarrow> TrojanNode \<Rightarrow> InboundDetourConfig \<Rightarrow> InboundDetourConfig res" where
  "buildTrojan B xo v inb =
     (case (if xo_EnableFallback xo then map_sum id Some (buildTrojanFallbacks (xo_FallBackConfigs xo)) else Inr None) of
        Inl e \<Rightarrow> Inl e
      | Inr fs \<Rightarrow> (case stream_of B [''tcp'', ''ws'', ''grpc''] (trojan_network v) (tj_NetworkSettings v) of
          Inl e \<Rightarrow> Inl e
        | Inr sm \<Rightarrow> Inr (inb\<lparr>id_Protocol := ''trojan'', id_Settings := Some (TrojanServerConfig fs),
            id_StreamSetting := Some sm\<rparr>)))"

definition buildShadowsocks ::
  "inbound_lib \<Rightarrow> ShadowsocksNode \<Rightarrow> InboundDetourConfig \<Rightarrow> InboundDetourConfig res" where
  "buildShadowsocks B s inb = (case il_random B of
     Inl e \<Rightarrow> Inl (''generate random password error: '' @ e)
   | Inr p \<Rightarrow>
       (let randomPasswd = hex_EncodeToString p;
            (password, user) = (if ss_ServerKey s \<noteq> [] then (ss_ServerKey s, ([], StdEncoding randomPasswd))
                                else ([], (ss_Cipher s, randomPasswd)))
        in Inr (inb\<lparr>id_Protocol := ''shadowsocks'',
             id_Settings := Some (ShadowsocksServerConfig (ss_Cipher s) password [user] [''tcp'', ''udp'']),
             id_StreamSetting := Some (StreamConfig_zero\<lparr>sm_Network := Some ''tcp''\<rparr>)\<rparr>)))"

section \<open>The inbound\<close>

text \<open>The configuration of the node's protocol and the network it is served over.\<close>

definition build_protocol ::
  "inbound_lib \<Rightarrow> XrayOptions \<Rightarrow> NodeInfo \<Rightarrow> (InboundDetourConfig \<times> string) res" where
  "build_protocol B xo n =
     (let inb = InboundDetourConfig_zero
      in if ni_Type n = ''vmess'' \<or> ni_Type n = ''vless'' then
           (case ni_VAllss n of None \<Rightarrow> Inl nil_pointer
            | Some v \<Rightarrow> map_sum id (\<lambda>i. (i, va_Network v)) (buildV2ray B xo (ni_Type n) v inb))
         else if ni_Type n = ''trojan'' then
           (case ni_Trojan n of None \<Rightarrow> Inl nil_pointer
            | Some v \<Rightarrow> map_sum id (\<lambda>i. (i, trojan_network v)) (buildTrojan B xo v inb))
         else if ni_Type n = ''shadowsocks'' then
           (case ni_Shadowsocks n of None \<Rightarrow> Inl nil_pointer
            | Some v \<Rightarrow> map_sum id (\<lambda>i. (i, ''tcp'')) (buildShadowsocks B v inb))
         else Inl (''unsupported node type: '' @ ni_Type n @ '', Only support: V2ray, Trojan, Shadowsocks''))"

definition accept_proxy :: "bool \<Rightarrow> TransportSettings option \<Rightarrow> TransportSettings option" where
  "accept_proxy b t = Some (case t of
     Some x \<Rightarrow> x\<lparr>tr_AcceptProxyProtocol := b\<rparr> | None \<Rightarrow> \<lparr>tr_AcceptProxyProtocol = b, tr_rest = []\<rparr>)"

definition set_transport :: "XrayOptions \<Rightarrow> string \<Rightarrow> StreamConfig \<Rightarrow> StreamConfig" where
  "set_transport xo network sm =
     (if network = ''tcp'' then sm\<lparr>sm_TCPSettings := accept_proxy (xo_EnableProxyProtocol xo) (sm_TCPSettings sm)\<rparr>
      else if network = ''ws'' then sm\<lparr>sm_WSSettings := accept_proxy (xo_EnableProxyProtocol xo) (sm_WSSettings sm)\<rparr>
      else sm\<lparr>sm_SocketSettings := Some \<lparr>sk_AcceptProxyProtocol = xo_EnableProxyProtocol xo, sk_TFO = xo_EnableTFO xo\<rparr>\<rparr>)"

definition realityConfig :: "inbound_lib \<Rightarrow> VAllssNode \<Rightarrow> REALITYConfig" where
  "realityConfig B v =
     (let ts = va_TlsSettings v;
          dest = (if ts_Dest ts = [] then ts_ServerName ts else ts_Dest ts);
          xver = (if ts_Xver ts = 0 then rc_Xver (va_RealityConfig v) else ts_Xver ts);
          mtd = il_duration B (rc_MaxTimeDiff (va_RealityConfig v))
      in \<lparr>rl_Dest = JoinHostPort dest (ts_ServerPort ts), rl_Xver = xver, rl_ServerNames = [ts_ServerName ts],
          rl_PrivateKey = ts_PrivateKey ts, rl_MinClientVer = rc_MinClientVer (va_RealityConfig v),
          rl_MaxClientVer = rc_MaxClientVer (va_RealityConfig v), rl_MaxTimeDiff = nat (quot64 mtd 1000 mod 2 ^ 64),
          rl_ShortIds = [ts_ShortId ts], rl_Mldsa65Seed = ts_Mldsa65Seed ts\<rparr>)"

definition set_security :: "inbound_lib \<Rightarrow> Options \<Rightarrow> NodeInfo \<Rightarrow> StreamConfig \<Rightarrow> StreamConfig res" where
  "set_security B o1 n sm =
     (if ni_Security n = Tls then
        (case op_CertConfig o1 of
           None \<Rightarrow> Inl ''the CertConfig is not vail''
         | Some cc \<Rightarrow>
             if cc_CertMode cc = ''none'' \<or> cc_CertMode cc = [] then Inr sm
             else Inr (sm\<lparr>sm_Security := ''tls'', sm_TLSSettings := Some \<lparr>tl_CertFile = cc_CertFile cc,
               tl_KeyFile = cc_KeyFile cc, tl_OcspStapling = 3600, tl_RejectUnknownSNI = cc_RejectUnknownSni cc\<rparr>\<rparr>))
      else if ni_Security n = Reality then
        (case ni_VAllss n of
           None \<Rightarrow> Inl nil_pointer
         | Some v \<Rightarrow> Inr (sm\<lparr>sm_Security := ''reality'', sm_REALITYSettings := Some (realityConfig B v)\<rparr>))
      else Inr sm)"

definition buildInbound :: "inbound_lib \<Rightarrow> Options \<Rightarrow> NodeInfo \<Rightarrow> string \<Rightarrow> InboundDetourConfig res" where
  "buildInbound B o1 n tag = (case op_XrayOptions o1 of
     None \<Rightarrow> Inl nil_pointer
   | Some xo \<Rightarrow>
       if xo_DisableIVCheck xo then Inl ''DisableIVCheck is no longer supported by official Xray''
       else (case build_protocol B xo n of
         Inl e \<Rightarrow> Inl e
       | Inr (inb, network) \<Rightarrow> (case ni_Common n of
           None \<Rightarrow> Inl nil_pointer
         | Some cn \<Rightarrow>
             (let sm = (case id_StreamSetting inb of None \<Rightarrow> StreamConfig_zero | Some x \<Rightarrow> x);
                  port = nat (cn_ServerPort cn mod 2 ^ 32)
              in case set_security B o1 n (set_transport xo network sm) of
                   Inl e \<Rightarrow> Inl e
                 | Inr sm \<Rightarrow> Inr (inb\<lparr>id_StreamSetting := Some sm, id_Port := (port, port), id_ListenOn := op_ListenIP o1,
                     id_Sniffing := \<not> xo_DisableSniffing xo, id_Tag := tag\<rparr>)))))"

section \<open>The outbound\<close>

record OutboundDetourConfig =
  od_Protocol :: string
  od_Tag :: string
  od_SendThrough :: "string option"
  od_DomainStrategy :: string
  od_FinalRules :: "string list"

definition buildOutbound :: "Options \<Rightarrow> string \<Rightarrow> OutboundDetourConfig res" where
  "buildOutbound o1 tag = (case op_XrayOptions o1 of
     None \<Rightarrow> Inl nil_pointer
   | Some xo \<Rightarrow> Inr \<lparr>od_Protocol = ''freedom'', od_Tag = tag,
       od_SendThrough = (if op_SendIP o1 \<noteq> [] then Some (op_SendIP o1) else None),
       od_DomainStrategy = (if xo_EnableDNS xo then (if xo_DNSType xo \<noteq> [] then xo_DNSType xo else ''UseIP'') else ''Asis''),
       od_FinalRules = (if xo_AllowPrivateNetwork xo then [''allow''] else [])\<rparr>)"

section \<open>Users\<close>

datatype CipherType = AES_128_GCM | AES_256_GCM | CHACHA20_POLY1305 | CipherUnknown

datatype Account =
    VMessAccount string string
  | VLessAccount string string
  | TrojanAccount string
  | ShadowsocksAccount string CipherType
  | Shadowsocks2022Account string

record protocolUser =
  pu_Email :: string
  pu_Account :: Account

definition buildVmessUser :: "string \<Rightarrow> UserInfo \<Rightarrow> protocolUser" where
  "buildVmessUser tag u = \<lparr>pu_Email = UserTag tag (ui_Uuid u), pu_Account = VMessAccount (ui_Uuid u) ''auto''\<rparr>"

definition buildVlessUser :: "string \<Rightarrow> UserInfo \<Rightarrow> string \<Rightarrow> protocolUser" where
  "buildVlessUser tag u flow = \<lparr>pu_Email = UserTag tag (ui_Uuid u),
     pu_Account = VLessAccount (ui_Uuid u) (if flow = ''none'' then [] else flow)\<rparr>"

definition buildTrojanUser :: "string \<Rightarrow> UserInfo \<Rightarrow> protocolUser" where
  "buildTrojanUser tag u = \<lparr>pu_Email = UserTag tag (ui_Uuid u), pu_Account = TrojanAccount (ui_Uuid u)\<rparr>"

definition getCipherFromString :: "string \<Rightarrow> CipherType" where
  "getCipherFromString c =
     (if ToLower c \<in> {''aes-128-gcm'', ''aead_aes_128_gcm''} then AES_128_GCM
      else if ToLower c \<in> {''aes-256-gcm'', ''aead_aes_256_gcm''} then AES_256_GCM
      else if ToLower c \<in> {''chacha20-poly1305'', ''aead_chacha20_poly1305'', ''chacha20-ietf-poly1305''} then CHACHA20_POLY1305
      else CipherUnknown)"

definition keyLength :: "string \<Rightarrow> nat" where
  "keyLength cypher = (if cypher = ''2022-blake3-aes-128-gcm'' then 16
     else if cypher = ''2022-blake3-aes-256-gcm'' \<or> cypher = ''2022-blake3-chacha20-poly1305'' then 32 else 0)"

text \<open>A uuid shorter than the key is a slice out of range: no user.\<close>

definition buildSSUser :: "string \<Rightarrow> UserInfo \<Rightarrow> string \<Rightarrow> string \<Rightarrow> protocolUser option" where
  "buildSSUser tag u cypher serverKey =
     (if serverKey = [] then Some \<lparr>pu_Email = UserTag tag (ui_Uuid u),
         pu_Account = ShadowsocksAccount (ui_Uuid u) (getCipherFromString cypher)\<rparr>
      else if length (ui_Uuid u) < keyLength cypher then None
      else Some \<lparr>pu_Email = UserTag tag (ui_Uuid u),
         pu_Account = Shadowsocks2022Account (StdEncoding (take (keyLength cypher) (ui_Uuid u)))\<rparr>)"

definition buildVmessUsers :: "string \<Rightarrow> UserInfo list \<Rightarrow> protocolUser list" where
  "buildVmessUsers tag us = map (buildVmessUser tag) us"

definition buildVlessUsers :: "string \<Rightarrow> UserInfo list \<Rightarrow> string \<Rightarrow> protocolUser list" where
  "buildVlessUsers tag us flow = map (\<lambda>u. buildVlessUser tag u flow) us"

definition buildTrojanUsers :: "string \<Rightarrow> UserInfo list \<Rightarrow> protocolUser list" where
  "buildTrojanUsers tag us = map (buildTrojanUser tag) us"

definition buildSSUsers :: "string \<Rightarrow> UserInfo list \<Rightarrow> string \<Rightarrow> string \<Rightarrow> protocolUser list option" where
  "buildSSUsers tag us cypher serverKey =
     (let built = map (\<lambda>u. buildSSUser tag u cypher serverKey) us
      in if None \<in> set built then None else Some (map the built))"

end
