(* ===== verification/Xray_Dns.thy ===== *)
theory Xray_Dns
  imports Panel_Types "HOL-Library.List_Lexorder" "HOL-Library.Char_ord"
begin

text \<open>
  The DNS document of a node (runtime/core/xray/dns.go): what the panel's DNS routes are compiled to and
  how the file Xray reads is replaced.  JSON printing and Xray's own check of a document are library
  functions, as is the recognition of an IP address.
\<close>

record dns_lib =
  dl_Indent :: "string \<Rightarrow> string option"
  dl_IsIP :: "string \<Rightarrow> bool"
  dl_MarshalIndent :: "any list \<Rightarrow> string \<Rightarrow> string option"
  dl_Check :: "string \<Rightarrow> bool"

section \<open>The document\<close>

text \<open>One server: its entry with host and port split when the address is neither a URL nor an IP address.\<close>

definition dns_server :: "dns_lib \<Rightarrow> (string, any) gomap \<Rightarrow> any res" where
  "dns_server D value = (case map_of value ''address'' of
     Some (AnyStr address) \<Rightarrow>
       if Contains address '':'' \<and> \<not> Contains address ''/'' \<and> \<not> dl_IsIP D address then
         (case SplitHostPort address of
            None \<Rightarrow> Inl ''invalid panel DNS endpoint''
          | Some (host, port) \<Rightarrow> (case ParseUint 16 port of
              None \<Rightarrow> Inl ''invalid panel DNS port''
            | Some number \<Rightarrow>
                if number = 0 then Inl ''invalid panel DNS port''
                else Inr (AnyMap (mput ''port'' (AnyInt (int number)) (mput ''address'' (AnyStr host) value)))))
       else Inr (AnyMap value)
   | _ \<Rightarrow> Inl ''invalid panel DNS address'')"

fun dns_servers :: "dns_lib \<Rightarrow> (string, (string, any) gomap) gomap \<Rightarrow> string list \<Rightarrow> any list \<Rightarrow> any list res" where
  "dns_servers D m [] servers = Inr servers"
| "dns_servers D m (key # keys) servers = (case dns_server D (mget_or [] m key) of
     Inl e \<Rightarrow> Inl e | Inr s \<Rightarrow> dns_servers D m keys (servers @ [s]))"

definition default_servers :: "any list" where
  "default_servers = [AnyStr ''https+local://1.1.1.1/dns-query'', AnyStr ''https+local://8.8.8.8/dns-query'']"

definition check_document :: "dns_lib \<Rightarrow> string \<Rightarrow> string option res" where
  "check_document D data = (if dl_Check D data then Inr (Some data) else Inl ''invalid panel DNS configuration'')"

text \<open>The document, \<open>None\<close> when the panel gives no DNS settings.\<close>

definition compileDNSConfig :: "dns_lib \<Rightarrow> RawDNS \<Rightarrow> string option res" where
  "compileDNSConfig D raw =
     (if length (dns_DNSJson raw) \<noteq> 0 then
        (case dl_Indent D (dns_DNSJson raw) of
           None \<Rightarrow> Inl ''invalid panel DNS JSON'' | Some data \<Rightarrow> check_document D data)
      else if length (dns_DNSMap raw) \<noteq> 0 then
        (case dns_servers D (dns_DNSMap raw) (sort (map fst (dns_DNSMap raw))) default_servers of
           Inl e \<Rightarrow> Inl e
         | Inr servers \<Rightarrow> (case dl_MarshalIndent D servers ''dns_inbound'' of
             None \<Rightarrow> Inl ''invalid panel DNS configuration'' | Some data \<Rightarrow> check_document D data))
      else Inr None)"

section \<open>Replacing the file\<close>

text \<open>
  The files by their resolved name.  \<open>outcome k\<close> is the error of the k-th system call, if any; a failed write
  may have written a part.  \<open>resolve\<close> follows symbolic links.
\<close>

record files =
  fi_content :: "(string, string) gomap"

record write_calls =
  wc_resolve :: "string \<Rightarrow> string"
  wc_temp :: string
  wc_outcome :: "nat \<Rightarrow> err option"
  wc_written :: nat

definition put_file :: "string \<Rightarrow> string \<Rightarrow> files \<Rightarrow> files" where
  "put_file p c f = f\<lparr>fi_content := mput p c (fi_content f)\<rparr>"

definition remove_file :: "string \<Rightarrow> files \<Rightarrow> files" where
  "remove_file p f = f\<lparr>fi_content := mdel p (fi_content f)\<rparr>"

text \<open>The calls on the temporary file: change of mode, write, sync, close, rename.\<close>

definition fill_temp :: "write_calls \<Rightarrow> string \<Rightarrow> string \<Rightarrow> files \<Rightarrow> err option \<times> files" where
  "fill_temp W resolved data f =
     (case wc_outcome W 3 of
        Some e \<Rightarrow> (Some e, f)
      | None \<Rightarrow> (case wc_outcome W 4 of
          Some e \<Rightarrow> (Some e, put_file (wc_temp W) (take (wc_written W) data) f)
        | None \<Rightarrow>
            (let f = put_file (wc_temp W) data f
             in case wc_outcome W 5 of
                  Some e \<Rightarrow> (Some e, f)
                | None \<Rightarrow> (case wc_outcome W 6 of
                    Some e \<Rightarrow> (Some e, f)
                  | None \<Rightarrow> (case wc_outcome W 7 of
                      Some e \<Rightarrow> (Some e, f)
                    | None \<Rightarrow> (None, put_file resolved (mget_or [] (fi_content f) (wc_temp W)) (remove_file (wc_temp W) f)))))))"

definition writeDNSConfig :: "write_calls \<Rightarrow> string \<Rightarrow> string \<Rightarrow> files \<Rightarrow> err option \<times> files" where
  "writeDNSConfig W path data f =
     (let resolved = wc_resolve W path
      in case wc_outcome W 0 of
           Some e \<Rightarrow> (Some e, f)
         | None \<Rightarrow> (case wc_outcome W 1 of
             Some e \<Rightarrow> (Some e, f)
           | None \<Rightarrow> (case wc_outcome W 2 of
               Some e \<Rightarrow> (Some e, f)
             | None \<Rightarrow> (case fill_temp W resolved data (put_file (wc_temp W) [] f) of
                 (r, f) \<Rightarrow> (r, remove_file (wc_temp W) f)))))"

definition ReadFile :: "write_calls \<Rightarrow> string \<Rightarrow> files \<Rightarrow> string res" where
  "ReadFile W path f = (case map_of (fi_content f) (wc_resolve W path) of
     None \<Rightarrow> Inl (''open '' @ path @ '': no such file or directory'') | Some c \<Rightarrow> Inr c)"

definition saveDnsConfig :: "write_calls \<Rightarrow> string \<Rightarrow> string \<Rightarrow> files \<Rightarrow> err option \<times> files" where
  "saveDnsConfig W data path f = (case ReadFile W path f of
     Inl e \<Rightarrow> (Some e, f)
   | Inr current \<Rightarrow> if current = data then (None, f) else writeDNSConfig W path data f)"

text \<open>\<open>path\<close> is the environment variable with the name of the file.\<close>

definition updateDNSConfig :: "dns_lib \<Rightarrow> write_calls \<Rightarrow> string \<Rightarrow> RawDNS \<Rightarrow> files \<Rightarrow> err option \<times> files" where
  "updateDNSConfig D W path raw f = (case compileDNSConfig D raw of
     Inl e \<Rightarrow> (Some e, f)
   | Inr None \<Rightarrow> (None, f)
   | Inr (Some data) \<Rightarrow> saveDnsConfig W data path f)"

section \<open>The file is replaced as a whole\<close>

text \<open>Whichever system call fails, and however much of the data was written by then, the DNS file holds
  either its old content or the new one as a whole - the new one exactly if no error is reported -, no
  other file is touched and the temporary file is gone.\<close>

theorem dns_file_replaced_atomically:
  assumes "writeDNSConfig W path data f = (r, f')" and "map_of (fi_content f) (wc_temp W) = None"
    and "wc_resolve W path \<noteq> wc_temp W"
  shows "map_of (fi_content f') p =
    (if r = None \<and> p = wc_resolve W path then Some data else map_of (fi_content f) p)"
  using assms unfolding writeDNSConfig_def fill_temp_def Let_def put_file_def remove_file_def
  by (cases "p = wc_temp W") (auto split: option.splits prod.splits if_splits)

definition demo_calls :: "nat \<Rightarrow> write_calls" where
  "demo_calls failing = \<lparr>wc_resolve = (\<lambda>p. p), wc_temp = ''tmp'',
     wc_outcome = (\<lambda>k. if k = failing then Some ''no space'' else None), wc_written = 1\<rparr>"

definition demo_files :: files where
  "demo_files = \<lparr>fi_content = [(''dns.json'', ''old'')]\<rparr>"

theorem dns_file_replaced_atomically_witness:
  "map_of (fi_content (snd (writeDNSConfig (demo_calls 4) ''dns.json'' ''new'' demo_files))) ''dns.json'' = Some ''old'' \<and>
   map_of (fi_content (snd (writeDNSConfig (demo_calls 9) ''dns.json'' ''new'' demo_files))) ''dns.json'' = Some ''new''"
proof -
  have 1: "fst (writeDNSConfig (demo_calls 4) ''dns.json'' ''new'' demo_files) = Some ''no space''"
    "fst (writeDNSConfig (demo_calls 9) ''dns.json'' ''new'' demo_files) = None"
    by code_simp+
  have 2: "map_of (fi_content demo_files) (wc_temp (demo_calls k)) = None"
    "wc_resolve (demo_calls k) ''dns.json'' \<noteq> wc_temp (demo_calls k)"
    "wc_resolve (demo_calls k) ''dns.json'' = ''dns.json''" "map_of (fi_content demo_files) ''dns.json'' = Some ''old''" for k
    by (simp_all add: demo_files_def demo_calls_def)
  show ?thesis
    using dns_file_replaced_atomically[OF _ 2(1,2), of 4 "''new''" _ _ "''dns.json''"]
      dns_file_replaced_atomically[OF _ 2(1,2), of 9 "''new''" _ _ "''dns.json''"] 1 2(3,4)
    by (metis option.distinct(1) prod.collapse)
qed

end
