(* ===== verification/Xray_Core.thy ===== *)
theory Xray_Core
  imports Xray_Inbound Xray_Dns Dispatcher Core_Interface
begin

text \<open>
  The Xray core (runtime/core/xray: xray.go, node.go, user.go, dns.go): nodes as pairs of an inbound and an
  outbound handler of an Xray instance, users as accounts in the inbound's user manager, and the tables
  of users and retired traffic around the dispatcher.
\<close>

section \<open>State\<close>

text \<open>
  The instance of the library: \<open>'x\<close> is its state, \<open>'h\<close> and \<open>'o\<close> its inbound and outbound handlers (pointers),
  \<open>'ic\<close> and \<open>'oc\<close> built configurations.  An object that is no handler is \<open>None\<close>.
\<close>

record ('x, 'h, 'o, 'ic, 'oc) xray_lib =
  xl_Start :: "'x \<Rightarrow> err option \<times> 'x"
  xl_Close :: "'x \<Rightarrow> err option \<times> 'x"
  xl_BuildInbound :: "InboundDetourConfig \<Rightarrow> 'ic res"
  xl_BuildOutbound :: "OutboundDetourConfig \<Rightarrow> 'oc res"
  xl_CreateInbound :: "'ic \<Rightarrow> 'x \<Rightarrow> 'h option res \<times> 'x"
  xl_GetInbound :: "string \<Rightarrow> 'x \<Rightarrow> 'h res"
  xl_AddInbound :: "'h \<Rightarrow> 'x \<Rightarrow> err option \<times> 'x"
  xl_RemoveInbound :: "string \<Rightarrow> 'x \<Rightarrow> err option \<times> 'x"
  xl_CloseInbound :: "'h \<Rightarrow> 'x \<Rightarrow> 'x"
  xl_CreateOutbound :: "'oc \<Rightarrow> 'x \<Rightarrow> 'o option res \<times> 'x"
  xl_GetOutbound :: "string \<Rightarrow> 'x \<Rightarrow> 'o option"
  xl_AddOutbound :: "'o \<Rightarrow> 'x \<Rightarrow> err option \<times> 'x"
  xl_RemoveOutbound :: "string \<Rightarrow> 'x \<Rightarrow> err option \<times> 'x"
  xl_CloseOutbound :: "'o \<Rightarrow> 'x \<Rightarrow> 'x"
  xl_HasInbound :: "'h \<Rightarrow> bool"
  xl_HasUserManager :: "'h \<Rightarrow> bool"
  xl_GetUser :: "'h \<Rightarrow> string \<Rightarrow> 'x \<Rightarrow> bool"
  xl_AddUser :: "'h \<Rightarrow> protocolUser \<Rightarrow> 'x \<Rightarrow> err option \<times> 'x"
  xl_RemoveUser :: "'h \<Rightarrow> string \<Rightarrow> 'x \<Rightarrow> err option \<times> 'x"
  xl_ToMemoryUser :: "protocolUser \<Rightarrow> bool"
  xl_inbound :: inbound_lib
  xl_dns :: dns_lib
  xl_calls :: write_calls
  xl_LoadX509KeyPair :: "string \<Rightarrow> string \<Rightarrow> bool"

text \<open>\<open>xy_dnsPath\<close> is the environment variable XRAY_DNS_PATH.\<close>

record 'x Xray =
  xy_Server :: 'x
  xy_dispatcher :: Dispatcher
  xy_uidMap :: "(string, int) gomap"
  xy_nodeReportMinTrafficBytes :: "(string, int) gomap"
  xy_retiredTraffic :: "(string, UserTraffic list) gomap"
  xy_dnsPath :: string
  xy_files :: files

definition on_server :: "('x \<Rightarrow> err option \<times> 'x) \<Rightarrow> 'x Xray \<Rightarrow> err option \<times> 'x Xray" where
  "on_server f s = (case f (xy_Server s) of (r, x) \<Rightarrow> (r, s\<lparr>xy_Server := x\<rparr>))"

definition on_dispatcher :: "(Dispatcher \<Rightarrow> Dispatcher) \<Rightarrow> 'x Xray \<Rightarrow> 'x Xray" where
  "on_dispatcher f s = s\<lparr>xy_dispatcher := f (xy_dispatcher s)\<rparr>"

definition Xray_Start :: "('x, 'h, 'o, 'ic, 'oc) xray_lib \<Rightarrow> 'x Xray \<Rightarrow> err option \<times> 'x Xray" where
  "Xray_Start L s = on_server (xl_Start L) s"

definition Xray_Close :: "('x, 'h, 'o, 'ic, 'oc) xray_lib \<Rightarrow> 'x Xray \<Rightarrow> err option \<times> 'x Xray" where
  "Xray_Close L s = on_server (xl_Close L) s"

definition Xray_Protocols :: "string list" where
  "Xray_Protocols = [''vmess'', ''vless'', ''shadowsocks'', ''trojan'']"

section \<open>Handlers\<close>

definition built_inbound :: "('x, 'h, 'o, 'ic, 'oc) xray_lib \<Rightarrow> Options \<Rightarrow> NodeInfo \<Rightarrow> string \<Rightarrow> 'ic res" where
  "built_inbound L o1 n tag = (case buildInbound (xl_inbound L) o1 n tag of
     Inl e \<Rightarrow> Inl e | Inr c \<Rightarrow> xl_BuildInbound L c)"

definition built_outbound :: "('x, 'h, 'o, 'ic, 'oc) xray_lib \<Rightarrow> Options \<Rightarrow> string \<Rightarrow> 'oc res" where
  "built_outbound L o1 tag = (case buildOutbound o1 tag of Inl e \<Rightarrow> Inl e | Inr c \<Rightarrow> xl_BuildOutbound L c)"

text \<open>\<open>tag\<close> is the tag of the configuration.  A handler that could not be added is removed again when it was
  registered all the same, and closed otherwise.\<close>

definition addInbound :: "('x, 'h, 'o, 'ic, 'oc) xray_lib \<Rightarrow> string \<Rightarrow> 'ic \<Rightarrow> 'x \<Rightarrow> err option \<times> 'x" where
  "addInbound L tag config x = (case xl_CreateInbound L config x of
     (Inl e, x) \<Rightarrow> (Some e, x)
   | (Inr None, x) \<Rightarrow> (Some ''not an InboundHandler: %!s(<nil>)'', x)
   | (Inr (Some handler), x) \<Rightarrow> (case xl_AddInbound L handler x of
       (None, x) \<Rightarrow> (None, x)
     | (Some e, x) \<Rightarrow> (Some e, if xl_GetInbound L tag x = Inr handler then snd (xl_RemoveInbound L tag x)
         else xl_CloseInbound L handler x)))"

definition addOutbound :: "('x, 'h, 'o, 'ic, 'oc) xray_lib \<Rightarrow> string \<Rightarrow> 'oc \<Rightarrow> 'x \<Rightarrow> err option \<times> 'x" where
  "addOutbound L tag config x = (case xl_CreateOutbound L config x of
     (Inl e, x) \<Rightarrow> (Some e, x)
   | (Inr None, x) \<Rightarrow> (Some ''not an InboundHandler: %!s(<nil>)'', x)
   | (Inr (Some handler), x) \<Rightarrow> (case xl_AddOutbound L handler x of
       (None, x) \<Rightarrow> (None, x)
     | (Some e, x) \<Rightarrow> (Some e, if xl_GetOutbound L tag x = Some handler then snd (xl_RemoveOutbound L tag x)
         else xl_CloseOutbound L handler x)))"

section \<open>Users\<close>

definition GetUserManager :: "('x, 'h, 'o, 'ic, 'oc) xray_lib \<Rightarrow> string \<Rightarrow> 'x \<Rightarrow> 'h res" where
  "GetUserManager L tag x = (case xl_GetInbound L tag x of
     Inl e \<Rightarrow> Inl (''no such inbound tag: '' @ e)
   | Inr handler \<Rightarrow>
       if \<not> xl_HasInbound L handler then Inl (''handler '' @ tag @ '' is not implement proxy.GetInbound'')
       else if \<not> xl_HasUserManager L handler then Inl (''handler '' @ tag @ '' is not implement proxy.UserManager'')
       else Inr handler)"

text \<open>The traffic of a user that leaves is kept for the next report.\<close>

definition retainUserTraffic :: "string \<Rightarrow> string \<Rightarrow> int \<Rightarrow> 'x Xray \<Rightarrow> 'x Xray" where
  "retainUserTraffic tag email uid s = (case map_of (dp_Counter (xy_dispatcher s)) tag of
     None \<Rightarrow> s
   | Some t \<Rightarrow>
       (let c = dp_counters (xy_dispatcher s) ! t
        in case map_of (tc_Counters c) email of
             None \<Rightarrow> s
           | Some ts \<Rightarrow>
               (let up = st_Up (tc_heap c ! ts); down = st_Down (tc_heap c ! ts);
                    c' = on_storage ts (\<lambda>st. st\<lparr>st_Up := 0, st_Down := 0\<rparr>) c;
                    s = on_dispatcher (\<lambda>d. d\<lparr>dp_counters := (dp_counters d)[t := c']\<rparr>) s
                in if add64 up down > 0 then
                     s\<lparr>xy_retiredTraffic := mput tag (mget_or [] (xy_retiredTraffic s) tag @
                        [\<lparr>ut_UID = uid, ut_Upload = up, ut_Download = down\<rparr>]) (xy_retiredTraffic s)\<rparr>
                   else s)))"

definition close_links :: "string \<Rightarrow> Dispatcher \<Rightarrow> Dispatcher" where
  "close_links email d = (case map_of (dp_LinkManagers d) email of
     None \<Rightarrow> d
   | Some lm \<Rightarrow> (let d = CloseAll lm d in d\<lparr>dp_LinkManagers := mdel email (dp_LinkManagers d)\<rparr>))"

definition revoke :: "string \<Rightarrow> Dispatcher \<Rightarrow> Dispatcher" where
  "revoke email d = close_links email (d\<lparr>dp_AllowedUsers := mdel email (dp_AllowedUsers d)\<rparr>)"

definition delete_counter :: "string \<Rightarrow> string \<Rightarrow> Dispatcher \<Rightarrow> Dispatcher" where
  "delete_counter tag email d = (case map_of (dp_Counter d) tag of
     None \<Rightarrow> d
   | Some t \<Rightarrow> d\<lparr>dp_counters := (dp_counters d)[t := Delete email (dp_counters d ! t)]\<rparr>)"

definition forget_user :: "string \<Rightarrow> string \<Rightarrow> 'x Xray \<Rightarrow> 'x Xray" where
  "forget_user tag email s =
     (let s = on_dispatcher (revoke email) s;
          s = retainUserTraffic tag email (mget_or 0 (xy_uidMap s) email) s;
          s = s\<lparr>xy_uidMap := mdel email (xy_uidMap s)\<rparr>
      in on_dispatcher (delete_counter tag email) s)"

fun del_users_loop ::
  "('x, 'h, 'o, 'ic, 'oc) xray_lib \<Rightarrow> 'h \<Rightarrow> string \<Rightarrow> UserInfo list \<Rightarrow> 'x Xray \<Rightarrow> err option \<times> 'x Xray" where
  "del_users_loop L um tag [] s = (None, s)"
| "del_users_loop L um tag (u # us) s =
     (let user = UserTag tag (ui_Uuid u)
      in case (if xl_GetUser L um user (xy_Server s) then on_server (xl_RemoveUser L um user) s else (None, s)) of
           (Some e, s) \<Rightarrow> (Some e, s)
         | (None, s) \<Rightarrow> del_users_loop L um tag us (forget_user tag user s))"

definition Xray_DelUsers ::
  "('x, 'h, 'o, 'ic, 'oc) xray_lib \<Rightarrow> UserInfo list \<Rightarrow> string \<Rightarrow> NodeInfo \<Rightarrow> 'x Xray \<Rightarrow> err option \<times> 'x Xray" where
  "Xray_DelUsers L us tag n s = (case GetUserManager L tag (xy_Server s) of
     Inl e \<Rightarrow> (Some (''get user manager error: '' @ e), s)
   | Inr um \<Rightarrow> del_users_loop L um tag us s)"

text \<open>One counter in a report: what is added to the slice, and the counters afterwards.\<close>

definition report_counter ::
  "bool \<Rightarrow> int \<Rightarrow> (string, int) gomap \<Rightarrow> string \<times> nat \<Rightarrow> UserTraffic list \<times> TrafficCounter \<Rightarrow> UserTraffic list \<times> TrafficCounter" where
  "report_counter reset least uidMap kv sc =
     (let (slice, c) = sc; (email, ts) = kv;
          up = st_Up (tc_heap c ! ts); down = st_Down (tc_heap c ! ts)
      in if add64 up down > least then
           (let c = (if reset then on_storage ts (\<lambda>st. st\<lparr>st_Up := 0, st_Down := 0\<rparr>) c else c);
                uid = mget_or 0 uidMap email
            in if uid = 0 then (slice, Delete email c)
               else (slice @ [\<lparr>ut_UID = uid, ut_Upload = up, ut_Download = down\<rparr>], c))
         else (slice, c))"

definition Xray_GetUserTrafficSlice :: "string \<Rightarrow> bool \<Rightarrow> 'x Xray \<Rightarrow> UserTraffic list res \<times> 'x Xray" where
  "Xray_GetUserTrafficSlice tag reset s =
     (let slice = mget_or [] (xy_retiredTraffic s) tag;
          s = (if reset then s\<lparr>xy_retiredTraffic := mdel tag (xy_retiredTraffic s)\<rparr> else s)
      in case map_of (dp_Counter (xy_dispatcher s)) tag of
           None \<Rightarrow> (Inr slice, s)
         | Some t \<Rightarrow>
             (let c = dp_counters (xy_dispatcher s) ! t;
                  least = mget_or 0 (xy_nodeReportMinTrafficBytes s) tag;
                  (slice, c) = fold (report_counter reset least (xy_uidMap s)) (tc_Counters c) (slice, c)
              in (Inr slice, on_dispatcher (\<lambda>d. d\<lparr>dp_counters := (dp_counters d)[t := c]\<rparr>) s)))"

text \<open>The accounts for a node's protocol; a missing section or a short key is a panic, an error here.\<close>

definition build_users :: "string \<Rightarrow> UserInfo list \<Rightarrow> NodeInfo \<Rightarrow> protocolUser list res" where
  "build_users tag us n =
     (if ni_Type n = ''vmess'' then Inr (buildVmessUsers tag us)
      else if ni_Type n = ''vless'' then
        (case ni_VAllss n of None \<Rightarrow> Inl nil_pointer | Some v \<Rightarrow> Inr (buildVlessUsers tag us (va_Flow v)))
      else if ni_Type n = ''trojan'' then Inr (buildTrojanUsers tag us)
      else if ni_Type n = ''shadowsocks'' then
        (case ni_Shadowsocks n of
           None \<Rightarrow> Inl nil_pointer
         | Some v \<Rightarrow> (case buildSSUsers tag us (ss_Cipher v) (ss_ServerKey v) of
             None \<Rightarrow> Inl ''slice bounds out of range'' | Some pus \<Rightarrow> Inr pus))
      else Inl (''unsupported node type: '' @ ni_Type n))"

text \<open>A failure removes the users installed so far.\<close>

fun install_users ::
  "('x, 'h, 'o, 'ic, 'oc) xray_lib \<Rightarrow> 'h \<Rightarrow> protocolUser list \<Rightarrow> string list \<Rightarrow> 'x \<Rightarrow> bool \<times> 'x" where
  "install_users L man [] installed x = (True, x)"
| "install_users L man (u # us) installed x = (case xl_AddUser L man u x of
     (Some e, x) \<Rightarrow> (False, fold (\<lambda>email x. snd (xl_RemoveUser L man email x)) installed x)
   | (None, x) \<Rightarrow> install_users L man us (installed @ [pu_Email u]) x)"

definition register_user :: "string \<Rightarrow> UserInfo \<Rightarrow> 'x Xray \<Rightarrow> 'x Xray" where
  "register_user tag u s =
     (let email = UserTag tag (ui_Uuid u)
      in on_dispatcher (\<lambda>d. d\<lparr>dp_LinkManagers := mdel email (dp_LinkManagers d),
             dp_AllowedUsers := mput email True (dp_AllowedUsers d)\<rparr>)
           (s\<lparr>xy_uidMap := mput email (ui_Id u) (xy_uidMap s)\<rparr>))"

definition Xray_AddUsers ::
  "('x, 'h, 'o, 'ic, 'oc) xray_lib \<Rightarrow> string \<Rightarrow> UserInfo list \<Rightarrow> NodeInfo \<Rightarrow> 'x Xray \<Rightarrow> int res \<times> 'x Xray" where
  "Xray_AddUsers L tag us n s = (case build_users tag us n of
     Inl e \<Rightarrow> (Inl e, s)
   | Inr users \<Rightarrow> (case GetUserManager L tag (xy_Server s) of
       Inl e \<Rightarrow> (Inl (''get user manager error: '' @ e), s)
     | Inr man \<Rightarrow>
         if \<not> list_all (xl_ToMemoryUser L) users then (Inl ''invalid user configuration'', s)
         else (case install_users L man users [] (xy_Server s) of
             (False, x) \<Rightarrow> (Inl ''could not install users'', s\<lparr>xy_Server := x\<rparr>)
           | (True, x) \<Rightarrow> (Inr (int (length users)), fold (register_user tag) us (s\<lparr>xy_Server := x\<rparr>)))))"

text \<open>The users of a tag that is gone, recognised by the prefix of their emails.\<close>

definition retire_user :: "string \<Rightarrow> string \<times> int \<Rightarrow> 'x Xray \<Rightarrow> 'x Xray" where
  "retire_user tag eu s =
     (if HasPrefix (fst eu) (tag @ ''|'') then
        (let s = retainUserTraffic tag (fst eu) (snd eu) (on_dispatcher (revoke (fst eu)) s)
         in s\<lparr>xy_uidMap := mdel (fst eu) (xy_uidMap s)\<rparr>)
      else s)"

definition retireNodeUsers :: "string \<Rightarrow> 'x Xray \<Rightarrow> 'x Xray" where
  "retireNodeUsers tag s =
     (let s = fold (retire_user tag) (xy_uidMap s) s;
          s = on_dispatcher (\<lambda>d. d\<lparr>dp_Counter := mdel tag (dp_Counter d)\<rparr>) s
      in s\<lparr>xy_nodeReportMinTrafficBytes := mdel tag (xy_nodeReportMinTrafficBytes s)\<rparr>)"

section \<open>Nodes\<close>

definition vless_problem :: "NodeInfo \<Rightarrow> err option" where
  "vless_problem n = (case ni_VAllss n of
     None \<Rightarrow> Some ''invalid VLESS security configuration''
   | Some v \<Rightarrow>
       if ni_Security n < None_sec \<or> ni_Security n > Reality then Some ''invalid VLESS security configuration''
       else if (case ni_Common n of None \<Rightarrow> True | Some cn \<Rightarrow> cn_ServerPort cn < 1 \<or> cn_ServerPort cn > 65535)
         then Some ''invalid VLESS listen port''
       else if va_Flow v \<noteq> [] \<and> va_Flow v \<noteq> ''none'' \<and> va_Flow v \<noteq> ''xtls-rprx-vision'' then Some ''invalid VLESS flow''
       else if va_Flow v = ''xtls-rprx-vision'' \<and> (va_Network v \<noteq> ''tcp'' \<or> ni_Security n = None_sec)
         then Some ''Vision requires TCP with TLS or REALITY''
       else None)"

definition no_certificate :: "Options \<Rightarrow> bool" where
  "no_certificate o1 = (case op_CertConfig o1 of
     None \<Rightarrow> True | Some cc \<Rightarrow> cc_CertMode cc = [] \<or> cc_CertMode cc = ''none'')"

definition certificate_loads :: "('x, 'h, 'o, 'ic, 'oc) xray_lib \<Rightarrow> Options \<Rightarrow> bool" where
  "certificate_loads L o1 = (case op_CertConfig o1 of
     None \<Rightarrow> True | Some cc \<Rightarrow> xl_LoadX509KeyPair L (cc_CertFile cc) (cc_KeyFile cc))"

definition Xray_ValidateNode ::
  "('x, 'h, 'o, 'ic, 'oc) xray_lib \<Rightarrow> string \<Rightarrow> NodeInfo \<Rightarrow> Options \<Rightarrow> 'x Xray \<Rightarrow> err option" where
  "Xray_ValidateNode L tag n o1 s =
     (case (if ni_Type n = ''vless'' then vless_problem n else None) of
        Some e \<Rightarrow> Some e
      | None \<Rightarrow>
          if op_XrayOptions o1 = None then Some ''missing Xray options''
          else if ni_Security n = Tls \<and> no_certificate o1 then Some ''TLS node requires configured certificate files''
          else (case compileDNSConfig (xl_dns L) (ni_RawDNS n) of
            Inl e \<Rightarrow> Some e
          | Inr _ \<Rightarrow> (case built_inbound L o1 n tag of
              Inl e \<Rightarrow> Some ''invalid Xray inbound configuration''
            | Inr _ \<Rightarrow> (case built_outbound L o1 tag of
                Inl e \<Rightarrow> Some ''invalid Xray outbound configuration''
              | Inr _ \<Rightarrow>
                  if ni_Security n = Tls \<and> \<not> no_certificate o1 \<and> \<not> certificate_loads L o1
                  then Some ''invalid TLS certificate files'' else None))))"

definition update_dns :: "('x, 'h, 'o, 'ic, 'oc) xray_lib \<Rightarrow> NodeInfo \<Rightarrow> 'x Xray \<Rightarrow> err option \<times> 'x Xray" where
  "update_dns L n s = (case updateDNSConfig (xl_dns L) (xl_calls L) (xy_dnsPath s) (ni_RawDNS n) (xy_files s) of
     (r, f) \<Rightarrow> (r, s\<lparr>xy_files := f\<rparr>))"

text \<open>The outbound of a node whose inbound is there; a failure removes the inbound.\<close>

definition add_node_outbound ::
  "('x, 'h, 'o, 'ic, 'oc) xray_lib \<Rightarrow> string \<Rightarrow> Options \<Rightarrow> 'x Xray \<Rightarrow> err option \<times> 'x Xray" where
  "add_node_outbound L tag o1 s = (case built_outbound L o1 tag of
     Inl e \<Rightarrow> (Some (''build outbound error: '' @ e), snd (on_server (xl_RemoveInbound L tag) s))
   | Inr oc \<Rightarrow> (case on_server (addOutbound L tag oc) s of
       (Some e, s) \<Rightarrow> (Some (''add outbound error: '' @ e), snd (on_server (xl_RemoveInbound L tag) s))
     | (None, s) \<Rightarrow> (None, s\<lparr>xy_nodeReportMinTrafficBytes :=
         mput tag (mul64 (op_ReportMinTraffic o1) 1024) (xy_nodeReportMinTrafficBytes s)\<rparr>)))"

definition Xray_AddNode ::
  "('x, 'h, 'o, 'ic, 'oc) xray_lib \<Rightarrow> string \<Rightarrow> NodeInfo \<Rightarrow> Options \<Rightarrow> 'x Xray \<Rightarrow> err option \<times> Options \<times> 'x Xray" where
  "Xray_AddNode L tag n o1 s = (case update_dns L n s of
     (Some e, s) \<Rightarrow> (Some (''build dns error: '' @ e), o1, s)
   | (None, s) \<Rightarrow> (case built_inbound L o1 n tag of
       Inl e \<Rightarrow> (Some (''build inbound error: '' @ e), o1, s)
     | Inr ic \<Rightarrow> (case on_server (addInbound L tag ic) s of
         (Some e, s) \<Rightarrow> (Some (''add inbound error: '' @ e), o1, s)
       | (None, s) \<Rightarrow> (case add_node_outbound L tag o1 s of (r, s) \<Rightarrow> (r, o1, s)))))"

definition Xray_DelNode :: "('x, 'h, 'o, 'ic, 'oc) xray_lib \<Rightarrow> string \<Rightarrow> 'x Xray \<Rightarrow> err option \<times> 'x Xray" where
  "Xray_DelNode L tag s =
     (let (r1, s) = (if is_ok (xl_GetInbound L tag (xy_Server s)) then on_server (xl_RemoveInbound L tag) s else (None, s));
          (r2, s) = (if xl_GetOutbound L tag (xy_Server s) \<noteq> None then on_server (xl_RemoveOutbound L tag) s else (None, s));
          r = errors_Join [r1, r2]
      in (r, if r = None then retireNodeUsers tag s else s))"

definition Xray_SnapshotNodeState ::
  "('x, 'h, 'o, 'ic, 'oc) xray_lib \<Rightarrow> string \<Rightarrow> NodeInfo \<Rightarrow> Options \<Rightarrow> 'x Xray \<Rightarrow> ('x Xray \<Rightarrow> err option \<times> 'x Xray) res" where
  "Xray_SnapshotNodeState L tag n o1 s0 =
     (if xy_dnsPath s0 = [] then Inr (\<lambda>s. (None, s))
      else (case ReadFile (xl_calls L) (xy_dnsPath s0) (xy_files s0) of
        Inl e \<Rightarrow> Inl e
      | Inr data \<Rightarrow> Inr (\<lambda>s. case writeDNSConfig (xl_calls L) (xy_dnsPath s0) data (xy_files s) of
          (r, f) \<Rightarrow> (r, s\<lparr>xy_files := f\<rparr>))))"

definition xray_core :: "('x, 'h, 'o, 'ic, 'oc) xray_lib \<Rightarrow> 'x Xray Core" where
  "xray_core L = \<lparr>c_Start = Xray_Start L, c_Close = Xray_Close L, c_AddNode = Xray_AddNode L,
     c_DelNode = Xray_DelNode L, c_AddUsers = Xray_AddUsers L,
     c_GetUserTrafficSlice = Xray_GetUserTrafficSlice, c_DelUsers = Xray_DelUsers L,
     c_Protocols = (\<lambda>s. Xray_Protocols), c_Type = (\<lambda>s. ''xray''),
     c_ValidateNode = Some (Xray_ValidateNode L), c_SnapshotNodeState = Some (Xray_SnapshotNodeState L)\<rparr>"

end
