(* ===== verification/Xray_Contract.thy ===== *)
theory Xray_Contract
  imports Xray_Core Link_Revocation
begin

text \<open>
  The Xray core keeps the contract the node controller relies on, whenever the Xray library does what it
  documents: handlers are registered under their tags, and a user manager holds the users added to it.
\<close>

section \<open>What the library documents\<close>

text \<open>
  \<open>ih\<close> and \<open>oh\<close> are the registered handlers, \<open>icfg\<close> and \<open>ocfg\<close> the configuration a handler was created from,
  \<open>members\<close> the emails of a handler's user manager; \<open>kept_but T x x'\<close> says that nothing changed but under
  the tags of \<open>T\<close>.
\<close>

definition kept_but ::
  "('x \<Rightarrow> string \<Rightarrow> 'h option) \<Rightarrow> ('x \<Rightarrow> string \<Rightarrow> 'o option) \<Rightarrow> ('x \<Rightarrow> 'h \<Rightarrow> string set) \<Rightarrow> string set \<Rightarrow> 'x \<Rightarrow> 'x \<Rightarrow> bool" where
  "kept_but ih oh members T x x' \<longleftrightarrow> (\<forall>t. t \<notin> T \<longrightarrow> ih x' t = ih x t \<and> oh x' t = oh x t \<and>
     (\<forall>h. ih x t = Some h \<longrightarrow> members x' h = members x h))"

locale xray_library =
  fixes L :: "('x, 'h, 'o, 'ic, 'oc) xray_lib"
    and ih :: "'x \<Rightarrow> string \<Rightarrow> 'h option"
    and oh :: "'x \<Rightarrow> string \<Rightarrow> 'o option"
    and icfg :: "'h \<Rightarrow> 'ic"
    and ocfg :: "'o \<Rightarrow> 'oc"
    and members :: "'x \<Rightarrow> 'h \<Rightarrow> string set"
    and fine :: "'x \<Rightarrow> bool"
    and itag :: "'ic \<Rightarrow> string"
    and otag :: "'oc \<Rightarrow> string"
  assumes build_in: "xl_BuildInbound L c = Inr ic \<Longrightarrow> itag ic = id_Tag c"
    and build_out: "xl_BuildOutbound L oc0 = Inr oc \<Longrightarrow> otag oc = od_Tag oc0"
    and tags: "fine x \<Longrightarrow> ih x t = Some h \<Longrightarrow> itag (icfg h) = t"
    and get_in: "fine x \<Longrightarrow> xl_GetInbound L t x = Inr h \<longleftrightarrow> ih x t = Some h"
    and get_out: "fine x \<Longrightarrow> xl_GetOutbound L t x = oh x t"
    and create_in: "fine x \<Longrightarrow> xl_CreateInbound L ic x = (r1, x') \<Longrightarrow> fine x' \<and> kept_but ih oh members {} x x' \<and>
        (\<forall>h. r1 = Inr (Some h) \<longrightarrow> icfg h = ic \<and> members x' h = {} \<and> (\<forall>t. ih x' t \<noteq> Some h))"
    and create_out: "fine x \<Longrightarrow> xl_CreateOutbound L oc x = (r2, x') \<Longrightarrow> fine x' \<and> kept_but ih oh members {} x x' \<and>
        (\<forall>h. r2 = Inr (Some h) \<longrightarrow> ocfg h = oc)"
    and add_in: "fine x \<Longrightarrow> \<forall>t. ih x t \<noteq> Some h \<Longrightarrow> xl_AddInbound L h x = (e, x') \<Longrightarrow>
        fine x' \<and> kept_but ih oh members {itag (icfg h)} x x' \<and> oh x' = oh x \<and>
        (e = None \<longrightarrow> ih x' (itag (icfg h)) = Some h \<and> members x' h = members x h)"
    and add_out: "fine x \<Longrightarrow> xl_AddOutbound L k x = (e, x') \<Longrightarrow>
        fine x' \<and> kept_but ih oh members {otag (ocfg k)} x x' \<and> ih x' = ih x \<and> members x' = members x \<and>
        (e = None \<longrightarrow> oh x' (otag (ocfg k)) = Some k)"
    and remove_in: "fine x \<Longrightarrow> xl_RemoveInbound L t x = (e, x') \<Longrightarrow>
        fine x' \<and> kept_but ih oh members {t} x x' \<and> oh x' = oh x \<and> (e = None \<longrightarrow> ih x' t = None)"
    and remove_out: "fine x \<Longrightarrow> xl_RemoveOutbound L t x = (e, x') \<Longrightarrow>
        fine x' \<and> kept_but ih oh members {t} x x' \<and> ih x' = ih x \<and> members x' = members x \<and> (e = None \<longrightarrow> oh x' t = None)"
    and close_in: "fine x \<Longrightarrow> (\<forall>t. ih x t \<noteq> Some h) \<Longrightarrow> fine (xl_CloseInbound L h x) \<and> kept_but ih oh members {} x (xl_CloseInbound L h x)"
    and close_out: "fine x \<Longrightarrow> fine (xl_CloseOutbound L k x) \<and> kept_but ih oh members {} x (xl_CloseOutbound L k x)"
    and get_user: "fine x \<Longrightarrow> ih x t = Some h \<Longrightarrow> xl_GetUser L h email x \<longleftrightarrow> email \<in> members x h"
    and add_user: "fine x \<Longrightarrow> ih x t = Some h \<Longrightarrow> xl_AddUser L h u x = (e, x') \<Longrightarrow>
        fine x' \<and> kept_but ih oh members {t} x x' \<and> ih x' = ih x \<and> oh x' = oh x \<and>
        (e = None \<longrightarrow> members x' h = insert (pu_Email u) (members x h))"
    and remove_user: "fine x \<Longrightarrow> ih x t = Some h \<Longrightarrow> xl_RemoveUser L h email x = (e, x') \<Longrightarrow>
        fine x' \<and> kept_but ih oh members {t} x x' \<and> ih x' = ih x \<and> oh x' = oh x \<and>
        (e = None \<longrightarrow> members x' h = members x h - {email})"
begin

lemma kept_refl: "kept_but ih oh members T x x"
  by (simp add: kept_but_def)

lemma kept_trans: "kept_but ih oh members T x y \<Longrightarrow> kept_but ih oh members T y z \<Longrightarrow> kept_but ih oh members T x z"
  by (simp add: kept_but_def)

lemma kept_mono: "kept_but ih oh members T x y \<Longrightarrow> T \<subseteq> U \<Longrightarrow> kept_but ih oh members U x y"
  by (auto simp: kept_but_def)

lemma kept_any: "kept_but ih oh members {} x y \<Longrightarrow> kept_but ih oh members T x y"
  using kept_mono by blast

lemma built_tags:
  "built_inbound L o1 n tag = Inr ic \<Longrightarrow> itag ic = tag"
  "built_outbound L o1 tag = Inr oc \<Longrightarrow> otag oc = tag"
  by (auto simp: built_inbound_def built_outbound_def buildInbound_def buildOutbound_def Let_def
      dest!: build_in build_out split: sum.splits option.splits if_splits)

text \<open>Adding a handler under its tag: on success it is registered, the other tags are kept in any case.\<close>

lemma addInbound_spec:
  assumes "fine x" and "itag ic = tag" and "addInbound L tag ic x = (e, x')"
  shows "fine x' \<and> kept_but ih oh members {tag} x x' \<and> oh x' = oh x \<and>
    (e = None \<longrightarrow> (\<exists>h. ih x' tag = Some h \<and> icfg h = ic \<and> members x' h = {}))"
proof -
  obtain r x1 where c: "xl_CreateInbound L ic x = (r, x1)" by fastforce
  note C = create_in[OF assms(1) c]
  from C have oh1: "oh x1 = oh x" by (auto simp: kept_but_def)
  show ?thesis
  proof (cases "\<exists>h. r = Inr (Some h)")
    case True
    then obtain h where r: "r = Inr (Some h)" by blast
    with C have h: "icfg h = ic" "members x1 h = {}" "\<forall>t. ih x1 t \<noteq> Some h" "fine x1" by auto
    obtain e2 x2 where a: "xl_AddInbound L h x1 = (e2, x2)" by fastforce
    note A = add_in[OF h(4,3) a]
    have k2: "kept_but ih oh members {tag} x x2"
      using C A assms(2) h(1) kept_any kept_trans by metis
    show ?thesis
    proof (cases e2)
      case None
      with assms(3) c r a A k2 h assms(2) oh1 show ?thesis by (auto simp: addInbound_def)
    next
      case (Some err)
      show ?thesis
      proof (cases "xl_GetInbound L tag x2 = Inr h")
        case True
        obtain e3 x3 where d: "xl_RemoveInbound L tag x2 = (e3, x3)" by fastforce
        from A have f2: "fine x2" by blast
        note D = remove_in[OF f2 d]
        from D k2 have "kept_but ih oh members {tag} x x3" using kept_trans by blast
        with assms(3) c r a Some True d D A oh1 show ?thesis by (auto simp: addInbound_def)
      next
        case False
        have nh: "\<forall>t. ih x2 t \<noteq> Some h"
          using False A get_in[of x2] tags[of x2] h(1) assms(2) by metis
        from A have f2: "fine x2" by blast
        note D = close_in[OF f2 nh]
        from D k2 have "kept_but ih oh members {tag} x (xl_CloseInbound L h x2)" using kept_trans kept_any by blast
        moreover from D have "oh (xl_CloseInbound L h x2) = oh x2" by (auto simp: kept_but_def)
        ultimately show ?thesis using assms(3) c r a Some False D A oh1 by (auto simp: addInbound_def)
      qed
    qed
  next
    case False
    with assms(3) c have "x' = x1" "e \<noteq> None" by (auto simp: addInbound_def split: sum.splits option.splits)
    with C oh1 kept_any show ?thesis by auto
  qed
qed

lemma addOutbound_spec:
  assumes "fine x" and "otag oc = tag" and "addOutbound L tag oc x = (e, x')"
  shows "fine x' \<and> kept_but ih oh members {tag} x x' \<and> ih x' = ih x \<and>
    (\<forall>h. ih x tag = Some h \<longrightarrow> members x' h = members x h) \<and>
    (e = None \<longrightarrow> (\<exists>k. oh x' tag = Some k \<and> ocfg k = oc))"
proof -
  obtain r x1 where c: "xl_CreateOutbound L oc x = (r, x1)" by fastforce
  note C = create_out[OF assms(1) c]
  from C have i1: "ih x1 = ih x" "\<forall>h. ih x tag = Some h \<longrightarrow> members x1 h = members x h" by (auto simp: kept_but_def)
  show ?thesis
  proof (cases "\<exists>k. r = Inr (Some k)")
    case True
    then obtain k where r: "r = Inr (Some k)" by blast
    with C have k: "ocfg k = oc" "fine x1" by auto
    obtain e2 x2 where a: "xl_AddOutbound L k x1 = (e2, x2)" by fastforce
    note A = add_out[OF k(2) a]
    have k2: "kept_but ih oh members {tag} x x2"
      using C A assms(2) k(1) kept_any kept_trans by metis
    show ?thesis
    proof (cases e2)
      case None
      with assms(3) c r a A k2 k assms(2) i1 show ?thesis by (auto simp: addOutbound_def)
    next
      case (Some err)
      from A have f2: "fine x2" by blast
      obtain e3 x3 where d: "xl_RemoveOutbound L tag x2 = (e3, x3)" by fastforce
      note D = remove_out[OF f2 d] and E = close_out[OF f2, of k]
      have "kept_but ih oh members {tag} x x3" "kept_but ih oh members {tag} x (xl_CloseOutbound L k x2)"
        using D E k2 kept_trans kept_any by blast+
      moreover from E have "ih (xl_CloseOutbound L k x2) = ih x2"
        "\<forall>h. ih x2 tag = Some h \<longrightarrow> members (xl_CloseOutbound L k x2) h = members x2 h" by (auto simp: kept_but_def)
      ultimately show ?thesis using assms(3) c r a Some D E A i1 d
        by (cases "xl_GetOutbound L tag x2 = Some k") (auto simp: addOutbound_def)
    qed
  next
    case False
    with assms(3) c have "x' = x1" "e \<noteq> None" by (auto simp: addOutbound_def split: sum.splits option.splits)
    with C i1 kept_any show ?thesis by auto
  qed
qed

end

section \<open>What the operations do to users and server\<close>

definition xr_listens ::
  "('x \<Rightarrow> string \<Rightarrow> 'h option) \<Rightarrow> ('x \<Rightarrow> string \<Rightarrow> 'o option) \<Rightarrow> ('h \<Rightarrow> 'ic) \<Rightarrow> ('o \<Rightarrow> 'oc) \<Rightarrow> 'x Xray \<Rightarrow> string \<Rightarrow> ('ic \<times> 'oc) option" where
  "xr_listens ih oh icfg ocfg s tag = (case (ih (xy_Server s) tag, oh (xy_Server s) tag) of
     (Some h, Some k) \<Rightarrow> Some (icfg h, ocfg k) | _ \<Rightarrow> None)"

text \<open>A user is admitted under a tag when it has an account in the tag's inbound and is not revoked.\<close>

definition xr_users ::
  "('x \<Rightarrow> string \<Rightarrow> 'h option) \<Rightarrow> ('x \<Rightarrow> 'h \<Rightarrow> string set) \<Rightarrow> 'x Xray \<Rightarrow> string \<Rightarrow> string set" where
  "xr_users ih members s tag = {u. mhas (dp_AllowedUsers (xy_dispatcher s)) (UserTag tag u) \<and>
     (\<exists>h. ih (xy_Server s) tag = Some h \<and> UserTag tag u \<in> members (xy_Server s) h)}"

definition xr_cfg :: "('x, 'h, 'o, 'ic, 'oc) xray_lib \<Rightarrow> string \<Rightarrow> NodeInfo \<Rightarrow> Options \<Rightarrow> 'ic \<times> 'oc" where
  "xr_cfg L tag n o1 = (projr (built_inbound L o1 n tag), projr (built_outbound L o1 tag))"

lemma close_links_allowed [simp]: "dp_AllowedUsers (close_links e d) = dp_AllowedUsers d"
  by (simp add: close_links_def Let_def split: option.split)

lemma revoke_allowed [simp]: "dp_AllowedUsers (revoke e d) = mdel e (dp_AllowedUsers d)"
  by (simp add: revoke_def)

lemma delete_counter_allowed [simp]: "dp_AllowedUsers (delete_counter tag e d) = dp_AllowedUsers d"
  by (simp add: delete_counter_def split: option.split)

lemma on_dispatcher_simps [simp]:
  "xy_Server (on_dispatcher f s) = xy_Server s" "xy_dispatcher (on_dispatcher f s) = f (xy_dispatcher s)"
  "xy_uidMap (on_dispatcher f s) = xy_uidMap s" "xy_retiredTraffic (on_dispatcher f s) = xy_retiredTraffic s"
  "xy_nodeReportMinTrafficBytes (on_dispatcher f s) = xy_nodeReportMinTrafficBytes s"
  by (simp_all add: on_dispatcher_def)

lemma retain_simps [simp]:
  "xy_Server (retainUserTraffic tag e uid s) = xy_Server s" "xy_uidMap (retainUserTraffic tag e uid s) = xy_uidMap s"
  "dp_AllowedUsers (xy_dispatcher (retainUserTraffic tag e uid s)) = dp_AllowedUsers (xy_dispatcher s)"
  "dp_Counter (xy_dispatcher (retainUserTraffic tag e uid s)) = dp_Counter (xy_dispatcher s)"
  by (simp_all add: retainUserTraffic_def Let_def split: option.split)

lemma forget_user_simps [simp]:
  "xy_Server (forget_user tag e s) = xy_Server s" "xy_uidMap (forget_user tag e s) = mdel e (xy_uidMap s)"
  "dp_AllowedUsers (xy_dispatcher (forget_user tag e s)) = mdel e (dp_AllowedUsers (xy_dispatcher s))"
  by (simp_all add: forget_user_def Let_def)

lemma register_users:
  "xy_Server (fold (register_user tag) us s) = xy_Server s \<and>
   (mhas (dp_AllowedUsers (xy_dispatcher (fold (register_user tag) us s))) e \<longleftrightarrow>
      mhas (dp_AllowedUsers (xy_dispatcher s)) e \<or> e \<in> UserTag tag ` uuids us)"
  by (induction us arbitrary: s) (auto simp: register_user_def Let_def)

lemma retire_user_simps:
  "xy_Server (retire_user tag eu s) = xy_Server s"
  "\<not> HasPrefix e (tag @ ''|'') \<Longrightarrow> mhas (dp_AllowedUsers (xy_dispatcher (retire_user tag eu s))) e =
     mhas (dp_AllowedUsers (xy_dispatcher s)) e"
  by (auto simp: retire_user_def Let_def)

lemma retireNodeUsers_simps:
  "xy_Server (retireNodeUsers tag s) = xy_Server s"
  "\<not> HasPrefix e (tag @ ''|'') \<Longrightarrow> mhas (dp_AllowedUsers (xy_dispatcher (retireNodeUsers tag s))) e =
     mhas (dp_AllowedUsers (xy_dispatcher s)) e"
proof -
  have "xy_Server (fold (retire_user tag) m s) = xy_Server s \<and>
    (\<not> HasPrefix e (tag @ ''|'') \<longrightarrow> mhas (dp_AllowedUsers (xy_dispatcher (fold (retire_user tag) m s))) e =
      mhas (dp_AllowedUsers (xy_dispatcher s)) e)" for m
    by (induction m arbitrary: s) (simp_all add: retire_user_simps)
  then show "xy_Server (retireNodeUsers tag s) = xy_Server s"
    "\<not> HasPrefix e (tag @ ''|'') \<Longrightarrow> mhas (dp_AllowedUsers (xy_dispatcher (retireNodeUsers tag s))) e =
      mhas (dp_AllowedUsers (xy_dispatcher s)) e"
    by (simp_all add: retireNodeUsers_def Let_def)
qed

lemma traffic_simps:
  assumes "Xray_GetUserTrafficSlice tag reset s = (r, s')"
  shows "xy_Server s' = xy_Server s \<and> dp_AllowedUsers (xy_dispatcher s') = dp_AllowedUsers (xy_dispatcher s)"
  using assms by (auto simp: Xray_GetUserTrafficSlice_def Let_def split: option.splits prod.splits)

lemma update_dns_simps:
  assumes "update_dns L n s = (r, s')"
  shows "xy_Server s' = xy_Server s \<and> xy_dispatcher s' = xy_dispatcher s"
  using assms by (auto simp: update_dns_def split: prod.splits)

text \<open>The emails of the accounts are the tagged uuids of the users.\<close>

lemma build_users_emails:
  "build_users tag us n = Inr pus \<Longrightarrow> map pu_Email pus = map (\<lambda>u. UserTag tag (ui_Uuid u)) us"
  by (auto simp: build_users_def buildVmessUsers_def buildVlessUsers_def buildTrojanUsers_def buildVmessUser_def
      buildVlessUser_def buildTrojanUser_def buildSSUsers_def buildSSUser_def Let_def image_iff
      split: if_splits option.splits)

context xray_library begin

lemma rollback:
  assumes "fine x" and "ih x t = Some h"
  shows "fine (fold (\<lambda>email x. snd (xl_RemoveUser L h email x)) es x) \<and>
    kept_but ih oh members {t} x (fold (\<lambda>email x. snd (xl_RemoveUser L h email x)) es x) \<and>
    ih (fold (\<lambda>email x. snd (xl_RemoveUser L h email x)) es x) = ih x \<and>
    oh (fold (\<lambda>email x. snd (xl_RemoveUser L h email x)) es x) = oh x"
  using assms
proof (induction es arbitrary: x)
  case (Cons e es)
  obtain r x1 where d: "xl_RemoveUser L h e x = (r, x1)" by fastforce
  note D = remove_user[OF Cons.prems d]
  from D Cons.prems have "fine x1" "ih x1 t = Some h" by auto
  from Cons.IH[OF this] D d show ?case using kept_trans by auto
qed (simp add: kept_refl)

lemma installs:
  assumes "fine x" and "ih x t = Some h" and "install_users L h pus installed x = (ok, x')"
  shows "fine x' \<and> kept_but ih oh members {t} x x' \<and> ih x' = ih x \<and> oh x' = oh x \<and>
    (ok \<longrightarrow> members x' h = members x h \<union> pu_Email ` set pus)"
  using assms
proof (induction pus arbitrary: installed x)
  case (Cons u us)
  obtain e x1 where a: "xl_AddUser L h u x = (e, x1)" by fastforce
  note A = add_user[OF Cons.prems(1,2) a]
  from A Cons.prems have x1: "fine x1" "ih x1 t = Some h" by auto
  show ?case
  proof (cases e)
    case None
    with Cons.prems a have "install_users L h us (installed @ [pu_Email u]) x1 = (ok, x')" by simp
    from Cons.IH[OF x1 this] A None show ?thesis using kept_trans by auto
  next
    case (Some err)
    with Cons.prems(3) a have "x' = fold (\<lambda>email x. snd (xl_RemoveUser L h email x)) installed x1" "\<not> ok" by auto
    with rollback[OF x1, of installed] A show ?thesis using kept_trans by auto
  qed
qed (auto simp: kept_refl)

lemma manager: "fine x \<Longrightarrow> GetUserManager L tag x = Inr h \<Longrightarrow> ih x tag = Some h"
  using get_in by (auto simp: GetUserManager_def split: sum.splits if_splits)

text \<open>The frame of a tag, from what was kept of the server and of the allowed users.\<close>

lemma frame:
  assumes "kept_but ih oh members {tag} (xy_Server s) (xy_Server s')" and "apart t tag"
    and "\<And>u. mhas (dp_AllowedUsers (xy_dispatcher s')) (UserTag t u) = mhas (dp_AllowedUsers (xy_dispatcher s)) (UserTag t u)"
  shows "xr_listens ih oh icfg ocfg s' t = xr_listens ih oh icfg ocfg s t \<and> xr_users ih members s' t = xr_users ih members s t"
proof -
  have "t \<notin> {tag}" using assms(2) by simp
  with assms(1) have k: "ih (xy_Server s') t = ih (xy_Server s) t" "oh (xy_Server s') t = oh (xy_Server s) t"
    "\<And>h. ih (xy_Server s) t = Some h \<Longrightarrow> members (xy_Server s') h = members (xy_Server s) h"
    unfolding kept_but_def by blast+
  from k(3) have "(\<exists>h. ih (xy_Server s) t = Some h \<and> e \<in> members (xy_Server s') h) \<longleftrightarrow>
      (\<exists>h. ih (xy_Server s) t = Some h \<and> e \<in> members (xy_Server s) h)" for e by auto
  with k(1,2) assms(3) show ?thesis by (simp add: xr_listens_def xr_users_def)
qed

lemma del_loop:
  assumes "fine (xy_Server s)" and "ih (xy_Server s) tag = Some h" and "del_users_loop L h tag us s = (e, s')"
  shows "fine (xy_Server s') \<and> kept_but ih oh members {tag} (xy_Server s) (xy_Server s') \<and>
    ih (xy_Server s') = ih (xy_Server s) \<and> oh (xy_Server s') = oh (xy_Server s) \<and>
    (\<forall>x. x \<notin> UserTag tag ` uuids us \<longrightarrow>
       mhas (dp_AllowedUsers (xy_dispatcher s')) x = mhas (dp_AllowedUsers (xy_dispatcher s)) x) \<and>
    (e = None \<longrightarrow> members (xy_Server s') h = members (xy_Server s) h - UserTag tag ` uuids us \<and>
       (\<forall>x\<in>UserTag tag ` uuids us. \<not> mhas (dp_AllowedUsers (xy_dispatcher s')) x))"
  using assms
proof (induction us arbitrary: s)
  case Nil
  then show ?case by (auto simp: kept_refl)
next
  case (Cons u us)
  define m where "m = UserTag tag (ui_Uuid u)"
  obtain r s1 where g: "(if xl_GetUser L h m (xy_Server s) then on_server (xl_RemoveUser L h m) s else (None, s)) = (r, s1)"
    by fastforce
  have S1: "fine (xy_Server s1) \<and> kept_but ih oh members {tag} (xy_Server s) (xy_Server s1) \<and>
      ih (xy_Server s1) = ih (xy_Server s) \<and> oh (xy_Server s1) = oh (xy_Server s) \<and> xy_dispatcher s1 = xy_dispatcher s \<and>
      (r = None \<longrightarrow> members (xy_Server s1) h = members (xy_Server s) h - {m})"
  proof (cases "xl_GetUser L h m (xy_Server s)")
    case True
    obtain r1 x1 where "xl_RemoveUser L h m (xy_Server s) = (r1, x1)" by fastforce
    moreover from g True calculation have "r = r1" "s1 = s\<lparr>xy_Server := x1\<rparr>" by (auto simp: on_server_def)
    ultimately show ?thesis using remove_user[OF Cons.prems(1,2)] by fastforce
  next
    case False
    with g get_user[OF Cons.prems(1,2), of m] Cons.prems show ?thesis by (auto simp: kept_refl)
  qed
  have unf: "del_users_loop L h tag (u # us) s =
      (case r of Some e \<Rightarrow> (Some e, s1) | None \<Rightarrow> del_users_loop L h tag us (forget_user tag m s1))"
    by (simp only: del_users_loop.simps Let_def m_def [symmetric] g prod.case)
  show ?case
  proof (cases r)
    case (Some err)
    with Cons.prems(3) unf have "s' = s1" "e \<noteq> None" by auto
    with S1 show ?thesis by auto
  next
    case None
    let ?s2 = "forget_user tag m s1"
    from Cons.prems(3) unf None have l: "del_users_loop L h tag us ?s2 = (e, s')" by simp
    from S1 Cons.prems have "fine (xy_Server ?s2)" "ih (xy_Server ?s2) tag = Some h" by auto
    note I = Cons.IH[OF this l]
    have k: "kept_but ih oh members {tag} (xy_Server s) (xy_Server s')"
      using S1 I by (auto intro: kept_trans)
    have "mhas (dp_AllowedUsers (xy_dispatcher s')) x = mhas (dp_AllowedUsers (xy_dispatcher s)) x"
      if "x \<notin> UserTag tag ` uuids (u # us)" for x
      using that I S1 by (auto simp: m_def)
    moreover have "members (xy_Server s') h = members (xy_Server s) h - UserTag tag ` uuids (u # us) \<and>
       (\<forall>x\<in>UserTag tag ` uuids (u # us). \<not> mhas (dp_AllowedUsers (xy_dispatcher s')) x)" if "e = None"
    proof -
      have "\<not> mhas (dp_AllowedUsers (xy_dispatcher s')) m"
        using I that by (cases "m \<in> UserTag tag ` uuids us") auto
      with I S1 None that show ?thesis by (auto simp: m_def)
    qed
    ultimately show ?thesis using I S1 k by auto
  qed
qed

lemma del_users_step:
  assumes "fine (xy_Server s)" and "Xray_DelUsers L us tag n s = (e, s')"
  shows "fine (xy_Server s') \<and> kept_but ih oh members {tag} (xy_Server s) (xy_Server s') \<and>
    (apart t tag \<longrightarrow> (\<forall>u. mhas (dp_AllowedUsers (xy_dispatcher s')) (UserTag t u) =
       mhas (dp_AllowedUsers (xy_dispatcher s)) (UserTag t u))) \<and>
    (e = None \<longrightarrow> xr_listens ih oh icfg ocfg s' tag = xr_listens ih oh icfg ocfg s tag \<and>
       xr_users ih members s' tag = xr_users ih members s tag - uuids us)"
proof (cases "GetUserManager L tag (xy_Server s)")
  case (Inl err)
  with assms have "s' = s" "e \<noteq> None" by (auto simp: Xray_DelUsers_def)
  with assms(1) show ?thesis by (auto simp: kept_refl)
next
  case (Inr h)
  with assms have l: "del_users_loop L h tag us s = (e, s')" by (simp add: Xray_DelUsers_def)
  note h = manager[OF assms(1) Inr] and D = del_loop[OF assms(1) manager[OF assms(1) Inr] l]
  have "UserTag t u \<notin> UserTag tag ` uuids us" if "apart t tag" for u
    using apart_UserTag_neq[OF that] by auto
  then have "apart t tag \<longrightarrow> (\<forall>u. mhas (dp_AllowedUsers (xy_dispatcher s')) (UserTag t u) =
       mhas (dp_AllowedUsers (xy_dispatcher s)) (UserTag t u))" using D by blast
  moreover have "xr_users ih members s' tag = xr_users ih members s tag - uuids us" if e: "e = None"
  proof -
    have im: "UserTag tag u \<in> UserTag tag ` uuids us \<longleftrightarrow> u \<in> uuids us" for u by auto
    have A: "mhas (dp_AllowedUsers (xy_dispatcher s')) (UserTag tag u) \<longleftrightarrow>
        mhas (dp_AllowedUsers (xy_dispatcher s)) (UserTag tag u) \<and> u \<notin> uuids us" for u
      by (cases "u \<in> uuids us") (use D e im[of u] in blast)+
    show ?thesis using D h e by (auto simp: xr_users_def A im)
  qed
  moreover have "xr_listens ih oh icfg ocfg s' tag = xr_listens ih oh icfg ocfg s tag"
    using D by (simp add: xr_listens_def)
  ultimately show ?thesis using D by blast
qed

lemma add_users_step:
  assumes "fine (xy_Server s)" and "Xray_AddUsers L tag us n s = (q, s')"
  shows "fine (xy_Server s') \<and> kept_but ih oh members {tag} (xy_Server s) (xy_Server s') \<and>
    (apart t tag \<longrightarrow> (\<forall>u. mhas (dp_AllowedUsers (xy_dispatcher s')) (UserTag t u) =
       mhas (dp_AllowedUsers (xy_dispatcher s)) (UserTag t u))) \<and>
    (is_ok q \<longrightarrow> xr_listens ih oh icfg ocfg s' tag = xr_listens ih oh icfg ocfg s tag \<and>
       xr_users ih members s' tag = xr_users ih members s tag \<union> uuids us)"
proof (cases "\<exists>pus h. build_users tag us n = Inr pus \<and> GetUserManager L tag (xy_Server s) = Inr h \<and> list_all (xl_ToMemoryUser L) pus")
  case False
  with assms have "s' = s" "\<not> is_ok q" by (auto simp: Xray_AddUsers_def split: sum.splits if_splits)
  with assms(1) show ?thesis by (simp add: kept_refl)
next
  case True
  then obtain pus h where pus: "build_users tag us n = Inr pus" and g: "GetUserManager L tag (xy_Server s) = Inr h"
    and ok: "list_all (xl_ToMemoryUser L) pus" by blast
  note h = manager[OF assms(1) g]
  obtain b x where i: "install_users L h pus [] (xy_Server s) = (b, x)" by fastforce
  note I = installs[OF assms(1) h i]
  have em: "pu_Email ` set pus = UserTag tag ` uuids us"
    using arg_cong[OF build_users_emails[OF pus], of set] by (auto simp: uuids_def image_iff)
  show ?thesis
  proof (cases b)
    case False
    with assms(2) pus g ok i have "s' = s\<lparr>xy_Server := x\<rparr>" "\<not> is_ok q" by (auto simp: Xray_AddUsers_def)
    with I show ?thesis by simp
  next
    case True
    let ?s = "s\<lparr>xy_Server := x\<rparr>"
    from True assms(2) pus g ok i have s': "s' = fold (register_user tag) us ?s" by (simp add: Xray_AddUsers_def)
    have A: "mhas (dp_AllowedUsers (xy_dispatcher s')) e \<longleftrightarrow>
        mhas (dp_AllowedUsers (xy_dispatcher s)) e \<or> e \<in> UserTag tag ` uuids us" for e
      using register_users[of tag us ?s e] by (simp add: s')
    have S: "xy_Server s' = x" using register_users[of tag us ?s "[]"] by (simp add: s')
    have "UserTag t u \<notin> UserTag tag ` uuids us" if "apart t tag" for u
      using apart_UserTag_neq[OF that] by auto
    moreover have "xr_users ih members s' tag = xr_users ih members s tag \<union> uuids us"
      using I h True unfolding xr_users_def A S em by (auto simp: em image_iff)
    ultimately show ?thesis using I A S by (auto simp: xr_listens_def)
  qed
qed

lemma add_node_step:
  assumes "fine (xy_Server s)" and "Xray_AddNode L tag n o1 s = (e, o2, s')"
  shows "o2 = o1 \<and> fine (xy_Server s') \<and> kept_but ih oh members {tag} (xy_Server s) (xy_Server s') \<and>
    dp_AllowedUsers (xy_dispatcher s') = dp_AllowedUsers (xy_dispatcher s) \<and>
    (e = None \<longrightarrow> xr_listens ih oh icfg ocfg s' tag = Some (xr_cfg L tag n o1) \<and> xr_users ih members s' tag = {})"
proof -
  obtain e1 s1 where u: "update_dns L n s = (e1, s1)" by fastforce
  note U = update_dns_simps[OF u]
  show ?thesis
  proof (cases "e1 = None \<and> (\<exists>ic. built_inbound L o1 n tag = Inr ic)")
    case False
    with assms(2) u have "s' = s1" "o2 = o1" "e \<noteq> None" by (auto simp: Xray_AddNode_def split: option.splits sum.splits)
    with U assms(1) show ?thesis by (auto simp: kept_refl)
  next
    case True
    then obtain ic where e1: "e1 = None" and ic: "built_inbound L o1 n tag = Inr ic" by blast
    obtain e2 x2 where a: "addInbound L tag ic (xy_Server s1) = (e2, x2)" by fastforce
    from U assms(1) have f1: "fine (xy_Server s1)" by simp
    note A = addInbound_spec[OF f1 built_tags(1)[OF ic] a]
    let ?s2 = "s1\<lparr>xy_Server := x2\<rparr>"
    show ?thesis
    proof (cases e2)
      case (Some err)
      with assms(2) u e1 ic a have "s' = ?s2" "o2 = o1" "e \<noteq> None" by (auto simp: Xray_AddNode_def on_server_def)
      with A U show ?thesis by auto
    next
      case None
      with A obtain h where h: "ih x2 tag = Some h" "icfg h = ic" "members x2 h = {}" and f2: "fine x2"
        and k2: "kept_but ih oh members {tag} (xy_Server s) x2" using U by auto
      obtain e3 s3 where o3: "add_node_outbound L tag o1 ?s2 = (e3, s3)" by fastforce
      from None assms(2) u e1 ic a o3 have r: "e = e3" "s' = s3" "o2 = o1" by (auto simp: Xray_AddNode_def on_server_def)
      have rem: "fine (snd (xl_RemoveInbound L tag y)) \<and> kept_but ih oh members {tag} y (snd (xl_RemoveInbound L tag y))"
        if "fine y" for y using remove_in[OF that, of tag] by (cases "xl_RemoveInbound L tag y") auto
      show ?thesis
      proof (cases "built_outbound L o1 tag")
        case (Inl err)
        with o3 have "s3 = snd (on_server (xl_RemoveInbound L tag) ?s2)" "e3 \<noteq> None" by (auto simp: add_node_outbound_def)
        with rem[OF f2] k2 r U show ?thesis by (auto simp: on_server_def split: prod.split intro: kept_trans)
      next
        case (Inr oc)
        obtain e4 x4 where b: "addOutbound L tag oc x2 = (e4, x4)" by fastforce
        note B = addOutbound_spec[OF f2 built_tags(2)[OF Inr] b]
        have k4: "kept_but ih oh members {tag} (xy_Server s) x4" using B k2 kept_trans by blast
        show ?thesis
        proof (cases e4)
          case (Some err)
          with o3 Inr b have "s3 = snd (on_server (xl_RemoveInbound L tag) (s1\<lparr>xy_Server := x4\<rparr>))" "e3 \<noteq> None"
            by (auto simp: add_node_outbound_def on_server_def)
          with B rem[of x4] k4 r U show ?thesis by (auto simp: on_server_def split: prod.split intro: kept_trans)
        next
          case None
          with o3 Inr b have s3: "xy_Server s3 = x4" "xy_dispatcher s3 = xy_dispatcher s1"
            by (auto simp: add_node_outbound_def on_server_def)
          from B None h obtain k where "oh x4 tag = Some k" "ocfg k = oc" "ih x4 tag = Some h" "members x4 h = {}" by auto
          then show ?thesis using B k4 r U s3 h ic Inr by (auto simp: xr_listens_def xr_users_def xr_cfg_def)
        qed
      qed
    qed
  qed
qed

lemma errors_Join2: "errors_Join [a, b] = None \<longleftrightarrow> a = None \<and> b = None"
  by (cases a; cases b) (simp_all add: errors_Join_def)

lemma del_node_step:
  assumes "fine (xy_Server s)" and "Xray_DelNode L tag s = (e, s')"
  shows "fine (xy_Server s') \<and> kept_but ih oh members {tag} (xy_Server s) (xy_Server s') \<and>
    (apart t tag \<longrightarrow> (\<forall>u. mhas (dp_AllowedUsers (xy_dispatcher s')) (UserTag t u) =
       mhas (dp_AllowedUsers (xy_dispatcher s)) (UserTag t u))) \<and>
    (e = None \<longrightarrow> xr_listens ih oh icfg ocfg s' tag = None \<and> xr_users ih members s' tag = {})"
proof -
  obtain r1 s1 where a: "(if is_ok (xl_GetInbound L tag (xy_Server s)) then on_server (xl_RemoveInbound L tag) s else (None, s)) = (r1, s1)"
    by fastforce
  obtain r2 s2 where b: "(if xl_GetOutbound L tag (xy_Server s1) \<noteq> None then on_server (xl_RemoveOutbound L tag) s1 else (None, s1)) = (r2, s2)"
    by fastforce
  have A: "fine (xy_Server s1) \<and> kept_but ih oh members {tag} (xy_Server s) (xy_Server s1) \<and>
      xy_dispatcher s1 = xy_dispatcher s \<and> (r1 = None \<longrightarrow> ih (xy_Server s1) tag = None)"
  proof (cases "is_ok (xl_GetInbound L tag (xy_Server s))")
    case True
    obtain r x where "xl_RemoveInbound L tag (xy_Server s) = (r, x)" by fastforce
    with remove_in[OF assms(1) this] a True show ?thesis by (auto simp: on_server_def)
  next
    case False
    then obtain err where "xl_GetInbound L tag (xy_Server s) = Inl err" by (cases "xl_GetInbound L tag (xy_Server s)") auto
    with get_in[OF assms(1), of tag] have "ih (xy_Server s) tag = None" by (cases "ih (xy_Server s) tag") auto
    with a False assms(1) show ?thesis by (auto simp: kept_refl)
  qed
  have B: "fine (xy_Server s2) \<and> kept_but ih oh members {tag} (xy_Server s1) (xy_Server s2) \<and>
      xy_dispatcher s2 = xy_dispatcher s1 \<and> ih (xy_Server s2) = ih (xy_Server s1)"
  proof (cases "xl_GetOutbound L tag (xy_Server s1) = None")
    case False
    obtain r x where "xl_RemoveOutbound L tag (xy_Server s1) = (r, x)" by fastforce
    with remove_out[of "xy_Server s1", OF _ this] A b False show ?thesis by (auto simp: on_server_def)
  qed (use A b in \<open>auto simp: kept_refl\<close>)
  from assms(2) have r: "e = errors_Join [r1, r2]" "s' = (if e = None then retireNodeUsers tag s2 else s2)"
    using a b by (cases r1; cases r2; auto simp: Xray_DelNode_def errors_Join_def Let_def split: prod.splits)+
  have S: "xy_Server s' = xy_Server s2" using r by (simp add: retireNodeUsers_simps)
  have "mhas (dp_AllowedUsers (xy_dispatcher s')) (UserTag t u) = mhas (dp_AllowedUsers (xy_dispatcher s)) (UserTag t u)"
    if "apart t tag" for u
  proof (cases "e = None")
    case True
    then show ?thesis using A B r retireNodeUsers_simps(2)[OF apart_UserTag[OF that], where s = s2] by simp
  qed (use A B r in auto)
  moreover have "ih (xy_Server s') tag = None" if "e = None"
    using that A B S r(1) errors_Join2 by simp
  ultimately show ?thesis
    using A B S kept_trans by (auto simp: xr_listens_def xr_users_def)
qed

lemma xray_contract:
  "core_contract (xray_core L) (xr_listens ih oh icfg ocfg) (xr_users ih members) (xr_cfg L) (\<lambda>s. fine (xy_Server s)) (\<lambda>_ _. True)"
proof (unfold_locales, goal_cases)
  case (1 s tag o1 n o2 s')
  then show ?case using add_node_step[of s tag n o1 None o2 s'] by (simp add: xray_core_def)
next
  case (2 s tag o1 n r o2 s' t)
  then show ?case using add_node_step[of s tag n o1 r o2 s'] frame[of tag s s' t] by (auto simp: xray_core_def)
next
  case (3 s tag s')
  then show ?case using del_node_step[of s tag None s'] by (simp add: xray_core_def)
next
  case (4 s tag r' s' t)
  then show ?case using del_node_step[of s tag r' s' t] frame[of tag s s' t] by (auto simp: xray_core_def)
next
  case (5 s tag us n k s')
  then show ?case using add_users_step[of s tag us n "Inr k" s'] by (simp add: xray_core_def uuids_def)
next
  case (6 s tag us n r'' s' t)
  then show ?case using add_users_step[of s tag us n r'' s' t] frame[of tag s s' t] by (auto simp: xray_core_def)
next
  case (7 s us tag n s')
  then show ?case using del_users_step[of s us tag n None s'] by (simp add: xray_core_def uuids_def)
next
  case (8 s us tag n r' s' t)
  then show ?case using del_users_step[of s us tag n r' s' t] frame[of tag s s' t] by (auto simp: xray_core_def)
next
  case (9 s tag b q s')
  then show ?case using traffic_simps[of tag b s q s'] by (auto simp: xray_core_def xr_listens_def xr_users_def fun_eq_iff)
next
  case (10 s s0 snap tag n o1 rst r' s')
  from 10 have "snap = Xray_SnapshotNodeState L" by (simp add: xray_core_def)
  with 10 have "Xray_SnapshotNodeState L tag n o1 s0 = Inr rst" "rst s = (r', s')" by simp_all
  then have "xy_Server s' = xy_Server s"
    by (auto simp: Xray_SnapshotNodeState_def split: if_splits sum.splits prod.splits)
  moreover from \<open>Xray_SnapshotNodeState L tag n o1 s0 = Inr rst\<close> \<open>rst s = (r', s')\<close>
  have "xy_dispatcher s' = xy_dispatcher s"
    by (auto simp: Xray_SnapshotNodeState_def split: if_splits sum.splits prod.splits)
  ultimately show ?case using 10 by (simp add: xr_listens_def xr_users_def fun_eq_iff)
qed

end

section \<open>The contract\<close>

text \<open>C2: over a library that keeps its documented promises the Xray core keeps the core contract: a
  successful operation has done its work, on its own tag only, and reading traffic or restoring the DNS
  file changes no listener and no user.\<close>

theorem xray_keeps_contract:
  assumes "xray_library L ih oh icfg ocfg members fine itag otag"
  shows "core_contract (xray_core L) (xr_listens ih oh icfg ocfg) (xr_users ih members) (xr_cfg L) (\<lambda>s. fine (xy_Server s)) (\<lambda>_ _. True)"
  using assms by (rule xray_library.xray_contract)

subsection \<open>A library that does what is documented\<close>

text \<open>Handlers are numbered; a handler carries its configuration.\<close>

record demo_x =
  dx_next :: nat
  dx_in :: "(string, nat \<times> InboundDetourConfig) gomap"
  dx_out :: "(string, nat \<times> OutboundDetourConfig) gomap"
  dx_users :: "(nat, string list) gomap"

definition demo_inbound_lib :: inbound_lib where
  "demo_inbound_lib = \<lparr>il_transport = (\<lambda>net s. Inr None), il_duration = (\<lambda>s. 0), il_random = Inr [1, 2]\<rparr>"

definition demo_dns_lib :: dns_lib where
  "demo_dns_lib = \<lparr>dl_Indent = Some, dl_IsIP = (\<lambda>s. False), dl_MarshalIndent = (\<lambda>s t. Some t), dl_Check = (\<lambda>s. True)\<rparr>"

definition demo_add_in :: "nat \<times> InboundDetourConfig \<Rightarrow> demo_x \<Rightarrow> err option \<times> demo_x" where
  "demo_add_in h x = (if mhas (dx_in x) (id_Tag (snd h)) then (Some ''existing tag found'', x)
     else if dx_next x \<le> fst h \<or> fst h \<in> set (map (fst \<circ> snd) (dx_in x)) then (Some ''unknown handler'', x)
     else (None, x\<lparr>dx_in := mput (id_Tag (snd h)) h (dx_in x)\<rparr>))"

definition demo_add_out :: "nat \<times> OutboundDetourConfig \<Rightarrow> demo_x \<Rightarrow> err option \<times> demo_x" where
  "demo_add_out h x = (if mhas (dx_out x) (od_Tag (snd h)) then (Some ''existing tag found'', x)
     else (None, x\<lparr>dx_out := mput (od_Tag (snd h)) h (dx_out x)\<rparr>))"

definition demo_lib :: "(demo_x, nat \<times> InboundDetourConfig, nat \<times> OutboundDetourConfig, InboundDetourConfig, OutboundDetourConfig) xray_lib" where
  "demo_lib = \<lparr>xl_Start = (\<lambda>x. (None, x)), xl_Close = (\<lambda>x. (None, x)), xl_BuildInbound = Inr, xl_BuildOutbound = Inr,
     xl_CreateInbound = (\<lambda>c x. (Inr (Some (dx_next x, c)), x\<lparr>dx_next := dx_next x + 1, dx_users := mput (dx_next x) [] (dx_users x)\<rparr>)),
     xl_GetInbound = (\<lambda>t x. case map_of (dx_in x) t of None \<Rightarrow> Inl ''handler not found'' | Some h \<Rightarrow> Inr h),
     xl_AddInbound = demo_add_in,
     xl_RemoveInbound = (\<lambda>t x. (None, x\<lparr>dx_in := mdel t (dx_in x)\<rparr>)), xl_CloseInbound = (\<lambda>h x. x),
     xl_CreateOutbound = (\<lambda>c x. (Inr (Some (dx_next x, c)), x)),
     xl_GetOutbound = (\<lambda>t x. map_of (dx_out x) t), xl_AddOutbound = demo_add_out,
     xl_RemoveOutbound = (\<lambda>t x. (None, x\<lparr>dx_out := mdel t (dx_out x)\<rparr>)), xl_CloseOutbound = (\<lambda>h x. x),
     xl_HasInbound = (\<lambda>h. True), xl_HasUserManager = (\<lambda>h. True),
     xl_GetUser = (\<lambda>h e x. e \<in> set (mget_or [] (dx_users x) (fst h))),
     xl_AddUser = (\<lambda>h u x. (None, x\<lparr>dx_users := mput (fst h) (pu_Email u # mget_or [] (dx_users x) (fst h)) (dx_users x)\<rparr>)),
     xl_RemoveUser = (\<lambda>h e x. (None, x\<lparr>dx_users := mput (fst h) (filter (\<lambda>v. v \<noteq> e) (mget_or [] (dx_users x) (fst h))) (dx_users x)\<rparr>)),
     xl_ToMemoryUser = (\<lambda>u. True), xl_inbound = demo_inbound_lib, xl_dns = demo_dns_lib, xl_calls = demo_calls 9,
     xl_LoadX509KeyPair = (\<lambda>c k. True)\<rparr>"

definition demo_fine :: "demo_x \<Rightarrow> bool" where
  "demo_fine x \<longleftrightarrow> (\<forall>t h. map_of (dx_in x) t = Some h \<longrightarrow> fst h < dx_next x \<and> id_Tag (snd h) = t) \<and>
     (\<forall>t u h k. map_of (dx_in x) t = Some h \<longrightarrow> map_of (dx_in x) u = Some k \<longrightarrow> fst h = fst k \<longrightarrow> t = u)"

lemma demo_number: "map_of (dx_in x) t = Some h \<Longrightarrow> fst h \<in> set (map (fst \<circ> snd) (dx_in x))"
  by (auto dest!: map_of_SomeD simp: image_image intro!: rev_image_eqI)

interpretation dl: xray_library demo_lib "\<lambda>x t. map_of (dx_in x) t" "\<lambda>x t. map_of (dx_out x) t" snd snd
  "\<lambda>x h. set (mget_or [] (dx_users x) (fst h))" demo_fine id_Tag od_Tag
  by unfold_locales
    (auto simp: demo_lib_def demo_fine_def kept_but_def demo_add_in_def demo_add_out_def mhas_def fun_eq_iff less_Suc_eq
      simp del: set_map comp_apply split: if_splits option.splits dest: demo_number)

theorem xray_keeps_contract_witness:
  "core_contract (xray_core demo_lib) (xr_listens (\<lambda>x t. map_of (dx_in x) t) (\<lambda>x t. map_of (dx_out x) t) snd snd)
     (xr_users (\<lambda>x t. map_of (dx_in x) t) (\<lambda>x h. set (mget_or [] (dx_users x) (fst h)))) (xr_cfg demo_lib)
     (\<lambda>s. demo_fine (xy_Server s)) (\<lambda>_ _. True)"
  by (rule xray_keeps_contract) (rule dl.xray_library_axioms)

end
