(* ===== verification/Sing_Options.thy ===== *)
theory Sing_Options
  imports Xray_Inbound Core_Interface
begin

text \<open>
  The inbounds the sing-box core is configured with (runtime/core/sing/node.go getInboundOptions and utils.go).
  The option structures of sing-box are kept as far as the code fills them; a panic is an error with the
  message of the runtime.
\<close>

section \<open>Network settings of the panel\<close>

record HttpNetworkConfig =
  hn_Type :: string
  hn_Request :: "string option"
  hn_Response :: "string option"

record HttpRequest =
  hr_Version :: string
  hr_Method :: string
  hr_Path :: "string list"
  hr_Host :: "string list"

record WsNetworkConfig =
  wn_Path :: string
  wn_Headers :: "(string, string) gomap"

record GrpcNetworkConfig =
  gn_ServiceName :: string

record HttpupgradeNetworkConfig =
  hu_Path :: string
  hu_Host :: string

text \<open>
  Library functions: \<open>netip.ParseAddr\<close> (the address as it is written again), the JSON decoders of the
  structures above, \<open>url.Parse\<close> with the path and the value of the query parameter \<open>ed\<close>, the parser of
  durations (0 for a text that is none), the random generator and \<open>base64.StdEncoding.EncodeToString\<close> of
  random bytes.
\<close>

record sing_decoders =
  sd_ParseAddr :: "string \<Rightarrow> string res"
  sd_Http :: "string \<Rightarrow> HttpNetworkConfig res"
  sd_HttpRequest :: "string \<Rightarrow> HttpRequest res"
  sd_Ws :: "string \<Rightarrow> WsNetworkConfig res"
  sd_Grpc :: "string \<Rightarrow> GrpcNetworkConfig res"
  sd_Httpupgrade :: "string \<Rightarrow> HttpupgradeNetworkConfig res"
  sd_URL :: "string \<Rightarrow> (string \<times> string) res"
  sd_Duration :: "string \<Rightarrow> int"
  sd_Random :: "nat \<Rightarrow> string"

section \<open>Option structures of sing-box\<close>

record ListenOptions =
  ln_Listen :: string
  ln_ListenPort :: nat
  ln_TCPFastOpen :: bool

record ServerOptions =
  sv_Server :: string
  sv_ServerPort :: nat

record InboundMultiplexOptions =
  im_Enabled :: bool
  im_Padding :: bool
  im_Brutal :: BrutalOptions

record InboundRealityOptions =
  ir_Enabled :: bool
  ir_ShortID :: "string list"
  ir_PrivateKey :: string
  ir_Handshake :: ServerOptions
  ir_MaxTimeDifference :: int

record InboundTLSOptions =
  it_Enabled :: bool
  it_ServerName :: string
  it_ALPN :: "string list"
  it_CertificatePath :: string
  it_KeyPath :: string
  it_Reality :: "InboundRealityOptions option"

definition InboundTLSOptions_zero :: InboundTLSOptions where
  "InboundTLSOptions_zero = \<lparr>it_Enabled = False, it_ServerName = [], it_ALPN = [], it_CertificatePath = [],
     it_KeyPath = [], it_Reality = None\<rparr>"

record V2RayWebsocketOptions =
  vw_Path :: string
  vw_EarlyDataHeaderName :: string
  vw_MaxEarlyData :: nat
  vw_Headers :: "(string, string list) gomap"

record V2RayTransportOptions =
  vt_Type :: string
  vt_HTTPHost :: "string list"
  vt_HTTPPath :: string
  vt_HTTPMethod :: string
  vt_WebsocketOptions :: "V2RayWebsocketOptions option"
  vt_GRPCServiceName :: string
  vt_HTTPUpgrade :: "string \<times> string"

definition transport_of_type :: "string \<Rightarrow> V2RayTransportOptions" where
  "transport_of_type t = \<lparr>vt_Type = t, vt_HTTPHost = [], vt_HTTPPath = [], vt_HTTPMethod = [],
     vt_WebsocketOptions = None, vt_GRPCServiceName = [], vt_HTTPUpgrade = ([], [])\<rparr>"

datatype InboundOptions =
    VLESSInboundOptions ListenOptions InboundTLSOptions V2RayTransportOptions "InboundMultiplexOptions option"
  | VMessInboundOptions ListenOptions InboundTLSOptions V2RayTransportOptions "InboundMultiplexOptions option"
  | ShadowsocksInboundOptions ListenOptions string string "string list" "InboundMultiplexOptions option"
  | TrojanInboundOptions ListenOptions InboundTLSOptions V2RayTransportOptions "InboundMultiplexOptions option"
      "ServerOptions option" "(string, ServerOptions) gomap"
  | TUICInboundOptions ListenOptions string bool InboundTLSOptions
  | AnyTLSInboundOptions ListenOptions "string list" InboundTLSOptions
  | HysteriaInboundOptions ListenOptions int int string InboundTLSOptions
  | Hysteria2InboundOptions ListenOptions int int bool "(string \<times> string) option" InboundTLSOptions

record SingInboundOptions =
  io_Type :: string
  io_Tag :: string
  io_Options :: "InboundOptions option"

section \<open>Parts of an inbound\<close>

definition multiplex_options :: "SingOptions \<Rightarrow> InboundMultiplexOptions option" where
  "multiplex_options so = map_option (\<lambda>m. \<lparr>im_Enabled = mc_Enabled m, im_Padding = mc_Padding m,
     im_Brutal = mc_Brutal m\<rparr>) (so_Multiplex so)"

definition tls_options :: "sing_decoders \<Rightarrow> NodeInfo \<Rightarrow> Options \<Rightarrow> InboundTLSOptions res" where
  "tls_options D info c =
     (let tls = InboundTLSOptions_zero
      in if ni_Security info = Tls then
           (case op_CertConfig c of
              None \<Rightarrow> Inl ''the CertConfig is not vail''
            | Some cc \<Rightarrow> Inr (if cc_CertMode cc = ''none'' \<or> cc_CertMode cc = [] then tls
                else tls\<lparr>it_Enabled := True, it_CertificatePath := cc_CertFile cc, it_KeyPath := cc_KeyFile cc\<rparr>))
         else if ni_Security info = Reality then
           (case ni_VAllss info of
              None \<Rightarrow> Inl nil_pointer
            | Some v \<Rightarrow>
                (let ts = va_TlsSettings v
                 in if ts_Xver ts \<noteq> 0 then Inl ''official sing-box does not support REALITY Xver; use 0''
                    else Inr (tls\<lparr>it_Enabled := True, it_ServerName := ts_ServerName ts,
                      it_Reality := Some \<lparr>ir_Enabled = True, ir_ShortID = [ts_ShortId ts], ir_PrivateKey = ts_PrivateKey ts,
                        ir_Handshake = \<lparr>sv_Server = (if ts_Dest ts \<noteq> [] then ts_Dest ts else ts_ServerName ts),
                          sv_ServerPort = nat (fst (Atoi (ts_ServerPort ts)) mod 2 ^ 16)\<rparr>,
                        ir_MaxTimeDifference = sd_Duration D (rc_MaxTimeDiff (va_RealityConfig v))\<rparr>\<rparr>)))
         else Inr tls)"

definition decode_settings :: "err \<Rightarrow> (string \<Rightarrow> 'a res) \<Rightarrow> string \<Rightarrow> 'a res" where
  "decode_settings what f s = (case f s of Inl e \<Rightarrow> Inl (what @ e) | Inr x \<Rightarrow> Inr x)"

definition decode_err :: err where "decode_err = ''decode NetworkSettings error: ''"

text \<open>TCP may carry an HTTP header; \<open>request.Path[0]\<close> panics when the request has no path.\<close>

definition tcp_transport :: "sing_decoders \<Rightarrow> string \<Rightarrow> V2RayTransportOptions res" where
  "tcp_transport D settings =
     (if settings = [] then Inr (transport_of_type [])
      else (case decode_settings decode_err (sd_Http D) settings of
          Inl e \<Rightarrow> Inl e
        | Inr network \<Rightarrow>
            if hn_Type network = ''http'' then
              (case hn_Request network of
                 None \<Rightarrow> Inr (transport_of_type ''http'')
               | Some raw \<Rightarrow> (case decode_settings ''decode HttpRequest error: '' (sd_HttpRequest D) raw of
                   Inl e \<Rightarrow> Inl e
                 | Inr request \<Rightarrow> (case hr_Path request of
                     [] \<Rightarrow> Inl ''index out of range [0] with length 0''
                   | p # _ \<Rightarrow> Inr ((transport_of_type ''http'')\<lparr>vt_HTTPHost := hr_Host request, vt_HTTPPath := p,
                       vt_HTTPMethod := hr_Method request\<rparr>))))
            else Inr (transport_of_type [])))"

definition ws_options :: "string \<Rightarrow> int \<Rightarrow> (string, string list) gomap \<Rightarrow> V2RayWebsocketOptions" where
  "ws_options path ed headers = \<lparr>vw_Path = path, vw_EarlyDataHeaderName = ''Sec-WebSocket-Protocol'',
     vw_MaxEarlyData = nat (ed mod 2 ^ 32), vw_Headers = headers\<rparr>"

definition ws_transport :: "sing_decoders \<Rightarrow> string \<Rightarrow> V2RayTransportOptions res" where
  "ws_transport D settings =
     (let t = transport_of_type ''ws''
      in if settings = [] then Inr (t\<lparr>vt_WebsocketOptions := Some (ws_options [] 0 [])\<rparr>)
         else (case decode_settings decode_err (sd_Ws D) settings of
             Inl e \<Rightarrow> Inl e
           | Inr network \<Rightarrow> (case decode_settings ''parse path error: '' (sd_URL D) (wn_Path network) of
               Inl e \<Rightarrow> Inl e
             | Inr (path, ed) \<Rightarrow> Inr (t\<lparr>vt_WebsocketOptions := Some (ws_options path (fst (Atoi ed))
                 (map (\<lambda>(k, v). (k, [v])) (wn_Headers network)))\<rparr>))))"

definition grpc_transport :: "sing_decoders \<Rightarrow> string \<Rightarrow> V2RayTransportOptions res" where
  "grpc_transport D settings =
     (let t = transport_of_type ''grpc''
      in if settings = [] then Inr t
         else (case decode_settings decode_err (sd_Grpc D) settings of
             Inl e \<Rightarrow> Inl e | Inr network \<Rightarrow> Inr (t\<lparr>vt_GRPCServiceName := gn_ServiceName network\<rparr>)))"

definition httpupgrade_transport :: "sing_decoders \<Rightarrow> string \<Rightarrow> V2RayTransportOptions res" where
  "httpupgrade_transport D settings =
     (let t = transport_of_type ''httpupgrade''
      in if settings = [] then Inr t
         else (case decode_settings decode_err (sd_Httpupgrade D) settings of
             Inl e \<Rightarrow> Inl e | Inr network \<Rightarrow> Inr (t\<lparr>vt_HTTPUpgrade := (hu_Path network, hu_Host network)\<rparr>)))"

definition vallss_transport :: "sing_decoders \<Rightarrow> VAllssNode \<Rightarrow> V2RayTransportOptions res" where
  "vallss_transport D n =
     (if va_Network n = ''tcp'' then tcp_transport D (va_NetworkSettings n)
      else if va_Network n = ''ws'' then ws_transport D (va_NetworkSettings n)
      else if va_Network n = ''grpc'' then grpc_transport D (va_NetworkSettings n)
      else if va_Network n = ''httpupgrade'' then httpupgrade_transport D (va_NetworkSettings n)
      else Inr (transport_of_type (va_Network n)))"

definition trojan_transport :: "sing_decoders \<Rightarrow> TrojanNode \<Rightarrow> V2RayTransportOptions res" where
  "trojan_transport D n =
     (if tj_Network n = ''ws'' then ws_transport D (tj_NetworkSettings n)
      else if tj_Network n = ''grpc'' then grpc_transport D (tj_NetworkSettings n)
      else Inr (transport_of_type []))"

section \<open>Fallbacks\<close>

definition server_options :: "string \<Rightarrow> int \<Rightarrow> ServerOptions" where
  "server_options server port = \<lparr>sv_Server = server, sv_ServerPort = nat (port mod 2 ^ 16)\<rparr>"

fun processFallback :: "(string, FallBack) gomap \<Rightarrow> (string, ServerOptions) gomap \<Rightarrow> (string, ServerOptions) gomap res" where
  "processFallback [] m = Inr m"
| "processFallback ((k, v) # vs) m = (case Atoi (fb_ServerPort v) of
     (_, True) \<Rightarrow> Inl (''unable to parse fallbackForALPN server port error: '' @ fb_ServerPort v)
   | (port, False) \<Rightarrow> processFallback vs (mput k (server_options (fb_Server v) port) m))"

definition trojan_fallbacks :: "SingOptions \<Rightarrow> ServerOptions option \<times> (string, ServerOptions) gomap" where
  "trojan_fallbacks so = (case so_FallBackConfigs so of
     None \<Rightarrow> (None, [])
   | Some f \<Rightarrow>
       (case Atoi (fb_ServerPort (fs_FallBack f)) of
          (_, True) \<Rightarrow> None | (port, False) \<Rightarrow> Some (server_options (fb_Server (fs_FallBack f)) port),
        case processFallback (fs_FallBackForALPN f) [] of Inl e \<Rightarrow> [] | Inr m \<Rightarrow> m))"

section \<open>The inbound\<close>

text \<open>A placeholder user with a random password; the 2022 ciphers encode it.\<close>

definition shadowsocks_options :: "sing_decoders \<Rightarrow> ListenOptions \<Rightarrow> InboundMultiplexOptions option \<Rightarrow> ShadowsocksNode \<Rightarrow> InboundOptions" where
  "shadowsocks_options D listen mux n =
     (let len = (if ss_Cipher n = ''2022-blake3-aes-256-gcm'' \<or> ss_Cipher n = ''2022-blake3-chacha20-poly1305'' then 32 else 16);
          random = sd_Random D len
      in if Contains (ss_Cipher n) ''2022''
         then ShadowsocksInboundOptions listen (ss_Cipher n) (ss_ServerKey n) [StdEncoding random] mux
         else ShadowsocksInboundOptions listen (ss_Cipher n) [] [random] mux)"

definition hysteria2_obfs :: "Hysteria2Node \<Rightarrow> (string \<times> string) option" where
  "hysteria2_obfs h =
     (if h2_ObfsType h \<noteq> [] \<and> h2_ObfsPassword h \<noteq> [] then Some (h2_ObfsType h, h2_ObfsPassword h)
      else if h2_ObfsType h \<noteq> [] then Some (''salamander'', h2_ObfsType h)
      else None)"

definition need :: "'a option \<Rightarrow> ('a \<Rightarrow> 'b res) \<Rightarrow> 'b res" where
  "need p f = (case p of None \<Rightarrow> Inl nil_pointer | Some x \<Rightarrow> f x)"

definition protocol_options ::
  "sing_decoders \<Rightarrow> NodeInfo \<Rightarrow> SingOptions \<Rightarrow> ListenOptions \<Rightarrow> InboundTLSOptions \<Rightarrow> (string \<times> InboundOptions option) res" where
  "protocol_options D info so listen tls =
     (let mux = multiplex_options so; t = ni_Type info; ok = (\<lambda>o1. Inr (t, Some o1))
      in if t = ''vless'' \<or> t = ''vmess'' then
           need (ni_VAllss info) (\<lambda>n. case vallss_transport D n of
             Inl e \<Rightarrow> Inl e
           | Inr tr \<Rightarrow> ok (if t = ''vless'' then VLESSInboundOptions listen tls tr mux else VMessInboundOptions listen tls tr mux))
         else if t = ''shadowsocks'' then need (ni_Shadowsocks info) (\<lambda>n. ok (shadowsocks_options D listen mux n))
         else if t = ''trojan'' then
           need (ni_Trojan info) (\<lambda>n. case trojan_transport D n of
             Inl e \<Rightarrow> Inl e
           | Inr tr \<Rightarrow> (case trojan_fallbacks so of (fb, alpn) \<Rightarrow> ok (TrojanInboundOptions listen tls tr mux fb alpn)))
         else if t = ''tuic'' then need (ni_Tuic info) (\<lambda>n. ok (TUICInboundOptions listen (tu_CongestionControl n)
           (tu_ZeroRTTHandshake n) (tls\<lparr>it_ALPN := it_ALPN tls @ [''h3'']\<rparr>)))
         else if t = ''anytls'' then need (ni_AnyTls info) (\<lambda>n. ok (AnyTLSInboundOptions listen (at_PaddingScheme n) tls))
         else if t = ''hysteria'' then need (ni_Hysteria info) (\<lambda>n. ok (HysteriaInboundOptions listen (hy_UpMbps n)
           (hy_DownMbps n) (hy_Obfs n) tls))
         else if t = ''hysteria2'' then need (ni_Hysteria2 info) (\<lambda>n. ok (Hysteria2InboundOptions listen (h2_UpMbps n)
           (h2_DownMbps n) (h2_Ignore_Client_Bandwidth n) (hysteria2_obfs n) tls))
         else Inr ([], None))"

text \<open>What only the Xray core can serve.\<close>

definition xray_only :: "NodeInfo \<Rightarrow> err option" where
  "xray_only info =
     (if ni_Type info \<noteq> ''vless'' then None
      else (case VLESSDecryption (ni_VAllss info) of
          Inl e \<Rightarrow> Some e
        | Inr decryption \<Rightarrow> (case ni_VAllss info of
            None \<Rightarrow> Some nil_pointer
          | Some v \<Rightarrow> if decryption \<noteq> ''none'' \<or> va_Network v = ''xhttp'' \<or> va_Network v = ''splithttp''
              then Some ''VLESS encryption and XHTTP require the Xray core'' else None)))"

definition getInboundOptions :: "sing_decoders \<Rightarrow> string \<Rightarrow> NodeInfo \<Rightarrow> Options \<Rightarrow> SingInboundOptions res" where
  "getInboundOptions D tag info c = (case xray_only info of
     Some e \<Rightarrow> Inl e
   | None \<Rightarrow> (case sd_ParseAddr D (op_ListenIP c) of
       Inl e \<Rightarrow> Inl ''the listen ip not vail''
     | Inr addr \<Rightarrow> need (ni_Common info) (\<lambda>common. need (op_SingOptions c) (\<lambda>so.
         case tls_options D info c of
           Inl e \<Rightarrow> Inl e
         | Inr tls \<Rightarrow> (case protocol_options D info so \<lparr>ln_Listen = addr, ln_ListenPort = nat (cn_ServerPort common mod 2 ^ 16),
               ln_TCPFastOpen = so_TCPFastOpen so\<rparr> tls of
             Inl e \<Rightarrow> Inl e
           | Inr (t, o1) \<Rightarrow> Inr \<lparr>io_Type = t, io_Tag = tag, io_Options = o1\<rparr>)))))"

definition Sing_ValidateNode :: "sing_decoders \<Rightarrow> string \<Rightarrow> NodeInfo \<Rightarrow> Options \<Rightarrow> err option" where
  "Sing_ValidateNode D tag info c = (case getInboundOptions D tag info c of Inl e \<Rightarrow> Some e | Inr _ \<Rightarrow> None)"

end
