(* ===== verification/Sing_Auth.thy ===== *)
theory Sing_Auth
  imports Go_Strings
begin

text \<open>
  The authentication tables of the managed sing-box inbounds (runtime/patches: the UpdateUsers of every
  service, the SetManagedUsers of every inbound, and how a service finds the user of a connection).
  Digests, key derivation and the parsers of requests are library functions.  The copy of the users that
  an inbound keeps is never read and left out.
\<close>

section \<open>Users and library functions\<close>

record VLESSUser =
  vl_Name :: string
  vl_UUID :: string
  vl_Flow :: string

record VMessUser =
  vm_Name :: string
  vm_UUID :: string
  vm_AlterId :: nat

record PasswordUser =
  pw_Name :: string
  pw_Password :: string

record TUICUser =
  tq_Name :: string
  tq_UUID :: string
  tq_Password :: string

record digests =
  dg_Trojan :: "string \<Rightarrow> string"
  dg_Sha256 :: "string \<Rightarrow> string"
  dg_UUID :: "string \<Rightarrow> string res"
  dg_UUIDv5 :: "string \<Rightarrow> string"
  dg_VMessKey :: "string \<Rightarrow> string"
  dg_IdCipher :: "string \<Rightarrow> string res"
  dg_AlterId :: "string \<Rightarrow> string"
  dg_Legacy :: "string \<Rightarrow> int \<Rightarrow> string"
  dg_CacheDuration :: int
  dg_Base64 :: "string \<Rightarrow> string res"
  dg_SSKey :: "string \<Rightarrow> nat \<Rightarrow> string"
  dg_Blake3 :: "string \<Rightarrow> string"
  dg_Block :: "string \<Rightarrow> err option"
  dg_Method :: "string \<Rightarrow> string \<Rightarrow> string res"

section \<open>Tables that are replaced as a whole\<close>

subsection \<open>Trojan\<close>

record TrojanService =
  tro_users :: "(string, string) gomap"
  tro_keys :: "(string, string) gomap"

fun trojan_tables ::
  "digests \<Rightarrow> (string \<times> string) list \<Rightarrow> (string, string) gomap \<Rightarrow> (string, string) gomap
     \<Rightarrow> ((string, string) gomap \<times> (string, string) gomap) res" where
  "trojan_tables D [] users keys = Inr (users, keys)"
| "trojan_tables D ((user, password) # l) users keys =
     (if mhas users user then Inl ''user already exists''
      else (case map_of keys (dg_Trojan D password) of
          Some oldUser \<Rightarrow> Inl (''user already exists: password used by '' @ oldUser)
        | None \<Rightarrow> trojan_tables D l (mput user (dg_Trojan D password) users) (mput (dg_Trojan D password) user keys)))"

definition Trojan_UpdateUsers :: "digests \<Rightarrow> (string \<times> string) list \<Rightarrow> TrojanService \<Rightarrow> err option \<times> TrojanService" where
  "Trojan_UpdateUsers D l s = (case trojan_tables D l [] [] of
     Inl e \<Rightarrow> (Some e, s) | Inr (users, keys) \<Rightarrow> (None, s\<lparr>tro_users := users, tro_keys := keys\<rparr>))"

subsection \<open>AnyTLS, Hysteria and Hysteria 2\<close>

definition AnyTLS_UpdateUsers :: "digests \<Rightarrow> PasswordUser list \<Rightarrow> (string, string) gomap \<Rightarrow> (string, string) gomap" where
  "AnyTLS_UpdateUsers D us s = fold (\<lambda>u. mput (dg_Sha256 D (pw_Password u)) (pw_Name u)) us []"

definition Hysteria_UpdateUsers :: "(string \<times> string) list \<Rightarrow> (string, string) gomap \<Rightarrow> (string, string) gomap" where
  "Hysteria_UpdateUsers l s = fold (\<lambda>(user, password). mput password user) l []"

definition Hysteria2_UpdateUsers :: "(string \<times> string) list \<Rightarrow> (string, string) gomap \<Rightarrow> (string, string) gomap" where
  "Hysteria2_UpdateUsers l s = fold (\<lambda>(user, password). mput password user) l []"

subsection \<open>TUIC\<close>

record TUICService =
  tqs_userMap :: "(string, string) gomap"
  tqs_passwordMap :: "(string, string) gomap"

definition TUIC_UpdateUsers :: "(string \<times> string \<times> string) list \<Rightarrow> TUICService \<Rightarrow> TUICService" where
  "TUIC_UpdateUsers l s = s\<lparr>tqs_userMap := fold (\<lambda>(user, uuid, password). mput uuid user) l [],
     tqs_passwordMap := fold (\<lambda>(user, uuid, password). mput user password) l []\<rparr>"

subsection \<open>VLESS\<close>

record VLESSService =
  vls_userMap :: "(string, string) gomap"
  vls_userFlow :: "(string, string) gomap"

definition uuid_or_v5 :: "digests \<Rightarrow> string \<Rightarrow> string" where
  "uuid_or_v5 D s = (case dg_UUID D s of Inl e \<Rightarrow> dg_UUIDv5 D s | Inr u \<Rightarrow> u)"

definition VLESS_UpdateUsers :: "digests \<Rightarrow> (string \<times> string \<times> string) list \<Rightarrow> VLESSService \<Rightarrow> VLESSService" where
  "VLESS_UpdateUsers D l s = s\<lparr>vls_userMap := fold (\<lambda>(user, uuid, flow). mput (uuid_or_v5 D uuid) user) l [],
     vls_userFlow := fold (\<lambda>(user, uuid, flow). mput user flow) l []\<rparr>"

subsection \<open>VMess\<close>

record VMessService =
  vms_userKey :: "(string, string) gomap"
  vms_userIdCipher :: "(string, string) gomap"
  vms_alterIds :: "(string, string list) gomap"
  vms_alterIdUpdateTime :: "(string, int) gomap"
  vms_alterIdMap :: "(string, string \<times> int \<times> nat) gomap"

definition alter_ids :: "digests \<Rightarrow> nat \<Rightarrow> string \<Rightarrow> string list" where
  "alter_ids D n uuid = map (\<lambda>j. (dg_AlterId D ^^ (j + 1)) uuid) [0..<n]"

fun vmess_tables ::
  "digests \<Rightarrow> (string \<times> string \<times> nat) list \<Rightarrow> VMessService \<Rightarrow> VMessService res" where
  "vmess_tables D [] t = Inr t"
| "vmess_tables D ((user, userId, alterId) # l) t =
     (let uuid = uuid_or_v5 D userId; cmdKey = dg_VMessKey D uuid
      in case dg_IdCipher D cmdKey of
           Inl e \<Rightarrow> Inl e
         | Inr c \<Rightarrow> vmess_tables D l (t\<lparr>vms_userKey := mput user cmdKey (vms_userKey t),
             vms_userIdCipher := mput user c (vms_userIdCipher t),
             vms_alterIds := (if alterId > 0 then mput user (alter_ids D alterId uuid) (vms_alterIds t) else vms_alterIds t)\<rparr>))"

text \<open>The hashes of every alternative identifier for the seconds in the window.\<close>

definition legacy_entries :: "digests \<Rightarrow> int \<Rightarrow> VMessService \<Rightarrow> (string \<times> string \<times> int \<times> nat) list" where
  "legacy_entries D nowSec s = concat (map (\<lambda>(user, ids).
     concat (map (\<lambda>(i, alterId). map (\<lambda>ts. (dg_Legacy D alterId ts, user, ts, i))
       [max (mget_or 0 (vms_alterIdUpdateTime s) user) (nowSec - dg_CacheDuration D) .. nowSec + dg_CacheDuration D])
     (enumerate 0 ids))) (vms_alterIds s))"

definition generateLegacyKeys :: "digests \<Rightarrow> int \<Rightarrow> VMessService \<Rightarrow> VMessService" where
  "generateLegacyKeys D nowSec s =
     s\<lparr>vms_alterIdMap := fold (\<lambda>(h, e). mput h e) (legacy_entries D nowSec s) [],
       vms_alterIdUpdateTime := fold (\<lambda>(user, ids). mput user nowSec) (vms_alterIds s) []\<rparr>"

definition empty_vmess :: VMessService where
  "empty_vmess = \<lparr>vms_userKey = [], vms_userIdCipher = [], vms_alterIds = [], vms_alterIdUpdateTime = [],
     vms_alterIdMap = []\<rparr>"

definition VMess_UpdateUsers ::
  "digests \<Rightarrow> int \<Rightarrow> (string \<times> string \<times> nat) list \<Rightarrow> VMessService \<Rightarrow> err option \<times> VMessService" where
  "VMess_UpdateUsers D nowSec l s = (case vmess_tables D l empty_vmess of
     Inl e \<Rightarrow> (Some e, s) | Inr t \<Rightarrow> (None, generateLegacyKeys D nowSec t))"

subsection \<open>Shadowsocks 2022\<close>

record SS2022Service =
  s22_uPSK :: "(string, string) gomap"
  s22_uPSKHash :: "(string, string) gomap"
  s22_uCipher :: "(string, string) gomap"
  s22_keySaltLength :: nat

fun decode_keys :: "digests \<Rightarrow> string list \<Rightarrow> string list res" where
  "decode_keys D [] = Inr []"
| "decode_keys D (password # l) =
     (if password = [] then Inl ''missing password''
      else (case dg_Base64 D password of
          Inl e \<Rightarrow> Inl (''decode psk: '' @ e)
        | Inr k \<Rightarrow> (case decode_keys D l of Inl e \<Rightarrow> Inl e | Inr ks \<Rightarrow> Inr (k # ks))))"

definition salt_key :: "digests \<Rightarrow> nat \<Rightarrow> string \<Rightarrow> string" where
  "salt_key D n key = (if n < length key then dg_SSKey D key n else key)"

fun ss2022_tables :: "digests \<Rightarrow> (string \<times> string) list \<Rightarrow> SS2022Service \<Rightarrow> SS2022Service res" where
  "ss2022_tables D [] t = Inr t"
| "ss2022_tables D ((user, key0) # l) t =
     (if length key0 < s22_keySaltLength t then Inl ''bad key''
      else (let key = salt_key D (s22_keySaltLength t) key0
        in case dg_Block D key of
             Some e \<Rightarrow> Inl e
           | None \<Rightarrow> ss2022_tables D l (t\<lparr>s22_uPSKHash := mput (dg_Blake3 D key) user (s22_uPSKHash t),
               s22_uPSK := mput user key (s22_uPSK t), s22_uCipher := mput user key (s22_uCipher t)\<rparr>)))"

definition SS2022_UpdateUsers :: "digests \<Rightarrow> (string \<times> string) list \<Rightarrow> SS2022Service \<Rightarrow> err option \<times> SS2022Service" where
  "SS2022_UpdateUsers D l s =
     (case ss2022_tables D l (s\<lparr>s22_uPSK := [], s22_uPSKHash := [], s22_uCipher := []\<rparr>) of
        Inl e \<Rightarrow> (Some e, s) | Inr t \<Rightarrow> (None, t))"

definition SS2022_UpdateUsersWithPasswords ::
  "digests \<Rightarrow> (string \<times> string) list \<Rightarrow> SS2022Service \<Rightarrow> err option \<times> SS2022Service" where
  "SS2022_UpdateUsersWithPasswords D l s = (case decode_keys D (map snd l) of
     Inl e \<Rightarrow> (Some e, s) | Inr keys \<Rightarrow> SS2022_UpdateUsers D (zip (map fst l) keys) s)"

section \<open>A table that is filled in place\<close>

text \<open>Shadowsocks with the older ciphers: the new map is the service's own from the start, and a method
  that cannot be built leaves it half full.\<close>

record AEADService =
  sa_name :: string
  sa_methodMap :: "(string, string) gomap"

fun aead_fill :: "digests \<Rightarrow> (string \<times> string) list \<Rightarrow> AEADService \<Rightarrow> err option \<times> AEADService" where
  "aead_fill D [] s = (None, s)"
| "aead_fill D ((user, password) # l) s = (case dg_Method D (sa_name s) password of
     Inl e \<Rightarrow> (Some e, s)
   | Inr m \<Rightarrow> aead_fill D l (s\<lparr>sa_methodMap := mput user m (sa_methodMap s)\<rparr>))"

definition AEAD_UpdateUsersWithPasswords ::
  "digests \<Rightarrow> (string \<times> string) list \<Rightarrow> AEADService \<Rightarrow> err option \<times> AEADService" where
  "AEAD_UpdateUsersWithPasswords D l s = aead_fill D l (s\<lparr>sa_methodMap := []\<rparr>)"

section \<open>Managed inbounds\<close>

datatype SingInbound =
    VLESSInbound VLESSService
  | VMessInbound VMessService
  | TrojanInbound TrojanService
  | TUICInbound TUICService
  | HysteriaInbound "(string, string) gomap"
  | Hysteria2Inbound "(string, string) gomap"
  | AnyTLSInbound "(string, string) gomap"
  | SS2022Inbound SS2022Service
  | AEADInbound AEADService

text \<open>A user list with the type of its inbound.\<close>

datatype ManagedUsers =
    VLESSUsers "VLESSUser list"
  | VMessUsers "VMessUser list"
  | TrojanUsers "PasswordUser list"
  | TUICUsers "TUICUser list"
  | HysteriaUsers "PasswordUser list"
  | Hysteria2Users "PasswordUser list"
  | AnyTLSUsers "PasswordUser list"
  | ShadowsocksUsers "PasswordUser list"

abbreviation passwords :: "PasswordUser list \<Rightarrow> (string \<times> string) list" where
  "passwords us \<equiv> map (\<lambda>u. (pw_Name u, pw_Password u)) us"

text \<open>The identifiers of TUIC users are parsed before anything changes.\<close>

fun tuic_ids :: "digests \<Rightarrow> TUICUser list \<Rightarrow> (string \<times> string \<times> string) list res" where
  "tuic_ids D [] = Inr []"
| "tuic_ids D (u # us) = (case dg_UUID D (tq_UUID u) of
     Inl e \<Rightarrow> Inl e
   | Inr uuid \<Rightarrow> (case tuic_ids D us of Inl e \<Rightarrow> Inl e | Inr l \<Rightarrow> Inr ((tq_Name u, uuid, tq_Password u) # l)))"

definition type_assertion :: err where
  "type_assertion = ''interface conversion: adapter.Inbound is of another type''"

text \<open>The dynamic type of an inbound against the list that is to be installed.\<close>

fun fits :: "ManagedUsers \<Rightarrow> SingInbound \<Rightarrow> bool" where
  "fits (VLESSUsers us) (VLESSInbound s) \<longleftrightarrow> True"
| "fits (VMessUsers us) (VMessInbound s) \<longleftrightarrow> True"
| "fits (TrojanUsers us) (TrojanInbound s) \<longleftrightarrow> True"
| "fits (TUICUsers us) (TUICInbound s) \<longleftrightarrow> True"
| "fits (HysteriaUsers us) (HysteriaInbound s) \<longleftrightarrow> True"
| "fits (Hysteria2Users us) (Hysteria2Inbound s) \<longleftrightarrow> True"
| "fits (AnyTLSUsers us) (AnyTLSInbound s) \<longleftrightarrow> True"
| "fits (ShadowsocksUsers us) (SS2022Inbound s) \<longleftrightarrow> True"
| "fits (ShadowsocksUsers us) (AEADInbound s) \<longleftrightarrow> True"
| "fits us inb \<longleftrightarrow> False"

fun SetManagedUsers :: "digests \<Rightarrow> int \<Rightarrow> ManagedUsers \<Rightarrow> SingInbound \<Rightarrow> err option \<times> SingInbound" where
  "SetManagedUsers D nowSec (VLESSUsers us) (VLESSInbound s) =
     (None, VLESSInbound (VLESS_UpdateUsers D (map (\<lambda>u. (vl_Name u, vl_UUID u, vl_Flow u)) us) s))"
| "SetManagedUsers D nowSec (VMessUsers us) (VMessInbound s) =
     map_prod id VMessInbound (VMess_UpdateUsers D nowSec (map (\<lambda>u. (vm_Name u, vm_UUID u, vm_AlterId u)) us) s)"
| "SetManagedUsers D nowSec (TrojanUsers us) (TrojanInbound s) =
     map_prod id TrojanInbound (Trojan_UpdateUsers D (passwords us) s)"
| "SetManagedUsers D nowSec (TUICUsers us) (TUICInbound s) = (case tuic_ids D us of
     Inl e \<Rightarrow> (Some e, TUICInbound s) | Inr l \<Rightarrow> (None, TUICInbound (TUIC_UpdateUsers l s)))"
| "SetManagedUsers D nowSec (HysteriaUsers us) (HysteriaInbound s) = (None, HysteriaInbound (Hysteria_UpdateUsers (passwords us) s))"
| "SetManagedUsers D nowSec (Hysteria2Users us) (Hysteria2Inbound s) = (None, Hysteria2Inbound (Hysteria2_UpdateUsers (passwords us) s))"
| "SetManagedUsers D nowSec (AnyTLSUsers us) (AnyTLSInbound s) = (None, AnyTLSInbound (AnyTLS_UpdateUsers D us s))"
| "SetManagedUsers D nowSec (ShadowsocksUsers us) (SS2022Inbound s) =
     map_prod id SS2022Inbound (SS2022_UpdateUsersWithPasswords D (passwords us) s)"
| "SetManagedUsers D nowSec (ShadowsocksUsers us) (AEADInbound s) =
     map_prod id AEADInbound (AEAD_UpdateUsersWithPasswords D (passwords us) s)"
| "SetManagedUsers D nowSec us inb = (Some type_assertion, inb)"

end
