(* ===== verification/Traffic_Report.thy ===== *)
theory Traffic_Report
  imports Traffic
begin

text \<open>
  The report of a tag's counters that the sing-box and the Hysteria core share (GetUserTrafficSlice in
  runtime/core/sing/user.go and runtime/core/hy2/user.go): the loop over the entries, and what it returns and
  leaves behind.
\<close>

text \<open>One entry of the counters of a tag: below the minimum it is left alone.\<close>

definition traffic_entry ::
  "int \<Rightarrow> (string \<Rightarrow> int) \<Rightarrow> bool \<Rightarrow> string \<times> nat \<Rightarrow> UserTraffic list \<times> TrafficCounter \<Rightarrow> UserTraffic list \<times> TrafficCounter" where
  "traffic_entry least uidOf reset e st =
     (let (uuid, r) = e; (slice, tc) = st; up = st_Up (tc_heap tc ! r); down = st_Down (tc_heap tc ! r)
      in if add64 up down > least then
           (let tc = (if reset then on_storage r (\<lambda>s. s\<lparr>st_Up := 0, st_Down := 0\<rparr>) tc else tc)
            in if uidOf uuid = 0 then (slice, Delete uuid tc)
               else (slice @ [\<lparr>ut_UID = uidOf uuid, ut_Upload = up, ut_Download = down\<rparr>], tc))
         else (slice, tc))"


section \<open>What the loop reports and what it leaves\<close>

text \<open>The counts of an entry exceed the minimum.\<close>

definition counted :: "int \<Rightarrow> TrafficCounter \<Rightarrow> nat \<Rightarrow> bool" where
  "counted least tc r \<longleftrightarrow> add64 (st_Up (tc_heap tc ! r)) (st_Down (tc_heap tc ! r)) > least"

definition report_of :: "(string \<Rightarrow> int) \<Rightarrow> TrafficCounter \<Rightarrow> string \<times> nat \<Rightarrow> UserTraffic" where
  "report_of uidOf tc e = \<lparr>ut_UID = uidOf (fst e), ut_Upload = st_Up (tc_heap tc ! snd e),
     ut_Download = st_Down (tc_heap tc ! snd e)\<rparr>"

lemma on_storage_heap:
  "r < length (tc_heap tc) \<Longrightarrow> tc_heap (on_storage r f tc) ! k = (if k = r then f (tc_heap tc ! r) else tc_heap tc ! k)"
  by (simp add: on_storage_def nth_list_update)

lemma traffic_entry_outcome:
  assumes "r < length (tc_heap tc)"
  shows "fst (traffic_entry least uidOf reset (u, r) (slice, tc)) =
      slice @ (if counted least tc r \<and> uidOf u \<noteq> 0 then [report_of uidOf tc (u, r)] else [])"
    and "tc_Counters (snd (traffic_entry least uidOf reset (u, r) (slice, tc))) =
      (if counted least tc r \<and> uidOf u = 0 then mdel u (tc_Counters tc) else tc_Counters tc)"
    and "length (tc_heap (snd (traffic_entry least uidOf reset (u, r) (slice, tc)))) = length (tc_heap tc)"
    and "tc_heap (snd (traffic_entry least uidOf reset (u, r) (slice, tc))) ! k =
      (if reset \<and> counted least tc r \<and> k = r then TrafficStorage_zero else tc_heap tc ! k)"
  using assms
  by (simp_all add: traffic_entry_def counted_def report_of_def Let_def Delete_def on_storage_heap TrafficStorage_zero_def)

lemma traffic_entries_outcome:
  assumes "list_all (\<lambda>(u, r). r < length (tc_heap tc)) es" and "distinct (map snd es)"
    and "fold (traffic_entry least uidOf reset) es (slice, tc) = (slice', tc')"
  shows "slice' = slice @ map (report_of uidOf tc) (filter (\<lambda>(u, r). counted least tc r \<and> uidOf u \<noteq> 0) es) \<and>
    map_of (tc_Counters tc') v = (if \<exists>(u, r)\<in>set es. u = v \<and> counted least tc r \<and> uidOf u = 0 then None else map_of (tc_Counters tc) v) \<and>
    length (tc_heap tc') = length (tc_heap tc) \<and>
    tc_heap tc' ! k = (if reset \<and> (\<exists>(u, r)\<in>set es. r = k \<and> counted least tc r) then TrafficStorage_zero else tc_heap tc ! k)"
  using assms
proof (induction es arbitrary: slice tc)
  case (Cons e es)
  obtain u r where e: "e = (u, r)" by fastforce
  define st where "st = traffic_entry least uidOf reset (u, r) (slice, tc)"
  from Cons.prems(1) e have r: "r < length (tc_heap tc)" by simp
  note o1 = traffic_entry_outcome [OF r, where least = least and uidOf = uidOf and reset = reset and u = u and slice = slice,
      folded st_def]
  have same: "s \<noteq> r \<Longrightarrow> tc_heap (snd st) ! s = tc_heap tc ! s" for s by (simp add: o1)
  have other: "s \<noteq> r" if "(v, s) \<in> set es" for v s
    using that Cons.prems(2) e by (force simp: image_iff)
  have cs: "counted least (snd st) s \<longleftrightarrow> counted least tc s" "report_of uidOf (snd st) (v, s) = report_of uidOf tc (v, s)"
    if "(v, s) \<in> set es" for v s
    using same [OF other [OF that]] by (simp_all add: counted_def report_of_def)
  have p: "list_all (\<lambda>(u, r). r < length (tc_heap (snd st))) es" "distinct (map snd es)"
    using Cons.prems by (auto simp: o1)
  have f: "fold (traffic_entry least uidOf reset) es (fst st, snd st) = (slice', tc')"
    using Cons.prems(3) by (simp add: e st_def)
  have fl: "filter (\<lambda>(u, r). counted least (snd st) r \<and> uidOf u \<noteq> 0) es = filter (\<lambda>(u, r). counted least tc r \<and> uidOf u \<noteq> 0) es"
    by (rule filter_cong) (auto simp: cs)
  have mp: "map (report_of uidOf (snd st)) (filter (\<lambda>(u, r). counted least tc r \<and> uidOf u \<noteq> 0) es) =
      map (report_of uidOf tc) (filter (\<lambda>(u, r). counted least tc r \<and> uidOf u \<noteq> 0) es)"
    by (rule map_cong) (auto simp: cs)
  have ex: "(\<exists>(u, r)\<in>set es. P u r \<and> counted least (snd st) r \<and> Q u) \<longleftrightarrow> (\<exists>(u, r)\<in>set es. P u r \<and> counted least tc r \<and> Q u)" for P Q
    using cs(1) by blast
  from Cons.IH [OF p f] show ?case
    unfolding fl mp ex [where Q = "\<lambda>u. uidOf u = 0" and P = "\<lambda>u r. u = v"] ex [where Q = "\<lambda>u. True" and P = "\<lambda>u r. r = k", simplified]
    by (auto simp: o1 e)
qed simp

text \<open>The loop over all entries of a well-formed counter object, in terms of the counts of its users.\<close>

lemma traffic_report_outcome:
  assumes "tc_inv tc" and "mwf (tc_Counters tc)"
    and "fold (traffic_entry least uidOf reset) (tc_Counters tc) ([], tc) = (slice, tc')"
  shows "set slice = {\<lparr>ut_UID = uidOf u, ut_Upload = GetUpCount u tc, ut_Download = GetDownCount u tc\<rparr> | u.
        mhas (tc_Counters tc) u \<and> uidOf u \<noteq> 0 \<and> add64 (GetUpCount u tc) (GetDownCount u tc) > least} \<and>
    (GetUpCount u tc', GetDownCount u tc') =
      (if mhas (tc_Counters tc) u \<and> (reset \<or> uidOf u = 0) \<and> add64 (GetUpCount u tc) (GetDownCount u tc) > least
       then (0, 0) else (GetUpCount u tc, GetDownCount u tc))"
proof -
  have mem: "(v, s) \<in> set (tc_Counters tc) \<longleftrightarrow> map_of (tc_Counters tc) v = Some s" for v s
    using assms(2) by (simp add: mwf_def)
  have b: "list_all (\<lambda>(u, r). r < length (tc_heap tc)) (tc_Counters tc)"
    using assms(1) by (auto simp: list_all_iff mem tc_inv_def)
  have inj: "inj_on snd (set (tc_Counters tc))"
    using assms(1) by (auto simp: inj_on_def mem tc_inv_def)
  have d: "distinct (map snd (tc_Counters tc))"
    using assms(2) inj by (simp add: distinct_map mwf_def)
  note out = traffic_entries_outcome [OF b d assms(3)]
  have c: "counted least tc r \<longleftrightarrow> add64 (GetUpCount v tc) (GetDownCount v tc) > least"
    if "map_of (tc_Counters tc) v = Some r" for v r
    using counts_ptr [OF that] by (simp add: counted_def)
  have slice: "slice = map (report_of uidOf tc) (filter (\<lambda>(u, r). counted least tc r \<and> uidOf u \<noteq> 0) (tc_Counters tc))"
    using out by simp
  show ?thesis
  proof
    show "set slice = {\<lparr>ut_UID = uidOf u, ut_Upload = GetUpCount u tc, ut_Download = GetDownCount u tc\<rparr> | u.
        mhas (tc_Counters tc) u \<and> uidOf u \<noteq> 0 \<and> add64 (GetUpCount u tc) (GetDownCount u tc) > least}"
      unfolding slice using c counts_ptr by (fastforce simp: mem mhas_def report_of_def image_iff)
    show "(GetUpCount u tc', GetDownCount u tc') =
      (if mhas (tc_Counters tc) u \<and> (reset \<or> uidOf u = 0) \<and> add64 (GetUpCount u tc) (GetDownCount u tc) > least
       then (0, 0) else (GetUpCount u tc, GetDownCount u tc))"
    proof (cases "map_of (tc_Counters tc) u")
      case None
      with out have "map_of (tc_Counters tc') u = None" by simp
      with None show ?thesis by (simp add: GetUpCount_def GetDownCount_def mhas_def)
    next
      case (Some r)
      have e1: "(\<exists>(w, s)\<in>set (tc_Counters tc). w = u \<and> counted least tc s \<and> uidOf w = 0) \<longleftrightarrow> counted least tc r \<and> uidOf u = 0"
        using Some by (auto simp: mem)
      have e2: "(\<exists>(w, s)\<in>set (tc_Counters tc). s = r \<and> counted least tc s) \<longleftrightarrow> counted least tc r"
        using Some by (auto simp: mem)
      have ptr: "map_of (tc_Counters tc') u = (if counted least tc r \<and> uidOf u = 0 then None else Some r)"
        using out e1 Some by simp
      have hp: "tc_heap tc' ! r = (if reset \<and> counted least tc r then TrafficStorage_zero else tc_heap tc ! r)"
        unfolding conjunct2 [OF conjunct2 [OF conjunct2 [OF out [where k = r]]]] e2 ..
      have up: "GetUpCount u tc' = (if counted least tc r \<and> uidOf u = 0 then 0 else st_Up (tc_heap tc' ! r))"
        and down: "GetDownCount u tc' = (if counted least tc r \<and> uidOf u = 0 then 0 else st_Down (tc_heap tc' ! r))"
        by (simp_all add: GetUpCount_def GetDownCount_def ptr)
      have has: "mhas (tc_Counters tc) u" by (simp add: mhas_def Some)
      show ?thesis
        unfolding up down hp c [OF Some, symmetric] using has counts_ptr [OF Some]
        by (simp add: TrafficStorage_zero_def)
    qed
  qed
qed

section \<open>Well-formed counter objects\<close>

definition tc_ok :: "TrafficCounter \<Rightarrow> bool" where
  "tc_ok c \<longleftrightarrow> tc_inv c \<and> mwf (tc_Counters c)"

lemma tc_ok_new [simp]: "tc_ok NewTrafficCounter"
  by (simp add: tc_ok_def) (simp add: NewTrafficCounter_def)

lemma tc_ok_on_storage [simp]: "tc_ok (on_storage r f c) = tc_ok c"
  by (simp add: tc_ok_def)

lemma tc_ok_GetCounter: "tc_ok c \<Longrightarrow> tc_ok (snd (GetCounter u c))"
  by (simp add: tc_ok_def tc_inv_GetCounter) (auto simp: GetCounter_def Let_def split: option.splits)

lemma tc_ok_Delete: "tc_ok c \<Longrightarrow> tc_ok (Delete u c)"
  by (simp add: tc_ok_def tc_inv_Delete) (simp add: Delete_def)

lemma tc_ok_entry: "tc_ok c \<Longrightarrow> tc_ok (snd (traffic_entry least uidOf reset e (slice, c)))"
  by (cases e) (simp add: traffic_entry_def Let_def tc_ok_Delete)

lemma tc_ok_entries: "tc_ok (snd st) \<Longrightarrow> tc_ok (snd (fold (traffic_entry least uidOf reset) es st))"
proof (induction es arbitrary: st)
  case (Cons e es)
  have "tc_ok (snd (traffic_entry least uidOf reset e st))"
    using tc_ok_entry [of "snd st" least uidOf reset e "fst st"] Cons.prems by simp
  from Cons.IH [OF this] show ?case by simp
qed simp

end
