(* ===== verification/Sing_Core.thy ===== *)
theory Sing_Core
  imports Sing_Options Sing_Auth Limiter Traffic_Report
begin

text \<open>
  The sing-box core (runtime/core/sing: sing.go, node.go, user.go, hook.go, connections.go): the snapshots of
  managed users behind the inbounds' authentication tables, and the connection tracker that admits,
  counts and cuts connections.  A panic ends the process; it is an error that leaves the state alone.
\<close>

section \<open>The connection tracker\<close>

text \<open>
  Connections and the wrappers that track them share their number.  \<open>hk_closed\<close> records the connections
  that were closed; the counters of the tags live in a heap.
\<close>

record HookServer =
  hk_activeUsers :: "(string, bool) gomap"
  hk_managedNodes :: "(string, bool) gomap"
  hk_connections :: "(nat, string) gomap"
  hk_counter :: "(string, nat) gomap"
  hk_counters :: "TrafficCounter list"
  hk_closed :: "nat set"

definition NewHookServer :: HookServer where
  "NewHookServer = \<lparr>hk_activeUsers = [], hk_managedNodes = [], hk_connections = [], hk_counter = [],
     hk_counters = [], hk_closed = {}\<rparr>"

definition userKey :: "string \<Rightarrow> string \<Rightarrow> string" where
  "userKey tag user = tag @ [CHR 0x00] @ user"

definition allowed :: "string \<Rightarrow> string \<Rightarrow> HookServer \<Rightarrow> bool" where
  "allowed tag user h = (if \<not> mhas (hk_managedNodes h) tag then True else mhas (hk_activeUsers h) (userKey tag user))"

definition closeConn :: "nat \<Rightarrow> HookServer \<Rightarrow> HookServer" where
  "closeConn i h = h\<lparr>hk_closed := insert i (hk_closed h)\<rparr>"

text \<open>\<open>trackedConnection.Close\<close>: the once-only body, and what a second call does.\<close>

definition trackedConnection_Close :: "nat \<Rightarrow> HookServer \<Rightarrow> HookServer" where
  "trackedConnection_Close i h =
     (if i \<in> hk_closed h then h else closeConn i (h\<lparr>hk_connections := mdel i (hk_connections h)\<rparr>))"

definition trackedPacketConnection_Close :: "nat \<Rightarrow> HookServer \<Rightarrow> HookServer" where
  "trackedPacketConnection_Close i h = closeConn i (h\<lparr>hk_connections := mdel i (hk_connections h)\<rparr>)"

text \<open>Reading and writing after the close fails.\<close>

definition trackedConnection_IO :: "nat \<Rightarrow> (HookServer \<Rightarrow> nat res \<times> HookServer) \<Rightarrow> HookServer \<Rightarrow> nat res \<times> HookServer" where
  "trackedConnection_IO i io h =
     (if i \<in> hk_closed h then (Inl ''use of closed network connection'', h) else io h)"

fun close_matching :: "string \<Rightarrow> (nat \<times> string) list \<Rightarrow> HookServer \<Rightarrow> HookServer" where
  "close_matching key [] h = h"
| "close_matching key ((conn, identity) # cs) h =
     close_matching key cs (if identity = key then trackedConnection_Close conn h else h)"

definition HookServer_revoke :: "string \<Rightarrow> string \<Rightarrow> HookServer \<Rightarrow> HookServer" where
  "HookServer_revoke tag user h =
     (let key = userKey tag user; h1 = h\<lparr>hk_activeUsers := mdel key (hk_activeUsers h)\<rparr>
      in close_matching key (hk_connections h1) h1)"

definition store_connection :: "nat \<Rightarrow> string \<Rightarrow> HookServer \<Rightarrow> HookServer" where
  "store_connection i key h = h\<lparr>hk_connections := mput i key (hk_connections h)\<rparr>"

text \<open>The counter object of a tag, made when missing, and the user's cell in it.\<close>

definition hook_counter :: "string \<Rightarrow> HookServer \<Rightarrow> nat \<times> HookServer" where
  "hook_counter tag h = (case map_of (hk_counter h) tag of
     Some c \<Rightarrow> (c, h)
   | None \<Rightarrow> (let c = length (hk_counters h)
       in (c, h\<lparr>hk_counter := mput tag c (hk_counter h), hk_counters := hk_counters h @ [NewTrafficCounter]\<rparr>)))"

definition on_counter :: "nat \<Rightarrow> (TrafficCounter \<Rightarrow> TrafficCounter) \<Rightarrow> HookServer \<Rightarrow> HookServer" where
  "on_counter c f h = h\<lparr>hk_counters := (hk_counters h)[c := f (hk_counters h ! c)]\<rparr>"

definition user_cell :: "string \<Rightarrow> string \<Rightarrow> HookServer \<Rightarrow> (nat \<times> nat) \<times> HookServer" where
  "user_cell tag user h =
     (let (c, h1) = hook_counter tag h
      in ((c, fst (GetCounter user (hk_counters h1 ! c))), on_counter c (\<lambda>tc. snd (GetCounter user tc)) h1))"

section \<open>Routed connections\<close>

text \<open>What sing-box knows of a connection; \<open>ic_Network\<close> is \<open>Destination.Network()\<close>.\<close>

record InboundContext =
  ic_Inbound :: string
  ic_User :: string
  ic_Source :: string
  ic_Destination :: string
  ic_Network :: string
  ic_Protocol :: string

text \<open>The connection handed back: closed at once, passed on as it came, or tracked with its counter cell
  and the bucket that limits it.\<close>

datatype routed = Refused | Untracked | Tracked nat nat "Bucket option"

definition rules_block :: "('rx \<Rightarrow> string \<Rightarrow> bool) \<Rightarrow> 'rx Limiter \<Rightarrow> string \<Rightarrow> string \<Rightarrow> bool" where
  "rules_block matches l dest protocol \<longleftrightarrow>
     (if CheckDomainRule matches l dest then True else protocol \<noteq> [] \<and> CheckProtocolRule l protocol)"

text \<open>The part the two kinds share: the limiter and its verdict.\<close>

definition limit_connection ::
  "('rx \<Rightarrow> string \<Rightarrow> bool) \<Rightarrow> int \<Rightarrow> bool \<Rightarrow> string \<Rightarrow> InboundContext \<Rightarrow> nat \<Rightarrow> 'rx limiters \<Rightarrow> (Bucket option \<times> bool) \<times> 'rx limiters" where
  "limit_connection matches now tcp protocol m r w =
     (let v = CheckLimit now (UserTag (ic_Inbound m) (ic_User m)) (ic_Source m) tcp tcp (deref w r);
          w1 = update_ref r (\<lambda>_. snd v) w
      in if snd (fst v) then ((None, True), w1)
         else ((fst (fst v), rules_block matches (deref w1 r) (ic_Destination m) protocol), w1))"

definition track :: "nat \<Rightarrow> InboundContext \<Rightarrow> Bucket option \<Rightarrow> HookServer \<Rightarrow> routed \<times> HookServer" where
  "track i m b h =
     (let ((c, u), h1) = user_cell (ic_Inbound m) (ic_User m) h
      in (Tracked c u b, store_connection i (userKey (ic_Inbound m) (ic_User m)) h1))"

definition RoutedConnection ::
  "('rx \<Rightarrow> string \<Rightarrow> bool) \<Rightarrow> int \<Rightarrow> nat \<Rightarrow> InboundContext \<Rightarrow> HookServer \<Rightarrow> 'rx limiters \<Rightarrow> routed \<times> HookServer \<times> 'rx limiters" where
  "RoutedConnection matches now i m h w =
     (if \<not> allowed (ic_Inbound m) (ic_User m) h then (Refused, closeConn i h, w)
      else (case GetLimiter (ic_Inbound m) w of
          Inl e \<Rightarrow> (Untracked, h, w)
        | Inr r \<Rightarrow> (case limit_connection matches now True (ic_Protocol m) m r w of
            ((b, True), w) \<Rightarrow> (Refused, closeConn i h, w)
          | ((b, False), w) \<Rightarrow>
              (let (t, h) = track i m b h
               in (t, if allowed (ic_Inbound m) (ic_User m) h then h else trackedConnection_Close i h, w)))))"

text \<open>For packets the limiter counts no device, the bucket is not used, and the protocol that the rules
  see is the network of the destination.\<close>

definition RoutedPacketConnection ::
  "('rx \<Rightarrow> string \<Rightarrow> bool) \<Rightarrow> int \<Rightarrow> nat \<Rightarrow> InboundContext \<Rightarrow> HookServer \<Rightarrow> 'rx limiters \<Rightarrow> routed \<times> HookServer \<times> 'rx limiters" where
  "RoutedPacketConnection matches now i m h w =
     (if \<not> allowed (ic_Inbound m) (ic_User m) h then (Refused, closeConn i h, w)
      else (case GetLimiter (ic_Inbound m) w of
          Inl e \<Rightarrow> (Untracked, h, w)
        | Inr r \<Rightarrow> (case limit_connection matches now False (ic_Network m) m r w of
            ((b, True), w) \<Rightarrow> (Refused, closeConn i h, w)
          | ((b, False), w) \<Rightarrow>
              (let (t, h) = track i m None h
               in (t, if allowed (ic_Inbound m) (ic_User m) h then h else trackedPacketConnection_Close i h, w)))))"

section \<open>The core\<close>

text \<open>
  The library: the manager of the inbounds and the box around it, over a state \<open>'x\<close>.  The inbound found
  under a tag is a pointer; its tables are read with \<open>sb_Get\<close> and written with \<open>sb_Put\<close>.
\<close>

record 'x sing_lib =
  sb_Start :: "'x \<Rightarrow> err option \<times> 'x"
  sb_Close :: "'x \<Rightarrow> err option \<times> 'x"
  sb_Create :: "string \<Rightarrow> SingInboundOptions \<Rightarrow> 'x \<Rightarrow> err option \<times> 'x"
  sb_Remove :: "string \<Rightarrow> 'x \<Rightarrow> err option \<times> 'x"
  sb_Get :: "string \<Rightarrow> 'x \<Rightarrow> SingInbound option"
  sb_Put :: "string \<Rightarrow> SingInbound \<Rightarrow> 'x \<Rightarrow> 'x"
  sb_decoders :: sing_decoders
  sb_digests :: digests
  sb_now :: int

record AddUsersParams =
  ap_Tag :: string
  ap_Users :: "UserInfo list"
  ap_NodeInfo :: NodeInfo

record 'x Sing =
  sg_managedUsers :: "(string, (string, UserInfo) gomap) gomap"
  sg_managedParams :: "(string, AddUsersParams) gomap"
  sg_box :: 'x
  sg_hookServer :: HookServer
  sg_uidMap :: "(string, int) gomap"
  sg_nodeReportMinTrafficBytes :: "(string, int) gomap"

definition on_hook :: "(HookServer \<Rightarrow> HookServer) \<Rightarrow> 'x Sing \<Rightarrow> 'x Sing" where
  "on_hook f b = b\<lparr>sg_hookServer := f (sg_hookServer b)\<rparr>"

definition on_box :: "('x \<Rightarrow> err option \<times> 'x) \<Rightarrow> 'x Sing \<Rightarrow> err option \<times> 'x Sing" where
  "on_box f b = (case f (sg_box b) of (r, x) \<Rightarrow> (r, b\<lparr>sg_box := x\<rparr>))"

definition Sing_Start :: "'x sing_lib \<Rightarrow> 'x Sing \<Rightarrow> err option \<times> 'x Sing" where
  "Sing_Start L b = on_box (sb_Start L) b"

definition Sing_Close :: "'x sing_lib \<Rightarrow> 'x Sing \<Rightarrow> err option \<times> 'x Sing" where
  "Sing_Close L b = on_box (sb_Close L) b"

definition Sing_Protocols :: "string list" where
  "Sing_Protocols = [''vmess'', ''vless'', ''shadowsocks'', ''trojan'', ''tuic'', ''anytls'', ''hysteria'', ''hysteria2'']"

section \<open>Users\<close>

text \<open>Insertion by the order of bytes, as \<open>sort.Strings\<close> leaves distinct keys.\<close>

fun str_le :: "string \<Rightarrow> string \<Rightarrow> bool" where
  "str_le [] t \<longleftrightarrow> True"
| "str_le (x # s) [] \<longleftrightarrow> False"
| "str_le (x # s) (y # t) \<longleftrightarrow> (of_char x :: nat) < of_char y \<or> x = y \<and> str_le s t"

fun insert_key :: "string \<Rightarrow> string list \<Rightarrow> string list" where
  "insert_key k [] = [k]"
| "insert_key k (x # xs) = (if str_le k x then k # x # xs else x # insert_key k xs)"

definition sort_Strings :: "string list \<Rightarrow> string list" where
  "sort_Strings keys = foldr insert_key keys []"

definition UserInfo_zero :: UserInfo where
  "UserInfo_zero = \<lparr>ui_Id = 0, ui_Uuid = [], ui_SpeedLimit = 0, ui_DeviceLimit = 0\<rparr>"

definition sortedUsers :: "(string, UserInfo) gomap \<Rightarrow> UserInfo list" where
  "sortedUsers users = map (mget_or UserInfo_zero users) (sort_Strings (map fst users))"

text \<open>The keys of Shadowsocks users: a prefix of the uuid for two of the 2022 ciphers.\<close>

definition ss_password :: "string \<Rightarrow> string \<Rightarrow> string res" where
  "ss_password cipher uuid =
     (if length uuid < 32 \<and> HasPrefix cipher ''2022-'' then Inl ''invalid Shadowsocks 2022 user key''
      else if cipher = ''2022-blake3-aes-128-gcm'' then Inr (StdEncoding (take 16 uuid))
      else if cipher = ''2022-blake3-aes-256-gcm'' then Inr (StdEncoding (take 32 uuid))
      else Inr uuid)"

fun ss_users :: "string \<Rightarrow> string list \<Rightarrow> PasswordUser list res" where
  "ss_users cipher [] = Inr []"
| "ss_users cipher (u # us) = (case ss_password cipher u of
     Inl e \<Rightarrow> Inl e
   | Inr p \<Rightarrow> (case ss_users cipher us of Inl e \<Rightarrow> Inl e | Inr l \<Rightarrow> Inr (\<lparr>pw_Name = u, pw_Password = p\<rparr> # l)))"

definition password_users :: "string list \<Rightarrow> PasswordUser list" where
  "password_users us = map (\<lambda>u. \<lparr>pw_Name = u, pw_Password = u\<rparr>) us"

text \<open>The users in the form of the protocol; reading a field of a missing description panics.\<close>

datatype 'a call = Panic err | Return 'a

definition managed_users :: "NodeInfo \<Rightarrow> string list \<Rightarrow> ManagedUsers option res call" where
  "managed_users n us =
     (let t = ni_Type n
      in if t = ''vless'' then
           (if us = [] then Return (Inr (Some (VLESSUsers [])))
            else (case ni_VAllss n of
                None \<Rightarrow> Panic nil_pointer
              | Some v \<Rightarrow> Return (Inr (Some (VLESSUsers (map (\<lambda>u. \<lparr>vl_Name = u, vl_UUID = u, vl_Flow = va_Flow v\<rparr>) us))))))
         else if t = ''vmess'' then
           Return (Inr (Some (VMessUsers (map (\<lambda>u. \<lparr>vm_Name = u, vm_UUID = u, vm_AlterId = 0\<rparr>) us))))
         else if t = ''shadowsocks'' then
           (if us = [] then Return (Inr (Some (ShadowsocksUsers [])))
            else (case ni_Shadowsocks n of
                None \<Rightarrow> Panic nil_pointer
              | Some v \<Rightarrow> Return (map_sum id (\<lambda>l. Some (ShadowsocksUsers l)) (ss_users (ss_Cipher v) us))))
         else if t = ''trojan'' then Return (Inr (Some (TrojanUsers (password_users us))))
         else if t = ''tuic'' then
           Return (Inr (Some (TUICUsers (map (\<lambda>u. \<lparr>tq_Name = u, tq_UUID = u, tq_Password = u\<rparr>) us))))
         else if t = ''hysteria'' then Return (Inr (Some (HysteriaUsers (password_users us))))
         else if t = ''hysteria2'' then Return (Inr (Some (Hysteria2Users (password_users us))))
         else if t = ''anytls'' then Return (Inr (Some (AnyTLSUsers (password_users us))))
         else Return (Inr None))"

text \<open>A protocol that is none of the eight changes nothing and is no error.\<close>

definition setUsers :: "'x sing_lib \<Rightarrow> AddUsersParams \<Rightarrow> 'x \<Rightarrow> (err option \<times> 'x) call" where
  "setUsers L p x = (case sb_Get L (ap_Tag p) x of
     None \<Rightarrow> Return (Some ''inbound not found'', x)
   | Some inb \<Rightarrow> (case managed_users (ap_NodeInfo p) (map ui_Uuid (ap_Users p)) of
       Panic e \<Rightarrow> Panic e
     | Return (Inl e) \<Rightarrow> Return (Some e, x)
     | Return (Inr None) \<Rightarrow> Return (None, x)
     | Return (Inr (Some us)) \<Rightarrow>
         (if \<not> fits us inb then Panic type_assertion
          else (case SetManagedUsers (sb_digests L) (sb_now L) us inb of
            (r, inb') \<Rightarrow> Return (r, sb_Put L (ap_Tag p) inb' x)))))"

definition activate :: "string \<Rightarrow> UserInfo list \<Rightarrow> HookServer \<Rightarrow> HookServer" where
  "activate tag us h = h\<lparr>hk_activeUsers := fold (\<lambda>u. mput (userKey tag (ui_Uuid u)) True) us (hk_activeUsers h)\<rparr>"

text \<open>After a failure the users that were not managed before are revoked.\<close>

definition revoke_new :: "string \<Rightarrow> (string, UserInfo) gomap \<Rightarrow> (string, UserInfo) gomap \<Rightarrow> HookServer \<Rightarrow> HookServer" where
  "revoke_new tag old users h = fold (\<lambda>(uuid, u) h. if mhas old uuid then h else HookServer_revoke tag uuid h) users h"

definition Sing_AddUsers :: "'x sing_lib \<Rightarrow> AddUsersParams \<Rightarrow> 'x Sing \<Rightarrow> int res \<times> 'x Sing" where
  "Sing_AddUsers L p b =
     (let tag = ap_Tag p; old = mget_or [] (sg_managedUsers b) tag;
          users = fold (\<lambda>u. mput (ui_Uuid u) u) (ap_Users p) old;
          copyParams = p\<lparr>ap_Users := sortedUsers users\<rparr>;
          b1 = on_hook (activate tag (ap_Users copyParams)) b
      in case setUsers L copyParams (sg_box b1) of
           Panic e \<Rightarrow> (Inl e, b)
         | Return (Some e, x) \<Rightarrow> (Inl e, on_hook (revoke_new tag old users) (b1\<lparr>sg_box := x\<rparr>))
         | Return (None, x) \<Rightarrow>
             (Inr (int (length (ap_Users p))),
              b1\<lparr>sg_box := x, sg_managedUsers := mput tag users (sg_managedUsers b1),
                sg_managedParams := mput tag copyParams (sg_managedParams b1),
                sg_uidMap := fold (\<lambda>u. mput (userKey tag (ui_Uuid u)) (ui_Id u)) (ap_Users copyParams) (sg_uidMap b1)\<rparr>))"

definition delete_counts :: "string \<Rightarrow> string \<Rightarrow> HookServer \<Rightarrow> HookServer" where
  "delete_counts tag uuid h = (case map_of (hk_counter h) tag of
     Some c \<Rightarrow> on_counter c (Delete uuid) h | None \<Rightarrow> h)"

definition Sing_DelUsers :: "'x sing_lib \<Rightarrow> UserInfo list \<Rightarrow> string \<Rightarrow> 'x Sing \<Rightarrow> err option \<times> 'x Sing" where
  "Sing_DelUsers L users tag b = (case map_of (sg_managedParams b) tag of
     None \<Rightarrow> (Some ''inbound user state not found'', b)
   | Some params0 \<Rightarrow>
       (let remaining = fold (\<lambda>u. mdel (ui_Uuid u)) users (mget_or [] (sg_managedUsers b) tag);
            params = params0\<lparr>ap_Users := sortedUsers remaining\<rparr>
        in case setUsers L params (sg_box b) of
             Panic e \<Rightarrow> (Some e, b)
           | Return (Some e, x) \<Rightarrow> (Some e, b\<lparr>sg_box := x\<rparr>)
           | Return (None, x) \<Rightarrow>
               (None, fold (\<lambda>u b. (on_hook (\<lambda>h. delete_counts tag (ui_Uuid u) (HookServer_revoke tag (ui_Uuid u) h)) b)
                     \<lparr>sg_uidMap := mdel (userKey tag (ui_Uuid u)) (sg_uidMap b)\<rparr>) users
                  (b\<lparr>sg_box := x, sg_managedUsers := mput tag remaining (sg_managedUsers b),
                    sg_managedParams := mput tag params (sg_managedParams b)\<rparr>))))"

section \<open>Nodes\<close>

definition Sing_AddNode :: "'x sing_lib \<Rightarrow> string \<Rightarrow> NodeInfo \<Rightarrow> Options \<Rightarrow> 'x Sing \<Rightarrow> err option \<times> 'x Sing" where
  "Sing_AddNode L tag info config b =
     (let b1 = (on_hook (\<lambda>h. h\<lparr>hk_managedNodes := mput tag True (hk_managedNodes h)\<rparr>) b)
            \<lparr>sg_nodeReportMinTrafficBytes := mput tag (mul64 (op_ReportMinTraffic config) 1024) (sg_nodeReportMinTrafficBytes b)\<rparr>
      in case getInboundOptions (sb_decoders L) tag info config of
           Inl e \<Rightarrow> (Some e, b1)
         | Inr c \<Rightarrow> (case sb_Create L tag c (sg_box b1) of
             (Some e, x) \<Rightarrow> (Some (''add inbound error: '' @ e), b1\<lparr>sg_box := x\<rparr>)
           | (None, x) \<Rightarrow> (None, b1\<lparr>sg_box := x\<rparr>)))"

definition Sing_DelNode :: "'x sing_lib \<Rightarrow> string \<Rightarrow> 'x Sing \<Rightarrow> err option \<times> 'x Sing" where
  "Sing_DelNode L tag b =
     (let revoked = fold (\<lambda>(uuid, u). HookServer_revoke tag uuid) (mget_or [] (sg_managedUsers b) tag) (sg_hookServer b);
          b1 = b\<lparr>sg_hookServer := revoked\<lparr>hk_counter := mdel tag (hk_counter revoked)\<rparr>,
                 sg_managedUsers := mdel tag (sg_managedUsers b), sg_managedParams := mdel tag (sg_managedParams b),
                 sg_nodeReportMinTrafficBytes := mdel tag (sg_nodeReportMinTrafficBytes b),
                 sg_uidMap := filter (\<lambda>(key, uid). \<not> HasPrefix key (tag @ [CHR 0x00])) (sg_uidMap b)\<rparr>
      in case sb_Remove L tag (sg_box b1) of
           (Some e, x) \<Rightarrow> (Some (''delete inbound error: '' @ e), b1\<lparr>sg_box := x\<rparr>)
         | (None, x) \<Rightarrow> (None, b1\<lparr>sg_box := x\<rparr>))"

section \<open>Traffic\<close>

definition Sing_GetUserTraffic :: "string \<Rightarrow> string \<Rightarrow> bool \<Rightarrow> 'x Sing \<Rightarrow> (int \<times> int) \<times> 'x Sing" where
  "Sing_GetUserTraffic tag uuid reset b = (case map_of (hk_counter (sg_hookServer b)) tag of
     None \<Rightarrow> ((0, 0), b)
   | Some c \<Rightarrow>
       (let tc = hk_counters (sg_hookServer b) ! c
        in ((GetUpCount uuid tc, GetDownCount uuid tc), if reset then on_hook (on_counter c (Reset uuid)) b else b)))"

definition Sing_GetUserTrafficSlice :: "string \<Rightarrow> bool \<Rightarrow> 'x Sing \<Rightarrow> UserTraffic list res \<times> 'x Sing" where
  "Sing_GetUserTrafficSlice tag reset b = (case map_of (hk_counter (sg_hookServer b)) tag of
     None \<Rightarrow> (Inr [], b)
   | Some c \<Rightarrow>
       (let tc = hk_counters (sg_hookServer b) ! c;
            (slice, tc') = fold (traffic_entry (mget_or 0 (sg_nodeReportMinTrafficBytes b) tag)
              (\<lambda>uuid. mget_or 0 (sg_uidMap b) (userKey tag uuid)) reset) (tc_Counters tc) ([], tc)
        in (Inr slice, on_hook (on_counter c (\<lambda>_. tc')) b)))"

section \<open>Construction\<close>

definition New_Sing :: "'x \<Rightarrow> 'x Sing" where
  "New_Sing x = \<lparr>sg_managedUsers = [], sg_managedParams = [], sg_box = x, sg_hookServer = NewHookServer,
     sg_uidMap = [], sg_nodeReportMinTrafficBytes = []\<rparr>"

definition sing_core :: "'x sing_lib \<Rightarrow> 'x Sing Core" where
  "sing_core L = \<lparr>c_Start = Sing_Start L, c_Close = Sing_Close L,
     c_AddNode = (\<lambda>tag n o1 s. case Sing_AddNode L tag n o1 s of (r, s') \<Rightarrow> (r, o1, s')),
     c_DelNode = Sing_DelNode L,
     c_AddUsers = (\<lambda>tag us n s. Sing_AddUsers L \<lparr>ap_Tag = tag, ap_Users = us, ap_NodeInfo = n\<rparr> s),
     c_GetUserTrafficSlice = Sing_GetUserTrafficSlice,
     c_DelUsers = (\<lambda>us tag n s. Sing_DelUsers L us tag s),
     c_Protocols = (\<lambda>s. Sing_Protocols), c_Type = (\<lambda>s. ''sing''),
     c_ValidateNode = Some (\<lambda>tag n o1 s. Sing_ValidateNode (sb_decoders L) tag n o1),
     c_SnapshotNodeState = None\<rparr>"

end
