(* ===== verification/Sing_Contract.thy ===== *)
theory Sing_Contract
  imports Sing_Core
begin

text \<open>
  The sing-box core keeps the contract of a core, and the snapshots of managed users, the users the tracker
  admits and the tables of users and traffic stay in step under every sequence of its operations.
\<close>

section \<open>What the tracker's operations change\<close>

named_theorems hook_simps "fields of the tracker after an operation"

lemma closeConn_simps [hook_simps]:
  "hk_activeUsers (closeConn i h) = hk_activeUsers h" "hk_managedNodes (closeConn i h) = hk_managedNodes h"
  "hk_connections (closeConn i h) = hk_connections h" "hk_counter (closeConn i h) = hk_counter h"
  "hk_counters (closeConn i h) = hk_counters h" "hk_closed (closeConn i h) = insert i (hk_closed h)"
  by (simp_all add: closeConn_def)

lemma tracked_close_simps [hook_simps]:
  "hk_activeUsers (trackedConnection_Close i h) = hk_activeUsers h"
  "hk_managedNodes (trackedConnection_Close i h) = hk_managedNodes h"
  "hk_counter (trackedConnection_Close i h) = hk_counter h"
  "hk_counters (trackedConnection_Close i h) = hk_counters h"
  "hk_closed (trackedConnection_Close i h) = insert i (hk_closed h)"
  "hk_activeUsers (trackedPacketConnection_Close i h) = hk_activeUsers h"
  "hk_managedNodes (trackedPacketConnection_Close i h) = hk_managedNodes h"
  "hk_counter (trackedPacketConnection_Close i h) = hk_counter h"
  "hk_counters (trackedPacketConnection_Close i h) = hk_counters h"
  by (auto simp: trackedConnection_Close_def trackedPacketConnection_Close_def closeConn_def)

lemma close_matching_simps [hook_simps]:
  "hk_activeUsers (close_matching k cs h) = hk_activeUsers h"
  "hk_managedNodes (close_matching k cs h) = hk_managedNodes h"
  "hk_counter (close_matching k cs h) = hk_counter h"
  "hk_counters (close_matching k cs h) = hk_counters h"
  by (induction k cs h rule: close_matching.induct) (simp_all add: hook_simps)

lemma HookServer_revoke_simps [hook_simps]:
  "hk_activeUsers (HookServer_revoke tag u h) = mdel (userKey tag u) (hk_activeUsers h)"
  "hk_managedNodes (HookServer_revoke tag u h) = hk_managedNodes h"
  "hk_counter (HookServer_revoke tag u h) = hk_counter h"
  "hk_counters (HookServer_revoke tag u h) = hk_counters h"
  by (simp_all add: HookServer_revoke_def Let_def hook_simps)

lemma on_counter_simps [hook_simps]:
  "hk_activeUsers (on_counter c f h) = hk_activeUsers h" "hk_managedNodes (on_counter c f h) = hk_managedNodes h"
  "hk_connections (on_counter c f h) = hk_connections h" "hk_counter (on_counter c f h) = hk_counter h"
  "hk_closed (on_counter c f h) = hk_closed h"
  by (simp_all add: on_counter_def)

lemma delete_counts_simps [hook_simps]:
  "hk_activeUsers (delete_counts tag u h) = hk_activeUsers h"
  "hk_managedNodes (delete_counts tag u h) = hk_managedNodes h"
  "hk_connections (delete_counts tag u h) = hk_connections h"
  "hk_closed (delete_counts tag u h) = hk_closed h"
  by (simp_all add: delete_counts_def hook_simps split: option.split)

lemma track_simps [hook_simps]:
  "hk_activeUsers (snd (track i m b h)) = hk_activeUsers h"
  "hk_managedNodes (snd (track i m b h)) = hk_managedNodes h"
  "hk_connections (snd (track i m b h)) = mput i (userKey (ic_Inbound m) (ic_User m)) (hk_connections h)"
  "hk_closed (snd (track i m b h)) = hk_closed h"
  by (simp_all add: track_def user_cell_def hook_counter_def store_connection_def on_counter_def Let_def split_def
      split: option.split)

lemma activate_simps [hook_simps]:
  "hk_managedNodes (activate tag us h) = hk_managedNodes h"
  "mhas (hk_activeUsers (activate tag us h)) k \<longleftrightarrow> k \<in> userKey tag ` uuids us \<or> mhas (hk_activeUsers h) k"
proof -
  have "mhas (fold (\<lambda>u. mput (userKey tag (ui_Uuid u)) True) us m) k \<longleftrightarrow> k \<in> userKey tag ` uuids us \<or> mhas m k" for m
    by (induction us arbitrary: m) auto
  then show "mhas (hk_activeUsers (activate tag us h)) k \<longleftrightarrow> k \<in> userKey tag ` uuids us \<or> mhas (hk_activeUsers h) k"
    by (simp add: activate_def)
qed (simp add: activate_def)

lemma fold_revoke_simps [hook_simps]:
  "hk_managedNodes (fold (\<lambda>(uuid, u). HookServer_revoke tag uuid) l h) = hk_managedNodes h"
  "hk_counter (fold (\<lambda>(uuid, u). HookServer_revoke tag uuid) l h) = hk_counter h"
  "hk_counters (fold (\<lambda>(uuid, u). HookServer_revoke tag uuid) l h) = hk_counters h"
  "mhas (hk_activeUsers (fold (\<lambda>(uuid, u). HookServer_revoke tag uuid) l h)) k \<longleftrightarrow>
     k \<notin> userKey tag ` fst ` set l \<and> mhas (hk_activeUsers h) k"
  by (induction l arbitrary: h) (auto simp: hook_simps)

lemma revoke_new_simps [hook_simps]:
  "hk_managedNodes (revoke_new tag old l h) = hk_managedNodes h"
  "mhas (hk_activeUsers (revoke_new tag old l h)) k \<longleftrightarrow>
     k \<notin> userKey tag ` (fst ` set l - {u. mhas old u}) \<and> mhas (hk_activeUsers h) k"
proof -
  show "hk_managedNodes (revoke_new tag old l h) = hk_managedNodes h"
    unfolding revoke_new_def by (induction l arbitrary: h) (auto simp: hook_simps)
  have s: "revoke_new tag old (p # l) h = revoke_new tag old l (if mhas old (fst p) then h else HookServer_revoke tag (fst p) h)" for p l h
    by (simp add: revoke_new_def split_def)
  show "mhas (hk_activeUsers (revoke_new tag old l h)) k \<longleftrightarrow>
     k \<notin> userKey tag ` (fst ` set l - {u. mhas old u}) \<and> mhas (hk_activeUsers h) k"
  proof (induction l arbitrary: h)
    case Nil
    then show ?case by (simp add: revoke_new_def)
  next
    case (Cons p l)
    show ?case unfolding s Cons.IH by (auto simp: hook_simps)
  qed
qed

section \<open>The tables of users\<close>

lemma fold_mput_users: "mhas (fold (\<lambda>u. mput (ui_Uuid u) u) us m) k \<longleftrightarrow> k \<in> uuids us \<or> mhas m k"
  by (induction us arbitrary: m) auto

lemma fold_mdel_users: "mhas (fold (\<lambda>u. mdel (ui_Uuid u)) us m) k \<longleftrightarrow> k \<notin> uuids us \<and> mhas m k"
  by (induction us arbitrary: m) auto

text \<open>A table of users by uuid.\<close>

definition uuid_keyed :: "(string, UserInfo) gomap \<Rightarrow> bool" where
  "uuid_keyed m \<longleftrightarrow> (\<forall>k u. map_of m k = Some u \<longrightarrow> ui_Uuid u = k)"

lemma keyed_Nil [simp]: "uuid_keyed []"
  by (simp add: uuid_keyed_def)

lemma keyed_mput [simp]: "uuid_keyed m \<Longrightarrow> uuid_keyed (mput (ui_Uuid u) u m)"
  by (simp add: uuid_keyed_def)

lemma keyed_mdel [simp]: "uuid_keyed m \<Longrightarrow> uuid_keyed (mdel k m)"
  by (simp add: uuid_keyed_def)

lemma keyed_fold_mput: "uuid_keyed m \<Longrightarrow> uuid_keyed (fold (\<lambda>u. mput (ui_Uuid u) u) us m)"
  by (induction us arbitrary: m) simp_all

lemma keyed_fold_mdel: "uuid_keyed m \<Longrightarrow> uuid_keyed (fold (\<lambda>u. mdel (ui_Uuid u)) us m)"
  by (induction us arbitrary: m) simp_all

lemma set_insert_key: "set (insert_key k xs) = insert k (set xs)"
  by (induction xs) auto

lemma set_sort_Strings: "set (sort_Strings ks) = set ks"
  by (induction ks) (auto simp: sort_Strings_def set_insert_key)

lemma uuids_sortedUsers: "uuid_keyed m \<Longrightarrow> uuids (sortedUsers m) = {k. mhas m k}"
proof -
  assume k: "uuid_keyed m"
  have "ui_Uuid (mget_or UserInfo_zero m x) = x" if "mhas m x" for x
    using k that by (auto simp: uuid_keyed_def mget_or_def mhas_def)
  moreover have "x \<in> set (sort_Strings (map fst m)) \<longleftrightarrow> mhas m x" for x
    by (simp add: set_sort_Strings mhas_set)
  ultimately show ?thesis by (force simp: uuids_def sortedUsers_def)
qed

lemma sortedUsers_lookup: "uuid_keyed m \<Longrightarrow> u \<in> set (sortedUsers m) \<Longrightarrow> map_of m (ui_Uuid u) = Some u"
proof -
  assume k: "uuid_keyed m" and "u \<in> set (sortedUsers m)"
  then obtain x where x: "mhas m x" "u = mget_or UserInfo_zero m x"
    by (auto simp: sortedUsers_def set_sort_Strings mhas_set)
  then obtain w where w: "map_of m x = Some w" by (auto simp: mhas_def)
  with k have "ui_Uuid w = x" by (simp add: uuid_keyed_def)
  with x w show ?thesis by (simp add: mget_or_def)
qed

section \<open>The contract\<close>

definition sing_users :: "'x Sing \<Rightarrow> string \<Rightarrow> string set" where
  "sing_users b tag = {u. mhas (mget_or [] (sg_managedUsers b) tag) u}"

definition sing_fit :: "'x Sing \<Rightarrow> string \<Rightarrow> bool" where
  "sing_fit b tag \<longleftrightarrow> mget_or [] (sg_managedUsers b) tag = []"

definition sing_listens :: "('x \<Rightarrow> string \<Rightarrow> SingInboundOptions option) \<Rightarrow> 'x Sing \<Rightarrow> string \<Rightarrow> SingInboundOptions res option" where
  "sing_listens serves b tag = map_option Inr (serves (sg_box b) tag)"

definition sing_cfg :: "'x sing_lib \<Rightarrow> string \<Rightarrow> NodeInfo \<Rightarrow> Options \<Rightarrow> SingInboundOptions res" where
  "sing_cfg L tag n o1 = getInboundOptions (sb_decoders L) tag n o1"

subsection \<open>Effects of the operations\<close>

lemma on_hook_simps [simp]:
  "sg_managedUsers (on_hook f b) = sg_managedUsers b" "sg_managedParams (on_hook f b) = sg_managedParams b"
  "sg_box (on_hook f b) = sg_box b" "sg_uidMap (on_hook f b) = sg_uidMap b"
  "sg_hookServer (on_hook f b) = f (sg_hookServer b)"
  "sg_nodeReportMinTrafficBytes (on_hook f b) = sg_nodeReportMinTrafficBytes b"
  by (simp_all add: on_hook_def)

lemma AddUsers_ok:
  assumes "Sing_AddUsers L p b = (Inr k, b')"
  defines "users \<equiv> fold (\<lambda>u. mput (ui_Uuid u) u) (ap_Users p) (mget_or [] (sg_managedUsers b) (ap_Tag p))"
  shows "setUsers L (p\<lparr>ap_Users := sortedUsers users\<rparr>) (sg_box b) = Return (None, sg_box b')" (is ?A)
    and "sg_managedUsers b' = mput (ap_Tag p) users (sg_managedUsers b)" (is ?B)
    and "sg_managedParams b' = mput (ap_Tag p) (p\<lparr>ap_Users := sortedUsers users\<rparr>) (sg_managedParams b)" (is ?C)
    and "sg_hookServer b' = activate (ap_Tag p) (sortedUsers users) (sg_hookServer b)" (is ?D)
    and "sg_uidMap b' = fold (\<lambda>u. mput (userKey (ap_Tag p) (ui_Uuid u)) (ui_Id u)) (sortedUsers users) (sg_uidMap b)" (is ?E)
proof -
  from assms(1) have "?A \<and> ?B \<and> ?C \<and> ?D \<and> ?E"
    unfolding Sing_AddUsers_def Let_def users_def [symmetric]
    by (cases "setUsers L (p\<lparr>ap_Users := sortedUsers users\<rparr>) (sg_box b)")
       (auto split: prod.splits option.splits)
  then show ?A ?B ?C ?D ?E by simp_all
qed

lemma AddUsers_err:
  assumes "Sing_AddUsers L p b = (Inl e, b')"
  defines "old \<equiv> mget_or [] (sg_managedUsers b) (ap_Tag p)"
  defines "users \<equiv> fold (\<lambda>u. mput (ui_Uuid u) u) (ap_Users p) old"
  shows "b' = b \<or> (\<exists>x. setUsers L (p\<lparr>ap_Users := sortedUsers users\<rparr>) (sg_box b) = Return (Some e, x) \<and>
      b' = (on_hook (\<lambda>h. revoke_new (ap_Tag p) old users (activate (ap_Tag p) (sortedUsers users) h)) b)\<lparr>sg_box := x\<rparr>)"
  using assms(1) unfolding Sing_AddUsers_def Let_def old_def [symmetric] users_def [symmetric]
  by (cases "setUsers L (p\<lparr>ap_Users := sortedUsers users\<rparr>) (sg_box b)")
     (auto simp: on_hook_def split: prod.splits option.splits)

definition drop_user :: "string \<Rightarrow> UserInfo \<Rightarrow> 'x Sing \<Rightarrow> 'x Sing" where
  "drop_user tag u b = (on_hook (\<lambda>h. delete_counts tag (ui_Uuid u) (HookServer_revoke tag (ui_Uuid u) h)) b)
     \<lparr>sg_uidMap := mdel (userKey tag (ui_Uuid u)) (sg_uidMap b)\<rparr>"

lemma fold_drop_user [simp]:
  "sg_managedUsers (fold (drop_user tag) us b) = sg_managedUsers b"
  "sg_managedParams (fold (drop_user tag) us b) = sg_managedParams b"
  "sg_box (fold (drop_user tag) us b) = sg_box b"
  "hk_managedNodes (sg_hookServer (fold (drop_user tag) us b)) = hk_managedNodes (sg_hookServer b)"
  "mhas (hk_activeUsers (sg_hookServer (fold (drop_user tag) us b))) k \<longleftrightarrow>
     k \<notin> userKey tag ` uuids us \<and> mhas (hk_activeUsers (sg_hookServer b)) k"
  "map_of (sg_uidMap (fold (drop_user tag) us b)) k =
     (if k \<in> userKey tag ` uuids us then None else map_of (sg_uidMap b) k)"
  by (induction us arbitrary: b) (auto simp: drop_user_def hook_simps)

lemma DelUsers_cases:
  assumes "Sing_DelUsers L us tag b = (r, b')"
  defines "remaining \<equiv> fold (\<lambda>u. mdel (ui_Uuid u)) us (mget_or [] (sg_managedUsers b) tag)"
  obtains (failed) e where "r = Some e" "b' = b"
  | (rejected) e p x where "r = Some e" "map_of (sg_managedParams b) tag = Some p"
      "setUsers L (p\<lparr>ap_Users := sortedUsers remaining\<rparr>) (sg_box b) = Return (Some e, x)" "b' = b\<lparr>sg_box := x\<rparr>"
  | (changed) p x where "r = None" "map_of (sg_managedParams b) tag = Some p"
      "setUsers L (p\<lparr>ap_Users := sortedUsers remaining\<rparr>) (sg_box b) = Return (None, x)"
      "b' = fold (drop_user tag) us (b\<lparr>sg_box := x, sg_managedUsers := mput tag remaining (sg_managedUsers b),
         sg_managedParams := mput tag (p\<lparr>ap_Users := sortedUsers remaining\<rparr>) (sg_managedParams b)\<rparr>)"
proof (cases "map_of (sg_managedParams b) tag")
  case None
  with assms(1) show ?thesis by (intro failed) (auto simp: Sing_DelUsers_def)
next
  case (Some p)
  have d: "(\<lambda>u b. (on_hook (\<lambda>h. delete_counts tag (ui_Uuid u) (HookServer_revoke tag (ui_Uuid u) h)) b)
      \<lparr>sg_uidMap := mdel (userKey tag (ui_Uuid u)) (sg_uidMap b)\<rparr>) = drop_user tag"
    by (intro ext) (simp add: drop_user_def)
  show ?thesis
  proof (cases "setUsers L (p\<lparr>ap_Users := sortedUsers remaining\<rparr>) (sg_box b)")
    case (Panic e)
    with assms(1) Some show ?thesis
      by (intro failed [of e]) (auto simp: Sing_DelUsers_def Let_def remaining_def)
  next
    case (Return a)
    obtain q x where a: "a = (q, x)" by (cases a)
    show ?thesis
    proof (cases q)
      case None
      from assms(1) Some Return a None show ?thesis
        by (intro changed [of p x]) (simp_all add: Sing_DelUsers_def Let_def remaining_def d)
    next
      case (Some e)
      from assms(1) \<open>map_of (sg_managedParams b) tag = Some p\<close> Return a Some show ?thesis
        by (intro rejected [of e p x]) (auto simp: Sing_DelUsers_def Let_def remaining_def)
    qed
  qed
qed

text \<open>The documented behaviour of the inbound manager: what is created is served under its tag and found
  there until it is removed, whatever happens under other tags.\<close>

locale sing_library =
  fixes L :: "'x sing_lib" and serves :: "'x \<Rightarrow> string \<Rightarrow> SingInboundOptions option"
  assumes create_serves: "sb_Create L tag c x = (None, x') \<Longrightarrow> serves x' tag = Some c"
    and create_frame: "sb_Create L tag c x = (r, x') \<Longrightarrow> t \<noteq> tag \<Longrightarrow> serves x' t = serves x t \<and> sb_Get L t x' = sb_Get L t x"
    and remove_gone: "sb_Remove L tag x = (None, x') \<Longrightarrow> serves x' tag = None \<and> sb_Get L tag x' = None"
    and remove_frame: "sb_Remove L tag x = (r, x') \<Longrightarrow> t \<noteq> tag \<Longrightarrow> serves x' t = serves x t \<and> sb_Get L t x' = sb_Get L t x"
    and put_serves: "serves (sb_Put L tag inb x) t = serves x t"
    and put_get: "sb_Get L tag x \<noteq> None \<Longrightarrow> sb_Get L t (sb_Put L tag inb x) = (if t = tag then Some inb else sb_Get L t x)"
begin

lemma setUsers_serves: "setUsers L p x = Return (r, x') \<Longrightarrow> serves x' t = serves x t"
  by (auto simp: setUsers_def put_serves split: option.splits call.splits sum.splits if_splits prod.splits)

lemma sing_add_node:
  assumes "Sing_AddNode L tag n o1 b = (r, b')"
  shows "sg_managedUsers b' = sg_managedUsers b" "t \<noteq> tag \<Longrightarrow> serves (sg_box b') t = serves (sg_box b) t"
    "r = None \<Longrightarrow> map_option Inr (serves (sg_box b') tag) = Some (getInboundOptions (sb_decoders L) tag n o1)"
  using assms create_frame create_serves unfolding Sing_AddNode_def Let_def
  by (auto split: sum.splits prod.splits option.splits)

lemma sing_del_node:
  assumes "Sing_DelNode L tag b = (r, b')"
  shows "sg_managedUsers b' = mdel tag (sg_managedUsers b)" "t \<noteq> tag \<Longrightarrow> serves (sg_box b') t = serves (sg_box b) t"
    "r = None \<Longrightarrow> serves (sg_box b') tag = None"
  using assms remove_frame remove_gone unfolding Sing_DelNode_def Let_def
  by (auto split: sum.splits prod.splits option.splits)

lemma sing_add_users:
  assumes "Sing_AddUsers L p b = (r, b')"
  shows "serves (sg_box b') t = serves (sg_box b) t"
    "t \<noteq> ap_Tag p \<Longrightarrow> mget_or [] (sg_managedUsers b') t = mget_or [] (sg_managedUsers b) t"
    "r = Inr k \<Longrightarrow> mhas (mget_or [] (sg_managedUsers b') (ap_Tag p)) u \<longleftrightarrow>
       u \<in> uuids (ap_Users p) \<or> mhas (mget_or [] (sg_managedUsers b) (ap_Tag p)) u"
proof -
  show "serves (sg_box b') t = serves (sg_box b) t"
  proof (cases r)
    case (Inl e)
    with AddUsers_err [of L p b e b'] assms setUsers_serves show ?thesis by auto
  next
    case (Inr j)
    with assms have "Sing_AddUsers L p b = (Inr j, b')" by simp
    from AddUsers_ok(1) [OF this] show ?thesis by (rule setUsers_serves)
  qed
  show "t \<noteq> ap_Tag p \<Longrightarrow> mget_or [] (sg_managedUsers b') t = mget_or [] (sg_managedUsers b) t"
  proof (cases r)
    case (Inl e)
    with AddUsers_err [of L p b e b'] assms show ?thesis by auto
  next
    case (Inr j)
    with assms have "Sing_AddUsers L p b = (Inr j, b')" by simp
    note ok = AddUsers_ok(2) [OF this]
    assume "t \<noteq> ap_Tag p"
    then show ?thesis by (simp add: ok)
  qed
  assume "r = Inr k"
  with assms have "Sing_AddUsers L p b = (Inr k, b')" by simp
  note ok = AddUsers_ok(2) [OF this]
  show "mhas (mget_or [] (sg_managedUsers b') (ap_Tag p)) u \<longleftrightarrow>
       u \<in> uuids (ap_Users p) \<or> mhas (mget_or [] (sg_managedUsers b) (ap_Tag p)) u"
    by (simp add: ok fold_mput_users)
qed

lemma sing_del_users:
  assumes "Sing_DelUsers L us tag b = (r, b')"
  shows "serves (sg_box b') t = serves (sg_box b) t"
    "t \<noteq> tag \<Longrightarrow> mget_or [] (sg_managedUsers b') t = mget_or [] (sg_managedUsers b) t"
    "r = None \<Longrightarrow> mhas (mget_or [] (sg_managedUsers b') tag) u \<longleftrightarrow> u \<notin> uuids us \<and> mhas (mget_or [] (sg_managedUsers b) tag) u"
  using assms by (cases rule: DelUsers_cases; auto simp: fold_mdel_users dest: setUsers_serves [where t = t])+

lemma sing_traffic:
  "Sing_GetUserTrafficSlice tag reset b = (q, b') \<Longrightarrow> sg_managedUsers b' = sg_managedUsers b \<and> sg_box b' = sg_box b"
  by (auto simp: Sing_GetUserTrafficSlice_def Let_def split: option.splits prod.splits)

lemma sing_contract: "core_contract (sing_core L) (sing_listens serves) sing_users (sing_cfg L) (\<lambda>_. True) sing_fit"
proof (unfold_locales, goal_cases)
  case (1 s tag o1 n o2 s')
  then show ?case using sing_add_node [of tag n o1 s None s']
    by (auto simp: sing_core_def sing_listens_def sing_users_def sing_cfg_def sing_fit_def split: prod.splits)
next
  case (2 s tag o1 n r o2 s' t)
  then have o: "o2 = o1" and a: "Sing_AddNode L tag n o1 s = (r, s')"
    by (auto simp: sing_core_def split: prod.splits)
  show ?case using sing_add_node(1,2) [OF a] o
    by (auto simp: sing_listens_def sing_users_def sing_fit_def)
next
  case (3 s tag s')
  then have "Sing_DelNode L tag s = (None, s')" by (simp add: sing_core_def)
  from sing_del_node [OF this] show ?case by (auto simp: sing_listens_def sing_users_def)
next
  case (4 s tag r' s' t)
  then have "Sing_DelNode L tag s = (r', s')" by (simp add: sing_core_def)
  from sing_del_node(1,2) [OF this] show ?case by (auto simp: sing_listens_def sing_users_def sing_fit_def)
next
  case (5 s tag us n k s')
  then have "Sing_AddUsers L \<lparr>ap_Tag = tag, ap_Users = us, ap_NodeInfo = n\<rparr> s = (Inr k, s')" by (simp add: sing_core_def)
  from sing_add_users [OF this] show ?case by (auto simp: sing_listens_def sing_users_def uuids_def)
next
  case (6 s tag us n r'' s' t)
  then have "Sing_AddUsers L \<lparr>ap_Tag = tag, ap_Users = us, ap_NodeInfo = n\<rparr> s = (r'', s')" by (simp add: sing_core_def)
  from sing_add_users(1,2) [OF this] show ?case by (auto simp: sing_listens_def sing_users_def sing_fit_def)
next
  case (7 s us tag n s')
  then have "Sing_DelUsers L us tag s = (None, s')" by (simp add: sing_core_def)
  from sing_del_users [OF this] show ?case by (auto simp: sing_listens_def sing_users_def uuids_def)
next
  case (8 s us tag n r' s' t)
  then have "Sing_DelUsers L us tag s = (r', s')" by (simp add: sing_core_def)
  from sing_del_users(1,2) [OF this] show ?case by (auto simp: sing_listens_def sing_users_def sing_fit_def)
next
  case (9 s tag b q s')
  then have "Sing_GetUserTrafficSlice tag b s = (q, s')" by (simp add: sing_core_def)
  from sing_traffic [OF this] show ?case
    by (intro conjI ext) (simp_all add: sing_listens_def sing_users_def sing_fit_def)
next
  case 10
  then show ?case by (simp add: sing_core_def)
qed

end


subsection \<open>An instance\<close>

text \<open>An inbound manager that keeps options and tables by tag.\<close>

type_synonym demo_box = "(string, SingInboundOptions \<times> SingInbound) gomap"

definition sing_demo_inbound :: "SingInboundOptions \<Rightarrow> SingInbound" where
  "sing_demo_inbound c = (case io_Options c of
     Some (TrojanInboundOptions a b d e f g) \<Rightarrow> TrojanInbound \<lparr>tro_users = [], tro_keys = []\<rparr>
   | Some (ShadowsocksInboundOptions a m b d e) \<Rightarrow> AEADInbound \<lparr>sa_name = m, sa_methodMap = []\<rparr>
   | _ \<Rightarrow> VLESSInbound \<lparr>vls_userMap = [], vls_userFlow = []\<rparr>)"

definition sing_demo_digests :: digests where
  "sing_demo_digests = \<lparr>dg_Trojan = id, dg_Sha256 = id, dg_UUID = Inr, dg_UUIDv5 = id, dg_VMessKey = id, dg_IdCipher = Inr,
     dg_AlterId = id, dg_Legacy = (\<lambda>s t. s), dg_CacheDuration = 120, dg_Base64 = Inr, dg_SSKey = (\<lambda>s n. take n s),
     dg_Blake3 = id, dg_Block = (\<lambda>s. None), dg_Method = (\<lambda>m p. if p = [] then Inl ''missing password'' else Inr p)\<rparr>"

definition sing_demo_decoders :: sing_decoders where
  "sing_demo_decoders = \<lparr>sd_ParseAddr = Inr, sd_Http = (\<lambda>s. Inl ''json''), sd_HttpRequest = (\<lambda>s. Inl ''json''),
     sd_Ws = (\<lambda>s. Inl ''json''), sd_Grpc = (\<lambda>s. Inl ''json''), sd_Httpupgrade = (\<lambda>s. Inl ''json''),
     sd_URL = (\<lambda>s. Inr (s, [])), sd_Duration = (\<lambda>s. 0), sd_Random = (\<lambda>n. replicate n (CHR ''r''))\<rparr>"

definition demo_sing :: "demo_box sing_lib" where
  "demo_sing = \<lparr>sb_Start = (\<lambda>x. (None, x)), sb_Close = (\<lambda>x. (None, x)),
     sb_Create = (\<lambda>tag c x. (None, mput tag (c, sing_demo_inbound c) x)),
     sb_Remove = (\<lambda>tag x. if mhas x tag then (None, mdel tag x) else (Some ''not found'', x)),
     sb_Get = (\<lambda>tag x. map_option snd (map_of x tag)),
     sb_Put = (\<lambda>tag inb x. case map_of x tag of None \<Rightarrow> x | Some (c, _) \<Rightarrow> mput tag (c, inb) x),
     sb_decoders = sing_demo_decoders, sb_digests = sing_demo_digests, sb_now = 0\<rparr>"

definition sing_demo_serves :: "demo_box \<Rightarrow> string \<Rightarrow> SingInboundOptions option" where
  "sing_demo_serves x tag = map_option fst (map_of x tag)"

interpretation sing_demo: sing_library demo_sing sing_demo_serves
  by unfold_locales (auto simp: demo_sing_def sing_demo_serves_def split: if_splits option.splits prod.splits)


section \<open>The tables stay in step\<close>

text \<open>A tag without NUL: the keys of two such tags never meet.\<close>

definition plain :: "string \<Rightarrow> bool" where
  "plain tag \<longleftrightarrow> CHR 0x00 \<notin> set tag"

lemma userKey_eq: "plain t \<Longrightarrow> plain tag \<Longrightarrow> userKey t u = userKey tag v \<longleftrightarrow> t = tag \<and> u = v"
proof (induction t arbitrary: tag)
  case Nil
  then show ?case by (cases tag) (auto simp: userKey_def plain_def)
next
  case (Cons c t)
  then show ?case by (cases tag) (auto simp: userKey_def plain_def)
qed

lemma userKey_inj [simp]: "userKey tag u = userKey tag v \<longleftrightarrow> u = v"
  by (simp add: userKey_def)

lemma userKey_image [simp]: "userKey tag u \<in> userKey tag ` S \<longleftrightarrow> u \<in> S"
  by auto

lemma HasPrefix_userKey [simp]: "HasPrefix (userKey tag u) (tag @ [CHR 0x00])"
  using HasPrefix_append [of "tag @ [CHR 0x00]" u] by (simp add: userKey_def)

lemma userKey_prefix: "plain t \<Longrightarrow> plain tag \<Longrightarrow> HasPrefix (userKey t u) (tag @ [CHR 0x00]) \<longleftrightarrow> t = tag"
proof
  assume p: "plain t" "plain tag" and "HasPrefix (userKey t u) (tag @ [CHR 0x00])"
  then obtain r where "userKey t u = (tag @ [CHR 0x00]) @ r" using HasPrefixE by blast
  then have "userKey t u = userKey tag r" by (simp add: userKey_def)
  with userKey_eq [OF p] show "t = tag" by blast
next
  assume "t = tag"
  then show "HasPrefix (userKey t u) (tag @ [CHR 0x00])" using HasPrefix_append [of "tag @ [CHR 0x00]" u] by (simp add: userKey_def)
qed

abbreviation users_of :: "'x Sing \<Rightarrow> string \<Rightarrow> (string, UserInfo) gomap" where
  "users_of b tag \<equiv> mget_or [] (sg_managedUsers b) tag"

definition tag_in_step :: "string \<Rightarrow> 'x Sing \<Rightarrow> bool" where
  "tag_in_step t b \<longleftrightarrow> uuid_keyed (users_of b t) \<and>
     (\<forall>u. mhas (hk_activeUsers (sg_hookServer b)) (userKey t u) = mhas (users_of b t) u \<and>
       map_of (sg_uidMap b) (userKey t u) = map_option ui_Id (map_of (users_of b t) u)) \<and>
     (\<forall>p. map_of (sg_managedParams b) t = Some p \<longrightarrow> ap_Tag p = t)"

definition sing_in_step :: "'x Sing \<Rightarrow> bool" where
  "sing_in_step b \<longleftrightarrow> (\<forall>t. plain t \<longrightarrow> tag_in_step t b)"

text \<open>Operations that leave the tables of a tag as they are.\<close>

lemma tag_in_step_same:
  assumes "tag_in_step t b" and "users_of b' t = users_of b t"
    and "\<And>u. mhas (hk_activeUsers (sg_hookServer b')) (userKey t u) = mhas (hk_activeUsers (sg_hookServer b)) (userKey t u)"
    and "\<And>u. map_of (sg_uidMap b') (userKey t u) = map_of (sg_uidMap b) (userKey t u)"
    and "map_of (sg_managedParams b') t = map_of (sg_managedParams b) t"
  shows "tag_in_step t b'"
  using assms by (simp add: tag_in_step_def)

lemma fold_uids:
  "map_of (fold (\<lambda>u. mput (userKey tag (ui_Uuid u)) (ui_Id u)) us m) k =
     (case map_of (rev (map (\<lambda>u. (userKey tag (ui_Uuid u), ui_Id u)) us)) k of Some i \<Rightarrow> Some i | None \<Rightarrow> map_of m k)"
  by (induction us arbitrary: m) (auto simp: map_add_def split: option.splits)

lemma uids_sorted:
  assumes "uuid_keyed m" and "plain tag" and "plain t"
  shows "map_of (fold (\<lambda>u. mput (userKey tag (ui_Uuid u)) (ui_Id u)) (sortedUsers m) l) (userKey t v) =
     (if t = tag \<and> mhas m v then map_option ui_Id (map_of m v) else map_of l (userKey t v))"
proof -
  have "map_of (fold (\<lambda>u. mput (userKey tag (ui_Uuid u)) (ui_Id u)) us l) (userKey t v) =
      (if t = tag \<and> v \<in> uuids us then map_option ui_Id (map_of m v) else map_of l (userKey t v))"
    if "\<forall>u \<in> set us. map_of m (ui_Uuid u) = Some u" for us
    using that by (induction us arbitrary: l) (auto simp: userKey_eq assms)
  from this [of "sortedUsers m"] sortedUsers_lookup [OF assms(1)] uuids_sortedUsers [OF assms(1)]
  show ?thesis by simp
qed

lemma in_step_AddUsers:
  assumes "sing_in_step b" and "plain (ap_Tag p)" and "Sing_AddUsers L p b = (r, b')"
  shows "sing_in_step b'"
  unfolding sing_in_step_def
proof (intro allI impI)
  fix t assume t: "plain t"
  let ?tag = "ap_Tag p"
  define old where "old = users_of b ?tag"
  define users where "users = fold (\<lambda>u. mput (ui_Uuid u) u) (ap_Users p) old"
  from assms(1,2) t have b: "tag_in_step t b" "tag_in_step ?tag b" by (auto simp: sing_in_step_def)
  from b(2) have ko: "uuid_keyed old" and act: "mhas (hk_activeUsers (sg_hookServer b)) (userKey ?tag u) = mhas old u" for u
    by (auto simp: tag_in_step_def old_def)
  from keyed_fold_mput [OF ko] have k: "uuid_keyed users" by (simp add: users_def)
  have sub: "mhas old u \<Longrightarrow> mhas users u" for u by (simp add: users_def fold_mput_users)
  have key: "userKey t u \<in> userKey ?tag ` S \<longleftrightarrow> t = ?tag \<and> u \<in> S" for u S
    using userKey_eq [OF t assms(2)] by auto
  show "tag_in_step t b'"
  proof (cases r)
    case (Inl e)
    with assms(3) AddUsers_err [of L p b e b', folded old_def, folded users_def]
    consider "b' = b" | x where "b' = (on_hook (\<lambda>h. revoke_new ?tag old users (activate ?tag (sortedUsers users) h)) b)\<lparr>sg_box := x\<rparr>"
      by auto
    then show ?thesis
    proof cases
      case 1
      with b show ?thesis by simp
    next
      case 2
      have "mhas (hk_activeUsers (sg_hookServer b')) (userKey t u) = mhas (hk_activeUsers (sg_hookServer b)) (userKey t u)" for u
        using act [of u] sub [of u] by (auto simp: 2 hook_simps key uuids_sortedUsers [OF k] mhas_set [symmetric])
      with b(1) 2 show ?thesis by (intro tag_in_step_same [OF b(1)]) simp_all
    qed
  next
    case (Inr n)
    with assms(3) have a: "Sing_AddUsers L p b = (Inr n, b')" by simp
    note ok = AddUsers_ok(2-5) [OF a, folded old_def, folded users_def]
    have au: "mhas (hk_activeUsers (sg_hookServer b')) (userKey t u) \<longleftrightarrow>
        t = ?tag \<and> mhas users u \<or> mhas (hk_activeUsers (sg_hookServer b)) (userKey t u)" for u
      by (simp add: ok hook_simps key uuids_sortedUsers [OF k])
    show ?thesis
    proof (cases "t = ?tag")
      case False
      with b(1) au show ?thesis
        by (intro tag_in_step_same [OF b(1)]) (simp_all add: ok uids_sorted [OF k assms(2) t])
    next
      case True
      have u: "users_of b' t = users" by (simp add: ok True)
      have "map_of (sg_uidMap b') (userKey t v) = map_option ui_Id (map_of users v)" for v
      proof (cases "mhas users v")
        case True
        then show ?thesis by (simp add: ok uids_sorted [OF k assms(2) assms(2)] \<open>t = ?tag\<close>)
      next
        case False
        then have "\<not> mhas old v" using sub [of v] by blast
        with False have "map_of old v = None" "map_of users v = None" by (simp_all add: mhas_def)
        moreover have "map_of (sg_uidMap b) (userKey ?tag v) = map_option ui_Id (map_of old v)"
          using b(2) by (simp add: tag_in_step_def old_def)
        ultimately show ?thesis using False True by (simp add: ok uids_sorted [OF k assms(2) assms(2)])
      qed
      moreover have "mhas (hk_activeUsers (sg_hookServer b')) (userKey t v) = mhas users v" for v
        using au [of v] act [of v] sub [of v] True by auto
      ultimately show ?thesis using k True by (simp add: tag_in_step_def u ok)
    qed
  qed
qed

lemma in_step_box: "sing_in_step (b\<lparr>sg_box := x\<rparr>) = sing_in_step b"
  by (simp add: sing_in_step_def tag_in_step_def)

lemma in_step_DelUsers:
  assumes "sing_in_step b" and "plain tag" and "Sing_DelUsers L us tag b = (r, b')"
  shows "sing_in_step b'"
  using assms(3)
proof (cases rule: DelUsers_cases)
  case (failed e)
  with assms show ?thesis by simp
next
  case (rejected e p x)
  with assms show ?thesis by (simp add: in_step_box)
next
  case (changed p x)
  define rest where "rest = fold (\<lambda>u. mdel (ui_Uuid u)) us (users_of b tag)"
  show ?thesis unfolding sing_in_step_def
  proof (intro allI impI)
    fix t assume t: "plain t"
    from assms(1,2) t have b: "tag_in_step t b" "tag_in_step tag b" by (auto simp: sing_in_step_def)
    have key: "userKey t u \<in> userKey tag ` S \<longleftrightarrow> t = tag \<and> u \<in> S" for u S
      using userKey_eq [OF t assms(2)] by auto
    show "tag_in_step t b'"
    proof (cases "t = tag")
      case False
      with b(1) show ?thesis
        by (intro tag_in_step_same [OF b(1)]) (simp_all add: changed key)
    next
      case True
      have "uuid_keyed (users_of b tag)" using b(2) by (simp add: tag_in_step_def)
      from keyed_fold_mdel [OF this] have k: "uuid_keyed rest" by (simp add: rest_def)
      have rest: "mhas rest u \<longleftrightarrow> u \<notin> uuids us \<and> mhas (users_of b tag) u" for u
        by (simp add: rest_def fold_mdel_users)
      have lk: "map_of (fold (\<lambda>u. mdel (ui_Uuid u)) us m) k = (if k \<in> uuids us then None else map_of m k)" for m k
        by (induction us arbitrary: m) auto
      show ?thesis using b(2) True k rest
        by (simp add: tag_in_step_def changed rest_def [symmetric] key)
           (auto simp: rest_def lk)
    qed
  qed
qed

lemma in_step_AddNode:
  assumes "sing_in_step b" and "Sing_AddNode L tag n o1 b = (r, b')"
  shows "sing_in_step b'"
proof -
  from assms(2) have "sg_managedUsers b' = sg_managedUsers b" "sg_managedParams b' = sg_managedParams b"
    "sg_uidMap b' = sg_uidMap b" "hk_activeUsers (sg_hookServer b') = hk_activeUsers (sg_hookServer b)"
    unfolding Sing_AddNode_def Let_def by (auto simp: on_hook_def split: sum.splits prod.splits option.splits)
  with assms(1) show ?thesis by (simp add: sing_in_step_def tag_in_step_def)
qed

lemma map_of_filter_key: "map_of (filter (\<lambda>(k, v). P k) m) k = (if P k then map_of m k else None)"
  by (induction m) auto

lemma in_step_DelNode:
  assumes "sing_in_step b" and "plain tag" and "Sing_DelNode L tag b = (r, b')"
  shows "sing_in_step b'"
  unfolding sing_in_step_def
proof (intro allI impI)
  fix t assume t: "plain t"
  from assms(1,2) t have b: "tag_in_step t b" "tag_in_step tag b" by (auto simp: sing_in_step_def)
  have key: "userKey t u \<in> userKey tag ` S \<longleftrightarrow> t = tag \<and> u \<in> S" for u S
    using userKey_eq [OF t assms(2)] by auto
  from assms(3) have f: "sg_managedUsers b' = mdel tag (sg_managedUsers b)" "sg_managedParams b' = mdel tag (sg_managedParams b)"
    "sg_uidMap b' = filter (\<lambda>(key, uid). \<not> HasPrefix key (tag @ [CHR 0x00])) (sg_uidMap b)"
    "hk_activeUsers (sg_hookServer b') = hk_activeUsers (fold (\<lambda>(uuid, u). HookServer_revoke tag uuid) (users_of b tag) (sg_hookServer b))"
    unfolding Sing_DelNode_def Let_def by (auto simp: hook_simps split: prod.splits option.splits)
  show "tag_in_step t b'"
  proof (cases "t = tag")
    case False
    with b(1) show ?thesis
      by (intro tag_in_step_same [OF b(1)])
         (simp_all add: f hook_simps key map_of_filter_key userKey_prefix [OF t assms(2)])
  next
    case True
    with b(2) show ?thesis
      by (simp add: tag_in_step_def f hook_simps key map_of_filter_key userKey_prefix [OF t assms(2)] mhas_set [symmetric])
  qed
qed

lemma in_step_hook:
  assumes "sing_in_step b" and "hk_activeUsers h = hk_activeUsers (sg_hookServer b)"
  shows "sing_in_step (b\<lparr>sg_hookServer := h\<rparr>)"
  using assms by (simp add: sing_in_step_def tag_in_step_def)

lemma in_step_traffic:
  assumes "sing_in_step b" and "Sing_GetUserTrafficSlice tag reset b = (q, b')"
  shows "sing_in_step b'"
proof -
  from assms(2) have "b' = b \<or> (\<exists>c f. b' = on_hook (on_counter c f) b)"
    by (auto simp: Sing_GetUserTrafficSlice_def Let_def split: option.splits prod.splits)
  with assms(1) in_step_hook [OF assms(1)] show ?thesis by (auto simp: on_hook_def hook_simps)
qed

lemma Routed_active:
  "RoutedConnection matches now i m h w = (q, h', w') \<Longrightarrow>
     hk_activeUsers h' = hk_activeUsers h \<and> hk_managedNodes h' = hk_managedNodes h"
  "RoutedPacketConnection matches now i m h w = (q, h', w') \<Longrightarrow>
     hk_activeUsers h' = hk_activeUsers h \<and> hk_managedNodes h' = hk_managedNodes h"
proof -
  have t: "track i m b h = (q, h1) \<Longrightarrow> hk_activeUsers h1 = hk_activeUsers h \<and> hk_managedNodes h1 = hk_managedNodes h" for b q h1
    using track_simps(1,2) [of i m b h] by simp
  show "RoutedConnection matches now i m h w = (q, h', w') \<Longrightarrow>
     hk_activeUsers h' = hk_activeUsers h \<and> hk_managedNodes h' = hk_managedNodes h"
    by (auto simp: RoutedConnection_def hook_simps Let_def dest: t split: if_splits sum.splits prod.splits bool.splits)
  show "RoutedPacketConnection matches now i m h w = (q, h', w') \<Longrightarrow>
     hk_activeUsers h' = hk_activeUsers h \<and> hk_managedNodes h' = hk_managedNodes h"
    by (auto simp: RoutedPacketConnection_def hook_simps Let_def dest: t split: if_splits sum.splits prod.splits bool.splits)
qed

section \<open>Runs\<close>

text \<open>The operations of the core and the tracker as events; a controller's tags have no NUL.\<close>

datatype 'rx sing_event =
    SeAddNode string NodeInfo Options | SeDelNode string | SeAddUsers AddUsersParams | SeDelUsers "UserInfo list" string
  | SeTraffic string bool | SeConnection int nat InboundContext | SePacket int nat InboundContext | SeClose nat
  | SeLimiters "'rx limiters"

fun plain_event :: "'rx sing_event \<Rightarrow> bool" where
  "plain_event (SeAddNode tag n o1) = plain tag"
| "plain_event (SeDelNode tag) = plain tag"
| "plain_event (SeAddUsers p) = plain (ap_Tag p)"
| "plain_event (SeDelUsers us tag) = plain tag"
| "plain_event _ = True"

fun sing_step ::
  "'x sing_lib \<Rightarrow> ('rx \<Rightarrow> string \<Rightarrow> bool) \<Rightarrow> 'rx sing_event \<Rightarrow> 'x Sing \<times> 'rx limiters \<Rightarrow> 'x Sing \<times> 'rx limiters" where
  "sing_step L matches (SeAddNode tag n o1) (b, w) = (snd (Sing_AddNode L tag n o1 b), w)"
| "sing_step L matches (SeDelNode tag) (b, w) = (snd (Sing_DelNode L tag b), w)"
| "sing_step L matches (SeAddUsers p) (b, w) = (snd (Sing_AddUsers L p b), w)"
| "sing_step L matches (SeDelUsers us tag) (b, w) = (snd (Sing_DelUsers L us tag b), w)"
| "sing_step L matches (SeTraffic tag reset) (b, w) = (snd (Sing_GetUserTrafficSlice tag reset b), w)"
| "sing_step L matches (SeConnection now i m) (b, w) =
     (let (q, h, w) = RoutedConnection matches now i m (sg_hookServer b) w in (b\<lparr>sg_hookServer := h\<rparr>, w))"
| "sing_step L matches (SePacket now i m) (b, w) =
     (let (q, h, w) = RoutedPacketConnection matches now i m (sg_hookServer b) w in (b\<lparr>sg_hookServer := h\<rparr>, w))"
| "sing_step L matches (SeClose i) (b, w) = (on_hook (trackedConnection_Close i) b, w)"
| "sing_step L matches (SeLimiters w') (b, w) = (b, w')"

lemma in_step_step:
  assumes "sing_in_step (fst s)" and "plain_event ev"
  shows "sing_in_step (fst (sing_step L matches ev s))"
proof -
  obtain b w where s: "s = (b, w)" by (cases s)
  show ?thesis
  proof (cases ev)
    case (SeAddNode tag n o1)
    with assms show ?thesis by (simp add: s in_step_AddNode [OF _ surjective_pairing])
  next
    case (SeDelNode tag)
    with assms show ?thesis by (simp add: s in_step_DelNode [OF _ _ surjective_pairing])
  next
    case (SeAddUsers p)
    with assms show ?thesis by (simp add: s in_step_AddUsers [OF _ _ surjective_pairing])
  next
    case (SeDelUsers us tag)
    with assms show ?thesis by (simp add: s in_step_DelUsers [OF _ _ surjective_pairing])
  next
    case (SeTraffic tag reset)
    with assms show ?thesis by (simp add: s in_step_traffic [OF _ surjective_pairing])
  next
    case (SeConnection now i m)
    then show ?thesis using assms by (auto simp: s dest!: Routed_active(1) intro!: in_step_hook split: prod.splits)
  next
    case (SePacket now i m)
    then show ?thesis using assms by (auto simp: s dest!: Routed_active(2) intro!: in_step_hook split: prod.splits)
  next
    case (SeClose i)
    with assms show ?thesis by (simp add: s on_hook_def in_step_hook hook_simps)
  next
    case (SeLimiters w')
    with assms show ?thesis by (simp add: s)
  qed
qed

lemma in_step_run: "sing_in_step (fst s) \<Longrightarrow> list_all plain_event evs \<Longrightarrow> sing_in_step (fst (fold (sing_step L matches) evs s))"
  by (induction evs arbitrary: s) (simp_all add: in_step_step)

lemma in_step_new: "sing_in_step (New_Sing x)"
  by (simp add: sing_in_step_def tag_in_step_def New_Sing_def NewHookServer_def)


definition sing_demo_user :: "string \<Rightarrow> int \<Rightarrow> UserInfo" where
  "sing_demo_user u i = \<lparr>ui_Id = i, ui_Uuid = u, ui_SpeedLimit = 0, ui_DeviceLimit = 0\<rparr>"

definition sing_demo_common :: CommonNode where
  "sing_demo_common = \<lparr>cn_Host = [], cn_ServerPort = 443, cn_ServerName = [], cn_Routes = [], cn_BaseConfig = None\<rparr>"

definition sing_demo_node :: NodeInfo where
  "sing_demo_node = \<lparr>ni_responseHash = [], ni_responseETag = [], ni_Id = 1, ni_Type = ''trojan'', ni_Security = 0,
     ni_PushInterval = 0, ni_PullInterval = 0, ni_RawDNS = \<lparr>dns_DNSMap = [], dns_DNSJson = []\<rparr>,
     ni_Rules = \<lparr>ru_Regexp = [], ru_Protocol = []\<rparr>, ni_VAllss = None, ni_Shadowsocks = None,
     ni_Trojan = Some \<lparr>tj_Common = sing_demo_common, tj_Network = ''tcp'', tj_NetworkSettings = []\<rparr>,
     ni_Tuic = None, ni_AnyTls = None, ni_Hysteria = None, ni_Hysteria2 = None, ni_Common = Some sing_demo_common\<rparr>"

definition sing_demo_options :: Options where
  "sing_demo_options = default_options\<lparr>op_Core := ''sing'', op_ListenIP := ''0.0.0.0'', op_SingOptions := Some NewSingOptions\<rparr>"

definition sing_demo_events :: "string sing_event list" where
  "sing_demo_events = [SeAddNode ''t'' sing_demo_node sing_demo_options,
     SeAddUsers \<lparr>ap_Tag = ''t'', ap_Users = [sing_demo_user ''a'' 1, sing_demo_user ''b'' 2], ap_NodeInfo = sing_demo_node\<rparr>,
     SeDelUsers [sing_demo_user ''a'' 1] ''t'']"


end
