(* ===== verification/Sing_Revocation.thy ===== *)
theory Sing_Revocation
  imports Sing_Contract
begin

text \<open>
  Connections of the sing-box core while users are revoked (HookServer.RoutedConnection against revoke and
  AddUsers of runtime/core/sing).  A connection goroutine checks its user, is stored among the tracked
  connections and checks again; a revocation deletes the user and then walks over the connections.  Every
  access to a concurrent map is a step of its own, and the steps interleave freely; changes of
  users exclude each other by the mutex of the core.
\<close>

section \<open>Goroutines\<close>

text \<open>Where a connection is in \<open>RoutedConnection\<close>: before its first check, past it, stored, past the second
  check, turned away, or passed on untracked because the limiter of its node is missing.\<close>

datatype phase = Arrived | Passed | Stored | Kept | Away | Loose

text \<open>The change of users: none, a key deleted, or a walk with the entries it still has to visit.\<close>

datatype change = Idle | Deleted string | Walking string "nat list"

record race =
  ra_hook :: HookServer
  ra_conns :: "(nat, phase \<times> InboundContext) gomap"
  ra_change :: change

definition ra_key :: "InboundContext \<Rightarrow> string" where
  "ra_key m = userKey (ic_Inbound m) (ic_User m)"

definition move :: "nat \<Rightarrow> phase \<Rightarrow> InboundContext \<Rightarrow> (HookServer \<Rightarrow> HookServer) \<Rightarrow> race \<Rightarrow> race" where
  "move i p m f s = s\<lparr>ra_hook := f (ra_hook s), ra_conns := mput i (p, m) (ra_conns s)\<rparr>"

definition walk :: "change \<Rightarrow> (HookServer \<Rightarrow> HookServer) \<Rightarrow> race \<Rightarrow> race" where
  "walk c f s = s\<lparr>ra_hook := f (ra_hook s), ra_change := c\<rparr>"

definition visit :: "string \<Rightarrow> nat \<Rightarrow> HookServer \<Rightarrow> HookServer" where
  "visit key i h = (if map_of (hk_connections h) i = Some key then trackedConnection_Close i h else h)"

inductive race_step :: "race \<Rightarrow> race \<Rightarrow> bool" where
  arrive: "map_of (ra_conns s) i = None \<Longrightarrow> i \<notin> hk_closed (ra_hook s) \<Longrightarrow> race_step s (move i Arrived m id s)"
| pass: "map_of (ra_conns s) i = Some (Arrived, m) \<Longrightarrow> allowed (ic_Inbound m) (ic_User m) (ra_hook s) \<Longrightarrow>
    race_step s (move i Passed m id s)"
| turn: "map_of (ra_conns s) i = Some (Arrived, m) \<Longrightarrow> \<not> allowed (ic_Inbound m) (ic_User m) (ra_hook s) \<Longrightarrow>
    race_step s (move i Away m (closeConn i) s)"
| limit: "map_of (ra_conns s) i = Some (Passed, m) \<Longrightarrow> race_step s (move i Away m (closeConn i) s)"
| unlimited: "map_of (ra_conns s) i = Some (Passed, m) \<Longrightarrow> race_step s (move i Loose m id s)"
| store: "map_of (ra_conns s) i = Some (Passed, m) \<Longrightarrow> race_step s (move i Stored m (\<lambda>h. snd (track i m b h)) s)"
| keep: "map_of (ra_conns s) i = Some (Stored, m) \<Longrightarrow> allowed (ic_Inbound m) (ic_User m) (ra_hook s) \<Longrightarrow>
    race_step s (move i Kept m id s)"
| cut: "map_of (ra_conns s) i = Some (Stored, m) \<Longrightarrow> \<not> allowed (ic_Inbound m) (ic_User m) (ra_hook s) \<Longrightarrow>
    race_step s (move i Away m (trackedConnection_Close i) s)"
| hang_up: "map_of (ra_conns s) i = Some (p, m) \<Longrightarrow> p = Stored \<or> p = Kept \<Longrightarrow>
    race_step s (move i p m (trackedConnection_Close i) s)"
| manage: "\<forall>i p m. map_of (ra_conns s) i = Some (p, m) \<longrightarrow> ic_Inbound m \<noteq> tag \<Longrightarrow>
    race_step s (walk (ra_change s) (\<lambda>h. h\<lparr>hk_managedNodes := mput tag True (hk_managedNodes h)\<rparr>) s)"
| activate_user: "ra_change s = Idle \<Longrightarrow> race_step s (walk Idle (activate tag [u]) s)"
| revoke_delete: "ra_change s = Idle \<Longrightarrow>
    race_step s (walk (Deleted key) (\<lambda>h. h\<lparr>hk_activeUsers := mdel key (hk_activeUsers h)\<rparr>) s)"
| revoke_range: "ra_change s = Deleted key \<Longrightarrow>
    race_step s (walk (Walking key (map fst (hk_connections (ra_hook s)))) id s)"
| revoke_visit: "ra_change s = Walking key todo \<Longrightarrow> race_step s (walk (Walking key (removeAll i todo)) (visit key i) s)"
| revoke_done: "ra_change s = Walking key [] \<Longrightarrow> race_step s (walk Idle id s)"

inductive race_reach :: "race \<Rightarrow> bool" where
  init: "race_reach \<lparr>ra_hook = NewHookServer, ra_conns = [], ra_change = Idle\<rparr>"
| again: "race_reach s \<Longrightarrow> race_step s s' \<Longrightarrow> race_reach s'"

section \<open>The invariant\<close>

text \<open>A tracked connection that was not closed is in the table under the key of its user; a kept one
  of a managed tag has an active user, or the revocation of that user has not reached it yet.\<close>

definition revoke_pending :: "race \<Rightarrow> nat \<Rightarrow> string \<Rightarrow> bool" where
  "revoke_pending s i key \<longleftrightarrow> ra_change s = Deleted key \<or> (\<exists>todo. ra_change s = Walking key todo \<and> i \<in> set todo)"

definition tracked_ok :: "race \<Rightarrow> bool" where
  "tracked_ok s \<longleftrightarrow> (\<forall>i k. map_of (hk_connections (ra_hook s)) i = Some k \<longrightarrow>
     i \<notin> hk_closed (ra_hook s) \<and> (\<exists>p m. map_of (ra_conns s) i = Some (p, m) \<and> p \<in> {Stored, Kept} \<and> ra_key m = k))"

definition race_ok :: "race \<Rightarrow> bool" where
  "race_ok s \<longleftrightarrow> tracked_ok s \<and>
     (\<forall>i p m. map_of (ra_conns s) i = Some (p, m) \<longrightarrow> p \<in> {Arrived, Passed} \<longrightarrow> i \<notin> hk_closed (ra_hook s)) \<and>
     (\<forall>i p m. map_of (ra_conns s) i = Some (p, m) \<longrightarrow> i \<notin> hk_closed (ra_hook s) \<longrightarrow>
        (p \<in> {Stored, Kept} \<longrightarrow> map_of (hk_connections (ra_hook s)) i = Some (ra_key m)) \<and>
        (p = Kept \<longrightarrow> mhas (hk_managedNodes (ra_hook s)) (ic_Inbound m) \<longrightarrow>
           mhas (hk_activeUsers (ra_hook s)) (ra_key m) \<or> revoke_pending s i (ra_key m)))"

lemma race_okI:
  assumes "\<And>i k. map_of (hk_connections (ra_hook s)) i = Some k \<Longrightarrow> i \<notin> hk_closed (ra_hook s) \<and>
        (\<exists>p m. map_of (ra_conns s) i = Some (p, m) \<and> p \<in> {Stored, Kept} \<and> ra_key m = k)"
    and "\<And>i p m. map_of (ra_conns s) i = Some (p, m) \<Longrightarrow> i \<notin> hk_closed (ra_hook s) \<Longrightarrow> p \<in> {Stored, Kept} \<Longrightarrow>
        map_of (hk_connections (ra_hook s)) i = Some (ra_key m)"
    and "\<And>i m. map_of (ra_conns s) i = Some (Kept, m) \<Longrightarrow> i \<notin> hk_closed (ra_hook s) \<Longrightarrow>
        mhas (hk_managedNodes (ra_hook s)) (ic_Inbound m) \<Longrightarrow>
        mhas (hk_activeUsers (ra_hook s)) (ra_key m) \<or> revoke_pending s i (ra_key m)"
    and "\<And>i p m. map_of (ra_conns s) i = Some (p, m) \<Longrightarrow> p \<in> {Arrived, Passed} \<Longrightarrow> i \<notin> hk_closed (ra_hook s)"
  shows "race_ok s"
  using assms by (simp add: race_ok_def tracked_ok_def)

lemma race_okD:
  assumes "race_ok s"
  shows "map_of (hk_connections (ra_hook s)) i = Some k \<Longrightarrow> i \<notin> hk_closed (ra_hook s)"
    and "map_of (hk_connections (ra_hook s)) i = Some k \<Longrightarrow>
        \<exists>p m. map_of (ra_conns s) i = Some (p, m) \<and> p \<in> {Stored, Kept} \<and> ra_key m = k"
    and "map_of (ra_conns s) i = Some (p, m) \<Longrightarrow> i \<notin> hk_closed (ra_hook s) \<Longrightarrow> p \<in> {Stored, Kept} \<Longrightarrow>
        map_of (hk_connections (ra_hook s)) i = Some (ra_key m)"
    and "map_of (ra_conns s) i = Some (Kept, m) \<Longrightarrow> i \<notin> hk_closed (ra_hook s) \<Longrightarrow>
        mhas (hk_managedNodes (ra_hook s)) (ic_Inbound m) \<Longrightarrow>
        mhas (hk_activeUsers (ra_hook s)) (ra_key m) \<or> revoke_pending s i (ra_key m)"
    and "map_of (ra_conns s) i = Some (p, m) \<Longrightarrow> p \<in> {Arrived, Passed} \<Longrightarrow> i \<notin> hk_closed (ra_hook s)"
  using assms unfolding race_ok_def tracked_ok_def by blast+

lemma tracked_close_connections:
  "(map_of (hk_connections h) i \<noteq> None \<longrightarrow> i \<notin> hk_closed h) \<Longrightarrow>
   map_of (hk_connections (trackedConnection_Close i h)) j = (if j = i then None else map_of (hk_connections h) j)"
  by (auto simp: trackedConnection_Close_def closeConn_def)

lemma closable: "race_ok s \<Longrightarrow> map_of (hk_connections (ra_hook s)) i \<noteq> None \<longrightarrow> i \<notin> hk_closed (ra_hook s)"
  using race_okD(1) by blast

lemma not_tracked: "race_ok s \<Longrightarrow> map_of (ra_conns s) i = Some (p, m) \<Longrightarrow> p \<notin> {Stored, Kept} \<Longrightarrow>
   map_of (hk_connections (ra_hook s)) i = None"
  using race_okD(2) [of s i] by (cases "map_of (hk_connections (ra_hook s)) i") auto

text \<open>A goroutine that closes its connection, tracked or not.\<close>

lemma race_ok_close:
  assumes ok: "race_ok s" and i: "map_of (ra_conns s) i = Some (p0, m)" and p: "p \<notin> {Arrived, Passed}"
    and f: "f = closeConn i \<and> p0 \<notin> {Stored, Kept} \<or> f = trackedConnection_Close i"
  shows "race_ok (move i p m f s)"
proof -
  have c: "map_of (hk_connections (f (ra_hook s))) j = (if j = i then None else map_of (hk_connections (ra_hook s)) j)" for j
    using f tracked_close_connections [OF closable [OF ok, of i], of j] not_tracked [OF ok i] by (auto simp: hook_simps)
  have d: "hk_closed (f (ra_hook s)) = insert i (hk_closed (ra_hook s))"
    "hk_activeUsers (f (ra_hook s)) = hk_activeUsers (ra_hook s)"
    "hk_managedNodes (f (ra_hook s)) = hk_managedNodes (ra_hook s)"
    using f by (auto simp: hook_simps)
  show ?thesis
    by (rule race_okI) (use race_okD [OF ok] p in \<open>auto simp: move_def c d revoke_pending_def split: if_splits\<close>)
qed

lemma race_ok_phase:
  assumes ok: "race_ok s" and "p \<notin> {Stored, Kept}" and "p \<in> {Arrived, Passed} \<longrightarrow> i \<notin> hk_closed (ra_hook s)" and "map_of (hk_connections (ra_hook s)) i = None"
  shows "race_ok (move i p m id s)"
  by (rule race_okI) (use race_okD [OF ok] assms(2-4) in \<open>auto simp: move_def revoke_pending_def split: if_splits\<close>)

lemma allowed_active:
  "allowed (ic_Inbound m) (ic_User m) h \<Longrightarrow> mhas (hk_managedNodes h) (ic_Inbound m) \<Longrightarrow> mhas (hk_activeUsers h) (ra_key m)"
  by (simp add: allowed_def ra_key_def split: if_splits)

lemma race_ok_step:
  assumes "race_step s s'" and ok: "race_ok s"
  shows "race_ok s'"
  using assms(1)
proof cases
  case (arrive i m)
  moreover have "map_of (hk_connections (ra_hook s)) i = None"
    using race_okD(2) [OF ok, of i] arrive by (cases "map_of (hk_connections (ra_hook s)) i") auto
  ultimately show ?thesis by (simp add: race_ok_phase [OF ok])
next
  case (pass i m)
  then show ?thesis using not_tracked [OF ok pass(2)] race_okD(5) [OF ok pass(2)] by (simp add: race_ok_phase [OF ok])
next
  case (turn i m)
  then show ?thesis by (simp add: race_ok_close [OF ok turn(2)])
next
  case (limit i m)
  then show ?thesis by (simp add: race_ok_close [OF ok limit(2)])
next
  case (unlimited i m)
  then show ?thesis using not_tracked [OF ok unlimited(2)] by (simp add: race_ok_phase [OF ok])
next
  case (cut i m)
  then show ?thesis by (simp add: race_ok_close [OF ok cut(2)])
next
  case (hang_up i p m)
  then show ?thesis by (auto intro!: race_ok_close [OF ok hang_up(2)])
next
  case (store i m b)
  show ?thesis unfolding store(1)
    by (rule race_okI) (use race_okD [OF ok] store in \<open>auto simp: move_def hook_simps ra_key_def revoke_pending_def split: if_splits\<close>)
next
  case (keep i m)
  have key: "map_of (hk_connections (ra_hook s)) i = Some k \<Longrightarrow> ra_key m = k" for k
    using race_okD(2) [OF ok, of i k] keep(2) by auto
  show ?thesis unfolding keep(1)
    by (rule race_okI) (use race_okD [OF ok] keep allowed_active key in \<open>auto simp: move_def revoke_pending_def split: if_splits\<close>)
next
  case (manage tag)
  show ?thesis unfolding manage(1)
    by (rule race_okI) (use race_okD [OF ok] manage in \<open>auto simp: walk_def revoke_pending_def split: if_splits\<close>)
next
  case (activate_user tag u)
  show ?thesis unfolding activate_user(1)
    by (rule race_okI) (use race_okD [OF ok] activate_user in \<open>auto simp: walk_def revoke_pending_def hook_simps activate_def split: if_splits\<close>)
next
  case (revoke_delete key)
  show ?thesis unfolding revoke_delete(1)
    by (rule race_okI) (use race_okD [OF ok] revoke_delete in \<open>auto simp: walk_def revoke_pending_def split: if_splits\<close>)
next
  case (revoke_range key)
  have t: "i \<in> fst ` set (hk_connections (ra_hook s))" if "map_of (ra_conns s) i = Some (Kept, m)" "i \<notin> hk_closed (ra_hook s)" for i m
    using map_of_SomeD [OF race_okD(3) [OF ok that]] by force
  show ?thesis unfolding revoke_range(1)
    by (rule race_okI) (use race_okD [OF ok] revoke_range t in \<open>auto simp: walk_def revoke_pending_def split: if_splits\<close>)
next
  case (revoke_visit key todo i)
  let ?h = "ra_hook s" and ?hit = "map_of (hk_connections (ra_hook s)) i = Some key"
  have c: "map_of (hk_connections (visit key i ?h)) j = (if j = i \<and> ?hit then None else map_of (hk_connections ?h) j)" for j
    using tracked_close_connections [OF closable [OF ok, of i], of j] by (auto simp: visit_def)
  have d: "hk_closed (visit key i ?h) = (if ?hit then insert i (hk_closed ?h) else hk_closed ?h)"
    "hk_activeUsers (visit key i ?h) = hk_activeUsers ?h" "hk_managedNodes (visit key i ?h) = hk_managedNodes ?h"
    by (simp_all add: visit_def hook_simps)
  have r: "mhas (hk_activeUsers ?h) (ra_key m) \<or> key = ra_key m \<and> j \<in> set todo"
    if "map_of (ra_conns s) j = Some (Kept, m)" "j \<notin> hk_closed ?h" "mhas (hk_managedNodes ?h) (ic_Inbound m)" for j m
    using race_okD(4) [OF ok that] revoke_visit(2) by (auto simp: revoke_pending_def)
  have n: "ra_key m = key \<Longrightarrow> ?hit" if "map_of (ra_conns s) i = Some (Kept, m)" "i \<notin> hk_closed ?h" for m
    using race_okD(3) [OF ok that] by simp
  note s' = revoke_visit(1) walk_def
  show ?thesis
  proof (rule race_okI, goal_cases)
    case (1 j k)
    then show ?case using race_okD(1,2) [OF ok, of j k] by (auto simp: s' c d split: if_splits)
  next
    case (2 j p m)
    then show ?case using race_okD(3) [OF ok, of j p m] by (auto simp: s' c d split: if_splits)
  next
    case (3 j m)
    then have "map_of (ra_conns s) j = Some (Kept, m)" "j \<notin> hk_closed ?h" "j = i \<Longrightarrow> \<not> ?hit"
      "mhas (hk_managedNodes ?h) (ic_Inbound m)" by (auto simp: s' d split: if_splits)
    with r [of j m] n [of m] show ?case by (auto simp: s' d revoke_pending_def)
  next
    case (4 j p m)
    then have "map_of (ra_conns s) j = Some (p, m)" by (simp add: s')
    with 4 race_okD(5) [OF ok this] race_okD(2) [OF ok, of i key] show ?case by (auto simp: s' d split: if_splits)
  qed
next
  case (revoke_done key)
  show ?thesis unfolding revoke_done(1)
    by (rule race_okI) (use race_okD [OF ok] revoke_done in \<open>auto simp: walk_def revoke_pending_def split: if_splits\<close>)
qed

lemma race_ok_reach: "race_reach s \<Longrightarrow> race_ok s"
proof (induction rule: race_reach.induct)
  case init
  then show ?case by (simp add: race_ok_def tracked_ok_def NewHookServer_def)
next
  case (again s s')
  then show ?case by (blast intro: race_ok_step)
qed

text \<open>The walk of a revocation over the connections is, without others in between, the code's loop.\<close>

lemma close_matching_walk:
  "distinct (map fst cs) \<Longrightarrow> \<forall>(i, k) \<in> set cs. map_of (hk_connections h) i = Some k \<and> i \<notin> hk_closed h \<Longrightarrow>
   close_matching key cs h = fold (visit key) (map fst cs) h"
proof (induction cs arbitrary: h)
  case (Cons a cs)
  obtain i k where a: "a = (i, k)" by (cases a)
  with Cons.prems(2) have i: "map_of (hk_connections h) i = Some k" "i \<notin> hk_closed h" by simp_all
  then have "\<forall>(j, l) \<in> set cs. map_of (hk_connections (visit key i h)) j = Some l \<and> j \<notin> hk_closed (visit key i h)"
    using Cons.prems a tracked_close_connections [of h i] by (force simp: visit_def hook_simps)
  with Cons a i show ?case by (simp add: visit_def)
qed simp

lemma HookServer_revoke_walk:
  assumes "distinct (map fst (hk_connections h))" and "\<forall>i. map_of (hk_connections h) i \<noteq> None \<longrightarrow> i \<notin> hk_closed h"
  shows "HookServer_revoke tag user h =
    fold (visit (userKey tag user)) (map fst (hk_connections h)) (h\<lparr>hk_activeUsers := mdel (userKey tag user) (hk_activeUsers h)\<rparr>)"
proof -
  have "\<forall>(i, k) \<in> set (hk_connections h). map_of (hk_connections h) i = Some k \<and> i \<notin> hk_closed h"
    using assms by (force simp: map_of_is_SomeI)
  then show ?thesis using assms(1) by (simp add: HookServer_revoke_def Let_def close_matching_walk)
qed


text \<open>A connection is kept while its user is deleted; the walk closes it.\<close>

definition race_demo :: InboundContext where
  "race_demo = \<lparr>ic_Inbound = ''t'', ic_User = ''u'', ic_Source = [], ic_Destination = [], ic_Network = [], ic_Protocol = []\<rparr>"

definition race_demo_passed :: race where
  "race_demo_passed = move 0 Passed race_demo id (move 0 Arrived race_demo id
     (walk Idle (activate ''t'' [sing_demo_user ''u'' 1])
       (walk Idle (\<lambda>h. h\<lparr>hk_managedNodes := mput ''t'' True (hk_managedNodes h)\<rparr>)
         \<lparr>ra_hook = NewHookServer, ra_conns = [], ra_change = Idle\<rparr>)))"

definition race_demo_kept :: race where
  "race_demo_kept =
     move 0 Kept race_demo id (move 0 Stored race_demo (\<lambda>h. snd (track 0 race_demo None h)) race_demo_passed)"

definition race_demo_cut :: race where
  "race_demo_cut = walk Idle id (walk (Walking (ra_key race_demo) (removeAll 0 [0])) (visit (ra_key race_demo) 0)
     (walk (Walking (ra_key race_demo) (map fst (hk_connections (ra_hook race_demo_kept)))) id
       (walk (Deleted (ra_key race_demo)) (\<lambda>h. h\<lparr>hk_activeUsers := mdel (ra_key race_demo) (hk_activeUsers h)\<rparr>) race_demo_kept)))"

lemma race_demo_passed_reach: "race_reach race_demo_passed"
proof -
  let ?s0 = "\<lparr>ra_hook = NewHookServer, ra_conns = [], ra_change = Idle\<rparr>"
  have 1: "race_step ?s0 (walk Idle (\<lambda>h. h\<lparr>hk_managedNodes := mput ''t'' True (hk_managedNodes h)\<rparr>) ?s0)" (is "race_step _ ?s1")
    using manage [of ?s0 "''t''"] by simp
  have 2: "race_step ?s1 (walk Idle (activate ''t'' [sing_demo_user ''u'' 1]) ?s1)" (is "race_step _ ?s2")
    by (rule activate_user) code_simp
  have 3: "race_step ?s2 (move 0 Arrived race_demo id ?s2)" (is "race_step _ ?s3") by (rule arrive) code_simp+
  have 4: "race_step ?s3 (move 0 Passed race_demo id ?s3)" (is "race_step _ ?s4") by (rule pass) code_simp+
  note again = race_reach.again
  show ?thesis unfolding race_demo_passed_def
    by (rule again [OF again [OF again [OF again [OF init 1] 2] 3] 4])
qed

lemma race_demo_reach: "race_reach race_demo_kept"
proof -
  have 5: "race_step race_demo_passed (move 0 Stored race_demo (\<lambda>h. snd (track 0 race_demo None h)) race_demo_passed)"
    (is "race_step _ ?s5") by (rule store) code_simp
  have 6: "race_step ?s5 (move 0 Kept race_demo id ?s5)" by (rule keep) code_simp+
  show ?thesis unfolding race_demo_kept_def
    by (rule race_reach.again [OF race_reach.again [OF race_demo_passed_reach 5] 6])
qed

text \<open>A connection that arrives while the limiter of its node is missing is not tracked; the revocation of its
  user passes it by.\<close>

definition race_demo_loose :: race where
  "race_demo_loose = move 0 Loose race_demo id race_demo_passed"

lemma loose_reach: "race_reach race_demo_loose"
  unfolding race_demo_loose_def
  by (rule race_reach.again [OF race_demo_passed_reach unlimited]) code_simp

lemma loose_connection_survives:
  "\<exists>s. race_reach s \<and> ra_change s = Idle \<and> map_of (ra_conns s) 0 = Some (Loose, race_demo) \<and>
     mhas (hk_managedNodes (ra_hook s)) (ic_Inbound race_demo) \<and> \<not> mhas (hk_activeUsers (ra_hook s)) (ra_key race_demo) \<and>
     0 \<notin> hk_closed (ra_hook s)"
proof -
  let ?a = "walk (Deleted (ra_key race_demo)) (\<lambda>h. h\<lparr>hk_activeUsers := mdel (ra_key race_demo) (hk_activeUsers h)\<rparr>) race_demo_loose"
  let ?b = "walk (Walking (ra_key race_demo) []) id ?a" and ?c = "\<lambda>s. walk Idle id s"
  have m: "map fst (hk_connections (ra_hook ?a)) = []" by code_simp
  have a: "race_step race_demo_loose ?a" by (rule revoke_delete) code_simp
  have b: "race_step ?a ?b" using revoke_range [of ?a "ra_key race_demo"] by (simp add: m) (simp add: walk_def)
  have c: "race_step ?b (?c ?b)" by (rule revoke_done) (simp add: walk_def)
  have "race_reach (?c ?b)" using race_reach.again [OF race_reach.again [OF race_reach.again [OF loose_reach a] b] c] .
  moreover have "ra_change (?c ?b) = Idle" "map_of (ra_conns (?c ?b)) 0 = Some (Loose, race_demo)"
    "mhas (hk_managedNodes (ra_hook (?c ?b))) (ic_Inbound race_demo)" "\<not> mhas (hk_activeUsers (ra_hook (?c ?b))) (ra_key race_demo)"
    "0 \<notin> hk_closed (ra_hook (?c ?b))" by code_simp+
  ultimately show ?thesis by blast
qed


end
