(* ===== verification/Sing_Login.thy ===== *)
theory Sing_Login
  imports Sing_Revocation
begin

text \<open>
  How the managed services find the user of a connection (runtime/patches: the NewConnection of sing-vmess,
  sing-box's trojan, sing-anytls and sing-shadowsocks, the handshakes of sing-quic).  Every one takes a
  snapshot of its tables first and decides on it.  What was read from the connection, decrypted or parsed by
  a library is an argument, in the order the code asks for it.
\<close>

section \<open>Outcomes\<close>

text \<open>An error, the fallback with the bytes read so far, or the handler called for a user.\<close>

datatype login = Denied err | FallBackTo string | ServeTCP string | ServeUDP string | ServeMux string

fun login_user :: "login \<Rightarrow> string option" where
  "login_user (ServeTCP u) = Some u"
| "login_user (ServeUDP u) = Some u"
| "login_user (ServeMux u) = Some u"
| "login_user l = None"

section \<open>VLESS\<close>

record VLESSRequest =
  vq_UUID :: string
  vq_Command :: nat
  vq_Flow :: string

record vless_constants =
  vk_NetworkUDP :: nat
  vk_CommandTCP :: nat
  vk_CommandUDP :: nat
  vk_CommandMux :: nat
  vk_FlowVision :: string

definition flowName :: "string \<Rightarrow> string" where
  "flowName value = (if value = [] then ''none'' else value)"

definition VLESS_NewConnection :: "vless_constants \<Rightarrow> err option \<Rightarrow> VLESSRequest res \<Rightarrow> VLESSService \<Rightarrow> login" where
  "VLESS_NewConnection K vision request s = (case request of
     Inl e \<Rightarrow> Denied e
   | Inr r \<Rightarrow> (case map_of (vls_userMap s) (vq_UUID r) of
       None \<Rightarrow> Denied (''unknown UUID: '' @ vq_UUID r)
     | Some user \<Rightarrow>
         (let userFlow = mget_or [] (vls_userFlow s) user
          in if vq_Flow r = vk_FlowVision K \<and> vq_Command r = vk_NetworkUDP K
             then Denied (vk_FlowVision K @ '' flow does not support UDP'')
             else if vq_Flow r \<noteq> userFlow
             then Denied (''flow mismatch: expected '' @ flowName userFlow @ '', but got '' @ flowName (vq_Flow r))
             else if vq_Command r = vk_CommandUDP K then ServeUDP user
             else (case (if userFlow = vk_FlowVision K then map_option (\<lambda>e. ''initialize vision: '' @ e) vision
                         else if userFlow = [] then None else Some (''unknown flow: '' @ userFlow)) of
                 Some e \<Rightarrow> Denied e
               | None \<Rightarrow> if vq_Command r = vk_CommandTCP K then ServeTCP user
                   else if vq_Command r = vk_CommandMux K then ServeMux user
                   else Denied ''unknown command: ''))))"

section \<open>Trojan\<close>

record TrojanStream =
  tst_key :: "string res"
  tst_crlf1 :: "err option"
  tst_command :: "nat res"
  tst_destination :: "string res"
  tst_crlf2 :: "err option"

record trojan_constants =
  tk_KeyLength :: nat
  tk_CommandTCP :: nat
  tk_CommandUDP :: nat
  tk_CommandMux :: nat
  tk_fallbackHandler :: bool

definition Trojan_fallback :: "bool \<Rightarrow> string \<Rightarrow> err \<Rightarrow> login" where
  "Trojan_fallback enabled header e = (if \<not> enabled then Denied (e @ '': fallback disabled'') else FallBackTo header)"

definition Trojan_NewConnection :: "trojan_constants \<Rightarrow> TrojanStream \<Rightarrow> TrojanService \<Rightarrow> login" where
  "Trojan_NewConnection K c s = (case tst_key c of
     Inl e \<Rightarrow> Denied e
   | Inr key \<Rightarrow>
       if length key \<noteq> tk_KeyLength K then Trojan_fallback (tk_fallbackHandler K) key ''bad request size''
       else (case map_of (tro_keys s) key of
           None \<Rightarrow> Trojan_fallback (tk_fallbackHandler K) key ''bad request''
         | Some user \<Rightarrow> (case tst_crlf1 c of
             Some e \<Rightarrow> Denied (''skip crlf: '' @ e)
           | None \<Rightarrow> (case tst_command c of
               Inl e \<Rightarrow> Denied (''read command: '' @ e)
             | Inr command \<Rightarrow>
                 if command \<notin> {tk_CommandTCP K, tk_CommandUDP K, tk_CommandMux K} then Denied ''unknown command ''
                 else (case tst_destination c of
                     Inl e \<Rightarrow> Denied (''read destination: '' @ e)
                   | Inr destination \<Rightarrow> (case tst_crlf2 c of
                       Some e \<Rightarrow> Denied (''skip crlf: '' @ e)
                     | None \<Rightarrow> if command = tk_CommandTCP K then ServeTCP user
                         else if command = tk_CommandUDP K then ServeUDP user else ServeMux user))))))"

section \<open>AnyTLS\<close>

definition be16 :: "string \<Rightarrow> nat" where
  "be16 s = (case s of a # b # _ \<Rightarrow> 256 * of_char a + of_char b | _ \<Rightarrow> 0)"

text \<open>One packet holds the digest of the password, the length of a padding and the padding; what does not
  fit it goes to the fallback from its first byte.\<close>

definition AnyTLS_NewConnection :: "bool \<Rightarrow> string res \<Rightarrow> (string, string) gomap \<Rightarrow> login" where
  "AnyTLS_NewConnection fallback packet users = (case packet of
     Inl e \<Rightarrow> Denied e
   | Inr b \<Rightarrow>
       if length b < 32 then Trojan_fallback fallback b ''EOF''
       else (case map_of users (take 32 b) of
           None \<Rightarrow> Trojan_fallback fallback b ''unknown user password''
         | Some user \<Rightarrow>
             if length b < 34 then Trojan_fallback fallback b ''EOF: read padding length''
             else (let paddingLen = be16 (drop 32 b)
               in if paddingLen > 0 \<and> length b < 34 + paddingLen
                  then Trojan_fallback fallback b ''EOF: read padding'' else ServeTCP user)))"

section \<open>VMess\<close>

text \<open>
  The search through the users' ciphers: \<open>vd_open\<close> decrypts an authentication identifier and gives its
  timestamp when the checksum is right; \<open>vd_replay\<close> is the replay filter.
\<close>

record vmess_decode =
  vd_open :: "string \<Rightarrow> string \<Rightarrow> int option"
  vd_replay :: "string \<Rightarrow> string \<Rightarrow> bool"
  vd_now :: int

fun VMess_search :: "vmess_decode \<Rightarrow> string \<Rightarrow> (string, string) gomap \<Rightarrow> string option res" where
  "VMess_search V authId [] = Inr None"
| "VMess_search V authId ((currUser, userIdBlock) # l) = (case vd_open V userIdBlock authId of
     None \<Rightarrow> VMess_search V authId l
   | Some timestamp \<Rightarrow>
       if \<bar>\<bar>timestamp\<bar> - vd_now V\<bar> > 120 then Inl ''bad timestamp''
       else if \<not> vd_replay V userIdBlock authId then Inl ''replayed request''
       else Inr (Some currUser))"

definition VMess_identify :: "vmess_decode \<Rightarrow> string \<Rightarrow> VMessService \<Rightarrow> (string \<times> int option) res" where
  "VMess_identify V authId s = (case VMess_search V authId (vms_userIdCipher s) of
     Inl e \<Rightarrow> Inl e
   | Inr (Some user) \<Rightarrow> Inr (user, None)
   | Inr None \<Rightarrow> (case map_of (vms_alterIdMap s) authId of
       Some (user, time, index) \<Rightarrow> Inr (user, Some time)
     | None \<Rightarrow> Inl ''bad request''))"

section \<open>Shadowsocks\<close>

text \<open>What the multi-user services of the 2022 edition read: the header (with the whole length it must have),
  the verdict on its salt, the decrypted identity, and then the parts of the first chunk.\<close>

record SS2022Stream =
  sst_header :: "string res"
  sst_headerLength :: nat
  sst_saltFresh :: bool
  sst_identity :: "string res"
  sst_cipher :: "string \<Rightarrow> err option"
  sst_chunk :: "err option"
  sst_type :: "nat res"
  sst_epoch :: "int res"
  sst_length :: "nat res"
  sst_payload :: "err option"
  sst_destination :: "string res"
  sst_paddingLen :: "nat res"
  sst_cached :: nat
  sst_discard :: "err option"

definition ss2022_padding :: "SS2022Stream \<Rightarrow> err option" where
  "ss2022_padding c = (case sst_paddingLen c of
     Inl e \<Rightarrow> Some (''read padding length: '' @ e)
   | Inr paddingLen \<Rightarrow>
       if sst_cached c < paddingLen then Some ''bad padding''
       else if paddingLen > 0 then map_option (\<lambda>e. ''discard padding: '' @ e) (sst_discard c)
       else if sst_cached c = 0 then Some ''no padding'' else None)"

definition ss2022_chunk :: "nat \<Rightarrow> int \<Rightarrow> SS2022Stream \<Rightarrow> err option" where
  "ss2022_chunk typeClient now c = (case sst_chunk c of
     Some e \<Rightarrow> Some e
   | None \<Rightarrow> (case sst_type c of
       Inl e \<Rightarrow> Some (''read header: '' @ e)
     | Inr t \<Rightarrow>
         if t \<noteq> typeClient then Some ''bad header type''
         else (case sst_epoch c of
             Inl e \<Rightarrow> Some (''read timestamp: '' @ e)
           | Inr epoch \<Rightarrow>
               if \<bar>now - epoch\<bar> > 30 then Some ''bad timestamp''
               else (case sst_length c of
                   Inl e \<Rightarrow> Some (''read length: '' @ e)
                 | Inr n \<Rightarrow> (case sst_payload c of
                     Some e \<Rightarrow> Some e
                   | None \<Rightarrow> (case sst_destination c of
                       Inl e \<Rightarrow> Some (''read destination: '' @ e)
                     | Inr d \<Rightarrow> ss2022_padding c))))))"

definition SS2022_NewConnection :: "nat \<Rightarrow> int \<Rightarrow> SS2022Stream \<Rightarrow> SS2022Service \<Rightarrow> login" where
  "SS2022_NewConnection typeClient now c s = (case sst_header c of
     Inl e \<Rightarrow> Denied e
   | Inr header \<Rightarrow>
       if length header < sst_headerLength c then Denied ''bad header''
       else if \<not> sst_saltFresh c then Denied ''salt not unique''
       else (case sst_identity c of
           Inl e \<Rightarrow> Denied e
         | Inr eih \<Rightarrow> (case map_of (s22_uPSKHash s) eih of
             None \<Rightarrow> Denied ''invalid request''
           | Some user \<Rightarrow> (case sst_cipher c (mget_or [] (s22_uPSK s) user) of
               Some e \<Rightarrow> Denied e
             | None \<Rightarrow> (case ss2022_chunk typeClient now c of Some e \<Rightarrow> Denied e | None \<Rightarrow> ServeTCP user)))))"

text \<open>The older ciphers try every user's method: \<open>make\<close> builds its cipher from the header, \<open>open\<close> is the first chunk.\<close>

fun AEAD_search :: "(string \<Rightarrow> err option) \<Rightarrow> (string \<Rightarrow> err option) \<Rightarrow> err option \<Rightarrow> (string, string) gomap \<Rightarrow> string res" where
  "AEAD_search mk opens failed [] = (case failed of Some e \<Rightarrow> Inl e | None \<Rightarrow> Inl nil_pointer)"
| "AEAD_search mk opens failed ((u, m) # l) = (case mk m of
     Some e \<Rightarrow> Inl e
   | None \<Rightarrow> (case opens m of Some e \<Rightarrow> AEAD_search mk opens (Some e) l | None \<Rightarrow> Inr u))"

definition AEAD_NewConnection ::
  "string res \<Rightarrow> (string \<Rightarrow> err option) \<Rightarrow> (string \<Rightarrow> err option) \<Rightarrow> string res \<Rightarrow> AEADService \<Rightarrow> login" where
  "AEAD_NewConnection header mk opens destination s =
     (if sa_methodMap s = [] then Denied ''no users''
      else (case header of
          Inl e \<Rightarrow> Denied (''read header: '' @ e)
        | Inr h \<Rightarrow> (case AEAD_search mk opens None (sa_methodMap s) of
            Inl e \<Rightarrow> Denied e
          | Inr user \<Rightarrow> (case destination of Inl e \<Rightarrow> Denied e | Inr d \<Rightarrow> ServeTCP user))))"

section \<open>QUIC sessions\<close>

text \<open>A session is authenticated once; its later streams carry the user it was authenticated as.\<close>

record quic_session =
  qs_authUser :: "string option"
  qs_closed :: "err option"

definition qs_close :: "err \<Rightarrow> quic_session \<Rightarrow> quic_session" where
  "qs_close e q = (case qs_closed q of Some _ \<Rightarrow> q | None \<Rightarrow> q\<lparr>qs_closed := Some e\<rparr>)"

text \<open>The handshake of Hysteria: the control stream, the client's hello and whether the answer was written.\<close>

definition Hysteria_handleConnection ::
  "err option \<Rightarrow> string res \<Rightarrow> err option \<Rightarrow> (string, string) gomap \<Rightarrow> quic_session \<Rightarrow> quic_session" where
  "Hysteria_handleConnection acceptStream clientHello written userMap q = (case acceptStream of
     Some e \<Rightarrow> qs_close e q
   | None \<Rightarrow> (case clientHello of
       Inl e \<Rightarrow> qs_close (''read client hello: '' @ e) q
     | Inr auth \<Rightarrow> (case map_of userMap auth of
         None \<Rightarrow> qs_close (''authentication failed, auth_str='' @ auth) q
       | Some user \<Rightarrow> (case written of
           Some e \<Rightarrow> qs_close e q | None \<Rightarrow> q\<lparr>qs_authUser := Some user\<rparr>))))"

text \<open>Hysteria 2 authenticates by an HTTP request; the answer is the masquerade's or the status of success.\<close>

datatype http_answer = Masquerade | StatusAuthOK

record hy2_limits =
  hl_sendBPS :: nat
  hl_receiveBPS :: nat
  hl_ignoreClientBandwidth :: bool

definition Hysteria2_ServeHTTP ::
  "hy2_limits \<Rightarrow> bool \<Rightarrow> string \<Rightarrow> nat \<Rightarrow> (string, string) gomap \<Rightarrow> quic_session \<Rightarrow> http_answer \<times> nat option \<times> quic_session" where
  "Hysteria2_ServeHTTP H isAuthURL auth rx userMap q =
     (if \<not> isAuthURL then (Masquerade, None, q)
      else if qs_authUser q \<noteq> None then (StatusAuthOK, None, q)
      else (case map_of userMap auth of
          None \<Rightarrow> (Masquerade, None, q)
        | Some user \<Rightarrow>
            (let q = q\<lparr>qs_authUser := Some user\<rparr>
             in if hl_receiveBPS H > 0 \<and> hl_ignoreClientBandwidth H \<and> rx = 0 then (Masquerade, None, q)
                else if \<not> (hl_receiveBPS H = 0 \<and> hl_ignoreClientBandwidth H) \<and> rx > 0
                then (StatusAuthOK, Some (if hl_sendBPS H > 0 \<and> rx > hl_sendBPS H then hl_sendBPS H else rx), q)
                else (StatusAuthOK, None, q))))"

text \<open>The unidirectional stream that authenticates a TUIC session; \<open>token\<close> derives the key material of a
  user and a password.\<close>

definition TUIC_authenticate ::
  "err option \<Rightarrow> (string \<Rightarrow> string \<Rightarrow> string res) \<Rightarrow> string \<Rightarrow> string \<Rightarrow> TUICService \<Rightarrow> quic_session \<Rightarrow> err option \<times> quic_session" where
  "TUIC_authenticate readRest token userUUID given s q =
     (if qs_authUser q \<noteq> None then (Some ''authentication: multiple authentication requests'', q)
      else (case readRest of
          Some e \<Rightarrow> (Some (''authentication: read request: '' @ e), q)
        | None \<Rightarrow> (case map_of (tqs_userMap s) userUUID of
            None \<Rightarrow> (Some (''authentication: unknown user '' @ userUUID), q)
          | Some user \<Rightarrow> (case token userUUID (mget_or [] (tqs_passwordMap s) user) of
              Inl e \<Rightarrow> (Some (''authentication: export keying material: '' @ e), q)
            | Inr t \<Rightarrow> if t \<noteq> given then (Some ''authentication: token mismatch'', q)
                else (None, q\<lparr>qs_authUser := Some user\<rparr>)))))"

text \<open>A later stream of a TUIC session: it waits until the session is authenticated.\<close>

definition TUIC_handleStream ::
  "nat \<Rightarrow> nat \<Rightarrow> (nat \<times> nat) res \<Rightarrow> string res \<Rightarrow> quic_session \<Rightarrow> login option" where
  "TUIC_handleStream Version CommandConnect request destination q = (case request of
     Inl e \<Rightarrow> Some (Denied (''read request: '' @ e))
   | Inr (version, command) \<Rightarrow>
       if version \<noteq> Version then Some (Denied ''unknown version '')
       else if command \<noteq> CommandConnect then Some (Denied ''unsupported stream command '')
       else (case destination of
           Inl e \<Rightarrow> Some (Denied (''read request destination: '' @ e))
         | Inr d \<Rightarrow> (case qs_closed q of
             Some e \<Rightarrow> Some (Denied e)
           | None \<Rightarrow> map_option ServeTCP (qs_authUser q))))"

end
