(* ===== verification/Sing_Users.thy ===== *)
theory Sing_Users
  imports Sing_Login
begin

text \<open>
  What the authentication tables hold after an update of the managed users, and who gets through them:
  the SetManagedUsers of every inbound against the look-ups of its service (runtime/patches), and both
  against the snapshots of the core (runtime/core/sing/user.go).
\<close>

section \<open>Tables as pairs\<close>

text \<open>The credential under which a service knows a user.\<close>

fun logins :: "SingInbound \<Rightarrow> (string \<times> string) list" where
  "logins (VLESSInbound s) = vls_userMap s"
| "logins (VMessInbound s) = map prod.swap (vms_userIdCipher s)"
| "logins (TrojanInbound s) = tro_keys s"
| "logins (TUICInbound s) = tqs_userMap s"
| "logins (HysteriaInbound m) = m"
| "logins (Hysteria2Inbound m) = m"
| "logins (AnyTLSInbound m) = m"
| "logins (SS2022Inbound s) = s22_uPSKHash s"
| "logins (AEADInbound s) = map prod.swap (sa_methodMap s)"

definition right :: "string res \<Rightarrow> string" where
  "right r = (case r of Inl _ \<Rightarrow> [] | Inr x \<Rightarrow> x)"

text \<open>The credentials a list of users stands for on an inbound.\<close>

fun entries :: "digests \<Rightarrow> ManagedUsers \<Rightarrow> SingInbound \<Rightarrow> (string \<times> string) list" where
  "entries D (VLESSUsers us) inb = map (\<lambda>u. (uuid_or_v5 D (vl_UUID u), vl_Name u)) us"
| "entries D (VMessUsers us) inb =
     map (\<lambda>u. (right (dg_IdCipher D (dg_VMessKey D (uuid_or_v5 D (vm_UUID u)))), vm_Name u)) us"
| "entries D (TrojanUsers us) inb = map (\<lambda>u. (dg_Trojan D (pw_Password u), pw_Name u)) us"
| "entries D (TUICUsers us) inb = map (\<lambda>u. (right (dg_UUID D (tq_UUID u)), tq_Name u)) us"
| "entries D (HysteriaUsers us) inb = map (\<lambda>u. (pw_Password u, pw_Name u)) us"
| "entries D (Hysteria2Users us) inb = map (\<lambda>u. (pw_Password u, pw_Name u)) us"
| "entries D (AnyTLSUsers us) inb = map (\<lambda>u. (dg_Sha256 D (pw_Password u), pw_Name u)) us"
| "entries D (ShadowsocksUsers us) (AEADInbound s) = map (\<lambda>u. (right (dg_Method D (sa_name s) (pw_Password u)), pw_Name u)) us"
| "entries D (ShadowsocksUsers us) (SS2022Inbound s) =
     map (\<lambda>u. (dg_Blake3 D (salt_key D (s22_keySaltLength s) (right (dg_Base64 D (pw_Password u)))), pw_Name u)) us"
| "entries D (ShadowsocksUsers us) inb = []"

text \<open>Maps filled by insertion.\<close>

definition filled :: "('a \<Rightarrow> 'k) \<Rightarrow> ('a \<Rightarrow> 'v) \<Rightarrow> 'a list \<Rightarrow> ('k, 'v) gomap \<Rightarrow> ('k, 'v) gomap" where
  "filled f g l m = fold (\<lambda>x. mput (f x) (g x)) l m"

lemma filled_simps [simp]: "filled f g [] m = m" "filled f g (x # l) m = filled f g l (mput (f x) (g x) m)"
  by (simp_all add: filled_def)

lemma set_mput_fresh: "\<not> mhas m k \<Longrightarrow> set (mput k v m) = insert (k, v) (set m)"
  by (induction m) (auto simp: mhas_set)

lemma set_mput_sub: "set (mput k v m) \<subseteq> insert (k, v) (set m)"
  by (induction m) auto

lemma set_filled_sub: "set (filled f g l m) \<subseteq> (\<lambda>x. (f x, g x)) ` set l \<union> set m"
proof (induction l arbitrary: m)
  case (Cons x l)
  then show ?case using set_mput_sub [of "f x" "g x" m] by fastforce
qed simp

lemma set_filled:
  "distinct (map f l) \<Longrightarrow> \<forall>x\<in>set l. \<not> mhas m (f x) \<Longrightarrow>
   set (filled f g l m) = (\<lambda>x. (f x, g x)) ` set l \<union> set m"
proof (induction l arbitrary: m)
  case (Cons x l)
  have "\<forall>y\<in>set l. \<not> mhas (mput (f x) (g x) m) (f y)"
  proof
    fix y assume y: "y \<in> set l"
    with Cons.prems(1) have "f y \<noteq> f x" by (metis distinct.simps(2) image_eqI list.simps(9) set_map)
    with y Cons.prems(2) show "\<not> mhas (mput (f x) (g x) m) (f y)" by simp
  qed
  from Cons.IH [OF _ this] Cons.prems show ?case by (auto simp: set_mput_fresh)
qed simp

lemma set_filled_Nil: "distinct (map f l) \<Longrightarrow> set (filled f g l []) = (\<lambda>x. (f x, g x)) ` set l"
  by (simp add: set_filled)

subsection \<open>The tables that are built in a loop\<close>

lemma trojan_tables_ok:
  "trojan_tables D l us ks = Inr (us', ks') \<Longrightarrow>
   ks' = filled (\<lambda>(u, p). dg_Trojan D p) fst l ks \<and> distinct (map (\<lambda>(u, p). dg_Trojan D p) l) \<and>
   (\<forall>x\<in>set l. \<not> mhas ks (dg_Trojan D (snd x)))"
proof (induction l arbitrary: us ks)
  case (Cons x l)
  obtain u p where x: "x = (u, p)" by (cases x)
  from Cons.prems have r: "trojan_tables D l (mput u (dg_Trojan D p) us) (mput (dg_Trojan D p) u ks) = Inr (us', ks')"
    and n: "\<not> mhas ks (dg_Trojan D p)" by (auto simp: x mhas_def split: if_splits option.splits)
  from Cons.IH [OF r] n show ?case by (auto simp: x)
qed simp

lemma vmess_tables_ok:
  "vmess_tables D l t = Inr t' \<Longrightarrow>
   vms_userIdCipher t' = filled fst (\<lambda>(u, i, a). right (dg_IdCipher D (dg_VMessKey D (uuid_or_v5 D i)))) l (vms_userIdCipher t)"
  by (induction D l t rule: vmess_tables.induct) (auto simp: Let_def right_def split: sum.splits)

lemma ss2022_tables_ok:
  "ss2022_tables D l t = Inr t' \<Longrightarrow>
   s22_uPSKHash t' = filled (\<lambda>(u, k). dg_Blake3 D (salt_key D (s22_keySaltLength t) k)) fst l (s22_uPSKHash t)"
  by (induction D l t rule: ss2022_tables.induct) (auto simp: Let_def split: if_splits option.splits)

lemma decode_keys_ok: "decode_keys D ps = Inr ks \<Longrightarrow> ks = map (\<lambda>p. right (dg_Base64 D p)) ps"
  by (induction ps arbitrary: ks) (auto simp: right_def split: if_splits sum.splits)

lemma aead_fill_ok:
  "aead_fill D l s = (None, s') \<Longrightarrow>
   sa_methodMap s' = filled fst (\<lambda>(u, p). right (dg_Method D (sa_name s) p)) l (sa_methodMap s)"
  by (induction D l s rule: aead_fill.induct) (auto simp: right_def split: sum.splits)

lemma tuic_ids_ok:
  "tuic_ids D us = Inr l \<Longrightarrow> l = map (\<lambda>u. (tq_Name u, right (dg_UUID D (tq_UUID u)), tq_Password u)) us"
  by (induction us arbitrary: l) (auto simp: right_def split: sum.splits)

lemma filled_map: "filled f g (map h l) m = filled (f \<circ> h) (g \<circ> h) l m"
  by (induction l arbitrary: m) auto

section \<open>An update that succeeds\<close>

text \<open>The table an accepted list leaves: filled by credential or by name.\<close>

definition by_credential :: "(string \<times> string) list \<Rightarrow> (string \<times> string) list \<Rightarrow> bool" where
  "by_credential es t \<longleftrightarrow> t = filled fst snd es []"

definition by_name :: "(string \<times> string) list \<Rightarrow> (string \<times> string) list \<Rightarrow> bool" where
  "by_name es t \<longleftrightarrow> t = map prod.swap (filled snd fst es [])"

lemma fold_filled:
  "fold (\<lambda>(a, b). mput b a) l m = filled snd fst l m"
  "fold (\<lambda>u. mput (f u) (g u)) us m = filled f g us m"
  "fold (\<lambda>(a, b, c). mput (h a b c) (k a b c)) l' m = filled (\<lambda>(a, b, c). h a b c) (\<lambda>(a, b, c). k a b c) l' m"
  by (simp_all add: filled_def split_def)

lemma comp_case: "(\<lambda>(u, i, a). f u i a) \<circ> (\<lambda>x. (p x, q x, r x)) = (\<lambda>x. f (p x) (q x) (r x))"
  "(\<lambda>(u, i). g u i) \<circ> (\<lambda>x. (p x, q x)) = (\<lambda>x. g (p x) (q x))"
  by auto

lemma SetManagedUsers_table:
  assumes "SetManagedUsers D now us inb = (None, inb')"
  shows "by_credential (entries D us inb) (logins inb') \<or> by_name (entries D us inb) (logins inb')"
  using assms
proof (cases "(us, inb)" rule: fits.cases)
  case (1 us s)
  then show ?thesis using assms
    by (auto simp: VLESS_UpdateUsers_def fold_filled filled_map comp_case by_credential_def o_def)
next
  case (2 us s)
  from 2 assms obtain t where "vmess_tables D (map (\<lambda>u. (vm_Name u, vm_UUID u, vm_AlterId u)) us) empty_vmess = Inr t"
    "inb' = VMessInbound (generateLegacyKeys D now t)"
    by (auto simp: VMess_UpdateUsers_def split: sum.splits prod.splits)
  with vmess_tables_ok [OF this(1)] 2 show ?thesis
    by (simp add: generateLegacyKeys_def filled_map comp_case by_name_def empty_vmess_def o_def)
next
  case (3 us s)
  from 3 assms obtain a k where "trojan_tables D (passwords us) [] [] = Inr (a, k)" "logins inb' = k"
    by (auto simp: Trojan_UpdateUsers_def split: sum.splits prod.splits)
  with trojan_tables_ok [OF this(1)] 3 show ?thesis
    by (simp add: filled_map comp_case by_credential_def o_def)
next
  case (4 us s)
  with assms show ?thesis
    by (auto simp: TUIC_UpdateUsers_def fold_filled filled_map comp_case by_credential_def o_def dest!: tuic_ids_ok split: sum.splits)
next
  case (5 us s)
  then show ?thesis using assms
    by (auto simp: Hysteria_UpdateUsers_def fold_filled filled_map comp_case by_credential_def o_def)
next
  case (6 us s)
  then show ?thesis using assms
    by (auto simp: Hysteria2_UpdateUsers_def fold_filled filled_map comp_case by_credential_def o_def)
next
  case (7 us s)
  then show ?thesis using assms
    by (auto simp: AnyTLS_UpdateUsers_def fold_filled filled_map by_credential_def o_def)
next
  case (8 us s)
  let ?l = "zip (map fst (passwords us)) (map (\<lambda>p. right (dg_Base64 D p)) (map snd (passwords us)))"
  from 8 assms obtain t ks where k: "decode_keys D (map snd (passwords us)) = Inr ks"
    and t: "ss2022_tables D (zip (map fst (passwords us)) ks) (s\<lparr>s22_uPSK := [], s22_uPSKHash := [], s22_uCipher := []\<rparr>) = Inr t"
    "inb' = SS2022Inbound t"
    by (auto simp: SS2022_UpdateUsersWithPasswords_def SS2022_UpdateUsers_def split: sum.splits prod.splits)
  have l: "zip (map pw_Name us) ks = map (\<lambda>u. (pw_Name u, right (dg_Base64 D (pw_Password u)))) us"
    using decode_keys_ok [OF k] by (simp add: zip_map_map zip_same_conv_map o_def)
  from ss2022_tables_ok [OF t(1)] t(2) 8 show ?thesis
    by (simp add: l filled_map comp_case by_credential_def o_def)
next
  case (9 us s)
  from 9 assms obtain s' where "aead_fill D (passwords us) (s\<lparr>sa_methodMap := []\<rparr>) = (None, s')" "inb' = AEADInbound s'"
    by (cases "aead_fill D (passwords us) (s\<lparr>sa_methodMap := []\<rparr>)") (auto simp: AEAD_UpdateUsersWithPasswords_def)
  with aead_fill_ok [OF this(1)] 9 show ?thesis
    by (simp add: filled_map comp_case by_name_def o_def)
qed (use assms in simp_all)

lemma by_credential_sub: "by_credential es t \<Longrightarrow> set t \<subseteq> set es"
  using set_filled_sub [of fst snd es "[]"] by (auto simp: by_credential_def)

lemma by_name_sub: "by_name es t \<Longrightarrow> set t \<subseteq> set es"
  using set_filled_sub [of snd fst es "[]"] by (auto simp: by_name_def)

lemma by_credential_eq: "by_credential es t \<Longrightarrow> distinct (map fst es) \<Longrightarrow> set t = set es"
  by (simp add: by_credential_def set_filled_Nil)

lemma by_name_eq: "by_name es t \<Longrightarrow> distinct (map snd es) \<Longrightarrow> set t = set es"
  by (auto simp: by_name_def set_filled_Nil image_image)



section \<open>An update that fails\<close>

text \<open>The services that build new maps first keep their old ones.\<close>

lemma failed_update_keeps_table:
  assumes "SetManagedUsers D now us inb = (Some e, inb')"
  shows "inb' = inb \<or> (\<exists>s. inb = AEADInbound s)"
  using assms
  by (cases "(us, inb)" rule: fits.cases)
     (auto simp: VMess_UpdateUsers_def Trojan_UpdateUsers_def SS2022_UpdateUsersWithPasswords_def
        SS2022_UpdateUsers_def split: sum.splits prod.splits)

lemma aead_fill_fails:
  assumes "\<forall>x\<in>set l1. \<exists>m. dg_Method D (sa_name s) (snd x) = Inr m" and "dg_Method D (sa_name s) p = Inl e"
  shows "\<exists>s'. aead_fill D (l1 @ (u, p) # l2) s = (Some e, s') \<and>
    (\<forall>v. mhas (sa_methodMap s') v \<longleftrightarrow> v \<in> fst ` set l1 \<or> mhas (sa_methodMap s) v)"
  using assms
proof (induction l1 arbitrary: s)
  case (Cons x l1)
  obtain v q where x: "x = (v, q)" by (cases x)
  from Cons.prems obtain m where m: "dg_Method D (sa_name s) q = Inr m" by (auto simp: x)
  let ?s = "s\<lparr>sa_methodMap := mput v m (sa_methodMap s)\<rparr>"
  have "\<exists>s'. aead_fill D (l1 @ (u, p) # l2) ?s = (Some e, s') \<and>
      (\<forall>w. mhas (sa_methodMap s') w \<longleftrightarrow> w \<in> fst ` set l1 \<or> mhas (sa_methodMap ?s) w)"
    using Cons.prems by (intro Cons.IH) auto
  then show ?case by (auto simp: x m)
qed simp

text \<open>With the older Shadowsocks ciphers an update that is rejected has already taken effect: the table holds
  the users of the new list before the one that failed, and every other user is locked out.\<close>

theorem aead_update_not_atomic:
  assumes "\<forall>x\<in>set l1. \<exists>m. dg_Method D (sa_name s) (snd x) = Inr m" and "dg_Method D (sa_name s) p = Inl e"
  shows "\<exists>s'. AEAD_UpdateUsersWithPasswords D (l1 @ (u, p) # l2) s = (Some e, s') \<and>
    (\<forall>v. mhas (sa_methodMap s') v \<longleftrightarrow> v \<in> fst ` set l1)"
  using aead_fill_fails [of l1 D "s\<lparr>sa_methodMap := []\<rparr>" p e u l2] assms
  by (simp add: AEAD_UpdateUsersWithPasswords_def)

theorem aead_update_not_atomic_witness:
  "\<exists>s'. AEAD_UpdateUsersWithPasswords sing_demo_digests [(''a'', ''k''), (''b'', [])]
       \<lparr>sa_name = ''aes-128-gcm'', sa_methodMap = [(''old'', ''m'')]\<rparr> = (Some ''missing password'', s') \<and>
     \<not> mhas (sa_methodMap s') ''old''"
  using aead_update_not_atomic [of "[(''a'', ''k'')]" sing_demo_digests
      "\<lparr>sa_name = ''aes-128-gcm'', sa_methodMap = [(''old'', ''m'')]\<rparr>" "[]" "''missing password''" "''b''" "[]"]
  by (auto simp: sing_demo_digests_def)

section \<open>Users that are never installed\<close>

lemma decode_keys_bad:
  "p \<in> set ps \<Longrightarrow> dg_Base64 D p = Inl e \<Longrightarrow> \<exists>e'. decode_keys D ps = Inl e'"
  by (induction ps) (auto split: sum.splits)

lemma ss_users_passwords:
  "ss_users c us = Inr l \<Longrightarrow> list_all2 (\<lambda>u x. pw_Name x = u \<and> ss_password c u = Inr (pw_Password x)) us l"
  by (induction us arbitrary: l) (auto split: sum.splits)

lemma chacha_password: "ss_password ''2022-blake3-chacha20-poly1305'' u = Inr p \<Longrightarrow> p = u"
  by (auto simp: ss_password_def split: if_splits)

lemma setUsers_chacha:
  assumes n: "ni_Type (ap_NodeInfo p) = ''shadowsocks''" "ni_Shadowsocks (ap_NodeInfo p) = Some v"
      "ss_Cipher v = ''2022-blake3-chacha20-poly1305''"
    and u: "u \<in> uuids (ap_Users p)" "dg_Base64 (sb_digests L) u = Inl e0"
    and i: "sb_Get L (ap_Tag p) x = Some (SS2022Inbound s)"
  shows "\<exists>e x'. setUsers L p x = Return (Some e, x')"
proof -
  let ?us = "map ui_Uuid (ap_Users p)"
  have ne: "?us \<noteq> []" and mem: "u \<in> set ?us" using u(1) by (auto simp: uuids_def)
  show ?thesis
  proof (cases "ss_users ''2022-blake3-chacha20-poly1305'' ?us")
    case (Inl e)
    with n ne show ?thesis by (simp add: setUsers_def i managed_users_def Let_def)
  next
    case (Inr l)
    from mem obtain j where j: "j < length ?us" "?us ! j = u" by (auto simp: in_set_conv_nth)
    with list_all2_nthD [OF ss_users_passwords [OF Inr] j(1)] list_all2_lengthD [OF ss_users_passwords [OF Inr]]
    have y: "l ! j \<in> set l" "pw_Password (l ! j) = u" using chacha_password by auto
    then have "u \<in> set (map snd (passwords l))" by force
    from decode_keys_bad [OF this u(2)] obtain e where "decode_keys (sb_digests L) (map snd (passwords l)) = Inl e" by blast
    then have "SetManagedUsers (sb_digests L) (sb_now L) (ShadowsocksUsers l) (SS2022Inbound s) = (Some e, SS2022Inbound s)"
      by (simp add: SS2022_UpdateUsersWithPasswords_def)
    with n ne Inr show ?thesis by (simp add: setUsers_def i managed_users_def Let_def)
  qed
qed

text \<open>a node whose cipher is the 2022 ChaCha20 never gets a user: the core hands the uuid over as it is, and a
  uuid is no base64 (the decoder rejects the hyphen).\<close>

theorem chacha_node_without_users:
  assumes "ni_Type (ap_NodeInfo p) = ''shadowsocks''" and "ni_Shadowsocks (ap_NodeInfo p) = Some v"
    and "ss_Cipher v = ''2022-blake3-chacha20-poly1305''" and "sb_Get L (ap_Tag p) (sg_box b) = Some (SS2022Inbound s)"
    and "sing_in_step b" and "plain (ap_Tag p)"
    and "\<forall>k. CHR ''-'' \<in> set k \<longrightarrow> (\<exists>e. dg_Base64 (sb_digests L) k = Inl e)"
    and "u \<in> set (ap_Users p)" and "CHR ''-'' \<in> set (ui_Uuid u)"
  shows "\<exists>e b'. Sing_AddUsers L p b = (Inl e, b') \<and> sing_users b' (ap_Tag p) = sing_users b (ap_Tag p)"
proof -
  define old where "old = mget_or [] (sg_managedUsers b) (ap_Tag p)"
  define users where "users = fold (\<lambda>u. mput (ui_Uuid u) u) (ap_Users p) old"
  have "uuid_keyed old" using assms(5,6) by (simp add: sing_in_step_def tag_in_step_def old_def)
  then have "uuid_keyed users" by (simp add: users_def keyed_fold_mput)
  moreover have "mhas users (ui_Uuid u)" using assms(8) by (simp add: users_def fold_mput_users uuids_def)
  ultimately have u: "ui_Uuid u \<in> uuids (sortedUsers users)" by (simp add: uuids_sortedUsers)
  from assms(7,9) obtain e0 where e0: "dg_Base64 (sb_digests L) (ui_Uuid u) = Inl e0" by blast
  have "\<exists>e x'. setUsers L (p\<lparr>ap_Users := sortedUsers users\<rparr>) (sg_box b) = Return (Some e, x')"
    by (rule setUsers_chacha [where v = v and s = s]) (use assms u e0 in simp_all)
  then show ?thesis
    by (auto simp: Sing_AddUsers_def Let_def users_def [symmetric] old_def [symmetric] sing_users_def)
qed

definition chacha_digests :: digests where
  "chacha_digests = sing_demo_digests\<lparr>dg_Base64 := \<lambda>k. if CHR ''-'' \<in> set k then Inl ''illegal base64 data'' else Inr k\<rparr>"

definition chacha_lib :: "demo_box sing_lib" where
  "chacha_lib = demo_sing\<lparr>sb_digests := chacha_digests\<rparr>"

definition chacha_node :: NodeInfo where
  "chacha_node = sing_demo_node\<lparr>ni_Type := ''shadowsocks'', ni_Shadowsocks := Some \<lparr>ss_Common = sing_demo_common,
     ss_Cipher = ''2022-blake3-chacha20-poly1305'', ss_ServerKey = ''k''\<rparr>\<rparr>"

definition chacha_inbound :: SingInbound where
  "chacha_inbound = SS2022Inbound \<lparr>s22_uPSK = [], s22_uPSKHash = [], s22_uCipher = [], s22_keySaltLength = 32\<rparr>"

definition chacha_box :: demo_box where
  "chacha_box = [(''t'', (\<lparr>io_Type = ''shadowsocks'', io_Tag = ''t'', io_Options = None\<rparr>, chacha_inbound))]"

theorem chacha_node_without_users_witness:
  "\<exists>e b'. Sing_AddUsers chacha_lib \<lparr>ap_Tag = ''t'',
       ap_Users = [sing_demo_user ''6e1f7a52-5c1b-4e0f-9d2b-3f0c6c6a9c11'' 1], ap_NodeInfo = chacha_node\<rparr> (New_Sing chacha_box) = (Inl e, b') \<and>
     sing_users b' ''t'' = {}"
proof -
  let ?p = "\<lparr>ap_Tag = ''t'', ap_Users = [sing_demo_user ''6e1f7a52-5c1b-4e0f-9d2b-3f0c6c6a9c11'' 1], ap_NodeInfo = chacha_node\<rparr>"
  have g: "sb_Get chacha_lib (ap_Tag ?p) (sg_box (New_Sing chacha_box)) =
      Some (SS2022Inbound \<lparr>s22_uPSK = [], s22_uPSKHash = [], s22_uCipher = [], s22_keySaltLength = 32\<rparr>)"
    by (simp add: chacha_lib_def demo_sing_def New_Sing_def chacha_box_def chacha_inbound_def)
  have d: "\<forall>k. CHR ''-'' \<in> set k \<longrightarrow> (\<exists>e. dg_Base64 (sb_digests chacha_lib) k = Inl e)"
    by (simp add: chacha_lib_def chacha_digests_def)
  have n: "ni_Type (ap_NodeInfo ?p) = ''shadowsocks''"
    "ni_Shadowsocks (ap_NodeInfo ?p) = Some \<lparr>ss_Common = sing_demo_common, ss_Cipher = ''2022-blake3-chacha20-poly1305'', ss_ServerKey = ''k''\<rparr>"
    by (simp_all add: chacha_node_def)
  have m: "sing_demo_user ''6e1f7a52-5c1b-4e0f-9d2b-3f0c6c6a9c11'' 1 \<in> set (ap_Users ?p)"
    "CHR ''-'' \<in> set (ui_Uuid (sing_demo_user ''6e1f7a52-5c1b-4e0f-9d2b-3f0c6c6a9c11'' 1))" "plain (ap_Tag ?p)"
    by (simp_all add: sing_demo_user_def plain_def)
  from chacha_node_without_users [OF n _ g in_step_new m(3) d m(1,2)] show ?thesis
    by (simp add: sing_users_def New_Sing_def)
qed

section \<open>Who gets in\<close>

definition known :: "SingInbound \<Rightarrow> string set" where
  "known inb = set (map snd (logins inb))"

lemma map_of_known: "map_of m c = Some u \<Longrightarrow> u \<in> snd ` set m"
  using map_of_SomeD by force

lemma VMess_search_known: "VMess_search V a l = Inr (Some u) \<Longrightarrow> u \<in> fst ` set l"
  by (induction V a l rule: VMess_search.induct) (auto split: option.splits if_splits)

lemma AEAD_search_known: "AEAD_search mk opens failed l = Inr u \<Longrightarrow> u \<in> fst ` set l"
  by (induction mk opens failed l rule: AEAD_search.induct) (auto split: option.splits)

lemma Trojan_fallback_user [simp]: "login_user (Trojan_fallback b h e) = None"
  by (simp add: Trojan_fallback_def)

lemma VLESS_login: "login_user (VLESS_NewConnection K vision r s) = Some u \<Longrightarrow> u \<in> known (VLESSInbound s)"
  unfolding VLESS_NewConnection_def known_def
  by (auto simp: Let_def split: sum.splits option.splits if_splits dest!: map_of_known)

lemma Trojan_login: "login_user (Trojan_NewConnection K c s) = Some u \<Longrightarrow> u \<in> known (TrojanInbound s)"
  unfolding Trojan_NewConnection_def known_def
  by (auto split: sum.splits option.splits if_splits dest!: map_of_known)

lemma AnyTLS_login: "login_user (AnyTLS_NewConnection f packet m) = Some u \<Longrightarrow> u \<in> known (AnyTLSInbound m)"
  unfolding AnyTLS_NewConnection_def known_def
  by (auto simp: Let_def split: sum.splits option.splits if_splits dest!: map_of_known)

lemma SS2022_login: "login_user (SS2022_NewConnection t now c s) = Some u \<Longrightarrow> u \<in> known (SS2022Inbound s)"
  unfolding SS2022_NewConnection_def known_def
  by (auto split: sum.splits option.splits if_splits dest!: map_of_known)

lemma AEAD_login: "login_user (AEAD_NewConnection h mk opens d s) = Some u \<Longrightarrow> u \<in> known (AEADInbound s)"
  unfolding AEAD_NewConnection_def known_def
  by (auto simp: image_image split: sum.splits option.splits if_splits dest!: AEAD_search_known)

text \<open>A legacy entry of VMess belongs to a user with alternative identifiers.\<close>

definition legacy_known :: "VMessService \<Rightarrow> bool" where
  "legacy_known s \<longleftrightarrow> (\<forall>h u t i. map_of (vms_alterIdMap s) h = Some (u, t, i) \<longrightarrow> mhas (vms_userIdCipher s) u)"

lemma VMess_login:
  "legacy_known s \<Longrightarrow> VMess_identify V a s = Inr (u, t) \<Longrightarrow> u \<in> known (VMessInbound s)"
proof -
  assume lk: "legacy_known s" and i: "VMess_identify V a s = Inr (u, t)"
  then consider "VMess_search V a (vms_userIdCipher s) = Inr (Some u)"
    | tm j where "map_of (vms_alterIdMap s) a = Some (u, tm, j)"
    by (auto simp: VMess_identify_def split: sum.splits option.splits)
  then have "u \<in> fst ` set (vms_userIdCipher s)"
  proof cases
    case 1
    then show ?thesis by (rule VMess_search_known)
  next
    case 2
    with lk show ?thesis unfolding legacy_known_def mhas_set by blast
  qed
  then show ?thesis by (simp add: known_def image_image)
qed

text \<open>Every service built by an update has this property.\<close>

lemma vmess_tables_ids:
  "vmess_tables D l t = Inr t' \<Longrightarrow> (\<forall>u. mhas (vms_alterIds t) u \<longrightarrow> mhas (vms_userIdCipher t) u) \<Longrightarrow>
   mhas (vms_alterIds t') u \<Longrightarrow> mhas (vms_userIdCipher t') u"
  by (induction D l t rule: vmess_tables.induct) (auto simp: Let_def split: sum.splits if_splits)

lemma legacy_entries_user: "(h, u, t, i) \<in> set (legacy_entries D now s) \<Longrightarrow> mhas (vms_alterIds s) u"
  by (force simp: legacy_entries_def mhas_set)

lemma fold_entries: "map_of (fold (\<lambda>(h, e). mput h e) l m) k = Some v \<Longrightarrow> (k, v) \<in> set l \<or> map_of m k = Some v"
proof (induction l arbitrary: m)
  case (Cons x l)
  obtain h e where x: "x = (h, e)" by (cases x)
  from Cons.IH [of "mput h e m"] Cons.prems show ?case by (auto simp: x split: if_splits)
qed simp

lemma VMess_UpdateUsers_legacy:
  assumes "VMess_UpdateUsers D now l s = (None, s')"
  shows "legacy_known s'"
proof -
  from assms obtain t where t: "vmess_tables D l empty_vmess = Inr t" "s' = generateLegacyKeys D now t"
    by (auto simp: VMess_UpdateUsers_def split: sum.splits)
  show ?thesis unfolding legacy_known_def
  proof (intro allI impI)
    fix h u tm i assume "map_of (vms_alterIdMap s') h = Some (u, tm, i)"
    then have "(h, u, tm, i) \<in> set (legacy_entries D now t)"
      using fold_entries [of "legacy_entries D now t" "[]" h] by (simp add: t generateLegacyKeys_def)
    from legacy_entries_user [OF this] vmess_tables_ids [OF t(1)] show "mhas (vms_userIdCipher s') u"
      by (simp add: t generateLegacyKeys_def empty_vmess_def)
  qed
qed

lemma quic_login:
  "qs_authUser q = None \<Longrightarrow> qs_authUser (Hysteria_handleConnection a h w m q) = Some u \<Longrightarrow> u \<in> known (HysteriaInbound m)"
  "qs_authUser q = None \<Longrightarrow> qs_authUser (snd (snd (Hysteria2_ServeHTTP H url auth rx m q))) = Some u \<Longrightarrow> u \<in> known (Hysteria2Inbound m)"
  "qs_authUser q = None \<Longrightarrow> qs_authUser (snd (TUIC_authenticate r tok uuid given s q)) = Some u \<Longrightarrow> u \<in> known (TUICInbound s)"
  by (auto simp: Hysteria_handleConnection_def Hysteria2_ServeHTTP_def TUIC_authenticate_def qs_close_def known_def Let_def
      split: option.splits sum.splits if_splits dest!: map_of_known)

text \<open>What a client may send, by service.\<close>

datatype login_attempt =
    VLESSAttempt vless_constants "err option" "VLESSRequest res"
  | VMessAttempt vmess_decode string
  | TrojanAttempt trojan_constants TrojanStream
  | TUICAttempt "err option" "string \<Rightarrow> string \<Rightarrow> string res" string string
  | HysteriaAttempt "err option" "string res" "err option"
  | Hysteria2Attempt hy2_limits bool string nat
  | AnyTLSAttempt bool "string res"
  | SS2022Attempt nat int SS2022Stream
  | AEADAttempt "string res" "string \<Rightarrow> err option" "string \<Rightarrow> err option" "string res"

definition new_session :: quic_session where
  "new_session = \<lparr>qs_authUser = None, qs_closed = None\<rparr>"

lemma new_session_auth: "qs_authUser new_session = None"
  by (simp add: new_session_def)

fun logged_in :: "login_attempt \<Rightarrow> SingInbound \<Rightarrow> string option" where
  "logged_in (VLESSAttempt K v r) (VLESSInbound s) = login_user (VLESS_NewConnection K v r s)"
| "logged_in (VMessAttempt V a) (VMessInbound s) = (case VMess_identify V a s of Inr (u, t) \<Rightarrow> Some u | Inl e \<Rightarrow> None)"
| "logged_in (TrojanAttempt K c) (TrojanInbound s) = login_user (Trojan_NewConnection K c s)"
| "logged_in (TUICAttempt r tok uuid given) (TUICInbound s) = qs_authUser (snd (TUIC_authenticate r tok uuid given s new_session))"
| "logged_in (HysteriaAttempt a h w) (HysteriaInbound m) = qs_authUser (Hysteria_handleConnection a h w m new_session)"
| "logged_in (Hysteria2Attempt H url auth rx) (Hysteria2Inbound m) = qs_authUser (snd (snd (Hysteria2_ServeHTTP H url auth rx m new_session)))"
| "logged_in (AnyTLSAttempt f p) (AnyTLSInbound m) = login_user (AnyTLS_NewConnection f p m)"
| "logged_in (SS2022Attempt t now c) (SS2022Inbound s) = login_user (SS2022_NewConnection t now c s)"
| "logged_in (AEADAttempt h mk opens d) (AEADInbound s) = login_user (AEAD_NewConnection h mk opens d s)"
| "logged_in x inb = None"

lemma logged_in_known:
  assumes "logged_in x inb = Some u" and "\<forall>s. inb = VMessInbound s \<longrightarrow> legacy_known s"
  shows "u \<in> known inb"
  using assms
  by (cases "(x, inb)" rule: logged_in.cases)
     (auto simp: VLESS_login Trojan_login AnyTLS_login SS2022_login AEAD_login VMess_login quic_login [of new_session, OF new_session_auth]
      split: sum.splits prod.splits)

lemma SetManagedUsers_legacy:
  assumes "SetManagedUsers D now us inb = (None, inb')"
  shows "\<forall>s. inb' = VMessInbound s \<longrightarrow> legacy_known s"
proof (intro allI impI)
  fix s assume s: "inb' = VMessInbound s"
  have p: "map_prod id f q = (r, i) \<longleftrightarrow> fst q = r \<and> f (snd q) = i" for f :: "'a \<Rightarrow> 'b" and q :: "'c \<times> 'a" and r i
    by (cases q) auto
  from assms s obtain l v where "VMess_UpdateUsers D now l v = (None, s)"
    by (cases "(us, inb)" rule: fits.cases) (auto simp: p prod_eq_iff split: sum.splits)
  then show "legacy_known s" by (rule VMess_UpdateUsers_legacy)
qed

lemma SetManagedUsers_known:
  assumes "SetManagedUsers D now us inb = (None, inb')"
  shows "known inb' \<subseteq> snd ` set (entries D us inb)"
  using SetManagedUsers_table [OF assms] by_credential_sub by_name_sub by (fastforce simp: known_def)

text \<open>C16: over the tables of an accepted update, whatever a client sends, each service calls its handler (or
  authenticates a session) only as a user of the update's list.\<close>

theorem logins_are_managed:
  assumes "SetManagedUsers D now us inb = (None, inb')" and "logged_in x inb' = Some u"
  shows "u \<in> snd ` set (entries D us inb)"
  using SetManagedUsers_known [OF assms(1)] logged_in_known [OF assms(2) SetManagedUsers_legacy [OF assms(1)]] by blast

theorem logins_are_managed_witness:
  "''a'' \<in> snd ` set (entries sing_demo_digests (HysteriaUsers [\<lparr>pw_Name = ''a'', pw_Password = ''a''\<rparr>]) (HysteriaInbound []))"
  by (rule logins_are_managed [where D = sing_demo_digests and now = 0 and inb' = "HysteriaInbound [(''a'', ''a'')]"
        and x = "HysteriaAttempt None (Inr ''a'') None"]) code_simp+

text \<open>a VLESS node whose flow is spelled none locks its users out: the core passes the word on, and the service
  compares it with the flow of the request, which no client sends that way.\<close>

theorem vless_none_flow_locks_out:
  assumes "VLESS_UpdateUsers D (map (\<lambda>u. (vl_Name u, vl_UUID u, ''none'')) us) s = s'" and "vq_Flow r \<noteq> ''none''"
  shows "\<exists>e. VLESS_NewConnection K vision (Inr r) s' = Denied e"
proof -
  have n: "m = filled (\<lambda>u. vl_Name u) (\<lambda>_. ''none'') us [] \<Longrightarrow> map_of m u = Some f \<Longrightarrow> f = ''none''" for m u f
    using set_filled_sub [of vl_Name "\<lambda>_. ''none''" us "[]"] map_of_SomeD [of m u f] by auto
  have k: "map_of (vls_userMap s') c = Some u \<Longrightarrow> mhas (vls_userFlow s') u" for c u
  proof -
    have a: "snd ` set (filled f vl_Name us m) \<subseteq> snd ` set m \<union> vl_Name ` set us" for f and m :: "(string, string) gomap"
      using set_filled_sub [of f vl_Name us m] by force
    have b: "mhas (filled vl_Name g us m) v \<longleftrightarrow> v \<in> vl_Name ` set us \<or> mhas m v" for g and m :: "(string, string) gomap" and v
      by (induction us arbitrary: m) auto
    assume "map_of (vls_userMap s') c = Some u"
    from map_of_known [OF this] a [of "\<lambda>x. uuid_or_v5 D (vl_UUID x)" "[]"] show ?thesis
      unfolding assms(1) [symmetric] by (auto simp: VLESS_UpdateUsers_def fold_filled filled_map comp_case o_def b)
  qed
  have f: "mget_or [] (vls_userFlow s') u = ''none''" if "map_of (vls_userMap s') c = Some u" for c u
    using k [OF that] n [of "vls_userFlow s'" u] unfolding assms(1) [symmetric]
    by (auto simp: VLESS_UpdateUsers_def fold_filled filled_map comp_case o_def mhas_def mget_or_def)
  show ?thesis using assms(2) f by (auto simp: VLESS_NewConnection_def Let_def split: option.split)
qed

theorem vless_none_flow_locks_out_witness:
  "\<exists>e. VLESS_NewConnection \<lparr>vk_NetworkUDP = 2, vk_CommandTCP = 1, vk_CommandUDP = 2, vk_CommandMux = 3, vk_FlowVision = ''xtls-rprx-vision''\<rparr>
     None (Inr \<lparr>vq_UUID = ''u'', vq_Command = 1, vq_Flow = []\<rparr>)
     (VLESS_UpdateUsers sing_demo_digests [(''u'', ''u'', ''none'')] \<lparr>vls_userMap = [], vls_userFlow = []\<rparr>) = Denied e"
  using vless_none_flow_locks_out [of sing_demo_digests "[\<lparr>vl_Name = ''u'', vl_UUID = ''u'', vl_Flow = ''none''\<rparr>]", OF refl] by simp

end
