(* ===== verification/Sing_Legacy.thy ===== *)
theory Sing_Legacy
  imports Sing_Core
begin

text \<open>
  The migration of configuration files of the older manager (runtime/core/sing/config_compat.go): block
  outbounds become reject rules, DNS addresses become typed servers.  A document is the \<open>any\<close> value that
  json.Unmarshal makes of it; maps that the code changes in place are returned changed.  The construction of
  the core (sing.go New) and the check of its configuration (check.go) read files through it.
\<close>

section \<open>Reading a document\<close>

text \<open>The type assertions; the zero value where the code ignores a failure.\<close>

fun as_map :: "any option \<Rightarrow> (string, any) gomap option" where
  "as_map (Some (AnyMap m)) = Some m"
| "as_map _ = None"

fun as_list :: "any option \<Rightarrow> any list option" where
  "as_list (Some (AnyList l)) = Some l"
| "as_list _ = None"

fun as_str :: "any option \<Rightarrow> string option" where
  "as_str (Some (AnyStr s)) = Some s"
| "as_str _ = None"

definition or_empty :: "'a list option \<Rightarrow> 'a list" where
  "or_empty x = (case x of None \<Rightarrow> [] | Some y \<Rightarrow> y)"

section \<open>Block outbounds\<close>

text \<open>The outbounds that stay and the tags of those that block.\<close>

fun split_outbounds :: "any list \<Rightarrow> any list \<Rightarrow> (string, bool) gomap \<Rightarrow> (any list \<times> (string, bool) gomap) res" where
  "split_outbounds [] kept blocks = Inr (kept, blocks)"
| "split_outbounds (entry # l) kept blocks = (case as_map (Some entry) of
     None \<Rightarrow> Inl ''invalid outbound''
   | Some outbound \<Rightarrow>
       if map_of outbound ''type'' \<noteq> Some (AnyStr ''block'') then split_outbounds l (kept @ [entry]) blocks
       else (case as_str (map_of outbound ''tag'') of
           None \<Rightarrow> Inl ''legacy block outbound requires manual migration''
         | Some tag \<Rightarrow>
             if tag = [] \<or> length outbound \<noteq> 2 then Inl ''legacy block outbound requires manual migration''
             else split_outbounds l kept (mput tag True blocks)))"

section \<open>Rules\<close>

definition blocked_by :: "(string, bool) gomap \<Rightarrow> string \<Rightarrow> bool" where
  "blocked_by blocks t \<longleftrightarrow> mget_or False blocks t"

text \<open>A rule that names a block outbound rejects instead; one with another action is in conflict.\<close>

definition rewrite_target :: "(string, bool) gomap \<Rightarrow> (string, any) gomap \<Rightarrow> (string, any) gomap res" where
  "rewrite_target blocks rule =
     (if \<not> blocked_by blocks (or_empty (as_str (map_of rule ''outbound''))) then Inr rule
      else (case as_str (map_of rule ''action'') of
          Some action \<Rightarrow> if action \<noteq> ''route'' then Inl ''conflicting legacy block action''
            else Inr (mput ''action'' (AnyStr ''reject'') (mdel ''outbound'' rule))
        | None \<Rightarrow> Inr (mput ''action'' (AnyStr ''reject'') (mdel ''outbound'' rule))))"

fun depth :: "any \<Rightarrow> nat" where
  "depth (AnyList l) = Suc (fold max (map depth l) 0)"
| "depth (AnyMap m) = Suc (fold max (map (\<lambda>p. depth (snd p)) m) 0)"
| "depth _ = 0"

text \<open>The recursion follows the nested rules; its fuel is the depth of the document, which is enough.\<close>

fun rewrite_rules :: "nat \<Rightarrow> (string, bool) gomap \<Rightarrow> any list \<Rightarrow> any list res" where
  "rewrite_rules n blocks [] = Inr []"
| "rewrite_rules n blocks (entry # l) = (case as_map (Some entry) of
     None \<Rightarrow> Inl ''invalid route rule''
   | Some rule \<Rightarrow>
       (case (case as_list (map_of rule ''rules'') of
           None \<Rightarrow> Inr rule
         | Some nested \<Rightarrow> (case n of
             0 \<Rightarrow> Inl ''out of fuel''
           | Suc k \<Rightarrow> (case rewrite_rules k blocks nested of
               Inl e \<Rightarrow> Inl e | Inr nested' \<Rightarrow> Inr (mput ''rules'' (AnyList nested') rule)))) of
          Inl e \<Rightarrow> Inl e
        | Inr rule \<Rightarrow> (case rewrite_target blocks rule of
            Inl e \<Rightarrow> Inl e
          | Inr rule \<Rightarrow> (case rewrite_rules n blocks l of Inl e \<Rightarrow> Inl e | Inr l' \<Rightarrow> Inr (AnyMap rule # l')))))"

text \<open>A group that lists a block outbound among its members cannot be migrated.\<close>

definition group_blocked :: "(string, bool) gomap \<Rightarrow> any \<Rightarrow> bool" where
  "group_blocked blocks entry \<longleftrightarrow>
     (\<exists>member \<in> set (or_empty (as_list (map_of (or_empty (as_map (Some entry))) ''outbounds''))).
        blocked_by blocks (or_empty (as_str (Some member))) \<and> as_str (Some member) \<noteq> None)"

definition migrate_blocks :: "(string, any) gomap \<Rightarrow> (string, any) gomap res" where
  "migrate_blocks config = (case split_outbounds (or_empty (as_list (map_of config ''outbounds''))) [] [] of
     Inl e \<Rightarrow> Inl e
   | Inr (kept, blocks) \<Rightarrow>
       if blocks = [] then Inr config
       else (let config = mput ''outbounds'' (AnyList kept) config;
                 route = or_empty (as_map (map_of config ''route''))
         in if blocked_by blocks (or_empty (as_str (map_of route ''final'')))
            then Inl ''legacy block route.final requires manual migration''
            else (case (case as_list (map_of route ''rules'') of
                None \<Rightarrow> Inr config
              | Some rules \<Rightarrow> (case rewrite_rules (depth (AnyList rules)) blocks rules of
                  Inl e \<Rightarrow> Inl e
                | Inr rules' \<Rightarrow> Inr (mput ''route'' (AnyMap (mput ''rules'' (AnyList rules') route)) config))) of
                Inl e \<Rightarrow> Inl e
              | Inr config \<Rightarrow> if list_ex (group_blocked blocks) kept
                  then Inl ''legacy block group requires manual migration'' else Inr config)))"

section \<open>DNS servers\<close>

definition migrate_server :: "(string \<Rightarrow> bool) \<Rightarrow> any \<Rightarrow> any res" where
  "migrate_server ParseAddr entry = (case as_map (Some entry) of
     None \<Rightarrow> Inr entry
   | Some server \<Rightarrow> (case as_str (map_of server ''address'') of
       None \<Rightarrow> Inr entry
     | Some address \<Rightarrow>
         if list_ex (\<lambda>(field, v). field \<noteq> ''address'' \<and> field \<noteq> ''tag'') server
         then Inl ''legacy DNS options require manual migration''
         else if address = ''local'' then Inr (AnyMap (mdel ''address'' (mput ''type'' (AnyStr ''local'') server)))
         else if \<not> ParseAddr address then Inl ''legacy DNS address requires manual migration''
         else Inr (AnyMap (mdel ''address'' (mput ''server'' (AnyStr address) (mput ''type'' (AnyStr ''udp'') server))))))"

fun migrate_servers :: "(string \<Rightarrow> bool) \<Rightarrow> any list \<Rightarrow> any list res" where
  "migrate_servers ParseAddr [] = Inr []"
| "migrate_servers ParseAddr (x # l) = (case migrate_server ParseAddr x of
     Inl e \<Rightarrow> Inl e
   | Inr y \<Rightarrow> (case migrate_servers ParseAddr l of Inl e \<Rightarrow> Inl e | Inr l' \<Rightarrow> Inr (y # l')))"

definition migrate_dns :: "(string \<Rightarrow> bool) \<Rightarrow> (string, any) gomap \<Rightarrow> (string, any) gomap res" where
  "migrate_dns ParseAddr config = (case as_map (map_of config ''dns'') of
     None \<Rightarrow> Inr config
   | Some dns \<Rightarrow> (case as_list (map_of dns ''servers'') of
       None \<Rightarrow> Inr config
     | Some servers \<Rightarrow> (case migrate_servers ParseAddr servers of
         Inl e \<Rightarrow> Inl e
       | Inr l \<Rightarrow> Inr (mput ''dns'' (AnyMap (mput ''servers'' (AnyList l) dns)) config))))"

text \<open>\<open>clean\<close> is the document without comments; the decoder leaves a null document an empty map.\<close>

definition normalizeLegacyConfig ::
  "(string \<Rightarrow> string res) \<Rightarrow> (string \<Rightarrow> (string, any) gomap res) \<Rightarrow> (string \<Rightarrow> bool) \<Rightarrow> ((string, any) gomap \<Rightarrow> string res)
     \<Rightarrow> string \<Rightarrow> string res" where
  "normalizeLegacyConfig clean unmarshal ParseAddr marshal data = (case clean data of
     Inl e \<Rightarrow> Inl e
   | Inr text \<Rightarrow> (case unmarshal text of
       Inl e \<Rightarrow> Inl e
     | Inr config \<Rightarrow> (case migrate_blocks config of
         Inl e \<Rightarrow> Inl e
       | Inr config \<Rightarrow> (case migrate_dns ParseAddr config of Inl e \<Rightarrow> Inl e | Inr config \<Rightarrow> marshal config))))"

section \<open>The fuel is enough\<close>

lemma fold_max_ge: "(b::nat) \<le> fold max l b"
proof (induction l arbitrary: b)
  case (Cons y l)
  from Cons.IH [of "max y b"] show ?case by simp
qed simp

lemma fold_max_le: "x \<in> set l \<Longrightarrow> (x::nat) \<le> fold max l a"
proof (induction l arbitrary: a)
  case (Cons y l)
  show ?case
  proof (cases "x = y")
    case True
    have "y \<le> max y a" by simp
    also have "\<dots> \<le> fold max l (max y a)" by (rule fold_max_ge)
    finally show ?thesis using True by simp
  next
    case False
    with Cons show ?thesis by simp
  qed
qed simp

lemma depth_list: "x \<in> set l \<Longrightarrow> depth x < depth (AnyList l)"
  using fold_max_le [of "depth x" "map depth l" 0] by (simp add: less_Suc_eq_le)

lemma depth_map: "map_of m k = Some x \<Longrightarrow> depth x < depth (AnyMap m)"
proof -
  assume "map_of m k = Some x"
  then have "depth x \<in> set (map (\<lambda>p. depth (snd p)) m)" using map_of_SomeD by force
  from fold_max_le [OF this, of 0] show ?thesis by (simp add: less_Suc_eq_le)
qed

lemma as_map_Some: "as_map v = Some m \<longleftrightarrow> v = Some (AnyMap m)"
  by (cases v rule: as_map.cases) auto

lemma as_list_Some: "as_list v = Some l \<longleftrightarrow> v = Some (AnyList l)"
  by (cases v rule: as_list.cases) auto

lemma as_str_Some: "as_str v = Some s \<longleftrightarrow> v = Some (AnyStr s)"
  by (cases v rule: as_str.cases) auto

lemma rewrite_target_fuel: "rewrite_target blocks rule \<noteq> Inl ''out of fuel''"
  by (auto simp: rewrite_target_def split: option.split)

text \<open>A rule with its nested rules rewritten.\<close>

definition nest :: "nat \<Rightarrow> (string, bool) gomap \<Rightarrow> (string, any) gomap \<Rightarrow> (string, any) gomap res" where
  "nest n blocks rule = (case as_list (map_of rule ''rules'') of
     None \<Rightarrow> Inr rule
   | Some nested \<Rightarrow> (case n of
       0 \<Rightarrow> Inl ''out of fuel''
     | Suc k \<Rightarrow> (case rewrite_rules k blocks nested of
         Inl e \<Rightarrow> Inl e | Inr nested' \<Rightarrow> Inr (mput ''rules'' (AnyList nested') rule))))"

lemma rewrite_rules_Cons:
  "rewrite_rules n blocks (entry # l) = (case as_map (Some entry) of
     None \<Rightarrow> Inl ''invalid route rule''
   | Some rule \<Rightarrow> (case nest n blocks rule of
       Inl e \<Rightarrow> Inl e
     | Inr rule \<Rightarrow> (case rewrite_target blocks rule of
         Inl e \<Rightarrow> Inl e
       | Inr rule \<Rightarrow> (case rewrite_rules n blocks l of Inl e \<Rightarrow> Inl e | Inr l' \<Rightarrow> Inr (AnyMap rule # l')))))"
  by (simp only: rewrite_rules.simps(2) nest_def)

declare rewrite_rules.simps(2) [simp del]

lemma rewrite_rules_fuel:
  "\<forall>x\<in>set l. depth x \<le> n \<Longrightarrow> rewrite_rules n blocks l \<noteq> Inl ''out of fuel''"
proof (induction n arbitrary: l)
  case (0 l)
  then show ?case
  proof (induction l)
    case (Cons x l)
    then show ?case
      by (cases x) (auto simp: rewrite_rules_Cons rewrite_target_fuel nest_def split: option.splits sum.splits)
  qed simp
next
  case (Suc n l)
  have nested: "nest (Suc n) blocks rule \<noteq> Inl ''out of fuel''" if "depth (AnyMap rule) \<le> Suc n" for rule
  proof (cases "as_list (map_of rule ''rules'')")
    case (Some nested)
    then have "depth (AnyList nested) < depth (AnyMap rule)" unfolding as_list_Some by (rule depth_map)
    with that have "depth (AnyList nested) \<le> n" by linarith
    then have "\<forall>x\<in>set nested. depth x \<le> n" using depth_list [of _ nested] by fastforce
    from Suc.IH [OF this] Some show ?thesis by (auto simp: nest_def split: sum.splits)
  qed (simp add: nest_def)
  from Suc.prems show ?case
  proof (induction l)
    case (Cons x l)
    show ?case
    proof (cases "as_map (Some x)")
      case (Some rule)
      then have "x = AnyMap rule" by (simp add: as_map_Some)
      with Cons nested [of rule] show ?thesis
        by (auto simp: rewrite_rules_Cons rewrite_target_fuel simp del: depth.simps split: sum.splits)
    qed (simp add: rewrite_rules_Cons)
  qed simp
qed

section \<open>What the migration leaves\<close>

text \<open>The outbounds that rules name, at any depth.\<close>

inductive names :: "any list \<Rightarrow> string \<Rightarrow> bool" where
  direct: "AnyMap rule \<in> set l \<Longrightarrow> map_of rule ''outbound'' = Some (AnyStr t) \<Longrightarrow> names l t"
| nested: "AnyMap rule \<in> set l \<Longrightarrow> map_of rule ''rules'' = Some (AnyList l') \<Longrightarrow> names l' t \<Longrightarrow> names l t"

inductive_cases names_Nil: "names [] t"

lemma names_Cons:
  "names (x # l) t \<longleftrightarrow> (\<exists>rule. x = AnyMap rule \<and> (map_of rule ''outbound'' = Some (AnyStr t) \<or>
     (\<exists>l'. map_of rule ''rules'' = Some (AnyList l') \<and> names l' t))) \<or> names l t"
  by (subst names.simps, subst (3) names.simps) auto

lemma rewrite_target_names:
  "rewrite_target blocks rule = Inr rule' \<Longrightarrow>
   (map_of rule' ''outbound'' = Some (AnyStr t) \<longrightarrow> \<not> blocked_by blocks t) \<and> map_of rule' ''rules'' = map_of rule ''rules''"
  by (auto simp: rewrite_target_def as_str_Some or_empty_def split: if_splits option.splits)

lemma rewrite_rules_names:
  "rewrite_rules n blocks l = Inr l' \<Longrightarrow> names l' t \<Longrightarrow> \<not> blocked_by blocks t"
proof (induction n blocks l arbitrary: l' rule: rewrite_rules.induct)
  case (1 n blocks)
  then show ?case by (auto elim: names_Nil)
next
  case (2 n blocks entry l)
  from 2(3) obtain rule rule1 rule2 l2 where
    r: "as_map (Some entry) = Some rule" and r1: "nest n blocks rule = Inr rule1" and
    r2: "rewrite_target blocks rule1 = Inr rule2" and l2: "rewrite_rules n blocks l = Inr l2" and l': "l' = AnyMap rule2 # l2"
    by (auto simp: rewrite_rules_Cons split: option.splits sum.splits)
  note t = rewrite_target_names [OF r2, of t]
  from 2(4) consider "map_of rule2 ''outbound'' = Some (AnyStr t)"
    | l3 where "map_of rule2 ''rules'' = Some (AnyList l3)" "names l3 t" | "names l2 t"
    unfolding l' names_Cons by auto
  then show ?case
  proof cases
    case 1
    with t show ?thesis by simp
  next
    case 2
    with t have m: "map_of rule1 ''rules'' = Some (AnyList l3)" by simp
    show ?thesis
    proof (cases "as_list (map_of rule ''rules'')")
      case None
      with r1 m show ?thesis by (simp add: nest_def)
    next
      case (Some nested)
      with r1 obtain k where k: "n = Suc k" "rewrite_rules k blocks nested = Inr l3"
        using m by (auto simp: nest_def split: nat.splits sum.splits)
      from 2 "2.IH"(1) [OF r Some k] show ?thesis by blast
    qed
  next
    case 3
    from "2.IH"(2) [OF r r1 [unfolded nest_def] r2 l2 3] show ?thesis .
  qed
qed

definition block_outbound :: "any \<Rightarrow> bool" where
  "block_outbound x \<longleftrightarrow> (\<exists>m. x = AnyMap m \<and> map_of m ''type'' = Some (AnyStr ''block''))"

lemma split_outbounds_ok:
  "split_outbounds l kept blocks = Inr (kept', blocks') \<Longrightarrow>
   kept' = kept @ filter (\<lambda>x. \<not> block_outbound x) l \<and> (\<forall>x\<in>set l. \<exists>m. x = AnyMap m)"
  by (induction l kept blocks rule: split_outbounds.induct)
     (auto simp: block_outbound_def as_map_Some split: option.splits if_splits)

lemma split_outbounds_none:
  "\<forall>x\<in>set l. (\<exists>m. x = AnyMap m) \<and> \<not> block_outbound x \<Longrightarrow> split_outbounds l kept blocks = Inr (kept @ l, blocks)"
  by (induction l arbitrary: kept) (auto simp: block_outbound_def)

lemma split_outbounds_grows:
  "split_outbounds l kept blocks = Inr (kept', blocks') \<Longrightarrow> mhas blocks t \<Longrightarrow> mhas blocks' t"
  by (induction l kept blocks rule: split_outbounds.induct) (auto split: option.splits if_splits)

lemma split_outbounds_same: "split_outbounds l kept [] = Inr (kept', []) \<Longrightarrow> kept' = kept @ l"
proof (induction l arbitrary: kept)
  case (Cons x l)
  have "split_outbounds l kept (mput t True []) \<noteq> Inr (kept', [])" for t
    using split_outbounds_grows [of l kept "mput t True []" kept' "[]" t] by (auto simp: mhas_def)
  with Cons.prems have "split_outbounds l (kept @ [x]) [] = Inr (kept', [])" by (auto split: option.splits if_splits)
  from Cons.IH [OF this] show ?case by simp
qed simp

lemma or_empty_simps [simp]: "or_empty (Some x) = x" "or_empty None = []"
  by (simp_all add: or_empty_def)

definition outbounds_of :: "(string, any) gomap \<Rightarrow> any list" where
  "outbounds_of config = or_empty (as_list (map_of config ''outbounds''))"

definition route_rules :: "(string, any) gomap \<Rightarrow> any list" where
  "route_rules config = or_empty (as_list (map_of (or_empty (as_map (map_of config ''route''))) ''rules''))"

lemma migrate_blocks_ok:
  assumes "migrate_blocks config = Inr config'"
  shows "outbounds_of config' = filter (\<lambda>x. \<not> block_outbound x) (outbounds_of config)"
    and "\<forall>x\<in>set (outbounds_of config'). \<exists>m. x = AnyMap m"
    and "split_outbounds (outbounds_of config) [] [] = Inr (k, blocks) \<Longrightarrow> names (route_rules config') t \<Longrightarrow> \<not> blocked_by blocks t"
    and "map_of config' ''dns'' = map_of config ''dns''"
proof -
  obtain kept bs where s: "split_outbounds (outbounds_of config) [] [] = Inr (kept, bs)"
    using assms by (auto simp: migrate_blocks_def outbounds_of_def split: sum.splits)
  note ok = split_outbounds_ok [OF s]
  have "outbounds_of config' = kept \<and> (names (route_rules config') t \<longrightarrow> \<not> blocked_by bs t) \<and> map_of config' ''dns'' = map_of config ''dns''"
  proof (cases "bs = []")
    case True
    from split_outbounds_same s True have "kept = outbounds_of config" by fastforce
    with assms s True show ?thesis by (simp add: migrate_blocks_def outbounds_of_def blocked_by_def)
  next
    case False
    define route where "route = or_empty (as_map (map_of config ''route''))"
    let ?c = "mput ''outbounds'' (AnyList kept) config"
    have r: "or_empty (as_map (map_of ?c ''route'')) = route" by (simp add: route_def)
    from assms s False consider (rules) rules rules' where "as_list (map_of route ''rules'') = Some rules"
        "rewrite_rules (depth (AnyList rules)) bs rules = Inr rules'"
        "config' = mput ''route'' (AnyMap (mput ''rules'' (AnyList rules') route)) ?c"
      | (none) "as_list (map_of route ''rules'') = None" "config' = ?c"
      unfolding migrate_blocks_def outbounds_of_def [symmetric]
      by (auto simp: Let_def route_def simp del: depth.simps split: if_splits option.splits sum.splits)
    then show ?thesis
    proof cases
      case rules
      then show ?thesis using rewrite_rules_names [OF rules(2), of t] by (auto simp: outbounds_of_def route_rules_def)
    next
      case none
      then show ?thesis by (auto simp: outbounds_of_def route_rules_def route_def elim: names_Nil)
    qed
  qed
  with ok s show "outbounds_of config' = filter (\<lambda>x. \<not> block_outbound x) (outbounds_of config)"
    "\<forall>x\<in>set (outbounds_of config'). \<exists>m. x = AnyMap m"
    "split_outbounds (outbounds_of config) [] [] = Inr (k, blocks) \<Longrightarrow> names (route_rules config') t \<Longrightarrow> \<not> blocked_by blocks t"
    "map_of config' ''dns'' = map_of config ''dns''" by auto
qed

lemma migrate_blocks_again:
  assumes "\<forall>x\<in>set (outbounds_of config). (\<exists>m. x = AnyMap m) \<and> \<not> block_outbound x"
  shows "migrate_blocks config = Inr config"
  using split_outbounds_none [OF assms, of "[]" "[]"] by (simp add: migrate_blocks_def outbounds_of_def)

definition legacy_server :: "any \<Rightarrow> bool" where
  "legacy_server x \<longleftrightarrow> (\<exists>m a. x = AnyMap m \<and> map_of m ''address'' = Some (AnyStr a))"

lemma migrate_server_typed: "migrate_server P x = Inr y \<Longrightarrow> \<not> legacy_server y"
  by (auto simp: migrate_server_def legacy_server_def as_map_Some as_str_Some split: option.splits if_splits)

lemma migrate_server_again: "\<not> legacy_server x \<Longrightarrow> migrate_server P x = Inr x"
  by (auto simp: migrate_server_def legacy_server_def as_map_Some as_str_Some split: option.split)

lemma migrate_servers_typed: "migrate_servers P l = Inr l' \<Longrightarrow> \<forall>x\<in>set l'. \<not> legacy_server x"
  by (induction l arbitrary: l') (auto dest: migrate_server_typed split: sum.splits)

lemma migrate_servers_again: "\<forall>x\<in>set l. \<not> legacy_server x \<Longrightarrow> migrate_servers P l = Inr l"
  by (induction l) (auto simp: migrate_server_again)

lemma mput_same: "map_of m k = Some v \<Longrightarrow> mput k v m = m"
  by (induction m) (auto split: if_splits)

lemma migrate_dns_ok:
  assumes "migrate_dns P config = Inr config'"
  shows "migrate_dns Q config' = Inr config' \<and> (k \<noteq> ''dns'' \<longrightarrow> map_of config' k = map_of config k)"
proof -
  from assms consider "config' = config" "as_map (map_of config ''dns'') = None"
    | dns where "config' = config" "as_map (map_of config ''dns'') = Some dns" "as_list (map_of dns ''servers'') = None"
    | dns servers l where "as_map (map_of config ''dns'') = Some dns" "migrate_servers P servers = Inr l"
        "config' = mput ''dns'' (AnyMap (mput ''servers'' (AnyList l) dns)) config"
    by (auto simp: migrate_dns_def split: option.splits sum.splits)
  then show ?thesis
  proof cases
    case 3
    then show ?thesis using migrate_servers_again [OF migrate_servers_typed [OF 3(2)]]
      by (simp add: migrate_dns_def mput_same)
  qed (simp_all add: migrate_dns_def)
qed

definition migrate :: "(string \<Rightarrow> bool) \<Rightarrow> (string, any) gomap \<Rightarrow> (string, any) gomap res" where
  "migrate ParseAddr config = (case migrate_blocks config of Inl e \<Rightarrow> Inl e | Inr c \<Rightarrow> migrate_dns ParseAddr c)"

lemma normalize_migrates:
  "normalizeLegacyConfig clean unmarshal P marshal data = (case clean data of Inl e \<Rightarrow> Inl e | Inr text \<Rightarrow>
     (case unmarshal text of Inl e \<Rightarrow> Inl e | Inr config \<Rightarrow> (case migrate P config of Inl e \<Rightarrow> Inl e | Inr c \<Rightarrow> marshal c)))"
  by (auto simp: normalizeLegacyConfig_def migrate_def split: sum.split)


definition legacy_demo :: "(string, any) gomap" where
  "legacy_demo =
     [(''outbounds'', AnyList [AnyMap [(''type'', AnyStr ''direct''), (''tag'', AnyStr ''d'')],
         AnyMap [(''type'', AnyStr ''block''), (''tag'', AnyStr ''b'')]]),
      (''route'', AnyMap [(''rules'', AnyList [AnyMap [(''rules'', AnyList [AnyMap [(''outbound'', AnyStr ''b'')]]), (''outbound'', AnyStr ''d'')]])]),
      (''dns'', AnyMap [(''servers'', AnyList [AnyMap [(''address'', AnyStr ''local'')]])])]"


section \<open>Building the core\<close>

record NTPOptions =
  np_Enabled :: bool
  np_WriteToSystem :: bool
  np_Server :: string
  np_ServerPort :: nat

text \<open>The library: files, the migration above with its decoders, the options of a box and its constructor.\<close>

record ('o, 'x) sing_loader =
  ld_ReadFile :: "string \<Rightarrow> string res"
  ld_normalize :: "string \<Rightarrow> string res"
  ld_Unmarshal :: "string \<Rightarrow> 'o res"
  ld_empty :: 'o
  ld_Log :: "SingLogConfig \<Rightarrow> 'o \<Rightarrow> 'o"
  ld_NTP :: "NTPOptions \<Rightarrow> 'o \<Rightarrow> 'o"
  ld_New :: "'o \<Rightarrow> 'x res"

definition load_original :: "('o, 'x) sing_loader \<Rightarrow> string \<Rightarrow> 'o res" where
  "load_original F path =
     (if path = [] then Inr (ld_empty F)
      else (case ld_ReadFile F path of
          Inl e \<Rightarrow> Inl (''read original config error: '' @ e)
        | Inr data \<Rightarrow> (case ld_normalize F data of
            Inl e \<Rightarrow> Inl e
          | Inr data \<Rightarrow> (case ld_Unmarshal F data of
              Inl e \<Rightarrow> Inl (''unmarshal original config error: '' @ e) | Inr o1 \<Rightarrow> Inr o1))))"

definition Sing_New :: "('o, 'x) sing_loader \<Rightarrow> CoreConfig \<Rightarrow> 'x Sing res" where
  "Sing_New F c = (case co_SingConfig c of
     None \<Rightarrow> Inl nil_pointer
   | Some sc \<Rightarrow> (case load_original F (sc_OriginalPath sc) of
       Inl e \<Rightarrow> Inl e
     | Inr o1 \<Rightarrow> (case ld_New F (ld_NTP F \<lparr>np_Enabled = sn_Enable (sc_NtpConfig sc), np_WriteToSystem = True,
             np_Server = sn_Server (sc_NtpConfig sc), np_ServerPort = sn_ServerPort (sc_NtpConfig sc)\<rparr>
           (ld_Log F (sc_LogConfig sc) o1)) of
         Inl e \<Rightarrow> Inl e | Inr x \<Rightarrow> Inr (New_Sing x))))"

definition Sing_checkConfig :: "('o, 'x) sing_loader \<Rightarrow> CoreConfig \<Rightarrow> err option" where
  "Sing_checkConfig F c = (case co_SingConfig c of
     None \<Rightarrow> Some ''missing sing-box settings''
   | Some sc \<Rightarrow>
       if sc_OriginalPath sc = [] then None
       else (case ld_ReadFile F (sc_OriginalPath sc) of
           Inl e \<Rightarrow> Some e
         | Inr data \<Rightarrow> (case ld_normalize F data of
             Inl e \<Rightarrow> Some e
           | Inr data \<Rightarrow> (case ld_Unmarshal F data of Inl e \<Rightarrow> Some e | Inr o1 \<Rightarrow> None))))"

text \<open>A configuration that passes the check fails to build a core in the library only.\<close>

lemma checked_config_loads:
  "Sing_checkConfig F c = None \<Longrightarrow> \<exists>o1. (case Sing_New F c of Inl e \<Rightarrow> ld_New F o1 = Inl e | Inr s \<Rightarrow> \<exists>x. ld_New F o1 = Inr x \<and> s = New_Sing x)"
  by (auto simp: Sing_checkConfig_def Sing_New_def load_original_def split: option.splits if_splits sum.splits)

end
