(* ===== verification/Sing_Traffic.thy ===== *)
theory Sing_Traffic
  imports Sing_Contract
begin

text \<open>
  The traffic reports of the sing-box core (GetUserTrafficSlice and GetUserTraffic in runtime/core/sing/user.go)
  over the counters its connections write to: the counters stay well formed under every run of operations,
  connections and transfers, and a report is exact.
\<close>

section \<open>The counters of the tracker\<close>

definition counters_ok :: "HookServer \<Rightarrow> bool" where
  "counters_ok h \<longleftrightarrow> list_all tc_ok (hk_counters h) \<and>
     (\<forall>t c. map_of (hk_counter h) t = Some c \<longrightarrow> c < length (hk_counters h)) \<and>
     (\<forall>t t' c. map_of (hk_counter h) t = Some c \<longrightarrow> map_of (hk_counter h) t' = Some c \<longrightarrow> t = t')"

lemma counters_ok_same:
  "counters_ok h \<Longrightarrow> hk_counter h' = hk_counter h \<Longrightarrow> hk_counters h' = hk_counters h \<Longrightarrow> counters_ok h'"
  by (simp add: counters_ok_def)

lemma counters_ok_on_counter:
  "counters_ok h \<Longrightarrow> (\<And>c. tc_ok c \<Longrightarrow> tc_ok (f c)) \<Longrightarrow> counters_ok (on_counter c f h)"
  by (cases "c < length (hk_counters h)")
     (auto simp: counters_ok_def on_counter_def list_all_length nth_list_update list_update_beyond)

lemma counters_ok_hook_counter: "counters_ok h \<Longrightarrow> counters_ok (snd (hook_counter tag h))"
  by (auto simp: counters_ok_def hook_counter_def Let_def less_Suc_eq split: option.splits if_splits)

lemma counters_ok_delete: "counters_ok h \<Longrightarrow> counters_ok (delete_counts tag u h)"
  by (auto simp: delete_counts_def intro!: counters_ok_on_counter tc_ok_Delete split: option.split)

lemma counters_ok_revoke: "counters_ok h \<Longrightarrow> counters_ok (HookServer_revoke tag u h)"
  by (erule counters_ok_same) (simp_all add: hook_simps)

lemma counters_ok_track: "counters_ok h \<Longrightarrow> counters_ok (snd (track i m b h))"
proof -
  assume h: "counters_ok h"
  have "counters_ok (snd (user_cell tag u h))" for tag u
    using counters_ok_on_counter [OF counters_ok_hook_counter [OF h]] tc_ok_GetCounter
    by (simp add: user_cell_def split_def Let_def)
  from this [of "ic_Inbound m" "ic_User m"] show ?thesis
    by (simp add: track_def Let_def split_def store_connection_def counters_ok_def)
qed

lemma counters_ok_close:
  "counters_ok (trackedConnection_Close i h) = counters_ok h" "counters_ok (trackedPacketConnection_Close i h) = counters_ok h"
  "counters_ok (closeConn i h) = counters_ok h"
  by (simp_all add: counters_ok_def hook_simps)

lemma counters_ok_Routed:
  assumes "counters_ok h"
  shows "RoutedConnection matches now i m h w = (q, h', w') \<Longrightarrow> counters_ok h'"
    and "RoutedPacketConnection matches now i m h w = (q, h', w') \<Longrightarrow> counters_ok h'"
proof -
  have t: "track i m b h = (q, h1) \<Longrightarrow> counters_ok h1" for b q h1
    using counters_ok_track [OF assms, of i m b] by simp
  show "RoutedConnection matches now i m h w = (q, h', w') \<Longrightarrow> counters_ok h'"
    using assms by (auto simp: RoutedConnection_def counters_ok_close Let_def dest: t split: if_splits sum.splits prod.splits bool.splits)
  show "RoutedPacketConnection matches now i m h w = (q, h', w') \<Longrightarrow> counters_ok h'"
    using assms by (auto simp: RoutedPacketConnection_def counters_ok_close Let_def dest: t split: if_splits sum.splits prod.splits bool.splits)
qed

lemma revoke_new_counters [hook_simps]:
  "hk_counter (revoke_new tag old l h) = hk_counter h" "hk_counters (revoke_new tag old l h) = hk_counters h"
  unfolding revoke_new_def by (induction l arbitrary: h) (auto simp: hook_simps)

lemma activate_counters [hook_simps]:
  "hk_counter (activate tag us h) = hk_counter h" "hk_counters (activate tag us h) = hk_counters h"
  by (simp_all add: activate_def)

lemma counters_ok_AddUsers:
  assumes "counters_ok (sg_hookServer b)"
  shows "counters_ok (sg_hookServer (snd (Sing_AddUsers L p b)))"
proof (cases "Sing_AddUsers L p b")
  case (Pair r b')
  show ?thesis
  proof (cases r)
    case (Inl e)
    with AddUsers_err [of L p b e b'] Pair assms show ?thesis
      by (auto intro: counters_ok_same simp: hook_simps)
  next
    case (Inr k)
    with AddUsers_ok(4) [of L p b k b'] Pair assms show ?thesis
      by (auto intro: counters_ok_same simp: hook_simps)
  qed
qed

lemma counters_ok_drop: "counters_ok (sg_hookServer b) \<Longrightarrow> counters_ok (sg_hookServer (fold (drop_user tag) us b))"
  by (induction us arbitrary: b) (simp_all add: drop_user_def counters_ok_delete counters_ok_revoke)

lemma counters_ok_DelUsers:
  assumes "counters_ok (sg_hookServer b)"
  shows "counters_ok (sg_hookServer (snd (Sing_DelUsers L us tag b)))"
proof (cases "Sing_DelUsers L us tag b")
  case (Pair r b')
  then have "counters_ok (sg_hookServer b')"
    using assms by (cases rule: DelUsers_cases) (simp_all add: counters_ok_drop)
  with Pair show ?thesis by simp
qed

lemma counters_ok_AddNode: "counters_ok (sg_hookServer (snd (Sing_AddNode L tag n o1 b))) = counters_ok (sg_hookServer b)"
  by (auto simp: Sing_AddNode_def Let_def counters_ok_def split: sum.split prod.split option.split)

lemma counters_ok_DelNode: "counters_ok (sg_hookServer b) \<Longrightarrow> counters_ok (sg_hookServer (snd (Sing_DelNode L tag b)))"
  by (auto simp: Sing_DelNode_def Let_def counters_ok_def hook_simps split: prod.split option.split if_splits)

lemma counters_ok_report:
  "counters_ok (sg_hookServer b) \<Longrightarrow> counters_ok (sg_hookServer (snd (Sing_GetUserTrafficSlice tag reset b)))"
proof -
  assume h: "counters_ok (sg_hookServer b)"
  have "tc_ok tc'" if "map_of (hk_counter (sg_hookServer b)) tag = Some c"
    "fold (traffic_entry least uidOf reset) (tc_Counters (hk_counters (sg_hookServer b) ! c)) ([], hk_counters (sg_hookServer b) ! c) = (sl, tc')"
    for c least uidOf sl tc'
  proof -
    from h that(1) have "tc_ok (hk_counters (sg_hookServer b) ! c)" by (auto simp: counters_ok_def list_all_length)
    then show ?thesis
      using tc_ok_entries [of "([], hk_counters (sg_hookServer b) ! c)" least uidOf reset] that(2)
      by (metis snd_conv)
  qed
  with h show ?thesis
    by (auto simp: Sing_GetUserTrafficSlice_def Let_def split: option.split prod.split intro!: counters_ok_on_counter)
qed

section \<open>Runs\<close>

text \<open>Operations of the core and the tracker, and bytes that a tracked connection moves through its cell.\<close>

datatype 'rx sing_move = SmEvent "'rx sing_event" | SmUp nat nat int | SmDown nat nat int

fun sing_play ::
  "'x sing_lib \<Rightarrow> ('rx \<Rightarrow> string \<Rightarrow> bool) \<Rightarrow> 'rx sing_move \<Rightarrow> 'x Sing \<times> 'rx limiters \<Rightarrow> 'x Sing \<times> 'rx limiters" where
  "sing_play L matches (SmEvent ev) s = sing_step L matches ev s"
| "sing_play L matches (SmUp c r n) s = (on_hook (on_counter c (ConnCounter_Read r n False)) (fst s), snd s)"
| "sing_play L matches (SmDown c r n) s = (on_hook (on_counter c (ConnCounter_Write r n False)) (fst s), snd s)"

lemma counters_ok_step:
  assumes "counters_ok (sg_hookServer (fst s))"
  shows "counters_ok (sg_hookServer (fst (sing_step L matches ev s)))"
proof -
  obtain b w where s: "s = (b, w)" by (cases s)
  note h = assms [unfolded s fst_conv]
  show ?thesis
  proof (cases ev)
    case (SeConnection now i m)
    then show ?thesis using counters_ok_Routed(1) [OF h] by (auto simp: s split: prod.splits)
  next
    case (SePacket now i m)
    then show ?thesis using counters_ok_Routed(2) [OF h] by (auto simp: s split: prod.splits)
  qed (simp_all add: s h counters_ok_AddNode counters_ok_DelNode counters_ok_AddUsers counters_ok_DelUsers
      counters_ok_report counters_ok_close)
qed

lemma counters_ok_run:
  "counters_ok (sg_hookServer (fst s)) \<Longrightarrow> counters_ok (sg_hookServer (fst (fold (sing_play L matches) mvs s)))"
proof (induction mvs arbitrary: s)
  case (Cons mv mvs)
  have "counters_ok (sg_hookServer (fst (sing_play L matches mv s)))"
    using Cons.prems
    by (cases mv) (auto simp: counters_ok_step ConnCounter_Read_def ConnCounter_Write_def intro!: counters_ok_on_counter)
  with Cons.IH show ?case by simp
qed simp

lemma counters_ok_new: "counters_ok (sg_hookServer (New_Sing x))"
  by (simp add: counters_ok_def New_Sing_def NewHookServer_def)

text \<open>The counts of a user, as \<open>GetUserTraffic\<close> gives them.\<close>

definition sing_counts :: "string \<Rightarrow> string \<Rightarrow> 'x Sing \<Rightarrow> int \<times> int" where
  "sing_counts tag u b = fst (Sing_GetUserTraffic tag u False b)"

definition sing_uid :: "string \<Rightarrow> string \<Rightarrow> 'x Sing \<Rightarrow> int" where
  "sing_uid tag u b = mget_or 0 (sg_uidMap b) (userKey tag u)"

text \<open>The counts of the user exceed the minimum of the node.\<close>

definition sing_due :: "string \<Rightarrow> string \<Rightarrow> 'x Sing \<Rightarrow> bool" where
  "sing_due tag u b \<longleftrightarrow> mget_or 0 (sg_nodeReportMinTrafficBytes b) tag < add64 (fst (sing_counts tag u b)) (snd (sing_counts tag u b))"

lemma sing_counts_alt:
  "sing_counts t u b = (case map_of (hk_counter (sg_hookServer b)) t of None \<Rightarrow> (0, 0)
     | Some d \<Rightarrow> (GetUpCount u (hk_counters (sg_hookServer b) ! d), GetDownCount u (hk_counters (sg_hookServer b) ! d)))"
  by (simp add: sing_counts_def Sing_GetUserTraffic_def Let_def split: option.split)

lemma sing_report_exact:
  assumes "counters_ok (sg_hookServer b)" and "0 \<le> mget_or 0 (sg_nodeReportMinTrafficBytes b) tag"
    and "Sing_GetUserTrafficSlice tag reset b = (Inr slice, b')"
  shows "set slice = {\<lparr>ut_UID = sing_uid tag u b, ut_Upload = fst (sing_counts tag u b), ut_Download = snd (sing_counts tag u b)\<rparr> | u.
        sing_uid tag u b \<noteq> 0 \<and> sing_due tag u b} \<and>
    sing_counts t u b' =
      (if t = tag \<and> (reset \<or> sing_uid tag u b = 0) \<and> sing_due tag u b then (0, 0) else sing_counts t u b)"
proof (cases "map_of (hk_counter (sg_hookServer b)) tag")
  case None
  then have z: "sing_counts tag u b = (0, 0)" for u by (simp add: sing_counts_def Sing_GetUserTraffic_def)
  from None assms(3) have "slice = []" "b' = b" by (simp_all add: Sing_GetUserTrafficSlice_def)
  with assms(2) show ?thesis by (simp add: sing_due_def z w64_def)
next
  case (Some c)
  let ?h = "sg_hookServer b" and ?tc = "hk_counters (sg_hookServer b) ! c"
  let ?least = "mget_or 0 (sg_nodeReportMinTrafficBytes b) tag" and ?uid = "\<lambda>u. sing_uid tag u b"
  have c: "c < length (hk_counters ?h)" and tc: "tc_inv ?tc" "mwf (tc_Counters ?tc)"
    using assms(1) Some by (auto simp: counters_ok_def list_all_length tc_ok_def)
  have one: "t = tag" if "map_of (hk_counter ?h) t = Some c" for t
    using assms(1) Some that by (auto simp: counters_ok_def)
  obtain tc' where f: "fold (traffic_entry ?least ?uid reset) (tc_Counters ?tc) ([], ?tc) = (slice, tc')"
    and b': "b' = on_hook (on_counter c (\<lambda>_. tc')) b"
    using assms(3) Some by (auto simp: Sing_GetUserTrafficSlice_def Let_def sing_uid_def split: prod.splits)
  have cnt: "sing_counts tag u b = (GetUpCount u ?tc, GetDownCount u ?tc)" for u
    using Some by (simp add: sing_counts_def Sing_GetUserTraffic_def Let_def)
  have due: "mhas (tc_Counters ?tc) u \<and> add64 (GetUpCount u ?tc) (GetDownCount u ?tc) > ?least \<longleftrightarrow> sing_due tag u b" for u
    using assms(2) by (auto simp: sing_due_def cnt mhas_def GetUpCount_def GetDownCount_def w64_def split: option.splits)
  have cnt': "sing_counts t u b' = (if t = tag then (GetUpCount u tc', GetDownCount u tc') else sing_counts t u b)" for t u
  proof (cases "t = tag")
    case True
    then show ?thesis using Some c by (simp add: sing_counts_alt b' on_counter_def)
  next
    case False
    show ?thesis
    proof (cases "map_of (hk_counter ?h) t")
      case None
      with False show ?thesis by (simp add: sing_counts_alt b' on_counter_def)
    next
      case (Some d)
      with one False have "d \<noteq> c" by blast
      with Some False show ?thesis by (simp add: sing_counts_alt b' on_counter_def)
    qed
  qed
  have due': "mhas (tc_Counters ?tc) u \<and> X \<and> add64 (GetUpCount u ?tc) (GetDownCount u ?tc) > ?least \<longleftrightarrow> X \<and> sing_due tag u b" for u X
    using due [of u] by blast
  show ?thesis using traffic_report_outcome [OF tc f, of u] unfolding due' cnt' cnt by (simp add: cnt)
qed

text \<open>C14: after any run of operations, connections and transfers a report lists, for every user of the node with an
  identifier whose counts exceed the node's minimum, exactly the counts that user has; with reset it takes
  exactly those, and the counts of every other user and node stay.\<close>

theorem sing_traffic_exact:
  assumes "fold (sing_play L matches) mvs (New_Sing x, w0) = (b, w)"
    and "0 \<le> mget_or 0 (sg_nodeReportMinTrafficBytes b) tag"
    and "Sing_GetUserTrafficSlice tag reset b = (Inr slice, b')"
  shows "set slice = {\<lparr>ut_UID = sing_uid tag u b, ut_Upload = fst (sing_counts tag u b), ut_Download = snd (sing_counts tag u b)\<rparr> | u.
        sing_uid tag u b \<noteq> 0 \<and> sing_due tag u b} \<and>
    sing_counts t u b' =
      (if t = tag \<and> (reset \<or> sing_uid tag u b = 0) \<and> sing_due tag u b then (0, 0) else sing_counts t u b)"
  using sing_report_exact [OF _ assms(2,3)] counters_ok_run [of "(New_Sing x, w0)" L matches mvs] assms(1)
  by (simp add: counters_ok_new)

definition sing_demo_moves :: "string sing_move list" where
  "sing_demo_moves = map SmEvent [SeAddNode ''t'' sing_demo_node sing_demo_options,
     SeAddUsers \<lparr>ap_Tag = ''t'', ap_Users = [sing_demo_user ''a'' 1, sing_demo_user ''b'' 2], ap_NodeInfo = sing_demo_node\<rparr>,
     SeLimiters \<lparr>lw_heap = [newLimiter ''t'' (op_LimitConfig default_options) [sing_demo_user ''a'' 1] []], lw_map = [(''t'', 0)]\<rparr>,
     SeConnection 0 0 \<lparr>ic_Inbound = ''t'', ic_User = ''a'', ic_Source = ''1.2.3.4'', ic_Destination = ''h'', ic_Network = ''tcp'', ic_Protocol = []\<rparr>]
     @ [SmUp 0 0 3000, SmDown 0 0 9]"

theorem sing_traffic_exact_witness:
  "\<exists>b w s b'. fold (sing_play demo_sing HasPrefix) sing_demo_moves (New_Sing [], \<lparr>lw_heap = [], lw_map = []\<rparr>) = (b, w) \<and>
     Sing_GetUserTrafficSlice ''t'' True b = (Inr s, b') \<and> s = [\<lparr>ut_UID = 1, ut_Upload = 3000, ut_Download = 9\<rparr>] \<and>
     sing_counts ''t'' ''a'' b' = (0, 0)"
proof -
  let ?r = "fold (sing_play demo_sing HasPrefix) sing_demo_moves (New_Sing [], \<lparr>lw_heap = [], lw_map = []\<rparr>)"
  have l: "0 \<le> mget_or 0 (sg_nodeReportMinTrafficBytes (fst ?r)) ''t''" by code_simp
  have d: "sing_due ''t'' ''a'' (fst ?r)" by code_simp
  have e: "fst (Sing_GetUserTrafficSlice ''t'' True (fst ?r)) = Inr [\<lparr>ut_UID = 1, ut_Upload = 3000, ut_Download = 9\<rparr>]" by code_simp
  from sing_traffic_exact [OF surjective_pairing l prod_eqI [of _ "(Inr _, _)", unfolded fst_conv snd_conv, OF e refl], of "''t''" "''a''"] d
  have "sing_counts ''t'' ''a'' (snd (Sing_GetUserTrafficSlice ''t'' True (fst ?r))) = (0, 0)" by simp
  with e show ?thesis by (metis prod.collapse)
qed

end
