(* ===== verification/Hy2_Config.thy ===== *)
theory Hy2_Config
  imports Xray_Inbound Core_Interface
begin

text \<open>
  The configuration of a Hysteria server (runtime/core/hy2/serverConfig.go and config.go): the optional
  configuration file of a node, and the builders that check it and assemble the library's settings from it
  and the node's description.  The Hysteria and network libraries are a parameter over a state \<open>'w\<close>;
  durations are nanoseconds, and the unsigned 64-bit
  settings are integers that are not negative.
\<close>

section \<open>The configuration file of a node\<close>

record serverConfigObfs =
  sco_Type :: string
  sco_Salamander_Password :: string

record serverConfigTLS =
  sct_Cert :: string
  sct_Key :: string

record serverConfigACME =
  sca_Domains :: "string list"
  sca_Email :: string
  sca_CA :: string
  sca_DisableHTTP :: bool
  sca_DisableTLSALPN :: bool
  sca_AltHTTPPort :: int
  sca_AltTLSALPNPort :: int
  sca_Dir :: string

record serverConfigQUIC =
  scq_InitStreamReceiveWindow :: int
  scq_MaxStreamReceiveWindow :: int
  scq_InitConnectionReceiveWindow :: int
  scq_MaxConnectionReceiveWindow :: int
  scq_MaxIdleTimeout :: int
  scq_MaxIncomingStreams :: int
  scq_DisablePathMTUDiscovery :: bool

record serverConfigBandwidth =
  scb_Up :: string
  scb_Down :: string

record serverConfigAuthHTTP =
  sah_URL :: string
  sah_Insecure :: bool

record serverConfigAuth =
  sau_Type :: string
  sau_Password :: string
  sau_UserPass :: "(string, string) gomap"
  sau_HTTP :: serverConfigAuthHTTP
  sau_Command :: string

record serverConfigResolverTCP =
  srt_Addr :: string
  srt_Timeout :: int

record serverConfigResolverUDP =
  sru_Addr :: string
  sru_Timeout :: int

record serverConfigResolverTLS =
  srl_Addr :: string
  srl_Timeout :: int
  srl_SNI :: string
  srl_Insecure :: bool

record serverConfigResolverHTTPS =
  srh_Addr :: string
  srh_Timeout :: int
  srh_SNI :: string
  srh_Insecure :: bool

record serverConfigResolver =
  scr_Type :: string
  scr_TCP :: serverConfigResolverTCP
  scr_UDP :: serverConfigResolverUDP
  scr_TLS :: serverConfigResolverTLS
  scr_HTTPS :: serverConfigResolverHTTPS

record serverConfigSniff =
  scs_Enable :: bool
  scs_Timeout :: int
  scs_RewriteDomain :: bool
  scs_TCPPorts :: string
  scs_UDPPorts :: string

record serverConfigACL =
  acl_File :: string
  acl_Inline :: "string list"
  acl_GeoIP :: string
  acl_GeoSite :: string
  acl_GeoUpdateInterval :: int

record serverConfigOutboundDirect =
  sod_Mode :: string
  sod_BindIPv4 :: string
  sod_BindIPv6 :: string
  sod_BindDevice :: string

record serverConfigOutboundSOCKS5 =
  sos_Addr :: string
  sos_Username :: string
  sos_Password :: string

record serverConfigOutboundHTTP =
  soh_URL :: string
  soh_Insecure :: bool

record serverConfigOutboundEntry =
  soe_Name :: string
  soe_Type :: string
  soe_Direct :: serverConfigOutboundDirect
  soe_SOCKS5 :: serverConfigOutboundSOCKS5
  soe_HTTP :: serverConfigOutboundHTTP

record serverConfigTrafficStats =
  sts_Listen :: string
  sts_Secret :: string

record serverConfigMasqueradeProxy =
  smp_URL :: string
  smp_RewriteHost :: bool

record serverConfigMasqueradeString =
  sms_Content :: string
  sms_Headers :: "(string, string) gomap"
  sms_StatusCode :: int

record serverConfigMasquerade =
  scm_Type :: string
  scm_File_Dir :: string
  scm_Proxy :: serverConfigMasqueradeProxy
  scm_String :: serverConfigMasqueradeString
  scm_ListenHTTP :: string
  scm_ListenHTTPS :: string
  scm_ForceHTTPS :: bool

record serverConfig =
  sc_Listen :: string
  sc_Obfs :: serverConfigObfs
  sc_TLS :: "serverConfigTLS option"
  sc_ACME :: "serverConfigACME option"
  sc_QUIC :: serverConfigQUIC
  sc_Bandwidth :: serverConfigBandwidth
  sc_IgnoreClientBandwidth :: bool
  sc_SpeedTest :: bool
  sc_DisableUDP :: bool
  sc_UDPIdleTimeout :: int
  sc_Auth :: serverConfigAuth
  sc_Resolver :: serverConfigResolver
  sc_Sniff :: serverConfigSniff
  sc_ACL :: serverConfigACL
  sc_Outbounds :: "serverConfigOutboundEntry list"
  sc_TrafficStats :: serverConfigTrafficStats
  sc_Masquerade :: serverConfigMasquerade

section \<open>The libraries\<close>

datatype DirectOutboundMode = ModeAuto | Mode64 | Mode46 | Mode6 | Mode4

text \<open>The loader of geographic databases that the rule engine is given.\<close>

record GeoLoader =
  gl_GeoIPFilename :: string
  gl_GeoSiteFilename :: string
  gl_UpdateInterval :: int

text \<open>\<open>'o\<close> are outbounds, \<open>'c\<close> certificates, \<open>'n\<close> packet connections.\<close>

record ('o, 'c, 'n, 'w) hy_net =
  hn_LoadX509KeyPair :: "string \<Rightarrow> string \<Rightarrow> 'w \<Rightarrow> 'c res"
  hn_ResolveUDPAddr :: "string \<Rightarrow> string res"
  hn_ListenUDP :: "string \<Rightarrow> 'w \<Rightarrow> 'n res \<times> 'w"
  hn_CloseConn :: "'n \<Rightarrow> 'w \<Rightarrow> 'w"
  hn_LocalAddr :: "'n \<Rightarrow> string"
  hn_WrapSalamander :: "'n \<Rightarrow> string \<Rightarrow> 'n res"
  hn_ParsePortUnion :: "string \<Rightarrow> (nat \<times> nat) list option"
  hn_ParseIP :: "string \<Rightarrow> string option"
  hn_ParseURL :: "string \<Rightarrow> (string \<times> string) res"
  ob_Simple :: "DirectOutboundMode \<Rightarrow> 'o"
  ob_BindToIPs :: "DirectOutboundMode \<Rightarrow> string option \<Rightarrow> string option \<Rightarrow> 'o res"
  ob_BindToDevice :: "DirectOutboundMode \<Rightarrow> string \<Rightarrow> 'o res"
  ob_SOCKS5 :: "string \<Rightarrow> string \<Rightarrow> string \<Rightarrow> 'o"
  ob_HTTP :: "string \<Rightarrow> bool \<Rightarrow> 'o res"
  ob_ACLFile :: "string \<Rightarrow> (string \<times> 'o) list \<Rightarrow> GeoLoader \<Rightarrow> 'w \<Rightarrow> 'o res \<times> 'w"
  ob_ACLString :: "string \<Rightarrow> (string \<times> 'o) list \<Rightarrow> GeoLoader \<Rightarrow> 'w \<Rightarrow> 'o res \<times> 'w"
  ob_SystemResolver :: "'o \<Rightarrow> 'o"
  ob_ResolverTCP :: "string \<Rightarrow> int \<Rightarrow> 'o \<Rightarrow> 'o"
  ob_ResolverUDP :: "string \<Rightarrow> int \<Rightarrow> 'o \<Rightarrow> 'o"
  ob_ResolverTLS :: "string \<Rightarrow> int \<Rightarrow> string \<Rightarrow> bool \<Rightarrow> 'o \<Rightarrow> 'o"
  ob_DoHResolver :: "string \<Rightarrow> int \<Rightarrow> string \<Rightarrow> bool \<Rightarrow> 'o \<Rightarrow> 'o"

section \<open>TLS and QUIC\<close>

text \<open>The certificate loaded now, and the files every handshake reloads it from.\<close>

record 'c hy_tls =
  ht_Certificate :: 'c
  ht_CertFile :: string
  ht_KeyFile :: string

definition getTLSConfig :: "('o, 'c, 'n, 'w) hy_net \<Rightarrow> Options \<Rightarrow> 'w \<Rightarrow> 'c hy_tls res" where
  "getTLSConfig N config w = (case op_CertConfig config of
     None \<Rightarrow> Inl ''the CertConfig is not vail''
   | Some cc \<Rightarrow>
       (if cc_CertMode cc = ''none'' \<or> cc_CertMode cc = [] then Inl ''the CertMode cannot be none''
        else (case hn_LoadX509KeyPair N (cc_CertFile cc) (cc_KeyFile cc) w of
            Inl e \<Rightarrow> Inl e
          | Inr cert \<Rightarrow> Inr \<lparr>ht_Certificate = cert, ht_CertFile = cc_CertFile cc, ht_KeyFile = cc_KeyFile cc\<rparr>)))"

definition GetCertificate :: "('o, 'c, 'n, 'w) hy_net \<Rightarrow> 'c hy_tls \<Rightarrow> 'w \<Rightarrow> 'c res" where
  "GetCertificate N t w = hn_LoadX509KeyPair N (ht_CertFile t) (ht_KeyFile t) w"

definition defaultStreamReceiveWindow :: int where "defaultStreamReceiveWindow = 8388608"
definition defaultConnReceiveWindow :: int where "defaultConnReceiveWindow = defaultStreamReceiveWindow * 5 div 2"
definition time_Second :: int where "time_Second = 1000000000"
definition defaultMaxIdleTimeout :: int where "defaultMaxIdleTimeout = 30 * time_Second"
definition defaultMaxIncomingStreams :: int where "defaultMaxIncomingStreams = 4096"

record QUICConfig =
  qc_InitialStreamReceiveWindow :: int
  qc_MaxStreamReceiveWindow :: int
  qc_InitialConnectionReceiveWindow :: int
  qc_MaxConnectionReceiveWindow :: int
  qc_MaxIdleTimeout :: int
  qc_MaxIncomingStreams :: int
  qc_DisablePathMTUDiscovery :: bool

definition QUICConfig_zero :: QUICConfig where
  "QUICConfig_zero = \<lparr>qc_InitialStreamReceiveWindow = 0, qc_MaxStreamReceiveWindow = 0,
     qc_InitialConnectionReceiveWindow = 0, qc_MaxConnectionReceiveWindow = 0, qc_MaxIdleTimeout = 0,
     qc_MaxIncomingStreams = 0, qc_DisablePathMTUDiscovery = False\<rparr>"

text \<open>A window that is set must be at least 16384; one that is not gets its default.\<close>

definition window :: "string \<Rightarrow> int \<Rightarrow> int \<Rightarrow> int res" where
  "window name d v = (if v = 0 then Inr d
     else if v < 16384 then Inl (''QUICConfig.'' @ name @ ''f must be at least 16384'') else Inr v)"

text \<open>An initial stream window that is set is not taken over: the branch assigns the connection window.\<close>

definition getQUICConfig :: "serverConfigQUIC \<Rightarrow> QUICConfig res" where
  "getQUICConfig q =
     (case (if scq_InitStreamReceiveWindow q = 0
            then Inr (QUICConfig_zero\<lparr>qc_InitialStreamReceiveWindow := defaultStreamReceiveWindow\<rparr>)
            else if scq_InitStreamReceiveWindow q < 16384
            then Inl ''QUICConfig.InitialStreamReceiveWindowf must be at least 16384''
            else Inr (QUICConfig_zero\<lparr>qc_InitialConnectionReceiveWindow := scq_InitConnectionReceiveWindow q\<rparr>)) of
       Inl e \<Rightarrow> Inl e
     | Inr quic \<Rightarrow>
   (case window ''MaxStreamReceiveWindow'' defaultStreamReceiveWindow (scq_MaxStreamReceiveWindow q) of
       Inl e \<Rightarrow> Inl e
     | Inr ms \<Rightarrow>
   (case window ''InitialConnectionReceiveWindow'' defaultConnReceiveWindow (scq_InitConnectionReceiveWindow q) of
       Inl e \<Rightarrow> Inl e
     | Inr ic \<Rightarrow>
   (case window ''MaxConnectionReceiveWindow'' defaultConnReceiveWindow (scq_MaxConnectionReceiveWindow q) of
       Inl e \<Rightarrow> Inl e
     | Inr mc \<Rightarrow>
   (case (if scq_MaxIdleTimeout q = 0 then Inr defaultMaxIdleTimeout
          else if scq_MaxIdleTimeout q < 4 * time_Second \<or> scq_MaxIdleTimeout q > 120 * time_Second
          then Inl ''QUICConfig.MaxIdleTimeoutf must be between 4s and 120s''
          else Inr (scq_MaxIdleTimeout q)) of
       Inl e \<Rightarrow> Inl e
     | Inr idle \<Rightarrow>
   (case (if scq_MaxIncomingStreams q = 0 then Inr defaultMaxIncomingStreams
          else if scq_MaxIncomingStreams q < 8 then Inl ''QUICConfig.MaxIncomingStreamsf must be at least 8''
          else Inr (scq_MaxIncomingStreams q)) of
       Inl e \<Rightarrow> Inl e
     | Inr streams \<Rightarrow>
         Inr (quic\<lparr>qc_MaxStreamReceiveWindow := ms, qc_InitialConnectionReceiveWindow := ic,
           qc_MaxConnectionReceiveWindow := mc, qc_MaxIdleTimeout := idle, qc_MaxIncomingStreams := streams,
           qc_DisablePathMTUDiscovery := False\<rparr>)))))))"

section \<open>The socket\<close>

definition formatAddress :: "string \<Rightarrow> int \<Rightarrow> string" where
  "formatAddress ip port =
     (if Contains ip '':'' then ''['' @ ip @ '']:'' @ Itoa port else ip @ '':'' @ Itoa port)"

text \<open>A kind of obfuscation that is not known is found only when the socket is open, and leaves it open.\<close>

definition getConn :: "('o, 'c, 'n, 'w) hy_net \<Rightarrow> NodeInfo \<Rightarrow> Options \<Rightarrow> 'w \<Rightarrow> 'n res \<times> 'w" where
  "getConn N info config w = (case ni_Common info of
     None \<Rightarrow> (Inl nil_pointer, w)
   | Some common \<Rightarrow>
   (case hn_ResolveUDPAddr N (formatAddress (op_ListenIP config) (cn_ServerPort common)) of
     Inl e \<Rightarrow> (Inl e, w)
   | Inr uAddr \<Rightarrow>
   (case hn_ListenUDP N uAddr w of
     (Inl e, w) \<Rightarrow> (Inl e, w)
   | (Inr conn, w) \<Rightarrow>
   (case ni_Hysteria2 info of
     None \<Rightarrow> (Inl nil_pointer, w)
   | Some h \<Rightarrow>
       (if ToLower (h2_ObfsType h) = [] \<or> ToLower (h2_ObfsType h) = ''plain'' then (Inr conn, w)
        else if ToLower (h2_ObfsType h) = ''salamander'' then
          (case hn_WrapSalamander N conn (h2_ObfsPassword h) of
             Inl e \<Rightarrow> (Inl e, hn_CloseConn N conn w)
           | Inr wrapped \<Rightarrow> (Inr wrapped, w))
        else (Inl ''unsupported obfuscation type'', w))))))"

section \<open>Bandwidth and sniffing\<close>

record BandwidthConfig =
  bw_MaxTx :: int
  bw_MaxRx :: int

definition Megabyte :: int where "Megabyte = 1 * 1000 * 1000"

text \<open>The conversion of a signed to an unsigned 64-bit integer keeps the bits.\<close>

definition uint64 :: "int \<Rightarrow> int" where
  "uint64 x = x mod 2 ^ 64"

definition getBandwidthConfig :: "Hysteria2Node \<Rightarrow> BandwidthConfig" where
  "getBandwidthConfig h = \<lparr>
     bw_MaxTx = (if h2_UpMbps h \<noteq> 0 then uint64 (quot64 (mul64 (h2_UpMbps h) Megabyte) 8) else 0),
     bw_MaxRx = (if h2_DownMbps h \<noteq> 0 then uint64 (quot64 (mul64 (h2_DownMbps h) Megabyte) 8) else 0)\<rparr>"

record Sniffer =
  sf_Timeout :: int
  sf_RewriteDomain :: bool
  sf_TCPPorts :: "(nat \<times> nat) list option"
  sf_UDPPorts :: "(nat \<times> nat) list option"

definition getRequestHook :: "('o, 'c, 'n, 'w) hy_net \<Rightarrow> serverConfigSniff \<Rightarrow> Sniffer option res" where
  "getRequestHook N s =
     (if scs_Enable s then
        (let tcp = (if scs_TCPPorts s \<noteq> [] then hn_ParsePortUnion N (scs_TCPPorts s) else None);
             udp = (if scs_UDPPorts s \<noteq> [] then hn_ParsePortUnion N (scs_UDPPorts s) else None)
         in if scs_TCPPorts s \<noteq> [] \<and> tcp = None then Inl ''sniff.tcpPorts: invalid port union''
            else if scs_UDPPorts s \<noteq> [] \<and> udp = None then Inl ''sniff.udpPorts: invalid port union''
            else Inr (Some \<lparr>sf_Timeout = scs_Timeout s, sf_RewriteDomain = scs_RewriteDomain s,
              sf_TCPPorts = tcp, sf_UDPPorts = udp\<rparr>))
      else Inr None)"

section \<open>Outbounds\<close>

definition direct_mode :: "string \<Rightarrow> DirectOutboundMode option" where
  "direct_mode s =
     (let m = ToLower s
      in if m = [] \<or> m = ''auto'' then Some ModeAuto else if m = ''64'' then Some Mode64
         else if m = ''46'' then Some Mode46 else if m = ''6'' then Some Mode6
         else if m = ''4'' then Some Mode4 else None)"

definition serverConfigOutboundDirectToOutbound ::
  "('o, 'c, 'n, 'w) hy_net \<Rightarrow> serverConfigOutboundDirect \<Rightarrow> 'o res" where
  "serverConfigOutboundDirectToOutbound N c = (case direct_mode (sod_Mode c) of
     None \<Rightarrow> Inl ''outbounds.direct.mode unsupported mode''
   | Some mode \<Rightarrow>
       (let bindIP = length (sod_BindIPv4 c) > 0 \<or> length (sod_BindIPv6 c) > 0;
            bindDevice = length (sod_BindDevice c) > 0
        in if bindIP \<and> bindDevice then Inl ''outbounds.direct cannot bind both IP and device''
           else if bindIP then
             (let ip4 = hn_ParseIP N (sod_BindIPv4 c); ip6 = hn_ParseIP N (sod_BindIPv6 c)
              in if length (sod_BindIPv4 c) > 0 \<and> ip4 = None then Inl ''outbounds.direct.bindIPv4 invalid IPv4 address''
                 else if length (sod_BindIPv6 c) > 0 \<and> ip6 = None then Inl ''outbounds.direct.bindIPv6 invalid IPv6 address''
                 else ob_BindToIPs N mode ip4 ip6)
           else if bindDevice then ob_BindToDevice N mode (sod_BindDevice c)
           else Inr (ob_Simple N mode)))"

definition serverConfigOutboundSOCKS5ToOutbound ::
  "('o, 'c, 'n, 'w) hy_net \<Rightarrow> serverConfigOutboundSOCKS5 \<Rightarrow> 'o res" where
  "serverConfigOutboundSOCKS5ToOutbound N c =
     (if sos_Addr c = [] then Inl ''outbounds.socks5.addr empty socks5 address''
      else Inr (ob_SOCKS5 N (sos_Addr c) (sos_Username c) (sos_Password c)))"

definition serverConfigOutboundHTTPToOutbound ::
  "('o, 'c, 'n, 'w) hy_net \<Rightarrow> serverConfigOutboundHTTP \<Rightarrow> 'o res" where
  "serverConfigOutboundHTTPToOutbound N c =
     (if soh_URL c = [] then Inl ''outbounds.http.url empty http address''
      else ob_HTTP N (soh_URL c) (soh_Insecure c))"

fun outbound_entries ::
  "('o, 'c, 'n, 'w) hy_net \<Rightarrow> serverConfigOutboundEntry list \<Rightarrow> (string \<times> 'o) list res" where
  "outbound_entries N [] = Inr []"
| "outbound_entries N (entry # es) =
     (if soe_Name entry = [] then Inl ''empty outbound name''
      else (let t = ToLower (soe_Type entry)
        in case (if t = ''direct'' then serverConfigOutboundDirectToOutbound N (soe_Direct entry)
                 else if t = ''socks5'' then serverConfigOutboundSOCKS5ToOutbound N (soe_SOCKS5 entry)
                 else if t = ''http'' then serverConfigOutboundHTTPToOutbound N (soe_HTTP entry)
                 else Inl ''outbounds.type unsupported outbound type'') of
             Inl e \<Rightarrow> Inl e
           | Inr ob \<Rightarrow> (case outbound_entries N es of
               Inl e \<Rightarrow> Inl e | Inr obs \<Rightarrow> Inr ((soe_Name entry, ob) # obs))))"

definition outbounds_of_config :: "('o, 'c, 'n, 'w) hy_net \<Rightarrow> serverConfig \<Rightarrow> (string \<times> 'o) list res" where
  "outbounds_of_config N c =
     (if length (sc_Outbounds c) = 0 then Inr [(''default'', ob_Simple N ModeAuto)]
      else outbound_entries N (sc_Outbounds c))"

text \<open>The rule engine around the outbounds, or the first of them; and whether there are rules.\<close>

definition acl_outbound ::
  "('o, 'c, 'n, 'w) hy_net \<Rightarrow> serverConfigACL \<Rightarrow> (string \<times> 'o) list \<Rightarrow> 'w \<Rightarrow> (bool \<times> 'o) res \<times> 'w" where
  "acl_outbound N a obs w =
     (let gLoader = \<lparr>gl_GeoIPFilename = acl_GeoIP a, gl_GeoSiteFilename = acl_GeoSite a,
            gl_UpdateInterval = acl_GeoUpdateInterval a\<rparr>
      in if acl_File a \<noteq> [] \<and> length (acl_Inline a) > 0 then (Inl ''cannot set both acl.file and acl.inline'', w)
         else if acl_File a \<noteq> [] then
           (case ob_ACLFile N (acl_File a) obs gLoader w of (r, w) \<Rightarrow> (map_sum id (Pair True) r, w))
         else if length (acl_Inline a) > 0 then
           (case ob_ACLString N (Join (acl_Inline a) [CHR 0x0A]) obs gLoader w of (r, w) \<Rightarrow> (map_sum id (Pair True) r, w))
         else (Inr (False, snd (obs ! 0)), w))"

definition resolver_outbound :: "('o, 'c, 'n, 'w) hy_net \<Rightarrow> serverConfigResolver \<Rightarrow> bool \<Rightarrow> 'o \<Rightarrow> 'o res" where
  "resolver_outbound N r hasACL uOb =
     (let t = ToLower (scr_Type r)
      in if t = [] \<or> t = ''system'' then Inr (if hasACL then ob_SystemResolver N uOb else uOb)
         else if t = ''tcp'' then
           (if srt_Addr (scr_TCP r) = [] then Inl ''empty resolver address''
            else Inr (ob_ResolverTCP N (srt_Addr (scr_TCP r)) (srt_Timeout (scr_TCP r)) uOb))
         else if t = ''udp'' then
           (if sru_Addr (scr_UDP r) = [] then Inl ''empty resolver address''
            else Inr (ob_ResolverUDP N (sru_Addr (scr_UDP r)) (sru_Timeout (scr_UDP r)) uOb))
         else if t = ''tls'' \<or> t = ''tcp-tls'' then
           (if srl_Addr (scr_TLS r) = [] then Inl ''empty resolver address''
            else Inr (ob_ResolverTLS N (srl_Addr (scr_TLS r)) (srl_Timeout (scr_TLS r)) (srl_SNI (scr_TLS r))
              (srl_Insecure (scr_TLS r)) uOb))
         else if t = ''https'' \<or> t = ''http'' then
           (if srh_Addr (scr_HTTPS r) = [] then Inl ''empty resolver address''
            else Inr (ob_DoHResolver N (srh_Addr (scr_HTTPS r)) (srh_Timeout (scr_HTTPS r)) (srh_SNI (scr_HTTPS r))
              (srh_Insecure (scr_HTTPS r)) uOb))
         else Inl ''unsupported resolver type'')"

definition getOutboundConfig :: "('o, 'c, 'n, 'w) hy_net \<Rightarrow> serverConfig \<Rightarrow> 'w \<Rightarrow> 'o res \<times> 'w" where
  "getOutboundConfig N c w = (case outbounds_of_config N c of
     Inl e \<Rightarrow> (Inl e, w)
   | Inr obs \<Rightarrow> (case acl_outbound N (sc_ACL c) obs w of
       (Inl e, w) \<Rightarrow> (Inl e, w)
     | (Inr (hasACL, uOb), w) \<Rightarrow> (resolver_outbound N (sc_Resolver c) hasACL uOb, w)))"

section \<open>Masquerade\<close>

datatype masq_handler =
    NotFoundHandler
  | FileServer string
  | ReverseProxy string string bool
  | StringHandler serverConfigMasqueradeString

record http_request =
  rq_Scheme :: string
  rq_URLHost :: string
  rq_Host :: string
  rq_RemoteAddr :: string
  rq_XForwardedFor :: string

text \<open>What the reverse proxy changes in a request before it passes it on.\<close>

definition Director :: "string \<Rightarrow> string \<Rightarrow> bool \<Rightarrow> http_request \<Rightarrow> http_request" where
  "Director scheme host rewriteHost req =
     (let req = req\<lparr>rq_Scheme := scheme, rq_URLHost := host\<rparr>;
          req = (case SplitHostPort (rq_RemoteAddr req) of
              None \<Rightarrow> req
            | Some (clientIP, port) \<Rightarrow> req\<lparr>rq_XForwardedFor :=
                (if rq_XForwardedFor req \<noteq> [] then rq_XForwardedFor req @ '', '' @ clientIP else clientIP)\<rparr>)
      in if rewriteHost then req\<lparr>rq_Host := rq_URLHost req\<rparr> else req)"

record http_reply =
  rp_Headers :: "(string, string) gomap"
  rp_StatusCode :: int
  rp_Body :: string

definition string_reply :: "serverConfigMasqueradeString \<Rightarrow> http_reply" where
  "string_reply s = \<lparr>rp_Headers = fold (\<lambda>(k, v). mput k v) (sms_Headers s) [],
     rp_StatusCode = (if sms_StatusCode s \<noteq> 0 then sms_StatusCode s else 200), rp_Body = sms_Content s\<rparr>"

definition masq_handler_of :: "('o, 'c, 'n, 'w) hy_net \<Rightarrow> serverConfigMasquerade \<Rightarrow> masq_handler res" where
  "masq_handler_of N m =
     (let t = ToLower (scm_Type m)
      in if t = [] \<or> t = ''404'' then Inr NotFoundHandler
         else if t = ''file'' then
           (if scm_File_Dir m = [] then Inl ''masquerade.file.dir empty file directory'' else Inr (FileServer (scm_File_Dir m)))
         else if t = ''proxy'' then
           (if smp_URL (scm_Proxy m) = [] then Inl ''masquerade.proxy.url empty proxy url''
            else (case hn_ParseURL N (smp_URL (scm_Proxy m)) of
                Inl e \<Rightarrow> Inl (''masquerade.proxy.url '' @ e)
              | Inr (scheme, host) \<Rightarrow> Inr (ReverseProxy scheme host (smp_RewriteHost (scm_Proxy m)))))
         else if t = ''string'' then
           (if sms_Content (scm_String m) = [] then Inl ''masquerade.string.content empty string content''
            else if sms_StatusCode (scm_String m) \<noteq> 0 \<and>
               (sms_StatusCode (scm_String m) < 200 \<or> sms_StatusCode (scm_String m) > 599 \<or> sms_StatusCode (scm_String m) = 233)
            then Inl ''masquerade.string.statusCode invalid status code (must be 200-599, except 233)''
            else Inr (StringHandler (scm_String m)))
         else Inl ''masquerade.type unsupported masquerade type'')"

definition extractPortFromAddr :: "string \<Rightarrow> int" where
  "extractPortFromAddr addr = (case SplitHostPort addr of
     None \<Rightarrow> 0
   | Some (_, portStr) \<Rightarrow> (case Atoi portStr of (port, failed) \<Rightarrow> if failed then 0 else port))"

text \<open>The TCP servers that show the masquerade to browsers, with the addresses they listen on.\<close>

record 'c MasqTCPServer =
  ms_QUICPort :: int
  ms_HTTPSPort :: int
  ms_Handler :: masq_handler
  ms_TLS :: "'c hy_tls"
  ms_ForceHTTPS :: bool
  ms_httpAddr :: string
  ms_httpsAddr :: string

definition getMasqHandler ::
  "('o, 'c, 'n, 'w) hy_net \<Rightarrow> 'c hy_tls \<Rightarrow> 'n \<Rightarrow> serverConfigMasquerade \<Rightarrow> (masq_handler \<times> 'c MasqTCPServer option) res" where
  "getMasqHandler N tls conn m = (case masq_handler_of N m of
     Inl e \<Rightarrow> Inl e
   | Inr handler \<Rightarrow>
       (if scm_ListenHTTP m \<noteq> [] \<or> scm_ListenHTTPS m \<noteq> [] then
          (if scm_ListenHTTP m \<noteq> [] \<and> scm_ListenHTTPS m = []
           then Inl ''masquerade.listenHTTPS having only HTTP server without HTTPS is not supported''
           else Inr (handler, Some \<lparr>ms_QUICPort = extractPortFromAddr (hn_LocalAddr N conn),
             ms_HTTPSPort = extractPortFromAddr (scm_ListenHTTPS m), ms_Handler = handler, ms_TLS = tls,
             ms_ForceHTTPS = scm_ForceHTTPS m, ms_httpAddr = scm_ListenHTTP m, ms_httpsAddr = scm_ListenHTTPS m\<rparr>))
        else Inr (handler, None)))"

section \<open>The settings of the server\<close>

record ('o, 'c, 'n) hy_config =
  hc_TLSConfig :: "'c hy_tls"
  hc_QUICConfig :: QUICConfig
  hc_Conn :: 'n
  hc_RequestHook :: "Sniffer option"
  hc_Outbound :: 'o
  hc_BandwidthConfig :: BandwidthConfig
  hc_IgnoreClientBandwidth :: bool
  hc_DisableUDP :: bool
  hc_UDPIdleTimeout :: int
  hc_MasqHandler :: masq_handler
  hc_MasqTCP :: "'c MasqTCPServer option"

definition getHyConfig ::
  "('o, 'c, 'n, 'w) hy_net \<Rightarrow> NodeInfo \<Rightarrow> Options \<Rightarrow> serverConfig \<Rightarrow> 'w \<Rightarrow> ('o, 'c, 'n) hy_config res \<times> 'w" where
  "getHyConfig N info config c w = (case getTLSConfig N config w of
     Inl e \<Rightarrow> (Inl e, w)
   | Inr tls \<Rightarrow>
   (case getQUICConfig (sc_QUIC c) of
     Inl e \<Rightarrow> (Inl e, w)
   | Inr quic \<Rightarrow>
   (case getConn N info config w of
     (Inl e, w) \<Rightarrow> (Inl e, w)
   | (Inr conn, w) \<Rightarrow>
   (case getRequestHook N (sc_Sniff c) of
     Inl e \<Rightarrow> (Inl e, w)
   | Inr sniff \<Rightarrow>
   (case getOutboundConfig N c w of
     (Inl e, w) \<Rightarrow> (Inl e, w)
   | (Inr ob, w) \<Rightarrow>
   (case getMasqHandler N tls conn (sc_Masquerade c) of
     Inl e \<Rightarrow> (Inl e, w)
   | Inr (masq, tcp) \<Rightarrow>
   (case ni_Hysteria2 info of
     None \<Rightarrow> (Inl nil_pointer, w)
   | Some h \<Rightarrow>
       (Inr \<lparr>hc_TLSConfig = tls, hc_QUICConfig = quic, hc_Conn = conn, hc_RequestHook = sniff, hc_Outbound = ob,
          hc_BandwidthConfig = getBandwidthConfig h, hc_IgnoreClientBandwidth = h2_Ignore_Client_Bandwidth h,
          hc_DisableUDP = sc_DisableUDP c, hc_UDPIdleTimeout = sc_UDPIdleTimeout c,
          hc_MasqHandler = masq, hc_MasqTCP = tcp\<rparr>, w))))))))"

end
