(* ===== verification/Hy2_Core.thy ===== *)
theory Hy2_Core
  imports Hy2_Config Limiter Traffic_Report
begin

text \<open>
  The Hysteria core (runtime/core/hy2: hy2.go, node.go, user.go, hook.go, logger.go): one server per node, one
  authenticator for all of them, and the callbacks the servers make: connections and requests ask the
  limiter, traffic is counted.  A panic or a fatal log message ends the process; it is an error here.
\<close>

section \<open>Logging\<close>

datatype log_level = DebugLevel | InfoLevel | WarnLevel | ErrorLevel
datatype log_encoding = ConsoleEncoding | JsonEncoding

definition logLevelMap :: "(string, log_level) gomap" where
  "logLevelMap = [(''debug'', DebugLevel), (''info'', InfoLevel), (''warn'', WarnLevel), (''error'', ErrorLevel)]"

definition logFormatMap :: "(string, log_encoding) gomap" where
  "logFormatMap = [(''console'', ConsoleEncoding), (''json'', JsonEncoding)]"

definition initLogger :: "string \<Rightarrow> string \<Rightarrow> (log_level \<times> log_encoding) res" where
  "initLogger logLevel logFormat = (case map_of logLevelMap (ToLower logLevel) of
     None \<Rightarrow> Inl (''unsupported log level: '' @ logLevel)
   | Some level \<Rightarrow> (case map_of logFormatMap (ToLower logFormat) of
       None \<Rightarrow> Inl (''unsupported log format: '' @ logFormat)
     | Some enc \<Rightarrow> Inr (level, enc)))"

section \<open>The callbacks of a server\<close>

text \<open>The kinds of \<open>net.Addr\<close>; only addresses of the first three have an IP.\<close>

datatype net_addr = TCPAddr string int | UDPAddr string int | IPAddr string | OtherAddr string

fun extractIPFromAddr :: "net_addr \<Rightarrow> string" where
  "extractIPFromAddr (TCPAddr ip port) = ip"
| "extractIPFromAddr (UDPAddr ip port) = ip"
| "extractIPFromAddr (IPAddr ip) = ip"
| "extractIPFromAddr (OtherAddr s) = []"

fun is_tcp :: "net_addr \<Rightarrow> bool" where
  "is_tcp (TCPAddr ip port) \<longleftrightarrow> True"
| "is_tcp a \<longleftrightarrow> False"

definition set_over_limit :: "string \<Rightarrow> bool \<Rightarrow> 'rx Limiter \<Rightarrow> 'rx Limiter" where
  "set_over_limit taguuid over l = (case map_of (li_UserLimitInfo l) taguuid of
     None \<Rightarrow> l
   | Some u \<Rightarrow> l\<lparr>li_UserLimitInfo := mput taguuid (u\<lparr>ul_OverLimit := over\<rparr>) (li_UserLimitInfo l)\<rparr>)"

text \<open>The check the three callbacks of the event logger share; a node without a limiter is a panic.\<close>

definition check_over_limit :: "int \<Rightarrow> string \<Rightarrow> net_addr \<Rightarrow> string \<Rightarrow> 'rx limiters \<Rightarrow> err option \<times> 'rx limiters" where
  "check_over_limit now tag addr uuid w = (case GetLimiter tag w of
     Inl e \<Rightarrow> (Some ''Get limiter error'', w)
   | Inr r \<Rightarrow> (None, update_ref r (\<lambda>l.
       let (v, l1) = CheckLimit now (UserTag tag uuid) (extractIPFromAddr addr) (is_tcp addr) True l
       in set_over_limit (UserTag tag uuid) (snd v) l1) w))"

definition serverLogger_Connect :: "int \<Rightarrow> string \<Rightarrow> net_addr \<Rightarrow> string \<Rightarrow> 'rx limiters \<Rightarrow> err option \<times> 'rx limiters" where
  "serverLogger_Connect now tag addr uuid w = check_over_limit now tag addr uuid w"

definition serverLogger_TCPRequest :: "int \<Rightarrow> string \<Rightarrow> net_addr \<Rightarrow> string \<Rightarrow> 'rx limiters \<Rightarrow> err option \<times> 'rx limiters" where
  "serverLogger_TCPRequest now tag addr uuid w = check_over_limit now tag addr uuid w"

definition serverLogger_UDPRequest :: "int \<Rightarrow> string \<Rightarrow> net_addr \<Rightarrow> string \<Rightarrow> 'rx limiters \<Rightarrow> err option \<times> 'rx limiters" where
  "serverLogger_UDPRequest now tag addr uuid w = check_over_limit now tag addr uuid w"

record HyHook =
  hh_Tag :: string
  hh_Counter :: "(string, TrafficCounter) gomap"
  hh_ReportMinTrafficBytes :: int

text \<open>Traffic of a client; \<open>False\<close> makes the server cut the client off.  The conversion to \<open>int\<close> keeps the bits.\<close>

definition LogTraffic :: "string \<Rightarrow> nat \<Rightarrow> nat \<Rightarrow> HyHook \<Rightarrow> 'rx limiters \<Rightarrow> bool \<times> HyHook \<times> 'rx limiters" where
  "LogTraffic uuid tx rx h w = (case GetLimiter (hh_Tag h) w of
     Inl e \<Rightarrow> (False, h, w)
   | Inr r \<Rightarrow>
       (let key = UserTag (hh_Tag h) uuid; u = map_of (li_UserLimitInfo (deref w r)) key
        in if (case u of None \<Rightarrow> False | Some i \<Rightarrow> ul_OverLimit i)
           then (False, h, update_ref r (set_over_limit key False) w)
           else (let c = (case map_of (hh_Counter h) (hh_Tag h) of None \<Rightarrow> NewTrafficCounter | Some c \<Rightarrow> c)
             in (True, h\<lparr>hh_Counter := mput (hh_Tag h) (Tx uuid (w64 (int tx)) (Rx uuid (w64 (int rx)) c)) (hh_Counter h)\<rparr>, w))))"

section \<open>The core\<close>

text \<open>
  The server library: the network part above, the reader of configuration files, and the servers \<open>'s\<close>, known
  by the settings, the tag of the event logger and the hook they were made with.
\<close>

record ('o, 'c, 'n, 's, 'w) hy_lib =
  hl_net :: "('o, 'c, 'n, 'w) hy_net"
  hl_ReadConfig :: "string \<Rightarrow> 'w \<Rightarrow> serverConfig res"
  hl_zeroConfig :: serverConfig
  hl_NewServer :: "('o, 'c, 'n) hy_config \<Rightarrow> string \<Rightarrow> nat \<Rightarrow> 'w \<Rightarrow> 's res \<times> 'w"
  hl_Serve :: "'s \<Rightarrow> 'w \<Rightarrow> 'w"
  hl_Close :: "'s \<Rightarrow> 'w \<Rightarrow> err option \<times> 'w"

record 's Hysteria2node =
  hn_Hy2server :: 's
  hn_Tag :: string
  hn_TrafficLogger :: nat

text \<open>The hooks are shared with the servers; they live in a heap.\<close>

record ('s, 'w) Hysteria2 =
  hy_Hy2nodes :: "(string, 's Hysteria2node) gomap"
  hy_usersMap :: "(string, int) gomap"
  hy_hooks :: "HyHook list"
  hy_world :: 'w

definition New_Hysteria2 :: "'w \<Rightarrow> CoreConfig \<Rightarrow> ('s, 'w) Hysteria2 res" where
  "New_Hysteria2 w c = (case co_Hysteria2Config c of
     None \<Rightarrow> Inl nil_pointer
   | Some hc \<Rightarrow> (case initLogger (if hc_LogLevel hc \<noteq> [] then hc_LogLevel hc else ''error'') ''console'' of
       Inl e \<Rightarrow> Inl e
     | Inr log \<Rightarrow> Inr \<lparr>hy_Hy2nodes = [], hy_usersMap = [], hy_hooks = [], hy_world = w\<rparr>))"

definition hy2_config_validator :: "CoreConfig \<Rightarrow> err option" where
  "hy2_config_validator c = (case co_Hysteria2Config c of None \<Rightarrow> Some ''missing Hysteria settings'' | Some _ \<Rightarrow> None)"

text \<open>The second validator reads the file with a strict decoder, given as \<open>exact\<close>.\<close>

definition hy2_node_validator :: "(string \<Rightarrow> err option) \<Rightarrow> Options \<Rightarrow> err option" where
  "hy2_node_validator exact options =
     (if op_Hysteria2ConfigPath options = [] then None else exact (op_Hysteria2ConfigPath options))"

definition Hy2_Protocols :: "string list" where
  "Hy2_Protocols = [''hysteria2'']"

definition Hy2_Start :: "('s, 'w) Hysteria2 \<Rightarrow> err option \<times> ('s, 'w) Hysteria2" where
  "Hy2_Start h = (None, h)"

fun close_nodes :: "('s \<Rightarrow> 'w \<Rightarrow> err option \<times> 'w) \<Rightarrow> 's Hysteria2node list \<Rightarrow> 'w \<Rightarrow> err option \<times> 'w" where
  "close_nodes cl [] w = (None, w)"
| "close_nodes cl (n # ns) w = (case cl (hn_Hy2server n) w of
     (Some e, w) \<Rightarrow> (Some e, w) | (None, w) \<Rightarrow> close_nodes cl ns w)"

definition Hy2_Close :: "('o, 'c, 'n, 's, 'w) hy_lib \<Rightarrow> ('s, 'w) Hysteria2 \<Rightarrow> err option \<times> ('s, 'w) Hysteria2" where
  "Hy2_Close L h = (case close_nodes (hl_Close L) (map snd (hy_Hy2nodes h)) (hy_world h) of
     (r, w) \<Rightarrow> (r, h\<lparr>hy_world := w\<rparr>))"

section \<open>Nodes\<close>

definition Hy2_AddNode ::
  "('o, 'c, 'n, 's, 'w) hy_lib \<Rightarrow> string \<Rightarrow> NodeInfo \<Rightarrow> Options \<Rightarrow> ('s, 'w) Hysteria2 \<Rightarrow> err option \<times> ('s, 'w) Hysteria2" where
  "Hy2_AddNode L tag info config h =
     (case (if length (op_Hysteria2ConfigPath config) \<noteq> 0
            then hl_ReadConfig L (op_Hysteria2ConfigPath config) (hy_world h) else Inr (hl_zeroConfig L)) of
        Inl e \<Rightarrow> (Some e, h)
      | Inr c \<Rightarrow>
      (case getHyConfig (hl_net L) info config c (hy_world h) of
        (Inl e, w) \<Rightarrow> (Some e, h\<lparr>hy_world := w\<rparr>)
      | (Inr hyconfig, w) \<Rightarrow>
      (let hook = length (hy_hooks h)
       in case hl_NewServer L hyconfig tag hook w of
            (Inl e, w) \<Rightarrow> (Some e, h\<lparr>hy_world := w\<rparr>)
          | (Inr s, w) \<Rightarrow>
              (None, h\<lparr>hy_Hy2nodes := mput tag \<lparr>hn_Hy2server = s, hn_Tag = tag, hn_TrafficLogger = hook\<rparr> (hy_Hy2nodes h),
                 hy_hooks := hy_hooks h @ [\<lparr>hh_Tag = tag, hh_Counter = [],
                   hh_ReportMinTrafficBytes = mul64 (op_ReportMinTraffic config) 1024\<rparr>],
                 hy_world := hl_Serve L s w\<rparr>))))"

text \<open>An unknown tag is the zero node, whose server is nil.\<close>

definition Hy2_DelNode :: "('o, 'c, 'n, 's, 'w) hy_lib \<Rightarrow> string \<Rightarrow> ('s, 'w) Hysteria2 \<Rightarrow> err option \<times> ('s, 'w) Hysteria2" where
  "Hy2_DelNode L tag h = (case map_of (hy_Hy2nodes h) tag of
     None \<Rightarrow> (Some nil_pointer, h)
   | Some n \<Rightarrow> (case hl_Close L (hn_Hy2server n) (hy_world h) of
       (Some e, w) \<Rightarrow> (Some e, h\<lparr>hy_world := w\<rparr>)
     | (None, w) \<Rightarrow> (None, h\<lparr>hy_Hy2nodes := mdel tag (hy_Hy2nodes h), hy_world := w\<rparr>)))"

section \<open>Users\<close>

text \<open>The authenticator is asked by every server; a client's credential is its identity.\<close>

definition Authenticate :: "string \<Rightarrow> ('s, 'w) Hysteria2 \<Rightarrow> bool \<times> string" where
  "Authenticate auth h = (if mhas (hy_usersMap h) auth then (True, auth) else (False, []))"

text \<open>The goroutines store under a mutex; their order is that of the list.  The tag is not used.\<close>

definition Hy2_AddUsers :: "string \<Rightarrow> UserInfo list \<Rightarrow> NodeInfo \<Rightarrow> ('s, 'w) Hysteria2 \<Rightarrow> int res \<times> ('s, 'w) Hysteria2" where
  "Hy2_AddUsers tag us n h =
     (Inr (int (length us)), h\<lparr>hy_usersMap := fold (\<lambda>u. mput (ui_Uuid u) (ui_Id u)) us (hy_usersMap h)\<rparr>)"

definition on_hyhook :: "nat \<Rightarrow> (HyHook \<Rightarrow> HyHook) \<Rightarrow> ('s, 'w) Hysteria2 \<Rightarrow> ('s, 'w) Hysteria2" where
  "on_hyhook r f h = h\<lparr>hy_hooks := (hy_hooks h)[r := f (hy_hooks h ! r)]\<rparr>"

definition hook_Delete :: "string \<Rightarrow> string \<Rightarrow> HyHook \<Rightarrow> HyHook" where
  "hook_Delete tag uuid k = (case map_of (hh_Counter k) tag of
     None \<Rightarrow> k | Some c \<Rightarrow> k\<lparr>hh_Counter := mput tag (Delete uuid c) (hh_Counter k)\<rparr>)"

text \<open>The traffic logger of an unknown node is a nil interface, and asserting its type panics.\<close>

definition Hy2_DelUsers :: "UserInfo list \<Rightarrow> string \<Rightarrow> NodeInfo \<Rightarrow> ('s, 'w) Hysteria2 \<Rightarrow> err option \<times> ('s, 'w) Hysteria2" where
  "Hy2_DelUsers us tag n h =
     (if us = [] then (None, h)
      else (case map_of (hy_Hy2nodes h) tag of
          None \<Rightarrow> (Some ''interface conversion: interface is nil'', h)
        | Some node \<Rightarrow>
            (let h1 = on_hyhook (hn_TrafficLogger node) (fold (\<lambda>u. hook_Delete tag (ui_Uuid u)) us) h
             in (None, h1\<lparr>hy_usersMap := fold (\<lambda>u. mdel (ui_Uuid u)) us (hy_usersMap h1)\<rparr>))))"

definition Hy2_GetUserTrafficSlice :: "string \<Rightarrow> bool \<Rightarrow> ('s, 'w) Hysteria2 \<Rightarrow> UserTraffic list res \<times> ('s, 'w) Hysteria2" where
  "Hy2_GetUserTrafficSlice tag reset h = (case map_of (hy_Hy2nodes h) tag of
     None \<Rightarrow> (Inr [], h)
   | Some node \<Rightarrow>
       (let r = hn_TrafficLogger node; hook = hy_hooks h ! r
        in case map_of (hh_Counter hook) tag of
             None \<Rightarrow> (Inr [], h)
           | Some c \<Rightarrow>
               (let (slice, c') = fold (traffic_entry (hh_ReportMinTrafficBytes hook) (mget_or 0 (hy_usersMap h)) reset)
                      (tc_Counters c) ([], c)
                in (Inr slice, on_hyhook r (\<lambda>k. k\<lparr>hh_Counter := mput tag c' (hh_Counter k)\<rparr>) h))))"

definition hy2_core :: "('o, 'c, 'n, 's, 'w) hy_lib \<Rightarrow> ('s, 'w) Hysteria2 Core" where
  "hy2_core L = \<lparr>c_Start = Hy2_Start, c_Close = Hy2_Close L,
     c_AddNode = (\<lambda>tag n o1 s. case Hy2_AddNode L tag n o1 s of (r, s') \<Rightarrow> (r, o1, s')),
     c_DelNode = Hy2_DelNode L, c_AddUsers = Hy2_AddUsers,
     c_GetUserTrafficSlice = Hy2_GetUserTrafficSlice, c_DelUsers = Hy2_DelUsers,
     c_Protocols = (\<lambda>s. Hy2_Protocols), c_Type = (\<lambda>s. ''hysteria2''),
     c_ValidateNode = None, c_SnapshotNodeState = None\<rparr>"

end
