(* ===== verification/Hy2_Props.thy ===== *)
theory Hy2_Props
  imports Hy2_Core
begin

text \<open>
  The Hysteria core: the bounds of an accepted configuration, what the callbacks let through and count, and
  where the core falls short of the contract the other cores keep - its users are shared by all its nodes and
  outlive them, and a failed node keeps its socket.
\<close>

section \<open>A library to evaluate with\<close>

text \<open>The state of the network is the list of bound addresses, which are also the sockets.\<close>

definition hy_demo_net :: "(string, string, string, string list) hy_net" where
  "hy_demo_net = \<lparr>hn_LoadX509KeyPair = (\<lambda>c k w. Inr c), hn_ResolveUDPAddr = (\<lambda>a. Inr a),
     hn_ListenUDP = (\<lambda>a w. if a \<in> set w then (Inl ''address already in use'', w) else (Inr a, a # w)),
     hn_CloseConn = (\<lambda>a w. removeAll a w), hn_LocalAddr = (\<lambda>a. a), hn_WrapSalamander = (\<lambda>a p. Inr a),
     hn_ParsePortUnion = (\<lambda>s. Some []), hn_ParseIP = (\<lambda>s. Some s), hn_ParseURL = (\<lambda>s. Inr (''https'', s)),
     ob_Simple = (\<lambda>m. ''direct''), ob_BindToIPs = (\<lambda>m a b. Inr ''ips''), ob_BindToDevice = (\<lambda>m d. Inr d),
     ob_SOCKS5 = (\<lambda>a u p. a), ob_HTTP = (\<lambda>u i. Inr u), ob_ACLFile = (\<lambda>f obs g w. (Inr ''acl'', w)),
     ob_ACLString = (\<lambda>f obs g w. (Inr ''acl'', w)), ob_SystemResolver = (\<lambda>x. x), ob_ResolverTCP = (\<lambda>a t x. x),
     ob_ResolverUDP = (\<lambda>a t x. x), ob_ResolverTLS = (\<lambda>a t s i x. x), ob_DoHResolver = (\<lambda>a t s i x. x)\<rparr>"

definition hy_zero_config :: serverConfig where
  "hy_zero_config = \<lparr>sc_Listen = [], sc_Obfs = \<lparr>sco_Type = [], sco_Salamander_Password = []\<rparr>, sc_TLS = None, sc_ACME = None,
     sc_QUIC = \<lparr>scq_InitStreamReceiveWindow = 0, scq_MaxStreamReceiveWindow = 0, scq_InitConnectionReceiveWindow = 0,
       scq_MaxConnectionReceiveWindow = 0, scq_MaxIdleTimeout = 0, scq_MaxIncomingStreams = 0, scq_DisablePathMTUDiscovery = False\<rparr>,
     sc_Bandwidth = \<lparr>scb_Up = [], scb_Down = []\<rparr>, sc_IgnoreClientBandwidth = False, sc_SpeedTest = False,
     sc_DisableUDP = False, sc_UDPIdleTimeout = 0,
     sc_Auth = \<lparr>sau_Type = [], sau_Password = [], sau_UserPass = [], sau_HTTP = \<lparr>sah_URL = [], sah_Insecure = False\<rparr>, sau_Command = []\<rparr>,
     sc_Resolver = \<lparr>scr_Type = [], scr_TCP = \<lparr>srt_Addr = [], srt_Timeout = 0\<rparr>, scr_UDP = \<lparr>sru_Addr = [], sru_Timeout = 0\<rparr>,
       scr_TLS = \<lparr>srl_Addr = [], srl_Timeout = 0, srl_SNI = [], srl_Insecure = False\<rparr>,
       scr_HTTPS = \<lparr>srh_Addr = [], srh_Timeout = 0, srh_SNI = [], srh_Insecure = False\<rparr>\<rparr>,
     sc_Sniff = \<lparr>scs_Enable = False, scs_Timeout = 0, scs_RewriteDomain = False, scs_TCPPorts = [], scs_UDPPorts = []\<rparr>,
     sc_ACL = \<lparr>acl_File = [], acl_Inline = [], acl_GeoIP = [], acl_GeoSite = [], acl_GeoUpdateInterval = 0\<rparr>,
     sc_Outbounds = [], sc_TrafficStats = \<lparr>sts_Listen = [], sts_Secret = []\<rparr>,
     sc_Masquerade = \<lparr>scm_Type = [], scm_File_Dir = [], scm_Proxy = \<lparr>smp_URL = [], smp_RewriteHost = False\<rparr>,
       scm_String = \<lparr>sms_Content = [], sms_Headers = [], sms_StatusCode = 0\<rparr>, scm_ListenHTTP = [], scm_ListenHTTPS = [],
       scm_ForceHTTPS = False\<rparr>\<rparr>"

definition hy_demo_lib :: "(string, string, string, string, string list) hy_lib" where
  "hy_demo_lib = \<lparr>hl_net = hy_demo_net, hl_ReadConfig = (\<lambda>p w. Inr hy_zero_config), hl_zeroConfig = hy_zero_config,
     hl_NewServer = (\<lambda>c tag hook w. (Inr (hc_Conn c), w)), hl_Serve = (\<lambda>s w. w), hl_Close = (\<lambda>s w. (None, removeAll s w))\<rparr>"

definition hy_demo_node :: "string \<Rightarrow> NodeInfo" where
  "hy_demo_node obfs = \<lparr>ni_responseHash = [], ni_responseETag = [], ni_Id = 1, ni_Type = ''hysteria2'', ni_Security = 1,
     ni_PushInterval = 60, ni_PullInterval = 60, ni_RawDNS = \<lparr>dns_DNSMap = [], dns_DNSJson = []\<rparr>,
     ni_Rules = \<lparr>ru_Regexp = [], ru_Protocol = []\<rparr>, ni_VAllss = None, ni_Shadowsocks = None, ni_Trojan = None,
     ni_Tuic = None, ni_AnyTls = None, ni_Hysteria = None,
     ni_Hysteria2 = Some \<lparr>h2_Common = \<lparr>cn_Host = [], cn_ServerPort = 443, cn_ServerName = [], cn_Routes = [], cn_BaseConfig = None\<rparr>,
       h2_Ignore_Client_Bandwidth = False, h2_UpMbps = 80, h2_DownMbps = 0, h2_ObfsType = obfs, h2_ObfsPassword = ''p''\<rparr>,
     ni_Common = Some \<lparr>cn_Host = [], cn_ServerPort = 443, cn_ServerName = [], cn_Routes = [], cn_BaseConfig = None\<rparr>\<rparr>"

definition hy_demo_options :: Options where
  "hy_demo_options = default_options\<lparr>op_CertConfig := Some (NewCertConfig\<lparr>cc_CertMode := ''file'', cc_CertFile := ''c''\<rparr>)\<rparr>"

definition hy_demo :: "(string, string list) Hysteria2" where
  "hy_demo = \<lparr>hy_Hy2nodes = [], hy_usersMap = [], hy_hooks = [], hy_world = []\<rparr>"

definition hy_demo_user :: "string \<Rightarrow> int \<Rightarrow> UserInfo" where
  "hy_demo_user u i = \<lparr>ui_Id = i, ui_Uuid = u, ui_SpeedLimit = 0, ui_DeviceLimit = 0\<rparr>"

section \<open>Bounds of an accepted configuration\<close>

lemma window_bound: "window name d v = Inr x \<Longrightarrow> 16384 \<le> d \<Longrightarrow> 16384 \<le> x"
  by (auto simp: window_def split: if_splits)

lemma getQUICConfig_bounds:
  assumes "getQUICConfig q = Inr quic"
  shows "16384 \<le> qc_MaxStreamReceiveWindow quic \<and> 16384 \<le> qc_InitialConnectionReceiveWindow quic \<and>
    16384 \<le> qc_MaxConnectionReceiveWindow quic \<and> 4 * time_Second \<le> qc_MaxIdleTimeout quic \<and>
    qc_MaxIdleTimeout quic \<le> 120 * time_Second \<and> 8 \<le> qc_MaxIncomingStreams quic \<and>
    qc_InitialStreamReceiveWindow quic = (if scq_InitStreamReceiveWindow q = 0 then defaultStreamReceiveWindow else 0)"
proof -
  note d = defaultStreamReceiveWindow_def defaultConnReceiveWindow_def
  from assms obtain ms ic mc where
    w: "window ''MaxStreamReceiveWindow'' defaultStreamReceiveWindow (scq_MaxStreamReceiveWindow q) = Inr ms"
      "window ''InitialConnectionReceiveWindow'' defaultConnReceiveWindow (scq_InitConnectionReceiveWindow q) = Inr ic"
      "window ''MaxConnectionReceiveWindow'' defaultConnReceiveWindow (scq_MaxConnectionReceiveWindow q) = Inr mc"
    unfolding getQUICConfig_def by (auto split: sum.splits)
  have "16384 \<le> ms" "16384 \<le> ic" "16384 \<le> mc"
    using w [THEN window_bound] by (simp_all add: d)
  with assms w show ?thesis
    unfolding getQUICConfig_def
    by (auto simp: defaultMaxIdleTimeout_def defaultMaxIncomingStreams_def time_Second_def QUICConfig_zero_def split: if_splits)
qed

lemma masq_status_bounds:
  "masq_handler_of N m = Inr (StringHandler s) \<Longrightarrow>
   200 \<le> rp_StatusCode (string_reply s) \<and> rp_StatusCode (string_reply s) \<le> 599 \<and> rp_StatusCode (string_reply s) \<noteq> 233"
  by (auto simp: masq_handler_of_def string_reply_def Let_def split: if_splits sum.splits)



section \<open>Users\<close>

lemma mhas_fold_store: "mhas (fold (\<lambda>u. mput (ui_Uuid u) (f u)) us m) a \<longleftrightarrow> mhas m a \<or> a \<in> uuids us"
  by (induction us arbitrary: m) (auto simp: uuids_def)

lemma mhas_fold_drop: "mhas (fold (\<lambda>u. mdel (ui_Uuid u)) us m) a \<longleftrightarrow> mhas m a \<and> a \<notin> uuids us"
  by (induction us arbitrary: m) (auto simp: uuids_def)

text \<open>The users of the authenticator.\<close>

definition authenticated :: "('s, 'w) Hysteria2 \<Rightarrow> string set" where
  "authenticated h = {a. fst (Authenticate a h)}"

lemma authenticated_has: "a \<in> authenticated h \<longleftrightarrow> mhas (hy_usersMap h) a"
  by (simp add: authenticated_def Authenticate_def)

lemma authenticated_AddUsers: "authenticated (snd (Hy2_AddUsers tag us n h)) = authenticated h \<union> uuids us"
  by (auto simp: authenticated_has Hy2_AddUsers_def mhas_fold_store)

lemma authenticated_DelUsers:
  "Hy2_DelUsers us tag n h = (None, h') \<Longrightarrow> authenticated h' = authenticated h - uuids us"
  by (auto simp: authenticated_has Hy2_DelUsers_def on_hyhook_def mhas_fold_drop Let_def split: if_splits option.splits)

lemma authenticated_DelNode: "authenticated (snd (Hy2_DelNode L tag h)) = authenticated h"
  by (auto simp: authenticated_has Hy2_DelNode_def split: option.splits prod.splits)

lemma authenticated_AddNode: "authenticated (snd (Hy2_AddNode L tag info config h)) = authenticated h"
  by (auto simp: authenticated_has Hy2_AddNode_def Let_def split: sum.splits prod.splits)

text \<open>However one reads the state of the Hysteria core, it does not keep the contract of a core when the users
  admitted under a tag are those its servers let in: users added for one node are let in by every other one.\<close>

theorem hy2_breaks_contract:
  assumes "good h"
  shows "\<not> core_contract (hy2_core L) listens (\<lambda>h tag. authenticated h) cfg good fit"
proof
  assume c: "core_contract (hy2_core L) listens (\<lambda>h tag. authenticated h) cfg good fit"
  have "authenticated h = fst ` set (hy_usersMap h)" by (intro set_eqI) (simp add: authenticated_has mhas_set)
  then have "finite (authenticated h)" by simp
  then obtain u where u: "u \<notin> authenticated h" using ex_new_if_finite [OF infinite_UNIV_listI] by blast
  let ?us = "[hy_demo_user u 1]"
  obtain k h' where a: "c_AddUsers (hy2_core L) ''a'' ?us (hy_demo_node []) h = (Inr k, h')"
    by (simp add: hy2_core_def Hy2_AddUsers_def)
  from authenticated_AddUsers [of "''a''" ?us "hy_demo_node []" h] a
  have n: "u \<in> authenticated h'" by (simp add: hy2_core_def hy_demo_user_def uuids_def)
  have "apart ''b'' ''a''" by code_simp
  with core_contract.add_users_frame [OF c assms a, of "''b''"] u n show False by simp
qed

theorem hy2_breaks_contract_witness:
  "\<not> core_contract (hy2_core hy_demo_lib) (\<lambda>h tag. map_option hn_Hy2server (map_of (hy_Hy2nodes h) tag))
     (\<lambda>h tag. authenticated h) (\<lambda>tag n o1. []) (\<lambda>h. hy_world h = []) (\<lambda>h tag. True)"
  by (rule hy2_breaks_contract [of "\<lambda>h. hy_world h = []" hy_demo]) (simp add: hy_demo_def)

section \<open>The callbacks\<close>

definition over_limit :: "string \<Rightarrow> 'rx Limiter \<Rightarrow> bool" where
  "over_limit key l = (case map_of (li_UserLimitInfo l) key of None \<Rightarrow> False | Some u \<Rightarrow> ul_OverLimit u)"

lemma over_limit_set [simp]: "over_limit key (set_over_limit key b l) \<longleftrightarrow> mhas (li_UserLimitInfo l) key \<and> b"
  by (auto simp: over_limit_def set_over_limit_def mhas_def split: option.splits)

text \<open>The counts of a user in a hook.\<close>

definition hook_counts :: "HyHook \<Rightarrow> string \<Rightarrow> int \<times> int" where
  "hook_counts k u = (case map_of (hh_Counter k) (hh_Tag k) of
     None \<Rightarrow> (0, 0) | Some c \<Rightarrow> (GetUpCount u c, GetDownCount u c))"

definition hook_ok :: "HyHook \<Rightarrow> bool" where
  "hook_ok k \<longleftrightarrow> (case map_of (hh_Counter k) (hh_Tag k) of None \<Rightarrow> True | Some c \<Rightarrow> tc_inv c \<and> mwf (tc_Counters c))"

lemma mwf_GetCounter: "mwf (tc_Counters c) \<Longrightarrow> mwf (tc_Counters (snd (GetCounter u c)))"
  by (auto simp: GetCounter_def Let_def split: option.splits)

lemma mwf_Rx_Tx: "mwf (tc_Counters c) \<Longrightarrow> mwf (tc_Counters (Rx u n c)) \<and> mwf (tc_Counters (Tx u n c))"
  using mwf_GetCounter [of c u] by (simp add: Rx_def Tx_def Let_def split_def)

lemma counted_traffic:
  assumes "hook_ok k"
  defines "c \<equiv> (case map_of (hh_Counter k) (hh_Tag k) of None \<Rightarrow> NewTrafficCounter | Some c \<Rightarrow> c)"
  shows "hook_ok (k\<lparr>hh_Counter := mput (hh_Tag k) (Tx u m (Rx u n c)) (hh_Counter k)\<rparr>)"
    and "hook_counts (k\<lparr>hh_Counter := mput (hh_Tag k) (Tx u m (Rx u n c)) (hh_Counter k)\<rparr>) v =
      (if v = u then (add64 (fst (hook_counts k u)) m, add64 (snd (hook_counts k u)) n) else hook_counts k v)"
proof -
  have c: "tc_inv c" "mwf (tc_Counters c)" "\<And>v. (GetUpCount v c, GetDownCount v c) = hook_counts k v"
    using assms(1) by (auto simp: c_def hook_ok_def hook_counts_def NewTrafficCounter_def GetUpCount_def GetDownCount_def
        split: option.splits) (simp add: tc_inv_def)
  note r = tc_inv_Rx [OF c(1)] mwf_Rx_Tx [OF c(2)]
  show "hook_ok (k\<lparr>hh_Counter := mput (hh_Tag k) (Tx u m (Rx u n c)) (hh_Counter k)\<rparr>)"
    using tc_inv_Tx [OF r(1)] mwf_Rx_Tx [OF conjunct1 [OF r(2)]] by (simp add: hook_ok_def)
  show "hook_counts (k\<lparr>hh_Counter := mput (hh_Tag k) (Tx u m (Rx u n c)) (hh_Counter k)\<rparr>) v =
      (if v = u then (add64 (fst (hook_counts k u)) m, add64 (snd (hook_counts k u)) n) else hook_counts k v)"
    using Tx_counts [OF r(1)] Rx_counts [OF c(1)] c(3) [symmetric] by (simp add: hook_counts_def)
qed

text \<open>Traffic of a client is let through exactly when the node has a limiter in which the user is not marked, and
  then it is added to the user's own counts and to nobody else's; a refusal counts nothing and takes the mark
  off, so that it cuts the client off once.\<close>

theorem LogTraffic_outcome:
  assumes "hook_ok k" and "GetLimiter (hh_Tag k) w = Inr r" and "r < length (lw_heap w)"
    and "LogTraffic u tx rx k w = (ok, k', w')"
  shows "ok = (\<not> over_limit (UserTag (hh_Tag k) u) (deref w r)) \<and> hook_ok k' \<and>
    hook_counts k' v = (if ok \<and> v = u
       then (add64 (fst (hook_counts k u)) (w64 (int tx)), add64 (snd (hook_counts k u)) (w64 (int rx))) else hook_counts k v) \<and>
    \<not> over_limit (UserTag (hh_Tag k) u) (deref w' r)"
proof (cases "over_limit (UserTag (hh_Tag k) u) (deref w r)")
  case True
  with assms(2,4) have "ok = False" "k' = k" "w' = update_ref r (set_over_limit (UserTag (hh_Tag k) u) False) w"
    by (auto simp: LogTraffic_def over_limit_def Let_def split: option.splits if_splits)
  with assms(1,3) True show ?thesis by (simp add: update_ref_def)
next
  case False
  with assms(2,4) have "ok" "w' = w"
    and "k' = k\<lparr>hh_Counter := mput (hh_Tag k) (Tx u (w64 (int tx)) (Rx u (w64 (int rx))
      (case map_of (hh_Counter k) (hh_Tag k) of None \<Rightarrow> NewTrafficCounter | Some c \<Rightarrow> c))) (hh_Counter k)\<rparr>"
    by (auto simp: LogTraffic_def over_limit_def Let_def split: option.splits if_splits)
  with False counted_traffic [OF assms(1)] show ?thesis by simp
qed

definition hy_demo_hook :: HyHook where
  "hy_demo_hook = \<lparr>hh_Tag = ''t'', hh_Counter = [], hh_ReportMinTrafficBytes = 0\<rparr>"

definition hy_demo_limiters :: "string limiters" where
  "hy_demo_limiters = \<lparr>lw_heap = [newLimiter ''t'' (op_LimitConfig default_options) [hy_demo_user ''u'' 7] []], lw_map = [(''t'', 0)]\<rparr>"

theorem LogTraffic_outcome_witness:
  "hook_counts (fst (snd (LogTraffic ''u'' 5 6 hy_demo_hook hy_demo_limiters))) ''u'' = (5, 6)"
proof -
  have k: "hook_ok hy_demo_hook" by (simp add: hook_ok_def hy_demo_hook_def)
  have p: "GetLimiter (hh_Tag hy_demo_hook) hy_demo_limiters = Inr 0"
    "0 < length (lw_heap hy_demo_limiters)" "hook_counts hy_demo_hook ''u'' = (0, 0)"
    "\<not> over_limit (UserTag (hh_Tag hy_demo_hook) ''u'') (deref hy_demo_limiters 0)"
    by code_simp+
  obtain ok k' w' where l: "LogTraffic ''u'' 5 6 hy_demo_hook hy_demo_limiters = (ok, k', w')"
    by (cases "LogTraffic ''u'' 5 6 hy_demo_hook hy_demo_limiters") auto
  from LogTraffic_outcome [OF k p(1,2) l, of "''u''"] p(3,4) show ?thesis by (simp add: l go_arith)
qed

text \<open>C38: the users of a node outlive it: who was let in before the node was deleted is let in by the node that
  replaces it, whether the panel still lists him or not, and as the new limiter does not know him, nothing
  marks him and his traffic passes unlimited.\<close>

theorem hy2_removed_user_is_served:
  assumes "u \<in> authenticated h" and "Hy2_DelNode L tag h = (r1, h1)" and "Hy2_AddNode L tag info config h1 = (r2, h2)"
    and "Hy2_AddUsers tag us n h2 = (r3, h3)"
    and "GetLimiter (hh_Tag k) w = Inr r" and "\<not> mhas (li_UserLimitInfo (deref w r)) (UserTag (hh_Tag k) u)"
  shows "u \<in> authenticated h3 \<and> check_over_limit now (hh_Tag k) addr u w = (None, w) \<and> fst (LogTraffic u tx rx k w)"
proof -
  have "u \<in> authenticated h3"
    using assms(1) authenticated_DelNode [of L tag h] authenticated_AddNode [of L tag info config h1]
      authenticated_AddUsers [of tag us n h2] by (simp add: assms(2-4))
  moreover have "check_over_limit now (hh_Tag k) addr u w = (None, w)"
    using assms(5,6) by (simp add: check_over_limit_def CheckLimit_def mhas_def set_over_limit_def update_ref_def)
  moreover have "fst (LogTraffic u tx rx k w)" using assms(5,6) by (simp add: LogTraffic_def Let_def mhas_def)
  ultimately show ?thesis by blast
qed

theorem hy2_removed_user_is_served_witness:
  "\<exists>h3. snd (Hy2_AddUsers ''t'' [] (hy_demo_node []) (snd (Hy2_AddNode hy_demo_lib ''t'' (hy_demo_node []) hy_demo_options
       (snd (Hy2_DelNode hy_demo_lib ''t'' (snd (Hy2_AddUsers ''t'' [hy_demo_user ''old'' 1] (hy_demo_node []) hy_demo))))))) = h3 \<and>
     ''old'' \<in> authenticated h3 \<and> fst (LogTraffic ''old'' 1 1 hy_demo_hook hy_demo_limiters)"
proof -
  let ?h = "snd (Hy2_AddUsers ''t'' [hy_demo_user ''old'' 1] (hy_demo_node []) hy_demo)"
  have o: "''old'' \<in> authenticated ?h" by (simp add: authenticated_AddUsers hy_demo_user_def uuids_def)
  have l: "GetLimiter (hh_Tag hy_demo_hook) hy_demo_limiters = Inr 0"
    "\<not> mhas (li_UserLimitInfo (deref hy_demo_limiters 0)) (UserTag (hh_Tag hy_demo_hook) ''old'')" by code_simp+
  from hy2_removed_user_is_served [OF o prod.collapse [symmetric] prod.collapse [symmetric] prod.collapse [symmetric] l]
  show ?thesis by blast
qed

section \<open>Sockets\<close>

text \<open>Everything before the socket reads the network only, and asks nothing of the obfuscation.\<close>

lemma getHyConfig_conn:
  "getHyConfig N info config c w = (Inr hc, w') \<Longrightarrow> \<exists>conn w1. getConn N info config w = (Inr conn, w1)"
  by (auto simp: getHyConfig_def split: sum.splits prod.splits option.splits)

lemma getHyConfig_tls_quic:
  "getHyConfig N info config c w = (Inr hc, w') \<Longrightarrow>
   (\<exists>tls. getTLSConfig N config w = Inr tls) \<and> (\<exists>quic. getQUICConfig (sc_QUIC c) = Inr quic)"
  by (auto simp: getHyConfig_def split: sum.splits)

lemma Hy2_AddNode_ok:
  assumes "Hy2_AddNode L tag info config h = (None, h')"
  shows "\<exists>c hc w. (if length (op_Hysteria2ConfigPath config) \<noteq> 0 then hl_ReadConfig L (op_Hysteria2ConfigPath config) (hy_world h)
      else Inr (hl_zeroConfig L)) = Inr c \<and> getHyConfig (hl_net L) info config c (hy_world h) = (Inr hc, w)"
  using assms by (auto simp: Hy2_AddNode_def split: sum.splits prod.splits)

text \<open>The socket of a node whose obfuscation is unknown.\<close>

lemma getConn_unknown_obfs:
  assumes "ni_Common info = Some cn" and "ni_Hysteria2 info = Some hy"
    and "ToLower (h2_ObfsType hy) \<notin> {[], ''plain'', ''salamander''}"
    and "hn_ResolveUDPAddr N (formatAddress (op_ListenIP config) (cn_ServerPort cn)) = Inr a"
    and "hn_ListenUDP N a w = (Inr conn, w1)"
  shows "getConn N info config w = (Inl ''unsupported obfuscation type'', w1)"
  using assms by (auto simp: getConn_def)

text \<open>a node refused for its kind of obfuscation keeps its socket open: where an address can be bound only once,
  the node cannot be added any more, not even after the panel corrected it.\<close>

theorem hy2_failed_node_keeps_socket:
  assumes once: "\<And>a w conn w1. hn_ListenUDP (hl_net L) a w = (Inr conn, w1) \<Longrightarrow> \<exists>e w2. hn_ListenUDP (hl_net L) a w1 = (Inl e, w2)"
    and bad: "ni_Common bad = Some cn" "ni_Hysteria2 bad = Some hy" "ToLower (h2_ObfsType hy) \<notin> {[], ''plain'', ''salamander''}"
    and addr: "hn_ResolveUDPAddr (hl_net L) (formatAddress (op_ListenIP config) (cn_ServerPort cn)) = Inr a"
      "hn_ListenUDP (hl_net L) a (hy_world h) = (Inr conn, w1)"
    and no_file: "op_Hysteria2ConfigPath config = []"
    and same: "ni_Common good = ni_Common bad"
    and "Hy2_AddNode L tag bad config h = (r, h1)" and "Hy2_AddNode L tag good config h1 = (r', h2)"
  shows "\<exists>e e'. r = Some e \<and> r' = Some e'"
proof -
  let ?N = "hl_net L" and ?c = "hl_zeroConfig L"
  note gc = getConn_unknown_obfs [OF bad addr]
  have r: "r \<noteq> None"
    using assms(9) Hy2_AddNode_ok [of L tag bad config h] getHyConfig_conn [of ?N bad config _ "hy_world h"] gc by fastforce
  have h1: "hy_world h1 = hy_world h \<and> \<not> (\<exists>hc w. getHyConfig ?N bad config ?c (hy_world h) = (Inr hc, w)) \<and>
      ((\<exists>e. getTLSConfig ?N config (hy_world h) = Inl e) \<or> (\<exists>e. getQUICConfig (sc_QUIC ?c) = Inl e)) \<or> hy_world h1 = w1"
    using assms(9) gc by (auto simp: Hy2_AddNode_def no_file getHyConfig_def split: sum.splits)
  have r': "r' \<noteq> None"
  proof
    assume "r' = None"
    with assms(10) Hy2_AddNode_ok [of L tag good config h1] no_file
    obtain hc w where g: "getHyConfig ?N good config ?c (hy_world h1) = (Inr hc, w)" by auto
    from getHyConfig_tls_quic [OF g] h1 have "hy_world h1 = w1" by auto
    with getHyConfig_conn [OF g] obtain conn' w' where "getConn ?N good config w1 = (Inr conn', w')" by auto
    with once [OF addr(2)] addr(1) bad(1) same show False
      by (auto simp: getConn_def split: sum.splits prod.splits)
  qed
  from r r' show ?thesis by simp
qed

theorem hy2_failed_node_keeps_socket_witness:
  "fst (Hy2_AddNode hy_demo_lib ''t'' (hy_demo_node ''salamander'') hy_demo_options
     (snd (Hy2_AddNode hy_demo_lib ''t'' (hy_demo_node ''x'') hy_demo_options hy_demo))) \<noteq> None \<and>
   fst (Hy2_AddNode hy_demo_lib ''t'' (hy_demo_node ''salamander'') hy_demo_options hy_demo) = None"
proof -
  let ?cn = "\<lparr>cn_Host = [], cn_ServerPort = 443, cn_ServerName = [], cn_Routes = [], cn_BaseConfig = None\<rparr>"
  let ?a = "formatAddress (op_ListenIP hy_demo_options) 443"
  obtain hy where hy: "ni_Hysteria2 (hy_demo_node ''x'') = Some hy" "h2_ObfsType hy = ''x''" by (simp add: hy_demo_node_def)
  then have x: "ToLower (h2_ObfsType hy) \<notin> {[], ''plain'', ''salamander''}" by (simp only: hy(2)) code_simp
  have once: "hn_ListenUDP (hl_net hy_demo_lib) a w = (Inr conn, w1) \<Longrightarrow> \<exists>e w2. hn_ListenUDP (hl_net hy_demo_lib) a w1 = (Inl e, w2)"
    for a w conn w1
    by (auto simp: hy_demo_lib_def hy_demo_net_def split: if_splits)
  have c: "ni_Common (hy_demo_node ''x'') = Some ?cn" "ni_Common (hy_demo_node ''salamander'') = ni_Common (hy_demo_node ''x'')"
    "op_Hysteria2ConfigPath hy_demo_options = []"
    by (simp_all add: hy_demo_node_def hy_demo_options_def default_options_def)
  have a: "hn_ResolveUDPAddr (hl_net hy_demo_lib) (formatAddress (op_ListenIP hy_demo_options) (cn_ServerPort ?cn)) = Inr ?a"
    "hn_ListenUDP (hl_net hy_demo_lib) ?a (hy_world hy_demo) = (Inr ?a, [?a])"
    by (simp_all add: hy_demo_lib_def hy_demo_net_def hy_demo_def)
  have "fst (Hy2_AddNode hy_demo_lib ''t'' (hy_demo_node ''salamander'') hy_demo_options hy_demo) = None" by code_simp
  with hy2_failed_node_keeps_socket [OF once c(1) hy(1) x a c(3) c(2) prod.collapse [symmetric] prod.collapse [symmetric]]
  show ?thesis by auto
qed

section \<open>Traffic\<close>

definition node_hook :: "string \<Rightarrow> ('s, 'w) Hysteria2 \<Rightarrow> HyHook option" where
  "node_hook tag h = map_option (\<lambda>n. hy_hooks h ! hn_TrafficLogger n) (map_of (hy_Hy2nodes h) tag)"

text \<open>a report lists every user with an identifier whose count exceeds the node's minimum, each with exactly its
  count, and takes exactly what it listed from the counts; it drops the counts of users the authenticator does
  not know, and leaves all others.\<close>

theorem hy2_traffic_exact:
  assumes "node_hook tag h = Some k" and "hh_Tag k = tag" and "hook_ok k"
    and "hn_TrafficLogger (the (map_of (hy_Hy2nodes h) tag)) < length (hy_hooks h)"
    and "map_of (hh_Counter k) tag = Some c" and "Hy2_GetUserTrafficSlice tag True h = (Inr slice, h')"
  shows "set slice = {\<lparr>ut_UID = mget_or 0 (hy_usersMap h) u, ut_Upload = fst (hook_counts k u), ut_Download = snd (hook_counts k u)\<rparr> | u.
        mhas (tc_Counters c) u \<and> mget_or 0 (hy_usersMap h) u \<noteq> 0 \<and>
        add64 (fst (hook_counts k u)) (snd (hook_counts k u)) > hh_ReportMinTrafficBytes k} \<and>
    (\<exists>k'. node_hook tag h' = Some k' \<and> hook_counts k' u =
      (if mhas (tc_Counters c) u \<and> add64 (fst (hook_counts k u)) (snd (hook_counts k u)) > hh_ReportMinTrafficBytes k
       then (0, 0) else hook_counts k u))"
proof -
  from assms(1) obtain n where n: "map_of (hy_Hy2nodes h) tag = Some n" "hy_hooks h ! hn_TrafficLogger n = k"
    by (auto simp: node_hook_def)
  obtain sl c' where f: "fold (traffic_entry (hh_ReportMinTrafficBytes k) (mget_or 0 (hy_usersMap h)) True) (tc_Counters c) ([], c) = (sl, c')"
    by fastforce
  from assms(6) n f assms(5) have s: "sl = slice"
    and h': "h' = on_hyhook (hn_TrafficLogger n) (\<lambda>k. k\<lparr>hh_Counter := mput tag c' (hh_Counter k)\<rparr>) h"
    by (auto simp: Hy2_GetUserTrafficSlice_def Let_def)
  from assms(3,2,5) have c: "tc_inv c" "mwf (tc_Counters c)" by (simp_all add: hook_ok_def)
  have hc: "hook_counts k u = (GetUpCount u c, GetDownCount u c)" for u
    using assms(2,5) by (simp add: hook_counts_def)
  have k': "node_hook tag h' = Some (k\<lparr>hh_Counter := mput tag c' (hh_Counter k)\<rparr>)"
    using n assms(4) by (simp add: node_hook_def h' on_hyhook_def)
  have hc': "hook_counts (k\<lparr>hh_Counter := mput tag c' (hh_Counter k)\<rparr>) u = (GetUpCount u c', GetDownCount u c')"
    using assms(2) by (simp add: hook_counts_def)
  from traffic_report_outcome [OF c f] show ?thesis unfolding s hc k' by (simp add: hc')
qed

definition hy_demo_counted :: "(string, string list) Hysteria2" where
  "hy_demo_counted = hy_demo\<lparr>hy_Hy2nodes := [(''t'', \<lparr>hn_Hy2server = ''s'', hn_Tag = ''t'', hn_TrafficLogger = 0\<rparr>)],
     hy_usersMap := [(''u'', 7)],
     hy_hooks := [hy_demo_hook\<lparr>hh_Counter := [(''t'', Tx ''u'' 5 (Rx ''u'' 6 NewTrafficCounter))]\<rparr>]\<rparr>"

theorem hy2_traffic_exact_witness:
  "\<exists>s h' k'. Hy2_GetUserTrafficSlice ''t'' True hy_demo_counted = (Inr s, h') \<and>
     s = [\<lparr>ut_UID = 7, ut_Upload = 5, ut_Download = 6\<rparr>] \<and> node_hook ''t'' h' = Some k' \<and> hook_counts k' ''u'' = (0, 0)"
proof -
  let ?c = "Tx ''u'' 5 (Rx ''u'' 6 NewTrafficCounter)" and ?k = "hd (hy_hooks hy_demo_counted)"
  have k: "node_hook ''t'' hy_demo_counted = Some ?k" "hh_Tag ?k = ''t''"
    "hn_TrafficLogger (the (map_of (hy_Hy2nodes hy_demo_counted) ''t'')) < length (hy_hooks hy_demo_counted)"
    "map_of (hh_Counter ?k) ''t'' = Some ?c"
    by (simp_all add: node_hook_def hy_demo_counted_def hy_demo_hook_def)
  have ok: "hook_ok ?k"
    using tc_inv_Tx [OF tc_inv_Rx [OF tc_inv_new]] mwf_Rx_Tx [OF conjunct1 [OF mwf_Rx_Tx]] k(2,4)
    by (simp add: hook_ok_def NewTrafficCounter_def)
  have cnt: "mhas (tc_Counters ?c) ''u'' \<and> add64 (fst (hook_counts ?k ''u'')) (snd (hook_counts ?k ''u'')) > hh_ReportMinTrafficBytes ?k"
    by code_simp
  have e: "case Hy2_GetUserTrafficSlice ''t'' True hy_demo_counted of
      (Inr s, h') \<Rightarrow> s = [\<lparr>ut_UID = 7, ut_Upload = 5, ut_Download = 6\<rparr>] | _ \<Rightarrow> False"
    by code_simp
  obtain r h' where g: "Hy2_GetUserTrafficSlice ''t'' True hy_demo_counted = (r, h')"
    by (cases "Hy2_GetUserTrafficSlice ''t'' True hy_demo_counted")
  from e obtain s where r: "r = Inr s" "s = [\<lparr>ut_UID = 7, ut_Upload = 5, ut_Download = 6\<rparr>]"
    unfolding g by (cases r) (simp_all only: prod.case sum.case)
  from hy2_traffic_exact [OF k(1,2) ok k(3,4) g [unfolded r(1)], of "''u''"] cnt obtain k'
    where "node_hook ''t'' h' = Some k'" "hook_counts k' ''u'' = (0, 0)" by auto
  with g r show ?thesis by blast
qed

end
