(* ===== verification/Node_List.thy ===== *)
theory Node_List
  imports Controller_Steps
begin

text \<open>
  The controllers of the configured nodes (runtime/node/node.go): started one after the other over the same
  core, limiters and files, and closed together.  A panic is an error.
\<close>

section \<open>Starting and closing\<close>

text \<open>What all controllers share; each controller is run on the state its predecessors left.\<close>

record ('s, 'rx, 'w) shared =
  sh_server :: 's
  sh_limiters :: "'rx limiters"
  sh_world :: 'w

definition share :: "('s, 'rx, 'w) shared \<Rightarrow> ('s, 'rx, 'w) Controller \<Rightarrow> ('s, 'rx, 'w) Controller" where
  "share g c = c\<lparr>ct_server := sh_server g, ct_limiters := sh_limiters g, ct_world := sh_world g\<rparr>"

definition shared_of :: "('s, 'rx, 'w) Controller \<Rightarrow> ('s, 'rx, 'w) shared" where
  "shared_of c = \<lparr>sh_server = ct_server c, sh_limiters = ct_limiters c, sh_world = ct_world c\<rparr>"

definition NewController :: "('s, 'rx, 'w) shared \<Rightarrow> Client \<Rightarrow> Options \<Rightarrow> ('s, 'rx, 'w) Controller" where
  "NewController g api config = \<lparr>ct_server = sh_server g, ct_limiters = sh_limiters g, ct_world = sh_world g,
     ct_pendingTraffic = [], ct_apiClient = api, ct_tag = [], ct_limiter = 0, ct_traffic = [], ct_userList = [],
     ct_aliveMap = [], ct_info = None, ct_nodeInfoMonitorPeriodic = None, ct_userReportPeriodic = None,
     ct_renewCertPeriodic = None, ct_dynamicSpeedLimitPeriodic = None, ct_Options = config\<rparr>"

definition start_error :: "ApiConfig \<Rightarrow> err \<Rightarrow> err" where
  "start_error a e = ''start node controller ['' @ ac_APIHost a @ ''-'' @ ac_NodeType a @ ''-'' @ Itoa (ac_NodeID a) @ ''] error: '' @ e"

text \<open>The loop from the i-th node on; the replies of the panel depend on the node.\<close>

fun start_nodes ::
  "('s, 'rx, 'w) env \<Rightarrow> (nat \<Rightarrow> replies) \<Rightarrow> nat \<Rightarrow> NodeConfig list \<Rightarrow> ('s, 'rx, 'w) Controller option list \<Rightarrow> ('s, 'rx, 'w) shared
     \<Rightarrow> err option \<times> ('s, 'rx, 'w) Controller option list \<times> ('s, 'rx, 'w) shared" where
  "start_nodes E P i [] cs g = (None, cs, g)"
| "start_nodes E P i (n # ns) cs g = (case New (nc_ApiConfig n) of
     (Inl e, a) \<Rightarrow> (Some e, cs, g)
   | (Inr p, a) \<Rightarrow> (case Start E (P i) (NewController g p (nc_Options n)) of
       (Some e, c) \<Rightarrow> (Some (start_error a e), cs[i := Some c], shared_of c)
     | (None, c) \<Rightarrow> start_nodes E P (i + 1) ns (cs[i := Some c]) (shared_of c)))"

definition Node_Start ::
  "('s, 'rx, 'w) env \<Rightarrow> (nat \<Rightarrow> replies) \<Rightarrow> NodeConfig list \<Rightarrow> ('s, 'rx, 'w) shared
     \<Rightarrow> err option \<times> ('s, 'rx, 'w) Controller option list \<times> ('s, 'rx, 'w) shared" where
  "Node_Start E P nodes g = start_nodes E P 0 nodes (replicate (length nodes) None) g"

text \<open>Closing a nil controller or failing to close one panics; only when all are closed the list is dropped.\<close>

fun close_controllers ::
  "('s, 'rx, 'w) env \<Rightarrow> ('s, 'rx, 'w) Controller option list \<Rightarrow> ('s, 'rx, 'w) shared \<Rightarrow> err option \<times> ('s, 'rx, 'w) shared" where
  "close_controllers E [] g = (None, g)"
| "close_controllers E (None # cs) g = (Some panicked, g)"
| "close_controllers E (Some c # cs) g = (case Close E (share g c) of
     (Some e, c) \<Rightarrow> (Some e, shared_of c)
   | (None, c) \<Rightarrow> close_controllers E cs (shared_of c))"

definition Node_Close ::
  "('s, 'rx, 'w) env \<Rightarrow> ('s, 'rx, 'w) Controller option list \<Rightarrow> ('s, 'rx, 'w) shared
     \<Rightarrow> err option \<times> ('s, 'rx, 'w) Controller option list \<times> ('s, 'rx, 'w) shared" where
  "Node_Close E cs g = (case close_controllers E cs g of
     (Some e, g) \<Rightarrow> (Some e, cs, g) | (None, g) \<Rightarrow> (None, [], g))"

section \<open>A failed start cannot be closed\<close>

lemma start_nodes_prefix:
  assumes "start_nodes E P i ns cs g = (r, cs', g')" and "i + length ns \<le> length cs"
  shows "length cs' = length cs \<and> (\<forall>j. (j < i \<or> i + length ns \<le> j) \<longrightarrow> cs' ! j = cs ! j)"
  using assms
proof (induction E P i ns cs g rule: start_nodes.induct)
  case (2 E P i n ns cs g)
  obtain np a where np: "New (nc_ApiConfig n) = (np, a)" by (cases "New (nc_ApiConfig n)")
  show ?case
  proof (cases np)
    case (Inl e)
    with 2(2) show ?thesis by (simp add: np)
  next
    case (Inr p)
    obtain q c where s: "Start E (P i) (NewController g p (nc_Options n)) = (q, c)" by fastforce
    show ?thesis
    proof (cases q)
      case (Some e)
      with 2(2) show ?thesis by (auto simp: np Inr s)
    next
      case None
      with 2(2) have r: "start_nodes E P (i + 1) ns (cs[i := Some c]) (shared_of c) = (r, cs', g')"
        by (simp add: np Inr s)
      from "2.IH" [OF np [symmetric] Inr s [symmetric] None r] 2(3) show ?thesis by auto
    qed
  qed
qed simp

lemma close_nil: "None \<in> set cs \<Longrightarrow> fst (close_controllers E cs g) \<noteq> None"
  by (induction E cs g rule: close_controllers.induct) (auto split: prod.splits option.splits)

text \<open>The number of nodes that were started, the failed one not counted.\<close>

fun started :: "('s, 'rx, 'w) env \<Rightarrow> (nat \<Rightarrow> replies) \<Rightarrow> nat \<Rightarrow> NodeConfig list \<Rightarrow> ('s, 'rx, 'w) shared \<Rightarrow> nat" where
  "started E P i [] g = 0"
| "started E P i (n # ns) g = (case New (nc_ApiConfig n) of
     (Inl e, a) \<Rightarrow> 0
   | (Inr p, a) \<Rightarrow> (case Start E (P i) (NewController g p (nc_Options n)) of
       (Some e, c) \<Rightarrow> 0 | (None, c) \<Rightarrow> Suc (started E P (i + 1) ns (shared_of c))))"

lemma start_nodes_failed:
  assumes "start_nodes E P i ns cs g = (Some e, cs', g')" and "i + length ns = length cs"
    and "\<And>j. i \<le> j \<Longrightarrow> j < length cs \<Longrightarrow> cs ! j = None" and "started E P i ns g + 1 < length ns"
  shows "cs' ! (length cs - 1) = None"
  using assms
proof (induction E P i ns cs g rule: start_nodes.induct)
  case (2 E P i n ns cs g)
  obtain np a where np: "New (nc_ApiConfig n) = (np, a)" by (cases "New (nc_ApiConfig n)")
  have ne: "ns \<noteq> []" using 2(5) by (cases ns) simp_all
  show ?case
  proof (cases np)
    case (Inl e)
    with 2(2,3,4) show ?thesis by (simp add: np)
  next
    case (Inr p)
    obtain q c where s: "Start E (P i) (NewController g p (nc_Options n)) = (q, c)" by fastforce
    show ?thesis
    proof (cases q)
      case (Some e)
      have "i \<noteq> length cs - 1" "i \<le> length cs - 1" "length cs - 1 < length cs"
        using 2(3) ne by (cases ns; auto)+
      with Some 2(2,4) show ?thesis by (auto simp: np Inr s)
    next
      case None
      with 2(2) have r: "start_nodes E P (i + 1) ns (cs[i := Some c]) (shared_of c) = (Some e, cs', g')"
        by (simp add: np Inr s)
      have st: "started E P (i + 1) ns (shared_of c) + 1 < length ns"
        using 2(5) by (simp add: np Inr s None)
      from "2.IH" [OF np [symmetric] Inr s [symmetric] None r _ _ st] 2(3,4) show ?thesis by simp
    qed
  qed
qed simp

text \<open>When a node other than the last one fails to start, the list of controllers keeps nil entries, and the next
  time it is closed - at the next reload of the configuration - the process panics, whatever happened since.\<close>

theorem failed_start_panics_on_close:
  assumes "Node_Start E P nodes g = (Some e, cs, g')" and "started E P 0 nodes g + 1 < length nodes"
  shows "fst (Node_Close E cs g2) \<noteq> None"
proof -
  let ?cs = "replicate (length nodes) None"
  have s: "start_nodes E P 0 nodes ?cs g = (Some e, cs, g')" using assms(1) by (simp add: Node_Start_def)
  have "cs ! (length ?cs - 1) = None"
    using start_nodes_failed [OF s] assms(2) by simp
  moreover have "length cs = length ?cs" using start_nodes_prefix [OF s] by simp
  moreover have "length nodes - 1 < length nodes" using assms(2) by simp
  ultimately have "None \<in> set cs" by (metis length_replicate nth_mem)
  then show ?thesis using close_nil [of cs E g2] by (auto simp: Node_Close_def split: prod.splits option.splits)
qed

definition demo_shared :: "(Reference, string, (string, string) gomap) shared" where
  "demo_shared = \<lparr>sh_server = \<lparr>rf_nodes = [], rf_users = [], rf_traffic = []\<rparr>, sh_limiters = \<lparr>lw_heap = [], lw_map = []\<rparr>, sh_world = []\<rparr>"

definition demo_two_nodes :: "NodeConfig list" where
  "demo_two_nodes = [\<lparr>nc_ApiConfig = default_api\<lparr>ac_NodeType := ''gopher''\<rparr>, nc_Options = default_options\<rparr>,
     \<lparr>nc_ApiConfig = default_api\<lparr>ac_NodeType := ''vless''\<rparr>, nc_Options = default_options\<rparr>]"

theorem failed_start_panics_on_close_witness:
  "fst (Node_Close demo_ctl_env (fst (snd (Node_Start demo_ctl_env (\<lambda>_. \<lparr>pr_node = demo_ok, pr_users = None, pr_alive = None\<rparr>)
     demo_two_nodes demo_shared))) demo_shared) \<noteq> None"
proof -
  let ?P = "\<lambda>_. \<lparr>pr_node = demo_ok, pr_users = None, pr_alive = None\<rparr>"
  have n: "New (default_api\<lparr>ac_NodeType := ''gopher''\<rparr>) =
      (Inl ''unsupported Node type: gopher'', default_api\<lparr>ac_NodeType := ''gopher''\<rparr>)"
    by code_simp
  have s: "started demo_ctl_env ?P 0 demo_two_nodes demo_shared = 0" by (simp add: demo_two_nodes_def n)
  have e: "Node_Start demo_ctl_env ?P demo_two_nodes demo_shared = (Some ''unsupported Node type: gopher'', [None, None], demo_shared)"
    by (simp add: Node_Start_def demo_two_nodes_def n)
  have l: "started demo_ctl_env ?P 0 demo_two_nodes demo_shared + 1 < length demo_two_nodes" by (simp add: s) (simp add: demo_two_nodes_def)
  from failed_start_panics_on_close [OF e l] show ?thesis by (simp add: e)
qed

end
