(* ===== verification/AnyTLS_Session.thy ===== *)
theory AnyTLS_Session
  imports Go_Strings
begin

text \<open>
  The AnyTLS session as patched (runtime/patches/anytls/session/session.go and stream.go): streams multiplexed
  over one connection, the frames written with padding and the loop that receives them.  What the package
  defines elsewhere - the layout of a header as it is read, the command codes, padding schemes, string maps -
  is a parameter.  Every method runs under its lock and is one step.
\<close>

section \<open>Frames\<close>

text \<open>A padding scheme: up to \<open>Stop\<close> packets are cut into the sizes it draws for them.\<close>

record PaddingFactory =
  pf_Md5 :: string
  pf_RawScheme :: string
  pf_Stop :: nat
  pf_Sizes :: "nat \<Rightarrow> int list"

record frame_lib =
  fl_size :: nat
  fl_Cmd :: "string \<Rightarrow> char"
  fl_StreamID :: "string \<Rightarrow> nat"
  fl_Length :: "string \<Rightarrow> nat"
  cmdWaste :: char
  cmdSYN :: char
  cmdPSH :: char
  cmdFIN :: char
  cmdSettings :: char
  cmdAlert :: char
  cmdUpdatePaddingScheme :: char
  cmdSYNACK :: char
  cmdHeartRequest :: char
  cmdHeartResponse :: char
  cmdServerSettings :: char
  fl_CheckMark :: int
  fl_ParseScheme :: "string \<Rightarrow> PaddingFactory option"
  fl_ToBytes :: "(string \<times> string) list \<Rightarrow> string"
  fl_FromBytes :: "string \<Rightarrow> (string, string) gomap"
  fl_Version :: string

text \<open>Big-endian, of the value cut to the width.\<close>

definition put16 :: "nat \<Rightarrow> string" where
  "put16 n = [char_of (n div 256 mod 256), char_of (n mod 256)]"

definition put32 :: "nat \<Rightarrow> string" where
  "put32 n = [char_of (n div 256 div 256 div 256 mod 256), char_of (n div 256 div 256 mod 256), char_of (n div 256 mod 256),
     char_of (n mod 256)]"

definition frame_bytes :: "char \<Rightarrow> nat \<Rightarrow> string \<Rightarrow> string" where
  "frame_bytes cmd sid data = [cmd] @ put32 sid @ put16 (length data) @ data"

section \<open>State\<close>

text \<open>A stream: the bytes the peer sent it, the error it died of, and whether its handshake was reported.\<close>

record Stream =
  sm_id :: nat
  sm_received :: string
  sm_dieErr :: "err option"
  sm_reported :: bool

text \<open>
  The connection is the list of chunks written to it; \<open>an_fail = Some n\<close> makes the n-th next write fail.
  Streams are shared with the handlers: they live in a heap and the session's table holds indices.
\<close>

record Session =
  an_sent :: "string list"
  an_fail :: "nat option"
  an_connClosed :: bool
  an_streams :: "(nat, nat) gomap"
  an_heap :: "Stream list"
  an_streamId :: nat
  an_die :: bool
  an_synDone :: bool
  an_padding :: PaddingFactory
  an_peerVersion :: nat
  an_isClient :: bool
  an_sendPadding :: bool
  an_buffering :: bool
  an_buffer :: string
  an_pktCounter :: nat
  an_settings :: bool
  an_accepted :: "nat list"
  an_alerts :: "string list"

definition new_session :: "bool \<Rightarrow> nat option \<Rightarrow> PaddingFactory \<Rightarrow> Session" where
  "new_session client fail p = \<lparr>an_sent = [], an_fail = fail, an_connClosed = False, an_streams = [], an_heap = [],
     an_streamId = 0, an_die = False, an_synDone = False, an_padding = p, an_peerVersion = 0, an_isClient = client,
     an_sendPadding = client, an_buffering = False, an_buffer = [], an_pktCounter = 0, an_settings = False,
     an_accepted = [], an_alerts = []\<rparr>"

definition NewClientSession :: "nat option \<Rightarrow> PaddingFactory \<Rightarrow> Session" where
  "NewClientSession fail p = new_session True fail p"

definition NewServerSession :: "nat option \<Rightarrow> PaddingFactory \<Rightarrow> Session" where
  "NewServerSession fail p = new_session False fail p"

section \<open>Closing\<close>

definition ErrClosedPipe :: err where "ErrClosedPipe = ''io: read/write on closed pipe''"
definition net_ErrClosed :: err where "net_ErrClosed = ''use of closed network connection''"

definition kill_stream :: "err \<Rightarrow> Stream \<Rightarrow> Stream" where
  "kill_stream e st = (if sm_dieErr st = None then st\<lparr>sm_dieErr := Some e\<rparr> else st)"

definition on_stream :: "nat \<Rightarrow> (Stream \<Rightarrow> Stream) \<Rightarrow> Session \<Rightarrow> Session" where
  "on_stream i f s = s\<lparr>an_heap := (an_heap s)[i := f (an_heap s ! i)]\<rparr>"

definition closeLocally :: "nat \<Rightarrow> Session \<Rightarrow> Session" where
  "closeLocally i s = on_stream i (kill_stream net_ErrClosed) s"

definition Session_Close :: "Session \<Rightarrow> err option \<times> Session" where
  "Session_Close s =
     (if an_die s then (Some ErrClosedPipe, s)
      else (None, (fold closeLocally (map snd (an_streams s)) (s\<lparr>an_die := True\<rparr>))\<lparr>an_streams := [], an_connClosed := True\<rparr>))"

section \<open>Writing\<close>

definition conn_Write :: "string \<Rightarrow> Session \<Rightarrow> err option \<times> Session" where
  "conn_Write b s =
     (if an_connClosed s then (Some net_ErrClosed, s)
      else (case an_fail s of
          Some 0 \<Rightarrow> (Some ''write: broken pipe'', s)
        | Some (Suc n) \<Rightarrow> (None, s\<lparr>an_sent := an_sent s @ [b], an_fail := Some n\<rparr>)
        | None \<Rightarrow> (None, s\<lparr>an_sent := an_sent s @ [b]\<rparr>)))"

definition zeros :: "nat \<Rightarrow> string" where
  "zeros n = replicate n (CHR 0x00)"

definition waste_frame :: "frame_lib \<Rightarrow> nat \<Rightarrow> string" where
  "waste_frame F n = [cmdWaste F] @ put32 0 @ put16 n @ zeros (fl_size F + n - 7)"

text \<open>The loop over the sizes drawn for a packet; what is left of the payload comes back with the outcome.\<close>

fun pad_loop :: "frame_lib \<Rightarrow> int list \<Rightarrow> string \<Rightarrow> Session \<Rightarrow> err option \<times> string \<times> Session" where
  "pad_loop F [] b s = (None, b, s)"
| "pad_loop F (l # ls) b s =
     (let remain = int (length b)
      in if l = fl_CheckMark F then (if remain = 0 then (None, b, s) else pad_loop F ls b s)
         else if remain > l then
           (case conn_Write (take (nat l) b) s of
              (Some e, s) \<Rightarrow> (Some e, b, s) | (None, s) \<Rightarrow> pad_loop F ls (drop (nat l) b) s)
         else if remain > 0 then
           (let paddingLen = l - remain - int (fl_size F);
                b' = (if paddingLen > 0 then b @ waste_frame F (nat paddingLen) else b)
            in case conn_Write b' s of (Some e, s) \<Rightarrow> (Some e, b', s) | (None, s) \<Rightarrow> pad_loop F ls [] s)
         else (case conn_Write (waste_frame F (nat l)) s of
              (Some e, s) \<Rightarrow> (Some e, b, s) | (None, s) \<Rightarrow> pad_loop F ls [] s))"

definition uint32_add :: "nat \<Rightarrow> nat \<Rightarrow> nat" where
  "uint32_add a b = (a + b) mod 2 ^ 32"

definition writeConn :: "frame_lib \<Rightarrow> string \<Rightarrow> Session \<Rightarrow> err option \<times> Session" where
  "writeConn F b s =
     (if an_buffering s then (None, s\<lparr>an_buffer := an_buffer s @ b\<rparr>)
      else (let b = an_buffer s @ b; s = s\<lparr>an_buffer := []\<rparr>
        in if an_sendPadding s then
             (let pkt = uint32_add (an_pktCounter s) 1; s = s\<lparr>an_pktCounter := pkt\<rparr>
              in if pkt < pf_Stop (an_padding s) then
                   (case pad_loop F (pf_Sizes (an_padding s) pkt) b s of
                      (Some e, _, s) \<Rightarrow> (Some e, s)
                    | (None, b, s) \<Rightarrow> if b = [] then (None, s) else conn_Write b s)
                 else conn_Write b (s\<lparr>an_sendPadding := False\<rparr>))
           else conn_Write b s))"

definition writeDataFrame :: "frame_lib \<Rightarrow> nat \<Rightarrow> string \<Rightarrow> Session \<Rightarrow> nat res \<times> Session" where
  "writeDataFrame F sid data s = (case writeConn F (frame_bytes (cmdPSH F) sid data) s of
     (Some e, s) \<Rightarrow> (Inl e, s) | (None, s) \<Rightarrow> (Inr (length data), s))"

definition writeControlFrame :: "frame_lib \<Rightarrow> char \<Rightarrow> nat \<Rightarrow> string \<Rightarrow> Session \<Rightarrow> err option \<times> Session" where
  "writeControlFrame F cmd sid data s = (case writeConn F (frame_bytes cmd sid data) s of
     (Some e, s) \<Rightarrow> (Some e, snd (Session_Close s)) | (None, s) \<Rightarrow> (None, s))"

section \<open>Streams\<close>

definition newStream :: "nat \<Rightarrow> Stream" where
  "newStream sid = \<lparr>sm_id = sid, sm_received = [], sm_dieErr = None, sm_reported = False\<rparr>"

definition streamClosed :: "frame_lib \<Rightarrow> nat \<Rightarrow> Session \<Rightarrow> err option \<times> Session" where
  "streamClosed F sid s =
     (if an_die s then (Some ErrClosedPipe, s)
      else (case writeControlFrame F (cmdFIN F) sid [] s of (r, s) \<Rightarrow> (r, s\<lparr>an_streams := mdel sid (an_streams s)\<rparr>)))"

definition closeWithError :: "frame_lib \<Rightarrow> nat \<Rightarrow> err \<Rightarrow> Session \<Rightarrow> err option \<times> Session" where
  "closeWithError F i e s = (case sm_dieErr (an_heap s ! i) of
     Some cause \<Rightarrow> (Some cause, s)
   | None \<Rightarrow> streamClosed F (sm_id (an_heap s ! i)) (on_stream i (kill_stream e) s))"

definition Stream_Close :: "frame_lib \<Rightarrow> nat \<Rightarrow> Session \<Rightarrow> err option \<times> Session" where
  "Stream_Close F i s = closeWithError F i ErrClosedPipe s"

definition Stream_Write :: "frame_lib \<Rightarrow> bool \<Rightarrow> nat \<Rightarrow> string \<Rightarrow> Session \<Rightarrow> nat res \<times> Session" where
  "Stream_Write F deadline i b s =
     (if deadline then (Inl ''i/o timeout'', s)
      else (case sm_dieErr (an_heap s ! i) of
          Some cause \<Rightarrow> (Inl cause, s)
        | None \<Rightarrow> writeDataFrame F (sm_id (an_heap s ! i)) b s))"

text \<open>The handshake is reported once, to a peer that understands it.\<close>

definition HandshakeFailure :: "frame_lib \<Rightarrow> nat \<Rightarrow> err option \<Rightarrow> Session \<Rightarrow> err option \<times> Session" where
  "HandshakeFailure F i e s =
     (let once = \<not> sm_reported (an_heap s ! i); s = on_stream i (\<lambda>st. st\<lparr>sm_reported := True\<rparr>) s
      in case e of
           None \<Rightarrow> (None, s)
         | Some m \<Rightarrow> if once \<and> an_peerVersion s \<ge> 2
             then writeControlFrame F (cmdSYNACK F) (sm_id (an_heap s ! i)) m s else (None, s))"

definition HandshakeSuccess :: "frame_lib \<Rightarrow> nat \<Rightarrow> Session \<Rightarrow> err option \<times> Session" where
  "HandshakeSuccess F i s =
     (let once = \<not> sm_reported (an_heap s ! i); s = on_stream i (\<lambda>st. st\<lparr>sm_reported := True\<rparr>) s
      in if once \<and> an_peerVersion s \<ge> 2 then writeControlFrame F (cmdSYNACK F) (sm_id (an_heap s ! i)) [] s else (None, s))"

text \<open>Opening a stream; a peer of version 2 must answer the second and later ones in time.\<close>

definition openStream :: "frame_lib \<Rightarrow> Session \<Rightarrow> nat res \<times> Session" where
  "openStream F s =
     (if an_die s then (Inl ErrClosedPipe, s)
      else (let sid = uint32_add (an_streamId s) 1; i = length (an_heap s);
                s = s\<lparr>an_streamId := sid, an_heap := an_heap s @ [newStream sid]\<rparr>;
                s = (if sid \<ge> 2 \<and> an_peerVersion s \<ge> 2 then s\<lparr>an_synDone := True\<rparr> else s)
        in case writeControlFrame F (cmdSYN F) sid [] s of
             (Some e, s) \<Rightarrow> (Inl e, s)
           | (None, s) \<Rightarrow>
               (let s = s\<lparr>an_buffering := False\<rparr>
                in if an_die s then (Inl ErrClosedPipe, s) else (Inr i, s\<lparr>an_streams := mput sid i (an_streams s)\<rparr>))))"

definition syn_timeout :: "Session \<Rightarrow> Session" where
  "syn_timeout s = (if an_synDone s then snd (Session_Close s) else s)"

section \<open>Receiving\<close>

text \<open>One frame: go on after so many bytes of its body, or leave the loop.\<close>

datatype received = Next nat Session | Stop "err option" Session

definition deliver :: "nat \<Rightarrow> string \<Rightarrow> Session \<Rightarrow> Session" where
  "deliver i b s = on_stream i (\<lambda>st. if sm_dieErr st = None then st\<lparr>sm_received := sm_received st @ b\<rparr> else st) s"

definition accept_stream :: "frame_lib \<Rightarrow> nat \<Rightarrow> Session \<Rightarrow> Session" where
  "accept_stream F sid s =
     (if mhas (an_streams s) sid then s
      else (let i = length (an_heap s);
                s = s\<lparr>an_heap := an_heap s @ [newStream sid], an_streams := mput sid i (an_streams s)\<rparr>
        in if \<not> an_isClient s then s\<lparr>an_accepted := an_accepted s @ [i]\<rparr> else snd (Stream_Close F i s)))"

text \<open>The client's settings, read by the server.\<close>

definition client_settings :: "frame_lib \<Rightarrow> string \<Rightarrow> Session \<Rightarrow> err option \<times> Session" where
  "client_settings F buffer s0 =
     (let s = s0\<lparr>an_settings := True\<rparr>; m = fl_FromBytes F buffer
      in case (if mget_or [] m ''padding-md5'' \<noteq> pf_Md5 (an_padding s)
               then writeControlFrame F (cmdUpdatePaddingScheme F) 0 (pf_RawScheme (an_padding s)) s else (None, s)) of
           (Some e, s) \<Rightarrow> (Some e, s)
         | (None, s) \<Rightarrow> (case Atoi (mget_or [] m ''v'') of (v, bad) \<Rightarrow>
             if \<not> bad \<and> v \<ge> 2
             then writeControlFrame F (cmdServerSettings F) 0 (fl_ToBytes F [(''v'', ''2'')])
               (s\<lparr>an_peerVersion := nat (v mod 256)\<rparr>)
             else (None, s)))"

definition server_settings :: "frame_lib \<Rightarrow> string \<Rightarrow> Session \<Rightarrow> Session" where
  "server_settings F buffer s = (case Atoi (mget_or [] (fl_FromBytes F buffer) ''v'') of (v, bad) \<Rightarrow>
     if bad then s else s\<lparr>an_peerVersion := nat (v mod 256)\<rparr>)"

definition recv_frame :: "frame_lib \<Rightarrow> string \<Rightarrow> string \<Rightarrow> Session \<Rightarrow> received" where
  "recv_frame F hdr rest s =
     (let cmd = fl_Cmd F hdr; sid = fl_StreamID F hdr; n = fl_Length F hdr; body = take n rest;
          short = length rest < n; eof = Stop (Some (if rest = [] then ''EOF'' else ''unexpected EOF'')) s
      in if cmd = cmdPSH F then
           (if n = 0 then Next 0 s else if short then eof
            else (case map_of (an_streams s) sid of None \<Rightarrow> Next n s | Some i \<Rightarrow> Next n (deliver i body s)))
         else if cmd = cmdSYN F then
           (if \<not> an_isClient s \<and> \<not> an_settings s
            then Stop None (snd (writeControlFrame F (cmdAlert F) 0 ''client did not send its settings'' s))
            else Next 0 (accept_stream F sid s))
         else if cmd = cmdSYNACK F then
           (let s = s\<lparr>an_synDone := False\<rparr>
            in if n = 0 then Next 0 s else if short then Stop (Some (if rest = [] then ''EOF'' else ''unexpected EOF'')) s
               else (case map_of (an_streams s) sid of
                   None \<Rightarrow> Next n s | Some i \<Rightarrow> Next n (snd (closeWithError F i (''remote: '' @ body) s))))
         else if cmd = cmdFIN F then
           (case map_of (an_streams s) sid of
              None \<Rightarrow> Next 0 s | Some i \<Rightarrow> Next 0 (closeLocally i (s\<lparr>an_streams := mdel sid (an_streams s)\<rparr>)))
         else if cmd = cmdWaste F then (if n = 0 then Next 0 s else if short then eof else Next n s)
         else if cmd = cmdSettings F then
           (if n = 0 then Next 0 s else if short then eof
            else if an_isClient s then Next n s
            else (case client_settings F body s of (Some e, s) \<Rightarrow> Stop (Some e) s | (None, s) \<Rightarrow> Next n s))
         else if cmd = cmdAlert F then
           (if n = 0 then Next 0 s else if short then eof
            else Stop None (if an_isClient s then s\<lparr>an_alerts := an_alerts s @ [body]\<rparr> else s))
         else if cmd = cmdUpdatePaddingScheme F then
           (if n = 0 then Next 0 s else if short then eof
            else Next n (if an_isClient s then (case fl_ParseScheme F body of None \<Rightarrow> s | Some p \<Rightarrow> s\<lparr>an_padding := p\<rparr>) else s))
         else if cmd = cmdHeartRequest F then
           (case writeControlFrame F (cmdHeartResponse F) sid [] s of (Some e, s) \<Rightarrow> Stop (Some e) s | (None, s) \<Rightarrow> Next 0 s)
         else if cmd = cmdHeartResponse F then Next 0 s
         else if cmd = cmdServerSettings F then
           (if n = 0 then Next 0 s else if short then eof
            else Next n (if an_isClient s then server_settings F body s else s))
         else Next 0 s)"

text \<open>The loop over the bytes that arrive until the connection ends: the outcome, the state, the bytes left.  A
  header has at least one byte.\<close>

function recv_bytes :: "frame_lib \<Rightarrow> string \<Rightarrow> Session \<Rightarrow> err option option \<times> Session \<times> string" where
  "recv_bytes F input s =
     (if an_die s then (Some (Some ErrClosedPipe), s, input)
      else if length input < fl_size F \<or> fl_size F = 0 then (None, s, input)
      else (case recv_frame F (take (fl_size F) input) (drop (fl_size F) input) s of
          Next n s' \<Rightarrow> recv_bytes F (drop (fl_size F + n) input) s'
        | Stop r s' \<Rightarrow> (Some r, s', drop (fl_size F) input)))"
  by pat_completeness auto
termination by (relation "measure (\<lambda>(F, input, s). length input)") auto

declare recv_bytes.simps [simp del]

text \<open>\<open>recvLoop\<close>: all of it, the session closed at the end.\<close>

definition recvLoop :: "frame_lib \<Rightarrow> string \<Rightarrow> Session \<Rightarrow> err option \<times> Session" where
  "recvLoop F input s = (case recv_bytes F input s of (r, s, rest) \<Rightarrow>
     ((case r of Some e \<Rightarrow> e | None \<Rightarrow> Some (if rest = [] then ''EOF'' else ''unexpected EOF'')), snd (Session_Close s)))"

text \<open>A client announces itself; the frame waits in the buffer for the first stream.\<close>

definition Run_client :: "frame_lib \<Rightarrow> Session \<Rightarrow> err option \<times> Session" where
  "Run_client F s = writeControlFrame F (cmdSettings F) 0
     (fl_ToBytes F [(''v'', ''2''), (''client'', fl_Version F), (''padding-md5'', pf_Md5 (an_padding s))])
     (s\<lparr>an_buffering := True\<rparr>)"

end
