(* ===== verification/AnyTLS_Props.thy ===== *)
theory AnyTLS_Props
  imports AnyTLS_Session
begin

text \<open>
  The AnyTLS session: whatever the padding, the receiver handles exactly the frames that were written, in
  order; and when a session ends, every stream it handed out is closed.
\<close>

section \<open>The wire\<close>

text \<open>What the package promises of its headers and codes: a header of seven bytes reads as it was laid out.\<close>

definition header :: "char \<Rightarrow> nat \<Rightarrow> nat \<Rightarrow> string" where
  "header cmd sid n = [cmd] @ put32 sid @ put16 n"

definition codes :: "frame_lib \<Rightarrow> char list" where
  "codes F = [cmdWaste F, cmdSYN F, cmdPSH F, cmdFIN F, cmdSettings F, cmdAlert F, cmdUpdatePaddingScheme F, cmdSYNACK F,
     cmdHeartRequest F, cmdHeartResponse F, cmdServerSettings F]"

definition frame_ok :: "frame_lib \<Rightarrow> bool" where
  "frame_ok F \<longleftrightarrow> fl_size F = 7 \<and> distinct (codes F) \<and>
     (\<forall>cmd sid n. sid < 2 ^ 32 \<longrightarrow> n < 2 ^ 16 \<longrightarrow>
        fl_Cmd F (header cmd sid n) = cmd \<and> fl_StreamID F (header cmd sid n) = sid \<and> fl_Length F (header cmd sid n) = n)"

definition sizes_ok :: "frame_lib \<Rightarrow> int list \<Rightarrow> bool" where
  "sizes_ok F ls \<longleftrightarrow> list_all (\<lambda>l. l = fl_CheckMark F \<or> 0 \<le> l \<and> l < 2 ^ 16) ls"

definition padding_ok :: "frame_lib \<Rightarrow> PaddingFactory \<Rightarrow> bool" where
  "padding_ok F p \<longleftrightarrow> (\<forall>pkt. sizes_ok F (pf_Sizes p pkt))"

text \<open>A connection that takes what is written to it.\<close>

definition conn_ok :: "Session \<Rightarrow> bool" where
  "conn_ok s \<longleftrightarrow> an_fail s = None \<and> \<not> an_connClosed s"

definition wire :: "Session \<Rightarrow> string" where
  "wire s = concat (an_sent s)"

definition wastes :: "frame_lib \<Rightarrow> nat list \<Rightarrow> string" where
  "wastes F ns = concat (map (waste_frame F) ns)"

lemma wastes_simps [simp]:
  "wastes F [] = []" "wastes F (n # ns) = waste_frame F n @ wastes F ns" "wastes F (ms @ ns) = wastes F ms @ wastes F ns"
  by (simp_all add: wastes_def)

lemma length_put [simp]: "length (put16 n) = 2" "length (put32 n) = 4"
  by (simp_all add: put16_def put32_def)

lemma length_header [simp]: "length (header cmd sid n) = 7"
  by (simp add: header_def)

lemma frame_bytes_header: "frame_bytes cmd sid data = header cmd sid (length data) @ data"
  by (simp add: frame_bytes_def header_def)

lemma waste_frame_bytes: "fl_size F = 7 \<Longrightarrow> waste_frame F n = frame_bytes (cmdWaste F) 0 (zeros n)"
  by (simp add: waste_frame_def frame_bytes_def zeros_def)

lemma conn_Write_ok: "conn_ok s \<Longrightarrow> conn_Write b s = (None, s\<lparr>an_sent := an_sent s @ [b]\<rparr>)"
  by (simp add: conn_Write_def conn_ok_def)

lemma conn_ok_sent [simp]: "conn_ok (s\<lparr>an_sent := x\<rparr>) = conn_ok s" "conn_ok (s\<lparr>an_buffer := y\<rparr>) = conn_ok s"
  "conn_ok (s\<lparr>an_pktCounter := n\<rparr>) = conn_ok s" "conn_ok (s\<lparr>an_sendPadding := c\<rparr>) = conn_ok s"
  by (simp_all add: conn_ok_def)

text \<open>The padding only puts waste frames behind the payload.\<close>

lemma pad_loop_wire:
  assumes "fl_size F = 7" and "conn_ok s" and "sizes_ok F ls"
  shows "\<exists>b' ns x. pad_loop F ls b s = (None, b', s\<lparr>an_sent := x\<rparr>) \<and> list_all (\<lambda>n. n < 2 ^ 16) ns \<and>
    concat x @ b' = wire s @ b @ wastes F ns"
  using assms
proof (induction F ls b s rule: pad_loop.induct)
  case (1 F b s)
  have "pad_loop F [] b s = (None, b, s\<lparr>an_sent := an_sent s\<rparr>)" by simp
  moreover have "concat (an_sent s) @ b = wire s @ b @ wastes F []" by (simp add: wire_def)
  ultimately show ?case by (metis list.pred_inject(1))
next
  case (2 F l ls b s)
  have ls: "sizes_ok F ls" and l: "l = fl_CheckMark F \<or> 0 \<le> l \<and> l < 2 ^ 16" using 2(7) by (simp_all add: sizes_ok_def)
  let ?remain = "int (length b)"
  have w: "conn_Write c s = (None, s\<lparr>an_sent := an_sent s @ [c]\<rparr>)" for c by (rule conn_Write_ok [OF 2(6)])
  have ok: "conn_ok (s\<lparr>an_sent := an_sent s @ [c]\<rparr>)" for c using 2(6) by simp
  consider (mark) "l = fl_CheckMark F" "?remain = 0" | (skip) "l = fl_CheckMark F" "?remain \<noteq> 0"
    | (cut) "l \<noteq> fl_CheckMark F" "?remain > l" | (fill) "l \<noteq> fl_CheckMark F" "\<not> ?remain > l" "?remain > 0"
    | (pad) "l \<noteq> fl_CheckMark F" "\<not> ?remain > l" "\<not> ?remain > 0" by blast
  then show ?case
  proof cases
    case mark
    have "pad_loop F (l # ls) b s = (None, b, s\<lparr>an_sent := an_sent s\<rparr>)" using mark by simp
    moreover have "concat (an_sent s) @ b = wire s @ b @ wastes F []" by (simp add: wire_def)
    ultimately show ?thesis by (metis list.pred_inject(1))
  next
    case skip
    from "2.IH"(1) [OF refl skip 2(5,6) ls] show ?thesis using skip by simp
  next
    case cut
    with l have "0 \<le> l" by simp
    from "2.IH"(2) [OF refl cut w [symmetric] refl 2(5) ok ls] obtain b' ns x where
      "pad_loop F ls (drop (nat l) b) (s\<lparr>an_sent := an_sent s @ [take (nat l) b]\<rparr>) = (None, b', s\<lparr>an_sent := x\<rparr>)"
      "list_all (\<lambda>n. n < 2 ^ 16) ns"
      "concat x @ b' = wire (s\<lparr>an_sent := an_sent s @ [take (nat l) b]\<rparr>) @ drop (nat l) b @ wastes F ns" by auto
    moreover from this(3) have "concat x @ b' = wire s @ b @ wastes F ns"
      by (simp add: wire_def)
    moreover have "pad_loop F (l # ls) b s = pad_loop F ls (drop (nat l) b) (s\<lparr>an_sent := an_sent s @ [take (nat l) b]\<rparr>)"
      using cut by (simp add: w)
    ultimately show ?thesis by metis
  next
    case fill
    let ?p = "l - ?remain - int (fl_size F)"
    let ?b = "if ?p > 0 then b @ waste_frame F (nat ?p) else b"
    from "2.IH"(3) [OF refl fill refl refl w [symmetric] refl 2(5) ok ls] obtain b' ns x where
      r: "pad_loop F ls [] (s\<lparr>an_sent := an_sent s @ [?b]\<rparr>) = (None, b', s\<lparr>an_sent := x\<rparr>)"
      "list_all (\<lambda>n. n < 2 ^ 16) ns" "concat x @ b' = wire (s\<lparr>an_sent := an_sent s @ [?b]\<rparr>) @ wastes F ns" by auto
    let ?ns = "if ?p > 0 then nat ?p # ns else ns"
    have "concat x @ b' = wire s @ b @ wastes F ?ns" using r(3) by (auto simp: wire_def)
    moreover have "list_all (\<lambda>n. n < 2 ^ 16) ?ns" using r(2) l fill by auto
    moreover have "pad_loop F (l # ls) b s = pad_loop F ls [] (s\<lparr>an_sent := an_sent s @ [?b]\<rparr>)"
      using fill by (simp add: w Let_def)
    ultimately show ?thesis using r(1) by metis
  next
    case pad
    from "2.IH"(4) [OF refl pad w [symmetric] refl 2(5) ok ls] obtain b' ns x where
      r: "pad_loop F ls [] (s\<lparr>an_sent := an_sent s @ [waste_frame F (nat l)]\<rparr>) = (None, b', s\<lparr>an_sent := x\<rparr>)"
      "list_all (\<lambda>n. n < 2 ^ 16) ns" "concat x @ b' = wire (s\<lparr>an_sent := an_sent s @ [waste_frame F (nat l)]\<rparr>) @ wastes F ns"
      by auto
    have "b = []" using pad by simp
    then have "concat x @ b' = wire s @ b @ wastes F (nat l # ns)" using r(3) by (simp add: wire_def)
    moreover have "list_all (\<lambda>n. n < 2 ^ 16) (nat l # ns)" using r(2) l pad by auto
    moreover have "pad_loop F (l # ls) b s = pad_loop F ls [] (s\<lparr>an_sent := an_sent s @ [waste_frame F (nat l)]\<rparr>)"
      using pad by (simp add: w)
    ultimately show ?thesis using r(1) by metis
  qed
qed

text \<open>A write puts the buffered bytes and its own on the wire, or into the buffer.\<close>

definition pending :: "Session \<Rightarrow> string" where
  "pending s = wire s @ an_buffer s"

definition writable :: "frame_lib \<Rightarrow> Session \<Rightarrow> bool" where
  "writable F s \<longleftrightarrow> conn_ok s \<and> padding_ok F (an_padding s) \<and> \<not> an_buffering s \<and> an_buffer s = []"

lemma writeConn_wire:
  assumes "fl_size F = 7" and "writable F s" and "b \<noteq> []"
  shows "\<exists>ns s'. writeConn F b s = (None, s') \<and> writable F s' \<and> wire s' = wire s @ b @ wastes F ns \<and> list_all (\<lambda>n. n < 2 ^ 16) ns"
proof -
  from assms(2) have ok: "conn_ok s" and p: "padding_ok F (an_padding s)" and nb: "\<not> an_buffering s" "an_buffer s = []"
    by (simp_all add: writable_def)
  have direct: "\<exists>ns s'. conn_Write b (s\<lparr>an_sendPadding := c\<rparr>) = (None, s') \<and> writable F s' \<and> wire s' = wire s @ b @ wastes F ns \<and>
      list_all (\<lambda>n. n < 2 ^ 16) ns" for c
    using conn_Write_ok [of "s\<lparr>an_sendPadding := c\<rparr>" b] ok p nb
    by (intro exI [of _ "[]"]) (simp add: writable_def wire_def)
  let ?s = "s\<lparr>an_buffer := [], an_pktCounter := uint32_add (an_pktCounter s) 1\<rparr>"
  let ?ls = "pf_Sizes (an_padding s) (uint32_add (an_pktCounter s) 1)"
  have "sizes_ok F ?ls" using p by (simp add: padding_ok_def)
  from pad_loop_wire [OF assms(1) _ this, of ?s b] ok obtain b' ns x where
    l: "pad_loop F ?ls b ?s = (None, b', ?s\<lparr>an_sent := x\<rparr>)" "list_all (\<lambda>n. n < 2 ^ 16) ns" "concat x @ b' = wire s @ b @ wastes F ns"
    by (auto simp: wire_def)
  have padded: "\<exists>ns s'. (if b' = [] then (None, ?s\<lparr>an_sent := x\<rparr>) else conn_Write b' (?s\<lparr>an_sent := x\<rparr>)) = (None, s') \<and> writable F s' \<and>
      wire s' = wire s @ b @ wastes F ns \<and> list_all (\<lambda>n. n < 2 ^ 16) ns"
    using l(2,3) conn_Write_ok [of "?s\<lparr>an_sent := x\<rparr>" b'] ok p nb
    by (intro exI [of _ ns]) (auto simp: writable_def wire_def)
  have direct': "\<exists>ns s'. conn_Write b (s\<lparr>an_pktCounter := n, an_sendPadding := False\<rparr>) = (None, s') \<and> writable F s' \<and>
      wire s' = wire s @ b @ wastes F ns \<and> list_all (\<lambda>n. n < 2 ^ 16) ns" for n
    using conn_Write_ok [of "s\<lparr>an_pktCounter := n, an_sendPadding := False\<rparr>" b] ok p nb
    by (intro exI [of _ "[]"]) (simp add: writable_def wire_def)
  have e: "s\<lparr>an_buffer := []\<rparr> = s" using nb by (cases s) simp
  show ?thesis
    using l(1) padded direct [of "an_sendPadding s"] direct' nb by (auto simp: writeConn_def Let_def e)
qed

section \<open>Frames on the wire\<close>

type_synonym frame = "char \<times> nat \<times> string"

text \<open>Frames as the code writes them: only some commands carry data.\<close>

definition wf_frame :: "frame_lib \<Rightarrow> frame \<Rightarrow> bool" where
  "wf_frame F f \<longleftrightarrow> (case f of (cmd, sid, data) \<Rightarrow> sid < 2 ^ 32 \<and> length data < 2 ^ 16 \<and>
     (data = [] \<or> cmd \<in> {cmdPSH F, cmdSYNACK F, cmdWaste F, cmdSettings F, cmdAlert F, cmdUpdatePaddingScheme F, cmdServerSettings F}))"

definition send_frame :: "frame_lib \<Rightarrow> frame \<Rightarrow> Session \<Rightarrow> Session" where
  "send_frame F f s = (case f of (cmd, sid, data) \<Rightarrow>
     if cmd = cmdPSH F then snd (writeDataFrame F sid data s) else snd (writeControlFrame F cmd sid data s))"

definition bytes_of :: "frame \<Rightarrow> string" where
  "bytes_of f = (case f of (cmd, sid, data) \<Rightarrow> frame_bytes cmd sid data)"

text \<open>Frames interspersed with waste, as bytes.\<close>

fun woven :: "frame_lib \<Rightarrow> (frame \<times> nat list) list \<Rightarrow> string" where
  "woven F [] = []"
| "woven F ((f, ns) # fs) = bytes_of f @ wastes F ns @ woven F fs"

lemma woven_append: "woven F (fs @ gs) = woven F fs @ woven F gs"
  by (induction F fs rule: woven.induct) auto

lemma send_frame_wire:
  assumes "fl_size F = 7" and "writable F s"
  shows "\<exists>ns. writable F (send_frame F f s) \<and> wire (send_frame F f s) = wire s @ bytes_of f @ wastes F ns \<and> list_all (\<lambda>n. n < 2 ^ 16) ns"
proof -
  obtain cmd sid data where f: "f = (cmd, sid, data)" by (cases f)
  have "frame_bytes cmd sid data \<noteq> []" by (simp add: frame_bytes_def)
  from writeConn_wire [OF assms this] show ?thesis
    by (auto simp: f send_frame_def bytes_of_def writeDataFrame_def writeControlFrame_def)
qed

lemma send_frames_wire:
  assumes "fl_size F = 7" and "writable F s"
  shows "\<exists>nss. length nss = length fs \<and> list_all (list_all (\<lambda>n. n < 2 ^ 16)) nss \<and>
    wire (fold (send_frame F) fs s) = wire s @ woven F (zip fs nss)"
  using assms(2)
proof (induction fs arbitrary: s)
  case (Cons f fs)
  from send_frame_wire [OF assms(1) Cons.prems, of f] obtain ns where
    s: "writable F (send_frame F f s)" "wire (send_frame F f s) = wire s @ bytes_of f @ wastes F ns" "list_all (\<lambda>n. n < 2 ^ 16) ns"
    by blast
  from Cons.IH [OF s(1)] obtain nss where "length nss = length fs" "list_all (list_all (\<lambda>n. n < 2 ^ 16)) nss"
    "wire (fold (send_frame F) (f # fs) s) = wire (send_frame F f s) @ woven F (zip fs nss)" by auto
  with s(2,3) show ?case by (intro exI [of _ "ns # nss"]) simp
qed simp

section \<open>Receiving what was sent\<close>

text \<open>The receiver on frames instead of bytes.\<close>

fun handle_frames :: "frame_lib \<Rightarrow> frame list \<Rightarrow> Session \<Rightarrow> err option option \<times> Session" where
  "handle_frames F [] s = (if an_die s then (Some (Some ErrClosedPipe), s) else (None, s))"
| "handle_frames F ((cmd, sid, data) # fs) s =
     (if an_die s then (Some (Some ErrClosedPipe), s)
      else (case recv_frame F (header cmd sid (length data)) data s of
          Next n s \<Rightarrow> handle_frames F fs s | Stop r s \<Rightarrow> (Some r, s)))"

lemma recv_frame_zs:
  "fl_Length F hdr = length data \<Longrightarrow> recv_frame F hdr (data @ zs) s = recv_frame F hdr data s"
proof -
  assume l: "fl_Length F hdr = length data"
  have t: "take (length data) (data @ zs) = take (length data) data" "(length (data @ zs) < length data) = (length data < length data)"
    by simp_all
  show ?thesis by (simp only: recv_frame_def Let_def l t less_irrefl if_False)
qed

lemma recv_frame_Next:
  assumes "frame_ok F" and "wf_frame F (cmd, sid, data)"
    and "recv_frame F (header cmd sid (length data)) data s = Next n s'"
  shows "n = length data"
proof -
  have h: "fl_Cmd F (header cmd sid (length data)) = cmd" "fl_Length F (header cmd sid (length data)) = length data"
    using assms(1,2) by (simp_all add: frame_ok_def wf_frame_def)
  have d: "distinct (codes F)" using assms(1) by (simp add: frame_ok_def)
  show ?thesis
  proof (cases "data = []")
    case True
    with assms(3) h show ?thesis
      by (auto simp: recv_frame_def Let_def split: if_splits option.splits prod.splits)
  next
    case False
    with assms(2) have "cmd \<in> {cmdPSH F, cmdSYNACK F, cmdWaste F, cmdSettings F, cmdAlert F, cmdUpdatePaddingScheme F, cmdServerSettings F}"
      by (simp add: wf_frame_def)
    with assms(3) h d False show ?thesis
      by (auto simp: recv_frame_def Let_def codes_def split: if_splits option.splits prod.splits)
  qed
qed

lemma recv_bytes_frame:
  assumes "frame_ok F" and "wf_frame F (cmd, sid, data)"
  shows "recv_bytes F (frame_bytes cmd sid data @ zs) s =
    (if an_die s then (Some (Some ErrClosedPipe), s, frame_bytes cmd sid data @ zs)
     else (case recv_frame F (header cmd sid (length data)) data s of
         Next n s' \<Rightarrow> recv_bytes F zs s' | Stop r s' \<Rightarrow> (Some r, s', data @ zs)))"
proof -
  have h: "fl_size F = 7" "fl_Length F (header cmd sid (length data)) = length data"
    using assms(1,2) by (simp_all add: frame_ok_def wf_frame_def)
  note step = recv_bytes.simps [of F "(header cmd sid (length data) @ data) @ zs" s]
  show ?thesis
  proof (cases "recv_frame F (header cmd sid (length data)) data s")
    case (Next n s')
    from recv_frame_Next [OF assms Next] have "n = length data" .
    with Next show ?thesis unfolding frame_bytes_header step by (simp add: h recv_frame_zs)
  next
    case (Stop r s')
    then show ?thesis unfolding frame_bytes_header step by (simp add: h recv_frame_zs)
  qed
qed

lemma recv_bytes_waste:
  assumes "frame_ok F" and "n < 2 ^ 16" and "\<not> an_die s"
  shows "recv_bytes F (waste_frame F n @ zs) s = recv_bytes F zs s"
proof -
  have w: "wf_frame F (cmdWaste F, 0, zeros n)" using assms(2) by (simp add: wf_frame_def zeros_def)
  have l: "length (zeros n) = n" by (simp add: zeros_def)
  have "fl_Cmd F (header (cmdWaste F) 0 n) = cmdWaste F" "fl_Length F (header (cmdWaste F) 0 n) = n" "distinct (codes F)" "fl_size F = 7"
    using assms(1,2) by (simp_all add: frame_ok_def)
  then have r: "recv_frame F (header (cmdWaste F) 0 n) (zeros n) s = Next n s"
    by (auto simp: recv_frame_def Let_def codes_def l)
  show ?thesis
    using recv_bytes_frame [OF assms(1) w, of zs s] r assms(3) \<open>fl_size F = 7\<close> by (simp add: waste_frame_bytes l)
qed

lemma recv_bytes_dead: "an_die s \<Longrightarrow> recv_bytes F input s = (Some (Some ErrClosedPipe), s, input)"
  by (simp add: recv_bytes.simps)

lemma recv_bytes_wastes:
  assumes "frame_ok F" and "list_all (\<lambda>n. n < 2 ^ 16) ns"
  shows "\<exists>rest. recv_bytes F (wastes F ns @ zs) s = (fst (recv_bytes F zs s), fst (snd (recv_bytes F zs s)), rest) \<and>
    (\<not> an_die s \<longrightarrow> rest = snd (snd (recv_bytes F zs s)))"
proof (cases "an_die s")
  case True
  then show ?thesis by (simp add: recv_bytes_dead)
next
  case False
  have "recv_bytes F (wastes F ns @ zs) s = recv_bytes F zs s"
    using assms(2) by (induction ns) (simp_all add: recv_bytes_waste [OF assms(1) _ False])
  then show ?thesis by (intro exI [of _ "snd (snd (recv_bytes F zs s))"]) simp
qed

lemma recv_woven:
  assumes "frame_ok F" and "list_all (wf_frame F) fs" and "length nss = length fs" and "list_all (list_all (\<lambda>n. n < 2 ^ 16)) nss"
  shows "\<exists>rest. recv_bytes F (woven F (zip fs nss)) s = (fst (handle_frames F fs s), snd (handle_frames F fs s), rest) \<and>
    (fst (handle_frames F fs s) = None \<longrightarrow> rest = [])"
  using assms(2-4)
proof (induction fs arbitrary: nss s)
  case Nil
  have "fl_size F = 7" using assms(1) by (simp add: frame_ok_def)
  with Nil show ?case by (simp add: recv_bytes.simps)
next
  case (Cons f fs)
  obtain cmd sid data where f: "f = (cmd, sid, data)" by (cases f)
  from Cons.prems(2) obtain ns ms where nss: "nss = ns # ms" by (cases nss) auto
  let ?w = "woven F (zip fs ms)"
  from Cons.prems f nss have w: "wf_frame F (cmd, sid, data)" "list_all (wf_frame F) fs" "length ms = length fs"
    "list_all (list_all (\<lambda>n. n < 2 ^ 16)) ms" "list_all (\<lambda>n. n < 2 ^ 16) ns" by auto
  have b: "recv_bytes F (woven F (zip (f # fs) nss)) s = recv_bytes F (frame_bytes cmd sid data @ wastes F ns @ ?w) s"
    by (simp add: f nss bytes_of_def)
  show ?case
  proof (cases "an_die s")
    case True
    then show ?thesis by (simp add: f recv_bytes_dead)
  next
    case False
    show ?thesis
    proof (cases "recv_frame F (header cmd sid (length data)) data s")
      case (Stop r s')
      with False show ?thesis unfolding b recv_bytes_frame [OF assms(1) w(1)] by (simp add: f)
    next
      case (Next n s')
      from Cons.IH [OF w(2-4), of s'] obtain rest where ih:
        "recv_bytes F ?w s' = (fst (handle_frames F fs s'), snd (handle_frames F fs s'), rest) \<and>
         (fst (handle_frames F fs s') = None \<longrightarrow> rest = [])" ..
      from recv_bytes_wastes [OF assms(1) w(5), of ?w s'] obtain rest2 where r2:
        "recv_bytes F (wastes F ns @ ?w) s' = (fst (recv_bytes F ?w s'), fst (snd (recv_bytes F ?w s')), rest2) \<and>
         (\<not> an_die s' \<longrightarrow> rest2 = snd (snd (recv_bytes F ?w s')))" ..
      have d: "an_die s' \<Longrightarrow> fst (handle_frames F fs s') \<noteq> None" by (cases fs) auto
      have e: "recv_bytes F (woven F (zip (f # fs) nss)) s = recv_bytes F (wastes F ns @ ?w) s'"
        unfolding b recv_bytes_frame [OF assms(1) w(1)] using Next False by simp
      have h: "handle_frames F (f # fs) s = handle_frames F fs s'" using Next False by (simp add: f)
      show ?thesis
        unfolding e h using ih r2 d by (intro exI [of _ rest2]) auto
    qed
  qed
qed

text \<open>C11: whatever padding the sender's scheme draws, the receiver of the bytes it put on the connection handles exactly
  the frames that were sent, in their order and with their data: cutting and filling the packets adds nothing
  but waste, which the receiver skips.\<close>

theorem anytls_frames_roundtrip:
  assumes "frame_ok F" and "writable F w" and "wire w = []" and "list_all (wf_frame F) fs"
  shows "\<exists>rest. recv_bytes F (wire (fold (send_frame F) fs w)) s = (fst (handle_frames F fs s), snd (handle_frames F fs s), rest) \<and>
    (fst (handle_frames F fs s) = None \<longrightarrow> rest = [])"
proof -
  have "fl_size F = 7" using assms(1) by (simp add: frame_ok_def)
  from send_frames_wire [OF this assms(2), of fs] obtain nss where
    "length nss = length fs" "list_all (list_all (\<lambda>n. n < 2 ^ 16)) nss" "wire (fold (send_frame F) fs w) = woven F (zip fs nss)"
    by (auto simp: assms(3))
  with recv_woven [OF assms(1,4)] show ?thesis by simp
qed

text \<open>A package that keeps the promises: codes 0 to 10 and big-endian numbers.\<close>

definition get16 :: "string \<Rightarrow> nat" where
  "get16 s = of_char (s ! 0) * 256 + of_char (s ! 1)"

definition get32 :: "string \<Rightarrow> nat" where
  "get32 s = ((of_char (s ! 0) * 256 + of_char (s ! 1)) * 256 + of_char (s ! 2)) * 256 + of_char (s ! 3)"

lemma get16_put16: "n < 2 ^ 16 \<Longrightarrow> get16 (put16 n) = n"
  by (simp add: get16_def put16_def)

lemma get32_put32: "n < 2 ^ 32 \<Longrightarrow> get32 (put32 n) = n"
proof -
  assume n: "n < 2 ^ 32"
  have "n div 256 div 256 div 256 < 256" using n by (simp add: div_mult2_eq [symmetric])
  then show ?thesis by (simp add: get32_def put32_def del: div_mult2_eq)
qed

definition demo_frames_lib :: frame_lib where
  "demo_frames_lib = \<lparr>fl_size = 7, fl_Cmd = hd, fl_StreamID = (\<lambda>h. get32 (drop 1 h)), fl_Length = (\<lambda>h. get16 (drop 5 h)),
     cmdWaste = CHR 0x00, cmdSYN = CHR 0x01, cmdPSH = CHR 0x02, cmdFIN = CHR 0x03, cmdSettings = CHR 0x04, cmdAlert = CHR 0x05,
     cmdUpdatePaddingScheme = CHR 0x06, cmdSYNACK = CHR 0x07, cmdHeartRequest = CHR 0x08, cmdHeartResponse = CHR 0x09,
     cmdServerSettings = CHR 0x0A, fl_CheckMark = -1, fl_ParseScheme = (\<lambda>s. None), fl_ToBytes = concat \<circ> map snd,
     fl_FromBytes = (\<lambda>s. [(''padding-md5'', s)]), fl_Version = ''1''\<rparr>"

lemma drop_header: "drop 1 (header c sid n) = put32 sid @ put16 n" "drop 5 (header c sid n) = put16 n"
  by (simp_all add: header_def put32_def)

lemma get32_append: "4 \<le> length s \<Longrightarrow> get32 (s @ t) = get32 s"
  by (cases s) (auto simp: get32_def nth_append)

lemma demo_frame_ok: "frame_ok demo_frames_lib"
proof -
  have "distinct (codes demo_frames_lib)" by (simp add: codes_def demo_frames_lib_def)
  moreover have "fl_Cmd demo_frames_lib (header c sid n) = c" for c sid n by (simp add: demo_frames_lib_def header_def)
  moreover have "fl_StreamID demo_frames_lib (header c sid n) = sid" if "sid < 2 ^ 32" for c sid n
    using that by (simp add: demo_frames_lib_def drop_header get32_append get32_put32 del: drop_Suc_Cons One_nat_def)
  moreover have "fl_Length demo_frames_lib (header c sid n) = n" if "n < 2 ^ 16" for c sid n
    using get16_put16 [OF that] by (simp add: demo_frames_lib_def drop_header)
  moreover have "fl_size demo_frames_lib = 7" by (simp add: demo_frames_lib_def)
  ultimately show ?thesis by (simp add: frame_ok_def)
qed

definition demo_scheme :: PaddingFactory where
  "demo_scheme = \<lparr>pf_Md5 = ''m'', pf_RawScheme = ''r'', pf_Stop = 3, pf_Sizes = (\<lambda>pkt. [9, 30, -1, 5])\<rparr>"

definition demo_frame_list :: "frame list" where
  "demo_frame_list = [(CHR 0x04, 0, ''m''), (CHR 0x01, 1, []), (CHR 0x02, 1, ''hello'')]"

lemma demo_writable: "writable demo_frames_lib (NewClientSession None demo_scheme)" "wire (NewClientSession None demo_scheme) = []"
  by (simp_all add: writable_def conn_ok_def padding_ok_def sizes_ok_def wire_def NewClientSession_def new_session_def
      demo_scheme_def demo_frames_lib_def)

theorem anytls_frames_roundtrip_witness:
  "\<exists>s'. recv_bytes demo_frames_lib (wire (fold (send_frame demo_frames_lib) demo_frame_list (NewClientSession None demo_scheme)))
      (NewServerSession None demo_scheme) = (None, s', []) \<and> map sm_received (an_heap s') = [''hello'']"
proof -
  have wf: "list_all (wf_frame demo_frames_lib) demo_frame_list"
    by (simp add: wf_frame_def demo_frame_list_def demo_frames_lib_def)
  have h: "fst (handle_frames demo_frames_lib demo_frame_list (NewServerSession None demo_scheme)) = None"
    "map sm_received (an_heap (snd (handle_frames demo_frames_lib demo_frame_list (NewServerSession None demo_scheme)))) = [''hello'']"
    by code_simp+
  from anytls_frames_roundtrip [OF demo_frame_ok demo_writable wf, of "NewServerSession None demo_scheme"] h show ?thesis by auto
qed

end
