(* ===== verification/AnyTLS_Close.thy ===== *)
theory AnyTLS_Close
  imports AnyTLS_Props
begin

text \<open>
  The end of an AnyTLS session on the server: whatever frames arrived and whatever its handlers did, closing
  the session closes every stream it handed out; a frame handled after the close escapes that.
\<close>

section \<open>Streams and their table\<close>

text \<open>Every stream of a server's session that is alive is in the table under its number, and the table points
  nowhere else.\<close>

definition alive :: "Session \<Rightarrow> nat \<Rightarrow> bool" where
  "alive s i \<longleftrightarrow> i < length (an_heap s) \<and> sm_dieErr (an_heap s ! i) = None"

definition table_ok :: "Session \<Rightarrow> bool" where
  "table_ok s \<longleftrightarrow> (\<forall>i. alive s i \<longrightarrow> map_of (an_streams s) (sm_id (an_heap s ! i)) = Some i) \<and>
     (\<forall>sid i. map_of (an_streams s) sid = Some i \<longrightarrow> i < length (an_heap s) \<and> sm_id (an_heap s ! i) = sid) \<and>
     (an_die s \<longrightarrow> an_streams s = []) \<and> \<not> an_isClient s"

lemma table_ok_same:
  "table_ok s \<Longrightarrow> an_heap s' = an_heap s \<Longrightarrow> an_streams s' = an_streams s \<Longrightarrow> an_die s' = an_die s \<Longrightarrow> an_isClient s' = an_isClient s \<Longrightarrow> table_ok s'"
  by (simp add: table_ok_def alive_def)

text \<open>A change of one stream that keeps its number and does not revive it.\<close>

lemma table_ok_on_stream:
  assumes "table_ok s" and "\<And>st. sm_id (f st) = sm_id st" and "\<And>st. sm_dieErr (f st) = None \<Longrightarrow> sm_dieErr st = None"
  shows "table_ok (on_stream i f s)"
proof (cases "i < length (an_heap s)")
  case True
  then show ?thesis using assms by (auto simp: table_ok_def alive_def on_stream_def nth_list_update)
next
  case False
  then show ?thesis using assms(1) by (simp add: on_stream_def list_update_beyond table_ok_def alive_def)
qed

lemma kill_stream_simps [simp]: "sm_id (kill_stream e st) = sm_id st" "sm_dieErr (kill_stream e st) \<noteq> None"
  by (simp_all add: kill_stream_def)

lemma on_stream_simps [simp]:
  "an_streams (on_stream i f s) = an_streams s" "an_die (on_stream i f s) = an_die s"
  "length (an_heap (on_stream i f s)) = length (an_heap s)" "an_peerVersion (on_stream i f s) = an_peerVersion s"
  "an_isClient (on_stream i f s) = an_isClient s" "an_settings (on_stream i f s) = an_settings s"
  by (simp_all add: on_stream_def)

lemma alive_kill [simp]: "alive (on_stream i (kill_stream e) s) j \<longleftrightarrow> alive s j \<and> j \<noteq> i"
  by (cases "i < length (an_heap s)") (auto simp: alive_def on_stream_def nth_list_update list_update_beyond)

lemma id_kill [simp]: "sm_id (an_heap (on_stream i (kill_stream e) s) ! j) = sm_id (an_heap s ! j)"
  by (cases "i < length (an_heap s)") (auto simp: on_stream_def nth_list_update list_update_beyond)

lemma alive_update [simp]:
  "alive (s\<lparr>an_streams := m\<rparr>) j = alive s j" "alive (s\<lparr>an_connClosed := c\<rparr>) j = alive s j" "alive (s\<lparr>an_die := c\<rparr>) j = alive s j"
  "alive (s\<lparr>an_synDone := c\<rparr>) j = alive s j" "alive (s\<lparr>an_accepted := l\<rparr>) j = alive s j"
  by (simp_all add: alive_def)

text \<open>A number no living stream has can leave the table.\<close>

lemma table_ok_mdel:
  assumes "table_ok s" and "\<And>j. alive s j \<Longrightarrow> sm_id (an_heap s ! j) \<noteq> sid"
  shows "table_ok (s\<lparr>an_streams := mdel sid (an_streams s)\<rparr>)"
  using assms by (simp add: table_ok_def)

lemma alive_table: "table_ok s \<Longrightarrow> alive s i \<Longrightarrow> map_of (an_streams s) (sm_id (an_heap s ! i)) = Some i"
  by (simp add: table_ok_def)

lemma closeLocally_fold:
  "an_streams (fold closeLocally is s) = an_streams s \<and> an_die (fold closeLocally is s) = an_die s \<and>
   an_isClient (fold closeLocally is s) = an_isClient s \<and>
   length (an_heap (fold closeLocally is s)) = length (an_heap s) \<and>
   (alive (fold closeLocally is s) j \<longleftrightarrow> alive s j \<and> j \<notin> set is)"
  by (induction "is" arbitrary: s) (auto simp: closeLocally_def)

text \<open>The close kills every stream.\<close>

lemma Session_Close_dead:
  assumes "table_ok s"
  shows "an_die (snd (Session_Close s)) \<and> an_streams (snd (Session_Close s)) = [] \<and> \<not> alive (snd (Session_Close s)) i"
proof (cases "an_die s")
  case True
  then show ?thesis using assms by (auto simp: Session_Close_def table_ok_def)
next
  case False
  let ?f = "fold closeLocally (map snd (an_streams s)) (s\<lparr>an_die := True\<rparr>)"
  have c: "snd (Session_Close s) = ?f\<lparr>an_streams := [], an_connClosed := True\<rparr>" using False by (simp add: Session_Close_def)
  note f = closeLocally_fold [of "map snd (an_streams s)" "s\<lparr>an_die := True\<rparr>" i]
  have "\<not> alive ?f i"
  proof
    assume "alive ?f i"
    with f have "alive s i" "i \<notin> snd ` set (an_streams s)" by simp_all
    moreover from alive_table [OF assms this(1)] have "i \<in> snd ` set (an_streams s)" using map_of_SomeD by force
    ultimately show False by blast
  qed
  with f show ?thesis by (simp add: c)
qed

lemma table_ok_Close: "table_ok s \<Longrightarrow> table_ok (snd (Session_Close s))"
proof -
  assume t: "table_ok s"
  have "\<not> an_isClient (snd (Session_Close s))"
    using t closeLocally_fold [of "map snd (an_streams s)" "s\<lparr>an_die := True\<rparr>"] by (simp add: Session_Close_def table_ok_def)
  with Session_Close_dead [OF t] show ?thesis by (simp add: table_ok_def)
qed

section \<open>Writing keeps the table\<close>

lemma pad_loop_same:
  "pad_loop F ls b s = (r, b', s') \<Longrightarrow> an_heap s' = an_heap s \<and> an_streams s' = an_streams s \<and> an_die s' = an_die s \<and> an_isClient s' = an_isClient s"
proof (induction F ls b s arbitrary: r b' s' rule: pad_loop.induct)
  case (2 F l ls b s)
  have w: "conn_Write c s = (q, s1) \<Longrightarrow> an_heap s1 = an_heap s \<and> an_streams s1 = an_streams s \<and> an_die s1 = an_die s \<and> an_isClient s1 = an_isClient s" for c q s1
    by (auto simp: conn_Write_def split: option.splits nat.splits if_splits)
  from 2 show ?case by (auto simp: Let_def dest!: w split: if_splits prod.splits option.splits)
qed simp

lemma writeConn_same:
  "writeConn F b s = (r, s') \<Longrightarrow> an_heap s' = an_heap s \<and> an_streams s' = an_streams s \<and> an_die s' = an_die s \<and> an_isClient s' = an_isClient s"
proof -
  assume a: "writeConn F b s = (r, s')"
  have w: "conn_Write c t = (q, t1) \<Longrightarrow> an_heap t1 = an_heap t \<and> an_streams t1 = an_streams t \<and> an_die t1 = an_die t \<and> an_isClient t1 = an_isClient t" for c t q t1
    by (auto simp: conn_Write_def split: option.splits nat.splits if_splits)
  from a show ?thesis
    by (auto simp: writeConn_def Let_def dest!: w pad_loop_same split: if_splits prod.splits option.splits)
qed

lemma table_ok_writeConn: "table_ok s \<Longrightarrow> table_ok (snd (writeConn F b s))"
  by (cases "writeConn F b s") (auto dest: writeConn_same intro: table_ok_same)

lemma writeControlFrame_cases:
  "snd (writeControlFrame F c sid data s) = snd (writeConn F (frame_bytes c sid data) s) \<or>
   snd (writeControlFrame F c sid data s) = snd (Session_Close (snd (writeConn F (frame_bytes c sid data) s)))"
  by (cases "writeConn F (frame_bytes c sid data) s") (auto simp: writeControlFrame_def split: option.split)

lemma table_ok_control: "table_ok s \<Longrightarrow> table_ok (snd (writeControlFrame F c sid data s))"
  using writeControlFrame_cases [of F c sid data s] table_ok_writeConn [of s F] table_ok_Close by metis

lemma control_streams:
  "an_streams (snd (writeControlFrame F c sid data s)) = an_streams s \<or> an_streams (snd (writeControlFrame F c sid data s)) = []"
proof -
  have w: "an_streams (snd (writeConn F b s)) = an_streams s" for b
    by (cases "writeConn F b s") (auto dest: writeConn_same)
  have "an_streams (snd (Session_Close t)) = an_streams t \<or> an_streams (snd (Session_Close t)) = []" for t
    by (simp add: Session_Close_def)
  with writeControlFrame_cases [of F c sid data s] w show ?thesis by metis
qed

lemma control_alive:
  "alive (snd (writeControlFrame F c sid data s)) j \<Longrightarrow> alive s j"
  "sm_id (an_heap (snd (writeControlFrame F c sid data s)) ! j) = sm_id (an_heap s ! j)"
proof -
  have w: "an_heap (snd (writeConn F b s)) = an_heap s" for b
    by (cases "writeConn F b s") (auto dest: writeConn_same)
  have id: "sm_id (an_heap (fold closeLocally is t) ! j) = sm_id (an_heap t ! j)" for "is" t
    by (induction "is" arbitrary: t) (simp_all add: closeLocally_def)
  have cl: "alive (snd (Session_Close t)) j \<Longrightarrow> alive t j" "sm_id (an_heap (snd (Session_Close t)) ! j) = sm_id (an_heap t ! j)" for t
    using closeLocally_fold [of "map snd (an_streams t)" "t\<lparr>an_die := True\<rparr>" j] id [of "map snd (an_streams t)" "t\<lparr>an_die := True\<rparr>"]
    by (auto simp: Session_Close_def alive_def split: if_splits)
  have wa: "alive (snd (writeConn F b s)) j = alive s j" for b by (simp add: alive_def w)
  show "alive (snd (writeControlFrame F c sid data s)) j \<Longrightarrow> alive s j"
    using writeControlFrame_cases [of F c sid data s] cl(1) wa by metis
  show "sm_id (an_heap (snd (writeControlFrame F c sid data s)) ! j) = sm_id (an_heap s ! j)"
    using writeControlFrame_cases [of F c sid data s] cl(2) w by metis
qed

section \<open>Every operation keeps the table\<close>

lemma table_ok_kill: "table_ok s \<Longrightarrow> table_ok (on_stream i (kill_stream e) s)"
  by (rule table_ok_on_stream) simp_all

lemma table_ok_streamClosed:
  assumes "table_ok s" and "\<And>j. alive s j \<Longrightarrow> sm_id (an_heap s ! j) \<noteq> sid"
  shows "table_ok (snd (streamClosed F sid s))"
proof (cases "an_die s")
  case True
  with assms(1) show ?thesis by (simp add: streamClosed_def)
next
  case False
  let ?t = "snd (writeControlFrame F (cmdFIN F) sid [] s)"
  have "snd (streamClosed F sid s) = ?t\<lparr>an_streams := mdel sid (an_streams ?t)\<rparr>"
    using False by (simp add: streamClosed_def split: prod.split)
  moreover have "alive ?t j \<Longrightarrow> sm_id (an_heap ?t ! j) \<noteq> sid" for j
    using assms(2) control_alive [of F "cmdFIN F" sid "[]" s j] by metis
  ultimately show ?thesis using table_ok_mdel [OF table_ok_control [OF assms(1)]] by metis
qed

lemma table_ok_closeWithError:
  assumes "table_ok s" and "i < length (an_heap s)"
  shows "table_ok (snd (closeWithError F i e s))"
proof (cases "sm_dieErr (an_heap s ! i)")
  case (Some cause)
  with assms(1) show ?thesis by (simp add: closeWithError_def)
next
  case None
  with assms(2) have a: "alive s i" by (simp add: alive_def)
  have "sm_id (an_heap s ! j) \<noteq> sm_id (an_heap s ! i)" if "alive s j" "j \<noteq> i" for j
    using alive_table [OF assms(1) a] alive_table [OF assms(1) that(1)] that(2) by auto
  then have "table_ok (snd (streamClosed F (sm_id (an_heap s ! i)) (on_stream i (kill_stream e) s)))"
    by (intro table_ok_streamClosed table_ok_kill assms(1)) simp
  with None show ?thesis by (simp add: closeWithError_def)
qed

lemma table_ok_deliver: "table_ok s \<Longrightarrow> table_ok (deliver i b s)"
  unfolding deliver_def by (rule table_ok_on_stream) (auto split: if_splits)

lemma table_ok_accept:
  assumes "table_ok s" and "\<not> an_die s"
  shows "table_ok (accept_stream F sid s)"
proof (cases "mhas (an_streams s) sid")
  case True
  with assms(1) show ?thesis by (simp add: accept_stream_def)
next
  case False
  then have n: "map_of (an_streams s) sid = None" by (simp add: mhas_def)
  let ?i = "length (an_heap s)"
  let ?s = "s\<lparr>an_heap := an_heap s @ [newStream sid], an_streams := mput sid ?i (an_streams s), an_accepted := an_accepted s @ [?i]\<rparr>"
  have al: "alive ?s j \<longleftrightarrow> j = ?i \<or> alive s j" for j by (auto simp: alive_def nth_append newStream_def)
  have id: "sm_id (an_heap ?s ! j) = (if j = ?i then sid else sm_id (an_heap s ! j))" if "j \<le> ?i" for j
    using that by (simp add: nth_append newStream_def)
  have "map_of (an_streams ?s) (sm_id (an_heap ?s ! j)) = Some j" if "alive ?s j" for j
  proof (cases "j = ?i")
    case True
    then show ?thesis using id [of j] by simp
  next
    case False
    with that al have j: "alive s j" by simp
    then have "j < ?i" by (simp add: alive_def)
    with id [of j] alive_table [OF assms(1) j] n show ?thesis by auto
  qed
  moreover have "j < length (an_heap ?s) \<and> sm_id (an_heap ?s ! j) = k" if "map_of (an_streams ?s) k = Some j" for k j
  proof (cases "k = sid")
    case True
    with that id [of j] show ?thesis by simp
  next
    case False
    with that have "map_of (an_streams s) k = Some j" by simp
    with assms(1) have "j < ?i" "sm_id (an_heap s ! j) = k" by (simp_all add: table_ok_def)
    with id [of j] show ?thesis by simp
  qed
  ultimately have "table_ok ?s" unfolding table_ok_def using assms by (simp add: table_ok_def)
  with False assms(1) show ?thesis by (simp add: accept_stream_def Let_def table_ok_def)
qed

lemma table_ok_fin:
  assumes "table_ok s" and "map_of (an_streams s) sid = Some i"
  shows "table_ok (closeLocally i (s\<lparr>an_streams := mdel sid (an_streams s)\<rparr>))"
proof -
  have e: "closeLocally i (s\<lparr>an_streams := mdel sid (an_streams s)\<rparr>) =
      (on_stream i (kill_stream net_ErrClosed) s)\<lparr>an_streams := mdel sid (an_streams (on_stream i (kill_stream net_ErrClosed) s))\<rparr>"
    by (simp add: closeLocally_def on_stream_def)
  have "sm_id (an_heap s ! j) \<noteq> sid" if "alive s j" "j \<noteq> i" for j
    using alive_table [OF assms(1) that(1)] assms(2) that(2) by auto
  then show ?thesis unfolding e by (intro table_ok_mdel table_ok_kill assms(1)) simp
qed

lemma table_ok_settings: "table_ok s \<Longrightarrow> table_ok (s\<lparr>an_settings := c\<rparr>)" "table_ok s \<Longrightarrow> table_ok (s\<lparr>an_peerVersion := v\<rparr>)"
  "table_ok s \<Longrightarrow> table_ok (s\<lparr>an_synDone := c\<rparr>)"
  by (simp_all add: table_ok_def alive_def)

lemma table_ok_client_settings:
  assumes "table_ok s"
  shows "table_ok (snd (client_settings F b s))"
proof -
  let ?s = "s\<lparr>an_settings := True\<rparr>"
  define c where "c = (if mget_or [] (fl_FromBytes F b) ''padding-md5'' \<noteq> pf_Md5 (an_padding ?s)
    then writeControlFrame F (cmdUpdatePaddingScheme F) 0 (pf_RawScheme (an_padding ?s)) ?s else (None, ?s))"
  obtain r s1 where r: "c = (r, s1)" by (cases c)
  have "table_ok (snd c)" using assms by (simp add: c_def table_ok_control table_ok_settings)
  with r have t: "table_ok s1" by simp
  obtain v bad where v: "Atoi (mget_or [] (fl_FromBytes F b) ''v'') = (v, bad)" by fastforce
  show ?thesis
  proof (cases r)
    case (Some e)
    with t r show ?thesis unfolding client_settings_def Let_def c_def [symmetric] by simp
  next
    case None
    with t r v show ?thesis unfolding client_settings_def Let_def c_def [symmetric]
      by (simp add: table_ok_control table_ok_settings)
  qed
qed

fun state_of :: "received \<Rightarrow> Session" where
  "state_of (Next n s) = s"
| "state_of (Stop r s) = s"

lemma state_of_case: "state_of (case p of (None, s) \<Rightarrow> Next n s | (Some e, s) \<Rightarrow> Stop (Some e) s) = snd p"
  by (cases p; cases "fst p") auto

lemma table_ok_recv:
  assumes "table_ok s" and "\<not> an_die s"
  shows "table_ok (state_of (recv_frame F hdr rest s))"
proof -
  have sy: "table_ok (s\<lparr>an_synDone := False\<rparr>)" by (rule table_ok_settings(3) [OF assms(1)])
  have nc: "\<not> an_isClient s" using assms(1) by (simp add: table_ok_def)
  have cwe: "table_ok (snd (closeWithError F i e (s\<lparr>an_synDone := False\<rparr>)))" if "map_of (an_streams s) k = Some i" for i k e
    using table_ok_closeWithError [OF sy, of i F e] assms(1) that by (simp add: table_ok_def)
  show ?thesis
    unfolding recv_frame_def Let_def
    by (simp add: nc sy assms state_of_case table_ok_control table_ok_deliver table_ok_accept table_ok_fin cwe
        table_ok_client_settings split: if_split option.split)
qed

section \<open>Runs of a server's session\<close>

text \<open>Frames that arrive - the loop looks whether the session is closed before it reads one - and what handlers do
  with their streams.\<close>

datatype an_event =
    AnFrame string string | AnWrite bool nat string | AnClose nat | AnSuccess nat | AnFailure nat "err option" | AnEnd

definition on_live :: "nat \<Rightarrow> (Session \<Rightarrow> Session) \<Rightarrow> Session \<Rightarrow> Session" where
  "on_live i f s = (if i < length (an_heap s) then f s else s)"

fun an_step :: "frame_lib \<Rightarrow> an_event \<Rightarrow> Session \<Rightarrow> Session" where
  "an_step F (AnFrame hdr rest) s =
     (if an_die s then s else state_of (recv_frame F hdr rest s))"
| "an_step F (AnWrite deadline i b) s = on_live i (\<lambda>s. snd (Stream_Write F deadline i b s)) s"
| "an_step F (AnClose i) s = on_live i (\<lambda>s. snd (Stream_Close F i s)) s"
| "an_step F (AnSuccess i) s = on_live i (\<lambda>s. snd (HandshakeSuccess F i s)) s"
| "an_step F (AnFailure i e) s = on_live i (\<lambda>s. snd (HandshakeFailure F i e s)) s"
| "an_step F AnEnd s = snd (Session_Close s)"

lemma table_ok_report: "table_ok s \<Longrightarrow> table_ok (on_stream i (\<lambda>st. st\<lparr>sm_reported := True\<rparr>) s)"
  by (rule table_ok_on_stream) simp_all

lemma table_ok_step:
  assumes "table_ok s"
  shows "table_ok (an_step F ev s)"
proof (cases ev)
  case (AnFrame hdr rest)
  with assms table_ok_recv [OF assms] show ?thesis by simp
next
  case (AnWrite d i b)
  with assms table_ok_writeConn [OF assms] show ?thesis
    by (auto simp: on_live_def Stream_Write_def writeDataFrame_def split: option.split prod.split) (metis snd_conv)+
next
  case (AnClose i)
  with assms table_ok_closeWithError [OF assms] show ?thesis by (simp add: on_live_def Stream_Close_def)
next
  case (AnSuccess i)
  with assms table_ok_control [OF table_ok_report [OF assms]] table_ok_report [OF assms] show ?thesis
    by (simp add: on_live_def HandshakeSuccess_def Let_def)
next
  case (AnFailure i e)
  with assms table_ok_control [OF table_ok_report [OF assms]] table_ok_report [OF assms] show ?thesis
    by (simp add: on_live_def HandshakeFailure_def Let_def split: option.split)
next
  case AnEnd
  with assms show ?thesis by (simp add: table_ok_Close)
qed

lemma table_ok_run: "table_ok s \<Longrightarrow> table_ok (fold (an_step F) evs s)"
  by (induction evs arbitrary: s) (simp_all add: table_ok_step)

lemma table_ok_new: "table_ok (NewServerSession fail p)"
  by (simp add: table_ok_def alive_def NewServerSession_def new_session_def)

text \<open>C12: after any sequence of frames, well formed or not, and of operations of the handlers on their streams, the end of
  the session leaves no stream behind: all of them are closed, so that their handlers' reads and writes fail
  and no handler waits on a connection that is gone.\<close>

theorem anytls_close_kills_streams:
  assumes "fold (an_step F) evs (NewServerSession fail p) = s" and "snd (Session_Close s) = s'"
  shows "an_die s' \<and> an_streams s' = [] \<and> list_all (\<lambda>st. sm_dieErr st \<noteq> None) (an_heap s') \<and>
    (i < length (an_heap s') \<longrightarrow> (\<exists>e. Stream_Write F deadline i b s' = (Inl e, s')))"
proof -
  have t: "table_ok s" using table_ok_run [OF table_ok_new] assms(1) by blast
  note d = Session_Close_dead [OF t, unfolded assms(2)]
  have n: "sm_dieErr (an_heap s' ! j) \<noteq> None" if "j < length (an_heap s')" for j
    using d [of j] that by (simp add: alive_def)
  then have "list_all (\<lambda>st. sm_dieErr st \<noteq> None) (an_heap s')" by (simp add: list_all_length)
  moreover have "i < length (an_heap s') \<longrightarrow> (\<exists>e. Stream_Write F deadline i b s' = (Inl e, s'))"
    using n [of i] by (auto simp: Stream_Write_def)
  ultimately show ?thesis using d by blast
qed

theorem anytls_close_kills_streams_witness:
  "map sm_dieErr (an_heap (snd (Session_Close (fold (an_step demo_frames_lib)
      [AnFrame (header (CHR 0x04) 0 1) ''m'', AnFrame (header (CHR 0x01) 1 0) []] (NewServerSession None demo_scheme))))) =
   [Some net_ErrClosed]"
proof -
  let ?s = "fold (an_step demo_frames_lib)
      [AnFrame (header (CHR 0x04) 0 1) ''m'', AnFrame (header (CHR 0x01) 1 0) []] (NewServerSession None demo_scheme)"
  have "length (an_heap (snd (Session_Close ?s))) = 1" "sm_dieErr (an_heap (snd (Session_Close ?s)) ! 0) = Some net_ErrClosed"
    by code_simp+
  with anytls_close_kills_streams [OF refl refl, of demo_frames_lib] show ?thesis
    by (cases "an_heap (snd (Session_Close ?s))") auto
qed

section \<open>A frame after the close\<close>

text \<open>The loop looks only before it reads a header: when the session is closed between that and the handling of an
  opening frame, the stream is entered into the table of the closed session and nothing closes it any more.\<close>

lemma late_syn_survives:
  assumes "an_die s" and "an_settings s" and "\<not> an_isClient s" and "an_streams s = []" and "distinct (codes F)"
    and "fl_Cmd F hdr = cmdSYN F"
  shows "\<exists>s'. recv_frame F hdr [] s = Next 0 s' \<and> alive (snd (Session_Close s')) (length (an_heap s))"
  using assms
  by (simp add: recv_frame_def Let_def codes_def accept_stream_def Session_Close_def alive_def newStream_def)

end
