(* ===== verification/Sing_Inbound.thy ===== *)
theory Sing_Inbound
  imports Sing_Users
begin

text \<open>
  The managed inbounds of sing-box (runtime/patches, sing-box protocol/*/inbound.go): their construction from
  the options the core makes, and what they tell the router about a connection that their service
  accepted.  TLS, the transports, the multiplexer, the padding scheme and the single-user ciphers are
  library functions.  Options that the core never sets (a realm, a masquerade, time-outs) are at their zero
  values, and their branches are left out.
\<close>

section \<open>Construction\<close>

text \<open>
  Library functions: a TLS server for the options and the flag of kernel TLS, and a transport over it (each
  tells whether there is one: disabled TLS and an empty transport give nil); the multiplexer; whether an address is valid and how
  it is written; whether a padding scheme parses (none given is the default); the single-user service of Shadowsocks 2022 with its key length;
  the methods it lists and those of the older ciphers; the bytes of a megabit; the two default packet sizes and the limit of gecko.
\<close>

record new_lib =
  nl_TLS :: "InboundTLSOptions \<Rightarrow> bool \<Rightarrow> bool res"
  nl_Transport :: "V2RayTransportOptions \<Rightarrow> bool \<Rightarrow> bool res"
  nl_Mux :: "InboundMultiplexOptions option \<Rightarrow> err option"
  nl_Valid :: "ServerOptions \<Rightarrow> bool"
  nl_Addr :: "ServerOptions \<Rightarrow> string"
  nl_Padding :: "string list \<Rightarrow> bool"
  nl_SS2022 :: "string \<Rightarrow> string \<Rightarrow> nat res"
  nl_List2022 :: "string list"
  nl_ListAEAD :: "string list"
  nl_MbpsToBps :: int
  nl_Gecko :: "int \<times> int \<times> int"
  nl_PacketMagic :: string

record ManagedInbound =
  mi_Type :: string
  mi_Tag :: string
  mi_service :: SingInbound
  mi_tls :: bool
  mi_transport :: bool
  mi_fallback :: "ServerOptions option"
  mi_fallbackALPN :: "(string, ServerOptions) gomap"

definition bind_res :: "'a res \<Rightarrow> ('a \<Rightarrow> 'b res) \<Rightarrow> 'b res" where
  "bind_res r f = (case r of Inl e \<Rightarrow> Inl e | Inr x \<Rightarrow> f x)"

definition on_err :: "err option \<Rightarrow> 'a res \<Rightarrow> 'a res" where
  "on_err e r = (case e of Some e \<Rightarrow> Inl e | None \<Rightarrow> r)"

definition cause :: "err \<Rightarrow> 'a res \<Rightarrow> 'a res" where
  "cause msg r = map_sum (\<lambda>e. msg @ '': '' @ e) id r"

lemma bind_res_Inr [simp]: "bind_res r f = Inr y \<longleftrightarrow> (\<exists>x. r = Inr x \<and> f x = Inr y)"
  by (simp add: bind_res_def split: sum.split)

lemma on_err_Inr [simp]: "on_err e r = Inr y \<longleftrightarrow> e = None \<and> r = Inr y"
  by (simp add: on_err_def split: option.split)

lemma map_sum_Inr [simp]: "map_sum id f r = Inr y \<longleftrightarrow> (\<exists>x. r = Inr x \<and> y = f x)"
  by (cases r) auto

definition plain_inbound :: "string \<Rightarrow> string \<Rightarrow> SingInbound \<Rightarrow> bool \<Rightarrow> bool \<Rightarrow> ManagedInbound" where
  "plain_inbound ty tag s c t = \<lparr>mi_Type = ty, mi_Tag = tag, mi_service = s, mi_tls = c, mi_transport = t,
     mi_fallback = None, mi_fallbackALPN = []\<rparr>"

definition mux_enabled :: "InboundMultiplexOptions option \<Rightarrow> bool" where
  "mux_enabled mux = (case mux of None \<Rightarrow> False | Some m \<Rightarrow> im_Enabled m)"

definition new_transport :: "new_lib \<Rightarrow> V2RayTransportOptions \<Rightarrow> bool \<Rightarrow> bool res" where
  "new_transport N tr c = cause (''create server transport: '' @ vt_Type tr) (nl_Transport N tr c)"

subsection \<open>Over a stream\<close>

text \<open>No user has a flow yet, as there is none.\<close>

definition VLESS_NewInbound :: "new_lib \<Rightarrow> digests \<Rightarrow> string \<Rightarrow> InboundTLSOptions \<Rightarrow> V2RayTransportOptions \<Rightarrow> InboundMultiplexOptions option \<Rightarrow> ManagedInbound res" where
  "VLESS_NewInbound N D tag tls tr mux = on_err (nl_Mux N mux)
     (let service = VLESS_UpdateUsers D [] \<lparr>vls_userMap = [], vls_userFlow = []\<rparr>
      in bind_res (nl_TLS N tls (vt_Type tr = [] \<and> \<not> mux_enabled mux)) (\<lambda>c.
         bind_res (new_transport N tr c) (\<lambda>t. Inr (plain_inbound ''vless'' tag (VLESSInbound service) c t))))"

definition VMess_NewInbound :: "new_lib \<Rightarrow> digests \<Rightarrow> int \<Rightarrow> string \<Rightarrow> InboundTLSOptions \<Rightarrow> V2RayTransportOptions \<Rightarrow> InboundMultiplexOptions option \<Rightarrow> ManagedInbound res" where
  "VMess_NewInbound N D now tag tls tr mux = on_err (nl_Mux N mux)
     (case VMess_UpdateUsers D now [] empty_vmess of
        (Some e, _) \<Rightarrow> Inl e
      | (None, service) \<Rightarrow> bind_res (nl_TLS N tls False) (\<lambda>c.
         bind_res (new_transport N tr c) (\<lambda>t. Inr (plain_inbound ''vmess'' tag (VMessInbound service) c t))))"

text \<open>The fallbacks of Trojan; those by ALPN need TLS.\<close>

definition has_fallback :: "ServerOptions option \<Rightarrow> bool" where
  "has_fallback fb = (case fb of None \<Rightarrow> False | Some a \<Rightarrow> sv_Server a \<noteq> [])"

definition check_fallbacks :: "new_lib \<Rightarrow> bool \<Rightarrow> ServerOptions option \<Rightarrow> (string, ServerOptions) gomap \<Rightarrow> err option" where
  "check_fallbacks N c fb alpn =
     (if has_fallback fb \<and> \<not> nl_Valid N (the fb) then Some (''invalid fallback address: '' @ nl_Addr N (the fb))
      else if alpn = [] then None
      else if \<not> c then Some ''fallback for ALPN is not supported without TLS''
      else (case find (\<lambda>(p, a). \<not> nl_Valid N a) alpn of
          Some (p, a) \<Rightarrow> Some (''invalid fallback address for ALPN '' @ p @ '': '' @ nl_Addr N a)
        | None \<Rightarrow> None))"

definition Trojan_NewInbound ::
  "new_lib \<Rightarrow> digests \<Rightarrow> string \<Rightarrow> InboundTLSOptions \<Rightarrow> V2RayTransportOptions \<Rightarrow> InboundMultiplexOptions option
     \<Rightarrow> ServerOptions option \<Rightarrow> (string, ServerOptions) gomap \<Rightarrow> ManagedInbound res" where
  "Trojan_NewInbound N D tag tls tr mux fb alpn =
     bind_res (nl_TLS N tls (vt_Type tr = [] \<and> \<not> mux_enabled mux)) (\<lambda>c.
       on_err (check_fallbacks N c fb alpn)
        (case Trojan_UpdateUsers D [] \<lparr>tro_users = [], tro_keys = []\<rparr> of
           (Some e, _) \<Rightarrow> Inl e
         | (None, service) \<Rightarrow> bind_res (new_transport N tr c) (\<lambda>t.
             on_err (nl_Mux N mux) (Inr ((plain_inbound ''trojan'' tag (TrojanInbound service) c t)
               \<lparr>mi_fallback := (if has_fallback fb then fb else None), mi_fallbackALPN := alpn\<rparr>)))))"

definition AnyTLS_NewService :: "new_lib \<Rightarrow> digests \<Rightarrow> string list \<Rightarrow> PasswordUser list \<Rightarrow> (string, string) gomap res" where
  "AnyTLS_NewService N D scheme us =
     (if \<not> nl_Padding N scheme then Inl ''incorrect padding scheme format'' else Inr (AnyTLS_UpdateUsers D us []))"

definition AnyTLS_NewInbound :: "new_lib \<Rightarrow> digests \<Rightarrow> string \<Rightarrow> string list \<Rightarrow> InboundTLSOptions \<Rightarrow> ManagedInbound res" where
  "AnyTLS_NewInbound N D tag scheme tls =
     bind_res (if it_Enabled tls then nl_TLS N tls False else Inr False) (\<lambda>c.
       bind_res (AnyTLS_NewService N D scheme []) (\<lambda>users.
         Inr (plain_inbound ''anytls'' tag (AnyTLSInbound users) c False)))"

subsection \<open>Shadowsocks\<close>

definition SS2022_NewMultiService :: "new_lib \<Rightarrow> digests \<Rightarrow> string \<Rightarrow> string \<Rightarrow> SS2022Service res" where
  "SS2022_NewMultiService N D method password =
     (if password = [] then Inl ''missing psk''
      else bind_res (cause ''decode psk'' (dg_Base64 D password)) (\<lambda>psk.
        if method \<noteq> ''2022-blake3-aes-128-gcm'' \<and> method \<noteq> ''2022-blake3-aes-256-gcm'' then Inl ''invalid argument''
        else bind_res (nl_SS2022 N method psk) (\<lambda>n.
          Inr \<lparr>s22_uPSK = [], s22_uPSKHash = [], s22_uCipher = [], s22_keySaltLength = n\<rparr>)))"

definition AEAD_NewMultiService :: "string \<Rightarrow> AEADService" where
  "AEAD_NewMultiService method = \<lparr>sa_name = method, sa_methodMap = []\<rparr>"

text \<open>The list holds the placeholder that the core puts there, a user without a name.\<close>

definition newMultiInbound :: "new_lib \<Rightarrow> digests \<Rightarrow> string \<Rightarrow> string \<Rightarrow> string \<Rightarrow> string list \<Rightarrow> InboundMultiplexOptions option \<Rightarrow> ManagedInbound res" where
  "newMultiInbound N D tag method password us mux = on_err (nl_Mux N mux)
     (bind_res (if method \<in> set (nl_List2022 N) then map_sum id SS2022Inbound (SS2022_NewMultiService N D method password)
                else if method \<in> set (nl_ListAEAD N) then Inr (AEADInbound (AEAD_NewMultiService method))
                else Inl (''unsupported method: '' @ method)) (\<lambda>service.
       if us = [] then Inr (plain_inbound ''shadowsocks'' tag service False False)
       else (case SetManagedUsers D 0 (ShadowsocksUsers (map (\<lambda>p. \<lparr>pw_Name = [], pw_Password = p\<rparr>) us)) service of
           (Some e, _) \<Rightarrow> Inl e
         | (None, service) \<Rightarrow> Inr (plain_inbound ''shadowsocks'' tag service False False))))"

subsection \<open>Over QUIC\<close>

definition need_tls :: "new_lib \<Rightarrow> InboundTLSOptions \<Rightarrow> bool res" where
  "need_tls N tls = (if \<not> it_Enabled tls then Inl ''TLS required'' else nl_TLS N tls False)"

definition TUIC_NewService :: "string \<Rightarrow> TUICService res" where
  "TUIC_NewService congestion =
     (if congestion \<in> {[], ''cubic'', ''new_reno'', ''bbr''} then Inr \<lparr>tqs_userMap = [], tqs_passwordMap = []\<rparr>
      else Inl (''unknown congestion control algorithm: '' @ congestion))"

definition TUIC_NewInbound :: "new_lib \<Rightarrow> string \<Rightarrow> string \<Rightarrow> InboundTLSOptions \<Rightarrow> ManagedInbound res" where
  "TUIC_NewInbound N tag congestion tls = bind_res (need_tls N tls) (\<lambda>c.
     bind_res (TUIC_NewService congestion) (\<lambda>s.
       Inr (plain_inbound ''tuic'' tag (TUICInbound (TUIC_UpdateUsers [] s)) c False)))"

definition bps :: "new_lib \<Rightarrow> int \<Rightarrow> nat" where
  "bps N mbps = nat ((mbps * nl_MbpsToBps N) mod 2 ^ 64)"

definition Hysteria_NewService :: "nat \<Rightarrow> nat \<Rightarrow> (string, string) gomap res" where
  "Hysteria_NewService sendBPS receiveBPS =
     (if sendBPS = 0 then Inl ''missing upload speed configuration''
      else if receiveBPS = 0 then Inl ''missing download speed configuration'' else Inr [])"

definition Hysteria_NewInbound :: "new_lib \<Rightarrow> string \<Rightarrow> int \<Rightarrow> int \<Rightarrow> InboundTLSOptions \<Rightarrow> ManagedInbound res" where
  "Hysteria_NewInbound N tag up down tls = bind_res (need_tls N tls) (\<lambda>c.
     bind_res (Hysteria_NewService (bps N up) (bps N down)) (\<lambda>s.
       Inr (plain_inbound ''hysteria'' tag (HysteriaInbound (Hysteria_UpdateUsers [] s)) c False)))"

text \<open>The obfuscation: the passwords of salamander and of gecko.\<close>

definition hy2_obfs :: "(string \<times> string) option \<Rightarrow> (string \<times> string) res" where
  "hy2_obfs obfs = (case obfs of
     None \<Rightarrow> Inr ([], [])
   | Some (ty, password) \<Rightarrow>
       if password = [] then Inl ''missing obfs password''
       else if ty = ''salamander'' then Inr (password, [])
       else if ty = ''gecko'' then Inr ([], password)
       else Inl (''unknown obfs type: '' @ ty))"

definition Hysteria2_NewService :: "new_lib \<Rightarrow> string \<Rightarrow> int \<Rightarrow> int \<Rightarrow> (string, string) gomap res" where
  "Hysteria2_NewService N gecko smallest largest = (case nl_Gecko N of (dmin, dmax, limit) \<Rightarrow>
     let lo = (if smallest = 0 then dmin else smallest); hi = (if largest = 0 then dmax else largest)
     in if gecko \<noteq> [] \<and> (lo \<le> 0 \<or> hi < lo \<or> limit < hi) then Inl ''gecko: invalid packet size range'' else Inr [])"

definition Hysteria2_NewInbound :: "new_lib \<Rightarrow> string \<Rightarrow> (string \<times> string) option \<Rightarrow> InboundTLSOptions \<Rightarrow> ManagedInbound res" where
  "Hysteria2_NewInbound N tag obfs tls = bind_res (need_tls N tls) (\<lambda>c.
     bind_res (hy2_obfs obfs) (\<lambda>(salamander, gecko).
       bind_res (Hysteria2_NewService N gecko 0 0) (\<lambda>s.
         Inr (plain_inbound ''hysteria2'' tag (Hysteria2Inbound (Hysteria2_UpdateUsers [] s)) c False))))"

subsection \<open>By the type of the options\<close>

fun NewInbound :: "new_lib \<Rightarrow> digests \<Rightarrow> int \<Rightarrow> string \<Rightarrow> InboundOptions \<Rightarrow> ManagedInbound res" where
  "NewInbound N D now tag (VLESSInboundOptions l tls tr mux) = VLESS_NewInbound N D tag tls tr mux"
| "NewInbound N D now tag (VMessInboundOptions l tls tr mux) = VMess_NewInbound N D now tag tls tr mux"
| "NewInbound N D now tag (ShadowsocksInboundOptions l method password us mux) = newMultiInbound N D tag method password us mux"
| "NewInbound N D now tag (TrojanInboundOptions l tls tr mux fb alpn) = Trojan_NewInbound N D tag tls tr mux fb alpn"
| "NewInbound N D now tag (TUICInboundOptions l congestion zero_rtt tls) = TUIC_NewInbound N tag congestion tls"
| "NewInbound N D now tag (AnyTLSInboundOptions l scheme tls) = AnyTLS_NewInbound N D tag scheme tls"
| "NewInbound N D now tag (HysteriaInboundOptions l up down obfs tls) = Hysteria_NewInbound N tag up down tls"
| "NewInbound N D now tag (Hysteria2InboundOptions l up down ignore_client obfs tls) = Hysteria2_NewInbound N tag obfs tls"

section \<open>A new inbound\<close>

text \<open>Nobody can log in before the core has handed over its users, but for the nameless placeholder of Shadowsocks.\<close>

lemma new_inbound_service:
  assumes "NewInbound N D now tag o1 = Inr h"
  shows "mi_Tag h = tag" "known (mi_service h) \<subseteq> {[]}" "mi_service h = VMessInbound s \<Longrightarrow> legacy_known s"
proof -
  have ss: "known s' \<subseteq> {[]}"
    if "SetManagedUsers D 0 (ShadowsocksUsers (map (\<lambda>p. \<lparr>pw_Name = [], pw_Password = p\<rparr>) us)) s = (None, s')" for s s' us
    using SetManagedUsers_known [OF that] by (cases s) (auto simp: image_iff)
  have e: "known (VLESSInbound \<lparr>vls_userMap = [], vls_userFlow = f\<rparr>) = {}" "known (TrojanInbound \<lparr>tro_users = f, tro_keys = []\<rparr>) = {}"
    "known (SS2022Inbound \<lparr>s22_uPSK = p, s22_uPSKHash = [], s22_uCipher = q, s22_keySaltLength = n\<rparr>) = {}"
    "known (AEADInbound \<lparr>sa_name = nm, sa_methodMap = []\<rparr>) = {}" for f p q n nm
    by (simp_all add: known_def)
  have "mi_Tag h = tag \<and> known (mi_service h) \<subseteq> {[]} \<and> (\<forall>s. mi_service h = VMessInbound s \<longrightarrow> legacy_known s)"
  proof (cases o1)
    case (VLESSInboundOptions l tls tr mux)
    then show ?thesis using assms by (auto simp: VLESS_NewInbound_def plain_inbound_def VLESS_UpdateUsers_def e)
  next
    case (VMessInboundOptions l tls tr mux)
    then show ?thesis using assms
      by (auto simp: VMess_NewInbound_def plain_inbound_def VMess_UpdateUsers_def generateLegacyKeys_def legacy_entries_def
        empty_vmess_def known_def legacy_known_def)
  next
    case (ShadowsocksInboundOptions l cipher password us mux)
    let ?r = "if cipher \<in> set (nl_List2022 N) then map_sum id SS2022Inbound (SS2022_NewMultiService N D cipher password)
      else if cipher \<in> set (nl_ListAEAD N) then Inr (AEADInbound (AEAD_NewMultiService cipher)) else Inl (''unsupported method: '' @ cipher)"
    let ?set = "SetManagedUsers D 0 (ShadowsocksUsers (map (\<lambda>p. \<lparr>pw_Name = [], pw_Password = p\<rparr>) us))"
    from assms ShadowsocksInboundOptions have r: "newMultiInbound N D tag cipher password us mux = Inr h" by simp
    then obtain s where s: "?r = Inr s" unfolding newMultiInbound_def by fastforce
    have k: "known s = {}" and f: "\<forall>v. s \<noteq> VMessInbound v"
      using s by (auto simp: SS2022_NewMultiService_def AEAD_NewMultiService_def e split: if_splits sum.splits)
    show ?thesis
    proof (cases "us = []")
      case True
      with r s have "h = plain_inbound ''shadowsocks'' tag s False False" by (simp add: newMultiInbound_def)
      with k f show ?thesis by (simp add: plain_inbound_def)
    next
      case False
      with r s obtain s' where s': "?set s = (None, s')" "h = plain_inbound ''shadowsocks'' tag s' False False"
        by (cases "?set s") (auto simp: newMultiInbound_def split: option.splits)
      from ss [OF s'(1)] SetManagedUsers_legacy [OF s'(1)] s'(2) show ?thesis by (simp add: plain_inbound_def)
    qed
  next
    case (TrojanInboundOptions l tls tr mux fb alpn)
    then show ?thesis using assms
      by (auto simp: Trojan_NewInbound_def plain_inbound_def Trojan_UpdateUsers_def e)
  next
    case (TUICInboundOptions l congestion zero_rtt tls)
    then show ?thesis using assms by (auto simp: TUIC_NewInbound_def plain_inbound_def TUIC_UpdateUsers_def known_def)
  next
    case (AnyTLSInboundOptions l scheme tls)
    then show ?thesis using assms
      by (auto simp: AnyTLS_NewInbound_def AnyTLS_NewService_def plain_inbound_def AnyTLS_UpdateUsers_def known_def split: if_splits)
  next
    case (HysteriaInboundOptions l up down obfs tls)
    then show ?thesis using assms by (auto simp: Hysteria_NewInbound_def plain_inbound_def Hysteria_UpdateUsers_def known_def)
  next
    case (Hysteria2InboundOptions l up down ignore_client obfs tls)
    then show ?thesis using assms
      by (auto simp: Hysteria2_NewInbound_def plain_inbound_def Hysteria2_UpdateUsers_def known_def split: prod.splits)
  qed
  then show "mi_Tag h = tag" "known (mi_service h) \<subseteq> {[]}" "mi_service h = VMessInbound s \<Longrightarrow> legacy_known s" by simp_all
qed

lemma new_inbound_admits_nobody:
  assumes "NewInbound N D now tag o1 = Inr h" and "logged_in x (mi_service h) = Some u"
  shows "u = []"
proof -
  have "u \<in> known (mi_service h)" using logged_in_known [OF assms(2)] new_inbound_service(3) [OF assms(1)] by simp
  with new_inbound_service(2) [OF assms(1)] show ?thesis by blast
qed

text \<open>Which nodes have no inbound at all, whatever the library says.\<close>

lemma chacha_has_no_inbound:
  "''2022-blake3-chacha20-poly1305'' \<in> set (nl_List2022 N) \<Longrightarrow>
   \<exists>e. NewInbound N D now tag (ShadowsocksInboundOptions l ''2022-blake3-chacha20-poly1305'' password us mux) = Inl e"
  by (auto simp: newMultiInbound_def SS2022_NewMultiService_def on_err_def bind_res_def cause_def split: option.split sum.split)

lemma hysteria_needs_speeds:
  "up = 0 \<or> down = 0 \<Longrightarrow> \<exists>e. NewInbound N D now tag (HysteriaInboundOptions l up down obfs tls) = Inl e"
  by (auto simp: Hysteria_NewInbound_def Hysteria_NewService_def bps_def bind_res_def split: sum.split)

lemma quic_needs_tls:
  "\<not> it_Enabled tls \<Longrightarrow> \<exists>e. NewInbound N D now tag (TUICInboundOptions l congestion zero_rtt tls) = Inl e"
  "\<not> it_Enabled tls \<Longrightarrow> \<exists>e. NewInbound N D now tag (HysteriaInboundOptions l up down obfs tls) = Inl e"
  "\<not> it_Enabled tls \<Longrightarrow> \<exists>e. NewInbound N D now tag (Hysteria2InboundOptions l up down ignore_client obfs' tls) = Inl e"
  by (simp_all add: TUIC_NewInbound_def Hysteria_NewInbound_def Hysteria2_NewInbound_def need_tls_def bind_res_def)

end
