(* ===== verification/Sing_Identity.thy ===== *)
theory Sing_Identity
  imports Sing_Inbound Sing_Traffic
begin

text \<open>
  From a login to the connection tracker (runtime/patches, sing-box protocol/*/inbound.go, and
  HookServer of runtime/core/sing): what each inbound writes into the metadata of a connection that its service accepted, and
  that the tracker judges and counts a connection under the user it logged in as.  The router passes a
  connection to the tracker with this metadata.
\<close>

section \<open>What the router is given\<close>

text \<open>The handshake fails with an error, or a connection is routed with the type of its inbound and its metadata.\<close>

datatype handed = Closed err | RouteTCP string InboundContext | RouteUDP string InboundContext

text \<open>The body most handlers share: the user of the context, \<open>None\<close> when there is none.\<close>

definition with_user :: "(InboundContext \<Rightarrow> handed) \<Rightarrow> string \<Rightarrow> string option \<Rightarrow> InboundContext \<Rightarrow> handed" where
  "with_user route tag auth m = (case auth of
     None \<Rightarrow> Closed ''invalid argument''
   | Some user \<Rightarrow> route (m\<lparr>ic_Inbound := tag, ic_User := (if user = [] then ic_User m else user)\<rparr>))"

text \<open>A packet connection to the magic name carries its destinations in the packets.\<close>

definition packet_addr :: "string \<Rightarrow> InboundContext \<Rightarrow> InboundContext" where
  "packet_addr magic m = (if ic_Destination m = magic then m\<lparr>ic_Destination := []\<rparr> else m)"

definition VLESS_newConnectionEx :: "string \<Rightarrow> string option \<Rightarrow> InboundContext \<Rightarrow> handed" where
  "VLESS_newConnectionEx tag auth m = with_user (RouteTCP ''vless'') tag auth m"

definition VLESS_newPacketConnectionEx :: "string \<Rightarrow> string \<Rightarrow> string option \<Rightarrow> InboundContext \<Rightarrow> handed" where
  "VLESS_newPacketConnectionEx magic tag auth m = with_user (\<lambda>m. RouteUDP ''vless'' (packet_addr magic m)) tag auth m"

definition VMess_newConnectionEx :: "string \<Rightarrow> string option \<Rightarrow> InboundContext \<Rightarrow> handed" where
  "VMess_newConnectionEx tag auth m = with_user (RouteTCP ''vmess'') tag auth m"

definition VMess_newPacketConnectionEx :: "string \<Rightarrow> string \<Rightarrow> string option \<Rightarrow> InboundContext \<Rightarrow> handed" where
  "VMess_newPacketConnectionEx magic tag auth m = with_user (\<lambda>m. RouteUDP ''vmess'' (packet_addr magic m)) tag auth m"

definition Trojan_newConnection :: "string \<Rightarrow> string option \<Rightarrow> InboundContext \<Rightarrow> handed" where
  "Trojan_newConnection tag auth m = with_user (RouteTCP ''trojan'') tag auth m"

definition Trojan_newPacketConnection :: "string \<Rightarrow> string option \<Rightarrow> InboundContext \<Rightarrow> handed" where
  "Trojan_newPacketConnection tag auth m = with_user (RouteUDP ''trojan'') tag auth m"

definition SS_newConnection :: "string \<Rightarrow> string option \<Rightarrow> InboundContext \<Rightarrow> handed" where
  "SS_newConnection tag auth m = with_user (RouteTCP ''shadowsocks'') tag auth m"

definition SS_newPacketConnection :: "string \<Rightarrow> string option \<Rightarrow> InboundContext \<Rightarrow> handed" where
  "SS_newPacketConnection tag auth m = with_user (RouteUDP ''shadowsocks'') tag auth m"

text \<open>The other handlers build the metadata themselves; a context without a user leaves it empty.\<close>

definition fresh_context :: "string \<Rightarrow> string option \<Rightarrow> string \<Rightarrow> string \<Rightarrow> string \<Rightarrow> InboundContext" where
  "fresh_context tag auth source destination network = \<lparr>ic_Inbound = tag, ic_User = (case auth of None \<Rightarrow> [] | Some u \<Rightarrow> u),
     ic_Source = source, ic_Destination = destination, ic_Network = network, ic_Protocol = []\<rparr>"

definition TUIC_NewConnectionEx :: "string \<Rightarrow> string option \<Rightarrow> string \<Rightarrow> string \<Rightarrow> string \<Rightarrow> handed" where
  "TUIC_NewConnectionEx tag auth src dst network = RouteTCP ''tuic'' (fresh_context tag auth src dst network)"

definition TUIC_NewPacketConnectionEx :: "string \<Rightarrow> string option \<Rightarrow> string \<Rightarrow> string \<Rightarrow> string \<Rightarrow> handed" where
  "TUIC_NewPacketConnectionEx tag auth src dst network = RouteUDP ''tuic'' (fresh_context tag auth src dst network)"

definition Hysteria_NewConnectionEx :: "string \<Rightarrow> string option \<Rightarrow> string \<Rightarrow> string \<Rightarrow> string \<Rightarrow> handed" where
  "Hysteria_NewConnectionEx tag auth src dst network = RouteTCP ''hysteria'' (fresh_context tag auth src dst network)"

definition Hysteria_NewPacketConnectionEx :: "string \<Rightarrow> string option \<Rightarrow> string \<Rightarrow> string \<Rightarrow> string \<Rightarrow> handed" where
  "Hysteria_NewPacketConnectionEx tag auth src dst network = RouteUDP ''hysteria'' (fresh_context tag auth src dst network)"

definition Hysteria2_NewConnectionEx :: "string \<Rightarrow> string option \<Rightarrow> string \<Rightarrow> string \<Rightarrow> string \<Rightarrow> handed" where
  "Hysteria2_NewConnectionEx tag auth src dst network = RouteTCP ''hysteria2'' (fresh_context tag auth src dst network)"

definition Hysteria2_NewPacketConnectionEx :: "string \<Rightarrow> string option \<Rightarrow> string \<Rightarrow> string \<Rightarrow> string \<Rightarrow> handed" where
  "Hysteria2_NewPacketConnectionEx tag auth src dst network = RouteUDP ''hysteria2'' (fresh_context tag auth src dst network)"

definition AnyTLS_NewConnectionEx :: "string \<Rightarrow> string option \<Rightarrow> string \<Rightarrow> string \<Rightarrow> string \<Rightarrow> handed" where
  "AnyTLS_NewConnectionEx tag auth src dst network = RouteTCP ''anytls'' (fresh_context tag auth src dst network)"

text \<open>
  The connection of an unknown Trojan client; the protocol that TLS negotiated is empty when there was none, \<open>None\<close> when the
  connection is no TLS connection.
\<close>

definition Trojan_fallbackConnection :: "new_lib \<Rightarrow> ManagedInbound \<Rightarrow> string option \<Rightarrow> InboundContext \<Rightarrow> handed" where
  "Trojan_fallbackConnection N h negotiated m =
     (let disabled = Closed ''invalid argument'';
          route = (\<lambda>a. RouteTCP ''trojan'' (m\<lparr>ic_Inbound := mi_Tag h, ic_Destination := nl_Addr N a\<rparr>));
          default = (case mi_fallback h of None \<Rightarrow> disabled | Some a \<Rightarrow> if nl_Valid N a then route a else disabled)
      in if mi_fallbackALPN h = [] then default
         else (case negotiated of
             None \<Rightarrow> default
           | Some p \<Rightarrow>
               if p = [] then default
               else (case map_of (mi_fallbackALPN h) p of
                   None \<Rightarrow> disabled
                 | Some a \<Rightarrow> if nl_Valid N a then route a else default)))"

section \<open>From the service to the router\<close>

text \<open>The handler of an inbound for a user its service accepted, for a stream or for packets.\<close>

fun hand_over :: "new_lib \<Rightarrow> SingInbound \<Rightarrow> string \<Rightarrow> bool \<Rightarrow> string \<Rightarrow> InboundContext \<Rightarrow> handed" where
  "hand_over N (VLESSInbound s) tag tcp u m =
     (if tcp then VLESS_newConnectionEx tag (Some u) m else VLESS_newPacketConnectionEx (nl_PacketMagic N) tag (Some u) m)"
| "hand_over N (VMessInbound s) tag tcp u m =
     (if tcp then VMess_newConnectionEx tag (Some u) m else VMess_newPacketConnectionEx (nl_PacketMagic N) tag (Some u) m)"
| "hand_over N (TrojanInbound s) tag tcp u m =
     (if tcp then Trojan_newConnection tag (Some u) m else Trojan_newPacketConnection tag (Some u) m)"
| "hand_over N (SS2022Inbound s) tag tcp u m =
     (if tcp then SS_newConnection tag (Some u) m else SS_newPacketConnection tag (Some u) m)"
| "hand_over N (AEADInbound s) tag tcp u m =
     (if tcp then SS_newConnection tag (Some u) m else SS_newPacketConnection tag (Some u) m)"
| "hand_over N (TUICInbound s) tag tcp u m =
     (if tcp then TUIC_NewConnectionEx else TUIC_NewPacketConnectionEx) tag (Some u) (ic_Source m) (ic_Destination m) (ic_Network m)"
| "hand_over N (HysteriaInbound s) tag tcp u m =
     (if tcp then Hysteria_NewConnectionEx else Hysteria_NewPacketConnectionEx) tag (Some u) (ic_Source m) (ic_Destination m) (ic_Network m)"
| "hand_over N (Hysteria2Inbound s) tag tcp u m =
     (if tcp then Hysteria2_NewConnectionEx else Hysteria2_NewPacketConnectionEx) tag (Some u) (ic_Source m) (ic_Destination m) (ic_Network m)"
| "hand_over N (AnyTLSInbound s) tag tcp u m =
     AnyTLS_NewConnectionEx tag (Some u) (ic_Source m) (ic_Destination m) (ic_Network m)"

text \<open>The router gives a stream to one method of the tracker and packets to the other; the connection is
  passed on with its number \<open>i\<close>.\<close>

definition tracker ::
  "('rx \<Rightarrow> string \<Rightarrow> bool) \<Rightarrow> int \<Rightarrow> nat \<Rightarrow> handed \<Rightarrow> HookServer \<Rightarrow> 'rx limiters \<Rightarrow> routed \<times> HookServer \<times> 'rx limiters" where
  "tracker matches now i c h w = (case c of
     Closed e \<Rightarrow> (Refused, closeConn i h, w)
   | RouteTCP ty m \<Rightarrow> RoutedConnection matches now i m h w
   | RouteUDP ty m \<Rightarrow> RoutedPacketConnection matches now i m h w)"

lemmas handler_defs = VLESS_newConnectionEx_def VLESS_newPacketConnectionEx_def VMess_newConnectionEx_def
  VMess_newPacketConnectionEx_def Trojan_newConnection_def Trojan_newPacketConnection_def SS_newConnection_def
  SS_newPacketConnection_def TUIC_NewConnectionEx_def TUIC_NewPacketConnectionEx_def Hysteria_NewConnectionEx_def
  Hysteria_NewPacketConnectionEx_def Hysteria2_NewConnectionEx_def Hysteria2_NewPacketConnectionEx_def
  AnyTLS_NewConnectionEx_def with_user_def fresh_context_def packet_addr_def

fun handed_context :: "handed \<Rightarrow> InboundContext option" where
  "handed_context (Closed e) = None"
| "handed_context (RouteTCP ty m) = Some m"
| "handed_context (RouteUDP ty m) = Some m"

lemma hand_over_context:
  "\<exists>m'. handed_context (hand_over N inb tag tcp u m) = Some m' \<and> ic_Inbound m' = tag \<and> (u \<noteq> [] \<longrightarrow> ic_User m' = u)"
  by (cases inb) (simp_all add: handler_defs)

section \<open>What the tracker files\<close>

lemma hook_counter_tag:
  "map_of (hk_counter (snd (hook_counter tag h))) tag = Some (fst (hook_counter tag h))"
  by (simp add: hook_counter_def Let_def split: option.split)

lemma GetCounter_cell: "map_of (tc_Counters (snd (GetCounter u c))) u = Some (fst (GetCounter u c))"
  by (simp add: GetCounter_def Let_def split: option.split)

text \<open>A tracked connection writes to the cell of its user in the counter of its tag.\<close>

lemma track_filed:
  assumes "counters_ok h" and "track i m b h = (Tracked c k b', h')"
  shows "map_of (hk_counter h') (ic_Inbound m) = Some c" "map_of (tc_Counters (hk_counters h' ! c)) (ic_User m) = Some k"
proof -
  define h1 where "h1 = snd (hook_counter (ic_Inbound m) h)"
  have c: "c = fst (hook_counter (ic_Inbound m) h)" and k: "k = fst (GetCounter (ic_User m) (hk_counters h1 ! c))"
    and h': "h' = store_connection i (userKey (ic_Inbound m) (ic_User m)) (on_counter c (\<lambda>tc. snd (GetCounter (ic_User m) tc)) h1)"
    using assms(2) by (auto simp: track_def user_cell_def Let_def split_def h1_def)
  have t: "map_of (hk_counter h1) (ic_Inbound m) = Some c" by (simp add: h1_def c hook_counter_tag)
  with counters_ok_hook_counter [OF assms(1), of "ic_Inbound m"] have "c < length (hk_counters h1)"
    by (auto simp: counters_ok_def h1_def [symmetric])
  then show "map_of (hk_counter h') (ic_Inbound m) = Some c" "map_of (tc_Counters (hk_counters h' ! c)) (ic_User m) = Some k"
    by (simp_all add: h' t k store_connection_def on_counter_def GetCounter_cell)
qed

text \<open>Both kinds of connection, from the decision of the tracker to what it keeps.\<close>

lemma allowed_track: "allowed tag u (snd (track i m b h)) = allowed tag u h"
  by (simp add: allowed_def hook_simps)

lemma Routed_refuses:
  assumes "\<not> allowed (ic_Inbound m) (ic_User m) h"
  shows "RoutedConnection matches now i m h w = (Refused, closeConn i h, w)"
    and "RoutedPacketConnection matches now i m h w = (Refused, closeConn i h, w)"
  using assms by (simp_all add: RoutedConnection_def RoutedPacketConnection_def)

lemma Routed_tracks:
  "RoutedConnection matches now i m h w = (Tracked c k b, h', w') \<Longrightarrow> \<exists>b'. track i m b' h = (Tracked c k b, h')"
  "RoutedPacketConnection matches now i m h w = (Tracked c k b, h', w') \<Longrightarrow> \<exists>b'. track i m b' h = (Tracked c k b, h')"
proof -
  have a: "\<not> allowed (ic_Inbound m) (ic_User m) h \<Longrightarrow> False" if "allowed (ic_Inbound m) (ic_User m) h" using that by simp
  have t: "track i m b' h = (q, h1) \<Longrightarrow> allowed (ic_Inbound m) (ic_User m) h \<Longrightarrow> allowed (ic_Inbound m) (ic_User m) h1" for b' q h1
    using allowed_track [of "ic_Inbound m" "ic_User m" i m b' h] by simp
  show "RoutedConnection matches now i m h w = (Tracked c k b, h', w') \<Longrightarrow> \<exists>b'. track i m b' h = (Tracked c k b, h')"
    by (auto simp: RoutedConnection_def Let_def dest: t split: if_splits sum.splits prod.splits bool.splits)
  show "RoutedPacketConnection matches now i m h w = (Tracked c k b, h', w') \<Longrightarrow> \<exists>b'. track i m b' h = (Tracked c k b, h')"
    by (auto simp: RoutedPacketConnection_def Let_def dest: t split: if_splits sum.splits prod.splits bool.splits)
qed

lemma tracker_context:
  assumes "handed_context d = Some m"
  shows "tracker matches now i d h w = RoutedConnection matches now i m h w \<or>
    tracker matches now i d h w = RoutedPacketConnection matches now i m h w"
  using assms by (cases d) (simp_all add: tracker_def)

text \<open>A connection handed over for a user that is not active is closed, whenever the user logged in.\<close>

lemma inactive_is_refused:
  assumes "u \<noteq> []" and "mhas (hk_managedNodes h) tag" and "\<not> mhas (hk_activeUsers h) (userKey tag u)"
  shows "tracker matches now i (hand_over N inb tag tcp u m) h w = (Refused, closeConn i h, w)"
proof -
  obtain m' where m': "handed_context (hand_over N inb tag tcp u m) = Some m'" "ic_Inbound m' = tag" "ic_User m' = u"
    using hand_over_context [of N inb tag tcp u m] assms(1) by blast
  have "\<not> allowed (ic_Inbound m') (ic_User m') h" using assms by (simp add: allowed_def m')
  note Routed_refuses [OF this, of matches now i w]
  with tracker_context [OF m'(1), of matches now i h w] show ?thesis by (elim disjE) simp_all
qed

text \<open>C26: over the tables of an accepted update, whoever logs in with a name is a user of the update's list; its
  connections are closed at once unless the core has this user active under the inbound's tag, and a connection that is tracked is
  filed under this tag and user and counted in the user's cell of the tag's counter.\<close>

theorem login_reaches_tracker:
  assumes "SetManagedUsers D now us inb = (None, inb')" and "logged_in x inb' = Some u" and "u \<noteq> []"
    and "tracker matches now' i (hand_over N inb' tag tcp u m) h w = (r, h', w')"
    and "mhas (hk_managedNodes h) tag" and "counters_ok h"
  shows "u \<in> snd ` set (entries D us inb) \<and>
    (\<not> mhas (hk_activeUsers h) (userKey tag u) \<longrightarrow> r = Refused \<and> i \<in> hk_closed h') \<and>
    (\<forall>c k b. r = Tracked c k b \<longrightarrow> map_of (hk_connections h') i = Some (userKey tag u) \<and>
       map_of (hk_counter h') tag = Some c \<and> map_of (tc_Counters (hk_counters h' ! c)) u = Some k)"
proof -
  obtain m' where m': "handed_context (hand_over N inb' tag tcp u m) = Some m'" "ic_Inbound m' = tag" "ic_User m' = u"
    using hand_over_context [of N inb' tag tcp u m] assms(3) by blast
  note d = tracker_context [OF m'(1), of matches now' i h w]
  have "r = Refused \<and> i \<in> hk_closed h'" if "\<not> mhas (hk_activeUsers h) (userKey tag u)"
    using inactive_is_refused [OF assms(3,5) that, of matches now' i N inb' tcp m w] assms(4) by (simp add: closeConn_def)
  moreover have "map_of (hk_connections h') i = Some (userKey tag u) \<and>
       map_of (hk_counter h') tag = Some c \<and> map_of (tc_Counters (hk_counters h' ! c)) u = Some k" if r: "r = Tracked c k b" for c k b
  proof -
    from d assms(4) r have "RoutedConnection matches now' i m' h w = (Tracked c k b, h', w') \<or>
        RoutedPacketConnection matches now' i m' h w = (Tracked c k b, h', w')" by (elim disjE) simp_all
    then obtain b' where b': "track i m' b' h = (Tracked c k b, h')"
      by (elim disjE) (drule Routed_tracks(1), blast, drule Routed_tracks(2), blast)
    from track_filed [OF assms(6) this] track_simps(3) [of i m' b' h] b' m' show ?thesis by simp
  qed
  moreover have "u \<in> snd ` set (entries D us inb)"
    using SetManagedUsers_known [OF assms(1)] logged_in_known [OF assms(2) SetManagedUsers_legacy [OF assms(1)]] by blast
  ultimately show ?thesis by blast
qed

text \<open>A Hysteria client logs in while its user is active; its connection is counted.\<close>

definition identity_hook :: HookServer where
  "identity_hook = NewHookServer\<lparr>hk_managedNodes := [(''t'', True)], hk_activeUsers := [(userKey ''t'' ''a'', True)]\<rparr>"

definition identity_limiters :: "string limiters" where
  "identity_limiters = \<lparr>lw_heap = [newLimiter ''t'' (op_LimitConfig default_options) [sing_demo_user ''a'' 1] []], lw_map = [(''t'', 0)]\<rparr>"

definition identity_lib :: new_lib where
  "identity_lib = \<lparr>nl_TLS = (\<lambda>t k. Inr (it_Enabled t)), nl_Transport = (\<lambda>t c. Inr (vt_Type t \<noteq> [])), nl_Mux = (\<lambda>m. None),
     nl_Valid = (\<lambda>a. sv_Server a \<noteq> []), nl_Addr = sv_Server, nl_Padding = (\<lambda>s. True), nl_SS2022 = (\<lambda>m k. Inr 16),
     nl_List2022 = [''2022-blake3-aes-128-gcm'', ''2022-blake3-aes-256-gcm'', ''2022-blake3-chacha20-poly1305''],
     nl_ListAEAD = [''aes-128-gcm''], nl_MbpsToBps = 125000, nl_Gecko = (512, 1200, 1400), nl_PacketMagic = ''sp''\<rparr>"

definition identity_context :: InboundContext where
  "identity_context = \<lparr>ic_Inbound = [], ic_User = [], ic_Source = ''1.2.3.4'', ic_Destination = ''h'', ic_Network = ''tcp'', ic_Protocol = []\<rparr>"

definition identity_demo :: "routed \<times> HookServer \<times> string limiters" where
  "identity_demo = tracker HasPrefix 0 7 (hand_over identity_lib (HysteriaInbound [(''a'', ''a'')]) ''t'' True ''a'' identity_context)
     identity_hook identity_limiters"

theorem login_reaches_tracker_witness:
  "\<exists>c k b. fst identity_demo = Tracked c k b \<and> map_of (hk_connections (fst (snd identity_demo))) 7 = Some (userKey ''t'' ''a'')"
proof -
  let ?us = "HysteriaUsers [\<lparr>pw_Name = ''a'', pw_Password = ''a''\<rparr>]"
  have s: "SetManagedUsers sing_demo_digests 0 ?us (HysteriaInbound []) = (None, HysteriaInbound [(''a'', ''a'')])"
    "logged_in (HysteriaAttempt None (Inr ''a'') None) (HysteriaInbound [(''a'', ''a'')]) = Some ''a''" by code_simp+
  have d: "tracker HasPrefix 0 7 (hand_over identity_lib (HysteriaInbound [(''a'', ''a'')]) ''t'' True ''a'' identity_context)
     identity_hook identity_limiters = (fst identity_demo, fst (snd identity_demo), snd (snd identity_demo))"
    by (simp add: identity_demo_def)
  have m: "mhas (hk_managedNodes identity_hook) ''t''" "counters_ok identity_hook"
    by (simp_all add: identity_hook_def NewHookServer_def counters_ok_def mhas_def)
  have "case fst identity_demo of Tracked c k b \<Rightarrow> True | _ \<Rightarrow> False" by code_simp
  then obtain c k b where t: "fst identity_demo = Tracked c k b" by (auto split: routed.splits)
  from login_reaches_tracker [OF s _ d m] t show ?thesis by simp
qed

section \<open>The fallback of Trojan\<close>

text \<open>A connection that Trojan passes to its fallback has no user, and the tracker of a managed node closes a
  connection whose user is not active: the fallback that the core's options configure (core/sing/node.go) never
  serves anybody, whether it is chosen by ALPN or by default.\<close>

theorem trojan_fallback_is_refused:
  assumes "ic_User m = []" and "mhas (hk_managedNodes h) (mi_Tag inb)" and "\<not> mhas (hk_activeUsers h) (userKey (mi_Tag inb) [])"
  shows "\<exists>h' w'. tracker matches now i (Trojan_fallbackConnection N inb negotiated m) h w = (Refused, h', w') \<and> i \<in> hk_closed h'"
proof (cases "Trojan_fallbackConnection N inb negotiated m")
  case (Closed e)
  then show ?thesis by (simp add: tracker_def closeConn_def)
next
  case (RouteTCP ty m')
  then have "ic_Inbound m' = mi_Tag inb" "ic_User m' = []"
    using assms(1) by (auto simp: Trojan_fallbackConnection_def Let_def split: if_splits option.splits)
  then have "\<not> allowed (ic_Inbound m') (ic_User m') h" using assms by (simp add: allowed_def)
  from Routed_refuses(1) [OF this, of matches now i w] show ?thesis by (simp add: RouteTCP tracker_def closeConn_def)
next
  case (RouteUDP ty m')
  then show ?thesis by (auto simp: Trojan_fallbackConnection_def Let_def split: if_splits option.splits)
qed

text \<open>The inbound is built with a fallback, its node is served, and the fallback is asked for.\<close>

definition fallback_inbound :: "ManagedInbound res" where
  "fallback_inbound = NewInbound identity_lib sing_demo_digests 0 ''t''
     (TrojanInboundOptions \<lparr>ln_Listen = ''::'', ln_ListenPort = 443, ln_TCPFastOpen = False\<rparr> InboundTLSOptions_zero (transport_of_type [])
       None (Some \<lparr>sv_Server = ''web'', sv_ServerPort = 80\<rparr>) [])"

theorem trojan_fallback_is_refused_witness:
  "case fallback_inbound of
     Inl e \<Rightarrow> False
   | Inr inb \<Rightarrow> mi_fallback inb \<noteq> None \<and>
       (\<exists>h' w'. tracker HasPrefix 0 7 (Trojan_fallbackConnection identity_lib inb None identity_context) identity_hook identity_limiters
          = (Refused, h', w') \<and> 7 \<in> hk_closed h')"
proof -
  have "case fallback_inbound of Inl e \<Rightarrow> False | Inr inb \<Rightarrow> mi_fallback inb \<noteq> None \<and> mi_Tag inb = ''t''" by code_simp
  then obtain inb where i: "fallback_inbound = Inr inb" "mi_fallback inb \<noteq> None" "mi_Tag inb = ''t''" by (auto split: sum.splits)
  have "ic_User identity_context = []" "mhas (hk_managedNodes identity_hook) (mi_Tag inb)"
    "\<not> mhas (hk_activeUsers identity_hook) (userKey (mi_Tag inb) [])"
    unfolding i(3) by (simp_all add: identity_context_def identity_hook_def mhas_def userKey_def)
  from trojan_fallback_is_refused [OF this, of HasPrefix 0 7 identity_lib None identity_limiters] i(2)
  show ?thesis unfolding i(1) by simp
qed

end
