(* ===== verification/Quic_Sessions.thy ===== *)
theory Quic_Sessions
  imports Sing_Identity
begin

text \<open>
  The sessions of the QUIC services (runtime/patches, sing-quic: hysteria, hysteria2 and tuic, service.go): what their
  goroutines do to a session, step by step where they interleave, the answers that a stream carries, and the
  UDP associations.  Reading and writing a stream, the messages and the key material are the library's.
\<close>

section \<open>Answers of a stream\<close>

text \<open>
  A stream of Hysteria starts with one answer of the server.  \<open>sc_sent\<close> is what was written to it; \<open>sc_fail\<close>
  counts the writes that still succeed, \<open>None\<close> when all do.
\<close>

record serverConn =
  sc_responseWritten :: bool
  sc_sent :: string
  sc_fail :: "nat option"

definition stream_Write :: "string \<Rightarrow> serverConn \<Rightarrow> err option \<times> serverConn" where
  "stream_Write b c = (case sc_fail c of
     None \<Rightarrow> (None, c\<lparr>sc_sent := sc_sent c @ b\<rparr>)
   | Some 0 \<Rightarrow> (Some ''stream write'', c)
   | Some (Suc n) \<Rightarrow> (None, c\<lparr>sc_sent := sc_sent c @ b, sc_fail := Some n\<rparr>))"

definition mark_written :: "serverConn \<Rightarrow> serverConn" where
  "mark_written c = c\<lparr>sc_responseWritten := True\<rparr>"

text \<open>\<open>R\<close> writes an answer: whether it is positive, its message and the payload that follows.\<close>

definition Hy2_HandshakeFailure :: "(bool \<Rightarrow> string \<Rightarrow> string \<Rightarrow> string) \<Rightarrow> err \<Rightarrow> serverConn \<Rightarrow> err option \<times> serverConn" where
  "Hy2_HandshakeFailure R e c =
     (if sc_responseWritten c then (Some ''invalid argument'', c) else stream_Write (R False e []) (mark_written c))"

definition Hy2_HandshakeSuccess :: "(bool \<Rightarrow> string \<Rightarrow> string \<Rightarrow> string) \<Rightarrow> serverConn \<Rightarrow> err option \<times> serverConn" where
  "Hy2_HandshakeSuccess R c =
     (if sc_responseWritten c then (None, c) else stream_Write (R True [] []) (mark_written c))"

definition Hy2_Write :: "(bool \<Rightarrow> string \<Rightarrow> string \<Rightarrow> string) \<Rightarrow> string \<Rightarrow> serverConn \<Rightarrow> nat res \<times> serverConn" where
  "Hy2_Write R p c =
     (let (e, c) = (if sc_responseWritten c then stream_Write p c else stream_Write (R True [] p) (mark_written c))
      in (case e of Some e \<Rightarrow> Inl e | None \<Rightarrow> Inr (length p), c))"

text \<open>Hysteria writes the answer and the payload one after the other; \<open>R\<close> has no payload.\<close>

definition Hy_HandshakeFailure :: "(bool \<Rightarrow> string \<Rightarrow> string) \<Rightarrow> err \<Rightarrow> serverConn \<Rightarrow> err option \<times> serverConn" where
  "Hy_HandshakeFailure R e c =
     (if sc_responseWritten c then (Some ''invalid argument'', c) else stream_Write (R False e) (mark_written c))"

definition Hy_HandshakeSuccess :: "(bool \<Rightarrow> string \<Rightarrow> string) \<Rightarrow> serverConn \<Rightarrow> err option \<times> serverConn" where
  "Hy_HandshakeSuccess R c = (if sc_responseWritten c then (None, c) else stream_Write (R True []) (mark_written c))"

definition Hy_Write :: "(bool \<Rightarrow> string \<Rightarrow> string) \<Rightarrow> string \<Rightarrow> serverConn \<Rightarrow> nat res \<times> serverConn" where
  "Hy_Write R p c =
     (case (if sc_responseWritten c then (None, c) else stream_Write (R True []) (mark_written c)) of
        (Some e, c) \<Rightarrow> (Inl e, c)
      | (None, c) \<Rightarrow> (case stream_Write p c of (Some e, c) \<Rightarrow> (Inl e, c) | (None, c) \<Rightarrow> (Inr (length p), c)))"

text \<open>The calls the handler of a connection makes.\<close>

datatype answer = AnswerOk | AnswerError err | Payload string

fun hy2_answer :: "(bool \<Rightarrow> string \<Rightarrow> string \<Rightarrow> string) \<Rightarrow> answer \<Rightarrow> serverConn \<Rightarrow> serverConn" where
  "hy2_answer R AnswerOk c = snd (Hy2_HandshakeSuccess R c)"
| "hy2_answer R (AnswerError e) c = snd (Hy2_HandshakeFailure R e c)"
| "hy2_answer R (Payload p) c = snd (Hy2_Write R p c)"

fun hy_answer :: "(bool \<Rightarrow> string \<Rightarrow> string) \<Rightarrow> answer \<Rightarrow> serverConn \<Rightarrow> serverConn" where
  "hy_answer R AnswerOk c = snd (Hy_HandshakeSuccess R c)"
| "hy_answer R (AnswerError e) c = snd (Hy_HandshakeFailure R e c)"
| "hy_answer R (Payload p) c = snd (Hy_Write R p c)"

definition new_conn :: serverConn where
  "new_conn = \<lparr>sc_responseWritten = False, sc_sent = [], sc_fail = None\<rparr>"

text \<open>What a client reads: one answer, the one the first call gives, and the payloads in their order.\<close>

fun payload_of :: "answer \<Rightarrow> string" where
  "payload_of (Payload p) = p"
| "payload_of a = []"

fun wire :: "(bool \<Rightarrow> string \<Rightarrow> string \<Rightarrow> string) \<Rightarrow> answer list \<Rightarrow> string" where
  "wire R [] = []"
| "wire R (a # as) = (case a of AnswerError e \<Rightarrow> R False e [] | _ \<Rightarrow> R True [] (payload_of a)) @ concat (map payload_of as)"

lemma written_hy2:
  "sc_responseWritten c \<Longrightarrow> sc_fail c = None \<Longrightarrow>
   fold (hy2_answer R) as c = c\<lparr>sc_sent := sc_sent c @ concat (map payload_of as)\<rparr>"
proof (induction as arbitrary: c)
  case (Cons a as)
  then show ?case
    by (cases a) (simp_all add: Hy2_HandshakeSuccess_def Hy2_HandshakeFailure_def Hy2_Write_def stream_Write_def)
qed simp

lemma written_hy:
  "sc_responseWritten c \<Longrightarrow> sc_fail c = None \<Longrightarrow>
   fold (hy_answer R) as c = c\<lparr>sc_sent := sc_sent c @ concat (map payload_of as)\<rparr>"
proof (induction as arbitrary: c)
  case (Cons a as)
  then show ?case
    by (cases a) (simp_all add: Hy_HandshakeSuccess_def Hy_HandshakeFailure_def Hy_Write_def stream_Write_def)
qed simp

text \<open>Whatever a handler does with a stream of either Hysteria service, in any order, its client reads exactly one answer, that
  of the first call, and then the payloads in their order.\<close>

theorem one_answer_then_payload:
  "sc_sent (fold (hy2_answer R) as new_conn) = wire R as \<and>
   sc_sent (fold (hy_answer Q) as new_conn) = wire (\<lambda>ok m p. Q ok m @ p) as"
proof
  show "sc_sent (fold (hy2_answer R) as new_conn) = wire R as"
  proof (cases as)
    case (Cons a l)
    then show ?thesis
      by (cases a) (simp_all add: Hy2_HandshakeSuccess_def Hy2_HandshakeFailure_def Hy2_Write_def stream_Write_def
        mark_written_def new_conn_def written_hy2)
  qed (simp add: new_conn_def)
  show "sc_sent (fold (hy_answer Q) as new_conn) = wire (\<lambda>ok m p. Q ok m @ p) as"
  proof (cases as)
    case (Cons a l)
    then show ?thesis
      by (cases a) (simp_all add: Hy_HandshakeSuccess_def Hy_HandshakeFailure_def Hy_Write_def stream_Write_def
        mark_written_def new_conn_def written_hy)
  qed (simp add: new_conn_def)
qed

section \<open>The TUIC session\<close>

text \<open>
  A session while its streams run as goroutines.  The channel \<open>connDone\<close> is closed with an error, \<open>authDone\<close> by an
  authentication; closing a channel twice panics.  \<open>ts_pending\<close> holds the authentications between their check of
  \<open>authDone\<close> and their end, each with the tables it read when it started; \<open>ts_served\<close> records the calls of the handler,
  \<open>ts_accepted\<close> the identifier and the token of the client's messages that authenticated it.
\<close>

record tuic_session =
  ts_connErr :: "err option"
  ts_authDone :: bool
  ts_authUser :: string
  ts_pending :: "(nat, TUICService) gomap"
  ts_udp :: "(nat, nat) gomap"
  ts_udpClosed :: "nat set"
  ts_served :: "(string \<times> string) list"
  ts_accepted :: "(string \<times> string) list"
  ts_panic :: bool

definition new_tuic :: tuic_session where
  "new_tuic = \<lparr>ts_connErr = None, ts_authDone = False, ts_authUser = [], ts_pending = [], ts_udp = [], ts_udpClosed = {},
     ts_served = [], ts_accepted = [], ts_panic = False\<rparr>"

definition TUIC_closeWithError :: "err \<Rightarrow> tuic_session \<Rightarrow> tuic_session" where
  "TUIC_closeWithError e s = (case ts_connErr s of
     Some _ \<Rightarrow> s
   | None \<Rightarrow> s\<lparr>ts_connErr := Some e, ts_udp := [], ts_udpClosed := ts_udpClosed s \<union> snd ` set (ts_udp s)\<rparr>)"

text \<open>The part of an authentication between the check and its effect, over the tables read at the start.\<close>

definition tuic_verify ::
  "err option \<Rightarrow> (string \<Rightarrow> string \<Rightarrow> string res) \<Rightarrow> string \<Rightarrow> string \<Rightarrow> TUICService \<Rightarrow> string res" where
  "tuic_verify readRest token userUUID given t = (case readRest of
     Some e \<Rightarrow> Inl (''authentication: read request: '' @ e)
   | None \<Rightarrow> (case map_of (tqs_userMap t) userUUID of
       None \<Rightarrow> Inl (''authentication: unknown user '' @ userUUID)
     | Some user \<Rightarrow> (case token userUUID (mget_or [] (tqs_passwordMap t) user) of
         Inl e \<Rightarrow> Inl (''authentication: export keying material: '' @ e)
       | Inr k \<Rightarrow> if k \<noteq> given then Inl ''authentication: token mismatch'' else Inr user)))"

text \<open>\<open>s.authUser = user; close(s.authDone)\<close>\<close>

definition tuic_authenticated :: "nat \<Rightarrow> string \<Rightarrow> tuic_session \<Rightarrow> tuic_session" where
  "tuic_authenticated g user s = s\<lparr>ts_pending := mdel g (ts_pending s), ts_authUser := user,
     ts_authDone := True, ts_panic := ts_authDone s\<rparr>"

text \<open>The command to end an association; the message must not be longer than its number.\<close>

definition TUIC_dissociate :: "bool \<Rightarrow> nat res \<Rightarrow> tuic_session \<Rightarrow> err option \<times> tuic_session" where
  "TUIC_dissociate tooLong sessionID s =
     (if tooLong then (Some ''invalid dissociate message'', s)
      else (case sessionID of
          Inl e \<Rightarrow> (Some e, s)
        | Inr i \<Rightarrow> (case map_of (ts_udp s) i of
            None \<Rightarrow> (None, s)
          | Some c \<Rightarrow> (None, s\<lparr>ts_udpClosed := insert c (ts_udpClosed s), ts_udp := mdel i (ts_udp s)\<rparr>))))"

definition uni_result :: "err option \<times> tuic_session \<Rightarrow> tuic_session" where
  "uni_result r = (case fst r of None \<Rightarrow> snd r | Some e \<Rightarrow> TUIC_closeWithError (''handle uni stream: '' @ e) (snd r))"

text \<open>
  The steps.  \<open>T\<close> are the tables the service may have when a stream reads them, \<open>K\<close> the keying material of the connection
  for an identifier and a password.  A wait for \<open>connDone\<close> or \<open>authDone\<close>
  goes on with either when both are closed.  The reassembly of UDP messages is the library's: it may add an
  association.  Nothing happens after a panic.
\<close>

inductive tuic_step ::
  "(TUICService \<Rightarrow> bool) \<Rightarrow> (string \<Rightarrow> string \<Rightarrow> string res) \<Rightarrow> tuic_session \<Rightarrow> tuic_session \<Rightarrow> bool" for T K where
  auth_start: "\<not> ts_panic s \<Longrightarrow> \<not> ts_authDone s \<Longrightarrow> T t \<Longrightarrow> \<not> mhas (ts_pending s) g \<Longrightarrow>
    tuic_step T K s (s\<lparr>ts_pending := mput g t (ts_pending s)\<rparr>)"
| auth_again: "\<not> ts_panic s \<Longrightarrow> ts_authDone s \<Longrightarrow>
    tuic_step T K s (uni_result (Some ''authentication: multiple authentication requests'', s))"
| auth_ok: "\<not> ts_panic s \<Longrightarrow> map_of (ts_pending s) g = Some t \<Longrightarrow> tuic_verify rest K uuid given t = Inr user \<Longrightarrow>
    tuic_step T K s (tuic_authenticated g user (s\<lparr>ts_accepted := (uuid, given) # ts_accepted s\<rparr>))"
| auth_bad: "\<not> ts_panic s \<Longrightarrow> map_of (ts_pending s) g = Some t \<Longrightarrow> tuic_verify rest K uuid given t = Inl e \<Longrightarrow>
    tuic_step T K s (uni_result (Some e, s\<lparr>ts_pending := mdel g (ts_pending s)\<rparr>))"
| serve: "\<not> ts_panic s \<Longrightarrow> ts_authDone s \<Longrightarrow>
    tuic_step T K s (s\<lparr>ts_served := ts_served s @ [(ts_authUser s, destination)]\<rparr>)"
| packet: "\<not> ts_panic s \<Longrightarrow> ts_authDone s \<Longrightarrow> \<not> mhas (ts_udp s) i \<Longrightarrow>
    tuic_step T K s (s\<lparr>ts_udp := mput i c (ts_udp s), ts_served := ts_served s @ [(ts_authUser s, destination)]\<rparr>)"
| dissociate: "\<not> ts_panic s \<Longrightarrow> ts_authDone s \<Longrightarrow> tuic_step T K s (uni_result (TUIC_dissociate tooLong sessionID s))"
| auth_timeout: "\<not> ts_panic s \<Longrightarrow> \<not> ts_authDone s \<Longrightarrow> tuic_step T K s (TUIC_closeWithError ''authentication timeout'' s)"
| fail: "\<not> ts_panic s \<Longrightarrow> tuic_step T K s (TUIC_closeWithError e s)"

inductive tuic_reach :: "(TUICService \<Rightarrow> bool) \<Rightarrow> (string \<Rightarrow> string \<Rightarrow> string res) \<Rightarrow> tuic_session \<Rightarrow> bool" for T K where
  start: "tuic_reach T K new_tuic"
| more: "tuic_reach T K s \<Longrightarrow> tuic_step T K s s' \<Longrightarrow> tuic_reach T K s'"

text \<open>Read alone, the steps of an authentication are the handshake of the service.\<close>

lemma tuic_verify_authenticate:
  "qs_authUser q = None \<Longrightarrow> TUIC_authenticate readRest token userUUID given t q =
     (case tuic_verify readRest token userUUID given t of Inl e \<Rightarrow> (Some e, q) | Inr u \<Rightarrow> (None, q\<lparr>qs_authUser := Some u\<rparr>))"
  by (simp add: TUIC_authenticate_def tuic_verify_def split: option.split sum.split)

lemma tuic_verify_known: "tuic_verify r token uuid given t = Inr u \<Longrightarrow> u \<in> known (TUICInbound t)"
  using quic_login(3) [OF new_session_auth, of r token uuid given t u]
  by (simp add: tuic_verify_authenticate new_session_auth)

lemma TUIC_close_simps [simp]:
  "ts_authDone (TUIC_closeWithError e s) = ts_authDone s" "ts_authUser (TUIC_closeWithError e s) = ts_authUser s"
  "ts_pending (TUIC_closeWithError e s) = ts_pending s" "ts_served (TUIC_closeWithError e s) = ts_served s"
  "ts_panic (TUIC_closeWithError e s) = ts_panic s" "ts_accepted (TUIC_closeWithError e s) = ts_accepted s"
  by (simp_all add: TUIC_closeWithError_def split: option.split)

lemma TUIC_dissociate_simps [simp]:
  "ts_authDone (snd (TUIC_dissociate l i s)) = ts_authDone s" "ts_authUser (snd (TUIC_dissociate l i s)) = ts_authUser s"
  "ts_pending (snd (TUIC_dissociate l i s)) = ts_pending s" "ts_served (snd (TUIC_dissociate l i s)) = ts_served s"
  "ts_panic (snd (TUIC_dissociate l i s)) = ts_panic s" "ts_accepted (snd (TUIC_dissociate l i s)) = ts_accepted s"
  by (simp_all add: TUIC_dissociate_def split: option.split sum.split)

lemma uni_result_simps [simp]:
  "ts_authDone (uni_result r) = ts_authDone (snd r)" "ts_authUser (uni_result r) = ts_authUser (snd r)"
  "ts_pending (uni_result r) = ts_pending (snd r)" "ts_served (uni_result r) = ts_served (snd r)"
  "ts_panic (uni_result r) = ts_panic (snd r)" "ts_accepted (uni_result r) = ts_accepted (snd r)"
  by (simp_all add: uni_result_def split: option.split)

text \<open>The client knew the token of a user: its identifier in the tables, and the keying material for its password.\<close>

definition proved :: "TUICService \<Rightarrow> (string \<Rightarrow> string \<Rightarrow> string res) \<Rightarrow> (string \<times> string) list \<Rightarrow> string \<Rightarrow> bool" where
  "proved t K accepted u \<longleftrightarrow> (\<exists>(uuid, given) \<in> set accepted.
     map_of (tqs_userMap t) uuid = Some u \<and> K uuid (mget_or [] (tqs_passwordMap t) u) = Inr given)"

lemma tuic_verify_proves: "tuic_verify r K uuid given t = Inr u \<Longrightarrow> proved t K ((uuid, given) # l) u"
  by (auto simp: tuic_verify_def proved_def split: option.splits sum.splits if_splits)

definition tuic_ok :: "(TUICService \<Rightarrow> bool) \<Rightarrow> (string \<Rightarrow> string \<Rightarrow> string res) \<Rightarrow> tuic_session \<Rightarrow> bool" where
  "tuic_ok T K s \<longleftrightarrow> (\<forall>g t. map_of (ts_pending s) g = Some t \<longrightarrow> T t) \<and>
     (\<not> ts_panic s \<longrightarrow> (\<forall>c \<in> set (ts_served s). ts_authDone s \<and> fst c = ts_authUser s)) \<and>
     (ts_authDone s \<longrightarrow> (\<exists>t. T t \<and> ts_authUser s \<in> known (TUICInbound t) \<and> proved t K (ts_accepted s) (ts_authUser s)))"

lemma tuic_ok_step: "tuic_step T K s s' \<Longrightarrow> tuic_ok T K s \<Longrightarrow> tuic_ok T K s'"
  by (induction rule: tuic_step.induct)
     (auto simp: tuic_ok_def tuic_authenticated_def intro: tuic_verify_known tuic_verify_proves)

lemma tuic_ok_reach: "tuic_reach T K s \<Longrightarrow> tuic_ok T K s"
proof (induction rule: tuic_reach.induct)
  case start
  then show ?case by (simp add: tuic_ok_def new_tuic_def)
next
  case (more s s')
  then show ?case by (blast intro: tuic_ok_step)
qed

text \<open>C17: while a TUIC session lives, however its streams interleave, every call of the handler is made after an
  authentication and as the user whose token the client sent, a user of tables the service had; when this user is deleted from the core, the session
  goes on, but the tracker closes every connection it still hands over.\<close>

theorem tuic_serves_authenticated:
  assumes "tuic_reach T K s" and "\<not> ts_panic s" and "(u, d) \<in> set (ts_served s)"
  shows "ts_authDone s \<and> u = ts_authUser s \<and> (\<exists>t. T t \<and> u \<in> known (TUICInbound t) \<and> proved t K (ts_accepted s) u) \<and>
    (u \<noteq> [] \<longrightarrow> mhas (hk_managedNodes h) tag \<longrightarrow> \<not> mhas (hk_activeUsers h) (userKey tag u) \<longrightarrow>
       fst (tracker matches now i (hand_over N (TUICInbound t') tag tcp u m) h w) = Refused)"
proof -
  have "ts_authDone s \<and> u = ts_authUser s \<and> (\<exists>t. T t \<and> u \<in> known (TUICInbound t) \<and> proved t K (ts_accepted s) u)"
    using tuic_ok_reach [OF assms(1)] assms(2,3) unfolding tuic_ok_def by fastforce
  moreover have "fst (tracker matches now i (hand_over N (TUICInbound t') tag tcp u m) h w) = Refused"
    if "u \<noteq> []" "mhas (hk_managedNodes h) tag" "\<not> mhas (hk_activeUsers h) (userKey tag u)"
    using inactive_is_refused [OF that, of matches now i N "TUICInbound t'" tcp m w] by (simp del: hand_over.simps)
  ultimately show ?thesis by blast
qed

text \<open>One authentication, one stream.\<close>

definition tuic_demo_table :: TUICService where
  "tuic_demo_table = \<lparr>tqs_userMap = [(''id'', ''a'')], tqs_passwordMap = [(''a'', ''pw'')]\<rparr>"

definition tuic_demo_token :: "string \<Rightarrow> string \<Rightarrow> string res" where
  "tuic_demo_token uuid password = Inr (uuid @ password)"

lemma tuic_demo_verify: "tuic_verify None tuic_demo_token ''id'' ''idpw'' tuic_demo_table = Inr ''a''"
  by code_simp

definition tuic_demo :: tuic_session where
  "tuic_demo = \<lparr>ts_connErr = None, ts_authDone = True, ts_authUser = ''a'', ts_pending = [], ts_udp = [], ts_udpClosed = {},
     ts_served = [(''a'', ''h'')], ts_accepted = [(''id'', ''idpw'')], ts_panic = False\<rparr>"

lemma tuic_demo_reach: "tuic_reach (\<lambda>t. t = tuic_demo_table) tuic_demo_token tuic_demo"
proof -
  let ?T = "\<lambda>t. t = tuic_demo_table"
  let ?s1 = "new_tuic\<lparr>ts_pending := mput 0 tuic_demo_table (ts_pending new_tuic)\<rparr>"
  let ?s2 = "tuic_authenticated 0 ''a'' (?s1\<lparr>ts_accepted := (''id'', ''idpw'') # ts_accepted ?s1\<rparr>)"
  have 1: "tuic_step ?T tuic_demo_token new_tuic ?s1" by (rule auth_start) (simp_all add: new_tuic_def)
  have 2: "tuic_step ?T tuic_demo_token ?s1 ?s2" by (rule auth_ok [OF _ _ tuic_demo_verify]) (simp_all add: new_tuic_def)
  have 3: "tuic_step ?T tuic_demo_token ?s2 (?s2\<lparr>ts_served := ts_served ?s2 @ [(ts_authUser ?s2, ''h'')]\<rparr>)" (is "tuic_step ?T tuic_demo_token ?s2 ?s3")
    by (rule serve) (simp_all add: tuic_authenticated_def new_tuic_def)
  have "?s3 = tuic_demo" by (simp add: tuic_authenticated_def new_tuic_def tuic_demo_def)
  with tuic_reach.more [OF tuic_reach.more [OF tuic_reach.more [OF start 1] 2] 3] show ?thesis by simp
qed

theorem tuic_serves_authenticated_witness:
  "ts_authUser tuic_demo = ''a'' \<and>
   fst (tracker HasPrefix 0 7 (hand_over identity_lib (TUICInbound tuic_demo_table) ''t'' True ''a'' identity_context)
     (identity_hook\<lparr>hk_activeUsers := []\<rparr>) identity_limiters) = Refused"
proof -
  have p: "\<not> ts_panic tuic_demo" "(''a'', ''h'') \<in> set (ts_served tuic_demo)" by (simp_all add: tuic_demo_def)
  have h: "mhas (hk_managedNodes (identity_hook\<lparr>hk_activeUsers := []\<rparr>)) ''t''"
    "\<not> mhas (hk_activeUsers (identity_hook\<lparr>hk_activeUsers := []\<rparr>)) (userKey ''t'' ''a'')" by (simp_all add: identity_hook_def mhas_def)
  from tuic_serves_authenticated [OF tuic_demo_reach p,
      of "identity_hook\<lparr>hk_activeUsers := []\<rparr>" "''t''" HasPrefix 0 7 identity_lib tuic_demo_table True identity_context identity_limiters] h
  show ?thesis by (metis list.distinct(1))
qed

text \<open>Two streams that authenticate at the same time both pass the check of \<open>authDone\<close>, and the second to finish
  closes the channel again: whoever has the credentials of one user ends the process.\<close>

theorem tuic_double_authentication_panics:
  assumes "T t" and "tuic_verify rest K uuid given t = Inr user"
  shows "\<exists>s. tuic_reach T K s \<and> ts_panic s"
proof -
  let ?s1 = "new_tuic\<lparr>ts_pending := mput 0 t (ts_pending new_tuic)\<rparr>"
  let ?s2 = "?s1\<lparr>ts_pending := mput 1 t (ts_pending ?s1)\<rparr>"
  let ?s3 = "tuic_authenticated 0 user (?s2\<lparr>ts_accepted := (uuid, given) # ts_accepted ?s2\<rparr>)"
  let ?s4 = "tuic_authenticated 1 user (?s3\<lparr>ts_accepted := (uuid, given) # ts_accepted ?s3\<rparr>)"
  have 1: "tuic_step T K new_tuic ?s1" by (rule auth_start) (use assms(1) in \<open>simp_all add: new_tuic_def\<close>)
  have 2: "tuic_step T K ?s1 ?s2" by (rule auth_start) (use assms(1) in \<open>simp_all add: new_tuic_def mhas_def\<close>)
  have 3: "tuic_step T K ?s2 ?s3" by (rule auth_ok [OF _ _ assms(2)]) (simp_all add: new_tuic_def)
  have 4: "tuic_step T K ?s3 ?s4"
    by (rule auth_ok [OF _ _ assms(2)]) (simp_all add: new_tuic_def tuic_authenticated_def)
  have "tuic_reach T K ?s4"
    by (rule tuic_reach.more [OF tuic_reach.more [OF tuic_reach.more [OF tuic_reach.more [OF start 1] 2] 3] 4])
  moreover have "ts_panic ?s4" by (simp add: tuic_authenticated_def)
  ultimately show ?thesis by blast
qed

theorem tuic_double_authentication_panics_witness: "\<exists>s. tuic_reach (\<lambda>t. t = tuic_demo_table) tuic_demo_token s \<and> ts_panic s"
  by (rule tuic_double_authentication_panics [OF _ tuic_demo_verify]) simp

section \<open>The streams of a Hysteria 2 session\<close>

text \<open>
  What the HTTP/3 server offers the session first: whether it took the stream, and the user and destination it is
  served with.  \<open>seek\<close> is the result of skipping the frame type, \<open>request\<close> the destination that was read.
\<close>

definition Hysteria2_dispatchStream ::
  "bool \<Rightarrow> err option \<Rightarrow> err option \<Rightarrow> string res \<Rightarrow> quic_session \<Rightarrow> bool \<times> (string \<times> string) option" where
  "Hysteria2_dispatchStream isTCPRequest e seek request q = (case qs_authUser q of
     None \<Rightarrow> (False, None)
   | Some user \<Rightarrow>
       if e \<noteq> None then (False, None)
       else if \<not> isTCPRequest then (False, None)
       else (case seek of
           Some _ \<Rightarrow> (True, None)
         | None \<Rightarrow> (case request of Inl _ \<Rightarrow> (True, None) | Inr destination \<Rightarrow> (True, Some (user, destination)))))"

text \<open>A server that ignores the client's bandwidth and has one of its own refuses a client that asks for congestion control of its own: the
  answer is the masquerade's.  But the session is authenticated by then, and the client that goes on all the same is served.\<close>

theorem hysteria2_refused_client_is_served:
  assumes "hl_receiveBPS H > 0" and "hl_ignoreClientBandwidth H" and "map_of users auth = Some u" and "qs_authUser q = None"
    and "Hysteria2_ServeHTTP H True auth 0 users q = (a, brutal, q')"
  shows "a = Masquerade \<and> brutal = None \<and> Hysteria2_dispatchStream True None None (Inr d) q' = (True, Some (u, d)) \<and>
    fst (Hysteria2_ServeHTTP H True auth' rx users q') = StatusAuthOK"
proof -
  have "a = Masquerade \<and> brutal = None \<and> q' = q\<lparr>qs_authUser := Some u\<rparr>"
    using assms by (simp add: Hysteria2_ServeHTTP_def Let_def)
  then show ?thesis by (simp add: Hysteria2_dispatchStream_def Hysteria2_ServeHTTP_def)
qed

theorem hysteria2_refused_client_is_served_witness:
  "\<exists>q'. Hysteria2_ServeHTTP \<lparr>hl_sendBPS = 5, hl_receiveBPS = 5, hl_ignoreClientBandwidth = True\<rparr> True ''pw'' 0 [(''pw'', ''a'')] new_session
       = (Masquerade, None, q') \<and> Hysteria2_dispatchStream True None None (Inr ''h'') q' = (True, Some (''a'', ''h''))"
proof -
  let ?H = "\<lparr>hl_sendBPS = 5, hl_receiveBPS = 5, hl_ignoreClientBandwidth = True\<rparr>"
  have p: "hl_receiveBPS ?H > 0" "hl_ignoreClientBandwidth ?H" "map_of [(''pw'', ''a'')] ''pw'' = Some ''a''" by simp_all
  obtain a brutal q' where r: "Hysteria2_ServeHTTP ?H True ''pw'' 0 [(''pw'', ''a'')] new_session = (a, brutal, q')"
    by (cases "Hysteria2_ServeHTTP ?H True ''pw'' 0 [(''pw'', ''a'')] new_session")
  from hysteria2_refused_client_is_served [OF p new_session_auth r, of "''h''"] r show ?thesis by simp
qed

section \<open>The UDP associations of a Hysteria session\<close>

text \<open>
  Every UDP request gets the next number, a 32-bit counter, and its connection is filed under it; when the
  connection is closed it deletes the entry of its number.  \<open>hu_ids\<close> are the numbers of the open connections.
\<close>

record hy_udp =
  hu_sessionID :: nat
  hu_connMap :: "(nat, nat) gomap"
  hu_ids :: "(nat, nat) gomap"

definition Hysteria_closeUDP :: "nat \<Rightarrow> hy_udp \<Rightarrow> hy_udp" where
  "Hysteria_closeUDP c s = (case map_of (hu_ids s) c of
     None \<Rightarrow> s | Some i \<Rightarrow> s\<lparr>hu_connMap := mdel i (hu_connMap s), hu_ids := mdel c (hu_ids s)\<rparr>)"

text \<open>\<open>written\<close> tells whether the answer reached the client; otherwise the connection is closed again.\<close>

definition Hysteria_openUDP :: "nat \<Rightarrow> bool \<Rightarrow> hy_udp \<Rightarrow> hy_udp" where
  "Hysteria_openUDP c written s =
     (let i = (hu_sessionID s + 1) mod 2 ^ 32;
          s = s\<lparr>hu_sessionID := i, hu_connMap := mput i c (hu_connMap s), hu_ids := mput c i (hu_ids s)\<rparr>
      in if written then s else Hysteria_closeUDP c s)"

datatype hy_event = OpenUDP nat bool | CloseUDP nat

fun hy_step :: "hy_event \<Rightarrow> hy_udp \<Rightarrow> hy_udp" where
  "hy_step (OpenUDP c written) s = Hysteria_openUDP c written s"
| "hy_step (CloseUDP c) s = Hysteria_closeUDP c s"

definition new_udp :: hy_udp where
  "new_udp = \<lparr>hu_sessionID = 0, hu_connMap = [], hu_ids = []\<rparr>"

fun opened :: "hy_event list \<Rightarrow> nat list" where
  "opened [] = []"
| "opened (OpenUDP c w # es) = c # opened es"
| "opened (CloseUDP c # es) = opened es"

definition udp_ok :: "nat set \<Rightarrow> hy_udp \<Rightarrow> bool" where
  "udp_ok cs s \<longleftrightarrow> (\<forall>i c. map_of (hu_connMap s) i = Some c \<longleftrightarrow> map_of (hu_ids s) c = Some i) \<and>
     (\<forall>c i. map_of (hu_ids s) c = Some i \<longrightarrow> c \<in> cs \<and> i \<le> hu_sessionID s)"

lemma udp_ok_inj: "udp_ok cs s \<Longrightarrow> map_of (hu_ids s) c = Some i \<Longrightarrow> map_of (hu_ids s) d = Some i \<Longrightarrow> c = d"
  unfolding udp_ok_def by (metis option.inject)

lemma udp_ok_close: "udp_ok cs s \<Longrightarrow> udp_ok cs (Hysteria_closeUDP c s)"
  using udp_ok_inj [of cs s c] by (auto simp: udp_ok_def Hysteria_closeUDP_def split: option.split)

lemma udp_ok_open:
  assumes "udp_ok cs s" and "c \<notin> cs" and "hu_sessionID s + 1 < 2 ^ 32"
  shows "udp_ok (insert c cs) (Hysteria_openUDP c written s)" "hu_sessionID (Hysteria_openUDP c written s) = hu_sessionID s + 1"
proof -
  let ?i = "hu_sessionID s + 1"
  let ?s = "s\<lparr>hu_sessionID := ?i, hu_connMap := mput ?i c (hu_connMap s), hu_ids := mput c ?i (hu_ids s)\<rparr>"
  have fresh: "map_of (hu_ids s) c = None" "map_of (hu_connMap s) ?i = None"
  proof -
    show "map_of (hu_ids s) c = None" using assms(1,2) by (cases "map_of (hu_ids s) c") (auto simp: udp_ok_def)
    show "map_of (hu_connMap s) ?i = None" using assms(1) by (cases "map_of (hu_connMap s) ?i") (fastforce simp: udp_ok_def)+
  qed
  have ok: "udp_ok (insert c cs) ?s"
    using assms(1) fresh by (fastforce simp: udp_ok_def)
  have o: "Hysteria_openUDP c written s = (if written then ?s else Hysteria_closeUDP c ?s)"
    using assms(3) by (simp add: Hysteria_openUDP_def Let_def)
  show "udp_ok (insert c cs) (Hysteria_openUDP c written s)" using ok udp_ok_close by (simp add: o)
  show "hu_sessionID (Hysteria_openUDP c written s) = hu_sessionID s + 1"
    by (simp add: o Hysteria_closeUDP_def)
qed

lemma udp_ok_run:
  "udp_ok cs s \<Longrightarrow> distinct (opened es) \<Longrightarrow> set (opened es) \<inter> cs = {} \<Longrightarrow> hu_sessionID s + length (opened es) < 2 ^ 32 \<Longrightarrow>
   udp_ok (cs \<union> set (opened es)) (fold hy_step es s)"
proof (induction es arbitrary: s cs rule: opened.induct)
  case (2 c w es)
  then have c: "c \<notin> cs" "hu_sessionID s + 1 < 2 ^ 32" by auto
  note o = udp_ok_open [OF 2(2) c, of w]
  have "udp_ok (insert c cs \<union> set (opened es)) (fold hy_step es (Hysteria_openUDP c w s))"
    by (rule 2(1) [OF o(1)]) (use 2(3-5) o(2) in auto)
  then show ?case by simp
next
  case (3 c es)
  have "hu_sessionID (Hysteria_closeUDP c s) = hu_sessionID s" by (simp add: Hysteria_closeUDP_def split: option.split)
  with 3 show ?case by (simp add: udp_ok_close)
qed simp

text \<open>Over at most 4294967295 UDP requests, in any order of opening and closing, the connections of a Hysteria
  session are found exactly under their own numbers: none is overwritten, and closing one removes no other.\<close>

theorem hysteria_udp_exact:
  assumes "distinct (opened es)" and "length (opened es) < 2 ^ 32"
  shows "map_of (hu_connMap (fold hy_step es new_udp)) i = Some c \<longleftrightarrow> map_of (hu_ids (fold hy_step es new_udp)) c = Some i"
proof -
  have "udp_ok {} new_udp" by (simp add: udp_ok_def new_udp_def)
  from udp_ok_run [OF this assms(1)] assms(2) show ?thesis by (simp add: udp_ok_def new_udp_def)
qed

theorem hysteria_udp_exact_witness:
  "map_of (hu_connMap (fold hy_step [OpenUDP 7 True, OpenUDP 8 True, CloseUDP 7] new_udp)) 2 = Some 8 \<and>
   map_of (hu_ids (fold hy_step [OpenUDP 7 True, OpenUDP 8 True, CloseUDP 7] new_udp)) 7 = None"
proof -
  let ?es = "[OpenUDP 7 True, OpenUDP 8 True, CloseUDP 7]"
  have "map_of (hu_ids (fold hy_step ?es new_udp)) 8 = Some 2" "map_of (hu_ids (fold hy_step ?es new_udp)) 7 = None"
    by (simp_all add: Hysteria_openUDP_def Hysteria_closeUDP_def new_udp_def)
  moreover have "distinct (opened ?es)" "length (opened ?es) < 2 ^ 32" by simp_all
  ultimately show ?thesis using hysteria_udp_exact [of ?es 2 8] by simp
qed

text \<open>A stream of a session: refused, served as the session's user, or an association that is opened.\<close>

datatype hy_request = HyTCP string | HyUDP string
datatype hy_outcome = HyError err | HyServed string string | HyRefusedUDP | HyAssociation string string

definition Hysteria_handleStream :: "hy_request res \<Rightarrow> bool \<Rightarrow> nat \<Rightarrow> err option \<Rightarrow> string \<Rightarrow> hy_udp \<Rightarrow> hy_outcome \<times> hy_udp" where
  "Hysteria_handleStream request udpDisabled c written user s = (case request of
     Inl e \<Rightarrow> (HyError ''read TCP request'', s)
   | Inr (HyTCP d) \<Rightarrow> (HyServed user d, s)
   | Inr (HyUDP d) \<Rightarrow>
       if udpDisabled then (HyRefusedUDP, s)
       else (case written of
           Some e \<Rightarrow> (HyError e, Hysteria_openUDP c False s)
         | None \<Rightarrow> (HyAssociation user d, Hysteria_openUDP c True s)))"

text \<open>Only the session's user is served, and an association stays exactly when its answer was written.\<close>

lemma handleStream_outcome:
  assumes "Hysteria_handleStream request udpDisabled c written user s = (r, s')"
  shows "r = HyServed u d \<or> r = HyAssociation u d \<Longrightarrow> u = user"
    and "s' = s \<or> s' = hy_step (OpenUDP c (\<exists>d. r = HyAssociation user d)) s"
  using assms by (auto simp: Hysteria_handleStream_def split: sum.splits hy_request.splits if_splits option.splits)

end
