(* ===== verification/AnyTLS_Pool.thy ===== *)
theory AnyTLS_Pool
  imports V2bX_Prelude
begin

text \<open>
  The pool of idle sessions of an AnyTLS client (runtime/patches/anytls/session/client.go).  A stream takes the newest idle
  session or a new one, and gives it back when it dies.  Sessions are known by their sequence numbers.
  What happens under a lock is one step; the steps of several streams, of sessions that end, of the
  clean-up and of the client's end interleave.
\<close>

section \<open>The ordered map\<close>

text \<open>The skip list is ordered by \<open>MaxUint64 - seq\<close>: the newest session comes first.  An entry holds the time
  since which its session is idle.\<close>

type_synonym idle = "(nat \<times> int) list"

fun idle_Insert :: "nat \<Rightarrow> int \<Rightarrow> idle \<Rightarrow> idle" where
  "idle_Insert k t [] = [(k, t)]"
| "idle_Insert k t ((j, u) # l) = (if j < k then (k, t) # (j, u) # l else if j = k then (k, t) # l else (j, u) # idle_Insert k t l)"

definition idle_Remove :: "nat \<Rightarrow> idle \<Rightarrow> idle" where
  "idle_Remove k l = filter (\<lambda>(j, u). j \<noteq> k) l"

fun newest_first :: "idle \<Rightarrow> bool" where
  "newest_first [] = True"
| "newest_first ((k, t) # l) \<longleftrightarrow> (\<forall>(j, u) \<in> set l. j < k) \<and> newest_first l"

lemma idle_Insert_keys: "fst ` set (idle_Insert k t l) = insert k (fst ` set l)"
  by (induction k t l rule: idle_Insert.induct) auto

lemma idle_Insert_set: "set (idle_Insert k t l) \<subseteq> insert (k, t) (set l)"
  by (induction k t l rule: idle_Insert.induct) auto

lemma idle_Insert_newest: "newest_first l \<Longrightarrow> newest_first (idle_Insert k t l)"
proof (induction k t l rule: idle_Insert.induct)
  case (2 k t j u l)
  then show ?case using idle_Insert_set [of k t l] by (fastforce split: if_splits)
qed simp

lemma newest_first_filter: "newest_first l \<Longrightarrow> newest_first (filter P l)"
  by (induction l rule: newest_first.induct) auto

lemma newest_first_distinct: "newest_first l \<Longrightarrow> distinct (map fst l)"
  by (induction l rule: newest_first.induct) auto

section \<open>The clean-up\<close>

text \<open>The sessions that stay, with the times they are idle since, and those that are closed.\<close>

fun idleCleanup :: "int \<Rightarrow> int \<Rightarrow> int \<Rightarrow> int \<Rightarrow> idle \<Rightarrow> idle \<times> nat list" where
  "idleCleanup now expTime least active [] = ([], [])"
| "idleCleanup now expTime least active ((k, t) # l) =
     (if \<not> t < expTime then apfst (Cons (k, t)) (idleCleanup now expTime least (active + 1) l)
      else if active < least then apfst (Cons (k, now)) (idleCleanup now expTime least (active + 1) l)
      else apsnd (Cons k) (idleCleanup now expTime least active l))"

definition idleCleanupExpTime :: "int \<Rightarrow> int \<Rightarrow> int \<Rightarrow> idle \<Rightarrow> idle \<times> nat list" where
  "idleCleanupExpTime now expTime least l = idleCleanup now expTime least 0 l"

lemma cleanup_partition:
  "idleCleanup now e least a l = (kept, dropped) \<Longrightarrow>
   fst ` set l = fst ` set kept \<union> set dropped \<and> length l = length kept + length dropped \<and>
   (\<forall>k t. (k, t) \<in> set l \<longrightarrow> \<not> t < e \<longrightarrow> (k, t) \<in> set kept) \<and>
   (\<forall>k. k \<in> set dropped \<longrightarrow> (\<exists>t. (k, t) \<in> set l \<and> t < e)) \<and> (\<forall>k t. (k, t) \<in> set kept \<longrightarrow> (k, t) \<in> set l \<or> t = now)"
proof (induction now e least a l arbitrary: kept dropped rule: idleCleanup.induct)
  case (2 now e least a k t l)
  show ?case
  proof (cases "\<not> t < e")
    case True
    with 2(4) obtain kept' where "idleCleanup now e least (a + 1) l = (kept', dropped)" "kept = (k, t) # kept'"
      by (cases "idleCleanup now e least (a + 1) l") auto
    with 2(1) [OF True] show ?thesis by auto
  next
    case False
    show ?thesis
    proof (cases "a < least")
      case True
      with False 2(4) obtain kept' where "idleCleanup now e least (a + 1) l = (kept', dropped)" "kept = (k, now) # kept'"
        by (cases "idleCleanup now e least (a + 1) l") auto
      with 2(2) [OF _ True] False show ?thesis by auto
    next
      case f: False
      with False 2(4) obtain dropped' where "idleCleanup now e least a l = (kept, dropped')" "dropped = k # dropped'"
        by (cases "idleCleanup now e least a l") auto
      with 2(3) [OF _ f] False show ?thesis by auto
    qed
  qed
qed simp

lemma cleanup_keeps_least:
  "idleCleanup now e least a l = (kept, dropped) \<Longrightarrow> dropped \<noteq> [] \<Longrightarrow> least \<le> a + int (length kept)"
proof (induction now e least a l arbitrary: kept dropped rule: idleCleanup.induct)
  case (2 now e least a k t l)
  show ?case
  proof (cases "\<not> t < e \<or> a < least")
    case True
    with 2(4) obtain kept' where k: "idleCleanup now e least (a + 1) l = (kept', dropped)" "length kept = Suc (length kept')"
      by (cases "idleCleanup now e least (a + 1) l") (auto split: if_splits)
    have "least \<le> a + 1 + int (length kept')"
      using 2(1) [OF _ k(1) 2(5)] 2(2) [OF _ _ k(1) 2(5)] True by blast
    with k(2) show ?thesis by simp
  next
    case False
    then have "least \<le> a" by simp
    then show ?thesis by simp
  qed
qed simp

lemma cleanup_drops_older:
  "idleCleanup now e least a l = (kept, dropped) \<Longrightarrow> newest_first l \<Longrightarrow> k \<in> set dropped \<Longrightarrow>
   least \<le> a + int (length (filter (\<lambda>(j, t). k < j) kept))"
proof (induction now e least a l arbitrary: kept dropped rule: idleCleanup.induct)
  case (2 now e least a j t l)
  have older: "k \<in> set d \<Longrightarrow> idleCleanup now e least b l = (r, d) \<Longrightarrow> k < j" for b r d
    using cleanup_partition [of now e least b l r d] 2(5) by fastforce
  show ?case
  proof (cases "\<not> t < e \<or> a < least")
    case True
    with 2(4) obtain kept' u where k: "idleCleanup now e least (a + 1) l = (kept', dropped)" "kept = (j, u) # kept'"
      by (cases "idleCleanup now e least (a + 1) l") (auto split: if_splits)
    have "newest_first l" using 2(5) by simp
    with 2(1) [OF _ k(1) _ 2(6)] 2(2) [OF _ _ k(1) _ 2(6)] True
    have "least \<le> a + 1 + int (length (filter (\<lambda>(j, t). k < j) kept'))" by blast
    with older [OF 2(6) k(1)] show ?thesis by (simp add: k(2))
  next
    case False
    then show ?thesis by simp
  qed
qed simp

lemma cleanup_newest: "idleCleanup now e least a l = (kept, dropped) \<Longrightarrow> newest_first l \<Longrightarrow> newest_first kept"
proof (induction now e least a l arbitrary: kept dropped rule: idleCleanup.induct)
  case (2 now e least a j t l)
  have sub: "idleCleanup now e least b l = (r, d) \<Longrightarrow> fst ` set r \<subseteq> fst ` set l" for b r d
    using cleanup_partition [of now e least b l r d] by auto
  have n: "\<forall>(i, u) \<in> set r. i < j" if "idleCleanup now e least b l = (r, d)" for b r d
    using sub [OF that] 2(5) by fastforce
  show ?case
  proof (cases "\<not> t < e \<or> a < least")
    case True
    with 2(4) obtain kept' u where k: "idleCleanup now e least (a + 1) l = (kept', dropped)" "kept = (j, u) # kept'"
      by (cases "idleCleanup now e least (a + 1) l") (auto split: if_splits)
    have "newest_first kept'" using 2(1) [OF _ k(1)] 2(2) [OF _ _ k(1)] 2(5) True by auto
    with n [OF k(1)] k(2) show ?thesis by simp
  next
    case False
    with 2(4) obtain d where "idleCleanup now e least a l = (kept, d)"
      by (cases "idleCleanup now e least a l") (auto split: if_splits)
    with 2(3) [OF _ _ this] 2(5) False show ?thesis by simp
  qed
qed simp

text \<open>The clean-up closes only sessions that were idle too long, and one of them only when at least the least number of
  newer ones stays; it keeps every other session.\<close>

theorem idle_cleanup_outcome:
  assumes "newest_first l" and "idleCleanupExpTime now expTime least l = (kept, dropped)"
  shows "(k \<in> fst ` set l \<longleftrightarrow> k \<in> fst ` set kept \<or> k \<in> set dropped) \<and> length l = length kept + length dropped \<and>
    (k \<in> set dropped \<longrightarrow> (\<exists>t. (k, t) \<in> set l \<and> t < expTime) \<and> least \<le> int (length (filter (\<lambda>(j, t). k < j) kept))) \<and>
    ((k, t) \<in> set l \<longrightarrow> \<not> t < expTime \<longrightarrow> (k, t) \<in> set kept)"
proof -
  have c: "idleCleanup now expTime least 0 l = (kept, dropped)" using assms(2) by (simp add: idleCleanupExpTime_def)
  note p = cleanup_partition [OF c]
  have "k \<in> set dropped \<Longrightarrow> least \<le> int (length (filter (\<lambda>(j, t). k < j) kept))"
    using cleanup_drops_older [OF c assms(1)] by simp
  with p show ?thesis by (intro conjI impI) (simp, simp, blast, simp, simp)
qed

theorem idle_cleanup_outcome_witness:
  "idleCleanupExpTime 100 70 1 [(5, 10), (4, 90), (2, 30)] = ([(5, 100), (4, 90)], [2]) \<and>
   1 \<le> int (length (filter (\<lambda>(j, t). 2 < j) [(5 :: nat, 100 :: int), (4, 90)]))"
proof -
  have n: "newest_first [(5, 10), (4, 90), (2, 30)]"
    "idleCleanupExpTime 100 70 1 [(5, 10), (4, 90), (2, 30)] = ([(5, 100), (4, 90)], [2])" by code_simp+
  from idle_cleanup_outcome [OF n, of 2] n(2) show ?thesis by simp
qed

section \<open>The pool\<close>

text \<open>
  Where a stream that uses a session is: its session is handed over and the stream is being opened, it is served, or it died
  and its hook has found neither session nor client closed and is about to insert the session.
\<close>

datatype use = Opening | Serving | Returning

text \<open>
  \<open>po_starting\<close> counts the callers of \<open>CreateStream\<close> that passed the check of the client, \<open>po_dialing\<close> those that found
  no idle session.  \<open>po_uses\<close> lists the streams with their sessions, \<open>po_dropped\<close> the sessions that a clean-up
  or the end of the client is about to close.
\<close>

record pool =
  po_die :: bool
  po_counter :: nat
  po_idle :: idle
  po_sessions :: "nat list"
  po_closed :: "nat set"
  po_starting :: nat
  po_dialing :: nat
  po_uses :: "(nat \<times> use) list"
  po_dropped :: "nat list"

definition new_pool :: pool where
  "new_pool = \<lparr>po_die = False, po_counter = 0, po_idle = [], po_sessions = [], po_closed = {}, po_starting = 0, po_dialing = 0,
     po_uses = [], po_dropped = []\<rparr>"

definition drop_use :: "nat \<Rightarrow> pool \<Rightarrow> pool" where
  "drop_use k s = s\<lparr>po_uses := filter (\<lambda>(j, u). j \<noteq> k) (po_uses s)\<rparr>"

definition set_use :: "nat \<Rightarrow> use \<Rightarrow> pool \<Rightarrow> pool" where
  "set_use k u s = s\<lparr>po_uses := map (\<lambda>(j, v). (j, if j = k then u else v)) (po_uses s)\<rparr>"

text \<open>The newest idle session, taken out of the pool.\<close>

fun getIdleSession :: "idle \<Rightarrow> nat option \<times> idle" where
  "getIdleSession [] = (None, [])"
| "getIdleSession ((k, t) # l) = (Some k, idle_Remove k ((k, t) # l))"

definition take_session :: "pool \<Rightarrow> pool" where
  "take_session s = (case getIdleSession (po_idle s) of
     (None, l) \<Rightarrow> s\<lparr>po_starting := po_starting s - 1, po_dialing := po_dialing s + 1\<rparr>
   | (Some k, l) \<Rightarrow> s\<lparr>po_starting := po_starting s - 1, po_idle := l, po_uses := (k, Opening) # po_uses s\<rparr>)"

definition createSession :: "pool \<Rightarrow> pool" where
  "createSession s = (let k = po_counter s + 1 in s\<lparr>po_dialing := po_dialing s - 1, po_counter := k,
     po_sessions := k # po_sessions s, po_uses := (k, Opening) # po_uses s\<rparr>)"

text \<open>A session that ends takes itself out of the pool and of the client's table, once.\<close>

definition close_session :: "nat \<Rightarrow> pool \<Rightarrow> pool" where
  "close_session k s = (if k \<in> po_closed s then s else s\<lparr>po_closed := insert k (po_closed s),
     po_idle := idle_Remove k (po_idle s), po_sessions := removeAll k (po_sessions s)\<rparr>)"

text \<open>The hook of a stream that died.\<close>

definition stream_died :: "nat \<Rightarrow> pool \<Rightarrow> pool" where
  "stream_died k s = (if k \<in> po_closed s then drop_use k s
     else if po_die s then drop_use k (s\<lparr>po_dropped := k # po_dropped s\<rparr>) else set_use k Returning s)"

definition insert_idle :: "nat \<Rightarrow> int \<Rightarrow> pool \<Rightarrow> pool" where
  "insert_idle k now s = drop_use k (s\<lparr>po_idle := idle_Insert k now (po_idle s)\<rparr>)"

definition client_Close :: "pool \<Rightarrow> pool" where
  "client_Close s = s\<lparr>po_die := True, po_dropped := po_sessions s @ po_dropped s, po_sessions := []\<rparr>"

definition clean_up :: "int \<Rightarrow> int \<Rightarrow> int \<Rightarrow> pool \<Rightarrow> pool" where
  "clean_up now expTime least s = (case idleCleanupExpTime now expTime least (po_idle s) of
     (kept, dropped) \<Rightarrow> s\<lparr>po_idle := kept, po_dropped := dropped @ po_dropped s\<rparr>)"

inductive pool_step :: "pool \<Rightarrow> pool \<Rightarrow> bool" where
  p_enter: "\<not> po_die s \<Longrightarrow> pool_step s (s\<lparr>po_starting := po_starting s + 1\<rparr>)"
| p_take: "po_starting s > 0 \<Longrightarrow> pool_step s (take_session s)"
| p_dial_fails: "po_dialing s > 0 \<Longrightarrow> pool_step s (s\<lparr>po_dialing := po_dialing s - 1\<rparr>)"
| p_create: "po_dialing s > 0 \<Longrightarrow> pool_step s (createSession s)"
| p_open: "(k, Opening) \<in> set (po_uses s) \<Longrightarrow> k \<notin> po_closed s \<Longrightarrow> pool_step s (set_use k Serving s)"
| p_open_fails: "(k, Opening) \<in> set (po_uses s) \<Longrightarrow> pool_step s (drop_use k (close_session k s))"
| p_died: "(k, Serving) \<in> set (po_uses s) \<Longrightarrow> pool_step s (stream_died k s)"
| p_insert: "(k, Returning) \<in> set (po_uses s) \<Longrightarrow> pool_step s (insert_idle k now s)"
| p_session_ends: "k \<le> po_counter s \<Longrightarrow> pool_step s (close_session k s)"
| p_dropped: "po_dropped s = k # ks \<Longrightarrow> pool_step s (close_session k (s\<lparr>po_dropped := ks\<rparr>))"
| p_clean: "pool_step s (clean_up now expTime least s)"
| p_close: "\<not> po_die s \<Longrightarrow> pool_step s (client_Close s)"

inductive pool_reach :: "pool \<Rightarrow> bool" where
  p_init: "pool_reach new_pool"
| p_more: "pool_reach s \<Longrightarrow> pool_step s s' \<Longrightarrow> pool_reach s'"

text \<open>The invariant: streams and pool share no session, and no session has two streams.\<close>

definition pool_ok :: "pool \<Rightarrow> bool" where
  "pool_ok s \<longleftrightarrow> newest_first (po_idle s) \<and> distinct (map fst (po_uses s)) \<and>
     fst ` set (po_uses s) \<inter> fst ` set (po_idle s) = {} \<and>
     (\<forall>k \<in> fst ` set (po_uses s) \<union> fst ` set (po_idle s). k \<le> po_counter s)"

lemma map_fst_set_use: "map fst (po_uses (set_use k u s)) = map fst (po_uses s)"
  by (simp add: set_use_def comp_def split_def)

lemma fst_set_use: "fst ` set (po_uses (set_use k u s)) = fst ` set (po_uses s)"
  by (force simp: set_use_def)

lemma drop_use_keys: "fst ` set (po_uses (drop_use k s)) = fst ` set (po_uses s) - {k}"
  by (force simp: drop_use_def)

lemma drop_use_distinct: "distinct (map fst (po_uses s)) \<Longrightarrow> distinct (map fst (po_uses (drop_use k s)))"
  by (simp add: drop_use_def distinct_map_filter)

lemma drop_use_fields [simp]: "po_idle (drop_use k s) = po_idle s" "po_counter (drop_use k s) = po_counter s"
  by (simp_all add: drop_use_def)

lemma idle_Remove_keys: "fst ` set (idle_Remove k l) = fst ` set l - {k}"
  by (force simp: idle_Remove_def)

lemma pool_ok_drop: "pool_ok s \<Longrightarrow> pool_ok (drop_use k s)"
  unfolding pool_ok_def drop_use_keys by (auto intro: drop_use_distinct)

lemma pool_ok_set: "pool_ok s \<Longrightarrow> pool_ok (set_use k u s)"
  unfolding pool_ok_def fst_set_use map_fst_set_use by (simp add: set_use_def)

lemma pool_ok_close: "pool_ok s \<Longrightarrow> pool_ok (close_session k s)"
proof -
  assume ok: "pool_ok s"
  have "newest_first (idle_Remove k (po_idle s))"
    using ok by (simp add: pool_ok_def idle_Remove_def newest_first_filter)
  with ok idle_Remove_keys [of k "po_idle s"] show ?thesis
    unfolding pool_ok_def close_session_def by auto
qed

lemma pool_ok_step: "pool_step s s' \<Longrightarrow> pool_ok s \<Longrightarrow> pool_ok s'"
proof (induction rule: pool_step.induct)
  case (p_take s)
  show ?case
  proof (cases "po_idle s")
    case (Cons p l)
    then obtain k t where p: "po_idle s = (k, t) # l" by (cases p) simp
    then have l: "idle_Remove k ((k, t) # l) = l"
      using p_take(2) by (auto simp: pool_ok_def idle_Remove_def filter_id_conv)
    show ?thesis using p_take(2) p l by (auto simp: pool_ok_def take_session_def)
  qed (use p_take(2) in \<open>simp add: pool_ok_def take_session_def\<close>)
next
  case (p_create s)
  then have "Suc (po_counter s) \<notin> fst ` set (po_uses s)" "Suc (po_counter s) \<notin> fst ` set (po_idle s)"
    unfolding pool_ok_def using Suc_n_not_le_n by blast+
  with p_create show ?case by (auto simp: pool_ok_def createSession_def Let_def le_SucI)
next
  case (p_insert k s now)
  have k: "k \<in> fst ` set (po_uses s)" using p_insert(1) by force
  have u: "po_uses (s\<lparr>po_idle := l\<rparr>) = po_uses s" for l by simp
  from p_insert(2) k show ?case
    unfolding pool_ok_def insert_idle_def drop_use_keys drop_use_fields u
    by (auto simp: idle_Insert_keys intro!: drop_use_distinct idle_Insert_newest)
next
  case (p_clean s now expTime least)
  obtain kept dropped where c: "idleCleanupExpTime now expTime least (po_idle s) = (kept, dropped)" by force
  then have "idleCleanup now expTime least 0 (po_idle s) = (kept, dropped)" by (simp add: idleCleanupExpTime_def)
  note k = cleanup_partition [OF this] cleanup_newest [OF this]
  show ?case using p_clean k c unfolding pool_ok_def clean_up_def by auto
next
  case (p_open_fails k s)
  then show ?case by (simp add: pool_ok_drop pool_ok_close)
next
  case (p_died k s)
  have "pool_ok (s\<lparr>po_dropped := k # po_dropped s\<rparr>)" using p_died(2) by (simp add: pool_ok_def)
  with p_died(2) show ?case by (simp add: stream_died_def pool_ok_drop pool_ok_set)
next
  case (p_dropped s k ks)
  have "pool_ok (s\<lparr>po_dropped := ks\<rparr>)" using p_dropped(2) by (simp add: pool_ok_def)
  then show ?case by (rule pool_ok_close)
qed (simp_all add: pool_ok_set pool_ok_close, simp_all add: pool_ok_def client_Close_def)

lemma pool_ok_reach: "pool_reach s \<Longrightarrow> pool_ok s"
proof (induction rule: pool_reach.induct)
  case p_init
  then show ?case by (simp add: pool_ok_def new_pool_def)
next
  case (p_more s s')
  then show ?case by (blast intro: pool_ok_step)
qed

text \<open>C13: under every interleaving, no session carries two streams of the pool at once, and the pool offers no session that
  a stream still uses.\<close>

theorem session_has_one_stream:
  assumes "pool_reach s"
  shows "distinct (map fst (po_uses s)) \<and> fst ` set (po_uses s) \<inter> fst ` set (po_idle s) = {} \<and> distinct (map fst (po_idle s))"
  using pool_ok_reach [OF assms] newest_first_distinct by (simp add: pool_ok_def)

text \<open>A stream dies, its session is given back and taken again.\<close>

definition pool_demo1 :: pool where
  "pool_demo1 = createSession (take_session (new_pool\<lparr>po_starting := 1\<rparr>))"

definition pool_demo2 :: pool where
  "pool_demo2 = stream_died 1 (set_use 1 Serving pool_demo1)"

lemma pool_demo1_reach: "pool_reach pool_demo1"
proof -
  have 1: "pool_step new_pool (new_pool\<lparr>po_starting := po_starting new_pool + 1\<rparr>)" by (rule p_enter) (simp add: new_pool_def)
  have e: "new_pool\<lparr>po_starting := po_starting new_pool + 1\<rparr> = new_pool\<lparr>po_starting := 1\<rparr>" by (simp add: new_pool_def)
  have 2: "pool_step (new_pool\<lparr>po_starting := 1\<rparr>) (take_session (new_pool\<lparr>po_starting := 1\<rparr>))" by (rule p_take) simp
  have 3: "pool_step (take_session (new_pool\<lparr>po_starting := 1\<rparr>)) pool_demo1"
    unfolding pool_demo1_def by (rule p_create) code_simp
  show ?thesis using p_more [OF p_more [OF p_more [OF p_init 1, unfolded e] 2] 3] .
qed

lemma pool_demo2_reach: "pool_reach pool_demo2"
proof -
  have 4: "pool_step pool_demo1 (set_use 1 Serving pool_demo1)" by (rule p_open) code_simp+
  have 5: "pool_step (set_use 1 Serving pool_demo1) pool_demo2" unfolding pool_demo2_def by (rule p_died) code_simp
  show ?thesis by (rule p_more [OF p_more [OF pool_demo1_reach 4] 5])
qed

theorem session_has_one_stream_witness:
  "distinct (map fst (po_uses (insert_idle 1 5 pool_demo2))) \<and> po_idle (insert_idle 1 5 pool_demo2) = [(1, 5)]"
proof -
  have "pool_step pool_demo2 (insert_idle 1 5 pool_demo2)" by (rule p_insert) code_simp
  note s = session_has_one_stream [OF p_more [OF pool_demo2_reach this]]
  have "po_idle (insert_idle 1 5 pool_demo2) = [(1, 5)]" by code_simp
  with s show ?thesis by simp
qed

text \<open>The hook of a dead stream checks its session before it takes the lock of the pool: a session that ends in between has
  removed itself too early and stays in the pool, and the next stream is given a closed session and fails.\<close>

lemma closed_session_in_pool: "\<exists>s. pool_reach s \<and> 1 \<in> po_closed s \<and> fst (getIdleSession (po_idle s)) = Some 1"
proof -
  let ?s = "insert_idle 1 5 (close_session 1 pool_demo2)"
  have 6: "pool_step pool_demo2 (close_session 1 pool_demo2)" by (rule p_session_ends) code_simp
  have 7: "pool_step (close_session 1 pool_demo2) ?s" by (rule p_insert) code_simp
  have "pool_reach ?s" by (rule p_more [OF p_more [OF pool_demo2_reach 6] 7])
  moreover have "1 \<in> po_closed ?s" "fst (getIdleSession (po_idle ?s)) = Some 1" by code_simp+
  ultimately show ?thesis by blast
qed

end
