(* ===== verification/Server_Reload.thy ===== *)
theory Server_Reload
  imports Node_List Conf_Decode
begin

text \<open>
  The server command (runtime/cmd/server.go) and the watcher of the configuration file (runtime/conf/watch.go): the start of core and
  nodes, the reload that a change of the file causes, and when the file is read.  The file, its decoder and the dispatch of the
  core's methods are parameters; a panic ends the process.
\<close>

section \<open>Configuration and state\<close>

record Conf =
  cf_LogLevel :: string
  cf_LogOutput :: string
  cf_CoresConfig :: "CoreConfig list"
  cf_NodeConfig :: "NodeConfig list"

definition New_Conf :: Conf where
  "New_Conf = \<lparr>cf_LogLevel = ''info'', cf_LogOutput = [], cf_CoresConfig = [], cf_NodeConfig = []\<rparr>"

text \<open>A core as \<open>NewCore\<close> gives it; the variable \<open>vc\<close> is nil after a construction that failed.\<close>

type_synonym 's running = "'s Selector + 's Core \<times> 's"

record ('s, 'rx, 'w) server =
  sv_vc :: "'s running option"
  sv_nodes :: "('s running, 'rx, 'w) Controller option list"
  sv_limiters :: "'rx limiters"
  sv_world :: 'w
  sv_panic :: bool

definition sv_shared :: "'s running \<Rightarrow> ('s, 'rx, 'w) server \<Rightarrow> ('s running, 'rx, 'w) shared" where
  "sv_shared v s = \<lparr>sh_server = v, sh_limiters = sv_limiters s, sh_world = sv_world s\<rparr>"

definition sv_put :: "('s running, 'rx, 'w) shared \<Rightarrow> ('s, 'rx, 'w) server \<Rightarrow> ('s, 'rx, 'w) server" where
  "sv_put g s = s\<lparr>sv_vc := Some (sh_server g), sv_limiters := sh_limiters g, sv_world := sh_world g\<rparr>"

section \<open>Starting\<close>

text \<open>What the start and the reload share: a core is made and started, then the nodes.  A nil core has no state to be kept.\<close>

definition start_core_and_nodes ::
  "('s running, 'rx, 'w) env \<Rightarrow> (nat \<Rightarrow> replies) \<Rightarrow> 's registry \<Rightarrow> Conf \<Rightarrow> ('s, 'rx, 'w) server \<Rightarrow> err option \<times> ('s, 'rx, 'w) server" where
  "start_core_and_nodes E P reg c s = (case NewCore reg (cf_CoresConfig c) of
     Inl e \<Rightarrow> (Some e, s\<lparr>sv_vc := None\<rparr>)
   | Inr v \<Rightarrow> (case c_Start (en_core E) v of
       (Some e, v) \<Rightarrow> (Some e, s\<lparr>sv_vc := Some v\<rparr>)
     | (None, v) \<Rightarrow> (case Node_Start E P (cf_NodeConfig c) (sv_shared v s) of
         (r, nodes, g) \<Rightarrow> (r, (sv_put g s)\<lparr>sv_nodes := nodes\<rparr>))))"

text \<open>The command until it waits for a signal: the error that ends it, or the running server.\<close>

definition serverHandle ::
  "('s running, 'rx, 'w) env \<Rightarrow> (nat \<Rightarrow> replies) \<Rightarrow> 's registry \<Rightarrow> (Conf \<Rightarrow> err option \<times> Conf) \<Rightarrow> 'w \<Rightarrow> ('s, 'rx, 'w) server res" where
  "serverHandle E P reg load w = (case load New_Conf of
     (Some e, c) \<Rightarrow> Inl e
   | (None, c) \<Rightarrow> (case start_core_and_nodes E P reg c
         \<lparr>sv_vc = None, sv_nodes = [], sv_limiters = \<lparr>lw_heap = [], lw_map = []\<rparr>, sv_world = w, sv_panic = False\<rparr> of
       (Some e, s) \<Rightarrow> Inl e | (None, s) \<Rightarrow> Inr s))"

section \<open>Reloading\<close>

text \<open>Controllers hold the core, so an empty list of them is closed whatever the core is; calling a method of a nil core panics.\<close>

definition close_nodes :: "('s running, 'rx, 'w) env \<Rightarrow> ('s, 'rx, 'w) server \<Rightarrow> err option \<times> ('s, 'rx, 'w) server" where
  "close_nodes E s = (case sv_vc s of
     None \<Rightarrow> if sv_nodes s = [] then (None, s) else (Some panicked, s)
   | Some v \<Rightarrow> (case Node_Close E (sv_nodes s) (sv_shared v s) of (r, nodes, g) \<Rightarrow> (r, (sv_put g s)\<lparr>sv_nodes := nodes\<rparr>)))"

definition reload ::
  "('s running, 'rx, 'w) env \<Rightarrow> (nat \<Rightarrow> replies) \<Rightarrow> 's registry \<Rightarrow> Conf \<Rightarrow> ('s, 'rx, 'w) server \<Rightarrow> ('s, 'rx, 'w) server" where
  "reload E P reg c s = (case close_nodes E s of
     (Some e, s) \<Rightarrow> s\<lparr>sv_panic := True\<rparr>
   | (None, s) \<Rightarrow> (case sv_vc s of
       None \<Rightarrow> s\<lparr>sv_panic := True\<rparr>
     | Some v \<Rightarrow> (case c_Close (en_core E) v of
         (Some e, v) \<Rightarrow> s\<lparr>sv_vc := Some v\<rparr>
       | (None, v) \<Rightarrow> snd (start_core_and_nodes E P reg c (s\<lparr>sv_vc := Some v\<rparr>)))))"

text \<open>The reading of a changed file: the configuration is reset first, and an error is only logged.\<close>

definition reread :: "(Conf \<Rightarrow> err option \<times> Conf) \<Rightarrow> Conf" where
  "reread load = snd (load New_Conf)"

definition file_changed ::
  "('s running, 'rx, 'w) env \<Rightarrow> (nat \<Rightarrow> replies) \<Rightarrow> 's registry \<Rightarrow> (Conf \<Rightarrow> err option \<times> Conf) \<Rightarrow> ('s, 'rx, 'w) server \<Rightarrow> ('s, 'rx, 'w) server" where
  "file_changed E P reg load s = (if sv_panic s then s else reload E P reg (reread load) s)"

text \<open>A server that runs: its controllers and its core can be closed.\<close>

definition closable :: "('s running, 'rx, 'w) env \<Rightarrow> ('s, 'rx, 'w) server \<Rightarrow> bool" where
  "closable E s \<longleftrightarrow> (case close_nodes E s of
     (None, s') \<Rightarrow> (case sv_vc s' of Some v \<Rightarrow> fst (c_Close (en_core E) v) = None | None \<Rightarrow> False) | (Some e, s') \<Rightarrow> False)"

lemma Node_Close_empties: "Node_Close E cs g = (None, cs', g') \<Longrightarrow> cs' = []"
  by (auto simp: Node_Close_def split: prod.splits option.splits)

lemma close_nodes_empties: "close_nodes E s = (None, s') \<Longrightarrow> sv_nodes s' = []"
  by (auto simp: close_nodes_def dest: Node_Close_empties split: option.splits if_splits prod.splits)

lemma nil_core_panics: "sv_vc s = None \<Longrightarrow> sv_nodes s = [] \<Longrightarrow> sv_panic (reload E P reg c s)"
  by (simp add: reload_def close_nodes_def)

lemma failed_reload:
  assumes "closable E s" and "NewCore reg (cf_CoresConfig c) = Inl e"
  shows "sv_vc (reload E P reg c s) = None" "sv_nodes (reload E P reg c s) = []" "sv_panic (reload E P reg c s) = sv_panic s"
proof -
  from assms(1) obtain s' v v' where c: "close_nodes E s = (None, s')" "sv_vc s' = Some v" "c_Close (en_core E) v = (None, v')"
    by (auto simp: closable_def prod_eq_iff split: prod.splits option.splits)
  then have r: "reload E P reg c s = s'\<lparr>sv_vc := None\<rparr>"
    by (simp add: reload_def start_core_and_nodes_def assms(2))
  show "sv_vc (reload E P reg c s) = None" by (simp add: r)
  show "sv_nodes (reload E P reg c s) = []" using close_nodes_empties [OF c(1)] by (simp add: r)
  show "sv_panic (reload E P reg c s) = sv_panic s"
    using c(1) by (auto simp: r close_nodes_def sv_put_def split: option.splits if_splits prod.splits)
qed

text \<open>C39: when the changed file gives no core - it does not parse, or it is missing for the moment its editor replaces it - every
  node of a running server is taken down, and the next change, that of the corrected file as well, ends the process: the reload
  closes a core that is nil.\<close>

theorem second_reload_panics:
  assumes "\<not> sv_panic s" and "closable E s" and "NewCore reg (cf_CoresConfig (reread load)) = Inl e"
  shows "sv_nodes (file_changed E P reg load s) = [] \<and> \<not> sv_panic (file_changed E P reg load s) \<and>
    sv_panic (file_changed E P' reg load' (file_changed E P reg load s))"
proof -
  note f = failed_reload [OF assms(2,3), of P]
  then show ?thesis using nil_core_panics [OF f(1,2)] assms(1) by (simp add: file_changed_def)
qed

text \<open>A file that cannot be opened is such a change.\<close>

lemma unreadable_file_gives_no_core:
  assumes "os_open filePath = Inl e"
  shows "NewCore reg (cf_CoresConfig (reread (LoadFromPath os_open read_all unmarshal filePath))) = Inl ''no have vail core''"
  using assms by (simp add: reread_def LoadFromPath_def New_Conf_def NewCore_def)

definition reload_core :: "nat running Core" where
  "reload_core = \<lparr>c_Start = (\<lambda>s. (None, s)), c_Close = (\<lambda>s. (None, s)), c_AddNode = (\<lambda>t n o1 s. (None, o1, s)),
     c_DelNode = (\<lambda>t s. (None, s)), c_AddUsers = (\<lambda>t us n s. (Inr 0, s)), c_GetUserTrafficSlice = (\<lambda>t r s. (Inr [], s)),
     c_DelUsers = (\<lambda>us t n s. (None, s)), c_Protocols = (\<lambda>s. []), c_Type = (\<lambda>s. []),
     c_ValidateNode = None, c_SnapshotNodeState = None\<rparr>"

definition reload_env :: "(nat running, string, (string, string) gomap) env" where
  "reload_env = \<lparr>en_core = reload_core, en_dec = demo_decoders, en_compile = Some, en_cert = demo_env\<rparr>"

definition reload_server :: "(nat, string, (string, string) gomap) server" where
  "reload_server = \<lparr>sv_vc = Some (Inl \<lparr>se_cores = [], se_nodes = []\<rparr>), sv_nodes = [], sv_limiters = \<lparr>lw_heap = [], lw_map = []\<rparr>,
     sv_world = [], sv_panic = False\<rparr>"

theorem second_reload_panics_witness:
  "\<forall>P load'. sv_panic (file_changed reload_env P [] load'
     (file_changed reload_env P [] (LoadFromPath (\<lambda>f. Inl ''no such file'') Inr (\<lambda>d c. (None, c)) ''config.json'') reload_server))"
proof -
  have c: "closable reload_env reload_server"
    by (simp add: closable_def close_nodes_def reload_server_def Node_Close_def sv_put_def sv_shared_def reload_env_def reload_core_def)
  have p: "\<not> sv_panic reload_server" by (simp add: reload_server_def)
  from second_reload_panics [OF p c unreadable_file_gives_no_core] show ?thesis by simp
qed

section \<open>When the file is read\<close>

text \<open>
  The events of the watcher with their times in seconds, in order: whether only a mode changed, and the contents of the file after the
  event.  An event within ten seconds of the last accepted one is dropped; an accepted one has the file read five
  seconds later.
\<close>

record watch_event =
  we_time :: int
  we_chmod :: bool
  we_contents :: string

fun accepted :: "int option \<Rightarrow> watch_event list \<Rightarrow> watch_event list" where
  "accepted pre [] = []"
| "accepted pre (e # es) =
     (if we_chmod e then accepted pre es
      else if (case pre of None \<Rightarrow> False | Some t \<Rightarrow> t + 10 > we_time e) then accepted pre es
      else e # accepted (Some (we_time e)) es)"

text \<open>The contents at a time: those the last event up to then left.\<close>

fun contents_at :: "string \<Rightarrow> watch_event list \<Rightarrow> int \<Rightarrow> string" where
  "contents_at c [] t = c"
| "contents_at c (e # es) t = (if we_time e \<le> t then contents_at (we_contents e) es t else c)"

definition read_contents :: "string \<Rightarrow> watch_event list \<Rightarrow> string list" where
  "read_contents c es = map (\<lambda>e. contents_at c es (we_time e + 5)) (accepted None es)"

text \<open>An edit between five and ten seconds after another one is lost: the file was read before it, its event is dropped, and the
  server goes on with the older contents until the next edit.\<close>

theorem late_edit_is_lost:
  assumes "\<not> we_chmod e1" and "we_time e1 + 5 < we_time e2" and "we_time e2 < we_time e1 + 10"
  shows "read_contents c [e1, e2] = [we_contents e1] \<and> contents_at c [e1, e2] (we_time e2) = we_contents e2"
  using assms by (simp add: read_contents_def)

theorem late_edit_is_lost_witness:
  "read_contents ''old'' [\<lparr>we_time = 0, we_chmod = False, we_contents = ''a''\<rparr>, \<lparr>we_time = 7, we_chmod = False, we_contents = ''b''\<rparr>] = [''a'']"
  using late_edit_is_lost [of "\<lparr>we_time = 0, we_chmod = False, we_contents = ''a''\<rparr>" "\<lparr>we_time = 7, we_chmod = False, we_contents = ''b''\<rparr>" "''old''"]
  by simp

end
