(* ===== verification/Hy2_Geo.thy ===== *)
theory Hy2_Geo
  imports V2bX_Prelude
begin

text \<open>
  The loader of the geographic databases (runtime/core/hy2/geoloader.go): it keeps a database once it was read,
  and downloads the files that were not configured when they are missing, empty or old.  The network, the
  file system's faults and the parser of a database are parameters.
\<close>

section \<open>The file system\<close>

text \<open>A file has contents and a time of modification.\<close>

type_synonym geo_files = "(string, string \<times> int) gomap"

text \<open>
  What happens in one call: the fault of \<open>Stat\<close> that is not the absence of the file, the time, the reply to the download, the
  temporary file, the bytes that were copied before a fault, the faults of copying and renaming, and the
  parser of a database.
\<close>

record 'm geo_env =
  ge_statFault :: bool
  ge_now :: int
  ge_Get :: "string \<Rightarrow> string res"
  ge_CreateTemp :: "string res"
  ge_Copy :: "string \<Rightarrow> string \<times> err option"
  ge_Rename :: "err option"
  ge_parse :: "string \<Rightarrow> 'm res"

record 'm GeoLoader =
  gl_GeoIPFilename :: string
  gl_GeoSiteFilename :: string
  gl_UpdateInterval :: int
  gl_geoipMap :: "'m option"
  gl_geositeMap :: "'m option"

definition geoDefaultUpdateInterval :: int where
  "geoDefaultUpdateInterval = 7 * 24 * 3600 * 1000000000"

definition nil_info :: err where
  "nil_info = ''invalid memory address or nil pointer dereference''"

text \<open>A fault of \<open>Stat\<close> gives no information, and asking for the size panics.\<close>

definition shouldDownload :: "'m geo_env \<Rightarrow> int \<Rightarrow> string \<Rightarrow> geo_files \<Rightarrow> bool res" where
  "shouldDownload E interval filename fs = (case map_of fs filename of
     None \<Rightarrow> Inr True
   | Some (contents, modified) \<Rightarrow>
       if ge_statFault E then Inl nil_info
       else if length contents = 0 then Inr True
       else (let dt = ge_now E - modified
         in Inr (if interval = 0 then dt > geoDefaultUpdateInterval else dt > interval)))"

definition open_and_parse :: "'m geo_env \<Rightarrow> string \<Rightarrow> geo_files \<Rightarrow> 'm res" where
  "open_and_parse E filename fs = (case map_of fs filename of
     None \<Rightarrow> Inl ''no such file or directory'' | Some (contents, modified) \<Rightarrow> ge_parse E contents)"

text \<open>The deferred removal of the temporary file runs on every return; after the renaming it finds nothing.\<close>

definition downloadAndCheck :: "'m geo_env \<Rightarrow> string \<Rightarrow> string \<Rightarrow> geo_files \<Rightarrow> err option \<times> geo_files" where
  "downloadAndCheck E filename url fs = (case ge_Get E url of
     Inl e \<Rightarrow> (Some e, fs)
   | Inr body \<Rightarrow> (case ge_CreateTemp E of
       Inl e \<Rightarrow> (Some e, fs)
     | Inr tmp \<Rightarrow> (case ge_Copy E body of (written, fault) \<Rightarrow>
         let fs1 = mput tmp (written, ge_now E) fs; removed = mdel tmp fs1
         in case fault of
              Some e \<Rightarrow> (Some e, removed)
            | None \<Rightarrow> (case open_and_parse E tmp fs1 of
                Inl e \<Rightarrow> (Some e, removed)
              | Inr m \<Rightarrow> (case ge_Rename E of
                  Some e \<Rightarrow> (Some e, removed)
                | None \<Rightarrow> (None, mdel tmp (mput filename (written, ge_now E) fs1)))))))"

section \<open>Loading\<close>

text \<open>Both databases are loaded alike; a panic is the outer error.  The database comes with the files.\<close>

definition load_database ::
  "'m geo_env \<Rightarrow> int \<Rightarrow> string \<Rightarrow> string \<Rightarrow> string \<Rightarrow> geo_files \<Rightarrow> ('m res \<times> geo_files) res" where
  "load_database E interval configured builtin url fs =
     (if configured \<noteq> [] then Inr (open_and_parse E configured fs, fs)
      else (case shouldDownload E interval builtin fs of
          Inl p \<Rightarrow> Inl p
        | Inr due \<Rightarrow> (case (if due then Inl [] else open_and_parse E builtin fs) of
            Inr m \<Rightarrow> Inr (Inr m, fs)
          | Inl _ \<Rightarrow> (case downloadAndCheck E builtin url fs of
              (Some e, fs') \<Rightarrow> if mhas fs' builtin then Inr (open_and_parse E builtin fs', fs') else Inr (Inl e, fs')
            | (None, fs') \<Rightarrow> Inr (open_and_parse E builtin fs', fs')))))"

definition LoadGeoIP :: "'m geo_env \<Rightarrow> geo_files \<Rightarrow> 'm GeoLoader \<Rightarrow> ('m res \<times> geo_files \<times> 'm GeoLoader) res" where
  "LoadGeoIP E fs l = (case gl_geoipMap l of
     Some m \<Rightarrow> Inr (Inr m, fs, l)
   | None \<Rightarrow> map_sum id (\<lambda>(r, fs). (r, fs, case r of Inl e \<Rightarrow> l | Inr m \<Rightarrow> l\<lparr>gl_geoipMap := Some m\<rparr>))
       (load_database E (gl_UpdateInterval l) (gl_GeoIPFilename l) ''geoip.dat''
         ''https://cdn.jsdelivr.net/gh/Loyalsoldier/v2ray-rules-dat@release/geoip.dat'' fs))"

definition LoadGeoSite :: "'m geo_env \<Rightarrow> geo_files \<Rightarrow> 'm GeoLoader \<Rightarrow> ('m res \<times> geo_files \<times> 'm GeoLoader) res" where
  "LoadGeoSite E fs l = (case gl_geositeMap l of
     Some m \<Rightarrow> Inr (Inr m, fs, l)
   | None \<Rightarrow> map_sum id (\<lambda>(r, fs). (r, fs, case r of Inl e \<Rightarrow> l | Inr m \<Rightarrow> l\<lparr>gl_geositeMap := Some m\<rparr>))
       (load_database E (gl_UpdateInterval l) (gl_GeoSiteFilename l) ''geosite.dat''
         ''https://cdn.jsdelivr.net/gh/Loyalsoldier/v2ray-rules-dat@release/geosite.dat'' fs))"

section \<open>Downloads never break a database\<close>

text \<open>The temporary file is new.\<close>

definition fresh_temp :: "'m geo_env \<Rightarrow> string \<Rightarrow> geo_files \<Rightarrow> bool" where
  "fresh_temp E filename fs \<longleftrightarrow> (case ge_CreateTemp E of Inl e \<Rightarrow> True | Inr tmp \<Rightarrow> tmp \<noteq> filename \<and> \<not> mhas fs tmp)"

lemma drop_absent: "\<forall>a b. map_of fs t \<noteq> Some (a, b) \<Longrightarrow> (map_of fs)(t := None) = map_of fs"
  by (cases "map_of fs t") (auto simp: fun_upd_idem)

lemma downloadAndCheck_files:
  assumes "fresh_temp E filename fs" and "downloadAndCheck E filename url fs = (r, fs')"
  shows "r \<noteq> None \<Longrightarrow> map_of fs' = map_of fs"
    and "r = None \<Longrightarrow> \<exists>body written m. ge_Get E url = Inr body \<and> ge_Copy E body = (written, None) \<and> ge_parse E written = Inr m \<and>
           map_of fs' = (map_of fs)(filename \<mapsto> (written, ge_now E))"
proof -
  show "r \<noteq> None \<Longrightarrow> map_of fs' = map_of fs"
    using assms by (auto simp: downloadAndCheck_def fresh_temp_def mhas_def Let_def drop_absent split: sum.splits prod.splits option.splits)
  show "r = None \<Longrightarrow> \<exists>body written m. ge_Get E url = Inr body \<and> ge_Copy E body = (written, None) \<and> ge_parse E written = Inr m \<and>
           map_of fs' = (map_of fs)(filename \<mapsto> (written, ge_now E))"
    using assms
    by (auto simp: downloadAndCheck_def fresh_temp_def open_and_parse_def mhas_def Let_def fun_upd_twist drop_absent
        split: sum.splits prod.splits option.splits)
qed

text \<open>Whatever fails on the way, loading a database leaves every file as it was, but for the built-in one, and
  that is replaced only by a complete download that parses; a database that can be read is given.\<close>

lemma load_database_outcome:
  assumes "fresh_temp E builtin fs" and "load_database E interval configured builtin url fs = Inr (r, fs')"
  shows "(map_of fs' = map_of fs \<or> (configured = [] \<and> (\<exists>body written m. ge_Get E url = Inr body \<and> ge_Copy E body = (written, None) \<and>
      ge_parse E written = Inr m \<and> r = Inr m \<and> map_of fs' = (map_of fs)(builtin \<mapsto> (written, ge_now E))))) \<and>
    (\<forall>m. r = Inr m \<longrightarrow> open_and_parse E (if configured = [] then builtin else configured) fs' = Inr m) \<and>
    (\<forall>m. open_and_parse E (if configured = [] then builtin else configured) fs = Inr m \<longrightarrow> (\<exists>m'. r = Inr m'))"
proof (cases "configured = []")
  case False
  with assms(2) show ?thesis by (auto simp: load_database_def)
next
  case True
  obtain due where due: "shouldDownload E interval builtin fs = Inr due"
    using assms(2) True by (auto simp: load_database_def split: sum.splits)
  show ?thesis
  proof (cases "\<not> due \<and> (\<exists>m. open_and_parse E builtin fs = Inr m)")
    case got: True
    then obtain m where "\<not> due" "open_and_parse E builtin fs = Inr m" by blast
    with assms(2) True due show ?thesis by (auto simp: load_database_def)
  next
    case False
    then obtain e where e: "(if due then Inl [] else open_and_parse E builtin fs) = Inl e"
      by (cases due; cases "open_and_parse E builtin fs") auto
    obtain q fs2 where d: "downloadAndCheck E builtin url fs = (q, fs2)" by fastforce
    note f = downloadAndCheck_files [OF assms(1) d]
    show ?thesis
    proof (cases q)
      case None
      then have r: "r = open_and_parse E builtin fs2" "fs' = fs2" using assms(2) True due e d by (auto simp: load_database_def)
      from f(2) [OF None] obtain body written m where w: "ge_Get E url = Inr body" "ge_Copy E body = (written, None)"
        "ge_parse E written = Inr m" "map_of fs2 = (map_of fs)(builtin \<mapsto> (written, ge_now E))" by blast
      then have rm: "r = Inr m" by (simp add: r open_and_parse_def)
      then have o: "open_and_parse E builtin fs2 = Inr m" using r by simp
      have "(map_of fs' = map_of fs \<or> (configured = [] \<and> (\<exists>body written m. ge_Get E url = Inr body \<and> ge_Copy E body = (written, None) \<and>
          ge_parse E written = Inr m \<and> r = Inr m \<and> map_of fs' = (map_of fs)(builtin \<mapsto> (written, ge_now E)))))"
        using w rm r(2) True by blast
      with o rm r(2) True show ?thesis by simp
    next
      case (Some x)
      then have m: "map_of fs2 = map_of fs" using f(1) by simp
      then have o: "open_and_parse E builtin fs2 = open_and_parse E builtin fs" by (simp add: open_and_parse_def)
      have "fs' = fs2" "r = (if mhas fs2 builtin then open_and_parse E builtin fs2 else Inl x)"
        using assms(2) True due e d Some by (auto simp: load_database_def split: if_splits)
      moreover have "open_and_parse E builtin fs = Inr k \<Longrightarrow> mhas fs2 builtin" for k
        using m by (auto simp: open_and_parse_def mhas_def split: option.splits)
      ultimately show ?thesis using m o True by auto
    qed
  qed
qed


text \<open>An old database and a broken download: the old one is used.\<close>

definition geo_demo_env :: "string geo_env" where
  "geo_demo_env = \<lparr>ge_statFault = False, ge_now = 10 ^ 18, ge_Get = (\<lambda>u. Inr ''bad''), ge_CreateTemp = Inr ''tmp'',
     ge_Copy = (\<lambda>b. (b, None)), ge_Rename = None, ge_parse = (\<lambda>s. if s = ''bad'' then Inl ''parse'' else Inr s)\<rparr>"

definition geo_demo_loader :: "string GeoLoader" where
  "geo_demo_loader = \<lparr>gl_GeoIPFilename = [], gl_GeoSiteFilename = [], gl_UpdateInterval = 0, gl_geoipMap = None, gl_geositeMap = None\<rparr>"


text \<open>A file that exists and cannot be asked for its size - its directory lost the right to search - panics the loader.\<close>

lemma stat_fault_panics:
  "gl_geoipMap l = None \<Longrightarrow> gl_GeoIPFilename l = [] \<Longrightarrow> mhas fs ''geoip.dat'' \<Longrightarrow> ge_statFault E \<Longrightarrow> LoadGeoIP E fs l = Inl nil_info"
  by (auto simp: LoadGeoIP_def load_database_def shouldDownload_def mhas_def split: prod.split)

text \<open>The check of a download is only that it parses, and an empty file does: an empty reply replaces a good database,
  although an empty file counts as broken.\<close>

lemma empty_download_replaces_database:
  assumes "ge_Get E url = Inr body" and "ge_CreateTemp E = Inr tmp" and "ge_Copy E body = ([], None)"
    and "ge_parse E [] = Inr m" and "ge_Rename E = None" and "tmp \<noteq> filename"
  obtains fs' where "downloadAndCheck E filename url fs = (None, fs')" and "map_of fs' filename = Some ([], ge_now E)"
    and "shouldDownload E interval filename fs' = (if ge_statFault E then Inl nil_info else Inr True)"
proof -
  let ?fs = "mdel tmp (mput filename ([], ge_now E) (mput tmp ([], ge_now E) fs))"
  have "downloadAndCheck E filename url fs = (None, ?fs)"
    using assms by (simp add: downloadAndCheck_def open_and_parse_def)
  moreover have f: "map_of ?fs filename = Some ([], ge_now E)" using assms(6) by simp
  moreover have "shouldDownload E interval filename ?fs = (if ge_statFault E then Inl nil_info else Inr True)"
    unfolding shouldDownload_def f by simp
  ultimately show ?thesis by (rule that)
qed

end
