(* ===== verification/Preflight.thy ===== *)
theory Preflight
  imports Server_Reload Sing_Legacy Xray_Core
begin

text \<open>
  The offline check of a configuration (runtime/cmd/check.go, runtime/core/xray/check.go and hy2/check.go) beside the construction of the
  cores at the start (getCore of runtime/core/xray/xray.go).  The check decodes with encoding/json, the start with encoding/json/v2, which
  refuses documents the other takes; both decoders, the files, the builders of the Xray library and its constructor are parameters.
\<close>

section \<open>The Xray instance\<close>

text \<open>A part of the Xray configuration: its empty value, the two decoders, and its builder.\<close>

record ('c, 'i, 'b) xray_part =
  xp_zero :: 'c
  xp_v1 :: "string \<Rightarrow> 'c res"
  xp_v2 :: "string \<Rightarrow> 'c res"
  xp_Build :: "'i \<Rightarrow> 'b res"

record Policy =
  po_StatsUserUplink :: bool
  po_StatsUserDownlink :: bool
  po_Handshake :: nat
  po_ConnectionIdle :: nat
  po_UplinkOnly :: nat
  po_DownlinkOnly :: nat
  po_BufferSize :: int

record ('d, 'r, 'i, 'o) instance_config =
  in_Log :: XrayLogConfig
  in_Policy :: "(nat, Policy) gomap"
  in_Dns :: 'd
  in_Routing :: 'r
  in_Inbound :: "'i list"
  in_Outbound :: "'o list"

record ('cd, 'd, 'cr, 'r, 'ci, 'i, 'co, 'o, 'x) xray_loader =
  xw_ReadFile :: "string \<Rightarrow> string res"
  xw_Dns :: "('cd, 'cd, 'd) xray_part"
  xw_Routing :: "('cr, 'cr, 'r) xray_part"
  xw_Inbound :: "('ci list, 'ci, 'i) xray_part"
  xw_Outbound :: "('co list, 'co, 'o) xray_part"
  xw_New :: "('d, 'r, 'i, 'o) instance_config \<Rightarrow> 'x res"

definition parseConnectionConfig :: "XrayConnectionConfig \<Rightarrow> Policy" where
  "parseConnectionConfig c = \<lparr>po_StatsUserUplink = True, po_StatsUserDownlink = True, po_Handshake = xc_Handshake c,
     po_ConnectionIdle = xc_ConnIdle c, po_UplinkOnly = xc_UplinkOnly c, po_DownlinkOnly = xc_DownlinkOnly c,
     po_BufferSize = xc_BufferSize c\<rparr>"

fun build_all :: "('i \<Rightarrow> 'b res) \<Rightarrow> 'i list \<Rightarrow> 'b list res" where
  "build_all b [] = Inr []"
| "build_all b (c # cs) = (case b c of
     Inl e \<Rightarrow> Inl e | Inr x \<Rightarrow> (case build_all b cs of Inl e \<Rightarrow> Inl e | Inr xs \<Rightarrow> Inr (x # xs)))"

text \<open>The DNS configuration falls back to the empty one; every other fault panics with its message.\<close>

definition dns_config :: "(string \<Rightarrow> string res) \<Rightarrow> ('cd, 'cd, 'd) xray_part \<Rightarrow> string \<Rightarrow> 'cd" where
  "dns_config rf p path = (if path = [] then xp_zero p
     else (case rf path of
         Inl e \<Rightarrow> xp_zero p
       | Inr data \<Rightarrow> (case xp_v2 p data of Inl e \<Rightarrow> xp_zero p | Inr c \<Rightarrow> c)))"

definition panicking_part :: "(string \<Rightarrow> string res) \<Rightarrow> ('c, 'i, 'b) xray_part \<Rightarrow> string \<Rightarrow> string \<Rightarrow> 'c res" where
  "panicking_part rf p what path = (if path = [] then Inr (xp_zero p)
     else (case rf path of
         Inl e \<Rightarrow> Inl (''Failed to read '' @ what @ '' config file'')
       | Inr data \<Rightarrow> (case xp_v2 p data of Inl e \<Rightarrow> Inl (''Failed to unmarshal '' @ what @ '' config'') | Inr c \<Rightarrow> Inr c)))"

definition understand :: "string \<Rightarrow> 'b res \<Rightarrow> 'b res" where
  "understand what r = (case r of Inl e \<Rightarrow> Inl (''Failed to understand '' @ what @ '' for help'') | Inr x \<Rightarrow> Inr x)"

text \<open>The instance; \<open>Inl\<close> is a panic.\<close>

definition getCore :: "('cd, 'd, 'cr, 'r, 'ci, 'i, 'co, 'o, 'x) xray_loader \<Rightarrow> XrayConfig \<Rightarrow> 'x res" where
  "getCore W c =
     (case understand ''DNS config, Please check: https://xtls.github.io/config/dns.html'' (xp_Build (xw_Dns W) (dns_config (xw_ReadFile W) (xw_Dns W) (xr_DnsConfigPath c))) of
       Inl e \<Rightarrow> Inl e
     | Inr dns \<Rightarrow> (case panicking_part (xw_ReadFile W) (xw_Routing W) ''Routing'' (xr_RouteConfigPath c) of
       Inl e \<Rightarrow> Inl e
     | Inr router \<Rightarrow> (case understand ''Routing config. Please check: https://xtls.github.io/config/routing.html'' (xp_Build (xw_Routing W) router) of
       Inl e \<Rightarrow> Inl e
     | Inr route \<Rightarrow> (case panicking_part (xw_ReadFile W) (xw_Inbound W) ''Custom Inbound'' (xr_InboundConfigPath c) of
       Inl e \<Rightarrow> Inl e
     | Inr ins \<Rightarrow> (case understand ''Inbound config. Please check: https://xtls.github.io/config/inbound.html'' (build_all (xp_Build (xw_Inbound W)) ins) of
       Inl e \<Rightarrow> Inl e
     | Inr inbounds \<Rightarrow> (case panicking_part (xw_ReadFile W) (xw_Outbound W) ''Custom Outbound'' (xr_OutboundConfigPath c) of
       Inl e \<Rightarrow> Inl e
     | Inr outs \<Rightarrow> (case understand ''Outbound config, Please check: https://xtls.github.io/config/outbound.html'' (build_all (xp_Build (xw_Outbound W)) outs) of
       Inl e \<Rightarrow> Inl e
     | Inr outbounds \<Rightarrow> (case xw_New W \<lparr>in_Log = xr_LogConfig c, in_Policy = [(0, parseConnectionConfig (xr_ConnectionConfig c))],
           in_Dns = dns, in_Routing = route, in_Inbound = inbounds, in_Outbound = outbounds\<rparr> of
         Inl e \<Rightarrow> Inl ''failed to create instance'' | Inr x \<Rightarrow> Inr x))))))))"

text \<open>The core around the instance, with a dispatcher that has no users; the path of the DNS file is what the environment then holds.\<close>

definition new_dispatcher :: Dispatcher where
  "new_dispatcher = \<lparr>dp_Counter = [], dp_AllowedUsers = [], dp_LinkManagers = [], dp_counters = [], dp_managers = [],
     dp_writers = [], dp_released = {}\<rparr>"

definition Xray_New :: "('cd, 'd, 'cr, 'r, 'ci, 'i, 'co, 'o, 'x) xray_loader \<Rightarrow> files \<Rightarrow> CoreConfig \<Rightarrow> 'x Xray res" where
  "Xray_New W fs c = (case co_XrayConfig c of
     None \<Rightarrow> Inl nil_pointer
   | Some xc \<Rightarrow> (case getCore W xc of
       Inl e \<Rightarrow> Inl e
     | Inr x \<Rightarrow> Inr \<lparr>xy_Server = x, xy_dispatcher = new_dispatcher, xy_uidMap = [], xy_nodeReportMinTrafficBytes = [],
         xy_retiredTraffic = [], xy_dnsPath = xr_DnsConfigPath xc, xy_files = fs\<rparr>))"

section \<open>The check\<close>

definition read_part :: "(string \<Rightarrow> string res) \<Rightarrow> ('c, 'i, 'b) xray_part \<Rightarrow> string \<Rightarrow> 'c res" where
  "read_part rf p path = (if path = [] then Inr (xp_zero p)
     else (case rf path of Inl e \<Rightarrow> Inl e | Inr data \<Rightarrow> xp_v1 p data))"

fun first_err :: "err option list \<Rightarrow> err option" where
  "first_err [] = None"
| "first_err (e # es) = (case e of Some _ \<Rightarrow> e | None \<Rightarrow> first_err es)"

definition err_of :: "'a res \<Rightarrow> err option" where
  "err_of r = (case r of Inl e \<Rightarrow> Some e | Inr x \<Rightarrow> None)"

definition then_build :: "'c res \<Rightarrow> ('c \<Rightarrow> 'b res) \<Rightarrow> err option" where
  "then_build r b = (case r of Inl e \<Rightarrow> Some e | Inr c \<Rightarrow> err_of (b c))"

definition Xray_checkConfig :: "('cd, 'd, 'cr, 'r, 'ci, 'i, 'co, 'o, 'x) xray_loader \<Rightarrow> CoreConfig \<Rightarrow> err option" where
  "Xray_checkConfig W c = (case co_XrayConfig c of
     None \<Rightarrow> Some ''missing Xray settings''
   | Some x \<Rightarrow> first_err
      [then_build (read_part (xw_ReadFile W) (xw_Dns W) (xr_DnsConfigPath x)) (xp_Build (xw_Dns W)),
       then_build (read_part (xw_ReadFile W) (xw_Routing W) (xr_RouteConfigPath x)) (xp_Build (xw_Routing W)),
       then_build (read_part (xw_ReadFile W) (xw_Inbound W) (xr_InboundConfigPath x)) (build_all (xp_Build (xw_Inbound W))),
       then_build (read_part (xw_ReadFile W) (xw_Outbound W) (xr_OutboundConfigPath x)) (build_all (xp_Build (xw_Outbound W)))])"

definition Hy2_checkConfig :: "CoreConfig \<Rightarrow> err option" where
  "Hy2_checkConfig c = (case co_Hysteria2Config c of None \<Rightarrow> Some ''missing Hysteria settings'' | Some h \<Rightarrow> None)"

text \<open>\<open>readable\<close> reads the file and decodes it exactly.\<close>

definition Hy2_checkNode :: "(string \<Rightarrow> err option) \<Rightarrow> Options \<Rightarrow> err option" where
  "Hy2_checkNode readable o1 = (if op_Hysteria2ConfigPath o1 = [] then None else readable (op_Hysteria2ConfigPath o1))"

text \<open>The registrations of the three packages.\<close>

definition all_validators ::
  "('cd, 'd, 'cr, 'r, 'ci, 'i, 'co, 'o, 'x) xray_loader \<Rightarrow> ('so, 'sx) sing_loader \<Rightarrow> validators" where
  "all_validators W F = RegisterConfigValidator ''xray'' (Xray_checkConfig W)
     (RegisterConfigValidator ''sing'' (Sing_checkConfig F) (RegisterConfigValidator ''hysteria2'' Hy2_checkConfig []))"

subsection \<open>The configuration file\<close>

text \<open>
  A decoder of the outer document gives the log settings, the texts of the cores and those of the nodes; the methods of the
  entries decode those.  No name occurs twice in the document, and which of several errors is told first is left open.
\<close>

record conf_doc =
  cd_LogLevel :: string
  cd_LogOutput :: string
  cd_Cores :: "string list"
  cd_Nodes :: "string list"

fun decode_list :: "('a \<Rightarrow> err option \<times> 'b) \<Rightarrow> 'a list \<Rightarrow> err option \<times> 'b list" where
  "decode_list f [] = (None, [])"
| "decode_list f (t # ts) = (case f t of
     (Some e, x) \<Rightarrow> (Some e, [x]) | (None, x) \<Rightarrow> (case decode_list f ts of (e, xs) \<Rightarrow> (e, x # xs)))"

definition CoreConfig_zero :: CoreConfig where
  "CoreConfig_zero = \<lparr>co_Type = [], co_Name = [], co_XrayConfig = None, co_SingConfig = None, co_Hysteria2Config = None\<rparr>"

definition NodeConfig_zero :: NodeConfig where
  "NodeConfig_zero = \<lparr>nc_ApiConfig = \<lparr>ac_APIHost = [], ac_NodeID = 0, ac_Key = [], ac_NodeType = [], ac_Timeout = 0, ac_RuleListPath = []\<rparr>,
     nc_Options = \<lparr>op_Name = [], op_Core = [], op_CoreName = [], op_ListenIP = [], op_SendIP = [], op_DeviceOnlineMinTraffic = 0,
       op_ReportMinTraffic = 0, op_LimitConfig = LimitConfig_zero, op_RawOptions = [], op_XrayOptions = None, op_SingOptions = None,
       op_Hysteria2ConfigPath = [], op_CertConfig = None\<rparr>\<rparr>"

definition Conf_Unmarshal ::
  "json_decoders \<Rightarrow> (string \<Rightarrow> string res) \<Rightarrow> (string \<Rightarrow> string res) \<Rightarrow> (string \<Rightarrow> conf_doc res) \<Rightarrow> Conf unmarshal" where
  "Conf_Unmarshal J http_get os_open outer data c = (case outer data of
     Inl e \<Rightarrow> (Some e, c)
   | Inr d \<Rightarrow>
       (case decode_list (\<lambda>t. CoreConfig_UnmarshalJSON J t CoreConfig_zero) (cd_Cores d) of
          (Some e, cs) \<Rightarrow> (Some e, c\<lparr>cf_LogLevel := cd_LogLevel d, cf_LogOutput := cd_LogOutput d, cf_CoresConfig := cs\<rparr>)
        | (None, cs) \<Rightarrow> (case decode_list (\<lambda>t. NodeConfig_UnmarshalJSON J http_get os_open t NodeConfig_zero) (cd_Nodes d) of
            (e, ns) \<Rightarrow> (e, c\<lparr>cf_LogLevel := cd_LogLevel d, cf_LogOutput := cd_LogOutput d, cf_CoresConfig := cs, cf_NodeConfig := ns\<rparr>))))"

definition includes_of :: "(string \<Rightarrow> string res) \<Rightarrow> conf_doc \<Rightarrow> string list res" where
  "includes_of inc d = build_all inc (cd_Nodes d)"

definition needs_migration :: err where
  "needs_migration = ''Include requires manual migration before automatic upgrade''"

definition check_limit :: nat where
  "check_limit = 16 * 2 ^ 20"

text \<open>\<open>inc\<close> decodes the name of the file a node includes, and nothing else of it.\<close>

definition cmd_checkConfig ::
  "json_decoders \<Rightarrow> validators \<Rightarrow> node_validators \<Rightarrow> (string \<Rightarrow> string res) \<Rightarrow> (string \<Rightarrow> string res)
     \<Rightarrow> (string \<Rightarrow> string res) \<Rightarrow> (string \<Rightarrow> conf_doc res) \<Rightarrow> (string \<Rightarrow> string res) \<Rightarrow> string \<Rightarrow> err option" where
  "cmd_checkConfig J V NV http_get os_open read_all outer inc path = (case os_open path of
     Inl e \<Rightarrow> Some e
   | Inr f \<Rightarrow> (case read_stripped (read_all f) of
       Inl e \<Rightarrow> Some e
     | Inr text \<Rightarrow> (let data = take check_limit text in
         case (case outer data of Inl e \<Rightarrow> Inl e | Inr d \<Rightarrow> includes_of inc d) of
           Inl e \<Rightarrow> Some e
         | Inr incs \<Rightarrow>
             if \<exists>n \<in> set incs. n \<noteq> [] then Some needs_migration
             else (case Conf_Unmarshal J http_get os_open outer data New_Conf of
                 (Some e, c) \<Rightarrow> Some e
               | (None, c) \<Rightarrow> CheckConfig J V NV (cf_CoresConfig c) (cf_NodeConfig c)))))"

section \<open>The check stays offline\<close>

text \<open>Both look for the same member of the same text, so a node without an include for the one has none for the other.\<close>

definition sees_includes :: "json_decoders \<Rightarrow> (string \<Rightarrow> string res) \<Rightarrow> bool" where
  "sees_includes J inc \<longleftrightarrow> (\<forall>t rn. inc t = Inr [] \<longrightarrow>
     js_rawNode J t \<lparr>rn_Include = [], rn_ApiRaw = [], rn_OptRaw = []\<rparr> = (None, rn) \<longrightarrow> rn_Include rn = [])"

lemma decode_list_cong: "(\<And>t. t \<in> set ts \<Longrightarrow> f t = g t) \<Longrightarrow> decode_list f ts = decode_list g ts"
  by (induction ts) (auto split: prod.split option.split)

lemma build_all_ok: "build_all b cs = Inr xs \<Longrightarrow> length xs = length cs \<and> (\<forall>i < length cs. b (cs ! i) = Inr (xs ! i))"
proof (induction cs arbitrary: xs)
  case (Cons c cs)
  then obtain y ys where "b c = Inr y" "build_all b cs = Inr ys" "xs = y # ys" by (auto split: sum.splits)
  with Cons.IH show ?case by (auto simp: nth_Cons split: nat.split)
qed simp

lemma node_without_include:
  assumes "sees_includes J inc" and "inc t = Inr []"
  shows "NodeConfig_UnmarshalJSON J http_get os_open t n = NodeConfig_UnmarshalJSON J http_get' os_open' t n"
proof -
  obtain e rn where r: "js_rawNode J t \<lparr>rn_Include = [], rn_ApiRaw = [], rn_OptRaw = []\<rparr> = (e, rn)" by fastforce
  with assms have "e = None \<Longrightarrow> rn_Include rn = []" by (simp add: sees_includes_def)
  with r show ?thesis by (cases e) (simp_all add: NodeConfig_UnmarshalJSON_def)
qed

lemma conf_without_includes:
  assumes s: "sees_includes J inc" and o1: "outer data = Inr d" and i: "includes_of inc d = Inr incs" and n: "\<forall>x \<in> set incs. x = []"
  shows "Conf_Unmarshal J http_get os_open outer data c = Conf_Unmarshal J http_get' os_open' outer data c"
proof -
  have "inc t = Inr []" if "t \<in> set (cd_Nodes d)" for t
  proof -
    from that obtain k where k: "k < length (cd_Nodes d)" "t = cd_Nodes d ! k" by (auto simp: in_set_conv_nth)
    from build_all_ok [OF i [unfolded includes_of_def]] k have "inc t = Inr (incs ! k)" "k < length incs" by simp_all
    then show ?thesis using n by simp
  qed
  then have "decode_list (\<lambda>t. NodeConfig_UnmarshalJSON J http_get os_open t NodeConfig_zero) (cd_Nodes d) =
      decode_list (\<lambda>t. NodeConfig_UnmarshalJSON J http_get' os_open' t NodeConfig_zero) (cd_Nodes d)"
    by (intro decode_list_cong node_without_include [OF s])
  then show ?thesis by (simp add: Conf_Unmarshal_def o1 split: prod.split option.split)
qed

text \<open>Whatever a configuration includes, its check opens no file but the configuration itself and what the cores' own checks read, and
  asks no server: its result does not depend on either.\<close>

theorem preflight_is_offline:
  assumes "sees_includes J inc" and "os_open path = os_open' path"
  shows "cmd_checkConfig J V NV http_get os_open read_all outer inc path = cmd_checkConfig J V NV http_get' os_open' read_all outer inc path"
proof -
  have "Conf_Unmarshal J http_get os_open outer data c = Conf_Unmarshal J http_get' os_open' outer data c"
    if "outer data = Inr d" "includes_of inc d = Inr incs" "\<not> (\<exists>n \<in> set incs. n \<noteq> [])" for data d incs c
    using that by (intro conf_without_includes [OF assms(1)]) auto
  then show ?thesis
    unfolding cmd_checkConfig_def Let_def assms(2) by (simp split: sum.split)
qed

text \<open>A small world: the text of a node is the name it includes, the text of a core is its type.\<close>

definition pf_J :: json_decoders where
  "pf_J = \<lparr>js_options = (\<lambda>b x. (None, x)), js_xrayOptions = (\<lambda>b x. (None, x)), js_singOptions = (\<lambda>b x. (None, x)),
     js_core = (\<lambda>b c. (None, c\<lparr>co_Type := b\<rparr>)), js_xray = (\<lambda>b x. (None, x)), js_sing = (\<lambda>b x. (None, x)), js_hy2 = (\<lambda>b x. (None, x)),
     js_rawNode = (\<lambda>b r. (None, r\<lparr>rn_Include := b\<rparr>)), js_api = (\<lambda>b a. (None, a\<lparr>ac_NodeID := 1, ac_Key := ''k''\<rparr>))\<rparr>"

definition pf_outer :: "string \<Rightarrow> conf_doc res" where
  "pf_outer s = Inr \<lparr>cd_LogLevel = ''info'', cd_LogOutput = [], cd_Cores = [''xray''], cd_Nodes = [if s = ''conf'' then [] else s]\<rparr>"

lemma pf_sees: "sees_includes pf_J Inr"
  by (auto simp: sees_includes_def pf_J_def)

lemma pf_read: "read_stripped (Inr ''conf'') = Inr ''conf''" "read_stripped (Inr ''incl'') = Inr ''incl''"
  by code_simp+

theorem preflight_is_offline_witness:
  "cmd_checkConfig pf_J [] [] (\<lambda>u. Inl ''down'') (\<lambda>f. if f = ''c'' then Inr ''incl'' else Inl ''missing'') Inr pf_outer Inr ''c'' =
     Some needs_migration \<and>
   cmd_checkConfig pf_J [] [] (\<lambda>u. Inr ''page'') (\<lambda>f. if f = ''c'' then Inr ''incl'' else Inr ''other'') Inr pf_outer Inr ''c'' =
     Some needs_migration"
proof -
  let ?a = "\<lambda>f. if f = ''c'' then Inr ''incl'' else Inl ''missing''"
  let ?b = "\<lambda>f. if f = ''c'' then Inr ''incl'' else Inr ''other''"
  have o1: "?a ''c'' = ?b ''c''" by simp
  note n = preflight_is_offline [where os_open = ?a and os_open' = ?b and path = "''c''" and V = "[]" and NV = "[]" and
    http_get = "\<lambda>u. Inl ''down''" and http_get' = "\<lambda>u. Inr ''page''" and read_all = Inr and outer = pf_outer, OF pf_sees o1]
  have "cmd_checkConfig pf_J [] [] (\<lambda>u. Inl ''down'') ?a Inr pf_outer Inr ''c'' = Some needs_migration"
    by (simp add: cmd_checkConfig_def pf_read pf_outer_def includes_of_def check_limit_def)
  with n show ?thesis by simp
qed

section \<open>What passes the check starts\<close>

text \<open>The two decoders read the files of the parts alike.\<close>

definition parts_agree :: "('cd, 'd, 'cr, 'r, 'ci, 'i, 'co, 'o, 'x) xray_loader \<Rightarrow> bool" where
  "parts_agree W \<longleftrightarrow> xp_v1 (xw_Dns W) = xp_v2 (xw_Dns W) \<and> xp_v1 (xw_Routing W) = xp_v2 (xw_Routing W) \<and>
     xp_v1 (xw_Inbound W) = xp_v2 (xw_Inbound W) \<and> xp_v1 (xw_Outbound W) = xp_v2 (xw_Outbound W)"

lemma first_err_None [simp]: "first_err es = None \<longleftrightarrow> (\<forall>e \<in> set es. e = None)"
  by (induction es) (auto split: option.split)

declare first_err.simps [simp del]

lemma then_build_None: "then_build r b = None \<longleftrightarrow> (\<exists>c x. r = Inr c \<and> b c = Inr x)"
  by (auto simp: then_build_def err_of_def split: sum.splits)

lemma read_part_panicking: "xp_v1 p = xp_v2 p \<Longrightarrow> read_part rf p path = Inr c \<Longrightarrow> panicking_part rf p what path = Inr c"
  by (auto simp: read_part_def panicking_part_def split: if_splits sum.splits)

lemma read_part_dns: "xp_v1 p = xp_v2 p \<Longrightarrow> read_part rf p path = Inr c \<Longrightarrow> dns_config rf p path = c"
  by (auto simp: read_part_def dns_config_def split: if_splits sum.splits)

lemma checked_getCore:
  assumes "Xray_checkConfig W c = None" and "parts_agree W"
  obtains xc ic where "co_XrayConfig c = Some xc"
    and "getCore W xc = (case xw_New W ic of Inl e \<Rightarrow> Inl ''failed to create instance'' | Inr x \<Rightarrow> Inr x)"
proof -
  from assms(1) obtain xc where xc: "co_XrayConfig c = Some xc" by (auto simp: Xray_checkConfig_def split: option.splits)
  from assms(1) xc obtain d d' r r' i i' o1 o' where
    parts: "read_part (xw_ReadFile W) (xw_Dns W) (xr_DnsConfigPath xc) = Inr d"
      "read_part (xw_ReadFile W) (xw_Routing W) (xr_RouteConfigPath xc) = Inr r"
      "read_part (xw_ReadFile W) (xw_Inbound W) (xr_InboundConfigPath xc) = Inr i"
      "read_part (xw_ReadFile W) (xw_Outbound W) (xr_OutboundConfigPath xc) = Inr o1"
    and built: "xp_Build (xw_Dns W) d = Inr d'" "xp_Build (xw_Routing W) r = Inr r'"
      "build_all (xp_Build (xw_Inbound W)) i = Inr i'" "build_all (xp_Build (xw_Outbound W)) o1 = Inr o'"
    by (auto simp: Xray_checkConfig_def then_build_None)
  note a = assms(2) [unfolded parts_agree_def]
  have "dns_config (xw_ReadFile W) (xw_Dns W) (xr_DnsConfigPath xc) = d" using a parts(1) by (simp add: read_part_dns)
  moreover have "panicking_part (xw_ReadFile W) (xw_Routing W) what (xr_RouteConfigPath xc) = Inr r" for what
    using a parts(2) by (simp add: read_part_panicking)
  moreover have "panicking_part (xw_ReadFile W) (xw_Inbound W) what (xr_InboundConfigPath xc) = Inr i" for what
    using a parts(3) by (simp add: read_part_panicking)
  moreover have "panicking_part (xw_ReadFile W) (xw_Outbound W) what (xr_OutboundConfigPath xc) = Inr o1" for what
    using a parts(4) by (simp add: read_part_panicking)
  ultimately have "getCore W xc = (case xw_New W \<lparr>in_Log = xr_LogConfig xc, in_Policy = [(0, parseConnectionConfig (xr_ConnectionConfig xc))],
      in_Dns = d', in_Routing = r', in_Inbound = i', in_Outbound = o'\<rparr> of Inl e \<Rightarrow> Inl ''failed to create instance'' | Inr x \<Rightarrow> Inr x)"
    using built by (simp add: getCore_def understand_def)
  with xc that show ?thesis by blast
qed

lemma checked_conf:
  assumes "cmd_checkConfig J V NV http_get os_open read_all outer inc path = None"
  obtains f body c where "os_open path = Inr f" and "read_stripped (read_all f) = Inr body"
    and "Conf_Unmarshal J http_get os_open outer (take check_limit body) New_Conf = (None, c)"
    and "CheckConfig J V NV (cf_CoresConfig c) (cf_NodeConfig c) = None"
proof -
  from assms obtain f body where f: "os_open path = Inr f" "read_stripped (read_all f) = Inr body"
    by (auto simp: cmd_checkConfig_def split: sum.splits)
  obtain e c where c: "Conf_Unmarshal J http_get os_open outer (take check_limit body) New_Conf = (e, c)" by fastforce
  from assms f c have "e = None" "CheckConfig J V NV (cf_CoresConfig c) (cf_NodeConfig c) = None"
    by (auto simp: cmd_checkConfig_def Let_def split: sum.splits if_splits option.splits)
  with f c that show ?thesis by simp
qed

lemma validators_lookup:
  assumes "map_of (all_validators W F) ty = Some v"
  shows "ty = ''xray'' \<and> v = Xray_checkConfig W \<or> ty = ''sing'' \<and> v = Sing_checkConfig F \<or> ty = ''hysteria2'' \<and> v = Hy2_checkConfig"
  using assms by (auto simp: all_validators_def RegisterConfigValidator_def split: if_splits)


definition pf_part :: "(unit, unit, unit) xray_part" where
  "pf_part = \<lparr>xp_zero = (), xp_v1 = (\<lambda>s. Inr ()), xp_v2 = (\<lambda>s. Inr ()), xp_Build = (\<lambda>c. Inr ())\<rparr>"

definition pf_handlers :: "(unit list, unit, unit) xray_part" where
  "pf_handlers = \<lparr>xp_zero = [], xp_v1 = (\<lambda>s. Inr [()]), xp_v2 = (\<lambda>s. Inr [()]), xp_Build = (\<lambda>c. Inr ())\<rparr>"

definition pf_xray :: "(unit, unit, unit, unit, unit, unit, unit, unit, nat) xray_loader" where
  "pf_xray = \<lparr>xw_ReadFile = (\<lambda>f. Inr f), xw_Dns = pf_part, xw_Routing = pf_part, xw_Inbound = pf_handlers, xw_Outbound = pf_handlers,
     xw_New = (\<lambda>c. Inr (length (in_Inbound c)))\<rparr>"

definition pf_sing :: "(unit, unit) sing_loader" where
  "pf_sing = \<lparr>ld_ReadFile = Inr, ld_normalize = Inr, ld_Unmarshal = (\<lambda>s. Inr ()), ld_empty = (), ld_Log = (\<lambda>l x. x),
     ld_NTP = (\<lambda>n x. x), ld_New = Inr\<rparr>"

lemma pf_checked:
  "cmd_checkConfig pf_J (all_validators pf_xray pf_sing) [] (\<lambda>u. Inl ''down'') (\<lambda>f. Inr ''conf'') Inr pf_outer Inr ''c'' = None"
proof -
  have "build_all (Inr :: string \<Rightarrow> string res) [[]] = Inr [[]]" by simp
  moreover have "Conf_Unmarshal pf_J (\<lambda>u. Inl ''down'') (\<lambda>f. Inr ''conf'') pf_outer ''conf'' New_Conf =
      (None, New_Conf\<lparr>cf_CoresConfig := [CoreConfig_zero\<lparr>co_Type := ''xray'', co_XrayConfig := Some NewXrayConfig\<rparr>],
         cf_NodeConfig := [\<lparr>nc_ApiConfig = default_api\<lparr>ac_NodeID := 1, ac_Key := ''k''\<rparr>, nc_Options = default_options\<rparr>]\<rparr>)"
    by code_simp
  moreover have "CheckConfig pf_J (all_validators pf_xray pf_sing) [] [CoreConfig_zero\<lparr>co_Type := ''xray'', co_XrayConfig := Some NewXrayConfig\<rparr>]
      [\<lparr>nc_ApiConfig = default_api\<lparr>ac_NodeID := 1, ac_Key := ''k''\<rparr>, nc_Options = default_options\<rparr>] = None" by code_simp
  ultimately show ?thesis
    by (simp add: cmd_checkConfig_def pf_read pf_outer_def includes_of_def check_limit_def)
qed


text \<open>When the decoders differ - the one of the start refuses a repeated name - a configuration passes the check and its start panics.\<close>

lemma checked_config_panics:
  assumes "Xray_checkConfig W c = None" and "co_XrayConfig c = Some xc" and "xr_RouteConfigPath xc \<noteq> []"
    and "xw_ReadFile W (xr_RouteConfigPath xc) = Inr data" and "xp_v2 (xw_Routing W) data = Inl e"
    and "xr_DnsConfigPath xc = []"
  shows "Xray_New W fs c = Inl ''Failed to unmarshal Routing config''"
proof -
  obtain d where "xp_Build (xw_Dns W) (xp_zero (xw_Dns W)) = Inr d"
    using assms(1,2,6) by (auto simp: Xray_checkConfig_def then_build_None read_part_def)
  then show ?thesis using assms(2-) by (simp add: Xray_New_def getCore_def understand_def panicking_part_def dns_config_def)
qed

text \<open>A DNS file that cannot be read stops the check, but not the start.\<close>

lemma dns_fault_only_checked:
  assumes "co_XrayConfig c = Some xc" and "xr_DnsConfigPath xc \<noteq> []" and "xw_ReadFile W (xr_DnsConfigPath xc) = Inl e"
  shows "Xray_checkConfig W c = Some e" and "dns_config (xw_ReadFile W) (xw_Dns W) (xr_DnsConfigPath xc) = xp_zero (xw_Dns W)"
  using assms by (simp_all add: Xray_checkConfig_def read_part_def then_build_def dns_config_def first_err.simps)

end
