(* ===== verification/Commands.thy ===== *)
theory Commands
  imports Vless
begin

text \<open>
  The commands that make keys and normalise a configuration (runtime/cmd/vlessenc.go, cmd/x25519.go, common/crypt/x25519.go and
  common/configjson/yaml.go).  The generators, the hash, the curve and the YAML and JSON libraries are
  parameters; bytes are numbers below 256.
\<close>

section \<open>The parameters of VLESS encryption\<close>

text \<open>\<open>base64.RawURLEncoding.EncodeToString\<close>, group by group.\<close>

fun sextet_groups :: "nat list \<Rightarrow> nat list" where
  "sextet_groups [] = []"
| "sextet_groups [x] = [x div 4, 16 * (x mod 4)]"
| "sextet_groups [x, y] = [x div 4, 16 * (x mod 4) + y div 16, 4 * (y mod 16)]"
| "sextet_groups (x # y # z # bs) =
     x div 4 # (16 * (x mod 4) + y div 16) # (4 * (y mod 16) + z div 64) # (z mod 64) # sextet_groups bs"

definition RawURL_EncodeToString :: "nat list \<Rightarrow> string" where
  "RawURL_EncodeToString bs = map (\<lambda>d. b64url_alphabet ! d) (sextet_groups bs)"

text \<open>A generated key: its private and its public bytes.\<close>

record keygen =
  kg_X25519 :: "(nat list \<times> nat list) res"
  kg_MLKEM768 :: "(nat list \<times> nat list) res"

record vless_parameters =
  vp_decryption :: string
  vp_encryption :: string

definition generate_key :: "keygen \<Rightarrow> string \<Rightarrow> (nat list \<times> nat list) res" where
  "generate_key G auth = (if auth = ''x25519'' then kg_X25519 G
     else if auth = ''mlkem768'' then kg_MLKEM768 G
     else Inl ''authentication must be x25519 or mlkem768'')"

definition generateVLESSParameters :: "keygen \<Rightarrow> string \<Rightarrow> vless_parameters res" where
  "generateVLESSParameters G auth = (case generate_key G auth of
     Inl e \<Rightarrow> Inl e
   | Inr (private, public) \<Rightarrow> Inr
      \<lparr>vp_decryption = ''mlkem768x25519plus.native.600s.'' @ RawURL_EncodeToString private,
       vp_encryption = ''mlkem768x25519plus.native.0rtt.'' @ RawURL_EncodeToString public\<rparr>)"

subsection \<open>What is encoded is decoded\<close>

definition bytes :: "nat list \<Rightarrow> bool" where
  "bytes bs \<longleftrightarrow> list_all (\<lambda>b. b < 256) bs"

lemma bytes_simps [simp]: "bytes []" "bytes (b # bs) \<longleftrightarrow> b < 256 \<and> bytes bs"
  by (simp_all add: bytes_def)

lemma sextet_groups_range: "bytes bs \<Longrightarrow> \<forall>d \<in> set (sextet_groups bs). d < 64"
  by (induction bs rule: sextet_groups.induct) (auto simp: less_mult_imp_div_less)

lemma octets_groups: "bytes bs \<Longrightarrow> octets (sextet_groups bs) = Some bs"
proof (induction bs rule: sextet_groups.induct)
  case (4 x y z bs)
  have "(16 * (x mod 4) + y div 16) div 16 = x mod 4" "(4 * (y mod 16) + z div 64) div 4 = y mod 16"
    using 4(2) by (auto simp: less_mult_imp_div_less)
  moreover have "16 * ((16 * (x mod 4) + y div 16) mod 16) = 16 * (y div 16)"
    "64 * ((4 * (y mod 16) + z div 64) mod 4) = 64 * (z div 64)"
    using 4(2) by (auto simp: less_mult_imp_div_less)
  ultimately show ?case using 4 by simp
next
  case (3 x y)
  have "(16 * (x mod 4) + y div 16) div 16 = x mod 4" "16 * ((16 * (x mod 4) + y div 16) mod 16) = 16 * (y div 16)"
    using 3 by (auto simp: less_mult_imp_div_less)
  then show ?case by simp
qed simp_all

lemma sextet_alphabet: "d < 64 \<Longrightarrow> sextet (b64url_alphabet ! d) = Some d"
proof -
  have "list_all (\<lambda>d. sextet (b64url_alphabet ! d) = Some d) [0..<64]" by code_simp
  then show "d < 64 \<Longrightarrow> sextet (b64url_alphabet ! d) = Some d" by (simp add: list_all_iff)
qed

lemma sextets_encoded: "\<forall>d \<in> set ds. d < 64 \<Longrightarrow> sextets (map (\<lambda>d. b64url_alphabet ! d) ds) = Some ds"
proof (induction ds)
  case (Cons d ds)
  have "sextet (CHR 0x0A) = None" "sextet (CHR 0x0D) = None" by code_simp+
  with sextet_alphabet [of d] Cons.prems have "b64url_alphabet ! d \<noteq> CHR 0x0A" "b64url_alphabet ! d \<noteq> CHR 0x0D" by auto
  with Cons sextet_alphabet [of d] show ?case by simp
qed simp

lemma RawURL_roundtrip: "bytes bs \<Longrightarrow> RawURL_DecodeString (RawURL_EncodeToString bs) = Some bs"
  by (simp add: RawURL_DecodeString_def RawURL_EncodeToString_def sextets_encoded [OF sextet_groups_range] octets_groups)

lemma length_sextet_groups: "length bs \<le> length (sextet_groups bs)"
  by (induction bs rule: sextet_groups.induct) auto

text \<open>C21: when the generators give keys of their documented lengths - 32 bytes for X25519, a seed of 64 for ML-KEM - the decryption
  setting that the command prints is one the panel client accepts for a node, unchanged, and its last part is the private key.\<close>

theorem generated_decryption_accepted:
  assumes "generateVLESSParameters G auth = Inr p"
    and "\<And>priv pub. kg_X25519 G = Inr (priv, pub) \<Longrightarrow> length priv = 32 \<and> bytes priv"
    and "\<And>priv pub. kg_MLKEM768 G = Inr (priv, pub) \<Longrightarrow> length priv = 64 \<and> bytes priv"
    and "va_Decryption n = Some (vp_decryption p)" and "va_Encryption n = []" and "va_EncryptionSettings n = EncSettings_zero"
  shows "VLESSDecryption (Some n) = Inr (vp_decryption p) \<and>
    (\<exists>priv pub. generate_key G auth = Inr (priv, pub) \<and>
       RawURL_DecodeString (last (Split (vp_decryption p) (CHR ''.''))) = Some priv)"
proof -
  from assms(1) obtain priv pub where g: "generate_key G auth = Inr (priv, pub)"
    by (auto simp: generateVLESSParameters_def split: sum.splits)
  then have k: "kg_X25519 G = Inr (priv, pub) \<or> kg_MLKEM768 G = Inr (priv, pub)"
    by (simp add: generate_key_def split: if_splits)
  from assms(1) g have p: "vp_decryption p = ''mlkem768x25519plus.native.600s.'' @ RawURL_EncodeToString priv"
    by (simp add: generateVLESSParameters_def) (erule subst, simp)
  have l: "length priv = 32 \<or> length priv = 64" and b: "bytes priv" using k assms(2,3) by blast+
  let ?k = "RawURL_EncodeToString priv"
  have key: "is_key ?k" using RawURL_roundtrip [OF b] l by (auto simp: is_key_def)
  have nopad: "\<not> is_padding ?k"
    using length_sextet_groups [of priv] l by (auto simp: is_padding_def RawURL_EncodeToString_def)
  have tx: "vp_decryption p = vless_text ''native'' [''600''] [?k]" by (simp add: p vless_text_def vless_alg_def)
  have "lifetimes [''600'']" by (simp add: lifetimes_def lifetime_def ParseUint_def parse_digits_def digit_val_def)
  then have v: "ValidateVLESSDecryption (vp_decryption p) = None"
    using key nopad tx vless_text_parts [of "''native''" "[''600'']" "[?k]"] Validate_parts_ok [of "vp_decryption p"]
    by (simp add: vless_mode_def vless_text_def vless_alg_def)
  have "Split (vp_decryption p) (CHR ''.'') = [vless_alg, ''native'', ''600s'', ?k]"
    using Split_vless_text [of "''native''" "[''600'']" "[?k]"] key tx \<open>lifetimes [''600'']\<close> by (simp add: vless_mode_def)
  then have "RawURL_DecodeString (last (Split (vp_decryption p) (CHR ''.''))) = Some priv"
    using RawURL_roundtrip [OF b] by simp
  moreover have "VLESSDecryption (Some n) = Inr (vp_decryption p)" using v assms(4-6) by (simp add: VLESSDecryption_def Let_def)
  ultimately show ?thesis using g by blast
qed

definition keys_demo :: keygen where
  "keys_demo = \<lparr>kg_X25519 = Inr (replicate 32 7, replicate 32 9), kg_MLKEM768 = Inr (replicate 64 1, [2])\<rparr>"

definition keys_demo_parameters :: vless_parameters where
  "keys_demo_parameters = \<lparr>vp_decryption = ''mlkem768x25519plus.native.600s.'' @ RawURL_EncodeToString (replicate 32 7),
     vp_encryption = ''mlkem768x25519plus.native.0rtt.'' @ RawURL_EncodeToString (replicate 32 9)\<rparr>"

definition keys_demo_node :: VAllssNode where
  "keys_demo_node = demo_node\<lparr>va_Decryption := Some (vp_decryption keys_demo_parameters), va_Encryption := [],
     va_EncryptionSettings := EncSettings_zero\<rparr>"

theorem generated_decryption_accepted_witness:
  "VLESSDecryption (Some keys_demo_node) = Inr (vp_decryption keys_demo_parameters)"
proof -
  have g: "generateVLESSParameters keys_demo ''x25519'' = Inr keys_demo_parameters"
    by (simp add: generateVLESSParameters_def generate_key_def keys_demo_def keys_demo_parameters_def)
  have "\<And>priv pub. kg_X25519 keys_demo = Inr (priv, pub) \<Longrightarrow> length priv = 32 \<and> bytes priv"
    "\<And>priv pub. kg_MLKEM768 keys_demo = Inr (priv, pub) \<Longrightarrow> length priv = 64 \<and> bytes priv"
    by (auto simp: keys_demo_def bytes_def list_all_iff)
  from generated_decryption_accepted [where n = keys_demo_node, OF g this] show ?thesis by (simp add: keys_demo_node_def)
qed

section \<open>Keys from the description of a node\<close>

unbundle bit_operations_syntax

definition GenX25519Private :: "(string \<Rightarrow> nat list) \<Rightarrow> string \<Rightarrow> nat list" where
  "GenX25519Private sha256 data = (let key = sha256 data
     in take 32 (key[0 := key ! 0 AND 248, 31 := (key ! 31 AND 127) OR 64]))"

text \<open>The command: the answers, the random source and the curve; the private and the public key it prints.\<close>

definition executeX25519 ::
  "(string \<Rightarrow> nat list) \<Rightarrow> nat list res \<Rightarrow> (nat list \<Rightarrow> nat list res) \<Rightarrow> string \<Rightarrow> string \<Rightarrow> string \<Rightarrow> string \<Rightarrow> (string \<times> string) res" where
  "executeX25519 sha256 rand curve yes ident ty token =
     (case (if ToLower yes = ''y'' then Inr (GenX25519Private sha256 (ident @ ToLower ty @ token)) else rand) of
        Inl e \<Rightarrow> Inl (''read rand error: '' @ e)
      | Inr priv \<Rightarrow> (case curve priv of
          Inl e \<Rightarrow> Inl (''gen X25519 error: '' @ e)
        | Inr pub \<Rightarrow> Inr (RawURL_EncodeToString priv, RawURL_EncodeToString pub)))"

text \<open>The key is a clamped scalar: a multiple of the cofactor, with the highest bit clear and the one below it set.\<close>

lemma clamped:
  assumes "length (sha256 data) = 32"
  shows "GenX25519Private sha256 data ! 0 mod 8 = 0" and "64 \<le> GenX25519Private sha256 data ! 31"
    and "GenX25519Private sha256 data ! 31 < 128"
proof -
  let ?k = "sha256 data"
  have "take_bit 3 (?k ! 0 AND 248) = 0" by (simp add: take_bit_and)
  then show "GenX25519Private sha256 data ! 0 mod 8 = 0"
    using assms by (simp add: GenX25519Private_def Let_def take_bit_eq_mod nth_list_update)
  let ?x = "(?k ! 31 AND 127) OR 64"
  have x: "GenX25519Private sha256 data ! 31 = ?x" using assms by (simp add: GenX25519Private_def Let_def nth_list_update)
  have "?k ! 31 AND 127 = take_bit 7 (?k ! 31)" by (simp add: take_bit_eq_mask mask_eq_exp_minus_1)
  then have "take_bit 7 ?x = ?x" by (simp add: take_bit_or)
  then show "GenX25519Private sha256 data ! 31 < 128" unfolding x using take_bit_nat_less_exp [of 7 ?x] by simp
  have "bit (64 :: nat) 6" by code_simp
  then have "bit ?x 6" by (simp only: bit_or_iff simp_thms)
  then have "take_bit 6 ?x \<noteq> ?x" by (metis bit_take_bit_iff less_irrefl)
  then show "64 \<le> GenX25519Private sha256 data ! 31" unfolding x using take_bit_nat_eq_self [of ?x 6] by (cases "?x < 64") simp_all
qed

section \<open>Normalising a Hysteria configuration\<close>

datatype yaml_kind = DocumentNode | SequenceNode | MappingNode | ScalarNode | AliasNode

text \<open>A node: its kind, tag, anchor and content.\<close>

datatype yaml_node = YNode (yn_Kind: yaml_kind) (yn_Tag: string) (yn_Anchor: string) (yn_Content: "yaml_node list")

definition plain_tags :: "string list" where
  "plain_tags = [[], ''!!map'', ''!!seq'', ''!!str'', ''!!bool'', ''!!null'', ''!!int'', ''!!float'']"

fun plainNode :: "yaml_node \<Rightarrow> bool" where
  "plainNode (YNode k tag anchor cs) =
     (if k = AliasNode \<or> anchor \<noteq> [] then False
      else if tag \<notin> set plain_tags then False else list_all plainNode cs)"

text \<open>The libraries: the first document with what a second decoding gives (whether it is the end of the input), the value of
  a document, and its JSON.\<close>

record 'v yaml_lib =
  yl_Decode :: "string \<Rightarrow> yaml_node res \<times> bool"
  yl_Value :: "yaml_node \<Rightarrow> 'v res"
  yl_Marshal :: "'v \<Rightarrow> string res"

definition maxConfigSize :: nat where
  "maxConfigSize = 16 * 2 ^ 20"

definition too_large :: err where "too_large = ''cannot read HY2 config or config exceeds 16 MiB''"
definition no_mapping :: err where "no_mapping = ''HY2 config must contain one mapping''"
definition not_plain :: err where "not_plain = ''HY2 config cannot contain multiple documents, aliases or custom tags''"
definition bad_values :: err where "bad_values = ''invalid HY2 config (check duplicate keys and value types)''"
definition no_json :: err where "no_json = ''HY2 config cannot be represented as JSON''"

text \<open>The file is read up to one byte more than is allowed; a document node has the top node as its content.\<close>

definition Normalize :: "'v yaml_lib \<Rightarrow> string res \<Rightarrow> string res" where
  "Normalize L r = (case map_sum id (take (maxConfigSize + 1)) r of
     Inl e \<Rightarrow> Inl too_large
   | Inr data \<Rightarrow>
       if length data > maxConfigSize then Inl too_large
       else (case yl_Decode L data of
         (Inl e, eof) \<Rightarrow> Inl no_mapping
       | (Inr node, eof) \<Rightarrow>
           if length (yn_Content node) \<noteq> 1 \<or> yn_Kind (yn_Content node ! 0) \<noteq> MappingNode
           then Inl no_mapping
           else if \<not> eof \<or> \<not> plainNode node
           then Inl not_plain
           else (case yl_Value L node of
               Inl e \<Rightarrow> Inl bad_values
             | Inr v \<Rightarrow> (case yl_Marshal L v of
                 Inl e \<Rightarrow> Inl no_json | Inr out \<Rightarrow> Inr (out @ [CHR 0x0A])))))"

text \<open>All nodes of a document.\<close>

fun nodes_of :: "yaml_node \<Rightarrow> yaml_node list" where
  "nodes_of (YNode k tag anchor cs) = YNode k tag anchor cs # concat (map nodes_of cs)"

lemma plainNode_nodes:
  "plainNode n \<longleftrightarrow> (\<forall>m \<in> set (nodes_of n). yn_Kind m \<noteq> AliasNode \<and> yn_Anchor m = [] \<and> yn_Tag m \<in> set plain_tags)"
  by (induction n rule: plainNode.induct) (auto simp: list_all_iff)

text \<open>No error tells anything of the input or of what a parser says about it, and what is printed comes from one plain mapping that was
  read in full.\<close>

lemma Normalize_error_generic: "Normalize L r = Inl e \<Longrightarrow> e \<in> {too_large, no_mapping, not_plain, bad_values, no_json}"
  unfolding Normalize_def by (auto split: sum.splits prod.splits if_splits)

lemma Normalize_output:
  assumes "Normalize L r = Inr out"
  obtains data node v j where "r = Inr data" and "length data \<le> maxConfigSize" and "yl_Decode L data = (Inr node, True)"
    and "\<forall>m \<in> set (nodes_of node). yn_Kind m \<noteq> AliasNode \<and> yn_Anchor m = [] \<and> yn_Tag m \<in> set plain_tags"
    and "yl_Value L node = Inr v" and "yl_Marshal L v = Inr j" and "out = j @ [CHR 0x0A]"
proof -
  from assms obtain data where r: "r = Inr data" by (cases r) (auto simp: Normalize_def)
  let ?d = "take (maxConfigSize + 1) data"
  from assms r have l: "length ?d \<le> maxConfigSize" by (auto simp: Normalize_def split: if_splits)
  then have d: "?d = data" by auto
  obtain n eof where y: "yl_Decode L data = (n, eof)" by fastforce
  from assms r d y obtain node v j where "n = Inr node" "eof" "plainNode node" "yl_Value L node = Inr v" "yl_Marshal L v = Inr j"
    "out = j @ [CHR 0x0A]"
    by (auto simp: Normalize_def split: if_splits sum.splits)
  with r l d y that plainNode_nodes show ?thesis by metis
qed

end
