(* ===== verification/VMess_Stream.thy ===== *)
theory VMess_Stream
  imports Sing_Login AnyTLS_Props
begin

text \<open>
  What travels on the connections of the patched sing-vmess (runtime/patches, sing-vmess service.go and vless/service.go): the request
  header of VMess as its service reads it, whatever portion of it the first read brings, the response header, and the
  response and the packets of VLESS.  Key derivation, sealing, the stream cipher, the digests and the parser of addresses are library
  functions.
\<close>

section \<open>VMess requests\<close>

text \<open>
  \<open>vl_KDF\<close> takes the key, the name of a salt and the path; \<open>vl_Stream\<close> is the old stream cipher, \<open>vl_TimeHash\<close> its nonce for a time;
  \<open>vl_Addr\<close> gives an address and the number of bytes it took; \<open>vl_Capacity\<close> is the size of a buffer.
\<close>

record vmess_lib =
  vl_KDF :: "string \<Rightarrow> string \<Rightarrow> string list \<Rightarrow> string"
  vl_Seal :: "string \<Rightarrow> string \<Rightarrow> string \<Rightarrow> string \<Rightarrow> string"
  vl_Open :: "string \<Rightarrow> string \<Rightarrow> string \<Rightarrow> string \<Rightarrow> string res"
  vl_Stream :: "string \<Rightarrow> string \<Rightarrow> string \<Rightarrow> string"
  vl_TimeHash :: "int \<Rightarrow> string"
  vl_MD5 :: "string \<Rightarrow> string"
  vl_SHA256 :: "string \<Rightarrow> string"
  vl_Addr :: "string \<Rightarrow> (string \<times> nat) res"
  vl_Capacity :: nat
  vl_Version :: nat
  vl_CommandTCP :: nat
  vl_CommandUDP :: nat
  vl_CommandMux :: nat
  vl_ChunkStream :: "nat \<Rightarrow> bool"

definition byte_at :: "string \<Rightarrow> nat \<Rightarrow> nat" where
  "byte_at s i = of_char (s ! i)"

definition slice :: "nat \<Rightarrow> nat \<Rightarrow> string \<Rightarrow> string" where
  "slice a b s = take (b - a) (drop a s)"

definition aeadMinHeaderLen :: nat where
  "aeadMinHeaderLen = 16 + 18 + 8 + 16 + 42"

definition minHeaderLen :: "VMessService \<Rightarrow> nat" where
  "minHeaderLen s = (if length (vms_alterIds s) > 0 then 16 + 38 else aeadMinHeaderLen)"

text \<open>
  The header of the present protocol and where it ends: \<open>inp\<close> is all that the client sends, \<open>n\<close> what the first read brought.
\<close>

definition open_header :: "vmess_lib \<Rightarrow> string \<Rightarrow> nat \<Rightarrow> string \<Rightarrow> (string \<times> nat) res" where
  "open_header L cmdKey n inp =
     (let req = take n inp; authId = take 16 req; nonce = slice 34 42 req;
          lengthKey = take 16 (vl_KDF L cmdKey ''VMess Header AEAD Key_Length'' [authId, nonce]);
          lengthNonce = take 12 (vl_KDF L cmdKey ''VMess Header AEAD Nonce_Length'' [authId, nonce])
      in if length req < aeadMinHeaderLen then Inl ''bad header''
         else (case vl_Open L lengthKey lengthNonce (slice 16 34 req) authId of
             Inl e \<Rightarrow> Inl e
           | Inr lengthBuffer \<Rightarrow>
               (let stop = 42 + get16 lengthBuffer + 16;
                    headerKey = take 16 (vl_KDF L cmdKey ''VMess Header AEAD Key'' [authId, nonce]);
                    headerNonce = take 12 (vl_KDF L cmdKey ''VMess Header AEAD Nonce'' [authId, nonce])
                in if stop > length req \<and> stop > vl_Capacity L then Inl ''short buffer''
                   else if stop > length inp then Inl ''unexpected EOF''
                   else (case vl_Open L headerKey headerNonce (slice 42 stop inp) authId of
                       Inl e \<Rightarrow> Inl e
                     | Inr hdr \<Rightarrow> if length hdr \<le> 38 then Inl ''bad header: short buffer'' else Inr (hdr, stop)))))"

text \<open>The header of the old protocol: the rest of the connection through the stream cipher.\<close>

definition legacy_header :: "vmess_lib \<Rightarrow> string \<Rightarrow> int \<Rightarrow> string \<Rightarrow> string res" where
  "legacy_header L cmdKey time inp =
     (let clear = vl_Stream L cmdKey (vl_TimeHash L time) (drop 16 inp)
      in if length clear < 38 then Inl ''bad header: short buffer'' else Inr clear)"

record vmess_request =
  vr_Key :: string
  vr_Nonce :: string
  vr_Response :: nat
  vr_Option :: nat
  vr_Security :: nat
  vr_Command :: nat
  vr_Destination :: string
  vr_Chunked :: bool

text \<open>The fields of a header, and how many bytes follow its first 38.\<close>

definition parse_header :: "vmess_lib \<Rightarrow> string \<Rightarrow> (vmess_request \<times> nat) res" where
  "parse_header L h =
     (let option = byte_at h 34; paddingLen = byte_at h 35 div 16; command = byte_at h 37; rest = drop 38 h
      in if byte_at h 0 \<noteq> vl_Version L then Inl ''bad version''
         else if command \<notin> {vl_CommandTCP L, vl_CommandUDP L, vl_CommandMux L} then Inl ''unknown command: ''
         else if command = vl_CommandUDP L \<and> option = 0 then Inl ''bad packet connection''
         else (case (if command \<noteq> vl_CommandMux L then vl_Addr L rest else Inr ([], 0)) of
             Inl e \<Rightarrow> Inl e
           | Inr (destination, k) \<Rightarrow>
               if length rest < k + paddingLen then Inl ''bad header: bad padding''
               else if length rest < k + paddingLen + 4 then Inl ''EOF''
               else Inr (\<lparr>vr_Key = slice 17 33 h, vr_Nonce = slice 1 17 h, vr_Response = byte_at h 33, vr_Option = option,
                      vr_Security = byte_at h 35 mod 16, vr_Command = command, vr_Destination = destination,
                      vr_Chunked = (vl_ChunkStream L option \<and> command = vl_CommandTCP L \<or> command = vl_CommandMux L)\<rparr>,
                    k + paddingLen + 4)))"

text \<open>A connection that is served: how and for whom, its request, whether it is of the old protocol, and what is left of the input
  for its body.\<close>

record vmess_conn =
  vn_Login :: login
  vn_Request :: vmess_request
  vn_Legacy :: bool
  vn_Body :: string

definition serve_as :: "vmess_lib \<Rightarrow> nat \<Rightarrow> string \<Rightarrow> login" where
  "serve_as L command user = (if command = vl_CommandTCP L then ServeTCP user
     else if command = vl_CommandUDP L then ServeUDP user else ServeMux user)"

definition VMess_NewConnection ::
  "vmess_lib \<Rightarrow> vmess_decode \<Rightarrow> bool \<Rightarrow> nat res \<Rightarrow> string \<Rightarrow> VMessService \<Rightarrow> vmess_conn res" where
  "VMess_NewConnection L V disableHeaderProtect first inp s = (case first of
     Inl e \<Rightarrow> Inl e
   | Inr n \<Rightarrow>
       if n < minHeaderLen s then Inl (if disableHeaderProtect then ''unexpected EOF'' else ''bad header'')
       else (case VMess_identify V (take 16 inp) s of
           Inl e \<Rightarrow> Inl e
         | Inr (user, Some time) \<Rightarrow>
             (case legacy_header L (mget_or [] (vms_userKey s) user) time inp of
                Inl e \<Rightarrow> Inl e
              | Inr clear \<Rightarrow> (case parse_header L clear of
                  Inl e \<Rightarrow> Inl e
                | Inr (r, k) \<Rightarrow> Inr \<lparr>vn_Login = serve_as L (vr_Command r) user, vn_Request = r, vn_Legacy = True,
                     vn_Body = drop (16 + 38 + k) inp\<rparr>))
         | Inr (user, None) \<Rightarrow>
             (case open_header L (mget_or [] (vms_userKey s) user) n inp of
                Inl e \<Rightarrow> Inl e
              | Inr (hdr, stop) \<Rightarrow> (case parse_header L hdr of
                  Inl e \<Rightarrow> Inl e
                | Inr (r, k) \<Rightarrow> Inr \<lparr>vn_Login = serve_as L (vr_Command r) user, vn_Request = r, vn_Legacy = False,
                     vn_Body = drop stop inp\<rparr>))))"

subsection \<open>What a client sends\<close>

text \<open>The library opens what it sealed, and a seal is sixteen bytes longer.\<close>

definition seals :: "vmess_lib \<Rightarrow> bool" where
  "seals L \<longleftrightarrow> (\<forall>k n p a. vl_Open L k n (vl_Seal L k n p a) a = Inr p \<and> length (vl_Seal L k n p a) = length p + 16)"

text \<open>The header of a request: an address, the padding, and four bytes of a checksum.\<close>

definition header_text :: "vmess_lib \<Rightarrow> vmess_request \<Rightarrow> string \<Rightarrow> string \<Rightarrow> string \<Rightarrow> string" where
  "header_text L r address padding check =
     [char_of (vl_Version L)] @ vr_Nonce r @ vr_Key r @ [char_of (vr_Response r), char_of (vr_Option r),
       char_of (16 * length padding + vr_Security r), CHR 0x00, char_of (vr_Command r)] @ address @ padding @ check"

definition request_bytes :: "vmess_lib \<Rightarrow> string \<Rightarrow> string \<Rightarrow> string \<Rightarrow> string \<Rightarrow> string \<Rightarrow> string" where
  "request_bytes L cmdKey authId nonce hdr body =
     authId @ vl_Seal L (take 16 (vl_KDF L cmdKey ''VMess Header AEAD Key_Length'' [authId, nonce]))
       (take 12 (vl_KDF L cmdKey ''VMess Header AEAD Nonce_Length'' [authId, nonce])) (put16 (length hdr)) authId
     @ nonce @ vl_Seal L (take 16 (vl_KDF L cmdKey ''VMess Header AEAD Key'' [authId, nonce]))
       (take 12 (vl_KDF L cmdKey ''VMess Header AEAD Nonce'' [authId, nonce])) hdr authId @ body"

text \<open>A request that the protocol can express; \<open>k\<close> bytes are its address.\<close>

definition proper_request :: "vmess_lib \<Rightarrow> vmess_request \<Rightarrow> string \<Rightarrow> string \<Rightarrow> string \<Rightarrow> bool" where
  "proper_request L r address padding check \<longleftrightarrow>
     length (vr_Nonce r) = 16 \<and> length (vr_Key r) = 16 \<and> length padding < 16 \<and> length check = 4 \<and>
     vl_Version L < 256 \<and> vr_Response r < 256 \<and> vr_Option r < 256 \<and> vr_Security r < 16 \<and> vr_Command r < 256 \<and>
     vr_Command r \<in> {vl_CommandTCP L, vl_CommandUDP L, vl_CommandMux L} \<and>
     (vr_Command r = vl_CommandUDP L \<longrightarrow> vr_Option r \<noteq> 0) \<and>
     (if vr_Command r = vl_CommandMux L then address = [] \<and> vr_Destination r = []
      else vl_Addr L (address @ padding @ check) = Inr (vr_Destination r, length address)) \<and>
     vr_Chunked r = (vl_ChunkStream L (vr_Option r) \<and> vr_Command r = vl_CommandTCP L \<or> vr_Command r = vl_CommandMux L)"

lemma nth_append_at: "length a = i \<Longrightarrow> (a @ x # b) ! i = x"
  by (simp add: nth_append)

lemma parse_header_text:
  assumes "proper_request L r address padding check"
  shows "parse_header L (header_text L r address padding check) = Inr (r, length address + length padding + 4)"
proof -
  let ?h = "header_text L r address padding check"
  note p = assms [unfolded proper_request_def]
  obtain n k where nk: "vr_Nonce r = n" "vr_Key r = k" "length n = 16" "length k = 16" using p by simp
  let ?t = "address @ padding @ check"
  have h: "?h = char_of (vl_Version L) # (n @ k @ [char_of (vr_Response r), char_of (vr_Option r),
      char_of (16 * length padding + vr_Security r), CHR 0x00, char_of (vr_Command r)] @ ?t)"
    by (simp add: header_text_def nk)
  have f: "?h ! 0 = char_of (vl_Version L)" "?h ! 33 = char_of (vr_Response r)" "?h ! 34 = char_of (vr_Option r)"
    "?h ! 35 = char_of (16 * length padding + vr_Security r)" "?h ! 37 = char_of (vr_Command r)"
    "slice 1 17 ?h = n" "slice 17 33 ?h = k" "drop 38 ?h = ?t"
    using nk(3,4) unfolding h by (simp_all add: nth_append nth_Cons' slice_def drop_append)
  have b: "byte_at ?h 0 = vl_Version L" "byte_at ?h 33 = vr_Response r" "byte_at ?h 34 = vr_Option r" "byte_at ?h 37 = vr_Command r"
    using p by (simp_all add: byte_at_def f(1-5))
  have c: "byte_at ?h 35 div 16 = length padding" "byte_at ?h 35 mod 16 = vr_Security r"
    using p by (simp_all add: byte_at_def f(4))
  show ?thesis
    unfolding parse_header_def b c f(6-8) Let_def using p nk(1,2) by (auto simp: less_imp_le)
qed

lemma slice_take: "b \<le> n \<Longrightarrow> slice a b (take n s) = slice a b s"
  by (simp add: slice_def drop_take)

lemma slice_append: "length x = a \<Longrightarrow> slice a (a + length y) (x @ y @ z) = y"
  by (simp add: slice_def)

lemma open_request:
  assumes "seals L" and "length authId = 16" and "length nonce = 8" and "38 < length hdr" and "length hdr < 2 ^ 16"
    and "aeadMinHeaderLen \<le> n" and "n \<le> length (request_bytes L cmdKey authId nonce hdr body)"
    and "58 + length hdr \<le> max n (vl_Capacity L)"
  shows "open_header L cmdKey n (request_bytes L cmdKey authId nonce hdr body) = Inr (hdr, 58 + length hdr)"
    and "drop (58 + length hdr) (request_bytes L cmdKey authId nonce hdr body) = body"
    and "take 16 (request_bytes L cmdKey authId nonce hdr body) = authId"
proof -
  let ?inp = "request_bytes L cmdKey authId nonce hdr body"
  let ?lk = "take 16 (vl_KDF L cmdKey ''VMess Header AEAD Key_Length'' [authId, nonce])"
  let ?ln = "take 12 (vl_KDF L cmdKey ''VMess Header AEAD Nonce_Length'' [authId, nonce])"
  let ?hk = "take 16 (vl_KDF L cmdKey ''VMess Header AEAD Key'' [authId, nonce])"
  let ?hn = "take 12 (vl_KDF L cmdKey ''VMess Header AEAD Nonce'' [authId, nonce])"
  define len where "len = vl_Seal L ?lk ?ln (put16 (length hdr)) authId"
  define sealed where "sealed = vl_Seal L ?hk ?hn hdr authId"
  have o1: "length len = 18" "vl_Open L ?lk ?ln len authId = Inr (put16 (length hdr))" and
    o2: "length sealed = length hdr + 16" "vl_Open L ?hk ?hn sealed authId = Inr hdr"
    using assms(1) by (simp_all add: seals_def len_def sealed_def put16_def)
  have inp: "?inp = authId @ len @ nonce @ sealed @ body" by (simp add: request_bytes_def len_def sealed_def)
  have n: "100 \<le> n" using assms(6) by (simp add: aeadMinHeaderLen_def)
  have t16: "take 16 (take n ?inp) = authId" using n assms(2) by (simp add: inp)
  have s1: "slice 16 34 (take n ?inp) = len" and s2: "slice 34 42 (take n ?inp) = nonce"
    using n assms(2,3) o1(1) slice_append [of authId 16 len] slice_append [of "authId @ len" 34 nonce]
    by (simp_all add: slice_take inp)
  have s3: "slice 42 (58 + length hdr) ?inp = sealed"
    using assms(2,3) o1(1) o2(1) slice_append [of "authId @ len @ nonce" 42 sealed body] by (simp add: inp add.commute)
  have l: "length ?inp = 58 + length hdr + length body" using assms(2,3) o1(1) o2(1) by (simp add: inp)
  have g: "42 + get16 (put16 (length hdr)) + 16 = 58 + length hdr" using get16_put16 [OF assms(5)] by simp
  have m: "length (take n ?inp) = n" using assms(7) by simp
  have f1: "\<not> n < aeadMinHeaderLen" using assms(6) by simp
  have f2: "\<not> (58 + length hdr > n \<and> 58 + length hdr > vl_Capacity L)" using assms(8) by auto
  have f3: "\<not> 58 + length hdr > length ?inp" using l by simp
  have f4: "\<not> length hdr \<le> 38" using assms(4) by simp
  show "open_header L cmdKey n ?inp = Inr (hdr, 58 + length hdr)"
    unfolding open_header_def Let_def t16 s1 s2 m o1(2) sum.case g s3 o2(2) if_not_P [OF f1] if_not_P [OF f2] if_not_P [OF f3] if_not_P [OF f4]
    by (rule refl)
  show "drop (58 + length hdr) ?inp = body" using assms(2,3) o1(1) o2(1) by (simp add: inp)
  show "take 16 ?inp = authId" using assms(2) by (simp add: inp)
qed


text \<open>A library whose seal is a frame of zeros, and a request for a host, in the first read or in two.\<close>

definition vmess_demo_lib :: vmess_lib where
  "vmess_demo_lib = \<lparr>vl_KDF = (\<lambda>k s p. k), vl_Seal = (\<lambda>k n p a. p @ replicate 16 (CHR 0x00)),
     vl_Open = (\<lambda>k n c a. Inr (take (length c - 16) c)), vl_Stream = (\<lambda>k n b. b), vl_TimeHash = (\<lambda>t. []), vl_MD5 = id, vl_SHA256 = id,
     vl_Addr = (\<lambda>s. Inr (''host'', 4)), vl_Capacity = 32768, vl_Version = 1, vl_CommandTCP = 1, vl_CommandUDP = 2, vl_CommandMux = 3,
     vl_ChunkStream = odd\<rparr>"

definition vmess_demo_request :: vmess_request where
  "vmess_demo_request = \<lparr>vr_Key = replicate 16 (CHR ''k''), vr_Nonce = replicate 16 (CHR ''n''), vr_Response = 7, vr_Option = 1,
     vr_Security = 3, vr_Command = 1, vr_Destination = ''host'', vr_Chunked = True\<rparr>"

definition vmess_demo_service :: VMessService where
  "vmess_demo_service = empty_vmess\<lparr>vms_userKey := [(''a'', ''key'')], vms_userIdCipher := [(''a'', ''c'')]\<rparr>"

definition vmess_demo_decode :: vmess_decode where
  "vmess_demo_decode = \<lparr>vd_open = (\<lambda>c i. Some 0), vd_replay = (\<lambda>c i. True), vd_now = 0\<rparr>"


section \<open>VMess responses\<close>

text \<open>A connection until its first write; \<open>rc_Sent\<close> is what was written.  \<open>bw\<close> writes a body in the protocol of the request.\<close>

record raw_conn =
  rc_Legacy :: bool
  rc_Request :: vmess_request
  rc_writer :: bool
  rc_Sent :: string

definition response_key :: "vmess_lib \<Rightarrow> raw_conn \<Rightarrow> string" where
  "response_key L c = (if rc_Legacy c then vl_MD5 L (vr_Key (rc_Request c)) else take 16 (vl_SHA256 L (vr_Key (rc_Request c))))"

definition response_nonce :: "vmess_lib \<Rightarrow> raw_conn \<Rightarrow> string" where
  "response_nonce L c = (if rc_Legacy c then vl_MD5 L (vr_Nonce (rc_Request c)) else take 16 (vl_SHA256 L (vr_Nonce (rc_Request c))))"

definition response_text :: "raw_conn \<Rightarrow> string" where
  "response_text c = [char_of (vr_Response (rc_Request c)), char_of (vr_Option (rc_Request c)), CHR 0x00, CHR 0x00]"

definition response_header :: "vmess_lib \<Rightarrow> raw_conn \<Rightarrow> string" where
  "response_header L c = (let k = response_key L c; n = response_nonce L c
     in if rc_Legacy c then vl_Stream L k n (response_text c)
        else vl_Seal L (take 16 (vl_KDF L k ''AEAD Resp Header Len Key'' [])) (take 12 (vl_KDF L n ''AEAD Resp Header Len IV'' [])) (put16 4) [] @
          vl_Seal L (take 16 (vl_KDF L k ''AEAD Resp Header Key'' [])) (take 12 (vl_KDF L n ''AEAD Resp Header IV'' [])) (response_text c) [])"

text \<open>\<open>fails\<close> is the fault of the connection's write.\<close>

definition writeResponse :: "vmess_lib \<Rightarrow> err option \<Rightarrow> raw_conn \<Rightarrow> err option \<times> raw_conn" where
  "writeResponse L fails c = (case fails of
     Some e \<Rightarrow> (Some (if rc_Legacy c then ''write response: '' @ e else e), c)
   | None \<Rightarrow> (None, c\<lparr>rc_writer := True, rc_Sent := rc_Sent c @ response_header L c\<rparr>))"

definition vmess_Write :: "vmess_lib \<Rightarrow> (raw_conn \<Rightarrow> string \<Rightarrow> string) \<Rightarrow> err option \<Rightarrow> string \<Rightarrow> raw_conn \<Rightarrow> err option \<times> raw_conn" where
  "vmess_Write L bw fails b c = (case (if \<not> rc_writer c then writeResponse L fails c else (None, c)) of
     (Some e, c) \<Rightarrow> (Some e, c) | (None, c) \<Rightarrow> (None, c\<lparr>rc_Sent := rc_Sent c @ bw c b\<rparr>))"

text \<open>However often the service writes, the client finds one response header in front of the bodies, and opens it to the byte
  that its request named.\<close>

lemma vmess_writes_after:
  "rc_writer c \<Longrightarrow> fold (\<lambda>b c. snd (vmess_Write L (\<lambda>c. bw) None b c)) bs c = c\<lparr>rc_Sent := rc_Sent c @ concat (map bw bs)\<rparr>"
  by (induction bs arbitrary: c) (simp_all add: vmess_Write_def)

lemma vmess_response_once:
  assumes "rc_Sent c = []" and "\<not> rc_writer c" and "bs \<noteq> []"
  shows "rc_Sent (fold (\<lambda>b c. snd (vmess_Write L (\<lambda>c. bw) None b c)) bs c) = response_header L c @ concat (map bw bs)"
proof -
  obtain b l where "bs = b # l" using assms(3) by (cases bs) auto
  moreover have "snd (vmess_Write L (\<lambda>c. bw) None b c) = c\<lparr>rc_writer := True, rc_Sent := response_header L c @ bw b\<rparr>"
    using assms(1,2) by (simp add: vmess_Write_def writeResponse_def)
  ultimately show ?thesis by (simp add: vmess_writes_after)
qed

lemma vmess_response_opens:
  assumes "seals L" and "\<not> rc_Legacy c"
  shows "vl_Open L (take 16 (vl_KDF L (response_key L c) ''AEAD Resp Header Key'' []))
    (take 12 (vl_KDF L (response_nonce L c) ''AEAD Resp Header IV'' [])) (drop 18 (response_header L c)) [] = Inr (response_text c)"
proof -
  have "length (vl_Seal L k n (put16 4) []) = 18" for k n using assms(1) by (simp add: seals_def put16_def)
  then show ?thesis using assms by (simp add: response_header_def Let_def seals_def)
qed

section \<open>VLESS\<close>

text \<open>A connection of the server: whether its response was written, what was sent, and how many writes still succeed.\<close>

record vless_conn =
  vc_responseWritten :: bool
  vc_Sent :: string

definition vless_response :: "nat \<Rightarrow> string" where
  "vless_response version = [char_of version, CHR 0x00]"

text \<open>\<open>fails\<close> is the fault of the connection's write; the response counts as written even then.\<close>

definition VLESS_Write :: "nat \<Rightarrow> err option \<Rightarrow> string \<Rightarrow> vless_conn \<Rightarrow> nat res \<times> vless_conn" where
  "VLESS_Write version fails b c =
     (let out = (if vc_responseWritten c then b else vless_response version @ b); c = c\<lparr>vc_responseWritten := True\<rparr>
      in case fails of Some e \<Rightarrow> (Inl e, c) | None \<Rightarrow> (Inr (length b), c\<lparr>vc_Sent := vc_Sent c @ out\<rparr>))"

text \<open>A packet is written after its length; here a response that could not be written is tried again.\<close>

definition VLESS_WritePacket :: "nat \<Rightarrow> err option \<Rightarrow> err option \<Rightarrow> string \<Rightarrow> vless_conn \<Rightarrow> err option \<times> vless_conn" where
  "VLESS_WritePacket version fails1 fails2 p c =
     (case (if vc_responseWritten c then (None, c)
            else (case fails1 of
                Some e \<Rightarrow> (Some e, c)
              | None \<Rightarrow> (None, c\<lparr>vc_responseWritten := True, vc_Sent := vc_Sent c @ vless_response version\<rparr>))) of
        (Some e, c) \<Rightarrow> (Some e, c)
      | (None, c) \<Rightarrow> (case fails2 of
          Some e \<Rightarrow> (Some e, c) | None \<Rightarrow> (None, c\<lparr>vc_Sent := vc_Sent c @ put16 (length p) @ p\<rparr>)))"

text \<open>A packet that is read, and the rest of the input; \<open>room\<close> is what the buffer takes.\<close>

definition VLESS_ReadPacket :: "nat \<Rightarrow> string \<Rightarrow> (string \<times> string) res" where
  "VLESS_ReadPacket room inp =
     (if length inp < 2 then Inl ''EOF''
      else (let packetLen = get16 inp; rest = drop 2 inp
        in if packetLen > room then Inl ''short buffer''
           else if length rest < packetLen then Inl ''unexpected EOF''
           else Inr (take packetLen rest, drop packetLen rest)))"

fun read_packets :: "nat \<Rightarrow> nat \<Rightarrow> string \<Rightarrow> string list res" where
  "read_packets room 0 inp = Inr []"
| "read_packets room (Suc k) inp = (case VLESS_ReadPacket room inp of
     Inl e \<Rightarrow> Inl e | Inr (p, rest) \<Rightarrow> (case read_packets room k rest of Inl e \<Rightarrow> Inl e | Inr ps \<Rightarrow> Inr (p # ps)))"

definition packet_text :: "string \<Rightarrow> string" where
  "packet_text p = put16 (length p) @ p"

lemma get16_append: "2 \<le> length s \<Longrightarrow> get16 (s @ t) = get16 s"
  by (cases s) (auto simp: get16_def nth_append)

lemma read_packet_text:
  assumes "length p < 2 ^ 16" and "length p \<le> room"
  shows "VLESS_ReadPacket room (packet_text p @ rest) = Inr (p, rest)"
proof -
  have "length (put16 (length p)) = 2" by (simp add: put16_def)
  then have "get16 (packet_text p @ rest) = length p" "drop 2 (packet_text p @ rest) = p @ rest"
    using get16_put16 [OF assms(1)] by (simp_all add: packet_text_def get16_append)
  with assms(2) show ?thesis unfolding VLESS_ReadPacket_def by (simp add: packet_text_def put16_def)
qed

lemma written_packets:
  "vc_responseWritten c \<Longrightarrow> fold (\<lambda>p c. snd (VLESS_WritePacket version None None p c)) ps c =
     c\<lparr>vc_Sent := vc_Sent c @ concat (map packet_text ps)\<rparr>"
  by (induction ps arbitrary: c) (simp_all add: VLESS_WritePacket_def packet_text_def)

lemma read_written: "\<forall>p \<in> set ps. length p < 2 ^ 16 \<and> length p \<le> room \<Longrightarrow> read_packets room (length ps) (concat (map packet_text ps)) = Inr ps"
  by (induction ps) (simp_all add: read_packet_text)

text \<open>Packets of less than 65536 bytes that are written to a VLESS connection are read back from it in their order, after one response
  of two bytes.\<close>

theorem vless_packets_roundtrip:
  assumes "ps \<noteq> []" and "\<forall>p \<in> set ps. length p < 2 ^ 16 \<and> length p \<le> room"
    and "c = fold (\<lambda>p c. snd (VLESS_WritePacket version None None p c)) ps \<lparr>vc_responseWritten = False, vc_Sent = []\<rparr>"
  shows "take 2 (vc_Sent c) = vless_response version \<and> read_packets room (length ps) (drop 2 (vc_Sent c)) = Inr ps"
proof -
  obtain p l where ps: "ps = p # l" using assms(1) by (cases ps) auto
  have "snd (VLESS_WritePacket version None None p \<lparr>vc_responseWritten = False, vc_Sent = []\<rparr>) =
      \<lparr>vc_responseWritten = True, vc_Sent = vless_response version @ packet_text p\<rparr>"
    by (simp add: VLESS_WritePacket_def packet_text_def)
  then have "vc_Sent c = vless_response version @ concat (map packet_text ps)"
    by (simp add: assms(3) ps written_packets)
  with read_written [OF assms(2)] show ?thesis by (simp add: vless_response_def)
qed

theorem vless_packets_roundtrip_witness:
  "read_packets 9 2 (drop 2 (vc_Sent (fold (\<lambda>p c. snd (VLESS_WritePacket 0 None None p c)) [''ab'', []]
     \<lparr>vc_responseWritten = False, vc_Sent = []\<rparr>))) = Inr [''ab'', []]"
proof -
  have n: "[''ab'', []] \<noteq> []" "\<forall>p \<in> set [''ab'', []]. length p < 2 ^ 16 \<and> length p \<le> 9" "length [''ab'', []] = 2" by simp_all
  from vless_packets_roundtrip [OF n(1,2) refl, of 0] show ?thesis unfolding n(3) by (rule conjunct2)
qed

text \<open>A longer packet is not: only the last 16 bits of its length are written, and the rest of it is read as further packets.\<close>

lemma long_packet_is_torn:
  assumes "length p = 2 ^ 16"
  shows "VLESS_ReadPacket room (packet_text p @ rest) = Inr ([], p @ rest)"
proof -
  have l: "length (put16 n) = 2" for n by (simp add: put16_def)
  have "put16 (length p) = put16 0" using assms by (simp add: put16_def)
  then have "get16 (packet_text p @ rest) = 0" using get16_put16 [of 0] l by (simp add: packet_text_def get16_append)
  then show ?thesis using l by (simp add: VLESS_ReadPacket_def packet_text_def)
qed

text \<open>A write that fails marks the response as written: the next one goes out without it.\<close>

lemma failed_write_loses_response:
  "\<not> vc_responseWritten c \<Longrightarrow>
   vc_Sent (snd (VLESS_Write version None b2 (snd (VLESS_Write version (Some e) b1 c)))) = vc_Sent c @ b2"
  by (simp add: VLESS_Write_def Let_def)

end
