(* ===== verification/SS_Packets.thy ===== *)
theory SS_Packets
  imports Sing_Users
begin

text \<open>
  The UDP packets of the Shadowsocks services (runtime/patches, sing-shadowsocks shadowaead_2022 and shadowaead, service_multi.go): the sessions of
  the 2022 edition with their replay windows, the connections of the UDP table that packets open, and the search of
  the older service.  Ciphers, the window and the parsing of fields are the library's.
\<close>

section \<open>Packets of the 2022 edition\<close>

text \<open>
  What the library reads out of one packet: its length, the identity, the session, its number, whether a cipher can be made of a key and whether
  the packet opens under it, and then the fields of the opened packet.
\<close>

record ss_packet =
  sp_length :: nat
  sp_identity :: string
  sp_session :: nat
  sp_id :: nat
  sp_cipher :: "string \<Rightarrow> err option"
  sp_open :: "string \<Rightarrow> err option"
  sp_type :: "nat res"
  sp_epoch :: "int res"
  sp_paddingLen :: "nat res"
  sp_destination :: "string res"

text \<open>The replay window of a session.\<close>

record 'w replay_window =
  wn_new :: 'w
  wn_Check :: "'w \<Rightarrow> nat \<Rightarrow> bool"
  wn_Add :: "'w \<Rightarrow> nat \<Rightarrow> 'w"

record ss_constants =
  sk_minimal :: nat
  sk_client :: nat

text \<open>A session: the key its ciphers are made of, whether it has the cipher to read with, and its window.\<close>

record 'w udp_session =
  us_psk :: string
  us_cipher :: bool
  us_window :: 'w

text \<open>
  The sessions of the service by their number, the connections of the UDP table with the user whose context they were
  opened in, and the packets that were handed over: session, number and the user they were taken for.
\<close>

record 'w ss_udp =
  su_sessions :: "(nat, 'w udp_session) gomap"
  su_nat :: "(nat, string) gomap"
  su_delivered :: "(nat \<times> nat \<times> string) list"

text \<open>The fields after the opening: an error, or nothing.  The difference of the times is exact here; the code takes it through a
  float and back, which is the same but for differences near 2^63, whose conversion Go leaves to the machine.\<close>

definition ss_fields :: "ss_constants \<Rightarrow> int \<Rightarrow> ss_packet \<Rightarrow> err option" where
  "ss_fields K now p = (case sp_type p of
     Inl e \<Rightarrow> Some (''decrypt packet: '' @ e)
   | Inr t \<Rightarrow>
       if t \<noteq> sk_client K then Some ''bad header type''
       else (case sp_epoch p of
         Inl e \<Rightarrow> Some e
       | Inr epoch \<Rightarrow>
           if \<bar>now - epoch\<bar> > 30 then Some ''bad timestamp''
           else (case sp_paddingLen p of
             Inl e \<Rightarrow> Some (''read padding length: '' @ e)
           | Inr n \<Rightarrow> (case sp_destination p of Inl e \<Rightarrow> Some e | Inr d \<Rightarrow> None))))"

text \<open>A packet opens a connection of the table for its user when the table has none for its session.\<close>

definition deliver_packet :: "string \<Rightarrow> ss_packet \<Rightarrow> 'w ss_udp \<Rightarrow> 'w ss_udp" where
  "deliver_packet user p u = u\<lparr>su_nat := (if mhas (su_nat u) (sp_session p) then su_nat u else mput (sp_session p) user (su_nat u)),
     su_delivered := su_delivered u @ [(sp_session p, sp_id p, user)]\<rparr>"

text \<open>\<open>loaded\<close> tells whether the session was there; one that was not is taken out again by an error.  A session whose cipher
  could not be made has none, and calling it panics.\<close>

definition process_packet ::
  "ss_constants \<Rightarrow> 'w replay_window \<Rightarrow> int \<Rightarrow> ss_packet \<Rightarrow> string \<Rightarrow> bool \<Rightarrow> 'w udp_session \<Rightarrow> 'w ss_udp \<Rightarrow> err option \<times> 'w ss_udp" where
  "process_packet K W now p user loaded session u =
     (let failed = (\<lambda>e u. (Some e, if loaded then u else u\<lparr>su_sessions := mdel (sp_session p) (su_sessions u)\<rparr>))
      in if \<not> wn_Check W (us_window session) (sp_id p) then failed ''packet id not unique'' u
         else if \<not> us_cipher session then (Some nil_pointer, u)
         else (case sp_open p (us_psk session) of
           Some e \<Rightarrow> failed (''decrypt packet: '' @ e) u
         | None \<Rightarrow>
             (let u = u\<lparr>su_sessions := mput (sp_session p) (session\<lparr>us_window := wn_Add W (us_window session) (sp_id p)\<rparr>) (su_sessions u)\<rparr>
              in case ss_fields K now p of
                Some e \<Rightarrow> failed e u
              | None \<Rightarrow> (None, deliver_packet user p u))))"

definition SS2022_newPacket ::
  "ss_constants \<Rightarrow> 'w replay_window \<Rightarrow> int \<Rightarrow> ss_packet \<Rightarrow> SS2022Service \<Rightarrow> 'w ss_udp \<Rightarrow> err option \<times> 'w ss_udp" where
  "SS2022_newPacket K W now p s u =
     (if sp_length p < sk_minimal K then (Some ''packet too short'', u)
      else (case map_of (s22_uPSKHash s) (sp_identity p) of
          None \<Rightarrow> (Some ''invalid request'', u)
        | Some user \<Rightarrow>
            (let psk = mget_or [] (s22_uPSK s) user
             in case map_of (su_sessions u) (sp_session p) of
                  Some session \<Rightarrow> process_packet K W now p user True session u
                | None \<Rightarrow>
                    (let session = \<lparr>us_psk = psk, us_cipher = sp_cipher p psk = None, us_window = wn_new W\<rparr>;
                         u = u\<lparr>su_sessions := mput (sp_session p) session (su_sessions u)\<rparr>
                     in case sp_cipher p psk of
                          Some e \<Rightarrow> (Some e, u)
                        | None \<Rightarrow> process_packet K W now p user False session u))))"

text \<open>Packets of any tables of the service, and connections of the table that end, while no session expires.\<close>

inductive ss_reach :: "ss_constants \<Rightarrow> 'w replay_window \<Rightarrow> (SS2022Service \<Rightarrow> bool) \<Rightarrow> 'w ss_udp \<Rightarrow> bool" for K W T where
  ss_start: "ss_reach K W T \<lparr>su_sessions = [], su_nat = [], su_delivered = []\<rparr>"
| ss_packet: "ss_reach K W T u \<Longrightarrow> T s \<Longrightarrow> ss_reach K W T (snd (SS2022_newPacket K W now p s u))"
| ss_closed: "ss_reach K W T u \<Longrightarrow> ss_reach K W T (u\<lparr>su_nat := mdel i (su_nat u)\<rparr>)"

section \<open>No packet is delivered twice\<close>

text \<open>A number that was added to a window is not let in again.\<close>

definition window_ok :: "'w replay_window \<Rightarrow> bool" where
  "window_ok W \<longleftrightarrow> (\<forall>w i. \<not> wn_Check W (wn_Add W w i) i) \<and> (\<forall>w i j. \<not> wn_Check W w i \<longrightarrow> \<not> wn_Check W (wn_Add W w j) i)"

definition delivered_ids :: "'w ss_udp \<Rightarrow> (nat \<times> nat) list" where
  "delivered_ids u = map (\<lambda>(sid, i, user). (sid, i)) (su_delivered u)"

definition remembered :: "'w replay_window \<Rightarrow> 'w ss_udp \<Rightarrow> bool" where
  "remembered W u \<longleftrightarrow> distinct (delivered_ids u) \<and>
     (\<forall>(sid, i) \<in> set (delivered_ids u). \<exists>session. map_of (su_sessions u) sid = Some session \<and> \<not> wn_Check W (us_window session) i)"

lemma remembered_open:
  assumes "remembered W u" and "map_of (su_sessions u) sid = None"
  shows "\<forall>(k, i) \<in> set (delivered_ids u). k \<noteq> sid"
  using assms by (force simp: remembered_def)

text \<open>The sessions after a packet: those of the others are as they were.\<close>

lemma process_outcome:
  assumes "process_packet K W now p user loaded session u = (r, u')"
  defines "k \<equiv> sp_session p"
  shows "(\<forall>j. j \<noteq> k \<longrightarrow> map_of (su_sessions u') j = map_of (su_sessions u) j) \<and>
    (r = None \<longrightarrow> wn_Check W (us_window session) (sp_id p) \<and> sp_open p (us_psk session) = None \<and>
       su_delivered u' = su_delivered u @ [(k, sp_id p, user)] \<and>
       map_of (su_sessions u') k = Some (session\<lparr>us_window := wn_Add W (us_window session) (sp_id p)\<rparr>)) \<and>
    (r \<noteq> None \<longrightarrow> su_delivered u' = su_delivered u \<and> su_nat u' = su_nat u \<and>
       (loaded \<and> map_of (su_sessions u) k = Some session \<longrightarrow>
         map_of (su_sessions u') k \<in> {Some session, Some (session\<lparr>us_window := wn_Add W (us_window session) (sp_id p)\<rparr>)}))"
  using assms(1) unfolding k_def
  by (auto simp: process_packet_def Let_def deliver_packet_def split: if_splits option.splits)

lemma remembered_same: "su_delivered u' = su_delivered u \<Longrightarrow> delivered_ids u' = delivered_ids u"
  by (simp add: delivered_ids_def)

text \<open>A packet leaves the memory of the delivered ones intact.\<close>

lemma remembered_process:
  assumes w: "window_ok W" and m: "remembered W u" and p: "process_packet K W now p user loaded session u = (r, u')"
    and s: "map_of (su_sessions u) (sp_session p) = Some session"
    and new: "\<not> loaded \<Longrightarrow> \<forall>(k, i) \<in> set (delivered_ids u). k \<noteq> sp_session p"
  shows "remembered W u'"
proof -
  note o1 = process_outcome [OF p]
  let ?added = "session\<lparr>us_window := wn_Add W (us_window session) (sp_id p)\<rparr>"
  have kept: "\<not> wn_Check W (us_window ?added) i" if "\<not> wn_Check W (us_window session) i" for i
    using w that by (simp add: window_ok_def)
  have old: "\<exists>x. map_of (su_sessions u') k = Some x \<and> \<not> wn_Check W (us_window x) i" if "(k, i) \<in> set (delivered_ids u)" for k i
  proof (cases "k = sp_session p")
    case True
    with that new have l: "loaded" by blast
    from m that True s have c: "\<not> wn_Check W (us_window session) i" unfolding remembered_def by force
    from o1 l s True have "map_of (su_sessions u') k = Some session \<or> map_of (su_sessions u') k = Some ?added" by (cases r) auto
    with c kept [OF c] show ?thesis by blast
  next
    case False
    with o1 have "map_of (su_sessions u') k = map_of (su_sessions u) k" by blast
    with m that show ?thesis unfolding remembered_def by fastforce
  qed
  show ?thesis
  proof (cases r)
    case None
    with o1 have d: "delivered_ids u' = delivered_ids u @ [(sp_session p, sp_id p)]"
      and a: "map_of (su_sessions u') (sp_session p) = Some ?added" and c: "wn_Check W (us_window session) (sp_id p)"
      by (simp_all add: delivered_ids_def)
    from m s c have "(sp_session p, sp_id p) \<notin> set (delivered_ids u)" unfolding remembered_def by force
    moreover have "\<not> wn_Check W (us_window ?added) (sp_id p)" using w by (simp add: window_ok_def)
    ultimately show ?thesis using m old a unfolding remembered_def d by auto
  next
    case (Some e)
    with o1 have "delivered_ids u' = delivered_ids u" by (simp add: delivered_ids_def)
    with m old show ?thesis unfolding remembered_def by auto
  qed
qed

lemma remembered_packet:
  assumes w: "window_ok W" and m: "remembered W u"
  shows "remembered W (snd (SS2022_newPacket K W now p s u))"
proof (cases "map_of (s22_uPSKHash s) (sp_identity p)")
  case None
  with m show ?thesis by (simp add: SS2022_newPacket_def)
next
  case (Some user)
  let ?psk = "mget_or [] (s22_uPSK s) user"
  show ?thesis
  proof (cases "map_of (su_sessions u) (sp_session p)")
    case (Some session)
    obtain r u' where p: "process_packet K W now p user True session u = (r, u')" by fastforce
    from remembered_process [OF w m p Some] p Some \<open>map_of (s22_uPSKHash s) (sp_identity p) = Some user\<close> m
    show ?thesis by (simp add: SS2022_newPacket_def)
  next
    case None
    let ?session = "\<lparr>us_psk = ?psk, us_cipher = sp_cipher p ?psk = None, us_window = wn_new W\<rparr>"
    let ?u = "u\<lparr>su_sessions := mput (sp_session p) ?session (su_sessions u)\<rparr>"
    have fresh: "\<forall>(k, i) \<in> set (delivered_ids ?u). k \<noteq> sp_session p"
      using remembered_open [OF m None] by (simp add: delivered_ids_def)
    have m': "remembered W ?u" using m remembered_open [OF m None] unfolding remembered_def delivered_ids_def by fastforce
    obtain r u' where p: "process_packet K W now p user False ?session ?u = (r, u')" by fastforce
    have "remembered W u'" by (rule remembered_process [OF w m' p]) (use fresh in auto)
    moreover have "SS2022_newPacket K W now p s u = (if sp_length p < sk_minimal K then (Some ''packet too short'', u)
        else case sp_cipher p ?psk of Some e \<Rightarrow> (Some e, ?u) | None \<Rightarrow> (r, u'))"
      using p None \<open>map_of (s22_uPSKHash s) (sp_identity p) = Some user\<close>
      by (cases "sp_cipher p ?psk") (simp_all add: SS2022_newPacket_def Let_def)
    ultimately show ?thesis using m m' by (cases "sp_cipher p ?psk") simp_all
  qed
qed

lemma packet_delivers:
  assumes "SS2022_newPacket K W now p s u = (r, u')" and "d \<in> set (su_delivered u')"
  shows "d \<in> set (su_delivered u) \<or> (\<exists>user. map_of (s22_uPSKHash s) (sp_identity p) = Some user \<and> snd (snd d) = user)"
  using assms
  by (auto simp: SS2022_newPacket_def process_packet_def Let_def deliver_packet_def split: if_splits option.splits)

text \<open>C19: while its session is kept, no packet is delivered twice, whatever packets come and however the tables of users change
  between them; and every delivered packet is taken for a user that the tables had when it came.\<close>

theorem ss2022_packets_once:
  assumes "window_ok W" and "ss_reach K W T u"
  shows "distinct (delivered_ids u) \<and> (\<forall>(sid, i, user) \<in> set (su_delivered u). \<exists>s. T s \<and> user \<in> snd ` set (s22_uPSKHash s))"
proof -
  from assms(2) have "remembered W u \<and> (\<forall>d \<in> set (su_delivered u). \<exists>s. T s \<and> snd (snd d) \<in> snd ` set (s22_uPSKHash s))"
  proof (induction rule: ss_reach.induct)
    case ss_start
    show ?case by (simp add: remembered_def delivered_ids_def)
  next
    case (ss_packet u s now p)
    obtain r u' where p: "SS2022_newPacket K W now p s u = (r, u')" by fastforce
    have "remembered W u'" using remembered_packet [OF assms(1), of u K now p s] ss_packet.IH p by simp
    moreover have "\<exists>s. T s \<and> snd (snd d) \<in> snd ` set (s22_uPSKHash s)" if "d \<in> set (su_delivered u')" for d
      using packet_delivers [OF p that] ss_packet.IH ss_packet.hyps map_of_known by metis
    ultimately show ?case using p by simp
  next
    case (ss_closed u i)
    then show ?case by (simp add: remembered_def delivered_ids_def)
  qed
  then show ?thesis unfolding remembered_def by force
qed

section \<open>A packet in another user's name\<close>

text \<open>C40: sessions are found by their number alone: a user whose session is open sends a packet with the identity of another one, and when
  the connection of the first packet has ended it opens the next in the other's name, under the first user's key.\<close>

theorem packet_in_another_name:
  assumes "T s" and "map_of (s22_uPSKHash s) (sp_identity p) = Some a" and "map_of (s22_uPSKHash s) (sp_identity q) = Some b"
    and "map_of (s22_uPSK s) a = Some psk" and "sp_session q = sp_session p"
    and "sk_minimal K \<le> sp_length p" and "sk_minimal K \<le> sp_length q" and "sp_cipher p psk = None"
    and "sp_open p psk = None" and "sp_open q psk = None" and "ss_fields K now p = None" and "ss_fields K now q = None"
    and "wn_Check W (wn_new W) (sp_id p)" and "wn_Check W (wn_Add W (wn_new W) (sp_id p)) (sp_id q)"
  shows "\<exists>u session. ss_reach K W T u \<and> map_of (su_nat u) (sp_session q) = Some b \<and>
    map_of (su_sessions u) (sp_session q) = Some session \<and> us_psk session = psk"
proof -
  let ?u0 = "\<lparr>su_sessions = [], su_nat = [], su_delivered = []\<rparr>"
  let ?u1 = "snd (SS2022_newPacket K W now p s ?u0)"
  let ?u2 = "?u1\<lparr>su_nat := mdel (sp_session p) (su_nat ?u1)\<rparr>"
  let ?u3 = "snd (SS2022_newPacket K W now q s ?u2)"
  have "mget_or [] (s22_uPSK s) a = psk" using assms(4) by (simp add: mget_or_def)
  with assms have u1: "?u1 = \<lparr>su_sessions = [(sp_session p, \<lparr>us_psk = psk, us_cipher = True, us_window = wn_Add W (wn_new W) (sp_id p)\<rparr>)],
      su_nat = [(sp_session p, a)], su_delivered = [(sp_session p, sp_id p, a)]\<rparr>"
    by (simp add: SS2022_newPacket_def process_packet_def deliver_packet_def mhas_def Let_def)
  have u3: "map_of (su_nat ?u3) (sp_session q) = Some b"
    "map_of (su_sessions ?u3) (sp_session q) = Some \<lparr>us_psk = psk, us_cipher = True, us_window = wn_Add W (wn_Add W (wn_new W) (sp_id p)) (sp_id q)\<rparr>"
    unfolding u1 using assms by (simp_all add: SS2022_newPacket_def process_packet_def deliver_packet_def mhas_def Let_def)
  have "ss_reach K W T ?u3"
    by (intro ss_reach.ss_packet ss_reach.ss_closed ss_reach.ss_start assms(1))
  with u3 show ?thesis by fastforce
qed

text \<open>A window that remembers every number, two users, and a second packet of the first under the identity of the second.\<close>

definition all_numbers :: "nat list replay_window" where
  "all_numbers = \<lparr>wn_new = [], wn_Check = (\<lambda>w i. i \<notin> set w), wn_Add = (\<lambda>w i. i # w)\<rparr>"

definition ss_demo_service :: SS2022Service where
  "ss_demo_service = \<lparr>s22_uPSK = [(''a'', ''pa''), (''b'', ''pb'')], s22_uPSKHash = [(''ha'', ''a''), (''hb'', ''b'')], s22_uCipher = [],
     s22_keySaltLength = 16\<rparr>"

definition ss_demo_packet :: "string \<Rightarrow> nat \<Rightarrow> ss_packet" where
  "ss_demo_packet identity i = \<lparr>sp_length = 99, sp_identity = identity, sp_session = 5, sp_id = i, sp_cipher = (\<lambda>k. None),
     sp_open = (\<lambda>k. if k = ''pa'' then None else Some ''open''), sp_type = Inr 0, sp_epoch = Inr 0, sp_paddingLen = Inr 0,
     sp_destination = Inr ''host''\<rparr>"

definition ss_demo_constants :: ss_constants where
  "ss_demo_constants = \<lparr>sk_minimal = 60, sk_client = 0\<rparr>"

lemma ss_demo_reach:
  "ss_reach ss_demo_constants all_numbers (\<lambda>s. s = ss_demo_service) (snd (SS2022_newPacket ss_demo_constants all_numbers 0 (ss_demo_packet ''ha'' 1) ss_demo_service
     (snd (SS2022_newPacket ss_demo_constants all_numbers 0 (ss_demo_packet ''ha'' 1) ss_demo_service \<lparr>su_sessions = [], su_nat = [], su_delivered = []\<rparr>))))"
  by (intro ss_reach.ss_packet ss_reach.ss_start refl)

theorem ss2022_packets_once_witness:
  "distinct (delivered_ids (snd (SS2022_newPacket ss_demo_constants all_numbers 0 (ss_demo_packet ''ha'' 1) ss_demo_service
     (snd (SS2022_newPacket ss_demo_constants all_numbers 0 (ss_demo_packet ''ha'' 1) ss_demo_service \<lparr>su_sessions = [], su_nat = [], su_delivered = []\<rparr>)))))"
proof -
  have "window_ok all_numbers" by (simp add: window_ok_def all_numbers_def)
  from ss2022_packets_once [OF this ss_demo_reach] show ?thesis by blast
qed

theorem packet_in_another_name_witness:
  "\<exists>u session. ss_reach ss_demo_constants all_numbers (\<lambda>s. s = ss_demo_service) u \<and> map_of (su_nat u) 5 = Some ''b'' \<and>
     map_of (su_sessions u) 5 = Some session \<and> us_psk session = ''pa''"
proof -
  let ?p = "ss_demo_packet ''ha'' 1" and ?q = "ss_demo_packet ''hb'' 2"
  have m: "map_of (s22_uPSKHash ss_demo_service) (sp_identity ?p) = Some ''a''"
    "map_of (s22_uPSKHash ss_demo_service) (sp_identity ?q) = Some ''b''" "map_of (s22_uPSK ss_demo_service) ''a'' = Some ''pa''"
    by (simp_all add: ss_demo_service_def ss_demo_packet_def)
  have f: "sp_session ?q = sp_session ?p" "sk_minimal ss_demo_constants \<le> sp_length ?p" "sk_minimal ss_demo_constants \<le> sp_length ?q"
    "sp_cipher ?p ''pa'' = None" "sp_open ?p ''pa'' = None" "sp_open ?q ''pa'' = None"
    "ss_fields ss_demo_constants 0 ?p = None" "ss_fields ss_demo_constants 0 ?q = None"
    by (simp_all add: ss_demo_packet_def ss_demo_constants_def ss_fields_def)
  have w: "wn_Check all_numbers (wn_new all_numbers) (sp_id ?p)"
    "wn_Check all_numbers (wn_Add all_numbers (wn_new all_numbers) (sp_id ?p)) (sp_id ?q)"
    by (simp_all add: all_numbers_def ss_demo_packet_def)
  have "sp_session ?q = 5" by (simp add: ss_demo_packet_def)
  with packet_in_another_name [where T = "\<lambda>s. s = ss_demo_service", OF refl m f w] show ?thesis by simp
qed

section \<open>Packets of the older edition\<close>

text \<open>Every user's method is tried; the packet is handed over for the first that opens it.\<close>

definition AEAD_newPacket ::
  "nat \<Rightarrow> nat \<Rightarrow> (string \<Rightarrow> err option) \<Rightarrow> (string \<Rightarrow> err option) \<Rightarrow> string res \<Rightarrow> AEADService \<Rightarrow> (string \<times> string) res" where
  "AEAD_newPacket len keySaltLength mk opens destination s =
     (if sa_methodMap s = [] then Inl ''no users''
      else if len < keySaltLength then Inl ''short buffer''
      else (case AEAD_search mk opens None (sa_methodMap s) of
          Inl e \<Rightarrow> Inl e
        | Inr user \<Rightarrow> (case destination of Inl e \<Rightarrow> Inl e | Inr d \<Rightarrow> Inr (user, d))))"

lemma AEAD_search_opens: "AEAD_search mk opens failed l = Inr u \<Longrightarrow> \<exists>m. (u, m) \<in> set l \<and> mk m = None \<and> opens m = None"
  by (induction mk opens failed l rule: AEAD_search.induct) (auto split: option.splits)

lemma aead_packet_user:
  "AEAD_newPacket len n mk opens destination s = Inr (u, d) \<Longrightarrow> \<exists>m. (u, m) \<in> set (sa_methodMap s) \<and> mk m = None \<and> opens m = None"
  by (auto simp: AEAD_newPacket_def split: if_splits sum.splits dest: AEAD_search_opens)

end
