(* ===== verification/Xray_Certs.thy ===== *)
theory Xray_Certs
  imports Xray_Inbound
begin

text \<open>
  The certificates of Xray's TLS (runtime/patches/xray/transport/internet/tls/config.go): their construction, the tickers that reload them
  from their files while listeners serve them, the choice of a certificate for a handshake, and the certificates that a
  configured authority issues on demand.  Parsing, files, OCSP and signing are library functions.
\<close>

section \<open>Entries and key pairs\<close>

datatype cert_usage = ENCIPHERMENT | AUTHORITY_VERIFY | AUTHORITY_ISSUE

text \<open>An entry of the configuration.\<close>

record cert_entry =
  ce_Certificate :: string
  ce_Key :: string
  ce_Usage :: cert_usage
  ce_OcspStapling :: nat
  ce_CertificatePath :: string
  ce_KeyPath :: string
  ce_OneTimeLoading :: bool
  ce_BuildChain :: bool

record x509_leaf =
  lf_CommonName :: string
  lf_DNSNames :: "string list"
  lf_NotAfter :: int

text \<open>A key pair: its first certificate and the others, the stapled response, and the first one parsed.\<close>

record key_pair =
  kp_First :: string
  kp_Chain :: "string list"
  kp_OCSPStaple :: string
  kp_Leaf :: "x509_leaf option"

record tls_certs =
  tc_X509KeyPair :: "string \<Rightarrow> string \<Rightarrow> key_pair res"
  tc_ParseCertificate :: "string \<Rightarrow> x509_leaf res"

definition getX509KeyPair :: "tls_certs \<Rightarrow> cert_entry \<Rightarrow> key_pair option" where
  "getX509KeyPair L e = (case tc_X509KeyPair L (ce_Certificate e) (ce_Key e) of
     Inl err \<Rightarrow> None
   | Inr kp \<Rightarrow> (case tc_ParseCertificate L (kp_First kp) of Inl err \<Rightarrow> None | Inr lf \<Rightarrow> Some (kp\<lparr>kp_Leaf := Some lf\<rparr>)))"

text \<open>The certificates of a listener, and for each its ticker: the entry and the position in the list.\<close>

fun build_from :: "tls_certs \<Rightarrow> nat \<Rightarrow> nat \<Rightarrow> cert_entry list \<Rightarrow> key_pair list \<times> (nat \<times> nat) list" where
  "build_from L i n [] = ([], [])"
| "build_from L i n (e # es) =
     (if ce_Usage e \<noteq> ENCIPHERMENT then build_from L (i + 1) n es
      else (case getX509KeyPair L e of
          None \<Rightarrow> build_from L (i + 1) n es
        | Some kp \<Rightarrow> (case build_from L (i + 1) (n + 1) es of (cs, ts) \<Rightarrow> (kp # cs, (i, n) # ts))))"

definition BuildCertificates :: "tls_certs \<Rightarrow> cert_entry list \<Rightarrow> key_pair list \<times> (nat \<times> nat) list" where
  "BuildCertificates L es = build_from L 0 0 es"

section \<open>Reloading\<close>

text \<open>
  Where a ticker is in its loop.  It writes the two halves of its entry one after the other and without the lock; the copy
  it works on is published under the lock.
\<close>

datatype ticker_at = Waiting | Writing_key string | Called bool | Publishing key_pair | Ended

record ticker =
  tk_build :: nat
  tk_index :: nat
  tk_entry :: nat
  tk_at :: ticker_at

text \<open>One configuration with its entries, and the certificates of every listener that was made from it.\<close>

record cert_world =
  cw_entries :: "cert_entry list"
  cw_builds :: "key_pair list list"
  cw_tickers :: "ticker list"

definition add_build :: "tls_certs \<Rightarrow> cert_world \<Rightarrow> cert_world" where
  "add_build L w = (case BuildCertificates L (cw_entries w) of (cs, ts) \<Rightarrow>
     w\<lparr>cw_builds := cw_builds w @ [cs],
       cw_tickers := cw_tickers w @ map (\<lambda>(i, n). \<lparr>tk_build = length (cw_builds w), tk_index = n, tk_entry = i,
         tk_at = (if ce_OneTimeLoading (cw_entries w ! i) then Ended else Waiting)\<rparr>) ts\<rparr>)"

text \<open>What the callback makes of the certificate it read: nothing when the new files are no pair.\<close>

definition refreshed :: "tls_certs \<Rightarrow> string res \<Rightarrow> bool \<Rightarrow> cert_entry \<Rightarrow> key_pair \<Rightarrow> key_pair option" where
  "refreshed L staple isReloaded e c =
     (case (if isReloaded then getX509KeyPair L e else Some c) of
        None \<Rightarrow> None
      | Some cert \<Rightarrow> Some (if ce_OcspStapling e \<noteq> 0
          then (case staple of Inl err \<Rightarrow> cert | Inr d \<Rightarrow> cert\<lparr>kp_OCSPStaple := d\<rparr>) else cert))"

text \<open>One step of a ticker: \<open>r1\<close> and \<open>r2\<close> are what reading the two files gives then, \<open>staple\<close> what the OCSP responder answers.\<close>

definition tick_once ::
  "tls_certs \<Rightarrow> string res \<Rightarrow> string res \<Rightarrow> string res \<Rightarrow> cert_entry \<Rightarrow> key_pair \<Rightarrow> ticker_at \<Rightarrow> cert_entry \<times> key_pair \<times> ticker_at" where
  "tick_once L r1 r2 staple e c a = (case a of
     Waiting \<Rightarrow>
       if ce_CertificatePath e \<noteq> [] \<and> ce_KeyPath e \<noteq> []
       then (case r1 of
           Inl err \<Rightarrow> (e, c, Ended)
         | Inr newCert \<Rightarrow> (case r2 of
             Inl err \<Rightarrow> (e, c, Ended)
           | Inr newKey \<Rightarrow>
               if newCert \<noteq> ce_Certificate e \<or> newKey \<noteq> ce_Key e then (e\<lparr>ce_Certificate := newCert\<rparr>, c, Writing_key newKey)
               else (e, c, Called False)))
       else (e, c, Called False)
   | Writing_key newKey \<Rightarrow> (e\<lparr>ce_Key := newKey\<rparr>, c, Called True)
   | Called isReloaded \<Rightarrow> (case refreshed L staple isReloaded e c of None \<Rightarrow> (e, c, Waiting) | Some cert \<Rightarrow> (e, c, Publishing cert))
   | Publishing cert \<Rightarrow> (e, cert, Waiting)
   | Ended \<Rightarrow> (e, c, Ended))"

definition tick :: "tls_certs \<Rightarrow> string res \<Rightarrow> string res \<Rightarrow> string res \<Rightarrow> nat \<Rightarrow> cert_world \<Rightarrow> cert_world" where
  "tick L r1 r2 staple k w =
     (let t = cw_tickers w ! k; b = tk_build t; i = tk_index t;
          (e, c, a) = tick_once L r1 r2 staple (cw_entries w ! tk_entry t) (cw_builds w ! b ! i) (tk_at t)
      in w\<lparr>cw_entries := (cw_entries w)[tk_entry t := e], cw_builds := (cw_builds w)[b := (cw_builds w ! b)[i := c]],
           cw_tickers := (cw_tickers w)[k := t\<lparr>tk_at := a\<rparr>]\<rparr>)"

text \<open>Listeners are made and tickers run in any order.\<close>

inductive certs_reach :: "tls_certs \<Rightarrow> cert_entry list \<Rightarrow> cert_world \<Rightarrow> bool" for L es where
  cr_start: "certs_reach L es \<lparr>cw_entries = es, cw_builds = [], cw_tickers = []\<rparr>"
| cr_build: "certs_reach L es w \<Longrightarrow> certs_reach L es (add_build L w)"
| cr_tick: "certs_reach L es w \<Longrightarrow> k < length (cw_tickers w) \<Longrightarrow> certs_reach L es (tick L r1 r2 staple k w)"

section \<open>The certificate of a handshake\<close>

definition errNoCertificates :: err where
  "errNoCertificates = ''tls: no certificates configured''"

text \<open>The wildcard that stands for a name: its first label replaced.\<close>

definition gsni :: "string \<Rightarrow> string" where
  "gsni sni = (case index_of (CHR ''.'') sni of None \<Rightarrow> ''*'' | Some i \<Rightarrow> ''*'' @ drop i sni)"

definition covers :: "string \<Rightarrow> x509_leaf \<Rightarrow> bool" where
  "covers sni lf \<longleftrightarrow> lf_CommonName lf = sni \<or> lf_CommonName lf = gsni sni \<or> list_ex (\<lambda>n. n = sni \<or> n = gsni sni) (lf_DNSNames lf)"

text \<open>A pair without a parsed certificate is a nil pointer.\<close>

fun find_pair :: "string \<Rightarrow> key_pair list \<Rightarrow> key_pair option res" where
  "find_pair sni [] = Inr None"
| "find_pair sni (k # ks) = (case kp_Leaf k of
     None \<Rightarrow> Inl nil_pointer | Some lf \<Rightarrow> if covers sni lf then Inr (Some k) else find_pair sni ks)"

definition new_get_certificate :: "key_pair list \<Rightarrow> bool \<Rightarrow> string \<Rightarrow> key_pair res" where
  "new_get_certificate certs rejectUnknownSNI serverName =
     (if certs = [] then Inl errNoCertificates
      else (let sni = ToLower serverName
        in if \<not> rejectUnknownSNI \<and> (length certs = 1 \<or> sni = []) then Inr (certs ! 0)
           else (case find_pair sni certs of
               Inl e \<Rightarrow> Inl e
             | Inr (Some k) \<Rightarrow> Inr k
             | Inr None \<Rightarrow> if rejectUnknownSNI then Inl errNoCertificates else Inr (certs ! 0))))"

text \<open>A pair as it is made of a certificate and its key, but for the stapled response.\<close>

definition made_pair :: "tls_certs \<Rightarrow> key_pair \<Rightarrow> bool" where
  "made_pair L k \<longleftrightarrow> (\<exists>cert key kp lf. tc_X509KeyPair L cert key = Inr kp \<and> tc_ParseCertificate L (kp_First kp) = Inr lf \<and>
     (\<exists>d. k = kp\<lparr>kp_Leaf := Some lf, kp_OCSPStaple := d\<rparr>))"

definition certs_ok :: "tls_certs \<Rightarrow> cert_world \<Rightarrow> bool" where
  "certs_ok L w \<longleftrightarrow> (\<forall>cs \<in> set (cw_builds w). \<forall>k \<in> set cs. made_pair L k) \<and>
     (\<forall>t \<in> set (cw_tickers w). tk_build t < length (cw_builds w) \<and> tk_index t < length (cw_builds w ! tk_build t) \<and>
        tk_entry t < length (cw_entries w) \<and> (\<forall>c. tk_at t = Publishing c \<longrightarrow> made_pair L c))"

lemma getX509KeyPair_made: "getX509KeyPair L e = Some k \<Longrightarrow> made_pair L k"
proof -
  assume "getX509KeyPair L e = Some k"
  then obtain kp lf where "tc_X509KeyPair L (ce_Certificate e) (ce_Key e) = Inr kp" "tc_ParseCertificate L (kp_First kp) = Inr lf"
    "k = kp\<lparr>kp_Leaf := Some lf, kp_OCSPStaple := kp_OCSPStaple kp\<rparr>" by (auto simp: getX509KeyPair_def split: sum.splits)
  then show ?thesis unfolding made_pair_def by blast
qed

lemma made_pair_staple [intro]: "made_pair L k \<Longrightarrow> made_pair L (k\<lparr>kp_OCSPStaple := d\<rparr>)"
  unfolding made_pair_def by fastforce

lemma made_pair_leaf: "made_pair L k \<Longrightarrow> \<exists>lf. kp_Leaf k = Some lf"
  by (auto simp: made_pair_def)

lemma refreshed_made: "refreshed L staple r e c = Some k \<Longrightarrow> made_pair L c \<Longrightarrow> made_pair L k"
  by (auto simp: refreshed_def getX509KeyPair_made split: if_splits option.splits sum.splits)

lemma build_from_ok:
  "build_from L i n es = (cs, ts) \<Longrightarrow> (\<forall>k \<in> set cs. made_pair L k) \<and> (\<forall>(j, m) \<in> set ts. i \<le> j \<and> j < i + length es \<and> n \<le> m \<and> m < n + length cs)"
proof (induction es arbitrary: i n cs ts)
  case (Cons e es)
  show ?case
  proof (cases "ce_Usage e = ENCIPHERMENT \<and> getX509KeyPair L e \<noteq> None")
    case True
    then obtain kp where kp: "ce_Usage e = ENCIPHERMENT" "getX509KeyPair L e = Some kp" by auto
    obtain cs' ts' where b: "build_from L (i + 1) (n + 1) es = (cs', ts')" by fastforce
    with Cons.prems kp have e: "cs = kp # cs'" "ts = (i, n) # ts'" by simp_all
    from Cons.IH [OF b] kp(2) show ?thesis by (force simp: e getX509KeyPair_made)
  next
    case False
    with Cons.prems have "build_from L (i + 1) n es = (cs, ts)" by (auto split: if_splits)
    from Cons.IH [OF this] show ?thesis by force
  qed
qed simp

lemma tick_once_made:
  "tick_once L r1 r2 staple e c a = (e', c', a') \<Longrightarrow> made_pair L c \<Longrightarrow> (\<forall>k. a = Publishing k \<longrightarrow> made_pair L k) \<Longrightarrow>
   made_pair L c' \<and> (\<forall>k. a' = Publishing k \<longrightarrow> made_pair L k)"
  by (auto simp: tick_once_def refreshed_made split: ticker_at.splits if_splits sum.splits option.splits)

lemma certs_ok_build:
  assumes "certs_ok L w"
  shows "certs_ok L (add_build L w)"
proof -
  obtain cs ts where b: "BuildCertificates L (cw_entries w) = (cs, ts)" by fastforce
  note o1 = build_from_ok [OF b [unfolded BuildCertificates_def]]
  let ?w = "add_build L w" and ?n = "length (cw_builds w)"
  have w: "cw_entries ?w = cw_entries w" "cw_builds ?w = cw_builds w @ [cs]"
    "cw_tickers ?w = cw_tickers w @ map (\<lambda>(i, n). \<lparr>tk_build = ?n, tk_index = n, tk_entry = i,
         tk_at = (if ce_OneTimeLoading (cw_entries w ! i) then Ended else Waiting)\<rparr>) ts"
    by (simp_all add: add_build_def b)
  have "tk_build t < length (cw_builds ?w) \<and> tk_index t < length (cw_builds ?w ! tk_build t) \<and>
      tk_entry t < length (cw_entries ?w) \<and> (\<forall>c. tk_at t = Publishing c \<longrightarrow> made_pair L c)" if "t \<in> set (cw_tickers ?w)" for t
  proof (cases "t \<in> set (cw_tickers w)")
    case True
    with assms have "tk_build t < ?n \<and> tk_index t < length (cw_builds w ! tk_build t) \<and>
      tk_entry t < length (cw_entries w) \<and> (\<forall>c. tk_at t = Publishing c \<longrightarrow> made_pair L c)" unfolding certs_ok_def by blast
    then show ?thesis by (simp add: w nth_append)
  next
    case False
    with that obtain i n where t: "(i, n) \<in> set ts" "t = \<lparr>tk_build = ?n, tk_index = n, tk_entry = i,
         tk_at = (if ce_OneTimeLoading (cw_entries w ! i) then Ended else Waiting)\<rparr>" unfolding w by auto
    with o1 have "i < length (cw_entries w)" "n < length cs" by auto
    then show ?thesis by (simp add: w nth_append t(2))
  qed
  moreover have "\<forall>l \<in> set (cw_builds ?w). \<forall>k \<in> set l. made_pair L k" using assms o1 by (auto simp: certs_ok_def w)
  ultimately show ?thesis unfolding certs_ok_def by blast
qed

lemma certs_ok_tick:
  assumes "certs_ok L w" and "k < length (cw_tickers w)"
  shows "certs_ok L (tick L r1 r2 staple k w)"
proof -
  let ?t = "cw_tickers w ! k"
  obtain e c a where o1: "tick_once L r1 r2 staple (cw_entries w ! tk_entry ?t) (cw_builds w ! tk_build ?t ! tk_index ?t) (tk_at ?t) = (e, c, a)"
    by (cases "tick_once L r1 r2 staple (cw_entries w ! tk_entry ?t) (cw_builds w ! tk_build ?t ! tk_index ?t) (tk_at ?t)") auto
  have t: "?t \<in> set (cw_tickers w)" using assms(2) by simp
  with assms(1) have b: "tk_build ?t < length (cw_builds w)" "tk_index ?t < length (cw_builds w ! tk_build ?t)"
    "tk_entry ?t < length (cw_entries w)" "\<forall>c. tk_at ?t = Publishing c \<longrightarrow> made_pair L c" unfolding certs_ok_def by auto
  with assms(1) have "made_pair L (cw_builds w ! tk_build ?t ! tk_index ?t)" unfolding certs_ok_def by (meson nth_mem)
  from tick_once_made [OF o1 this b(4)] have m: "made_pair L c" "\<forall>k. a = Publishing k \<longrightarrow> made_pair L k" by simp_all
  let ?w = "tick L r1 r2 staple k w"
  have w: "cw_entries ?w = (cw_entries w)[tk_entry ?t := e]" "cw_tickers ?w = (cw_tickers w)[k := ?t\<lparr>tk_at := a\<rparr>]"
    "cw_builds ?w = (cw_builds w)[tk_build ?t := (cw_builds w ! tk_build ?t)[tk_index ?t := c]]"
    by (simp_all add: tick_def Let_def o1)
  have l: "length (cw_builds ?w ! b) = length (cw_builds w ! b)" if "b < length (cw_builds w)" for b
    using that by (cases "b = tk_build ?t") (simp_all add: w)
  have "made_pair L q" if x: "l \<in> set (cw_builds ?w)" "q \<in> set l" for l q
  proof (cases "l \<in> set (cw_builds w)")
    case True
    with assms(1) x(2) show ?thesis unfolding certs_ok_def by blast
  next
    case False
    with x(1) have "l = (cw_builds w ! tk_build ?t)[tk_index ?t := c]" unfolding w by (auto dest!: set_update_subset_insert [THEN subsetD])
    with x(2) have "q = c \<or> q \<in> set (cw_builds w ! tk_build ?t)" by (auto dest!: set_update_subset_insert [THEN subsetD])
    with assms(1) b(1) m(1) show ?thesis unfolding certs_ok_def by (metis nth_mem)
  qed
  moreover have "tk_build t < length (cw_builds ?w) \<and> tk_index t < length (cw_builds ?w ! tk_build t) \<and>
      tk_entry t < length (cw_entries ?w) \<and> (\<forall>c. tk_at t = Publishing c \<longrightarrow> made_pair L c)" if "t \<in> set (cw_tickers ?w)" for t
  proof -
    have n: "length (cw_builds ?w) = length (cw_builds w)" "length (cw_entries ?w) = length (cw_entries w)" by (simp_all add: w)
    from that [unfolded w] consider "t = ?t\<lparr>tk_at := a\<rparr>" | "t \<in> set (cw_tickers w)"
      by (auto dest!: set_update_subset_insert [THEN subsetD])
    then show ?thesis
    proof cases
      case 1
      with b m(2) l [OF b(1)] show ?thesis by (simp add: n)
    next
      case 2
      with assms(1) have "tk_build t < length (cw_builds w) \<and> tk_index t < length (cw_builds w ! tk_build t) \<and>
          tk_entry t < length (cw_entries w) \<and> (\<forall>c. tk_at t = Publishing c \<longrightarrow> made_pair L c)" unfolding certs_ok_def by blast
      with l [of "tk_build t"] show ?thesis by (simp add: n)
    qed
  qed
  ultimately show ?thesis unfolding certs_ok_def by blast
qed

lemma certs_reach_ok: "certs_reach L es w \<Longrightarrow> certs_ok L w"
proof (induction rule: certs_reach.induct)
  case cr_start
  show ?case by (simp add: certs_ok_def)
qed (simp_all add: certs_ok_build certs_ok_tick)

lemma find_pair_made:
  "\<forall>k \<in> set certs. made_pair L k \<Longrightarrow> find_pair sni certs = Inr (find (\<lambda>k. covers sni (the (kp_Leaf k))) certs)"
  by (induction certs) (auto dest: made_pair_leaf)

text \<open>C23: whatever listeners are made and however their tickers run, a handshake never meets a certificate that is not there in full: it gets
  the first that covers the name of the client, or the first of all where unknown names are served; and every certificate
  goes with its key.\<close>

theorem handshake_gets_certificate:
  assumes "certs_reach L es w" and "certs \<in> set (cw_builds w)"
  shows "new_get_certificate certs reject name =
      (let fallback = (if reject \<or> certs = [] then Inl errNoCertificates else Inr (certs ! 0)) in
       if \<not> reject \<and> (length certs \<le> 1 \<or> name = []) then fallback
       else (case find (\<lambda>k. covers (ToLower name) (the (kp_Leaf k))) certs of Some k \<Rightarrow> Inr k | None \<Rightarrow> fallback)) \<and>
    list_all (made_pair L) certs"
proof -
  from certs_reach_ok [OF assms(1)] assms(2) have m: "\<forall>k \<in> set certs. made_pair L k" unfolding certs_ok_def by blast
  have n: "ToLower name = [] \<longleftrightarrow> name = []" by (simp add: ToLower_def)
  have "certs = [] \<or> (length certs \<le> 1 \<longleftrightarrow> length certs = 1)" by (cases certs) auto
  then show ?thesis
  proof
    assume "certs = []"
    then show ?thesis by (simp add: new_get_certificate_def Let_def)
  next
    assume l: "length certs \<le> 1 \<longleftrightarrow> length certs = 1"
    then have "certs \<noteq> []" by auto
    with m l show ?thesis
      unfolding new_get_certificate_def Let_def n find_pair_made [OF m] by (simp add: list_all_iff split: option.split)
  qed
qed

section \<open>What reaches the listeners\<close>

text \<open>What a ticker sees: its entry, its certificate and where it is.\<close>

definition tick_view :: "cert_world \<Rightarrow> nat \<Rightarrow> cert_entry \<times> key_pair \<times> ticker_at" where
  "tick_view w k = (let t = cw_tickers w ! k in (cw_entries w ! tk_entry t, cw_builds w ! tk_build t ! tk_index t, tk_at t))"

definition same_place :: "ticker \<Rightarrow> ticker \<Rightarrow> bool" where
  "same_place s t \<longleftrightarrow> tk_build s = tk_build t \<and> tk_index s = tk_index t \<and> tk_entry s = tk_entry t"

lemma tick_frame:
  "cw_tickers (tick L r1 r2 staple k w) = (cw_tickers w)[k := (cw_tickers w ! k)\<lparr>tk_at := snd (snd
     (tick_once L r1 r2 staple (fst (tick_view w k)) (fst (snd (tick_view w k))) (snd (snd (tick_view w k)))))\<rparr>]"
  by (simp add: tick_def tick_view_def Let_def split_beta)

lemma tick_own_view:
  assumes "certs_ok L w" and "k < length (cw_tickers w)" and "tick_view w k = (e, c, a)"
  shows "tick_view (tick L r1 r2 staple k w) k = tick_once L r1 r2 staple e c a"
proof -
  have "cw_tickers w ! k \<in> set (cw_tickers w)" using assms(2) by simp
  with assms(1) have "tk_build (cw_tickers w ! k) < length (cw_builds w)" "tk_entry (cw_tickers w ! k) < length (cw_entries w)"
    "tk_index (cw_tickers w ! k) < length (cw_builds w ! tk_build (cw_tickers w ! k))" unfolding certs_ok_def by auto
  with assms(2,3) show ?thesis by (simp add: tick_view_def tick_def Let_def split_beta)
qed

lemma tick_other_view:
  assumes "certs_ok L w" and "k < length (cw_tickers w)" and "j < length (cw_tickers w)" and "j \<noteq> k"
    and "tk_entry (cw_tickers w ! j) = tk_entry (cw_tickers w ! k)" and "tk_build (cw_tickers w ! j) \<noteq> tk_build (cw_tickers w ! k)"
    and "tick_view w k = (e, c, a)" and "tick_view w j = (e, d, b)"
  shows "tick_view (tick L r1 r2 staple k w) j = (fst (tick_once L r1 r2 staple e c a), d, b)"
proof -
  have "cw_tickers w ! k \<in> set (cw_tickers w)" using assms(2) by simp
  with assms(1) have "tk_entry (cw_tickers w ! k) < length (cw_entries w)" unfolding certs_ok_def by auto
  with assms show ?thesis by (simp add: tick_view_def tick_def Let_def split_beta)
qed

text \<open>Steps of one ticker with the same files.\<close>

definition ticks :: "tls_certs \<Rightarrow> string \<Rightarrow> string \<Rightarrow> nat \<Rightarrow> nat \<Rightarrow> cert_world \<Rightarrow> cert_world" where
  "ticks L newCert newKey n k w = (tick L (Inr newCert) (Inr newKey) (Inl ''no responder'') k ^^ n) w"

text \<open>The places of the tickers stay.\<close>

definition frame_ok :: "tls_certs \<Rightarrow> cert_world \<Rightarrow> cert_world \<Rightarrow> bool" where
  "frame_ok L w v \<longleftrightarrow> certs_ok L v \<and> length (cw_tickers v) = length (cw_tickers w) \<and>
     (\<forall>i < length (cw_tickers w). same_place (cw_tickers v ! i) (cw_tickers w ! i))"

lemma frame_ok_tick: "frame_ok L w v \<Longrightarrow> k < length (cw_tickers w) \<Longrightarrow> frame_ok L w (tick L r1 r2 staple k v)"
  by (auto simp: frame_ok_def certs_ok_tick tick_frame same_place_def nth_list_update)

lemma ticks_Suc: "ticks L c k' (Suc n) k w = tick L (Inr c) (Inr k') (Inl ''no responder'') k (ticks L c k' n k w)"
  by (simp add: ticks_def)

lemma frame_ok_ticks: "frame_ok L w v \<Longrightarrow> k < length (cw_tickers w) \<Longrightarrow> frame_ok L w (ticks L c k' n k v)"
  by (induction n) (simp_all add: frame_ok_tick ticks_Suc, simp add: ticks_def)

lemma frame_ok_refl: "certs_ok L w \<Longrightarrow> frame_ok L w w"
  by (simp add: frame_ok_def same_place_def)

lemma ticks_own_view:
  assumes "frame_ok L w v" and "k < length (cw_tickers w)" and "tick_view (ticks L c k' n k v) k = (e, d, a)"
  shows "tick_view (ticks L c k' (Suc n) k v) k = tick_once L (Inr c) (Inr k') (Inl ''no responder'') e d a"
  using frame_ok_ticks [OF assms(1,2)] assms(2,3) unfolding ticks_Suc by (simp add: frame_ok_def tick_own_view)

lemma reload_four:
  assumes w: "certs_ok L w" and k: "k < length (cw_tickers w)" and v: "tick_view w k = (e, d, Waiting)"
    and p: "ce_CertificatePath e \<noteq> []" "ce_KeyPath e \<noteq> []" and new: "c \<noteq> ce_Certificate e \<or> k' \<noteq> ce_Key e"
    and kp: "getX509KeyPair L (e\<lparr>ce_Certificate := c, ce_Key := k'\<rparr>) = Some kp"
  shows "tick_view (ticks L c k' 4 k w) k = (e\<lparr>ce_Certificate := c, ce_Key := k'\<rparr>, kp, Waiting)"
proof -
  note f = frame_ok_refl [OF w]
  let ?e = "e\<lparr>ce_Certificate := c, ce_Key := k'\<rparr>"
  have "tick_view (ticks L c k' 0 k w) k = (e, d, Waiting)" using v by (simp add: ticks_def)
  from ticks_own_view [OF f k this] have "tick_view (ticks L c k' (Suc 0) k w) k = (e\<lparr>ce_Certificate := c\<rparr>, d, Writing_key k')"
    using p new by (simp add: tick_once_def)
  from ticks_own_view [OF f k this] have "tick_view (ticks L c k' (Suc (Suc 0)) k w) k = (?e, d, Called True)" by (simp add: tick_once_def)
  from ticks_own_view [OF f k this] have "tick_view (ticks L c k' (Suc (Suc (Suc 0))) k w) k = (?e, d, Publishing kp)"
    using kp by (simp add: tick_once_def refreshed_def)
  from ticks_own_view [OF f k this] show ?thesis by (simp add: tick_once_def eval_nat_numeral)
qed

lemma ticks_other_view:
  assumes f: "frame_ok L w v" and k: "k < length (cw_tickers w)" and j: "j < length (cw_tickers w)" "j \<noteq> k"
    and s: "tk_entry (cw_tickers w ! j) = tk_entry (cw_tickers w ! k)" "tk_build (cw_tickers w ! j) \<noteq> tk_build (cw_tickers w ! k)"
    and a: "tick_view v k = (e, d, b)" and a': "tick_view v j = (e, d', b')"
  shows "tick_view (ticks L c k' n k v) j = (fst (tick_view (ticks L c k' n k v) k), d', b')"
proof (induction n)
  case 0
  show ?case using a a' by (simp add: ticks_def)
next
  case (Suc n)
  let ?v = "ticks L c k' n k v"
  have g: "frame_ok L w ?v" using frame_ok_ticks [OF f k] .
  then have o1: "certs_ok L ?v" "k < length (cw_tickers ?v)" "j < length (cw_tickers ?v)"
    "tk_entry (cw_tickers ?v ! j) = tk_entry (cw_tickers ?v ! k)" "tk_build (cw_tickers ?v ! j) \<noteq> tk_build (cw_tickers ?v ! k)"
    using k j s by (auto simp: frame_ok_def same_place_def)
  obtain e1 d1 b1 where v: "tick_view ?v k = (e1, d1, b1)" by (cases "tick_view ?v k") auto
  with Suc have "tick_view ?v j = (e1, d', b')" by simp
  from tick_other_view [OF o1(1-3) j(2) o1(4,5) v this] tick_own_view [OF o1(1,2) v] show ?case
    unfolding ticks_Suc by simp
qed

lemma unchanged_files:
  assumes f: "frame_ok L w v" and j: "j < length (cw_tickers w)" and v: "tick_view v j = (e, d, Waiting)"
    and same: "ce_Certificate e = c" "ce_Key e = k'"
  shows "\<exists>a. tick_view (ticks L c k' n j v) j = (e, d, a) \<and> a \<in> {Waiting, Called False, Publishing d}"
proof (induction n)
  case 0
  show ?case using v by (simp add: ticks_def)
next
  case (Suc n)
  then obtain a where a: "tick_view (ticks L c k' n j v) j = (e, d, a)" "a \<in> {Waiting, Called False, Publishing d}" by blast
  from ticks_own_view [OF f j a(1)] a(2) same show ?case by (auto simp: tick_once_def refreshed_def)
qed

text \<open>New files reach the listener whose ticker sees them first.  A second listener made from the same configuration - of a range of
  ports - compares the files with the entry that the first ticker has already changed, and goes on with the old certificate.\<close>

theorem reload_reaches_one_listener:
  assumes "certs_reach L es w" and "j < length (cw_tickers w)" and "k < length (cw_tickers w)"
    and "tk_entry (cw_tickers w ! j) = tk_entry (cw_tickers w ! k)" and "tk_build (cw_tickers w ! j) \<noteq> tk_build (cw_tickers w ! k)"
    and "tick_view w k = (e, d, Waiting)" and "tick_view w j = (e, d', Waiting)"
    and "ce_CertificatePath e \<noteq> []" and "ce_KeyPath e \<noteq> []" and "newCert \<noteq> ce_Certificate e \<or> newKey \<noteq> ce_Key e"
    and "getX509KeyPair L (e\<lparr>ce_Certificate := newCert, ce_Key := newKey\<rparr>) = Some kp"
  shows "fst (snd (tick_view (ticks L newCert newKey 4 k w) k)) = kp \<and>
    (\<forall>n. fst (snd (tick_view (ticks L newCert newKey n j (ticks L newCert newKey 4 k w)) j)) = d')"
proof -
  note w = certs_reach_ok [OF assms(1)]
  have jk: "j \<noteq> k" using assms(5) by auto
  let ?v = "ticks L newCert newKey 4 k w"
  note v = reload_four [OF w assms(3,6,8-11)]
  note f = frame_ok_refl [OF w]
  from ticks_other_view [OF f assms(3,2) jk assms(4-7)] v
  have "tick_view ?v j = (e\<lparr>ce_Certificate := newCert, ce_Key := newKey\<rparr>, d', Waiting)" by simp
  note u = unchanged_files [OF frame_ok_ticks [OF f assms(3)] assms(2) this, where c = newCert and k' = newKey]
  have "fst (snd (tick_view (ticks L newCert newKey n j ?v) j)) = d'" for n
  proof -
    from u [of n] obtain a where "tick_view (ticks L newCert newKey n j ?v) j = (e\<lparr>ce_Certificate := newCert, ce_Key := newKey\<rparr>, d', a)"
      by auto
    then show ?thesis by simp
  qed
  with v show ?thesis by simp
qed

text \<open>A library in which a pair matches when certificate and key are one text, which is also the name; one configuration, two listeners.\<close>

definition demo_certs :: tls_certs where
  "demo_certs = \<lparr>tc_X509KeyPair = (\<lambda>c k. if c = k then Inr \<lparr>kp_First = c, kp_Chain = [], kp_OCSPStaple = [], kp_Leaf = None\<rparr> else Inl ''mismatch''),
     tc_ParseCertificate = (\<lambda>c. Inr \<lparr>lf_CommonName = c, lf_DNSNames = [], lf_NotAfter = 0\<rparr>)\<rparr>"

definition demo_entry :: cert_entry where
  "demo_entry = \<lparr>ce_Certificate = ''*.net'', ce_Key = ''*.net'', ce_Usage = ENCIPHERMENT, ce_OcspStapling = 0,
     ce_CertificatePath = ''c'', ce_KeyPath = ''k'', ce_OneTimeLoading = False, ce_BuildChain = False\<rparr>"

definition demo_pair :: "string \<Rightarrow> key_pair" where
  "demo_pair s = \<lparr>kp_First = s, kp_Chain = [], kp_OCSPStaple = [], kp_Leaf = Some \<lparr>lf_CommonName = s, lf_DNSNames = [], lf_NotAfter = 0\<rparr>\<rparr>"

definition demo_world :: cert_world where
  "demo_world = add_build demo_certs (add_build demo_certs \<lparr>cw_entries = [demo_entry], cw_builds = [], cw_tickers = []\<rparr>)"

lemma demo_reach: "certs_reach demo_certs [demo_entry] demo_world"
  unfolding demo_world_def by (intro certs_reach.intros)

lemma demo_world_fields:
  "cw_entries demo_world = [demo_entry]" "cw_builds demo_world = [[demo_pair ''*.net''], [demo_pair ''*.net'']]"
  "cw_tickers demo_world = [\<lparr>tk_build = 0, tk_index = 0, tk_entry = 0, tk_at = Waiting\<rparr>, \<lparr>tk_build = 1, tk_index = 0, tk_entry = 0, tk_at = Waiting\<rparr>]"
  by (simp_all add: demo_world_def add_build_def BuildCertificates_def demo_entry_def demo_certs_def getX509KeyPair_def demo_pair_def)

theorem handshake_gets_certificate_witness:
  "new_get_certificate [demo_pair ''*.net''] True ''A.net'' = Inr (demo_pair ''*.net'') \<and>
   new_get_certificate [demo_pair ''*.net''] True ''a.b.net'' = Inl errNoCertificates"
proof -
  have "[demo_pair ''*.net''] \<in> set (cw_builds demo_world)" by (simp add: demo_world_fields)
  note o1 = handshake_gets_certificate [OF demo_reach this, THEN conjunct1, of True]
  have "find (\<lambda>k. covers (ToLower ''A.net'') (the (kp_Leaf k))) [demo_pair ''*.net''] = Some (demo_pair ''*.net'')"
    "find (\<lambda>k. covers (ToLower ''a.b.net'') (the (kp_Leaf k))) [demo_pair ''*.net''] = None" by code_simp+
  then show ?thesis unfolding o1 Let_def by simp
qed

theorem reload_reaches_one_listener_witness:
  "fst (snd (tick_view (ticks demo_certs ''b.net'' ''b.net'' 4 0 demo_world) 0)) = demo_pair ''b.net'' \<and>
   fst (snd (tick_view (ticks demo_certs ''b.net'' ''b.net'' 100 1 (ticks demo_certs ''b.net'' ''b.net'' 4 0 demo_world)) 1)) = demo_pair ''*.net''"
proof -
  have j: "1 < length (cw_tickers demo_world)" "0 < length (cw_tickers demo_world)"
    "tk_entry (cw_tickers demo_world ! 1) = tk_entry (cw_tickers demo_world ! 0)"
    "tk_build (cw_tickers demo_world ! 1) \<noteq> tk_build (cw_tickers demo_world ! 0)" by (simp_all add: demo_world_fields)
  have v: "tick_view demo_world 0 = (demo_entry, demo_pair ''*.net'', Waiting)" "tick_view demo_world 1 = (demo_entry, demo_pair ''*.net'', Waiting)"
    by (simp_all add: tick_view_def demo_world_fields)
  have p: "ce_CertificatePath demo_entry \<noteq> []" "ce_KeyPath demo_entry \<noteq> []"
    "''b.net'' \<noteq> ce_Certificate demo_entry \<or> ''b.net'' \<noteq> ce_Key demo_entry"
    "getX509KeyPair demo_certs (demo_entry\<lparr>ce_Certificate := ''b.net'', ce_Key := ''b.net''\<rparr>) = Some (demo_pair ''b.net'')"
    by (simp_all add: demo_entry_def getX509KeyPair_def demo_certs_def demo_pair_def)
  from reload_reaches_one_listener [OF demo_reach j v p] show ?thesis by blast
qed

text \<open>A file that cannot be read once - it is just being replaced - ends the reloading of its certificate.\<close>

lemma failed_read_ends_ticker:
  assumes "certs_ok L w" and "k < length (cw_tickers w)" and "tick_view w k = (e, d, Waiting)"
    and "ce_CertificatePath e \<noteq> []" and "ce_KeyPath e \<noteq> []"
  shows "tick_view (ticks L c k' n k (tick L (Inl err) r2 staple k w)) k = (e, d, Ended)"
proof (induction n)
  case 0
  show ?case using tick_own_view [OF assms(1-3)] assms(4,5) by (simp add: ticks_def tick_once_def)
next
  case (Suc n)
  from ticks_own_view [OF frame_ok_tick [OF frame_ok_refl [OF assms(1)] assms(2)] assms(2) Suc] show ?case by (simp add: tick_once_def)
qed

text \<open>A listener that is made while a ticker has written one half of its entry loses the certificate for good: it gets no ticker either.\<close>

lemma half_written_entry_is_dropped:
  assumes "cw_entries w = [e]" and "tc_X509KeyPair L (ce_Certificate e) (ce_Key e) = Inl err"
  shows "cw_builds (add_build L w) = cw_builds w @ [[]]" and "cw_tickers (add_build L w) = cw_tickers w"
  using assms by (simp_all add: add_build_def BuildCertificates_def getX509KeyPair_def)

text \<open>A client without a name is served although unknown names are refused, by a certificate that has no common name.\<close>

lemma no_name_is_covered: "kp_Leaf k = Some lf \<Longrightarrow> lf_CommonName lf = [] \<Longrightarrow> new_get_certificate [k] True [] = Inr k"
  by (simp add: new_get_certificate_def Let_def ToLower_def covers_def)

end
