(* ===== verification/Xray_TLS.thy ===== *)
theory Xray_TLS
  imports Xray_Certs
begin

text \<open>
  The rest of Xray's TLS (runtime/patches/xray/transport/internet/tls/config.go): certificates that an authority of the configuration issues
  for the names clients ask for, the verification of a peer, and the configuration of crypto/tls that is made of all of it.
\<close>

section \<open>Issuing on demand\<close>

text \<open>The authority's certificate and key parsed, and a certificate made for one name under it.\<close>

record tls_issue =
  ti_Parse :: "string \<Rightarrow> string \<Rightarrow> string res"
  ti_Generate :: "string \<Rightarrow> string \<Rightarrow> (string \<times> string) res"

definition issueCertificate :: "tls_certs \<Rightarrow> tls_issue \<Rightarrow> cert_entry \<Rightarrow> string \<Rightarrow> key_pair res" where
  "issueCertificate L I rawCA domain = (case ti_Parse I (ce_Certificate rawCA) (ce_Key rawCA) of
     Inl e \<Rightarrow> Inl (''failed to parse raw certificate > '' @ e)
   | Inr parent \<Rightarrow> (case ti_Generate I parent domain of
       Inl e \<Rightarrow> Inl (''failed to generate new certificate for '' @ domain @ '' > '' @ e)
     | Inr (newCertPEM, newKeyPEM) \<Rightarrow>
         tc_X509KeyPair L (if ce_BuildChain rawCA then newCertPEM @ [CHR 0x0A] @ ce_Certificate rawCA else newCertPEM) newKeyPEM))"

text \<open>The certificates of the configuration, and the index by name that crypto/tls makes of them.\<close>

record ca_state =
  ca_Certificates :: "key_pair list"
  ca_Names :: "(string, key_pair) gomap"

definition leaf_of :: "tls_certs \<Rightarrow> key_pair \<Rightarrow> x509_leaf option" where
  "leaf_of L k = (case kp_Leaf k of Some lf \<Rightarrow> Some lf
     | None \<Rightarrow> (case tc_ParseCertificate L (kp_First k) of Inl e \<Rightarrow> None | Inr lf \<Rightarrow> Some lf))"

definition isCertificateExpired :: "tls_certs \<Rightarrow> int \<Rightarrow> key_pair \<Rightarrow> bool" where
  "isCertificateExpired L now k = (case leaf_of L k of None \<Rightarrow> False | Some lf \<Rightarrow> lf_NotAfter lf < now + 120)"

text \<open>\<open>BuildNameToCertificate\<close>: a common name counts when there are no others, and a later certificate takes a name over.\<close>

definition names_of :: "x509_leaf \<Rightarrow> string list" where
  "names_of lf = (if lf_CommonName lf \<noteq> [] \<and> lf_DNSNames lf = [] then [lf_CommonName lf] else []) @ lf_DNSNames lf"

definition add_names :: "tls_certs \<Rightarrow> key_pair \<Rightarrow> (string, key_pair) gomap \<Rightarrow> (string, key_pair) gomap" where
  "add_names L k m = (case leaf_of L k of None \<Rightarrow> m | Some lf \<Rightarrow> fold (\<lambda>n. mput n k) (names_of lf) m)"

definition BuildNameToCertificate :: "tls_certs \<Rightarrow> ca_state \<Rightarrow> ca_state" where
  "BuildNameToCertificate L s = s\<lparr>ca_Names := fold (add_names L) (ca_Certificates s) []\<rparr>"

text \<open>The first authority that can, issues; an issued certificate that does not parse goes without a leaf of its own.  The tickers of the
  authorities rewrite their entries like those of \<open>tick_once\<close>, and publish nothing.\<close>

fun first_issued :: "tls_certs \<Rightarrow> tls_issue \<Rightarrow> cert_entry list \<Rightarrow> string \<Rightarrow> key_pair option" where
  "first_issued L I [] domain = None"
| "first_issued L I (raw # ca) domain =
     (if ce_Usage raw \<noteq> AUTHORITY_ISSUE then first_issued L I ca domain
      else (case issueCertificate L I raw domain of
          Inl e \<Rightarrow> first_issued L I ca domain
        | Inr k \<Rightarrow> Some (case tc_ParseCertificate L (kp_First k) of Inl e \<Rightarrow> k | Inr lf \<Rightarrow> k\<lparr>kp_Leaf := Some lf\<rparr>)))"

definition getCustomCA :: "cert_entry list \<Rightarrow> cert_entry list" where
  "getCustomCA es = filter (\<lambda>e. ce_Usage e = AUTHORITY_ISSUE) es"

definition get_certificate :: "tls_certs \<Rightarrow> tls_issue \<Rightarrow> cert_entry list \<Rightarrow> int \<Rightarrow> string \<Rightarrow> ca_state \<Rightarrow> key_pair res \<times> ca_state" where
  "get_certificate L I ca now domain s =
     (let found = map_of (ca_Names s) domain in
      if found \<noteq> None \<and> \<not> isCertificateExpired L now (the found) then (Inr (the found), s)
      else (let s = (if found \<noteq> None then s\<lparr>ca_Certificates := filter (\<lambda>k. \<not> isCertificateExpired L now k) (ca_Certificates s)\<rparr> else s)
        in case first_issued L I ca domain of
            None \<Rightarrow> (Inl (''failed to create a new certificate for '' @ domain), s)
          | Some k \<Rightarrow> (Inr k, BuildNameToCertificate L (s\<lparr>ca_Certificates := ca_Certificates s @ [k]\<rparr>))))"

lemma first_issued_from:
  "first_issued L I ca domain = Some k \<Longrightarrow>
   \<exists>raw \<in> set ca. ce_Usage raw = AUTHORITY_ISSUE \<and> (\<exists>k'. issueCertificate L I raw domain = Inr k' \<and> kp_First k = kp_First k')"
  by (induction ca) (auto split: if_splits sum.splits)

lemma fold_mput_in: "map_of (fold (\<lambda>n. mput n k) ns m) x = (if x \<in> set ns then Some k else map_of m x)"
  by (induction ns arbitrary: m) auto

lemma last_certificate_names:
  assumes "leaf_of L k = Some lf" and "domain \<in> set (lf_DNSNames lf)"
  shows "map_of (ca_Names (BuildNameToCertificate L (s\<lparr>ca_Certificates := cs @ [k]\<rparr>))) domain = Some k"
  using assms by (simp add: BuildNameToCertificate_def add_names_def names_of_def fold_mput_in)

text \<open>A name is served by the certificate kept for it while that is good for two minutes more, else by one that an authority of the
  configuration has just issued; and whoever asks for the name again gets the same one, until two minutes before it ends.\<close>

theorem issued_certificate_serves:
  assumes "get_certificate L I ca now domain s = (Inr k, s')" and "leaf_of L k = Some lf" and "domain \<in> set (lf_DNSNames lf)"
    and "now' + 120 \<le> lf_NotAfter lf"
  shows "get_certificate L I ca now' domain s' = (Inr k, s') \<and>
    (s' = s \<and> map_of (ca_Names s) domain = Some k \<and> now + 120 \<le> lf_NotAfter lf \<or>
     (\<exists>raw \<in> set ca. ce_Usage raw = AUTHORITY_ISSUE \<and> (\<exists>k'. issueCertificate L I raw domain = Inr k' \<and> kp_First k = kp_First k')))"
proof (cases "map_of (ca_Names s) domain \<noteq> None \<and> \<not> isCertificateExpired L now (the (map_of (ca_Names s) domain))")
  case True
  with assms(1) have "s' = s" "map_of (ca_Names s) domain = Some k" by (auto simp: get_certificate_def)
  with True assms(2,4) show ?thesis by (auto simp: get_certificate_def isCertificateExpired_def)
next
  case False
  with assms(1) obtain s1 where "first_issued L I ca domain = Some k"
    and s': "s' = BuildNameToCertificate L (s1\<lparr>ca_Certificates := ca_Certificates s1 @ [k]\<rparr>)"
    by (auto simp: get_certificate_def Let_def split: option.splits)
  with first_issued_from last_certificate_names [OF assms(2,3)] assms(2,4) show ?thesis
    unfolding s' by (auto simp: get_certificate_def isCertificateExpired_def)
qed

definition demo_issue :: tls_issue where
  "demo_issue = \<lparr>ti_Parse = (\<lambda>c k. Inr c), ti_Generate = (\<lambda>p d. Inr (d, d))\<rparr>"

definition demo_named :: tls_certs where
  "demo_named = demo_certs\<lparr>tc_ParseCertificate := (\<lambda>c. Inr \<lparr>lf_CommonName = c, lf_DNSNames = [c], lf_NotAfter = 1000\<rparr>)\<rparr>"

definition demo_ca :: cert_entry where
  "demo_ca = demo_entry\<lparr>ce_Usage := AUTHORITY_ISSUE\<rparr>"

theorem issued_certificate_serves_witness:
  "(case get_certificate demo_named demo_issue [demo_ca] 0 ''a.net'' \<lparr>ca_Certificates = [], ca_Names = []\<rparr> of
     (r, s') \<Rightarrow> get_certificate demo_named demo_issue [demo_ca] 880 ''a.net'' s' = (r, s'))"
proof -
  let ?k = "\<lparr>kp_First = ''a.net'', kp_Chain = [], kp_OCSPStaple = [], kp_Leaf = Some \<lparr>lf_CommonName = ''a.net'', lf_DNSNames = [''a.net''], lf_NotAfter = 1000\<rparr>\<rparr>"
  let ?s = "\<lparr>ca_Certificates = [?k], ca_Names = [(''a.net'', ?k)]\<rparr>"
  have g: "get_certificate demo_named demo_issue [demo_ca] 0 ''a.net'' \<lparr>ca_Certificates = [], ca_Names = []\<rparr> = (Inr ?k, ?s)" by code_simp
  have l: "leaf_of demo_named ?k = Some \<lparr>lf_CommonName = ''a.net'', lf_DNSNames = [''a.net''], lf_NotAfter = 1000\<rparr>" by (simp add: leaf_of_def)
  from issued_certificate_serves [OF g l, of 880] show ?thesis unfolding g by simp
qed

text \<open>Every name that a client makes up costs a certificate that is kept.\<close>

lemma names_accumulate:
  "map_of (ca_Names s) domain = None \<Longrightarrow> first_issued L I ca domain = Some k \<Longrightarrow>
   length (ca_Certificates (snd (get_certificate L I ca now domain s))) = Suc (length (ca_Certificates s))"
  by (simp add: get_certificate_def Let_def BuildNameToCertificate_def)

section \<open>The verification of a peer\<close>

text \<open>Hash and kind of a certificate, and its verification: roots, intermediates, name, certificate.\<close>

record ('c, 'p) verify_lib =
  vf_Hash :: "'c \<Rightarrow> string"
  vf_IsCA :: "'c \<Rightarrow> bool"
  vf_Single :: "'c \<Rightarrow> 'p"
  vf_Verify :: "'p \<Rightarrow> 'c list \<Rightarrow> string \<Rightarrow> 'c \<Rightarrow> bool"

datatype 'c verify_result = certNotFound | foundLeaf | foundCA 'c

fun find_ca :: "('c, 'p) verify_lib \<Rightarrow> string list \<Rightarrow> 'c list \<Rightarrow> 'c verify_result" where
  "find_ca V pins [] = certNotFound"
| "find_ca V pins (c # cs) = (if vf_Hash V c \<in> set pins \<and> vf_IsCA V c then foundCA c else find_ca V pins cs)"

definition verifyChain :: "('c, 'p) verify_lib \<Rightarrow> 'c list \<Rightarrow> string list \<Rightarrow> 'c verify_result" where
  "verifyChain V certs pins = (if vf_Hash V (hd certs) \<in> set pins then foundLeaf else find_ca V pins (tl certs))"

record 'p rand_carrier =
  pv_RootCAs :: 'p
  pv_VerifyPeerCertByName :: "string list option"
  pv_PinnedPeerCertSha256 :: "string list option"

text \<open>\<open>serverName\<close> is that of the configuration the carrier points to.\<close>

definition verifyPeerCert :: "('c, 'p) verify_lib \<Rightarrow> 'p rand_carrier \<Rightarrow> string \<Rightarrow> 'c list \<Rightarrow> err option" where
  "verifyPeerCert V r serverName certs =
     (if certs = [] then Some ''unexpected certs''
      else (let result = (case pv_PinnedPeerCertSha256 r of None \<Rightarrow> None | Some pins \<Rightarrow> Some (verifyChain V certs pins));
                CAs = (case result of Some (foundCA c) \<Rightarrow> vf_Single V c | _ \<Rightarrow> pv_RootCAs r)
        in if result = Some certNotFound then Some ''peer cert is unrecognized (against pinnedPeerCertSha256)''
           else if result = Some foundLeaf then None
           else (case pv_VerifyPeerCertByName r of
               Some ns \<Rightarrow>
                 if list_ex (\<lambda>n. vf_Verify V CAs (tl certs) n (hd certs)) ns then None
                 else Some ''peer cert is invalid (against root CAs and verifyPeerCertByName)''
             | None \<Rightarrow>
                 if result = None then None
                 else if serverName = [] then Some ''Pinning CA needs a valid ServerName''
                 else if vf_Verify V CAs (tl certs) serverName (hd certs) then None
                 else Some ''peer cert is invalid (against pinned CA and serverName)'')))"

section \<open>The configuration\<close>

datatype curve = CurveP256 | CurveP384 | CurveP521 | X25519 | X25519MLKEM768 | SecP256r1MLKEM768 | SecP384r1MLKEM1024

definition curveMap :: "(string, curve) gomap" where
  "curveMap = [(''curvep256'', CurveP256), (''curvep384'', CurveP384), (''curvep521'', CurveP521), (''x25519'', X25519),
     (''x25519mlkem768'', X25519MLKEM768), (''secp256r1mlkem768'', SecP256r1MLKEM768), (''secp384r1mlkem1024'', SecP384r1MLKEM1024)]"

definition ParseCurveName :: "string list \<Rightarrow> curve list" where
  "ParseCurveName curveNames = List.map_filter (\<lambda>n. map_of curveMap (ToLower n)) curveNames"

definition IsFromMitm :: "string \<Rightarrow> bool" where
  "IsFromMitm s \<longleftrightarrow> ToLower s = ''frommitm''"

text \<open>Versions as crypto/tls numbers them; 0 leaves the choice to it.\<close>

definition tls_version :: "string \<Rightarrow> nat" where
  "tls_version v = (if v = ''1.0'' then 769 else if v = ''1.1'' then 770 else if v = ''1.2'' then 771 else if v = ''1.3'' then 772 else 0)"

definition is_space :: "char \<Rightarrow> bool" where
  "is_space c \<longleftrightarrow> c \<in> {CHR 0x09, CHR 0x0A, CHR 0x0B, CHR 0x0C, CHR 0x0D, CHR '' ''}"

text \<open>\<open>strings.TrimSpace\<close> on the characters of ASCII.\<close>

definition TrimSpace :: "string \<Rightarrow> string" where
  "TrimSpace s = rev (dropWhile is_space (rev (dropWhile is_space s)))"

definition cipher_suites :: "(string, nat) gomap \<Rightarrow> string \<Rightarrow> nat list" where
  "cipher_suites ids s = (if s = [] then [] else List.map_filter (\<lambda>n. map_of ids (TrimSpace n)) (Split s (CHR '':'')))"

record XrayTLS =
  xt_Certificate :: "cert_entry list"
  xt_ServerName :: string
  xt_NextProtocol :: "string list"
  xt_EnableSessionResumption :: bool
  xt_VerifyPeerCertByName :: "string list"
  xt_PinnedPeerCertSha256 :: "string list"
  xt_RejectUnknownSni :: bool
  xt_CurvePreferences :: "string list"
  xt_MinVersion :: string
  xt_MaxVersion :: string
  xt_CipherSuites :: string
  xt_MasterKeyLog :: string
  xt_EchConfigList :: string
  xt_EchServerKeys :: string

text \<open>Where the certificate of a handshake comes from: authorities that issue, or a list that is served.\<close>

datatype cert_source = Issuing "cert_entry list" | Serving "key_pair list" bool

record 'p tls_Config =
  gt_RootCAs :: 'p
  gt_NextProtos :: "string list"
  gt_SessionTicketsDisabled :: bool
  gt_InsecureSkipVerify :: bool
  gt_ServerName :: string
  gt_CurvePreferences :: "curve list"
  gt_MinVersion :: nat
  gt_MaxVersion :: nat
  gt_CipherSuites :: "nat list"
  gt_KeyLogWriter :: bool
  gt_GetCertificate :: "cert_source option"
  gt_VerifyPeerCertificate :: "'p rand_carrier option"

datatype tls_opt = WithDestination string | WithOverrideName string | WithNextProto "string list"

fun apply_opt :: "tls_opt \<Rightarrow> 'p tls_Config \<Rightarrow> 'p tls_Config" where
  "apply_opt (WithDestination dest) g = (if gt_ServerName g = [] then g\<lparr>gt_ServerName := dest\<rparr> else g)"
| "apply_opt (WithOverrideName serverName) g = g\<lparr>gt_ServerName := serverName\<rparr>"
| "apply_opt (WithNextProto protocol) g = (if gt_NextProtos g = [] then g\<lparr>gt_NextProtos := protocol\<rparr> else g)"

text \<open>The roots for a configuration, the cipher suites of crypto/tls, whether a key log opens, and the encrypted client hello.\<close>

record 'p tls_env =
  te_CertPool :: "XrayTLS option \<Rightarrow> 'p"
  te_certs :: tls_certs
  te_suites :: "(string, nat) gomap"
  te_OpenLog :: "string \<Rightarrow> bool"
  te_ApplyECH :: "XrayTLS \<Rightarrow> 'p tls_Config \<Rightarrow> 'p tls_Config"

definition empty_tls :: "'p \<Rightarrow> 'p tls_Config" where
  "empty_tls root = \<lparr>gt_RootCAs = root, gt_NextProtos = [], gt_SessionTicketsDisabled = True, gt_InsecureSkipVerify = False, gt_ServerName = [],
     gt_CurvePreferences = [], gt_MinVersion = 0, gt_MaxVersion = 0, gt_CipherSuites = [], gt_KeyLogWriter = False, gt_GetCertificate = None,
     gt_VerifyPeerCertificate = None\<rparr>"

definition base_config :: "'p \<Rightarrow> XrayTLS \<Rightarrow> 'p tls_Config" where
  "base_config root c = (empty_tls root)\<lparr>gt_NextProtos := xt_NextProtocol c, gt_SessionTicketsDisabled := \<not> xt_EnableSessionResumption c,
     gt_InsecureSkipVerify := (xt_VerifyPeerCertByName c \<noteq> [] \<or> xt_PinnedPeerCertSha256 c \<noteq> []),
     gt_VerifyPeerCertificate := Some \<lparr>pv_RootCAs = root,
       pv_VerifyPeerCertByName = (if xt_VerifyPeerCertByName c \<noteq> [] then Some (xt_VerifyPeerCertByName c) else None),
       pv_PinnedPeerCertSha256 = (if xt_PinnedPeerCertSha256 c \<noteq> [] then Some (xt_PinnedPeerCertSha256 c) else None)\<rparr>\<rparr>"

definition parseServerName :: "XrayTLS \<Rightarrow> string" where
  "parseServerName c = (if IsFromMitm (xt_ServerName c) then [] else xt_ServerName c)"

definition fill_config :: "'p tls_env \<Rightarrow> XrayTLS \<Rightarrow> 'p tls_Config \<Rightarrow> 'p tls_Config" where
  "fill_config E c g = (let ca = getCustomCA (xt_Certificate c); sn = parseServerName c
     in g\<lparr>gt_GetCertificate := Some (if ca \<noteq> [] then Issuing ca
            else Serving (fst (BuildCertificates (te_certs E) (xt_Certificate c))) (xt_RejectUnknownSni c)),
          gt_ServerName := (if sn \<noteq> [] then sn else gt_ServerName g),
          gt_CurvePreferences := (if xt_CurvePreferences c \<noteq> [] then ParseCurveName (xt_CurvePreferences c) else gt_CurvePreferences g),
          gt_NextProtos := (if gt_NextProtos g = [] then [''h2'', ''http/1.1''] else gt_NextProtos g),
          gt_MinVersion := tls_version (xt_MinVersion c), gt_MaxVersion := tls_version (xt_MaxVersion c),
          gt_CipherSuites := cipher_suites (te_suites E) (xt_CipherSuites c),
          gt_KeyLogWriter := (xt_MasterKeyLog c \<noteq> [] \<and> xt_MasterKeyLog c \<noteq> ''none'' \<and> te_OpenLog E (xt_MasterKeyLog c))\<rparr>)"

definition GetTLSConfig :: "'p tls_env \<Rightarrow> tls_opt list \<Rightarrow> XrayTLS option \<Rightarrow> 'p tls_Config" where
  "GetTLSConfig E opts c0 = (let root = te_CertPool E c0 in case c0 of
     None \<Rightarrow> empty_tls root
   | Some c \<Rightarrow> (let g = fill_config E c (fold apply_opt opts (base_config root c))
       in if xt_EchConfigList c \<noteq> [] \<or> xt_EchServerKeys c \<noteq> [] then te_ApplyECH E c g else g))"

text \<open>
  A full handshake of crypto/tls on the side of the client: unless told otherwise it verifies the chain for its server name,
  which must not be empty, and then it calls the verification of the configuration.
\<close>

definition client_accepts :: "('c, 'p) verify_lib \<Rightarrow> 'p tls_Config \<Rightarrow> 'c list \<Rightarrow> bool" where
  "client_accepts V g certs \<longleftrightarrow>
     (gt_InsecureSkipVerify g \<or> certs \<noteq> [] \<and> gt_ServerName g \<noteq> [] \<and> vf_Verify V (gt_RootCAs g) (tl certs) (gt_ServerName g) (hd certs)) \<and>
     (case gt_VerifyPeerCertificate g of None \<Rightarrow> True | Some r \<Rightarrow> verifyPeerCert V r (gt_ServerName g) certs = None)"

definition same_checks :: "'p tls_Config \<Rightarrow> 'p tls_Config \<Rightarrow> bool" where
  "same_checks g h \<longleftrightarrow> gt_RootCAs g = gt_RootCAs h \<and> gt_InsecureSkipVerify g = gt_InsecureSkipVerify h \<and>
     gt_VerifyPeerCertificate g = gt_VerifyPeerCertificate h"

lemma same_checks_opts: "same_checks (fold apply_opt opts g) g"
proof (induction opts arbitrary: g)
  case (Cons p opts)
  have "same_checks (apply_opt p g) g" by (cases p) (simp_all add: same_checks_def)
  with Cons [of "apply_opt p g"] show ?case by (simp add: same_checks_def)
qed (simp add: same_checks_def)

lemma find_ca_find:
  "find_ca V pins cs = (case find (\<lambda>c. vf_Hash V c \<in> set pins \<and> vf_IsCA V c) cs of None \<Rightarrow> certNotFound | Some c \<Rightarrow> foundCA c)"
  by (induction cs) auto

lemma same_checks_fill: "same_checks (fill_config E c g) g"
  by (simp add: same_checks_def fill_config_def Let_def)

lemma GetTLSConfig_same:
  assumes "\<And>x. same_checks (te_ApplyECH E c x) x"
  shows "same_checks (GetTLSConfig E opts (Some c)) (base_config (te_CertPool E (Some c)) c)"
  using assms same_checks_fill [of E c "fold apply_opt opts (base_config (te_CertPool E (Some c)) c)"]
    same_checks_opts [of opts "base_config (te_CertPool E (Some c)) c"]
  by (simp add: GetTLSConfig_def Let_def same_checks_def)

lemma GetTLSConfig_checks:
  assumes "\<And>x. same_checks (te_ApplyECH E c x) x"
  shows "gt_RootCAs (GetTLSConfig E opts (Some c)) = te_CertPool E (Some c)"
    and "gt_InsecureSkipVerify (GetTLSConfig E opts (Some c)) \<longleftrightarrow> xt_VerifyPeerCertByName c \<noteq> [] \<or> xt_PinnedPeerCertSha256 c \<noteq> []"
    and "gt_VerifyPeerCertificate (GetTLSConfig E opts (Some c)) = Some \<lparr>pv_RootCAs = te_CertPool E (Some c),
      pv_VerifyPeerCertByName = (if xt_VerifyPeerCertByName c \<noteq> [] then Some (xt_VerifyPeerCertByName c) else None),
      pv_PinnedPeerCertSha256 = (if xt_PinnedPeerCertSha256 c \<noteq> [] then Some (xt_PinnedPeerCertSha256 c) else None)\<rparr>"
  using GetTLSConfig_same [OF assms, of opts] by (simp_all add: same_checks_def base_config_def empty_tls_def)

text \<open>C22: with every combination of options, pins and names a client accepts a peer exactly when its certificate is pinned, or is valid for
  a name it should have - the names of the configuration, else the server name, which must not be empty - under the roots, or
  where there are pins under the first pinned authority of the chain: skipping the library's verification never leaves none.\<close>

theorem peer_is_verified:
  assumes "\<And>x. same_checks (te_ApplyECH E c x) x"
  shows "client_accepts V (GetTLSConfig E opts (Some c)) certs \<longleftrightarrow> certs \<noteq> [] \<and>
    (vf_Hash V (hd certs) \<in> set (xt_PinnedPeerCertSha256 c) \<or>
     (case (if xt_PinnedPeerCertSha256 c = [] then Some (te_CertPool E (Some c))
            else map_option (vf_Single V) (find (\<lambda>ca. vf_Hash V ca \<in> set (xt_PinnedPeerCertSha256 c) \<and> vf_IsCA V ca) (tl certs))) of
        None \<Rightarrow> False
      | Some roots \<Rightarrow> list_ex (\<lambda>n. vf_Verify V roots (tl certs) n (hd certs))
          (if xt_VerifyPeerCertByName c \<noteq> [] then xt_VerifyPeerCertByName c
           else filter (\<lambda>n. n \<noteq> []) [gt_ServerName (GetTLSConfig E opts (Some c))])))"
proof -
  note g = GetTLSConfig_checks [OF assms, of opts]
  show ?thesis
  proof (cases "xt_PinnedPeerCertSha256 c = []")
    case True
    then show ?thesis by (auto simp: client_accepts_def g verifyPeerCert_def Let_def)
  next
    case False
    then show ?thesis
      by (auto simp: client_accepts_def g verifyPeerCert_def Let_def verifyChain_def find_ca_find split: option.split)
  qed
qed

text \<open>A chain of a leaf and an authority; a certificate is its own hash and valid for its own name.\<close>

definition demo_verify :: "(string, string) verify_lib" where
  "demo_verify = \<lparr>vf_Hash = id, vf_IsCA = (\<lambda>c. c = ''ca''), vf_Single = id, vf_Verify = (\<lambda>roots cs n c. roots \<in> set cs \<and> n = c)\<rparr>"

definition demo_env :: "string tls_env" where
  "demo_env = \<lparr>te_CertPool = (\<lambda>c. ''sys''), te_certs = demo_certs, te_suites = [(''A'', 1)], te_OpenLog = (\<lambda>f. False), te_ApplyECH = (\<lambda>c g. g)\<rparr>"

definition demo_tls :: "string list \<Rightarrow> XrayTLS" where
  "demo_tls pins = \<lparr>xt_Certificate = [], xt_ServerName = ''fromMitm'', xt_NextProtocol = [], xt_EnableSessionResumption = False,
     xt_VerifyPeerCertByName = [], xt_PinnedPeerCertSha256 = pins, xt_RejectUnknownSni = False, xt_CurvePreferences = [''X25519''],
     xt_MinVersion = ''1.2'', xt_MaxVersion = [], xt_CipherSuites = '' A :B'', xt_MasterKeyLog = ''none'', xt_EchConfigList = [],
     xt_EchServerKeys = []\<rparr>"

theorem peer_is_verified_witness:
  "client_accepts demo_verify (GetTLSConfig demo_env [WithDestination ''leaf''] (Some (demo_tls [''ca'']))) [''leaf'', ''ca''] \<and>
   \<not> client_accepts demo_verify (GetTLSConfig demo_env [WithDestination ''other''] (Some (demo_tls [''ca'']))) [''leaf'', ''ca''] \<and>
   \<not> client_accepts demo_verify (GetTLSConfig demo_env [WithDestination ''leaf''] (Some (demo_tls [''xx'']))) [''leaf'', ''ca'']"
proof -
  have e: "same_checks (te_ApplyECH demo_env (demo_tls pins) x) x" for pins x by (simp add: same_checks_def demo_env_def)
  have s: "gt_ServerName (GetTLSConfig demo_env [WithDestination d] (Some (demo_tls pins))) = d" for d pins
    by (simp add: GetTLSConfig_def Let_def fill_config_def parseServerName_def demo_tls_def IsFromMitm_def ToLower_def lower_char_def
        base_config_def empty_tls_def)
  show ?thesis unfolding peer_is_verified [OF e] s by (simp add: demo_tls_def demo_verify_def)
qed

text \<open>The server name of a configuration: the configured one unless it is the mark of the interception, else what the options
  give; and its protocols are never empty.\<close>

lemma server_name:
  "gt_ServerName (fill_config E c g) = (if parseServerName c \<noteq> [] then parseServerName c else gt_ServerName g)"
  "gt_NextProtos (fill_config E c g) \<noteq> []"
  by (simp_all add: fill_config_def Let_def)

text \<open>A handshake of a configuration without authorities is served from the list of its own certificates.\<close>

lemma source_of_config:
  assumes "getCustomCA (xt_Certificate c) = []"
  shows "gt_GetCertificate (fill_config E c g) = Some (Serving (last (cw_builds (add_build (te_certs E)
      \<lparr>cw_entries = xt_Certificate c, cw_builds = [], cw_tickers = []\<rparr>))) (xt_RejectUnknownSni c))"
  using assms by (simp add: fill_config_def Let_def add_build_def split_beta)

end
