(* ===== verification/Sing_Network.thy ===== *)
theory Sing_Network
  imports Sing_Options
begin

text \<open>
  The network manager of sing-box (runtime/patches/sing-box/route/network.go): its construction and life cycle, the interfaces and the state of the
  wireless network it keeps, the binding of sockets, and the updates that its monitors announce while others still run.
  Monitors, the platform and the rest of sing-box are library code.
\<close>

section \<open>Construction\<close>

text \<open>The system, and what the platform interface of an application takes over, if there is one.\<close>

record platform_if =
  pi_DefaultInterfaceMonitor :: bool
  pi_NetworkInterfaces :: bool
  pi_AutoDetectInterfaceControl :: bool
  pi_WIFIMonitor :: bool

record net_system =
  ns_Linux :: bool
  ns_Darwin :: bool
  ns_Windows :: bool
  ns_Android :: bool
  ns_platform :: "platform_if option"

record route_options =
  ro_AutoDetectInterface :: bool
  ro_OverrideAndroidVPN :: bool
  ro_DefaultInterface :: string
  ro_DefaultMark :: nat
  ro_NetworkStrategy :: bool
  ro_wifiRules :: bool

definition platform_does :: "(platform_if \<Rightarrow> bool) \<Rightarrow> net_system \<Rightarrow> bool" where
  "platform_does f S = (case ns_platform S of None \<Rightarrow> False | Some p \<Rightarrow> f p)"

text \<open>What fails while monitors are made or started: \<open>Invalid\<close> is \<open>os.ErrInvalid\<close>.\<close>

datatype net_fault = Invalid | Fault err

fun fault_text :: "net_fault \<Rightarrow> err" where
  "fault_text Invalid = ''invalid argument''"
| "fault_text (Fault e) = e"

record net_interface =
  ni_Index :: int
  ni_Name :: string
  ni_Up :: bool
  ni_Flags :: nat
  ni_Type :: nat
  ni_Expensive :: bool
  ni_Constrained :: bool

record wifi_state =
  wi_SSID :: string
  wi_BSSID :: string

datatype net_part = PackageManager | PowerListener | InterfaceMonitor | NetworkMonitor | WIFIMonitor

text \<open>Which monitors there are, and which of the parts run.\<close>

record NetworkManager =
  nm_autoDetectInterface :: bool
  nm_bindInterface :: string
  nm_routingMark :: nat
  nm_autoRedirectOutputMark :: nat
  nm_networkMonitor :: bool
  nm_interfaceMonitor :: bool
  nm_powerListener :: bool
  nm_packageManager :: bool
  nm_wifiMonitor :: bool
  nm_needWIFIState :: bool
  nm_running :: "net_part list"
  nm_networkInterfaces :: "net_interface list"
  nm_wifiState :: wifi_state
  nm_environmentUpdates :: nat
  nm_started :: bool

definition check_options :: "net_system \<Rightarrow> route_options \<Rightarrow> err option" where
  "check_options S p = (let desktop = ns_Linux S \<or> ns_Darwin S \<or> ns_Windows S in
     if ro_AutoDetectInterface p \<and> \<not> desktop then Some ''`auto_detect_interface` is only supported on Linux, Windows and macOS''
     else if ro_OverrideAndroidVPN p \<and> \<not> ns_Android S then Some ''`override_android_vpn` is only supported on Android''
     else if ro_DefaultInterface p \<noteq> [] \<and> \<not> desktop then Some ''`default_interface` is only supported on Linux, Windows and macOS''
     else if ro_DefaultMark p \<noteq> 0 \<and> \<not> ns_Linux S then Some ''`default_mark` is only supported on linux''
     else if ro_NetworkStrategy p \<and> ro_DefaultInterface p \<noteq> [] then Some ''`default_network_strategy` is conflict with `default_interface`''
     else if ro_NetworkStrategy p \<and> \<not> ro_AutoDetectInterface p
     then Some ''`auto_detect_interface` is required by `default_network_strategy`''
     else None)"

text \<open>\<open>monitor\<close> and \<open>interfaces\<close> are the faults of making the two monitors.\<close>

definition NewNetworkManager :: "net_system \<Rightarrow> route_options \<Rightarrow> net_fault option \<Rightarrow> net_fault option \<Rightarrow> NetworkManager res" where
  "NewNetworkManager S p monitor interfaces = (case check_options S p of
     Some e \<Rightarrow> Inl e
   | None \<Rightarrow>
       (let nm = \<lparr>nm_autoDetectInterface = ro_AutoDetectInterface p, nm_bindInterface = ro_DefaultInterface p, nm_routingMark = ro_DefaultMark p,
              nm_autoRedirectOutputMark = 0, nm_networkMonitor = False, nm_interfaceMonitor = False, nm_powerListener = False,
              nm_packageManager = False, nm_wifiMonitor = False, nm_needWIFIState = ro_wifiRules p, nm_running = [],
              nm_networkInterfaces = [], nm_wifiState = \<lparr>wi_SSID = [], wi_BSSID = []\<rparr>, nm_environmentUpdates = 0, nm_started = False\<rparr>
        in if platform_does pi_DefaultInterfaceMonitor S then Inr (nm\<lparr>nm_interfaceMonitor := True\<rparr>)
           else if monitor \<noteq> None \<and> \<not> ro_AutoDetectInterface p \<or> monitor = Some Invalid then Inr nm
           else (case monitor of
               Some e \<Rightarrow> Inl (''create network monitor: '' @ fault_text e)
             | None \<Rightarrow> (case interfaces of
                 Some e \<Rightarrow> Inl ''auto_detect_interface unsupported on current platform''
               | None \<Rightarrow> Inr (nm\<lparr>nm_networkMonitor := True, nm_interfaceMonitor := True\<rparr>)))))"

section \<open>Start and close\<close>

datatype start_stage = StartStateInitialize | StartStateStart | StartStatePostStart | StartStateStarted

text \<open>The faults that the parts meet when they are made or started.\<close>

record net_faults =
  nf_network :: "err option"
  nf_interface :: "err option"
  nf_newPower :: "err option"
  nf_power :: "err option"
  nf_newPackages :: "err option"
  nf_packages :: "err option"
  nf_newWifi :: "err option"

definition start_part :: "bool \<Rightarrow> net_part \<Rightarrow> err option \<Rightarrow> NetworkManager \<Rightarrow> err option \<times> NetworkManager" where
  "start_part there part fails nm = (if \<not> there then (None, nm)
     else (case fails of Some e \<Rightarrow> (Some e, nm) | None \<Rightarrow> (None, nm\<lparr>nm_running := nm_running nm @ [part]\<rparr>)))"

definition power_fault :: "net_faults \<Rightarrow> err option" where
  "power_fault F = map_option (\<lambda>e. ''start power listener: '' @ e) (nf_power F)"

text \<open>A package manager that cannot be started is only logged.\<close>

definition start_packages :: "net_faults \<Rightarrow> NetworkManager \<Rightarrow> err option \<times> NetworkManager" where
  "start_packages F nm = (case nf_newPackages F of
     Some e \<Rightarrow> (Some (''create package manager: '' @ e), nm)
   | None \<Rightarrow> (None, if nf_packages F \<noteq> None then nm
       else nm\<lparr>nm_packageManager := True, nm_running := nm_running nm @ [PackageManager]\<rparr>))"

definition then_part :: "err option \<times> NetworkManager \<Rightarrow> (NetworkManager \<Rightarrow> err option \<times> NetworkManager) \<Rightarrow> err option \<times> NetworkManager" where
  "then_part r f = (case r of (Some e, nm) \<Rightarrow> (Some e, nm) | (None, nm) \<Rightarrow> f nm)"

definition network_Start :: "net_system \<Rightarrow> net_faults \<Rightarrow> start_stage \<Rightarrow> NetworkManager \<Rightarrow> err option \<times> NetworkManager" where
  "network_Start S F stage nm = (case stage of
     StartStateInitialize \<Rightarrow> then_part (start_part (nm_networkMonitor nm) NetworkMonitor (nf_network F) nm)
       (\<lambda>nm. start_part (nm_interfaceMonitor nm) InterfaceMonitor (nf_interface F) nm)
   | StartStateStart \<Rightarrow>
       (let nm = (if ns_Windows S \<and> nf_newPower F = None then nm\<lparr>nm_powerListener := True\<rparr> else nm)
        in then_part (start_part (nm_powerListener nm) PowerListener (power_fault F) nm)
             (\<lambda>nm. if ns_Android S \<and> ns_platform S = None then start_packages F nm else (None, nm)))
   | StartStatePostStart \<Rightarrow>
       (let nm = (if nm_needWIFIState nm \<and> \<not> platform_does pi_WIFIMonitor S \<and> nf_newWifi F = None
              then nm\<lparr>nm_wifiMonitor := True, nm_running := nm_running nm @ [WIFIMonitor]\<rparr> else nm)
        in (None, nm\<lparr>nm_started := True\<rparr>))
   | StartStateStarted \<Rightarrow> (None, nm))"

text \<open>The monitor of the wireless network is closed also when it could not be started.  \<open>fails\<close> are the faults of the closing of the parts.\<close>

definition Initialize :: "bool list \<Rightarrow> NetworkManager \<Rightarrow> NetworkManager" where
  "Initialize wifiRuleSets nm = (if True \<in> set wifiRuleSets then nm\<lparr>nm_needWIFIState := True\<rparr> else nm)"

fun has_part :: "NetworkManager \<Rightarrow> net_part \<Rightarrow> bool" where
  "has_part nm PackageManager = nm_packageManager nm"
| "has_part nm PowerListener = nm_powerListener nm"
| "has_part nm InterfaceMonitor = nm_interfaceMonitor nm"
| "has_part nm NetworkMonitor = nm_networkMonitor nm"
| "has_part nm WIFIMonitor = nm_wifiMonitor nm"

fun close_label :: "net_part \<Rightarrow> err" where
  "close_label PackageManager = ''close package manager''"
| "close_label PowerListener = ''close power listener''"
| "close_label InterfaceMonitor = ''close interface monitor''"
| "close_label NetworkMonitor = ''close network monitor''"
| "close_label WIFIMonitor = ''close WIFI monitor''"

fun close_parts :: "(net_part \<Rightarrow> err option) \<Rightarrow> net_part list \<Rightarrow> NetworkManager \<Rightarrow> err list \<times> NetworkManager" where
  "close_parts fails [] nm = ([], nm)"
| "close_parts fails (p # ps) nm =
     (if \<not> has_part nm p then close_parts fails ps nm
      else (case close_parts fails ps (nm\<lparr>nm_running := filter (\<lambda>r. r \<noteq> p) (nm_running nm)\<rparr>) of (es, nm) \<Rightarrow>
        ((case fails p of Some e \<Rightarrow> [close_label p @ '': '' @ e] | None \<Rightarrow> []) @ es, nm)))"

definition network_Close :: "(net_part \<Rightarrow> err option) \<Rightarrow> NetworkManager \<Rightarrow> err list \<times> NetworkManager" where
  "network_Close fails nm = close_parts fails [PackageManager, PowerListener, InterfaceMonitor, NetworkMonitor, WIFIMonitor] nm"

text \<open>Only parts that there are run.\<close>

definition running_ok :: "NetworkManager \<Rightarrow> bool" where
  "running_ok nm \<longleftrightarrow> (\<forall>r \<in> set (nm_running nm). has_part nm r)"

lemma running_ok_new: "NewNetworkManager S p m i = Inr nm \<Longrightarrow> running_ok nm"
  by (auto simp: NewNetworkManager_def running_ok_def Let_def split: option.splits if_splits)

lemma has_part_update [simp]:
  "has_part (nm\<lparr>nm_running := l\<rparr>) r = has_part nm r" "has_part (nm\<lparr>nm_started := b\<rparr>) r = has_part nm r"
  "has_part nm r \<Longrightarrow> has_part (nm\<lparr>nm_powerListener := True\<rparr>) r" "has_part nm r \<Longrightarrow> has_part (nm\<lparr>nm_packageManager := True\<rparr>) r"
  "has_part nm r \<Longrightarrow> has_part (nm\<lparr>nm_wifiMonitor := True\<rparr>) r"
  by (cases r; simp)+

lemma running_ok_part: "running_ok nm \<Longrightarrow> (there \<Longrightarrow> has_part nm p) \<Longrightarrow> running_ok (snd (start_part there p f nm))"
  by (auto simp: start_part_def running_ok_def split: option.split)

lemma running_ok_then: "running_ok (snd r) \<Longrightarrow> (\<And>nm. running_ok nm \<Longrightarrow> running_ok (snd (f nm))) \<Longrightarrow> running_ok (snd (then_part r f))"
  by (auto simp: then_part_def split: prod.split option.split)

lemma running_ok_packages: "running_ok nm \<Longrightarrow> running_ok (snd (start_packages F nm))"
  by (auto simp: start_packages_def running_ok_def split: option.split)

lemma running_ok_power: "running_ok nm \<Longrightarrow> running_ok (nm\<lparr>nm_powerListener := True\<rparr>)"
  by (simp add: running_ok_def)

lemma running_ok_start:
  assumes "running_ok nm"
  shows "running_ok (snd (network_Start S F stage nm))"
proof (cases stage)
  case StartStateInitialize
  then show ?thesis using assms unfolding network_Start_def by (auto intro!: running_ok_then running_ok_part)
next
  case StartStateStart
  then show ?thesis using assms unfolding network_Start_def Let_def
    by (auto intro!: running_ok_then running_ok_part running_ok_packages running_ok_power)
next
  case StartStatePostStart
  with assms show ?thesis unfolding network_Start_def Let_def by (auto simp: running_ok_def)
qed (use assms in \<open>simp add: network_Start_def\<close>)

lemma close_parts_left:
  "nm_running (snd (close_parts fails ps nm)) = filter (\<lambda>r. \<not> (r \<in> set ps \<and> has_part nm r)) (nm_running nm)"
proof (induction ps arbitrary: nm)
  case (Cons p ps)
  then show ?case by (auto simp: split_beta intro!: filter_cong)
qed simp

text \<open>However far the start came, and whatever the closing of one part reports, the close of the manager leaves none of its parts running.\<close>

theorem network_close_stops_all:
  assumes "NewNetworkManager S p monitor interfaces = Inr nm"
    and "nm' = fold (\<lambda>(F, stage) nm. snd (network_Start S F stage nm)) starts nm"
  shows "nm_running (snd (network_Close fails nm')) = []"
proof -
  have "running_ok (fold (\<lambda>(F, stage) nm. snd (network_Start S F stage nm)) starts nm)" if "running_ok nm" for nm
    using that by (induction starts arbitrary: nm) (auto simp: running_ok_start)
  with running_ok_new [OF assms(1)] assms(2) have "running_ok nm'" by simp
  moreover have "p \<in> set [PackageManager, PowerListener, InterfaceMonitor, NetworkMonitor, WIFIMonitor]" for p by (cases p) simp_all
  ultimately show ?thesis unfolding network_Close_def close_parts_left running_ok_def by (simp add: filter_empty_conv)
qed

theorem network_close_stops_all_witness:
  "(case NewNetworkManager \<lparr>ns_Linux = True, ns_Darwin = False, ns_Windows = False, ns_Android = True, ns_platform = None\<rparr>
      \<lparr>ro_AutoDetectInterface = True, ro_OverrideAndroidVPN = False, ro_DefaultInterface = [], ro_DefaultMark = 0, ro_NetworkStrategy = False,
        ro_wifiRules = False\<rparr> None None of
     Inl e \<Rightarrow> False
   | Inr nm \<Rightarrow> (case snd (network_Start \<lparr>ns_Linux = True, ns_Darwin = False, ns_Windows = False, ns_Android = True, ns_platform = None\<rparr>
        \<lparr>nf_network = None, nf_interface = Some ''no'', nf_newPower = None, nf_power = None, nf_newPackages = None, nf_packages = None,
         nf_newWifi = None\<rparr> StartStateInitialize nm) of
       nm' \<Rightarrow> nm_running nm' = [NetworkMonitor] \<and> nm_running (snd (network_Close (\<lambda>p. Some ''late'') nm')) = []))"
proof -
  let ?S = "\<lparr>ns_Linux = True, ns_Darwin = False, ns_Windows = False, ns_Android = True, ns_platform = None\<rparr>"
  let ?p = "\<lparr>ro_AutoDetectInterface = True, ro_OverrideAndroidVPN = False, ro_DefaultInterface = [], ro_DefaultMark = 0, ro_NetworkStrategy = False,
        ro_wifiRules = False\<rparr>"
  let ?F = "\<lparr>nf_network = None, nf_interface = Some ''no'', nf_newPower = None, nf_power = None, nf_newPackages = None, nf_packages = None,
         nf_newWifi = None\<rparr>"
  obtain nm where nm: "NewNetworkManager ?S ?p None None = Inr nm" by (simp add: NewNetworkManager_def check_options_def platform_does_def)
  from network_close_stops_all [OF nm, of _ "[(?F, StartStateInitialize)]", OF refl]
  have c: "nm_running (snd (network_Close (\<lambda>p. Some ''late'') (snd (network_Start ?S ?F StartStateInitialize nm)))) = []" by simp
  have "nm_running (snd (network_Start ?S ?F StartStateInitialize nm)) = [NetworkMonitor]"
    using nm by (auto simp: NewNetworkManager_def check_options_def platform_does_def network_Start_def then_part_def start_part_def)
  with nm c show ?thesis by simp
qed

section \<open>Interfaces\<close>

definition update_environment :: "NetworkManager \<Rightarrow> NetworkManager" where
  "update_environment nm = nm\<lparr>nm_environmentUpdates := nm_environmentUpdates nm + 1\<rparr>"

text \<open>
  \<open>platform\<close> is what the platform lists, \<open>finder\<close> the fault of the finder's own search and \<open>ByIndex\<close> what it then knows.  The environment is
  brought up to date whatever fails.
\<close>

definition UpdateInterfaces ::
  "net_system \<Rightarrow> net_interface list res \<Rightarrow> err option \<Rightarrow> (int \<Rightarrow> net_interface option) \<Rightarrow> NetworkManager \<Rightarrow> err option \<times> NetworkManager" where
  "UpdateInterfaces S platform finder ByIndex nm =
     (if \<not> platform_does pi_NetworkInterfaces S then (finder, update_environment nm)
      else (case platform of
          Inl e \<Rightarrow> (Some e, update_environment nm)
        | Inr interfaces \<Rightarrow>
            if ns_Darwin S \<and> finder \<noteq> None then (finder, update_environment nm)
            else (let interfaces = (if ns_Darwin S
                    then map (\<lambda>i. case ByIndex (ni_Index i) of None \<Rightarrow> i
                      | Some f \<Rightarrow> i\<lparr>ni_Index := ni_Index f, ni_Name := ni_Name f, ni_Up := ni_Up f, ni_Flags := ni_Flags f\<rparr>) interfaces
                    else interfaces)
              in (None, update_environment (nm\<lparr>nm_networkInterfaces := filter ni_Up interfaces\<rparr>)))))"

text \<open>\<open>found\<close> is what the interface monitor reports; without a monitor its use is a nil pointer.\<close>

definition nil_monitor :: err where
  "nil_monitor = ''runtime error: invalid memory address or nil pointer dereference''"

definition DefaultNetworkInterface :: "net_interface option \<Rightarrow> NetworkManager \<Rightarrow> net_interface option res" where
  "DefaultNetworkInterface found nm = (if \<not> nm_interfaceMonitor nm then Inl nil_monitor
     else Inr (case found of None \<Rightarrow> None
       | Some i \<Rightarrow> (case find (\<lambda>j. ni_Index j = ni_Index i) (nm_networkInterfaces nm) of
           Some j \<Rightarrow> Some j | None \<Rightarrow> Some (i\<lparr>ni_Type := 0, ni_Expensive := False, ni_Constrained := False\<rparr>))))"

text \<open>How a socket is bound: by the platform, not at all, or to the interface that is nearest to the address, else to the default one.\<close>

datatype bind_func = PlatformControl | NoControl | BindTo "(string \<times> int) res"

definition ErrNoRoute :: err where
  "ErrNoRoute = ''no route to internet''"

definition AutoDetectInterfaceFunc :: "net_system \<Rightarrow> net_interface option \<Rightarrow> net_interface option \<Rightarrow> NetworkManager \<Rightarrow> bind_func" where
  "AutoDetectInterfaceFunc S byAddr dflt nm =
     (if platform_does pi_AutoDetectInterfaceControl S then PlatformControl
      else if \<not> nm_interfaceMonitor nm then NoControl
      else BindTo (case byAddr of
          Some i \<Rightarrow> Inr (ni_Name i, ni_Index i)
        | None \<Rightarrow> (case dflt of Some i \<Rightarrow> Inr (ni_Name i, ni_Index i) | None \<Rightarrow> Inl ErrNoRoute)))"

definition ProtectFunc :: "net_system \<Rightarrow> bind_func" where
  "ProtectFunc S = (if platform_does pi_AutoDetectInterfaceControl S then PlatformControl else NoControl)"

definition RegisterAutoRedirectOutputMark :: "nat \<Rightarrow> NetworkManager \<Rightarrow> err option \<times> NetworkManager" where
  "RegisterAutoRedirectOutputMark mark nm =
     (if nm_autoRedirectOutputMark nm > 0 then (Some ''only one auto-redirect can be configured'', nm)
      else (None, nm\<lparr>nm_autoRedirectOutputMark := mark\<rparr>))"

text \<open>The mark that a new socket gets, if any.\<close>

definition AutoRedirectOutputMarkFunc :: "NetworkManager \<Rightarrow> nat option" where
  "AutoRedirectOutputMarkFunc nm = (if nm_autoRedirectOutputMark nm = 0 then None else Some (nm_autoRedirectOutputMark nm))"

text \<open>\<open>normal\<close> is the normal form of an identifier; a state that did not change is no event.\<close>

definition onWIFIStateChanged :: "(string \<Rightarrow> string) \<Rightarrow> wifi_state \<Rightarrow> NetworkManager \<Rightarrow> NetworkManager" where
  "onWIFIStateChanged normal st nm = (let st = st\<lparr>wi_BSSID := normal (wi_BSSID st)\<rparr>
     in if st \<noteq> nm_wifiState nm then update_environment (nm\<lparr>nm_wifiState := st\<rparr>) else nm)"

definition UpdateWIFIState :: "net_system \<Rightarrow> (string \<Rightarrow> string) \<Rightarrow> wifi_state \<Rightarrow> NetworkManager \<Rightarrow> NetworkManager" where
  "UpdateWIFIState S normal st nm =
     (if nm_wifiMonitor nm \<or> platform_does pi_WIFIMonitor S then onWIFIStateChanged normal st nm else nm)"

text \<open>The interfaces that are kept are those that are up, and the default one is described from them; the first mark stays.\<close>

lemma interfaces_up:
  assumes "UpdateInterfaces S platform finder ByIndex nm = (e, nm')" and "\<forall>i \<in> set (nm_networkInterfaces nm). ni_Up i"
  shows "(\<forall>i \<in> set (nm_networkInterfaces nm'). ni_Up i) \<and> nm_environmentUpdates nm' = nm_environmentUpdates nm + 1"
  using assms by (auto simp: UpdateInterfaces_def update_environment_def Let_def split: if_splits sum.splits)

lemma wifi_event_once: "onWIFIStateChanged normal st (onWIFIStateChanged normal st nm) = onWIFIStateChanged normal st nm"
  by (simp add: onWIFIStateChanged_def update_environment_def Let_def)

lemma first_mark_stays:
  "RegisterAutoRedirectOutputMark m nm = (None, nm') \<Longrightarrow> m > 0 \<Longrightarrow> RegisterAutoRedirectOutputMark m' nm' = (e, nm'') \<Longrightarrow>
   AutoRedirectOutputMarkFunc nm'' = Some m"
  by (auto simp: RegisterAutoRedirectOutputMark_def AutoRedirectOutputMarkFunc_def split: if_splits)

text \<open>A manager whose monitors could not be made - which is no error unless the options need them - has no default interface to
  ask for: the question ends the process, where the binding of sockets asks first.\<close>

lemma default_interface_panics:
  assumes "NewNetworkManager S p (Some e) i = Inr nm"
  shows "DefaultNetworkInterface found nm = Inl nil_monitor \<or> platform_does pi_DefaultInterfaceMonitor S"
  using assms by (auto simp: NewNetworkManager_def DefaultNetworkInterface_def Let_def split: option.splits if_splits)

section \<open>Updates\<close>

text \<open>
  Where a change of the default interface is: its announcement has replaced the cancel function and is still to call the one it
  found there; it waits for the mutex of the updates; it holds it, before and after each of its actions; it is done.
\<close>

datatype update_at = Swapped "nat option" | Queued | Chosen | Wifi_done | Env_next | Env_done | Reset_next | Finished

datatype update_event = Environment nat | Reset nat

text \<open>\<open>nu_closing\<close> is the update that a close still has to cancel.\<close>

record net_updates =
  nu_next :: nat
  nu_current :: "nat option"
  nu_cancelled :: "nat list"
  nu_at :: "(nat, update_at) gomap"
  nu_lock :: "nat option"
  nu_paused :: bool
  nu_started :: bool
  nu_closed :: bool
  nu_closing :: "nat option"
  nu_log :: "update_event list"

definition nu_start :: "bool \<Rightarrow> net_updates" where
  "nu_start started = \<lparr>nu_next = 0, nu_current = None, nu_cancelled = [], nu_at = [], nu_lock = None, nu_paused = False, nu_started = started,
     nu_closed = False, nu_closing = None, nu_log = []\<rparr>"

definition at_update :: "nat \<Rightarrow> update_at \<Rightarrow> net_updates \<Rightarrow> net_updates" where
  "at_update n a s = s\<lparr>nu_at := mput n a (nu_at s)\<rparr>"

text \<open>The end of an update: the mutex is released and its own context cancelled.\<close>

definition finish_update :: "nat \<Rightarrow> net_updates \<Rightarrow> net_updates" where
  "finish_update n s = (at_update n Finished s)\<lparr>nu_lock := None, nu_cancelled := n # nu_cancelled s\<rparr>"

definition cancel :: "nat option \<Rightarrow> net_updates \<Rightarrow> net_updates" where
  "cancel c s = (case c of None \<Rightarrow> s | Some m \<Rightarrow> s\<lparr>nu_cancelled := m # nu_cancelled s\<rparr>)"

definition notifyInterfaceUpdate :: "net_updates \<Rightarrow> net_updates" where
  "notifyInterfaceUpdate s = (at_update (nu_next s) (Swapped (nu_current s)) s)\<lparr>nu_paused := False, nu_current := Some (nu_next s),
     nu_next := nu_next s + 1\<rparr>"

text \<open>One step of an update; \<open>known\<close> tells whether the platform knows its interface.\<close>

definition updateInterface :: "(nat \<Rightarrow> bool) \<Rightarrow> nat \<Rightarrow> update_at \<Rightarrow> net_updates \<Rightarrow> net_updates" where
  "updateInterface known n a s = (case a of
     Swapped c \<Rightarrow> at_update n Queued (cancel c s)
   | Queued \<Rightarrow> if n \<in> set (nu_cancelled s) then finish_update n s else (at_update n Chosen s)\<lparr>nu_lock := Some n\<rparr>
   | Chosen \<Rightarrow> if known n then at_update n Wifi_done s else finish_update n s
   | Wifi_done \<Rightarrow> if n \<in> set (nu_cancelled s) then finish_update n s else at_update n Env_next s
   | Env_next \<Rightarrow> (at_update n Env_done s)\<lparr>nu_log := nu_log s @ [Environment n]\<rparr>
   | Env_done \<Rightarrow> if n \<in> set (nu_cancelled s) \<or> \<not> nu_started s then finish_update n s else at_update n Reset_next s
   | Reset_next \<Rightarrow> (finish_update n s)\<lparr>nu_log := nu_log s @ [Reset n]\<rparr>
   | Finished \<Rightarrow> s)"

inductive nu_reach :: "(nat \<Rightarrow> bool) \<Rightarrow> bool \<Rightarrow> net_updates \<Rightarrow> bool" for known started where
  nu_start: "nu_reach known started (nu_start started)"
| nu_lost: "nu_reach known started s \<Longrightarrow> \<not> nu_closed s \<Longrightarrow> nu_reach known started (s\<lparr>nu_paused := True\<rparr>)"
| nu_notify: "nu_reach known started s \<Longrightarrow> \<not> nu_closed s \<Longrightarrow> nu_reach known started (notifyInterfaceUpdate s)"
| nu_update: "nu_reach known started s \<Longrightarrow> map_of (nu_at s) n = Some a \<Longrightarrow> a = Queued \<longrightarrow> nu_lock s = None \<Longrightarrow>
    nu_reach known started (updateInterface known n a s)"
| nu_started: "nu_reach known started s \<Longrightarrow> nu_reach known started (s\<lparr>nu_started := True\<rparr>)"
| nu_close: "nu_reach known started s \<Longrightarrow> \<not> nu_closed s \<Longrightarrow>
    nu_reach known started (s\<lparr>nu_closed := True, nu_closing := nu_current s, nu_current := None\<rparr>)"
| nu_cancel: "nu_reach known started s \<Longrightarrow> nu_reach known started ((cancel (nu_closing s) s)\<lparr>nu_closing := None\<rparr>)"

definition ids_ok :: "net_updates \<Rightarrow> bool" where
  "ids_ok s \<longleftrightarrow> (\<forall>m \<in> set (nu_cancelled s). m < nu_next s) \<and> (\<forall>n a. map_of (nu_at s) n = Some a \<longrightarrow> n < nu_next s) \<and>
     (\<forall>j m. map_of (nu_at s) j = Some (Swapped (Some m)) \<longrightarrow> m < nu_next s) \<and> (\<forall>m. nu_current s = Some m \<longrightarrow> m < nu_next s) \<and>
     (\<forall>m. nu_closing s = Some m \<longrightarrow> m < nu_next s)"

definition current_ok :: "(nat \<Rightarrow> bool) \<Rightarrow> net_updates \<Rightarrow> bool" where
  "current_ok known s \<longleftrightarrow> nu_started s \<and> (nu_closed s \<longrightarrow> nu_current s = None) \<and> (\<not> nu_closed s \<longrightarrow> nu_closing s = None) \<and>
     (\<forall>n. nu_current s = Some n \<longrightarrow>
       (\<forall>j. map_of (nu_at s) j \<noteq> Some (Swapped (Some n))) \<and> map_of (nu_at s) n \<noteq> None \<and>
       (if map_of (nu_at s) n = Some Finished then known n \<longrightarrow> Reset n \<in> set (nu_log s) else n \<notin> set (nu_cancelled s)))"

lemmas update_defs = at_update_def finish_update_def cancel_def notifyInterfaceUpdate_def

lemma ids_ok_update: "ids_ok s \<Longrightarrow> map_of (nu_at s) n = Some a \<Longrightarrow> ids_ok (updateInterface known n a s)"
  by (cases a) (auto simp: ids_ok_def updateInterface_def update_defs split: option.splits if_splits)

lemma ids_ok_reach: "nu_reach known started s \<Longrightarrow> ids_ok s"
proof (induction rule: nu_reach.induct)
  case nu_start
  show ?case by (simp add: ids_ok_def nu_start_def)
next
  case (nu_notify s)
  then show ?case by (auto simp: ids_ok_def update_defs less_Suc_eq split: if_splits)
next
  case (nu_cancel s)
  then show ?case by (auto simp: ids_ok_def update_defs split: option.split)
qed (auto simp: ids_ok_update, auto simp: ids_ok_def)

lemma current_ok_update:
  assumes "current_ok known s" and "map_of (nu_at s) n = Some a"
  shows "current_ok known (updateInterface known n a s)"
proof (cases "nu_current s")
  case None
  with assms show ?thesis
    by (cases a) (auto simp: current_ok_def updateInterface_def update_defs split: option.splits)
next
  case (Some m)
  show ?thesis
  proof (cases "n = m")
    case True
    with assms Some show ?thesis
      by (cases a) (auto simp: current_ok_def updateInterface_def update_defs split: option.splits)
  next
    case False
    with assms Some show ?thesis
      by (cases a) (auto simp: current_ok_def updateInterface_def update_defs split: option.splits)
  qed
qed

lemma current_ok_reach: "nu_reach known True s \<Longrightarrow> current_ok known s"
proof (induction rule: nu_reach.induct)
  case nu_start
  show ?case by (simp add: current_ok_def nu_start_def)
next
  case (nu_notify s)
  from ids_ok_reach [OF nu_notify.hyps(1)] nu_notify.IH nu_notify.hyps(2) show ?case
    by (fastforce simp: current_ok_def ids_ok_def update_defs)
next
  case (nu_cancel s)
  then show ?case by (auto simp: current_ok_def update_defs split: option.split)
qed (auto simp: current_ok_update, auto simp: current_ok_def)


text \<open>Two announcements: the second cancels the first one while it waits, and runs itself.\<close>

definition run_updates :: "(nat \<Rightarrow> bool) \<Rightarrow> nat list \<Rightarrow> net_updates \<Rightarrow> net_updates" where
  "run_updates known = fold (\<lambda>n s. case map_of (nu_at s) n of None \<Rightarrow> s | Some a \<Rightarrow>
     if a = Queued \<and> nu_lock s \<noteq> None then s else updateInterface known n a s)"

lemma run_updates_reach: "nu_reach known started s \<Longrightarrow> nu_reach known started (run_updates known ns s)"
proof (induction ns arbitrary: s)
  case (Cons n ns)
  then show ?case by (auto simp: run_updates_def intro: nu_reach.nu_update split: option.split)
qed (simp add: run_updates_def)


subsection \<open>One at a time, and after the close\<close>

definition inside :: "update_at \<Rightarrow> bool" where
  "inside a \<longleftrightarrow> a \<in> {Chosen, Wifi_done, Env_next, Env_done, Reset_next}"

definition lock_ok :: "net_updates \<Rightarrow> bool" where
  "lock_ok s \<longleftrightarrow> (\<forall>n a. map_of (nu_at s) n = Some a \<longrightarrow> inside a \<longrightarrow> nu_lock s = Some n)"

lemma lock_ok_at: "lock_ok s \<Longrightarrow> inside a \<longrightarrow> nu_lock s = Some n \<Longrightarrow> lock_ok (at_update n a s)"
  by (simp add: lock_ok_def at_update_def)

lemma lock_ok_finish: "lock_ok s \<Longrightarrow> nu_lock s = None \<or> nu_lock s = Some n \<Longrightarrow> lock_ok (finish_update n s)"
  unfolding lock_ok_def finish_update_def at_update_def by (auto simp: inside_def) blast+

lemma lock_ok_frame [simp]: "lock_ok (s\<lparr>nu_log := l\<rparr>) = lock_ok s" "lock_ok (s\<lparr>nu_cancelled := c\<rparr>) = lock_ok s"
  by (simp_all add: lock_ok_def)

lemma lock_ok_enter: "lock_ok s \<Longrightarrow> nu_lock s = None \<Longrightarrow> lock_ok ((at_update n Chosen s)\<lparr>nu_lock := Some n\<rparr>)"
  by (auto simp: lock_ok_def at_update_def)

lemma lock_ok_update:
  assumes "lock_ok s" and "map_of (nu_at s) n = Some a" and "a = Queued \<longrightarrow> nu_lock s = None"
  shows "lock_ok (updateInterface known n a s)"
proof (cases "inside a")
  case True
  with assms(1,2) have "nu_lock s = Some n" by (simp add: lock_ok_def)
  with True assms(1) show ?thesis
    by (cases a) (simp_all add: updateInterface_def inside_def lock_ok_at lock_ok_finish)
next
  case False
  have "lock_ok (cancel c s)" for c using assms(1) by (simp add: cancel_def split: option.split)
  with False assms show ?thesis
    by (cases a) (simp_all add: updateInterface_def inside_def lock_ok_at lock_ok_finish lock_ok_enter)
qed

lemma lock_ok_reach: "nu_reach known started s \<Longrightarrow> lock_ok s"
proof (induction rule: nu_reach.induct)
  case (nu_notify s)
  then show ?case by (auto simp: lock_ok_def inside_def update_defs split: if_splits)
next
  case (nu_cancel s)
  then show ?case by (auto simp: lock_ok_def update_defs split: option.split)
qed (auto simp: lock_ok_update, auto simp: lock_ok_def nu_start_def)

lemma one_update_at_a_time:
  assumes "nu_reach known started s" and "map_of (nu_at s) n = Some a" and "inside a" and "map_of (nu_at s) m = Some b" and "inside b"
  shows "n = m"
proof -
  from lock_ok_reach [OF assms(1)] have l: "map_of (nu_at s) k = Some c \<Longrightarrow> inside c \<Longrightarrow> nu_lock s = Some k" for k c by (simp add: lock_ok_def)
  from l [OF assms(2,3)] l [OF assms(4,5)] show ?thesis by simp
qed

text \<open>An update that is not done is the current one, or it is cancelled, or somebody is about to cancel it.\<close>

definition cancel_due :: "net_updates \<Rightarrow> nat \<Rightarrow> bool" where
  "cancel_due s n \<longleftrightarrow> nu_current s = Some n \<or> n \<in> set (nu_cancelled s) \<or> nu_closing s = Some n \<or>
     (\<exists>j. map_of (nu_at s) j = Some (Swapped (Some n)))"

definition pending_ok :: "net_updates \<Rightarrow> bool" where
  "pending_ok s \<longleftrightarrow> (\<forall>n a. map_of (nu_at s) n = Some a \<longrightarrow> a \<noteq> Finished \<longrightarrow> cancel_due s n)"

lemma cancel_due_at:
  assumes "map_of (nu_at s) n = Some a" and "a \<noteq> Swapped (Some m)" and "cancel_due s m"
  shows "cancel_due (at_update n b s) m"
proof (cases "\<exists>j. map_of (nu_at s) j = Some (Swapped (Some m))")
  case True
  then obtain j where j: "map_of (nu_at s) j = Some (Swapped (Some m))" by blast
  then have "j \<noteq> n" using assms(1,2) by auto
  with j show ?thesis unfolding cancel_due_def at_update_def by (intro disjI2 exI [of _ j]) simp
next
  case False
  with assms(3) show ?thesis by (auto simp: cancel_due_def at_update_def)
qed

lemma cancel_due_frame [simp]:
  "cancel_due (x\<lparr>nu_lock := l\<rparr>) m = cancel_due x m" "cancel_due (x\<lparr>nu_log := g\<rparr>) m = cancel_due x m"
  by (simp_all add: cancel_due_def)

lemma cancel_due_more: "cancel_due x m \<Longrightarrow> cancel_due (x\<lparr>nu_cancelled := k # nu_cancelled x\<rparr>) m"
  by (auto simp: cancel_due_def)

lemma cancel_due_finish:
  assumes "map_of (nu_at s) n = Some a" and "a \<noteq> Swapped (Some m)" and "cancel_due s m"
  shows "cancel_due (finish_update n s) m"
  using cancel_due_more [OF cancel_due_at [OF assms, of Finished], of n] by (simp add: finish_update_def at_update_def cancel_due_def)

lemma cancel_due_update:
  assumes n: "map_of (nu_at s) n = Some a" and d: "cancel_due s m"
  shows "cancel_due (updateInterface known n a s) m"
proof (cases "\<exists>c. a = Swapped c")
  case True
  then obtain c where c: "a = Swapped c" by blast
  have at: "nu_at (cancel c s) = nu_at s" by (simp add: cancel_def split: option.split)
  have "cancel_due (cancel c s) m" using d by (cases c) (simp_all add: cancel_def cancel_due_more)
  then have "cancel_due (at_update n Queued (cancel c s)) m" if "c \<noteq> Some m"
    using cancel_due_at [of "cancel c s" n a m] n that by (simp add: at c)
  moreover have "cancel_due (at_update n Queued (cancel (Some m) s)) m" by (simp add: cancel_due_def update_defs)
  ultimately show ?thesis by (cases "c = Some m") (simp_all add: c updateInterface_def)
next
  case False
  then have "a \<noteq> Swapped (Some m)" by blast
  note o1 = cancel_due_at [OF n this d] cancel_due_finish [OF n this d]
  with False d show ?thesis by (cases a) (simp_all add: updateInterface_def)
qed

lemma pending_ok_update:
  assumes "pending_ok s" and n: "map_of (nu_at s) n = Some a"
  shows "pending_ok (updateInterface known n a s)"
  unfolding pending_ok_def
proof (intro allI impI)
  fix m b
  assume b: "map_of (nu_at (updateInterface known n a s)) m = Some b" "b \<noteq> Finished"
  have "\<exists>b'. map_of (nu_at s) m = Some b' \<and> b' \<noteq> Finished"
  proof (cases "m = n")
    case True
    with b n show ?thesis by (cases a) (auto simp: updateInterface_def)
  next
    case False
    with b show ?thesis by (cases a) (auto simp: updateInterface_def update_defs split: option.splits if_splits)
  qed
  with assms(1) have "cancel_due s m" by (auto simp: pending_ok_def)
  from cancel_due_update [OF n this] show "cancel_due (updateInterface known n a s) m" .
qed

lemma pending_ok_notify:
  assumes "pending_ok s" and "ids_ok s"
  shows "pending_ok (notifyInterfaceUpdate s)"
proof -
  have f: "map_of (nu_at s) (nu_next s) = None" using assms(2) by (metis ids_ok_def less_irrefl not_None_eq)
  have "cancel_due (notifyInterfaceUpdate s) m" if "cancel_due s m" for m
  proof (cases "\<exists>j. map_of (nu_at s) j = Some (Swapped (Some m))")
    case True
    then obtain j where j: "map_of (nu_at s) j = Some (Swapped (Some m))" by blast
    then have "j \<noteq> nu_next s" using f by auto
    with j show ?thesis unfolding cancel_due_def update_defs by (intro disjI2 exI [of _ j]) simp
  next
    case False
    with that show ?thesis by (auto simp: cancel_due_def update_defs)
  qed
  moreover have "cancel_due (notifyInterfaceUpdate s) (nu_next s)" by (simp add: cancel_due_def update_defs)
  ultimately show ?thesis using assms(1) by (auto simp: pending_ok_def update_defs split: if_splits)
qed

lemma closing_ok_reach: "nu_reach known started s \<Longrightarrow> (nu_closed s \<longrightarrow> nu_current s = None) \<and> (\<not> nu_closed s \<longrightarrow> nu_closing s = None)"
proof (induction rule: nu_reach.induct)
  case (nu_update s n a)
  then show ?case by (cases a) (auto simp: updateInterface_def update_defs split: option.splits)
qed (auto simp: nu_start_def update_defs split: option.splits)

lemma pending_ok_reach: "nu_reach known started s \<Longrightarrow> pending_ok s"
proof (induction rule: nu_reach.induct)
  case (nu_notify s)
  then show ?case by (simp add: pending_ok_notify ids_ok_reach)
next
  case (nu_close s)
  then show ?case using closing_ok_reach [OF nu_close.hyps(1)] by (auto simp: pending_ok_def cancel_due_def)
next
  case (nu_cancel s)
  have "cancel_due ((cancel (nu_closing s) s)\<lparr>nu_closing := None\<rparr>) n" if "cancel_due s n" for n
    using that by (cases "nu_closing s") (auto simp: cancel_due_def cancel_def)
  moreover have "nu_at ((cancel (nu_closing s) s)\<lparr>nu_closing := None\<rparr>) = nu_at s" by (simp add: cancel_def split: option.split)
  ultimately show ?case using nu_cancel.IH by (simp add: pending_ok_def)
qed (auto simp: pending_ok_update, auto simp: pending_ok_def cancel_due_def nu_start_def)

text \<open>Once the manager is closed and the cancel functions have been called, every update is cancelled; but one that had looked before may
  still reset the network, for the close does not wait for it.\<close>

lemma closed_updates_are_cancelled:
  assumes "nu_reach known started s" and "nu_closed s" and "nu_closing s = None" and "map_of (nu_at s) n = Some a" and "a \<noteq> Finished"
    and "\<forall>j c. map_of (nu_at s) j \<noteq> Some (Swapped c)"
  shows "n \<in> set (nu_cancelled s)"
  using pending_ok_reach [OF assms(1)] closing_ok_reach [OF assms(1)] assms(2-) unfolding pending_ok_def cancel_due_def by fastforce

lemma reset_after_close:
  "\<exists>s. nu_reach (\<lambda>n. True) True s \<and> nu_closed s \<and> nu_closing s = None \<and> nu_log s = [Environment 0] \<and>
     nu_log (updateInterface (\<lambda>n. True) 0 Reset_next s) = [Environment 0, Reset 0] \<and> map_of (nu_at s) 0 = Some Reset_next"
proof -
  let ?s = "run_updates (\<lambda>n. True) [0, 0, 0, 0, 0, 0] (notifyInterfaceUpdate (nu_start True))"
  have c: "\<not> nu_closed (nu_start True)" "\<not> nu_closed ?s" by code_simp+
  have "nu_reach (\<lambda>n. True) True ?s" by (intro run_updates_reach nu_reach.nu_notify nu_reach.nu_start c)
  from nu_reach.nu_cancel [OF nu_reach.nu_close [OF this c(2)]]
  have r: "nu_reach (\<lambda>n. True) True ((cancel (nu_current ?s) (?s\<lparr>nu_closed := True, nu_closing := nu_current ?s, nu_current := None\<rparr>))\<lparr>nu_closing := None\<rparr>)"
    by simp
  have "nu_current ?s = Some 0" "nu_log ?s = [Environment 0]" "map_of (nu_at ?s) 0 = Some Reset_next" by code_simp+
  with r show ?thesis by (intro exI conjI) (rule r, simp_all add: cancel_def updateInterface_def finish_update_def at_update_def)
qed

section \<open>The reset, and the power of the device\<close>

text \<open>What a reset calls: the connections are closed, then everything that listens for changes is told, and the router is reset.\<close>

datatype reset_call = CloseAllConnections | InterfaceUpdated string | RouterReset

definition ResetNetwork :: "bool \<Rightarrow> (string \<times> bool) list \<Rightarrow> (string \<times> bool) list \<Rightarrow> (string \<times> bool) list \<Rightarrow> reset_call list" where
  "ResetNetwork connectionManager endpoints inbounds outbounds =
     (if connectionManager then [CloseAllConnections] else []) @
     map (\<lambda>(tag, l). InterfaceUpdated tag) (filter snd (endpoints @ inbounds @ outbounds)) @ [RouterReset]"

datatype power_event = EVENT_SUSPEND | EVENT_RESUME | EVENT_RESUME_AUTOMATIC

text \<open>The update of the last resumption, and the resets: \<open>None\<close> in the context of the manager, else in that of a resumption.\<close>

record power_state =
  pw_DevicePaused :: bool
  pw_Cancel :: "nat option"
  pw_next :: nat
  pw_cancelled :: "nat list"
  pw_resets :: "nat option list"

definition cancelPowerUpdate :: "power_state \<Rightarrow> power_state" where
  "cancelPowerUpdate s = s\<lparr>pw_cancelled := (case pw_Cancel s of None \<Rightarrow> pw_cancelled s | Some n \<Rightarrow> n # pw_cancelled s), pw_Cancel := None\<rparr>"

definition resume_power :: "power_state \<Rightarrow> power_state" where
  "resume_power s = (cancelPowerUpdate s)\<lparr>pw_DevicePaused := False, pw_Cancel := Some (pw_next s), pw_next := pw_next s + 1,
     pw_resets := pw_resets s @ [Some (pw_next s)]\<rparr>"

definition notifyWindowsPowerEvent :: "power_event \<Rightarrow> power_state \<Rightarrow> power_state" where
  "notifyWindowsPowerEvent e s = (case e of
     EVENT_SUSPEND \<Rightarrow> (cancelPowerUpdate s)\<lparr>pw_DevicePaused := True, pw_resets := pw_resets s @ [None]\<rparr>
   | EVENT_RESUME \<Rightarrow> if pw_DevicePaused s then resume_power s else s
   | EVENT_RESUME_AUTOMATIC \<Rightarrow> resume_power s)"

text \<open>A resumption that is told twice, as Windows does when a user is present, resets the network once; and only the last one is not
  cancelled.\<close>

lemma resumed_once:
  "notifyWindowsPowerEvent EVENT_RESUME (notifyWindowsPowerEvent EVENT_RESUME_AUTOMATIC s) = notifyWindowsPowerEvent EVENT_RESUME_AUTOMATIC s"
  by (simp add: notifyWindowsPowerEvent_def resume_power_def)

definition power_ok :: "power_state \<Rightarrow> bool" where
  "power_ok s \<longleftrightarrow> (\<forall>n. Some n \<in> set (pw_resets s) \<longrightarrow> pw_Cancel s = Some n \<or> n \<in> set (pw_cancelled s)) \<and>
     (pw_DevicePaused s \<longrightarrow> pw_Cancel s = None)"

lemma power_ok_event: "power_ok s \<Longrightarrow> power_ok (notifyWindowsPowerEvent e s)"
  by (cases e) (auto simp: power_ok_def notifyWindowsPowerEvent_def resume_power_def cancelPowerUpdate_def split: option.splits)

end
