(* ===== verification/Sing_Listening.thy ===== *)
theory Sing_Listening
  imports Sing_Identity Sing_Network
begin

text \<open>
  The managed inbounds while they listen (runtime/patches, sing-box protocol/*/inbound.go and sing-quic hysteria, hysteria2 and tuic,
  service.go): their start and close with the order of the steps and their errors, the loops that accept connections, and
  what a stream passes before its service sees it.  Sockets, TLS and QUIC are the libraries'.
\<close>

section \<open>Starting\<close>

text \<open>The steps that can fail.\<close>

datatype listen_step = ServiceStep | TLSStep | AcceptStep | TCPStep | UDPStep | RealmStep | HTTP3Step | QUICStep

text \<open>What is open, and what a goroutine accepts connections from.\<close>

datatype endpoint = TCPSocket | UDPSocket | QUICListener | RealmServer

datatype wrapper = XPlus | Gecko | Salamander | Punch

text \<open>How the QUIC listener was made: the wrappers of its socket from the inside out, whether it accepts early
  connections, and where they are given whether it is silent on unknown versions and whether it sends stateless resets.\<close>

record quic_listener =
  ql_wrappers :: "wrapper list"
  ql_early :: bool
  ql_options :: "(bool \<times> bool) option"

record listening =
  ls_timers :: bool
  ls_tls :: bool
  ls_open :: "endpoint list"
  ls_served :: "endpoint list"
  ls_quic :: "quic_listener option"

definition not_listening :: listening where
  "not_listening = \<lparr>ls_timers = False, ls_tls = False, ls_open = [], ls_served = [], ls_quic = None\<rparr>"

text \<open>
  What an inbound was made with: the networks of its transport; the networks on which the listener of sing-box accepts by
  itself; whether 0-RTT is allowed; the passwords of the obfuscations; whether there is a realm.
\<close>

record listen_options =
  lo_transport :: "endpoint list"
  lo_networks :: "endpoint list"
  lo_Allow0RTT :: bool
  lo_xplus :: string
  lo_gecko :: string
  lo_salamander :: string
  lo_realm :: bool

type_synonym listen_result = "err option \<times> listening"

definition try_step :: "err option \<Rightarrow> (listening \<Rightarrow> listening) \<Rightarrow> listening \<Rightarrow> listen_result" where
  "try_step fails f s = (case fails of Some e \<Rightarrow> (Some e, s) | None \<Rightarrow> (None, f s))"

definition and_then :: "listen_result \<Rightarrow> (listening \<Rightarrow> listen_result) \<Rightarrow> listen_result" where
  "and_then r f = (case r of (Some e, s) \<Rightarrow> (Some e, s) | (None, s) \<Rightarrow> f s)"

definition open_endpoint :: "endpoint \<Rightarrow> listening \<Rightarrow> listening" where
  "open_endpoint p s = s\<lparr>ls_open := ls_open s @ [p]\<rparr>"

text \<open>Endpoints that are opened and at once accepted from.\<close>

definition listen_on :: "endpoint list \<Rightarrow> listening \<Rightarrow> listening" where
  "listen_on ps s = s\<lparr>ls_open := ls_open s @ ps, ls_served := ls_served s @ ps\<rparr>"

definition start_tls :: "(listen_step \<Rightarrow> err option) \<Rightarrow> bool \<Rightarrow> listening \<Rightarrow> listen_result" where
  "start_tls flt tls s = (if tls then try_step (flt TLSStep) (\<lambda>s. s\<lparr>ls_tls := True\<rparr>) s else (None, s))"

text \<open>\<open>listener.Start\<close> of sing-box: it opens the sockets of its networks and accepts from them.\<close>

definition listener_Start :: "(listen_step \<Rightarrow> err option) \<Rightarrow> endpoint list \<Rightarrow> listening \<Rightarrow> listen_result" where
  "listener_Start flt networks s = try_step (flt AcceptStep) (listen_on networks) s"

text \<open>The part that VLESS, VMess and Trojan share.\<close>

definition start_streams :: "(listen_step \<Rightarrow> err option) \<Rightarrow> bool \<Rightarrow> listen_options \<Rightarrow> listening \<Rightarrow> listen_result" where
  "start_streams flt transport p s =
     (if \<not> transport then listener_Start flt (lo_networks p) s
      else and_then (if TCPSocket \<in> set (lo_transport p)
             then try_step (flt TCPStep) (listen_on [TCPSocket]) s else (None, s))
           (\<lambda>s. if UDPSocket \<in> set (lo_transport p)
             then try_step (flt UDPStep) (listen_on [UDPSocket]) s else (None, s)))"

definition VLESS_Start :: "(listen_step \<Rightarrow> err option) \<Rightarrow> bool \<Rightarrow> bool \<Rightarrow> listen_options \<Rightarrow> listening \<Rightarrow> listen_result" where
  "VLESS_Start flt tls transport p s = and_then (start_tls flt tls s) (start_streams flt transport p)"

definition VMess_Start :: "(listen_step \<Rightarrow> err option) \<Rightarrow> bool \<Rightarrow> bool \<Rightarrow> listen_options \<Rightarrow> listening \<Rightarrow> listen_result" where
  "VMess_Start flt tls transport p s = and_then (try_step (flt ServiceStep) (\<lambda>s. s\<lparr>ls_timers := True\<rparr>) s)
     (\<lambda>s. and_then (start_tls flt tls s) (start_streams flt transport p))"

definition Trojan_Start :: "(listen_step \<Rightarrow> err option) \<Rightarrow> bool \<Rightarrow> bool \<Rightarrow> listen_options \<Rightarrow> listening \<Rightarrow> listen_result" where
  "Trojan_Start flt tls transport p s =
     and_then (start_tls (\<lambda>k. map_option (\<lambda>e. ''create TLS config: '' @ e) (flt k)) tls s) (start_streams flt transport p)"

definition AnyTLS_Start :: "(listen_step \<Rightarrow> err option) \<Rightarrow> bool \<Rightarrow> listen_options \<Rightarrow> listening \<Rightarrow> listen_result" where
  "AnyTLS_Start flt tls p s = and_then (start_tls flt tls s) (listener_Start flt (lo_networks p))"

definition SS_Start :: "(listen_step \<Rightarrow> err option) \<Rightarrow> listen_options \<Rightarrow> listening \<Rightarrow> listen_result" where
  "SS_Start flt p s = listener_Start flt (lo_networks p) s"

subsection \<open>Over QUIC\<close>

definition listen_quic :: "(listen_step \<Rightarrow> err option) \<Rightarrow> quic_listener \<Rightarrow> listening \<Rightarrow> listen_result" where
  "listen_quic flt q s = try_step (flt QUICStep) (\<lambda>s. (listen_on [QUICListener] s)\<lparr>ls_quic := Some q\<rparr>) s"

definition Hysteria_ServiceStart :: "(listen_step \<Rightarrow> err option) \<Rightarrow> listen_options \<Rightarrow> listening \<Rightarrow> listen_result" where
  "Hysteria_ServiceStart flt p s = listen_quic flt \<lparr>ql_wrappers = (if lo_xplus p \<noteq> [] then [XPlus] else []), ql_early = False,
     ql_options = None\<rparr> s"

definition TUIC_ServiceStart :: "(listen_step \<Rightarrow> err option) \<Rightarrow> listen_options \<Rightarrow> listening \<Rightarrow> listen_result" where
  "TUIC_ServiceStart flt p s = listen_quic flt \<lparr>ql_wrappers = [], ql_early = lo_Allow0RTT p,
     ql_options = None\<rparr> s"

definition obfuscation :: "listen_options \<Rightarrow> wrapper list" where
  "obfuscation p = (if lo_gecko p \<noteq> [] then [Gecko] else if lo_salamander p \<noteq> [] then [Salamander] else [])"

definition hy2_listener :: "wrapper list \<Rightarrow> listen_options \<Rightarrow> quic_listener" where
  "hy2_listener base p = (let obfs = lo_gecko p \<noteq> [] \<or> lo_salamander p \<noteq> []
     in \<lparr>ql_wrappers = base @ obfuscation p, ql_early = False, ql_options = Some (obfs, \<not> obfs)\<rparr>)"

definition both_errors :: "err \<Rightarrow> err option \<Rightarrow> err" where
  "both_errors e f = (case f of None \<Rightarrow> e | Some f \<Rightarrow> e @ '' | '' @ f)"

text \<open>A realm whose listener does not come up is closed again; \<open>realmClose\<close> is the fault of that.\<close>

definition close_realm :: "err option \<Rightarrow> listen_result \<Rightarrow> listen_result" where
  "close_realm realmClose r = (case r of
     (None, s) \<Rightarrow> (None, s)
   | (Some e, s) \<Rightarrow> (Some (both_errors e realmClose), s\<lparr>ls_open := filter (\<lambda>p. p \<noteq> RealmServer) (ls_open s)\<rparr>))"

definition startWithRealm :: "(listen_step \<Rightarrow> err option) \<Rightarrow> err option \<Rightarrow> listen_options \<Rightarrow> listening \<Rightarrow> listen_result" where
  "startWithRealm flt realmClose p s =
     and_then (try_step (map_option (\<lambda>e. ''start realm server: '' @ e) (flt RealmStep)) (open_endpoint RealmServer) s)
       (\<lambda>s. close_realm realmClose (and_then (try_step (flt HTTP3Step) id s) (listen_quic flt (hy2_listener [Punch] p))))"

definition Hysteria2_ServiceStart :: "(listen_step \<Rightarrow> err option) \<Rightarrow> err option \<Rightarrow> listen_options \<Rightarrow> listening \<Rightarrow> listen_result" where
  "Hysteria2_ServiceStart flt realmClose p s =
     (if lo_realm p then startWithRealm flt realmClose p s
      else and_then (try_step (flt HTTP3Step) id s) (listen_quic flt (hy2_listener [] p)))"

text \<open>The three inbounds open their socket before they hand it to their service.\<close>

definition start_packets :: "(listen_step \<Rightarrow> err option) \<Rightarrow> bool \<Rightarrow> (listening \<Rightarrow> listen_result) \<Rightarrow> listening \<Rightarrow> listen_result" where
  "start_packets flt tls service s =
     and_then (start_tls flt tls s) (\<lambda>s. and_then (try_step (flt UDPStep) (open_endpoint UDPSocket) s) service)"

definition TUIC_Start :: "(listen_step \<Rightarrow> err option) \<Rightarrow> bool \<Rightarrow> listen_options \<Rightarrow> listening \<Rightarrow> listen_result" where
  "TUIC_Start flt tls p = start_packets flt tls (TUIC_ServiceStart flt p)"

definition Hysteria_Start :: "(listen_step \<Rightarrow> err option) \<Rightarrow> bool \<Rightarrow> listen_options \<Rightarrow> listening \<Rightarrow> listen_result" where
  "Hysteria_Start flt tls p = start_packets flt tls (Hysteria_ServiceStart flt p)"

definition Hysteria2_Start :: "(listen_step \<Rightarrow> err option) \<Rightarrow> err option \<Rightarrow> bool \<Rightarrow> listen_options \<Rightarrow> listening \<Rightarrow> listen_result" where
  "Hysteria2_Start flt realmClose tls p = start_packets flt tls (Hysteria2_ServiceStart flt realmClose p)"

text \<open>By the service of the inbound, in the one stage that matters.\<close>

definition inbound_Start ::
  "(listen_step \<Rightarrow> err option) \<Rightarrow> err option \<Rightarrow> start_stage \<Rightarrow> ManagedInbound \<Rightarrow> listen_options \<Rightarrow> listening \<Rightarrow> listen_result" where
  "inbound_Start flt realmClose stage h p s =
     (if stage \<noteq> StartStateStart then (None, s)
      else (case mi_service h of
          VLESSInbound x \<Rightarrow> VLESS_Start flt (mi_tls h) (mi_transport h) p s
        | VMessInbound x \<Rightarrow> VMess_Start flt (mi_tls h) (mi_transport h) p s
        | TrojanInbound x \<Rightarrow> Trojan_Start flt (mi_tls h) (mi_transport h) p s
        | TUICInbound x \<Rightarrow> TUIC_Start flt (mi_tls h) p s
        | HysteriaInbound x \<Rightarrow> Hysteria_Start flt (mi_tls h) p s
        | Hysteria2Inbound x \<Rightarrow> Hysteria2_Start flt realmClose (mi_tls h) p s
        | AnyTLSInbound x \<Rightarrow> AnyTLS_Start flt (mi_tls h) p s
        | SS2022Inbound x \<Rightarrow> SS_Start flt p s
        | AEADInbound x \<Rightarrow> SS_Start flt p s))"

section \<open>Closing\<close>

text \<open>
  \<open>common.Close\<close> closes what it is given, whatever fails.  The end of an endpoint ends the goroutine that accepts from it, that of a
  transport those that serve it.
\<close>

datatype closer = CloseService | CloseListener | CloseTLS | CloseTransport

definition end_endpoints :: "endpoint set \<Rightarrow> listening \<Rightarrow> listening" where
  "end_endpoints ps s = s\<lparr>ls_open := filter (\<lambda>p. p \<notin> ps) (ls_open s), ls_served := filter (\<lambda>p. p \<notin> ps) (ls_served s)\<rparr>"

fun close_one :: "closer \<Rightarrow> listening \<Rightarrow> listening" where
  "close_one CloseService s = (end_endpoints {QUICListener, RealmServer} s)\<lparr>ls_timers := False, ls_quic := None\<rparr>"
| "close_one CloseListener s = end_endpoints {TCPSocket, UDPSocket} s"
| "close_one CloseTLS s = s\<lparr>ls_tls := False\<rparr>"
| "close_one CloseTransport s = s\<lparr>ls_served := filter (\<lambda>p. p \<notin> {TCPSocket, UDPSocket}) (ls_served s)\<rparr>"

definition closers :: "SingInbound \<Rightarrow> closer list" where
  "closers service = (case service of
     VLESSInbound x \<Rightarrow> [CloseService, CloseListener, CloseTLS, CloseTransport]
   | VMessInbound x \<Rightarrow> [CloseService, CloseListener, CloseTLS, CloseTransport]
   | TrojanInbound x \<Rightarrow> [CloseListener, CloseTLS, CloseTransport]
   | TUICInbound x \<Rightarrow> [CloseListener, CloseTLS, CloseService]
   | HysteriaInbound x \<Rightarrow> [CloseListener, CloseTLS, CloseService]
   | Hysteria2Inbound x \<Rightarrow> [CloseListener, CloseTLS, CloseService]
   | AnyTLSInbound x \<Rightarrow> [CloseListener, CloseTLS]
   | SS2022Inbound x \<Rightarrow> [CloseListener]
   | AEADInbound x \<Rightarrow> [CloseListener])"

definition inbound_Close :: "ManagedInbound \<Rightarrow> listening \<Rightarrow> listening" where
  "inbound_Close h s = fold close_one (closers (mi_service h)) s"

lemmas listen_defs = try_step_def and_then_def open_endpoint_def listen_on_def start_tls_def listener_Start_def not_listening_def

lemmas close_defs = inbound_Close_def closers_def end_endpoints_def not_listening_def

text \<open>What an inbound serves when it runs.\<close>

definition endpoints_of :: "ManagedInbound \<Rightarrow> listen_options \<Rightarrow> endpoint set" where
  "endpoints_of h p = (case mi_service h of
     TUICInbound x \<Rightarrow> {QUICListener} | HysteriaInbound x \<Rightarrow> {QUICListener} | Hysteria2Inbound x \<Rightarrow> {QUICListener}
   | AnyTLSInbound x \<Rightarrow> set (lo_networks p) | SS2022Inbound x \<Rightarrow> set (lo_networks p) | AEADInbound x \<Rightarrow> set (lo_networks p)
   | _ \<Rightarrow> if mi_transport h then set (lo_transport p) \<inter> {TCPSocket, UDPSocket} else set (lo_networks p))"

text \<open>The outcome of one start: nothing is open before TLS is up, a start that succeeds serves what it should, and only what is
  named is ever there.\<close>

definition started_well :: "bool \<Rightarrow> endpoint set \<Rightarrow> endpoint set \<Rightarrow> bool \<Rightarrow> bool \<Rightarrow> listen_result \<Rightarrow> bool" where
  "started_well tls ps A timers quic r \<longleftrightarrow> (case r of (e, s) \<Rightarrow> (ls_open s \<noteq> [] \<longrightarrow> tls \<longrightarrow> ls_tls s) \<and>
     (e = None \<longrightarrow> ls_tls s = tls \<and> set (ls_served s) = ps) \<and> set (ls_served s) \<subseteq> set (ls_open s) \<and> set (ls_open s) \<subseteq> A \<and>
     (ls_timers s \<longrightarrow> timers) \<and> (ls_quic s \<noteq> None \<longrightarrow> quic))"

definition stream_sockets :: "endpoint set" where
  "stream_sockets = {TCPSocket, UDPSocket}"

lemma started_streams:
  assumes "set (lo_networks p) \<subseteq> stream_sockets"
  shows "started_well tls (if transport then set (lo_transport p) \<inter> stream_sockets else set (lo_networks p)) stream_sockets timers False
    (and_then (start_tls flt tls (not_listening\<lparr>ls_timers := timers\<rparr>)) (start_streams flt' transport p))"
proof (cases transport)
  case True
  then show ?thesis
    by (auto simp: stream_sockets_def started_well_def start_streams_def listen_defs split: option.splits)
next
  case False
  then show ?thesis using assms
    by (auto simp: started_well_def start_streams_def listen_defs split: option.splits)
qed

lemma started_listener:
  assumes "set (lo_networks p) \<subseteq> stream_sockets"
  shows "started_well tls (set (lo_networks p)) stream_sockets False False (and_then (start_tls flt tls not_listening) (listener_Start flt (lo_networks p)))"
    and "started_well False (set (lo_networks p)) stream_sockets False False (listener_Start flt (lo_networks p) not_listening)"
  using assms by (auto simp: started_well_def listen_defs split: option.splits)

definition packet_endpoints :: "endpoint set" where
  "packet_endpoints = {UDPSocket, QUICListener, RealmServer}"

lemma started_packets:
  assumes "\<And>s. ls_open s = [UDPSocket] \<Longrightarrow> ls_served s = [] \<Longrightarrow> ls_quic s = None \<Longrightarrow> \<not> ls_timers s \<Longrightarrow> (tls \<longrightarrow> ls_tls s) \<Longrightarrow> ls_tls s = tls \<Longrightarrow>
    started_well tls {QUICListener} packet_endpoints False True (service s)"
  shows "started_well tls {QUICListener} packet_endpoints False True (start_packets flt tls service not_listening)"
proof -
  have "\<exists>e s. start_packets flt tls service not_listening = (Some e, s) \<and> ls_served s = [] \<and> set (ls_open s) \<subseteq> {UDPSocket} \<and>
      (ls_open s \<noteq> [] \<longrightarrow> tls \<longrightarrow> ls_tls s) \<and> ls_quic s = None \<and> \<not> ls_timers s \<or>
    start_packets flt tls service not_listening = service (not_listening\<lparr>ls_tls := tls, ls_open := [UDPSocket]\<rparr>)"
    by (auto simp: start_packets_def listen_defs split: option.splits)
  then consider e s where "start_packets flt tls service not_listening = (Some e, s)" "ls_served s = []" "set (ls_open s) \<subseteq> {UDPSocket}"
      "ls_open s \<noteq> [] \<longrightarrow> tls \<longrightarrow> ls_tls s" "ls_quic s = None" "\<not> ls_timers s"
    | "start_packets flt tls service not_listening = service (not_listening\<lparr>ls_tls := tls, ls_open := [UDPSocket]\<rparr>)" by blast
  then show ?thesis
  proof cases
    case 1
    then show ?thesis by (auto simp: started_well_def packet_endpoints_def)
  next
    case 2
    have "started_well tls {QUICListener} packet_endpoints False True (service (not_listening\<lparr>ls_tls := tls, ls_open := [UDPSocket]\<rparr>))"
      by (rule assms) (simp_all add: not_listening_def)
    then show ?thesis unfolding 2 .
  qed
qed

lemma started_quic:
  assumes "ls_open s = [UDPSocket]" "ls_served s = []" "ls_quic s = None" "\<not> ls_timers s" "tls \<longrightarrow> ls_tls s" "ls_tls s = tls"
  shows "started_well tls {QUICListener} packet_endpoints False True (listen_quic flt q s)"
    and "started_well tls {QUICListener} packet_endpoints False True (and_then (try_step x id s) (listen_quic flt q))"
    and "started_well tls {QUICListener} packet_endpoints False True (startWithRealm flt c p s)"
  using assms by (auto simp: started_well_def packet_endpoints_def listen_quic_def startWithRealm_def close_realm_def listen_defs split: option.splits)

definition over_quic :: "SingInbound \<Rightarrow> bool" where
  "over_quic service = (case service of TUICInbound x \<Rightarrow> True | HysteriaInbound x \<Rightarrow> True | Hysteria2Inbound x \<Rightarrow> True | _ \<Rightarrow> False)"

definition shadowsocks :: "SingInbound \<Rightarrow> bool" where
  "shadowsocks service = (case service of SS2022Inbound x \<Rightarrow> True | AEADInbound x \<Rightarrow> True | _ \<Rightarrow> False)"

definition has_timers :: "SingInbound \<Rightarrow> bool" where
  "has_timers service = (case service of VMessInbound x \<Rightarrow> True | _ \<Rightarrow> False)"

lemmas service_kinds = over_quic_def shadowsocks_def has_timers_def

lemma inbound_started:
  assumes "set (lo_networks p) \<subseteq> stream_sockets" and "shadowsocks (mi_service h) \<Longrightarrow> \<not> mi_tls h"
  shows "started_well (mi_tls h) (endpoints_of h p) (if over_quic (mi_service h) then packet_endpoints else stream_sockets)
    (has_timers (mi_service h)) (over_quic (mi_service h)) (inbound_Start flt rc StartStateStart h p not_listening)"
proof -
  note s = started_streams [OF assms(1)] started_listener [OF assms(1)]
  have n: "not_listening\<lparr>ls_timers := False\<rparr> = not_listening" by (simp add: not_listening_def)
  show ?thesis
  proof (cases "mi_service h")
    case (VLESSInbound x)
    then show ?thesis using s(1) [of "mi_tls h" "mi_transport h" False flt flt]
      by (cases "mi_transport h") (simp_all add: inbound_Start_def endpoints_of_def service_kinds VLESS_Start_def stream_sockets_def n)
  next
    case (TrojanInbound x)
    then show ?thesis using s(1) [of "mi_tls h" "mi_transport h" False "\<lambda>k. map_option (\<lambda>e. ''create TLS config: '' @ e) (flt k)" flt]
      by (cases "mi_transport h") (simp_all add: inbound_Start_def endpoints_of_def service_kinds Trojan_Start_def stream_sockets_def n)
  next
    case (VMessInbound x)
    have "started_well (mi_tls h) (endpoints_of h p) stream_sockets True False
        (and_then (try_step (flt ServiceStep) (\<lambda>s. s\<lparr>ls_timers := True\<rparr>) not_listening)
          (\<lambda>s. and_then (start_tls flt (mi_tls h) s) (start_streams flt (mi_transport h) p)))"
    proof (cases "flt ServiceStep")
      case None
      then show ?thesis using s(1) [of "mi_tls h" "mi_transport h" True flt flt] VMessInbound
        by (cases "mi_transport h") (simp_all add: try_step_def and_then_def [of "(None, _)"] endpoints_of_def stream_sockets_def)
    next
      case (Some e)
      then show ?thesis by (simp add: try_step_def and_then_def started_well_def not_listening_def)
    qed
    then show ?thesis by (simp add: inbound_Start_def service_kinds VMess_Start_def VMessInbound)
  next
    case (AnyTLSInbound x)
    then show ?thesis using s(2) [of "mi_tls h" flt] by (simp add: inbound_Start_def endpoints_of_def service_kinds AnyTLS_Start_def)
  next
    case (SS2022Inbound x)
    then show ?thesis using s(3) [of flt] assms(2) by (simp add: inbound_Start_def endpoints_of_def service_kinds SS_Start_def)
  next
    case (AEADInbound x)
    then show ?thesis using s(3) [of flt] assms(2) by (simp add: inbound_Start_def endpoints_of_def service_kinds SS_Start_def)
  next
    case (TUICInbound x)
    then show ?thesis unfolding inbound_Start_def endpoints_of_def service_kinds TUIC_Start_def TUIC_ServiceStart_def
      by (auto intro!: started_packets started_quic)
  next
    case (HysteriaInbound x)
    then show ?thesis unfolding inbound_Start_def endpoints_of_def service_kinds Hysteria_Start_def Hysteria_ServiceStart_def
      by (auto intro!: started_packets started_quic)
  next
    case (Hysteria2Inbound x)
    then show ?thesis unfolding inbound_Start_def endpoints_of_def service_kinds Hysteria2_Start_def Hysteria2_ServiceStart_def
      by (auto intro!: started_packets started_quic)
  qed
qed

lemma close_after:
  assumes "set (ls_open s) \<subseteq> (if over_quic (mi_service h) then packet_endpoints else stream_sockets)" and "set (ls_served s) \<subseteq> set (ls_open s)"
    and "ls_timers s \<longrightarrow> has_timers (mi_service h)" and "ls_quic s \<noteq> None \<longrightarrow> over_quic (mi_service h)"
    and "shadowsocks (mi_service h) \<longrightarrow> \<not> ls_tls s"
  shows "inbound_Close h s = not_listening"
proof -
  obtain t tl ps qs q where s: "s = \<lparr>ls_timers = t, ls_tls = tl, ls_open = ps, ls_served = qs, ls_quic = q\<rparr>" by (cases s)
  from assms show ?thesis
    by (cases "mi_service h") (auto simp: s inbound_Close_def closers_def end_endpoints_def not_listening_def service_kinds
        packet_endpoints_def stream_sockets_def filter_empty_conv)
qed

lemma multi_without_tls:
  assumes "newMultiInbound N D tag cipher password us mux = Inr h"
  shows "\<not> mi_tls h"
proof -
  let ?f = "\<lambda>service. if us = [] then Inr (plain_inbound ''shadowsocks'' tag service False False)
       else (case SetManagedUsers D 0 (ShadowsocksUsers (map (\<lambda>p. \<lparr>pw_Name = [], pw_Password = p\<rparr>) us)) service of
           (Some e, _) \<Rightarrow> Inl e
         | (None, service) \<Rightarrow> Inr (plain_inbound ''shadowsocks'' tag service False False))"
  from assms obtain s where s: "?f s = Inr h" unfolding newMultiInbound_def on_err_Inr bind_res_Inr by blast
  obtain e s' where "SetManagedUsers D 0 (ShadowsocksUsers (map (\<lambda>p. \<lparr>pw_Name = [], pw_Password = p\<rparr>) us)) s = (e, s')" by fastforce
  with s show ?thesis by (auto simp: plain_inbound_def split: if_splits option.splits)
qed

lemma shadowsocks_without_tls:
  assumes "NewInbound N D now tag o1 = Inr h" and "shadowsocks (mi_service h)"
  shows "\<not> mi_tls h"
proof (cases o1)
  case (ShadowsocksInboundOptions l cipher password us mux)
  with assms(1) show ?thesis by (simp add: multi_without_tls)
next
  case (TrojanInboundOptions l tls tr mux fb alpn)
  obtain e s where "Trojan_UpdateUsers D [] \<lparr>tro_users = [], tro_keys = []\<rparr> = (e, s)" by fastforce
  with TrojanInboundOptions assms show ?thesis
    by (auto simp: Trojan_NewInbound_def plain_inbound_def shadowsocks_def split: option.splits)
qed (use assms in \<open>auto simp: VLESS_NewInbound_def VMess_NewInbound_def TUIC_NewInbound_def AnyTLS_NewInbound_def
      Hysteria_NewInbound_def Hysteria2_NewInbound_def plain_inbound_def shadowsocks_def split: option.splits prod.splits\<close>)

text \<open>C25: an inbound opens nothing before its TLS is up; one that starts accepts from exactly the endpoints of its transport or of its
  service, and whatever failed at its start, its close ends all that had begun.\<close>

theorem inbound_lifecycle:
  assumes "NewInbound N D now tag o1 = Inr h" and "set (lo_networks p) \<subseteq> {TCPSocket, UDPSocket}"
    and "inbound_Start flt rc StartStateStart h p not_listening = (e, s)"
  shows "(ls_open s \<noteq> [] \<longrightarrow> mi_tls h \<longrightarrow> ls_tls s) \<and> (e = None \<longrightarrow> ls_tls s = mi_tls h \<and> set (ls_served s) = endpoints_of h p) \<and>
    inbound_Close h s = not_listening"
proof -
  note n = shadowsocks_without_tls [OF assms(1)]
  have w: "started_well (mi_tls h) (endpoints_of h p) (if over_quic (mi_service h) then packet_endpoints else stream_sockets)
    (has_timers (mi_service h)) (over_quic (mi_service h)) (e, s)"
    using inbound_started [of p h flt rc] n assms(2,3) by (simp add: stream_sockets_def)
  have "ls_tls s \<longrightarrow> \<not> shadowsocks (mi_service h)"
    using assms(3) by (auto simp: shadowsocks_def inbound_Start_def SS_Start_def listen_defs split: SingInbound.splits option.splits)
  with w close_after [of s h] show ?thesis by (auto simp: started_well_def)
qed

text \<open>A VLESS inbound with TLS whose socket is taken, and one that starts.\<close>

definition lifecycle_inbound :: "ManagedInbound res" where
  "lifecycle_inbound = NewInbound identity_lib sing_demo_digests 0 ''t''
     (VLESSInboundOptions \<lparr>ln_Listen = ''::'', ln_ListenPort = 443, ln_TCPFastOpen = False\<rparr> (InboundTLSOptions_zero\<lparr>it_Enabled := True\<rparr>)
       (transport_of_type []) None)"

definition lifecycle_options :: listen_options where
  "lifecycle_options = \<lparr>lo_transport = [], lo_networks = [TCPSocket], lo_Allow0RTT = False, lo_xplus = [], lo_gecko = [], lo_salamander = [],
     lo_realm = False\<rparr>"

theorem inbound_lifecycle_witness:
  "case lifecycle_inbound of
     Inl e \<Rightarrow> False
   | Inr h \<Rightarrow> (case inbound_Start (\<lambda>k. if k = AcceptStep then Some ''in use'' else None) None StartStateStart h lifecycle_options not_listening of
       (e, s) \<Rightarrow> e = Some ''in use'' \<and> ls_tls s \<and> inbound_Close h s = not_listening) \<and>
     (case inbound_Start (\<lambda>k. None) None StartStateStart h lifecycle_options not_listening of
       (e, s) \<Rightarrow> ls_tls s = mi_tls h \<and> set (ls_served s) = {TCPSocket} \<and> inbound_Close h s = not_listening)"
proof -
  have "case lifecycle_inbound of Inl e \<Rightarrow> False | Inr h \<Rightarrow> mi_tls h \<and> \<not> mi_transport h \<and>
      (case mi_service h of VLESSInbound x \<Rightarrow> True | _ \<Rightarrow> False)" by code_simp
  then obtain h x where h: "lifecycle_inbound = Inr h" "mi_tls h" "\<not> mi_transport h" "mi_service h = VLESSInbound x"
    by (auto split: sum.splits SingInbound.splits)
  have n: "set (lo_networks lifecycle_options) \<subseteq> {TCPSocket, UDPSocket}" by (simp add: lifecycle_options_def)
  let ?flt = "\<lambda>k. if k = AcceptStep then Some ''in use'' else None"
  obtain e s where s: "inbound_Start ?flt None StartStateStart h lifecycle_options not_listening = (e, s)" by fastforce
  obtain e' s' where s': "inbound_Start (\<lambda>k. None) None StartStateStart h lifecycle_options not_listening = (e', s')" by fastforce
  note l = inbound_lifecycle [OF h(1) [unfolded lifecycle_inbound_def] n]
  have "e = Some ''in use''" "ls_tls s" using s h(2-4) by (auto simp: inbound_Start_def VLESS_Start_def start_streams_def listen_defs)
  moreover have "e' = None" using s' h(2-4) by (auto simp: inbound_Start_def VLESS_Start_def start_streams_def listen_defs)
  moreover have "endpoints_of h lifecycle_options = {TCPSocket}" using h(3,4) by (simp add: endpoints_of_def lifecycle_options_def)
  ultimately show ?thesis using l [OF s] l [OF s'] by (simp add: h(1) s s')
qed

text \<open>A listener with obfuscation answers nothing in plain QUIC: neither versions nor resets.\<close>

lemma obfuscated_listener:
  assumes "Hysteria2_ServiceStart flt rc p s = (None, s')"
  shows "\<exists>q. ls_quic s' = Some q \<and> ql_wrappers q = (if lo_realm p then [Punch] else []) @ obfuscation p \<and>
    ql_options q = Some (obfuscation p \<noteq> [], obfuscation p = [])"
  using assms by (auto simp: Hysteria2_ServiceStart_def startWithRealm_def close_realm_def listen_quic_def hy2_listener_def obfuscation_def Let_def
      try_step_def and_then_def listen_on_def split: if_splits option.splits)

text \<open>A realm that was started is closed when the listener behind it does not come up.\<close>

lemma failed_realm_is_closed:
  "startWithRealm flt rc p s = (Some e, s') \<Longrightarrow> RealmServer \<notin> set (ls_open s) \<Longrightarrow> RealmServer \<notin> set (ls_open s')"
  by (auto simp: startWithRealm_def close_realm_def listen_quic_def try_step_def and_then_def open_endpoint_def listen_on_def split: option.splits)

section \<open>Accepting\<close>

text \<open>What an accept gives: a connection, or an error with whether it says that the listener was closed.\<close>

datatype accepted_conn = AcceptConn nat | AcceptFailed err bool

text \<open>The connections that are handled, each in a goroutine of its own, and the message at the end: in debug or as an error.\<close>

fun loopConnections :: "accepted_conn list \<Rightarrow> nat list \<times> (bool \<times> err) option" where
  "loopConnections [] = ([], None)"
| "loopConnections (AcceptConn c # as) = (case loopConnections as of (cs, m) \<Rightarrow> (c # cs, m))"
| "loopConnections (AcceptFailed e closed # as) = ([], Some (closed, ''listener closed: '' @ e))"

lemma loopConnections_handles:
  "fst (loopConnections (map AcceptConn cs @ AcceptFailed e closed # as)) = cs \<and>
   snd (loopConnections (map AcceptConn cs @ AcceptFailed e closed # as)) = Some (closed, ''listener closed: '' @ e)"
  by (induction cs) (auto split: prod.split)

text \<open>
  A new connection of a stream inbound: what the TLS handshake makes of it, and the error of the service.  It is closed with the error,
  or the service has it.
\<close>

datatype 'c stream_end = ClosedOnFailure 'c err | TakenBy 'c

definition inbound_NewConnection :: "bool \<Rightarrow> ('c \<Rightarrow> 'c res) \<Rightarrow> ('c \<Rightarrow> err option) \<Rightarrow> 'c \<Rightarrow> 'c stream_end" where
  "inbound_NewConnection handshakes handshake service conn =
     (case (if handshakes then handshake conn else Inr conn) of
        Inl e \<Rightarrow> ClosedOnFailure conn e
      | Inr conn \<Rightarrow> (case service conn of Some e \<Rightarrow> ClosedOnFailure conn e | None \<Rightarrow> TakenBy conn))"

text \<open>Whether the inbound shakes hands itself; a transport has done that, but AnyTLS has none.\<close>

definition handshakes :: "ManagedInbound \<Rightarrow> bool" where
  "handshakes h = (case mi_service h of AnyTLSInbound x \<Rightarrow> mi_tls h | _ \<Rightarrow> mi_tls h \<and> \<not> mi_transport h)"

lemma taken_after_handshake:
  "inbound_NewConnection True handshake service conn = TakenBy c \<Longrightarrow> handshake conn = Inr c \<and> service c = None"
  by (auto simp: inbound_NewConnection_def split: sum.splits option.splits)

section \<open>The end of a session\<close>

text \<open>
  A session of either Hysteria service: the error it ended with, its UDP associations, those that were closed with an error, and
  what the peer was told.
\<close>

record hy_session =
  hs_connErr :: "err option"
  hs_udp :: "(nat, string) gomap"
  hs_closed :: "(string \<times> err) list"
  hs_told :: "(nat \<times> string) list"

text \<open>The two codes of the protocol that go with a reason.\<close>

definition close_reason :: "nat \<Rightarrow> nat \<Rightarrow> nat \<Rightarrow> string" where
  "close_reason protocolError authError code =
     (if code = protocolError then ''protocol error'' else if code = authError then ''auth error'' else [])"

definition Hysteria_closeWithError0 :: "nat \<Rightarrow> nat \<Rightarrow> nat \<Rightarrow> err \<Rightarrow> hy_session \<Rightarrow> hy_session" where
  "Hysteria_closeWithError0 protocolError authError code e s = (case hs_connErr s of
     Some x \<Rightarrow> s
   | None \<Rightarrow> s\<lparr>hs_connErr := Some e, hs_udp := [], hs_closed := hs_closed s @ map (\<lambda>(i, u). (u, e)) (hs_udp s),
       hs_told := hs_told s @ [(code, close_reason protocolError authError code)]\<rparr>)"

definition Hysteria2_closeWithError :: "err \<Rightarrow> hy_session \<Rightarrow> hy_session" where
  "Hysteria2_closeWithError e s = (case hs_connErr s of
     Some x \<Rightarrow> s
   | None \<Rightarrow> s\<lparr>hs_connErr := Some e, hs_udp := [], hs_closed := hs_closed s @ map (\<lambda>(i, u). (u, e)) (hs_udp s), hs_told := hs_told s @ [(0, [])]\<rparr>)"

text \<open>However many goroutines end a session, the first error stays and the peer is told once; no association is left open.\<close>

lemma session_ends_once:
  assumes "hs_connErr s = None" and "hs_told s = []"
  shows "hs_connErr (fold (\<lambda>(c, e). Hysteria_closeWithError0 p a c e) ((c, e) # ces) s) = Some e"
    and "hs_told (fold (\<lambda>(c, e). Hysteria_closeWithError0 p a c e) ((c, e) # ces) s) = [(c, close_reason p a c)]"
    and "hs_udp (fold (\<lambda>(c, e). Hysteria_closeWithError0 p a c e) ((c, e) # ces) s) = []"
proof -
  have f: "hs_connErr t = Some x \<Longrightarrow> fold (\<lambda>(c, e). Hysteria_closeWithError0 p a c e) ces t = t" for t x
    by (induction ces arbitrary: t) (auto simp: Hysteria_closeWithError0_def)
  have "hs_connErr (Hysteria_closeWithError0 p a c e s) = Some e" using assms by (simp add: Hysteria_closeWithError0_def)
  from f [OF this] assms
  show "hs_connErr (fold (\<lambda>(c, e). Hysteria_closeWithError0 p a c e) ((c, e) # ces) s) = Some e"
    "hs_told (fold (\<lambda>(c, e). Hysteria_closeWithError0 p a c e) ((c, e) # ces) s) = [(c, close_reason p a c)]"
    "hs_udp (fold (\<lambda>(c, e). Hysteria_closeWithError0 p a c e) ((c, e) # ces) s) = []"
    by (simp_all add: Hysteria_closeWithError0_def)
qed

end
