(* ===== verification/Spec2Isabelle.thy ===== *)
theory Spec2Isabelle
  imports Json5_Spec Vless Panel_Props Panel_Users Conf_Decode Core_Reference Cert Controller_Steps
    Periodic_Task Routing Xray_Contract Limiter_Props Traffic
    Sing_Revocation Sing_Users Sing_Legacy Sing_Traffic Hy2_Props Node_List AnyTLS_Close
    Quic_Sessions AnyTLS_Pool Server_Reload Hy2_Geo Preflight Commands VMess_Stream SS_Packets
    Xray_TLS Sing_Listening
begin

text \<open>
  V2bX: a controller that runs proxy nodes for a panel (Go, src/runtime).

  \<^bold>\<open>The program.\<close>  A panel describes a node, its users and its rules.  For every configured node a controller
  (node/) polls the panel through a client (api/panel), keeps the node and its users installed in a proxy
  core (core/), enforces the users' device and speed limits (limiter/) and reports their traffic.  A
  selector (core/selector.go) spreads nodes over several cores; the Xray core (core/xray) replaces Xray's
  dispatcher by its own (core/xray/app/dispatcher), which admits connections, counts their traffic, and
  cuts them when their user is revoked.  Configuration files (conf/) are JSON with comments
  (common/json5).

  \<^bold>\<open>Theories and code.\<close>
  \<^item> \<^verbatim>\<open>V2bX_Prelude\<close>: Go maps as association lists (\<^verbatim>\<open>gomap\<close> with \<^verbatim>\<open>mput\<close>, \<^verbatim>\<open>mdel\<close>, \<^verbatim>\<open>mget_or\<close>, \<^verbatim>\<open>mhas\<close>), 64-bit
    arithmetic with wrap-around, errors and results, the shared hints.  \<^verbatim>\<open>Go_Strings\<close>: the string functions.
  \<^item> \<^verbatim>\<open>Json5\<close>, \<^verbatim>\<open>Json5_Spec\<close> (common/json5/json5.go): the comment eraser against a grammar of the input.
  \<^item> \<^verbatim>\<open>Panel_Types\<close>, \<^verbatim>\<open>Vless\<close>, \<^verbatim>\<open>Panel\<close>, \<^verbatim>\<open>Panel_Users\<close>, \<^verbatim>\<open>Panel_Props\<close> (api/panel): node and user descriptions, the
    decoding of nodes, routes and VLESS encryption, change detection and its acknowledgement.
  \<^item> \<^verbatim>\<open>Conf_Types\<close>, \<^verbatim>\<open>Conf_Decode\<close> (conf/): options with their defaults and the decoding of node entries.
  \<^item> \<^verbatim>\<open>User_Table\<close>, \<^verbatim>\<open>Limiter\<close>, \<^verbatim>\<open>Limiter_Props\<close> (limiter/) and \<^verbatim>\<open>Traffic\<close> (common/counter): limits and counters;
    \<^verbatim>\<open>User_Table\<close> holds the locale of a table kept in step with a list of users.
  \<^item> \<^verbatim>\<open>Core_Interface\<close> (core/interface.go, core.go, check.go): the interface of a core, the check of a
    configuration, and the locale \<^verbatim>\<open>core_contract\<close>, what a core promises the controller.  \<^verbatim>\<open>Core_Selector\<close>
    (core/selector.go) and \<^verbatim>\<open>Core_Reference\<close>: the selector and an abstract core that keep it.
  \<^item> \<^verbatim>\<open>Dispatcher\<close>, \<^verbatim>\<open>Link_Revocation\<close>, \<^verbatim>\<open>Sniffing\<close>, \<^verbatim>\<open>Routing\<close> (core/xray/app/dispatcher) and \<^verbatim>\<open>Xray_Inbound\<close>,
    \<^verbatim>\<open>Xray_Dns\<close>, \<^verbatim>\<open>Xray_Core\<close>, \<^verbatim>\<open>Xray_Contract\<close> (core/xray).
  \<^item> \<^verbatim>\<open>Sing_Options\<close>, \<^verbatim>\<open>Sing_Core\<close>, \<^verbatim>\<open>Sing_Legacy\<close> (core/sing): the inbound options built from a node, the core with its
    managed users, hooks and counters, the migration of old configurations; \<^verbatim>\<open>Sing_Contract\<close>: it keeps the core
    contract; \<^verbatim>\<open>Sing_Revocation\<close>: admissions and revocations interleaved, step by step.
  \<^item> \<^verbatim>\<open>Sing_Auth\<close>, \<^verbatim>\<open>Sing_Login\<close>, \<^verbatim>\<open>Sing_Users\<close> (patches/): the user tables of the patched authentication services, their
    update, the decision about a new connection, and what a managed list means for them.  \<^verbatim>\<open>Sing_Inbound\<close>,
    \<^verbatim>\<open>Sing_Identity\<close> (sing-box protocol/*/inbound.go): the construction of the managed inbounds, and the way of a login to
    the hooks of the core.  \<^verbatim>\<open>Quic_Sessions\<close> (sing-quic hysteria, hysteria2 and tuic, service.go): the sessions of the QUIC
    services, with the goroutines of their streams interleaved.
  \<^item> \<^verbatim>\<open>Traffic_Report\<close>, \<^verbatim>\<open>Sing_Traffic\<close> (core/sing/user.go, core/hy2/user.go): the traffic reports of the cores, and that
    they are exact.
  \<^item> \<^verbatim>\<open>Hy2_Config\<close>, \<^verbatim>\<open>Hy2_Core\<close>, \<^verbatim>\<open>Hy2_Props\<close> (core/hy2): the configuration of a Hysteria server, the core with the
    users its nodes share, its traffic logger, and where it departs from the core contract; \<^verbatim>\<open>Hy2_Geo\<close>: the loader of
    the geographic databases.
  \<^item> \<^verbatim>\<open>AnyTLS_Session\<close>, \<^verbatim>\<open>AnyTLS_Props\<close>, \<^verbatim>\<open>AnyTLS_Close\<close> (patches/anytls/session): frames with padding on the way out,
    their reception, the streams of a session and its end; \<^verbatim>\<open>AnyTLS_Pool\<close>: the client's pool of idle sessions.
  \<^item> \<^verbatim>\<open>Cert\<close> (node/cert.go, lego.go), \<^verbatim>\<open>Periodic_Task\<close> (common/task) and \<^verbatim>\<open>Controller\<close>, \<^verbatim>\<open>Controller_Tasks\<close>,
    \<^verbatim>\<open>Controller_Props\<close>, \<^verbatim>\<open>Controller_Steps\<close> (node/controller.go, task.go, user.go, reload.go); \<^verbatim>\<open>Node_List\<close>
    (node/node.go): the list of controllers, started and closed together; \<^verbatim>\<open>Server_Reload\<close> (cmd/server.go, conf/watch.go): the
    server command, its reloads and when the configuration is read.
  \<^item> \<^verbatim>\<open>Preflight\<close> (cmd/check.go, core/xray/check.go, core/hy2/check.go beside getCore of core/xray/xray.go): the offline check
    of a configuration, and that what passes it starts.  \<^verbatim>\<open>Commands\<close> (cmd/vlessenc.go, cmd/x25519.go, common/crypt/x25519.go,
    common/configjson): the generators of keys and the normaliser of Hysteria configurations.
  \<^item> \<^verbatim>\<open>VMess_Stream\<close> (sing-vmess service.go, vless/service.go): the request and response headers of VMess, the writes and
    packets of VLESS.  \<^verbatim>\<open>SS_Packets\<close> (sing-shadowsocks shadowaead_2022 and shadowaead, service_multi.go): UDP packets, their
    sessions and replay windows; no session expires in the model.
  \<^item> \<^verbatim>\<open>Xray_Certs\<close>, \<^verbatim>\<open>Xray_TLS\<close> (patches/xray/transport/internet/tls/config.go): the certificates of the listeners with the
    tickers that reload them, the certificate of a handshake, issued certificates, the TLS configuration of a connection and
    the verification of its peer.  \<^verbatim>\<open>Sing_Network\<close> (sing-box route/network.go): the network manager, its parts and its
    updates with announcements and close interleaved.  \<^verbatim>\<open>Sing_Listening\<close> (sing-box protocol/*/inbound.go, sing-quic
    service.go): the start, the accepting and the close of the managed inbounds.

  \<^bold>\<open>Modelling.\<close>  A structure is a record, a pointer shared by several objects an index into a heap list, a
  map an association list without duplicate keys, an error a string in a sum or an option; a panic is an
  error whose message is the runtime's.  Integers that can overflow are 64-bit values with the wrap
  written out (\<^verbatim>\<open>w64\<close>).  Code under a mutex is one step; where goroutines interleave (tasks, admissions
  against revocations) the model is a step relation over those steps.  What is not under src/ - HTTP, JSON
  decoding, ACME, the Xray library, regular expressions, the clock - is a parameter, with its documented
  behaviour as the assumptions of a locale (\<^verbatim>\<open>xray_library\<close>, \<^verbatim>\<open>sing_library\<close>) that is interpreted on a concrete instance.

  \<^bold>\<open>What is shown.\<close>  Every property carries its identifier in the text before its theorem.  The main line: a core
  that keeps the contract (the selector, the Xray core and the sing-box core do) is driven by the controller so that a
  replacement of a node is complete or leaves the old node, users stay in step everywhere and no traffic is
  lost or invented; a revoked user's connections are cut under every interleaving.  Several properties pin
  down behaviour that the code hardly means; they are listed as findings of the manifest.

  \<^bold>\<open>Not modelled.\<close>  The commands that install, start and stop the service (cmd/common.go, action_linux.go, install_linux.go)
  print and call the service manager; common/systime, common/exec, common/rate wrap the clock, processes and a token
  bucket of the libraries, and nothing calls the AES functions of common/crypt; core/imports and core/xray/distro
  register packages; config.pb.go is generated.  Of the patches, the ciphers and bodies of the encrypted streams, the
  options of Hysteria masquerades and realms, certificate pools and ECH, and the record of the network environment that
  patches/sing-box/route/network.go keeps are cryptography and operating system state with little of this program's own
  logic.
\<close>

end
